(* ===== verification/Prelude.thy ===== *)
theory Prelude
  imports Complex_Main "HOL-Library.Word"
begin

text \<open>
  Shared vocabulary of the development: bytes, Python text, dynamically typed Python
  values, the exception classes of the package, results that are either an exception or
  a value, big-endian integers, the decimal and hexadecimal formatting the error messages
  use, and the generic list lemmas the component theories share.
\<close>

unbundle bit_operations_syntax

named_theorems codec_simps \<open>equations that run the frame codec symbolically\<close>
named_theorems raises \<open>which exceptions an operation can raise\<close>

section \<open>Bytes, text and dynamic values\<close>

text \<open>
  A Python \<open>bytes\<close> object is a list of 8-bit words, a \<open>str\<close> a list of code points. A
  string literal of the source is written \<open>lit ''...''\<close>.
\<close>

type_synonym byte = "8 word"
type_synonym bytes = "byte list"
type_synonym pystr = "nat list"

definition lit :: "string \<Rightarrow> pystr" where
  "lit s = map of_char s"

lemma lit_inject: "lit a = lit b \<longleftrightarrow> a = b"
  unfolding lit_def by (rule inj_map_eq_map) (simp add: inj_on_def)

text \<open>Arguments that the source annotates with \<open>object\<close> and checks with \<open>isinstance\<close>.\<close>

datatype pyval = PNone | PBool bool | PInt int | PStr pystr | PBytes bytes

section \<open>Exceptions and results\<close>

text \<open>
  The exception classes of \<open>protocol/errors.py\<close>, \<open>storage\<close> and \<open>transport/aprs\<close>, and the
  built-in classes the modelled code raises. The text carried by an exception is what
  \<open>str(error)\<close> returns.
\<close>

datatype exn =
    ProtocolDecodeError pystr
  | ProtocolEncodeError pystr
  | UnsupportedVersionError pystr
  | UnknownOperationError pystr
  | InvalidFieldError pystr
  | FieldTooLongError pystr int int
  | PayloadLengthError pystr
  | SequenceExhaustedError pystr
  | StorageIntegrityError pystr
  | InvalidCursorError pystr
  | IdempotencyConflictError pystr
  | SqliteIntegrityError
  | AccountExistsError
  | InvalidCredentialsError pystr
  | CarriageError pystr
  | TransactionConflict pystr
  | ValueError pystr
  | TypeError pystr
  | KeyError
  | AssertionError
  | UnicodeEncodeError
  | OverflowError pystr

type_synonym 'a result = "exn + 'a"

text \<open>Sequencing: the first exception ends the computation.\<close>

definition bindE :: "'e + 'a \<Rightarrow> ('a \<Rightarrow> 'e + 'b) \<Rightarrow> 'e + 'b" where
  "bindE m f = (case m of Inl e \<Rightarrow> Inl e | Inr x \<Rightarrow> f x)"

lemma bindE_Inl [simp]: "bindE (Inl e) f = Inl e"
  and bindE_Inr [simp]: "bindE (Inr x) f = f x"
  by (simp_all add: bindE_def)

lemma bindE_eq_Inr: "bindE m f = Inr y \<longleftrightarrow> (\<exists>x. m = Inr x \<and> f x = Inr y)"
  by (cases m) auto

lemma bindE_eq_Inl: "bindE m f = Inl e \<longleftrightarrow> m = Inl e \<or> (\<exists>x. m = Inr x \<and> f x = Inl e)"
  by (cases m) auto

lemma bindE_cong [fundef_cong]:
  "m = m' \<Longrightarrow> (\<And>x. m' = Inr x \<Longrightarrow> f x = f' x) \<Longrightarrow> bindE m f = bindE m' f'"
  by (cases m') auto

lemma bindE_assoc: "bindE (bindE m f) g = bindE m (\<lambda>x. bindE (f x) g)"
  by (cases m) auto

lemma if_Inl_eq_Inr [simp]: "((if b then Inl e else m) = Inr x) \<longleftrightarrow> \<not> b \<and> m = Inr x"
  by simp

definition is_ok :: "'e + 'a \<Rightarrow> bool" where
  "is_ok m = (case m of Inl _ \<Rightarrow> False | Inr _ \<Rightarrow> True)"

lemma is_ok_simps [simp]: "is_ok (Inr x)" "\<not> is_ok (Inl e)"
  by (simp_all add: is_ok_def)

lemma is_ok_iff: "is_ok m \<longleftrightarrow> (\<exists>x. m = Inr x)"
  by (cases m) auto

text \<open>A comprehension whose element expression may raise.\<close>

fun mapE :: "('a \<Rightarrow> 'e + 'b) \<Rightarrow> 'a list \<Rightarrow> 'e + 'b list" where
  "mapE f [] = Inr []"
| "mapE f (x # xs) = bindE (f x) (\<lambda>y. bindE (mapE f xs) (\<lambda>ys. Inr (y # ys)))"

lemma mapE_Inr: "(\<And>x. x \<in> set xs \<Longrightarrow> f x = Inr (g x)) \<Longrightarrow> mapE f xs = Inr (map g xs)"
  by (induction xs) auto

lemma mapE_length: "mapE f xs = Inr ys \<Longrightarrow> length ys = length xs"
  by (induction xs arbitrary: ys) (auto simp: bindE_eq_Inr)

lemma mapE_mem: "mapE f xs = Inr ys \<Longrightarrow> y \<in> set ys \<Longrightarrow> \<exists>x \<in> set xs. f x = Inr y"
  by (induction xs arbitrary: ys) (auto simp: bindE_eq_Inr)

text \<open>The exception classes handlers name, subclasses included.\<close>

fun is_InvalidFieldError :: "exn \<Rightarrow> bool" where
  "is_InvalidFieldError (InvalidFieldError _) = True"
| "is_InvalidFieldError (FieldTooLongError _ _ _) = True"
| "is_InvalidFieldError _ = False"

fun is_ProtocolDecodeError :: "exn \<Rightarrow> bool" where
  "is_ProtocolDecodeError (ProtocolDecodeError _) = True"
| "is_ProtocolDecodeError (UnsupportedVersionError _) = True"
| "is_ProtocolDecodeError (UnknownOperationError _) = True"
| "is_ProtocolDecodeError (PayloadLengthError _) = True"
| "is_ProtocolDecodeError _ = False"

fun is_CarriageError :: "exn \<Rightarrow> bool" where
  "is_CarriageError (CarriageError _) = True"
| "is_CarriageError (TransactionConflict _) = True"
| "is_CarriageError _ = False"

fun is_ValueError :: "exn \<Rightarrow> bool" where
  "is_ValueError (ValueError _) = True"
| "is_ValueError UnicodeEncodeError = True"
| "is_ValueError (InvalidCursorError _) = True"
| "is_ValueError (IdempotencyConflictError _) = True"
| "is_ValueError AccountExistsError = True"
| "is_ValueError (InvalidCredentialsError _) = True"
| "is_ValueError e = is_CarriageError e"

section \<open>Integers and bytes\<close>

text \<open>\<open>value.to_bytes(n, "big")\<close> for a value that fits, and \<open>int.from_bytes(data, "big")\<close>.\<close>

fun to_bytes :: "nat \<Rightarrow> int \<Rightarrow> bytes" where
  "to_bytes 0 v = []"
| "to_bytes (Suc n) v = to_bytes n (v div 256) @ [word_of_int v]"

definition from_bytes :: "bytes \<Rightarrow> int" where
  "from_bytes bs = foldl (\<lambda>acc b. acc * 256 + uint b) 0 bs"

lemma length_to_bytes [simp]: "length (to_bytes n v) = n"
  by (induction n arbitrary: v) auto

lemma from_bytes_Nil [simp]: "from_bytes [] = 0"
  by (simp add: from_bytes_def)

lemma from_bytes_snoc [simp]: "from_bytes (bs @ [b]) = from_bytes bs * 256 + uint b"
  by (simp add: from_bytes_def)

lemma uint_byte_bounds [simp]: "0 \<le> uint (b :: byte)" "uint (b :: byte) < 256"
  "uint (b :: byte) \<le> 255"
  using uint_lt2p [of b] by simp_all

lemma uint_byte_of_int: "uint (word_of_int v :: byte) = v mod 256"
  by (simp add: uint_word_of_int)

lemma from_to_bytes: "0 \<le> v \<Longrightarrow> v < 256 ^ n \<Longrightarrow> from_bytes (to_bytes n v) = v"
proof (induction n arbitrary: v)
  case (Suc n)
  have "v div 256 < 256 ^ n"
    using Suc.prems by (simp add: div_less_iff_less_mult mult.commute)
  with Suc.prems have "from_bytes (to_bytes n (v div 256)) = v div 256"
    by (intro Suc.IH) (simp_all add: pos_imp_zdiv_nonneg_iff)
  then show ?case
    by (simp add: uint_byte_of_int)
qed simp

end
