(* ===== verification/Utf8.thy ===== *)
theory Utf8
  imports Prelude
begin

text \<open>
  \<open>str.encode("utf-8")\<close> and \<open>bytes.decode("utf-8")\<close> in their strict mode, as the codec and
  the storage layer use them: surrogates, overlong forms, stray continuation bytes and
  values above U+10FFFF are errors. Encoding and decoding are mutually inverse, which is
  why a decoded text field re-encodes to exactly the bytes that arrived.
\<close>

definition of_byte :: "byte \<Rightarrow> nat" where "of_byte b = unat b"
definition byte_of :: "nat \<Rightarrow> byte" where "byte_of n = word_of_nat n"

lemma of_byte_byte_of [simp]: "n < 256 \<Longrightarrow> of_byte (byte_of n) = n"
  by (simp add: of_byte_def byte_of_def unat_of_nat)

lemma byte_of_of_byte [simp]: "byte_of (of_byte b) = b"
  by (simp add: of_byte_def byte_of_def)

lemma of_byte_less [simp]: "of_byte b < 256"
  unfolding of_byte_def by (rule order_less_le_trans [OF unsigned_less]) simp

lemma of_byte_inject [simp]: "of_byte a = of_byte b \<longleftrightarrow> a = b"
  by (simp add: of_byte_def unsigned_word_eqI) (metis unsigned_word_eqI)

lemma byte_of_eqI: "of_byte b = n \<Longrightarrow> byte_of n = b"
  by auto

lemma of_byte_0 [simp]: "of_byte 0 = 0"
  by (simp add: of_byte_def)

section \<open>Encoding\<close>

definition utf8_char :: "nat \<Rightarrow> bytes option" where
  "utf8_char c =
     (if c < 0x80 then Some [byte_of c]
      else if c < 0x800 then
        Some [byte_of (0xC0 + c div 0x40), byte_of (0x80 + c mod 0x40)]
      else if c < 0x10000 then
        (if 0xD800 \<le> c \<and> c < 0xE000 then None
         else Some [byte_of (0xE0 + c div 0x1000), byte_of (0x80 + c div 0x40 mod 0x40),
                    byte_of (0x80 + c mod 0x40)])
      else if c < 0x110000 then
        Some [byte_of (0xF0 + c div 0x40000), byte_of (0x80 + c div 0x1000 mod 0x40),
              byte_of (0x80 + c div 0x40 mod 0x40), byte_of (0x80 + c mod 0x40)]
      else None)"

fun utf8_encode :: "pystr \<Rightarrow> bytes option" where
  "utf8_encode [] = Some []"
| "utf8_encode (c # cs) =
     (case utf8_char c of None \<Rightarrow> None
      | Some b \<Rightarrow> (case utf8_encode cs of None \<Rightarrow> None | Some bs \<Rightarrow> Some (b @ bs)))"

section \<open>Decoding\<close>

definition is_cont :: "byte \<Rightarrow> bool" where
  "is_cont b \<longleftrightarrow> 0x80 \<le> of_byte b \<and> of_byte b < 0xC0"

abbreviation cont :: "byte \<Rightarrow> nat" where
  "cont b \<equiv> of_byte b - 0x80"

text \<open>The first code point and the bytes after it.\<close>

fun utf8_next :: "bytes \<Rightarrow> (nat \<times> bytes) option" where
  "utf8_next [] = None"
| "utf8_next (a # bs) =
     (let n = of_byte a in
      if n < 0x80 then Some (n, bs)
      else if 0xC2 \<le> n \<and> n < 0xE0 then
        (case bs of b # r \<Rightarrow>
           if is_cont b then Some ((n - 0xC0) * 0x40 + cont b, r) else None
         | _ \<Rightarrow> None)
      else if 0xE0 \<le> n \<and> n < 0xF0 then
        (case bs of b # c # r \<Rightarrow>
           (let v = (n - 0xE0) * 0x1000 + cont b * 0x40 + cont c in
            if is_cont b \<and> is_cont c \<and> 0x800 \<le> v \<and> \<not> (0xD800 \<le> v \<and> v < 0xE000)
            then Some (v, r) else None)
         | _ \<Rightarrow> None)
      else if 0xF0 \<le> n \<and> n < 0xF5 then
        (case bs of b # c # d # r \<Rightarrow>
           (let v = (n - 0xF0) * 0x40000 + cont b * 0x1000 + cont c * 0x40 + cont d in
            if is_cont b \<and> is_cont c \<and> is_cont d \<and> 0x10000 \<le> v \<and> v < 0x110000
            then Some (v, r) else None)
         | _ \<Rightarrow> None)
      else None)"

lemma utf8_next_shorter: "utf8_next bs = Some (c, r) \<Longrightarrow> length r < length bs"
  by (cases bs) (auto simp: Let_def split: if_splits list.splits)

function utf8_decode :: "bytes \<Rightarrow> pystr option" where
  "utf8_decode bs =
     (if bs = [] then Some []
      else (case utf8_next bs of None \<Rightarrow> None
            | Some (c, r) \<Rightarrow> (case utf8_decode r of None \<Rightarrow> None | Some cs \<Rightarrow> Some (c # cs))))"
  by pat_completeness auto
termination
  by (relation "measure length") (auto simp: utf8_next_shorter)

declare utf8_decode.simps [simp del]

lemma utf8_decode_Nil [simp]: "utf8_decode [] = Some []"
  by (subst utf8_decode.simps) simp

lemma utf8_decode_next:
  "utf8_next bs = Some (c, r) \<Longrightarrow> utf8_decode r = Some cs \<Longrightarrow> utf8_decode bs = Some (c # cs)"
  by (subst utf8_decode.simps) (cases bs; simp)

section \<open>Encoding and decoding are mutually inverse\<close>

lemma is_cont_byte_of [simp]: "n < 0x40 \<Longrightarrow> is_cont (byte_of (0x80 + n))"
  by (simp add: is_cont_def)

lemma digit_div: "k < 0x40 \<Longrightarrow> ((x :: nat) * 0x40 + k) div 0x40 = x"
  and digit_mod: "k < 0x40 \<Longrightarrow> ((x :: nat) * 0x40 + k) mod 0x40 = k"
  by simp_all

lemma split_2: "(c :: nat) = c div 0x40 * 0x40 + c mod 0x40"
  by simp

lemma split_3: "(c :: nat) = c div 0x1000 * 0x1000 + (c div 0x40 mod 0x40) * 0x40 + c mod 0x40"
proof -
  have "c div 0x1000 = c div 0x40 div 0x40" by (simp add: div_mult2_eq [symmetric])
  with split_2 [of c] split_2 [of "c div 0x40"] show ?thesis by linarith
qed

lemma split_4: "(c :: nat) = c div 0x40000 * 0x40000 + (c div 0x1000 mod 0x40) * 0x1000
    + (c div 0x40 mod 0x40) * 0x40 + c mod 0x40"
proof -
  have "c div 0x40000 = c div 0x1000 div 0x40" by (simp add: div_mult2_eq [symmetric])
  with split_3 [of c] split_2 [of "c div 0x1000"] show ?thesis by linarith
qed

lemma utf8_next_char:
  assumes "utf8_char c = Some b" shows "utf8_next (b @ r) = Some (c, r)"
proof -
  consider "c < 0x80" | "0x80 \<le> c" "c < 0x800" | "0x800 \<le> c" "c < 0x10000"
    | "0x10000 \<le> c" "c < 0x110000"
    using assms by (force simp: utf8_char_def split: if_splits)
  then show ?thesis
  proof cases
    case 1
    with assms show ?thesis by (auto simp: utf8_char_def)
  next
    case 2
    then have "c div 0x40 < 0x20" "2 \<le> c div 0x40" by (simp_all add: div_less_iff_less_mult less_eq_div_iff_mult_less_eq)
    with 2 assms show ?thesis by (auto simp: utf8_char_def Let_def)
  next
    case 3
    then have "c div 0x1000 < 0x10" by (simp add: div_less_iff_less_mult)
    with 3 assms split_3 [of c] show ?thesis by (auto simp: utf8_char_def Let_def split: if_splits)
  next
    case 4
    then have "c div 0x40000 < 5" by (simp add: div_less_iff_less_mult)
    with 4 assms split_4 [of c] show ?thesis by (auto simp: utf8_char_def Let_def split: if_splits)
  qed
qed

lemma utf8_char_next:
  assumes "utf8_next bs = Some (c, r)" shows "\<exists>b. utf8_char c = Some b \<and> bs = b @ r \<and> b \<noteq> []"
proof -
  have 2: "utf8_char ((n - 0xC0) * 0x40 + k) = Some [byte_of n, byte_of (0x80 + k)]"
    if "0xC2 \<le> n" "n < 0xE0" "k < 0x40" for n k
  proof -
    have "((n - 0xC0) * 0x40 + k) div 0x40 = n - 0xC0" "((n - 0xC0) * 0x40 + k) mod 0x40 = k"
      using that by simp_all
    moreover have "\<not> (n - 0xC0) * 0x40 + k < 0x80" "(n - 0xC0) * 0x40 + k < 0x800"
      using that by auto
    ultimately show ?thesis using that by (simp add: utf8_char_def)
  qed
  have 3: "utf8_char v = Some [byte_of n, byte_of (0x80 + j), byte_of (0x80 + k)]"
    if "v = (n - 0xE0) * 0x1000 + j * 0x40 + k" "0xE0 \<le> n" "n < 0xF0" "j < 0x40" "k < 0x40"
      "0x800 \<le> v" "\<not> (0xD800 \<le> v \<and> v < 0xE000)" for v n j k
  proof -
    have v: "v = ((n - 0xE0) * 0x40 + j) * 0x40 + k" using that(1) by simp
    have d: "v div 0x40 = (n - 0xE0) * 0x40 + j" "v mod 0x40 = k"
      unfolding v using digit_div digit_mod that by blast+
    have "v div 0x1000 = v div 0x40 div 0x40" by (simp add: div_mult2_eq [symmetric])
    then have "v div 0x1000 = n - 0xE0" using that d by (simp only: digit_div)
    moreover have "v < 0x10000" using that by linarith
    moreover have "v div 0x40 mod 0x40 = j" unfolding d using digit_mod that by blast
    ultimately show ?thesis using d(2) that(2-7) by (auto simp: utf8_char_def)
  qed
  have 4: "utf8_char v = Some [byte_of n, byte_of (0x80 + i), byte_of (0x80 + j), byte_of (0x80 + k)]"
    if "v = (n - 0xF0) * 0x40000 + i * 0x1000 + j * 0x40 + k" "0xF0 \<le> n" "i < 0x40" "j < 0x40"
      "k < 0x40" "0x10000 \<le> v" "v < 0x110000" for v n i j k
  proof -
    have v: "v = (((n - 0xF0) * 0x40 + i) * 0x40 + j) * 0x40 + k" using that(1) by simp
    have d: "v div 0x40 = ((n - 0xF0) * 0x40 + i) * 0x40 + j" "v mod 0x40 = k"
      unfolding v using digit_div digit_mod that by blast+
    have "v div 0x1000 = v div 0x40 div 0x40" by (simp add: div_mult2_eq [symmetric])
    then have d2: "v div 0x1000 = (n - 0xF0) * 0x40 + i" using that d by (simp only: digit_div)
    have "v div 0x40000 = v div 0x1000 div 0x40" by (simp add: div_mult2_eq [symmetric])
    then have "v div 0x40000 = n - 0xF0" using that d2 by (simp only: digit_div)
    moreover have "v div 0x40 mod 0x40 = j" "v div 0x1000 mod 0x40 = i"
      unfolding d d2 using digit_mod that by blast+
    ultimately show ?thesis using d(2) that(2-7) by (auto simp: utf8_char_def)
  qed
  have b: "byte_of (0x80 + (of_byte b - 0x80)) = b" "of_byte b - 0x80 < 0x40" if "is_cont b" for b
    using that by (auto simp: is_cont_def)
  show ?thesis
    using assms
    by (cases bs) (auto simp: Let_def b 2 3 4 utf8_char_def [of "of_byte _"]
        split: if_splits list.splits)
qed

lemma utf8_decode_encode: "utf8_encode s = Some bs \<Longrightarrow> utf8_decode bs = Some s"
proof (induction s arbitrary: bs)
  case (Cons c cs)
  then show ?case
    by (auto split: option.splits intro: utf8_decode_next utf8_next_char)
qed simp

lemma utf8_encode_decode: "utf8_decode bs = Some s \<Longrightarrow> utf8_encode s = Some bs"
proof (induction bs arbitrary: s rule: utf8_decode.induct)
  case (1 bs)
  show ?case
  proof (cases "bs = []")
    case False
    with "1.prems" obtain c r cs where n: "utf8_next bs = Some (c, r)" and "utf8_decode r = Some cs"
      and s: "s = c # cs"
      by (subst (asm) utf8_decode.simps) (auto split: option.splits)
    with "1.IH" False have "utf8_encode cs = Some r" by simp
    with utf8_char_next [OF n] s show ?thesis by auto
  qed (use "1.prems" in simp)
qed

text \<open>ASCII text is its own encoding.\<close>

definition ascii :: "pystr \<Rightarrow> bool" where
  "ascii s \<longleftrightarrow> (\<forall>c \<in> set s. c < 0x80)"

lemma utf8_encode_ascii: "ascii s \<Longrightarrow> utf8_encode s = Some (map byte_of s)"
  by (induction s) (auto simp: ascii_def utf8_char_def)

lemma utf8_decode_ascii:
  "(\<forall>b \<in> set bs. of_byte b < 0x80) \<Longrightarrow> utf8_decode bs = Some (map of_byte bs)"
  by (induction bs) (auto intro: utf8_decode_next)

lemma utf8_encode_ascii_iff:
  assumes "\<forall>b \<in> set bs. of_byte b < 0x80"
  shows "utf8_encode s = Some bs \<longleftrightarrow> s = map of_byte bs"
  using assms utf8_decode_ascii [OF assms] utf8_encode_ascii [of "map of_byte bs"]
  by (auto simp: ascii_def comp_def dest: utf8_decode_encode)

lemma map_of_byte_byte_of [simp]: "ascii s \<Longrightarrow> map (\<lambda>c. of_byte (byte_of c)) s = s"
  by (induction s) (auto simp: ascii_def)

text \<open>Text with no NUL and only ASCII, such as the texts of the package's own errors.\<close>

definition plain :: "pystr \<Rightarrow> bool" where
  "plain s \<longleftrightarrow> (\<forall>c \<in> set s. 0 < c \<and> c < 0x80)"

lemma plain_ascii: "plain s \<Longrightarrow> ascii s"
  by (simp add: plain_def ascii_def)

lemma plain_bytes:
  assumes "plain s" shows "0 \<notin> set (map byte_of s)"
proof
  assume "0 \<in> set (map byte_of s)"
  then obtain c where "c \<in> set s" "byte_of c = 0" by auto
  with assms have "0 < c" "c < 256" "of_byte (byte_of c) = 0" by (auto simp: plain_def)
  then show False by simp
qed

lemma plain_simps [simp]:
  "plain []" "plain (c # s) \<longleftrightarrow> 0 < c \<and> c < 0x80 \<and> plain s"
  "plain (s @ t) \<longleftrightarrow> plain s \<and> plain t"
  by (auto simp: plain_def)

lemma plain_take: "plain s \<Longrightarrow> plain (take n s)"
  by (auto simp: plain_def dest: in_set_takeD)

end
