(* ===== verification/Protocol.thy ===== *)
theory Protocol
  imports Utf8
begin

text \<open>
  Wire constants, enumerations and models of OpenQSP Core version 0.1
  (\<open>protocol/constants.py\<close>, \<open>protocol/models.py\<close>) and the field validators of
  \<open>protocol/codec.py\<close> that both directions of the codec, the server and the storage layer
  use: bounded integers, bounded UTF-8 text and callsigns.
\<close>

section \<open>Constants\<close>

definition PROTOCOL_VERSION :: int where [simp]: "PROTOCOL_VERSION = 0x01"
definition HEADER_SIZE :: nat where [simp]: "HEADER_SIZE = 4"
definition MAX_PAYLOAD_SIZE :: nat where [simp]: "MAX_PAYLOAD_SIZE = 255"
definition MAX_FRAME_SIZE :: nat where [simp]: "MAX_FRAME_SIZE = HEADER_SIZE + MAX_PAYLOAD_SIZE"
definition MIN_CALLSIGN_LENGTH :: int where [simp]: "MIN_CALLSIGN_LENGTH = 3"
definition MAX_CALLSIGN_LENGTH :: int where [simp]: "MAX_CALLSIGN_LENGTH = 12"
definition MIN_MESSAGE_BODY_LENGTH :: int where [simp]: "MIN_MESSAGE_BODY_LENGTH = 1"
definition MAX_MESSAGE_BODY_LENGTH :: int where [simp]: "MAX_MESSAGE_BODY_LENGTH = 208"
definition MIN_BULLETIN_TITLE_LENGTH :: int where [simp]: "MIN_BULLETIN_TITLE_LENGTH = 1"
definition MAX_BULLETIN_TITLE_LENGTH :: int where [simp]: "MAX_BULLETIN_TITLE_LENGTH = 64"
definition MIN_BULLETIN_BODY_LENGTH :: int where [simp]: "MIN_BULLETIN_BODY_LENGTH = 1"
definition MAX_BULLETIN_BODY_LENGTH :: int where [simp]: "MAX_BULLETIN_BODY_LENGTH = 164"
definition MIN_RETRIEVAL_MAX :: int where [simp]: "MIN_RETRIEVAL_MAX = 1"
definition MAX_RETRIEVAL_MAX :: int where [simp]: "MAX_RETRIEVAL_MAX = 20"
definition MAX_ERROR_DETAIL_LENGTH :: int where [simp]: "MAX_ERROR_DETAIL_LENGTH = 64"
definition UNSOLICITED_FLAG :: int where [simp]: "UNSOLICITED_FLAG = 0x01"

section \<open>Enumerations\<close>

datatype operation =
    SEND_MESSAGE | GET_NEW_MESSAGES | GET_NEW_BULLETINS | GET_BULLETIN | GET_CAPABILITIES
  | GET_MESSAGE | MESSAGE | BULLETIN_HEADER | BULLETIN | END_OP | STORED | ERROR | CAPABILITIES

fun op_code :: "operation \<Rightarrow> int" where
  "op_code SEND_MESSAGE = 0x01"
| "op_code GET_NEW_MESSAGES = 0x02"
| "op_code GET_NEW_BULLETINS = 0x03"
| "op_code GET_BULLETIN = 0x04"
| "op_code GET_CAPABILITIES = 0x05"
| "op_code GET_MESSAGE = 0x06"
| "op_code MESSAGE = 0x40"
| "op_code BULLETIN_HEADER = 0x41"
| "op_code BULLETIN = 0x42"
| "op_code END_OP = 0x43"
| "op_code STORED = 0x44"
| "op_code ERROR = 0x45"
| "op_code CAPABILITIES = 0x46"

definition all_operations :: "operation list" where
  "all_operations = [SEND_MESSAGE, GET_NEW_MESSAGES, GET_NEW_BULLETINS, GET_BULLETIN,
     GET_CAPABILITIES, GET_MESSAGE, MESSAGE, BULLETIN_HEADER, BULLETIN, END_OP, STORED, ERROR,
     CAPABILITIES]"

text \<open>\<open>Operation(code)\<close>, with \<open>None\<close> for its \<open>ValueError\<close>.\<close>

definition Operation :: "int \<Rightarrow> operation option" where
  "Operation code = find (\<lambda>x. op_code x = code) all_operations"

datatype error_code =
    INVALID_FRAME | UNSUPPORTED_VERSION | UNKNOWN_OPERATION | INVALID_FIELD | INVALID_CURSOR
  | UNAUTHORIZED | NOT_FOUND | TOO_LARGE | BUSY | INTERNAL_ERROR | REJECTED

fun err_code :: "error_code \<Rightarrow> int" where
  "err_code INVALID_FRAME = 0x01"
| "err_code UNSUPPORTED_VERSION = 0x02"
| "err_code UNKNOWN_OPERATION = 0x03"
| "err_code INVALID_FIELD = 0x04"
| "err_code INVALID_CURSOR = 0x05"
| "err_code UNAUTHORIZED = 0x06"
| "err_code NOT_FOUND = 0x07"
| "err_code TOO_LARGE = 0x08"
| "err_code BUSY = 0x09"
| "err_code INTERNAL_ERROR = 0x0A"
| "err_code REJECTED = 0x0B"

definition all_error_codes :: "error_code list" where
  "all_error_codes = [INVALID_FRAME, UNSUPPORTED_VERSION, UNKNOWN_OPERATION, INVALID_FIELD,
     INVALID_CURSOR, UNAUTHORIZED, NOT_FOUND, TOO_LARGE, BUSY, INTERNAL_ERROR, REJECTED]"

definition ErrorCode :: "int \<Rightarrow> error_code option" where
  "ErrorCode code = find (\<lambda>e. err_code e = code) all_error_codes"

text \<open>The capability bits, and the set the node advertises.\<close>

datatype capability =
    PRIVATE_MESSAGING | BULLETIN_LISTING | BULLETIN_RETRIEVAL | PROACTIVE_PRIVATE_MESSAGES
  | APRS_COMMIT_ACK

fun cap_bit :: "capability \<Rightarrow> int" where
  "cap_bit PRIVATE_MESSAGING = 0x00000001"
| "cap_bit BULLETIN_LISTING = 0x00000002"
| "cap_bit BULLETIN_RETRIEVAL = 0x00000004"
| "cap_bit PROACTIVE_PRIVATE_MESSAGES = 0x00000008"
| "cap_bit APRS_COMMIT_ACK = 0x00000010"

definition IMPLEMENTED_CAPABILITIES :: int where
  "IMPLEMENTED_CAPABILITIES =
     cap_bit PRIVATE_MESSAGING OR cap_bit BULLETIN_LISTING OR cap_bit BULLETIN_RETRIEVAL
     OR cap_bit PROACTIVE_PRIVATE_MESSAGES"

lemma Operation_op_code [simp]: "Operation (op_code o') = Some o'"
  by (cases o') (simp_all add: Operation_def all_operations_def)

lemma Operation_Some: "Operation c = Some o' \<Longrightarrow> op_code o' = c"
  by (auto simp: Operation_def find_Some_iff)

lemma op_code_bounds [simp]: "0 < op_code o'" "op_code o' < 256" "op_code o' \<noteq> 0"
  by (cases o'; simp)+

lemma op_code_inject [simp]: "op_code a = op_code b \<longleftrightarrow> a = b"
  by (metis Operation_op_code option.inject)

lemma ErrorCode_err_code [simp]: "ErrorCode (err_code e) = Some e"
  by (cases e) (simp_all add: ErrorCode_def all_error_codes_def)

lemma ErrorCode_Some: "ErrorCode c = Some e \<Longrightarrow> err_code e = c"
  by (auto simp: ErrorCode_def find_Some_iff)

lemma err_code_bounds [simp]: "0 < err_code e" "err_code e < 256"
  by (cases e; simp)+

text \<open>\<open>IntEnum\<close> members are ordered by their code.\<close>

instantiation operation :: linorder
begin

definition less_eq_operation :: "operation \<Rightarrow> operation \<Rightarrow> bool" where
  "less_eq_operation a b \<longleftrightarrow> op_code a \<le> op_code b"

definition less_operation :: "operation \<Rightarrow> operation \<Rightarrow> bool" where
  "less_operation a b \<longleftrightarrow> op_code a < op_code b"

instance
  by standard (auto simp: less_eq_operation_def less_operation_def)

end

section \<open>Models\<close>

text \<open>
  The dataclasses of \<open>models.py\<close> as one tagged union; the field names are prefixed by the
  class. \<open>Error.request_operation\<close> is \<open>Operation | int\<close>.
\<close>

datatype request_operation = Op operation | Raw int

datatype protocol_object =
    SendMessage (sm_created_at: int) (sm_recipient: pystr) (sm_body: pystr)
  | GetNewMessages (gm_since: int) (gm_max: int)
  | GetNewBulletins (gb_since: int) (gb_max: int)
  | GetBulletin (gbs_sequence: int)
  | GetCapabilities
  | GetMessage (gm_peer: pystr) (gm_conversation_sequence: int)
  | Capabilities (cap_version: int) (cap_bits: int)
  | Message (m_sequence: int) (m_conversation_sequence: int) (m_created_at: int)
      (m_author: pystr) (m_recipient: pystr) (m_body: pystr)
  | BulletinHeader (bh_sequence: int) (bh_created_at: int) (bh_author: pystr) (bh_title: pystr)
  | Bulletin (b_sequence: int) (b_created_at: int) (b_author: pystr) (b_title: pystr)
      (b_body: pystr)
  | End (end_operation: operation) (end_count: int) (end_next_since: int) (end_has_more: bool)
  | Stored
  | Error (err_operation: request_operation) (err_error_code: error_code) (err_detail: pystr)

section \<open>Formatting used by error messages\<close>

fun dec_nat :: "nat \<Rightarrow> pystr" where
  "dec_nat n = (if n < 10 then [48 + n] else dec_nat (n div 10) @ [48 + n mod 10])"

declare dec_nat.simps [simp del]

definition dec :: "int \<Rightarrow> pystr" where
  "dec i = (if i < 0 then 45 # dec_nat (nat (- i)) else dec_nat (nat i))"

definition hex_digit :: "nat \<Rightarrow> nat" where
  "hex_digit d = (if d < 10 then 48 + d else 87 + d)"

text \<open>\<open>0x{value:02x}\<close> for a byte value.\<close>

definition hex_byte :: "int \<Rightarrow> pystr" where
  "hex_byte v = lit ''0x'' @ [hex_digit (nat v div 16), hex_digit (nat v mod 16)]"

end
