(* ===== verification/Field_Codec.thy ===== *)
theory Field_Codec
  imports Protocol
begin

text \<open>
  The field validators of \<open>protocol/codec.py\<close>: \<open>_integer\<close>, \<open>_u8\<close>, \<open>_u32\<close>, \<open>_text_bytes\<close>,
  \<open>_decode_text\<close>, \<open>_callsign_bytes\<close>, \<open>validate_callsign\<close>, \<open>normalize_callsign\<close>,
  \<open>_decode_callsign\<close> and \<open>_prefix\<close>, with the exact conditions under which each succeeds.
\<close>

section \<open>Integers\<close>

definition integer :: "pyval \<Rightarrow> nat \<Rightarrow> pystr \<Rightarrow> bool \<Rightarrow> int result" where
  "integer value bits field nonzero =
     (case value of
        PInt v \<Rightarrow>
          (let maximum = push_bit bits 1 - 1 in
           if \<not> (0 \<le> v \<and> v \<le> maximum) \<or> (nonzero \<and> v = 0)
           then Inl (InvalidFieldError (field @ lit '' must be a '' @
                  (if nonzero then lit ''non-zero '' else lit '''') @ lit ''unsigned '' @
                  dec (int bits) @ lit ''-bit value''))
           else Inr v)
      | _ \<Rightarrow> Inl (InvalidFieldError (field @ lit '' must be an integer'')))"

definition u8 :: "pyval \<Rightarrow> pystr \<Rightarrow> bool \<Rightarrow> bytes result" where
  "u8 value field nonzero = bindE (integer value 8 field nonzero) (\<lambda>v. Inr (to_bytes 1 v))"

definition u32 :: "pyval \<Rightarrow> pystr \<Rightarrow> bool \<Rightarrow> bytes result" where
  "u32 value field nonzero = bindE (integer value 32 field nonzero) (\<lambda>v. Inr (to_bytes 4 v))"

lemma integer_Inr [codec_simps]:
  "integer (PInt v) bits field nz = Inr w \<longleftrightarrow> w = v \<and> 0 \<le> v \<and> v < 2 ^ bits \<and> (nz \<longrightarrow> v \<noteq> 0)"
  by (auto simp: integer_def Let_def push_bit_eq_mult)

lemma integer_ok:
  "0 \<le> v \<Longrightarrow> v < 2 ^ bits \<Longrightarrow> (nz \<longrightarrow> v \<noteq> 0) \<Longrightarrow> integer (PInt v) bits field nz = Inr v"
  by (simp add: integer_Inr)

lemma u8_Inr [codec_simps]:
  "u8 (PInt v) field nz = Inr bs \<longleftrightarrow> bs = to_bytes 1 v \<and> 0 \<le> v \<and> v < 256 \<and> (nz \<longrightarrow> v \<noteq> 0)"
  by (auto simp: u8_def bindE_eq_Inr integer_Inr)

lemma u32_Inr [codec_simps]:
  "u32 (PInt v) field nz = Inr bs \<longleftrightarrow>
     bs = to_bytes 4 v \<and> 0 \<le> v \<and> v < 2 ^ 32 \<and> (nz \<longrightarrow> v \<noteq> 0)"
  by (auto simp: u32_def bindE_eq_Inr integer_Inr)

section \<open>Text\<close>

definition between_message :: "pystr \<Rightarrow> int \<Rightarrow> int \<Rightarrow> pystr" where
  "between_message field mn mx =
     field @ lit '' must contain between '' @ dec mn @ lit '' and '' @ dec mx @ lit '' UTF-8 bytes''"

text \<open>\<open>str(error)\<close> for the exceptions of \<open>protocol/errors.py\<close>.\<close>

fun exn_str :: "exn \<Rightarrow> pystr" where
  "exn_str (ProtocolDecodeError m) = m"
| "exn_str (ProtocolEncodeError m) = m"
| "exn_str (UnsupportedVersionError m) = m"
| "exn_str (UnknownOperationError m) = m"
| "exn_str (InvalidFieldError m) = m"
| "exn_str (FieldTooLongError field mn mx) = between_message field mn mx"
| "exn_str (PayloadLengthError m) = m"
| "exn_str (ValueError m) = m"
| "exn_str (TypeError m) = m"
| "exn_str (CarriageError m) = m"
| "exn_str (TransactionConflict m) = m"
| "exn_str (OverflowError m) = m"
| "exn_str (SequenceExhaustedError m) = m"
| "exn_str (StorageIntegrityError m) = m"
| "exn_str (InvalidCursorError m) = m"
| "exn_str (IdempotencyConflictError m) = m"
| "exn_str (InvalidCredentialsError m) = m"
| "exn_str AccountExistsError = lit ''account already exists''"
| "exn_str _ = []"

definition text_bytes :: "pyval \<Rightarrow> pystr \<Rightarrow> int \<Rightarrow> int \<Rightarrow> bytes result" where
  "text_bytes value field mn mx =
     (case value of
        PStr s \<Rightarrow>
          (case utf8_encode s of
             None \<Rightarrow> Inl (InvalidFieldError (field @ lit '' must be valid UTF-8''))
           | Some encoded \<Rightarrow>
               if 0 \<in> set encoded
               then Inl (InvalidFieldError (field @ lit '' must not contain NUL''))
               else if int (length encoded) > mx then Inl (FieldTooLongError field mn mx)
               else if int (length encoded) < mn
               then Inl (InvalidFieldError (between_message field mn mx))
               else Inr encoded)
      | _ \<Rightarrow> Inl (InvalidFieldError (field @ lit '' must be text'')))"

definition decode_text :: "bytes \<Rightarrow> pystr \<Rightarrow> int \<Rightarrow> int \<Rightarrow> pystr result" where
  "decode_text data field mn mx =
     (if \<not> (mn \<le> int (length data) \<and> int (length data) \<le> mx)
      then Inl (InvalidFieldError (between_message field mn mx))
      else if 0 \<in> set data then Inl (InvalidFieldError (field @ lit '' must not contain NUL''))
      else (case utf8_decode data of
              None \<Rightarrow> Inl (InvalidFieldError (field @ lit '' must be valid UTF-8''))
            | Some s \<Rightarrow> Inr s))"

text \<open>The specification of a text field: which text it accepts, and its bytes.\<close>

definition text_ok :: "int \<Rightarrow> int \<Rightarrow> pystr \<Rightarrow> bytes \<Rightarrow> bool" where
  "text_ok mn mx s bs \<longleftrightarrow>
     utf8_encode s = Some bs \<and> 0 \<notin> set bs \<and> mn \<le> int (length bs) \<and> int (length bs) \<le> mx"

lemma text_bytes_Inr [codec_simps]:
  "text_bytes (PStr s) field mn mx = Inr bs \<longleftrightarrow> text_ok mn mx s bs"
  by (auto simp: text_bytes_def text_ok_def split: option.splits)

lemma decode_text_Inr [codec_simps]:
  "decode_text bs field mn mx = Inr s \<longleftrightarrow> text_ok mn mx s bs"
  by (auto simp: decode_text_def text_ok_def split: option.splits
      dest: utf8_decode_encode utf8_encode_decode)

lemma text_ok_length: "text_ok mn mx s bs \<Longrightarrow> int (length bs) \<le> mx"
  by (simp add: text_ok_def)

lemma text_ok_unique: "text_ok mn mx s bs \<Longrightarrow> text_ok mn' mx' s bs' \<Longrightarrow> bs' = bs"
  by (simp add: text_ok_def)

section \<open>Callsigns\<close>

definition is_digit_byte :: "byte \<Rightarrow> bool" where
  "is_digit_byte b \<longleftrightarrow> 48 \<le> of_byte b \<and> of_byte b < 58"

definition is_upper_byte :: "byte \<Rightarrow> bool" where
  "is_upper_byte b \<longleftrightarrow> 65 \<le> of_byte b \<and> of_byte b < 91"

definition callsign_bytes :: "pyval \<Rightarrow> pystr \<Rightarrow> bytes result" where
  "callsign_bytes value field =
     bindE (text_bytes value field MIN_CALLSIGN_LENGTH MAX_CALLSIGN_LENGTH) (\<lambda>encoded.
       if \<exists>b \<in> set encoded. \<not> is_digit_byte b \<and> \<not> is_upper_byte b
       then Inl (InvalidFieldError
              (field @ lit '' must contain only uppercase ASCII A-Z and 0-9''))
       else if \<not> (\<exists>b \<in> set encoded. is_upper_byte b) \<or> \<not> (\<exists>b \<in> set encoded. is_digit_byte b)
       then Inl (InvalidFieldError
              (field @ lit '' must contain at least one letter and one number''))
       else Inr encoded)"

fun the_str :: "pyval \<Rightarrow> pystr" where
  "the_str (PStr s) = s"
| "the_str _ = []"

definition validate_callsign :: "pyval \<Rightarrow> pystr \<Rightarrow> pystr result" where
  "validate_callsign value field = bindE (callsign_bytes value field) (\<lambda>_. Inr (the_str value))"

text \<open>The normal form of a callsign.\<close>

definition is_digit :: "nat \<Rightarrow> bool" where "is_digit c \<longleftrightarrow> 48 \<le> c \<and> c < 58"
definition is_upper :: "nat \<Rightarrow> bool" where "is_upper c \<longleftrightarrow> 65 \<le> c \<and> c < 91"

definition callsign_ok :: "pystr \<Rightarrow> bool" where
  "callsign_ok s \<longleftrightarrow> 3 \<le> length s \<and> length s \<le> 12 \<and> (\<forall>c \<in> set s. is_digit c \<or> is_upper c)
     \<and> (\<exists>c \<in> set s. is_digit c) \<and> (\<exists>c \<in> set s. is_upper c)"

lemma callsign_ok_ascii: "callsign_ok s \<Longrightarrow> ascii s"
  by (auto simp: callsign_ok_def ascii_def is_digit_def is_upper_def)

lemma callsign_class [simp]:
  "c < 256 \<Longrightarrow> is_digit_byte (byte_of c) = is_digit c"
  "c < 256 \<Longrightarrow> is_upper_byte (byte_of c) = is_upper c"
  by (simp_all add: is_digit_byte_def is_upper_byte_def is_digit_def is_upper_def)

lemma byte_class_ascii: "is_digit_byte b \<or> is_upper_byte b \<Longrightarrow> of_byte b < 0x80"
  by (auto simp: is_digit_byte_def is_upper_byte_def)

lemma byte_class_of_byte [simp]:
  "is_digit (of_byte b) = is_digit_byte b" "is_upper (of_byte b) = is_upper_byte b"
  by (simp_all add: is_digit_byte_def is_upper_byte_def is_digit_def is_upper_def)

lemma callsign_chars: "callsign_ok s \<Longrightarrow> c \<in> set s \<Longrightarrow> 0 < c \<and> c < 0x80"
  by (auto simp: callsign_ok_def is_digit_def is_upper_def)

lemma callsign_ok_bytes: "callsign_ok (map of_byte bs) \<longleftrightarrow>
    3 \<le> length bs \<and> length bs \<le> 12 \<and> (\<forall>b \<in> set bs. is_digit_byte b \<or> is_upper_byte b)
    \<and> (\<exists>b \<in> set bs. is_digit_byte b) \<and> (\<exists>b \<in> set bs. is_upper_byte b)"
  by (simp add: callsign_ok_def)

lemma callsign_bytes_Inr [codec_simps]:
  "callsign_bytes (PStr s) field = Inr bs \<longleftrightarrow> callsign_ok s \<and> bs = map byte_of s"
proof
  assume *: "callsign_bytes (PStr s) field = Inr bs"
  then have t: "text_ok 3 12 s bs" and c: "\<forall>b \<in> set bs. is_digit_byte b \<or> is_upper_byte b"
    and e: "\<exists>b \<in> set bs. is_digit_byte b" "\<exists>b \<in> set bs. is_upper_byte b"
    by (auto simp: callsign_bytes_def bindE_eq_Inr text_bytes_Inr split: if_splits)
  from c have "\<forall>b \<in> set bs. of_byte b < 0x80" by (blast intro: byte_class_ascii)
  with t have s: "s = map of_byte bs" by (simp add: text_ok_def utf8_encode_ascii_iff)
  with t c e show "callsign_ok s \<and> bs = map byte_of s"
    by (simp add: callsign_ok_bytes text_ok_def comp_def)
next
  assume "callsign_ok s \<and> bs = map byte_of s"
  then have ok: "callsign_ok s" and bs: "bs = map byte_of s" by auto
  have s: "s = map of_byte bs"
    using callsign_ok_ascii [OF ok] unfolding bs by (simp add: comp_def)
  from ok have "callsign_ok (map of_byte bs)" using s by simp
  moreover have "utf8_encode s = Some bs"
    using utf8_encode_ascii [OF callsign_ok_ascii [OF ok]] bs by simp
  moreover have "0 \<notin> set bs"
    using callsign_chars [OF ok] unfolding bs by (intro plain_bytes) (simp add: plain_def)
  ultimately show "callsign_bytes (PStr s) field = Inr bs"
    by (auto simp: callsign_bytes_def text_bytes_def callsign_ok_bytes)
qed

lemma validate_callsign_Inr [codec_simps]:
  "validate_callsign (PStr s) field = Inr t \<longleftrightarrow> callsign_ok s \<and> t = s"
  by (auto simp: validate_callsign_def bindE_eq_Inr callsign_bytes_Inr)

definition decode_callsign :: "bytes \<Rightarrow> pystr \<Rightarrow> pystr result" where
  "decode_callsign data field =
     (if \<exists>b \<in> set data. \<not> of_byte b < 0x80
      then Inl (InvalidFieldError (field @ lit '' must be ASCII''))
      else (let value = map of_byte data in
            bindE (callsign_bytes (PStr value) field) (\<lambda>_. Inr value)))"

lemma decode_callsign_Inr [codec_simps]:
  "decode_callsign data field = Inr s \<longleftrightarrow> callsign_ok s \<and> data = map byte_of s"
proof
  assume "decode_callsign data field = Inr s"
  then have "callsign_ok s \<and> s = map of_byte data"
    by (auto simp: decode_callsign_def Let_def bindE_eq_Inr callsign_bytes_Inr split: if_splits)
  moreover have "map byte_of (map of_byte data) = data" by (simp add: comp_def)
  ultimately show "callsign_ok s \<and> data = map byte_of s" by metis
next
  assume *: "callsign_ok s \<and> data = map byte_of s"
  then have s: "map of_byte data = s" by (simp add: comp_def callsign_ok_ascii)
  with * have "\<forall>b \<in> set data. of_byte b < 0x80"
    using callsign_ok_bytes [of data] by (auto intro: byte_class_ascii)
  with * s show "decode_callsign data field = Inr s"
    unfolding decode_callsign_def Let_def s
    by (auto simp: bindE_eq_Inr callsign_bytes_Inr)
qed

definition len_prefix :: "bytes \<Rightarrow> bytes result" where
  "len_prefix data = bindE (u8 (PInt (int (length data))) (lit ''length'') False) (\<lambda>n. Inr (n @ data))"

lemma len_prefix_Inr [codec_simps]:
  "len_prefix data = Inr bs \<longleftrightarrow> bs = to_bytes 1 (int (length data)) @ data \<and> length data < 256"
  by (auto simp: len_prefix_def u8_Inr bindE_eq_Inr)

section \<open>Normalising an operating callsign\<close>

text \<open>
  \<open>str.strip\<close> removes the Unicode white space listed here. \<open>str.upper\<close> is given on ASCII and
  on the code points whose upper case contains an ASCII letter; every other non-ASCII code
  point has a non-ASCII upper case, which the validation rejects just as it rejects the code
  point itself, so it is left unchanged.
\<close>

definition is_space :: "nat \<Rightarrow> bool" where
  "is_space c \<longleftrightarrow> 9 \<le> c \<and> c \<le> 13 \<or> 28 \<le> c \<and> c \<le> 32 \<or> c = 0x85 \<or> c = 0xA0 \<or> c = 0x1680 \<or>
     0x2000 \<le> c \<and> c \<le> 0x200A \<or> c = 0x2028 \<or> c = 0x2029 \<or> c = 0x202F \<or> c = 0x205F \<or> c = 0x3000"

definition strip :: "pystr \<Rightarrow> pystr" where
  "strip s = rev (dropWhile is_space (rev (dropWhile is_space s)))"

definition special_upper :: "(nat \<times> pystr) list" where
  "special_upper =
     [(0xDF, [83, 83]), (0x131, [73]), (0x149, [0x2BC, 78]), (0x17F, [83]), (0x1F0, [74, 0x30C]),
      (0x1E96, [72, 0x331]), (0x1E97, [84, 0x308]), (0x1E98, [87, 0x30A]), (0x1E99, [89, 0x30A]),
      (0x1E9A, [65, 0x2BE]), (0xFB00, [70, 70]), (0xFB01, [70, 73]), (0xFB02, [70, 76]),
      (0xFB03, [70, 70, 73]), (0xFB04, [70, 70, 76]), (0xFB05, [83, 84]), (0xFB06, [83, 84])]"

definition upper_char :: "nat \<Rightarrow> pystr" where
  "upper_char c =
     (if 97 \<le> c \<and> c < 123 then [c - 32]
      else (case map_of special_upper c of Some s \<Rightarrow> s | None \<Rightarrow> [c]))"

definition upper :: "pystr \<Rightarrow> pystr" where
  "upper s = concat (map upper_char s)"

definition normalize_callsign :: "pyval \<Rightarrow> pystr \<Rightarrow> pystr result" where
  "normalize_callsign value field =
     (case value of
        PStr s \<Rightarrow>
          (let normalized = upper (strip s);
               normalized = takeWhile (\<lambda>c. c \<noteq> 45) (takeWhile (\<lambda>c. c \<noteq> 47) normalized)
           in validate_callsign (PStr normalized) field)
      | _ \<Rightarrow> Inl (InvalidFieldError (field @ lit '' must be text'')))"

lemma normalize_callsign_ok: "normalize_callsign v field = Inr t \<Longrightarrow> callsign_ok t"
  by (auto simp: normalize_callsign_def Let_def validate_callsign_Inr split: pyval.splits)

lemma callsign_range: "callsign_ok s \<Longrightarrow> c \<in> set s \<Longrightarrow> 48 \<le> c \<and> c < 58 \<or> 65 \<le> c \<and> c < 91"
  by (auto simp: callsign_ok_def is_digit_def is_upper_def)

lemma strip_callsign:
  assumes "callsign_ok s" shows "strip s = s"
proof -
  have "\<not> is_space c" if "c \<in> set s" for c
  proof -
    have "48 \<le> c \<and> c < 91" using callsign_range [OF assms that] by linarith
    then show ?thesis by (simp add: is_space_def)
  qed
  then have d: "dropWhile is_space t = t" if "set t \<subseteq> set s" for t
    using that by (cases t) auto
  show ?thesis unfolding strip_def by (subst d, simp)+ simp
qed

lemma upper_callsign:
  assumes "callsign_ok s" shows "upper s = s"
proof -
  have "upper_char c = [c]" if "c \<in> set s" for c
  proof -
    have "48 \<le> c \<and> c < 91" using callsign_range [OF assms that] by linarith
    then show ?thesis by (simp add: upper_char_def special_upper_def)
  qed
  then have "upper s = concat (map (\<lambda>c. [c]) s)" unfolding upper_def by (metis map_cong)
  then show ?thesis by simp
qed

lemma normalize_callsign_id:
  assumes "callsign_ok s" shows "normalize_callsign (PStr s) field = Inr s"
proof -
  have "c \<noteq> 47 \<and> c \<noteq> 45" if "c \<in> set s" for c
    using callsign_range [OF assms that] by auto
  then have t: "takeWhile (\<lambda>c. c \<noteq> 47) s = s" "takeWhile (\<lambda>c. c \<noteq> 45) s = s"
    by (auto simp: takeWhile_eq_all_conv)
  show ?thesis
    unfolding normalize_callsign_def strip_callsign [OF assms] upper_callsign [OF assms]
      pyval.case Let_def t by (simp add: assms validate_callsign_Inr)
qed

end
