(* ===== verification/Codec.thy ===== *)
theory Codec
  imports Field_Codec
begin

text \<open>
  The payload codecs of \<open>protocol/codec.py\<close>: the bounds-checked reader, one decoder and one
  encoder per operation, and the two dispatch tables. Every decoder is the exact inverse of
  its encoder; the only asymmetry is CAPABILITIES, whose decoder accepts a protocol version
  of zero.
\<close>

section \<open>The payload reader\<close>

record reader =
  rd_payload :: bytes
  rd_offset :: nat

definition Reader :: "bytes \<Rightarrow> reader" where
  "Reader payload = \<lparr>rd_payload = payload, rd_offset = 0\<rparr>"

definition rd_take :: "reader \<Rightarrow> nat \<Rightarrow> pystr \<Rightarrow> (bytes \<times> reader) result" where
  "rd_take r n field =
     (let end = rd_offset r + n in
      if end > length (rd_payload r)
      then Inl (PayloadLengthError (lit ''payload is truncated while reading '' @ field))
      else Inr (take n (drop (rd_offset r) (rd_payload r)), r\<lparr>rd_offset := end\<rparr>))"

definition rd_u8 :: "reader \<Rightarrow> pystr \<Rightarrow> (int \<times> reader) result" where
  "rd_u8 r field = bindE (rd_take r 1 field) (\<lambda>(bs, r). Inr (uint (bs ! 0), r))"

definition rd_u32 :: "reader \<Rightarrow> pystr \<Rightarrow> (int \<times> reader) result" where
  "rd_u32 r field = bindE (rd_take r 4 field) (\<lambda>(bs, r). Inr (from_bytes bs, r))"

definition rd_prefixed :: "reader \<Rightarrow> pystr \<Rightarrow> (bytes \<times> reader) result" where
  "rd_prefixed r field =
     bindE (rd_u8 r (field @ lit ''_length'')) (\<lambda>(n, r). rd_take r (nat n) field)"

definition rd_finish :: "reader \<Rightarrow> unit result" where
  "rd_finish r =
     (if rd_offset r \<noteq> length (rd_payload r)
      then Inl (PayloadLengthError (lit ''payload contains trailing bytes'')) else Inr ())"

definition require_exact :: "bytes \<Rightarrow> nat \<Rightarrow> pystr \<Rightarrow> unit result" where
  "require_exact payload n operation =
     (if length payload \<noteq> n
      then Inl (PayloadLengthError
             (operation @ lit '' payload must be exactly '' @ dec (int n) @ lit '' bytes''))
      else Inr ())"

section \<open>Client requests\<close>

definition decode_send_message :: "bytes \<Rightarrow> protocol_object result" where
  "decode_send_message payload =
     bindE (rd_u32 (Reader payload) (lit ''created_at'')) (\<lambda>(created_at, r).
     bindE (rd_prefixed r (lit ''recipient'')) (\<lambda>(bs, r).
     bindE (decode_callsign bs (lit ''recipient'')) (\<lambda>recipient.
     bindE (rd_prefixed r (lit ''body'')) (\<lambda>(bs, r).
     bindE (decode_text bs (lit ''body'') MIN_MESSAGE_BODY_LENGTH MAX_MESSAGE_BODY_LENGTH) (\<lambda>body.
     bindE (rd_finish r) (\<lambda>_.
     bindE (integer (PInt created_at) 32 (lit ''created_at'') True) (\<lambda>_.
     Inr (SendMessage created_at recipient body))))))))"

definition encode_send_message :: "int \<Rightarrow> pystr \<Rightarrow> pystr \<Rightarrow> bytes result" where
  "encode_send_message created_at recipient body =
     bindE (callsign_bytes (PStr recipient) (lit ''recipient'')) (\<lambda>recipient.
     bindE (text_bytes (PStr body) (lit ''body'') MIN_MESSAGE_BODY_LENGTH MAX_MESSAGE_BODY_LENGTH)
       (\<lambda>body.
     bindE (u32 (PInt created_at) (lit ''created_at'') True) (\<lambda>c.
     bindE (len_prefix recipient) (\<lambda>p1. bindE (len_prefix body) (\<lambda>p2. Inr (c @ p1 @ p2))))))"

definition decode_retrieval ::
  "bytes \<Rightarrow> (int \<Rightarrow> int \<Rightarrow> protocol_object) \<Rightarrow> pystr \<Rightarrow> protocol_object result" where
  "decode_retrieval payload model name =
     bindE (require_exact payload 5 name) (\<lambda>_.
       let since = from_bytes (take 4 payload); maximum = uint (payload ! 4) in
       if \<not> (MIN_RETRIEVAL_MAX \<le> maximum \<and> maximum \<le> MAX_RETRIEVAL_MAX)
       then Inl (InvalidFieldError (lit ''max must be between '' @ dec MIN_RETRIEVAL_MAX @
              lit '' and '' @ dec MAX_RETRIEVAL_MAX))
       else Inr (model since maximum))"

definition encode_retrieval :: "int \<Rightarrow> int \<Rightarrow> bytes result" where
  "encode_retrieval since mx =
     bindE (integer (PInt mx) 8 (lit ''max'') False) (\<lambda>maximum.
       if \<not> (MIN_RETRIEVAL_MAX \<le> maximum \<and> maximum \<le> MAX_RETRIEVAL_MAX)
       then Inl (InvalidFieldError (lit ''max must be between '' @ dec MIN_RETRIEVAL_MAX @
              lit '' and '' @ dec MAX_RETRIEVAL_MAX))
       else bindE (u32 (PInt since) (lit ''since'') False) (\<lambda>s.
              Inr (s @ [word_of_int maximum])))"

definition decode_get_new_messages :: "bytes \<Rightarrow> protocol_object result" where
  "decode_get_new_messages payload = decode_retrieval payload GetNewMessages (lit ''GET_NEW_MESSAGES'')"

definition decode_get_new_bulletins :: "bytes \<Rightarrow> protocol_object result" where
  "decode_get_new_bulletins payload =
     decode_retrieval payload GetNewBulletins (lit ''GET_NEW_BULLETINS'')"

definition decode_get_bulletin :: "bytes \<Rightarrow> protocol_object result" where
  "decode_get_bulletin payload =
     bindE (require_exact payload 4 (lit ''GET_BULLETIN'')) (\<lambda>_.
       let sequence = from_bytes payload in
       bindE (integer (PInt sequence) 32 (lit ''sequence'') True) (\<lambda>_. Inr (GetBulletin sequence)))"

definition encode_get_bulletin :: "int \<Rightarrow> bytes result" where
  "encode_get_bulletin sequence = u32 (PInt sequence) (lit ''sequence'') True"

definition decode_get_capabilities :: "bytes \<Rightarrow> protocol_object result" where
  "decode_get_capabilities payload =
     bindE (require_exact payload 0 (lit ''GET_CAPABILITIES'')) (\<lambda>_. Inr GetCapabilities)"

section \<open>Node responses\<close>

definition decode_capabilities :: "bytes \<Rightarrow> protocol_object result" where
  "decode_capabilities payload =
     bindE (require_exact payload 5 (lit ''CAPABILITIES'')) (\<lambda>_.
       Inr (Capabilities (uint (payload ! 0)) (from_bytes (drop 1 payload))))"

definition encode_capabilities :: "int \<Rightarrow> int \<Rightarrow> bytes result" where
  "encode_capabilities protocol_version capabilities =
     bindE (u8 (PInt protocol_version) (lit ''protocol_version'') True) (\<lambda>v.
     bindE (u32 (PInt capabilities) (lit ''capabilities'') False) (\<lambda>c. Inr (v @ c)))"

definition decode_message :: "bytes \<Rightarrow> protocol_object result" where
  "decode_message payload =
     bindE (rd_u32 (Reader payload) (lit ''sequence'')) (\<lambda>(sequence, r).
     bindE (rd_u32 r (lit ''conversation_sequence'')) (\<lambda>(conversation_sequence, r).
     bindE (rd_u32 r (lit ''created_at'')) (\<lambda>(created_at, r).
     bindE (rd_prefixed r (lit ''author'')) (\<lambda>(bs, r).
     bindE (decode_callsign bs (lit ''author'')) (\<lambda>author.
     bindE (rd_prefixed r (lit ''recipient'')) (\<lambda>(bs, r).
     bindE (decode_callsign bs (lit ''recipient'')) (\<lambda>recipient.
     bindE (rd_prefixed r (lit ''body'')) (\<lambda>(bs, r).
     bindE (decode_text bs (lit ''body'') MIN_MESSAGE_BODY_LENGTH MAX_MESSAGE_BODY_LENGTH) (\<lambda>body.
     bindE (rd_finish r) (\<lambda>_.
     bindE (integer (PInt sequence) 32 (lit ''sequence'') True) (\<lambda>_.
     bindE (integer (PInt conversation_sequence) 32 (lit ''conversation_sequence'') True) (\<lambda>_.
     bindE (integer (PInt created_at) 32 (lit ''created_at'') True) (\<lambda>_.
     Inr (Message sequence conversation_sequence created_at author recipient body))))))))))))))"

definition encode_message ::
  "int \<Rightarrow> int \<Rightarrow> int \<Rightarrow> pystr \<Rightarrow> pystr \<Rightarrow> pystr \<Rightarrow> bytes result" where
  "encode_message sequence conversation_sequence created_at author recipient body =
     bindE (callsign_bytes (PStr author) (lit ''author'')) (\<lambda>author.
     bindE (callsign_bytes (PStr recipient) (lit ''recipient'')) (\<lambda>recipient.
     bindE (text_bytes (PStr body) (lit ''body'') MIN_MESSAGE_BODY_LENGTH MAX_MESSAGE_BODY_LENGTH)
       (\<lambda>body.
     bindE (u32 (PInt sequence) (lit ''sequence'') True) (\<lambda>s.
     bindE (u32 (PInt conversation_sequence) (lit ''conversation_sequence'') True) (\<lambda>cs.
     bindE (u32 (PInt created_at) (lit ''created_at'') True) (\<lambda>c.
     bindE (len_prefix author) (\<lambda>p1. bindE (len_prefix recipient) (\<lambda>p2.
     bindE (len_prefix body) (\<lambda>p3. Inr (s @ cs @ c @ p1 @ p2 @ p3))))))))))"

definition decode_bulletin_header :: "bytes \<Rightarrow> protocol_object result" where
  "decode_bulletin_header payload =
     bindE (rd_u32 (Reader payload) (lit ''sequence'')) (\<lambda>(sequence, r).
     bindE (rd_u32 r (lit ''created_at'')) (\<lambda>(created_at, r).
     bindE (rd_prefixed r (lit ''author'')) (\<lambda>(bs, r).
     bindE (decode_callsign bs (lit ''author'')) (\<lambda>author.
     bindE (rd_prefixed r (lit ''title'')) (\<lambda>(bs, r).
     bindE (decode_text bs (lit ''title'') MIN_BULLETIN_TITLE_LENGTH MAX_BULLETIN_TITLE_LENGTH)
       (\<lambda>title.
     bindE (rd_finish r) (\<lambda>_.
     bindE (integer (PInt sequence) 32 (lit ''sequence'') True) (\<lambda>_.
     bindE (integer (PInt created_at) 32 (lit ''created_at'') True) (\<lambda>_.
     Inr (BulletinHeader sequence created_at author title))))))))))"

definition encode_bulletin_header :: "int \<Rightarrow> int \<Rightarrow> pystr \<Rightarrow> pystr \<Rightarrow> bytes result" where
  "encode_bulletin_header sequence created_at author title =
     bindE (callsign_bytes (PStr author) (lit ''author'')) (\<lambda>author.
     bindE (text_bytes (PStr title) (lit ''title'') MIN_BULLETIN_TITLE_LENGTH
         MAX_BULLETIN_TITLE_LENGTH) (\<lambda>title.
     bindE (u32 (PInt sequence) (lit ''sequence'') True) (\<lambda>s.
     bindE (u32 (PInt created_at) (lit ''created_at'') True) (\<lambda>c.
     bindE (len_prefix author) (\<lambda>p1. bindE (len_prefix title) (\<lambda>p2. Inr (s @ c @ p1 @ p2)))))))"

definition decode_bulletin :: "bytes \<Rightarrow> protocol_object result" where
  "decode_bulletin payload =
     bindE (rd_u32 (Reader payload) (lit ''sequence'')) (\<lambda>(sequence, r).
     bindE (rd_u32 r (lit ''created_at'')) (\<lambda>(created_at, r).
     bindE (rd_prefixed r (lit ''author'')) (\<lambda>(bs, r).
     bindE (decode_callsign bs (lit ''author'')) (\<lambda>author.
     bindE (rd_prefixed r (lit ''title'')) (\<lambda>(bs, r).
     bindE (decode_text bs (lit ''title'') MIN_BULLETIN_TITLE_LENGTH MAX_BULLETIN_TITLE_LENGTH)
       (\<lambda>title.
     bindE (rd_prefixed r (lit ''body'')) (\<lambda>(bs, r).
     bindE (decode_text bs (lit ''body'') MIN_BULLETIN_BODY_LENGTH MAX_BULLETIN_BODY_LENGTH) (\<lambda>body.
     bindE (rd_finish r) (\<lambda>_.
     bindE (integer (PInt sequence) 32 (lit ''sequence'') True) (\<lambda>_.
     bindE (integer (PInt created_at) 32 (lit ''created_at'') True) (\<lambda>_.
     Inr (Bulletin sequence created_at author title body))))))))))))"

definition encode_bulletin ::
  "int \<Rightarrow> int \<Rightarrow> pystr \<Rightarrow> pystr \<Rightarrow> pystr \<Rightarrow> bytes result" where
  "encode_bulletin sequence created_at author title body =
     bindE (callsign_bytes (PStr author) (lit ''author'')) (\<lambda>author.
     bindE (text_bytes (PStr title) (lit ''title'') MIN_BULLETIN_TITLE_LENGTH
         MAX_BULLETIN_TITLE_LENGTH) (\<lambda>title.
     bindE (text_bytes (PStr body) (lit ''body'') MIN_BULLETIN_BODY_LENGTH
         MAX_BULLETIN_BODY_LENGTH) (\<lambda>body.
     bindE (u32 (PInt sequence) (lit ''sequence'') True) (\<lambda>s.
     bindE (u32 (PInt created_at) (lit ''created_at'') True) (\<lambda>c.
     bindE (len_prefix author) (\<lambda>p1. bindE (len_prefix title) (\<lambda>p2.
     bindE (len_prefix body) (\<lambda>p3. Inr (s @ c @ p1 @ p2 @ p3)))))))))"

definition end_operation_error :: exn where
  "end_operation_error =
     InvalidFieldError (lit ''END request_operation must be a retrieval operation'')"

definition decode_end :: "bytes \<Rightarrow> protocol_object result" where
  "decode_end payload =
     bindE (require_exact payload 7 (lit ''END'')) (\<lambda>_.
       case Operation (uint (payload ! 0)) of
         None \<Rightarrow> Inl end_operation_error
       | Some request_operation \<Rightarrow>
           if request_operation \<notin> {GET_NEW_MESSAGES, GET_NEW_BULLETINS}
           then Inl end_operation_error
           else if uint (payload ! 6) \<notin> {0, 1}
           then Inl (InvalidFieldError (lit ''has_more must be 0x00 or 0x01''))
           else Inr (End request_operation (uint (payload ! 1))
                  (from_bytes (take 4 (drop 2 payload))) (uint (payload ! 6) \<noteq> 0)))"

definition encode_end :: "operation \<Rightarrow> int \<Rightarrow> int \<Rightarrow> bool \<Rightarrow> bytes result" where
  "encode_end request_operation returned_count next_since has_more =
     (if request_operation \<notin> {GET_NEW_MESSAGES, GET_NEW_BULLETINS}
      then Inl end_operation_error
      else bindE (u8 (PInt returned_count) (lit ''returned_count'') False) (\<lambda>n.
           bindE (u32 (PInt next_since) (lit ''next_since'') False) (\<lambda>s.
             Inr ([word_of_int (op_code request_operation)] @ n @ s @
                  [if has_more then 1 else 0]))))"

definition decode_stored :: "bytes \<Rightarrow> protocol_object result" where
  "decode_stored payload = bindE (require_exact payload 0 (lit ''STORED'')) (\<lambda>_. Inr Stored)"

definition decode_error :: "bytes \<Rightarrow> protocol_object result" where
  "decode_error payload =
     bindE (rd_u8 (Reader payload) (lit ''request_operation'')) (\<lambda>(operation_code, r).
     bindE (rd_u8 r (lit ''error_code'')) (\<lambda>(error_code, r).
     bindE (rd_prefixed r (lit ''detail'')) (\<lambda>(bs, r).
     bindE (decode_text bs (lit ''detail'') 0 MAX_ERROR_DETAIL_LENGTH) (\<lambda>detail.
     bindE (rd_finish r) (\<lambda>_.
     bindE (if operation_code = 0 then Inr (Raw 0)
            else (case Operation operation_code of
                    Some o' \<Rightarrow> Inr (Op o')
                  | None \<Rightarrow> Inl (InvalidFieldError
                      (lit ''unknown request_operation: '' @ hex_byte operation_code))))
       (\<lambda>request_operation.
     case ErrorCode error_code of
       None \<Rightarrow> Inl (InvalidFieldError (lit ''unknown ERROR code: '' @ hex_byte error_code))
     | Some code \<Rightarrow> Inr (Error request_operation code detail)))))))"

definition encode_error :: "request_operation \<Rightarrow> error_code \<Rightarrow> pystr \<Rightarrow> bytes result" where
  "encode_error request_operation error_code detail =
     bindE (case request_operation of
              Raw n \<Rightarrow> if n = 0 then Inr 0
                else Inl (InvalidFieldError
                       (lit ''request_operation must be zero or a known Operation''))
            | Op o' \<Rightarrow> Inr (op_code o'))
       (\<lambda>operation_code.
     bindE (text_bytes (PStr detail) (lit ''detail'') 0 MAX_ERROR_DETAIL_LENGTH) (\<lambda>detail.
     bindE (len_prefix detail) (\<lambda>p.
       Inr ([word_of_int operation_code, word_of_int (err_code error_code)] @ p))))"

section \<open>Dispatch tables\<close>

text \<open>\<open>_DECODERS[operation]\<close>: there is no entry for GET_MESSAGE, so indexing raises.\<close>

fun DECODERS :: "operation \<Rightarrow> bytes \<Rightarrow> protocol_object result" where
  "DECODERS SEND_MESSAGE = decode_send_message"
| "DECODERS GET_NEW_MESSAGES = decode_get_new_messages"
| "DECODERS GET_NEW_BULLETINS = decode_get_new_bulletins"
| "DECODERS GET_BULLETIN = decode_get_bulletin"
| "DECODERS GET_CAPABILITIES = decode_get_capabilities"
| "DECODERS GET_MESSAGE = (\<lambda>_. Inl KeyError)"
| "DECODERS MESSAGE = decode_message"
| "DECODERS BULLETIN_HEADER = decode_bulletin_header"
| "DECODERS BULLETIN = decode_bulletin"
| "DECODERS END_OP = decode_end"
| "DECODERS STORED = decode_stored"
| "DECODERS ERROR = decode_error"
| "DECODERS CAPABILITIES = decode_capabilities"

text \<open>\<open>_ENCODERS.get(type(obj))\<close>: the operation and the encoded payload.\<close>

fun ENCODERS :: "protocol_object \<Rightarrow> (operation \<times> bytes result) option" where
  "ENCODERS (SendMessage c r b) = Some (SEND_MESSAGE, encode_send_message c r b)"
| "ENCODERS (GetNewMessages s m) = Some (GET_NEW_MESSAGES, encode_retrieval s m)"
| "ENCODERS (GetNewBulletins s m) = Some (GET_NEW_BULLETINS, encode_retrieval s m)"
| "ENCODERS (GetBulletin s) = Some (GET_BULLETIN, encode_get_bulletin s)"
| "ENCODERS GetCapabilities = Some (GET_CAPABILITIES, Inr [])"
| "ENCODERS (GetMessage p s) = None"
| "ENCODERS (Message s cs c a r b) = Some (MESSAGE, encode_message s cs c a r b)"
| "ENCODERS (BulletinHeader s c a t) = Some (BULLETIN_HEADER, encode_bulletin_header s c a t)"
| "ENCODERS (Bulletin s c a t b) = Some (BULLETIN, encode_bulletin s c a t b)"
| "ENCODERS (End p n s h) = Some (END_OP, encode_end p n s h)"
| "ENCODERS Stored = Some (STORED, Inr [])"
| "ENCODERS (Error p e d) = Some (ERROR, encode_error p e d)"
| "ENCODERS (Capabilities v c) = Some (CAPABILITIES, encode_capabilities v c)"

end
