(* ===== verification/Frame.thy ===== *)
theory Frame
  imports Codec
begin

text \<open>
  Complete Core frames: the common header and the two codec entry points of
  \<open>protocol/codec.py\<close>, the separate GET_MESSAGE wire codec of
  \<open>protocol/get_message_wire.py\<close>, and the package-level functions of \<open>protocol/__init__.py\<close>
  that choose between them. The package-level functions are what the server, the transports
  and the client call.
\<close>

section \<open>Header and generic frames\<close>

definition decode_header :: "pyval \<Rightarrow> bool \<Rightarrow> (operation \<times> int \<times> bytes) result" where
  "decode_header value allow_unsolicited =
     (case value of
        PBytes data \<Rightarrow>
          if length data < HEADER_SIZE
          then Inl (PayloadLengthError (lit ''frame is too short to contain the Core header''))
          else if length data > MAX_FRAME_SIZE
          then Inl (PayloadLengthError (lit ''frame exceeds the version 0.1 maximum size''))
          else (let version = uint (data ! 0); operation_code = uint (data ! 1);
                    flags = uint (data ! 2); payload_length = uint (data ! 3) in
            if version \<noteq> PROTOCOL_VERSION
            then Inl (UnsupportedVersionError
                   (lit ''unsupported protocol version: '' @ hex_byte version))
            else (case Operation operation_code of
              None \<Rightarrow> Inl (UnknownOperationError
                   (lit ''unknown version 0.1 operation: '' @ hex_byte operation_code))
            | Some operation \<Rightarrow>
                let permitted_flags = (if allow_unsolicited then UNSOLICITED_FLAG else 0) in
                if flags AND NOT permitted_flags \<noteq> 0
                then Inl (InvalidFieldError
                       (lit ''unsupported version 0.1 flags: '' @ hex_byte flags))
                else if flags AND UNSOLICITED_FLAG \<noteq> 0 \<and> operation \<notin> {MESSAGE, BULLETIN_HEADER}
                then Inl (InvalidFieldError
                       (lit ''UNSOLICITED is valid only for MESSAGE and BULLETIN_HEADER''))
                else (let actual = length data - HEADER_SIZE in
                  if int actual \<noteq> payload_length
                  then Inl (PayloadLengthError
                         (lit ''declared payload length does not match the complete frame ('' @
                          dec payload_length @ lit '' declared, '' @ dec (int actual) @
                          lit '' present)''))
                  else Inr (operation, flags, drop HEADER_SIZE data))))
      | _ \<Rightarrow> Inl (ProtocolDecodeError (lit ''a Core frame must be bytes'')))"

definition codec_decode_frame :: "pyval \<Rightarrow> protocol_object result" where
  "codec_decode_frame data =
     bindE (decode_header data False) (\<lambda>(operation, _, payload). DECODERS operation payload)"

definition codec_decode_frame_with_flags :: "pyval \<Rightarrow> (protocol_object \<times> int) result" where
  "codec_decode_frame_with_flags data =
     bindE (decode_header data True) (\<lambda>(operation, flags, payload).
       bindE (DECODERS operation payload) (\<lambda>obj. Inr (obj, flags)))"

definition codec_encode_frame :: "protocol_object \<Rightarrow> bool \<Rightarrow> bytes result" where
  "codec_encode_frame obj unsolicited =
     (case ENCODERS obj of
        None \<Rightarrow> Inl (ProtocolEncodeError (lit ''unsupported protocol object: GetMessage''))
      | Some (operation, encoded) \<Rightarrow>
          if unsolicited \<and> operation \<notin> {MESSAGE, BULLETIN_HEADER}
          then Inl (ProtocolEncodeError
                 (lit ''UNSOLICITED is valid only for MESSAGE and BULLETIN_HEADER''))
          else bindE encoded (\<lambda>payload.
            if length payload > 0xFF
            then Inl (ProtocolEncodeError (lit ''payload exceeds the version 0.1 maximum size''))
            else (let flags = (if unsolicited then UNSOLICITED_FLAG else 0) in
              Inr ([word_of_int PROTOCOL_VERSION, word_of_int (op_code operation),
                    word_of_int flags, word_of_int (int (length payload))] @ payload))))"

section \<open>The GET_MESSAGE request\<close>

text \<open>
  \<open>isalnum\<close>, \<open>isalpha\<close>, \<open>isdigit\<close> and \<open>upper\<close> are applied to text that has already passed
  the ASCII codec.
\<close>

definition is_alpha :: "nat \<Rightarrow> bool" where
  "is_alpha c \<longleftrightarrow> is_upper c \<or> 97 \<le> c \<and> c < 123"

definition peer_ok :: "pystr \<Rightarrow> bool" where
  "peer_ok peer \<longleftrightarrow>
     \<not> (\<not> (peer \<noteq> [] \<and> (\<forall>c \<in> set peer. is_alpha c \<or> is_digit c)) \<or> peer \<noteq> upper peer
        \<or> \<not> (\<exists>c \<in> set peer. is_alpha c) \<or> \<not> (\<exists>c \<in> set peer. is_digit c))"

definition decode_get_message_frame :: "pyval \<Rightarrow> protocol_object result" where
  "decode_get_message_frame value =
     (case value of
        PBytes data \<Rightarrow>
          if length data < HEADER_SIZE
          then Inl (PayloadLengthError (lit ''frame is too short to contain the Core header''))
          else (let version = uint (data ! 0); operation = uint (data ! 1);
                    flags = uint (data ! 2); payload_length = uint (data ! 3);
                    payload = drop HEADER_SIZE data in
            if version \<noteq> PROTOCOL_VERSION \<or> operation \<noteq> op_code GET_MESSAGE \<or> flags \<noteq> 0
            then Inl (InvalidFieldError (lit ''invalid GET_MESSAGE header''))
            else if payload_length \<noteq> int (length payload)
            then Inl (PayloadLengthError
                   (lit ''declared GET_MESSAGE payload length does not match frame''))
            else if int (length payload) < 1 + MIN_CALLSIGN_LENGTH + 4
            then Inl (PayloadLengthError (lit ''GET_MESSAGE payload is truncated''))
            else (let peer_length = uint (payload ! 0) in
              if \<not> (MIN_CALLSIGN_LENGTH \<le> peer_length \<and> peer_length \<le> MAX_CALLSIGN_LENGTH)
              then Inl (InvalidFieldError (lit ''peer has invalid callsign length''))
              else if int (length payload) \<noteq> 1 + peer_length + 4
              then Inl (PayloadLengthError
                     (lit ''GET_MESSAGE payload contains trailing or missing bytes''))
              else (let raw_peer = take (nat peer_length) (drop 1 payload) in
                if \<exists>b \<in> set raw_peer. \<not> of_byte b < 0x80
                then Inl (InvalidFieldError (lit ''peer must be ASCII''))
                else (let peer = map of_byte raw_peer in
                  if \<not> peer_ok peer
                  then Inl (InvalidFieldError
                         (lit ''peer must be a normalized OpenQSP callsign''))
                  else (let sequence = from_bytes (drop (length payload - 4) payload) in
                    if sequence = 0
                    then Inl (InvalidFieldError (lit ''conversation_sequence must be non-zero''))
                    else Inr (GetMessage peer sequence))))))
      | _ \<Rightarrow> Inl (ProtocolDecodeError (lit ''a Core frame must be bytes'')))"

definition encode_get_message_frame :: "pystr \<Rightarrow> int \<Rightarrow> bytes result" where
  "encode_get_message_frame value_peer sequence =
     (if \<not> ascii value_peer then Inl UnicodeEncodeError
      else (let peer = map byte_of value_peer in
        if \<not> (MIN_CALLSIGN_LENGTH \<le> int (length peer) \<and> int (length peer) \<le> MAX_CALLSIGN_LENGTH)
        then Inl (InvalidFieldError (lit ''peer has invalid callsign length''))
        else if \<not> peer_ok value_peer
        then Inl (InvalidFieldError (lit ''peer must be a normalized OpenQSP callsign''))
        else if \<not> (1 \<le> sequence \<and> sequence \<le> 0xFFFFFFFF)
        then Inl (InvalidFieldError
               (lit ''conversation_sequence must be a non-zero unsigned 32-bit value''))
        else (let payload = [word_of_int (int (length peer))] @ peer @ to_bytes 4 sequence in
          Inr ([word_of_int PROTOCOL_VERSION, word_of_int (op_code GET_MESSAGE), 0,
                word_of_int (int (length payload))] @ payload))))"

section \<open>Package-level entry points\<close>

fun is_get_message_frame :: "pyval \<Rightarrow> bool" where
  "is_get_message_frame (PBytes data) \<longleftrightarrow>
     length data \<ge> 2 \<and> uint (data ! 0) = PROTOCOL_VERSION \<and> uint (data ! 1) = op_code GET_MESSAGE"
| "is_get_message_frame _ \<longleftrightarrow> False"

definition decode_frame :: "pyval \<Rightarrow> protocol_object result" where
  "decode_frame data =
     (if is_get_message_frame data then decode_get_message_frame data
      else codec_decode_frame data)"

definition decode_frame_with_flags :: "pyval \<Rightarrow> (protocol_object \<times> int) result" where
  "decode_frame_with_flags data =
     (if is_get_message_frame data
      then bindE (decode_get_message_frame data) (\<lambda>obj. Inr (obj, 0))
      else codec_decode_frame_with_flags data)"

definition encode_frame :: "protocol_object \<Rightarrow> bool \<Rightarrow> bytes result" where
  "encode_frame obj unsolicited =
     (case obj of
        GetMessage peer sequence \<Rightarrow>
          if unsolicited
          then Inl (ValueError (lit ''UNSOLICITED is invalid for GET_MESSAGE''))
          else encode_get_message_frame peer sequence
      | _ \<Rightarrow> codec_encode_frame obj unsolicited)"

end
