(* ===== verification/Codec_Inverse.thy ===== *)
theory Codec_Inverse
  imports Frame
begin

text \<open>
  Every payload decoder is the inverse of its encoder: a decoder returns an object exactly on
  the bytes the encoder produces for it. The lemmas \<open>decode_*_iff\<close> state this in one
  equivalence per operation.
\<close>

section \<open>Reading a payload\<close>

text \<open>The unread bytes, and a reader positioned after a prefix.\<close>

definition rest :: "reader \<Rightarrow> bytes" where
  "rest r = drop (rd_offset r) (rd_payload r)"

definition after :: "bytes \<Rightarrow> bytes \<Rightarrow> reader" where
  "after pre xs = \<lparr>rd_payload = pre @ xs, rd_offset = length pre\<rparr>"

lemma Reader_after: "Reader p = after [] p"
  by (simp add: Reader_def after_def)

lemma rest_Reader [simp]: "rest (Reader p) = p"
  by (simp add: rest_def Reader_def)

lemma rd_take_rest:
  "rd_take r n f = Inr (v, r') \<Longrightarrow> rest r = v @ rest r' \<and> length v = n"
  by (auto simp: rd_take_def Let_def rest_def min_def split: if_splits)
    (metis add.commute append_take_drop_id drop_drop)

lemma rd_u8_rest: "rd_u8 r f = Inr (v, r') \<Longrightarrow> rest r = word_of_int v # rest r' \<and> 0 \<le> v \<and> v < 256"
  by (auto simp: rd_u8_def bindE_eq_Inr length_Suc_conv dest!: rd_take_rest)

lemma rd_finish_rest: "rd_finish r = Inr u \<Longrightarrow> rest r = []"
  by (auto simp: rd_finish_def rest_def split: if_splits)

lemma to_from_bytes: "to_bytes (length bs) (from_bytes bs) = bs"
proof (induction bs rule: rev_induct)
  case (snoc b bs)
  have "(word_of_int (from_bytes bs * 256 + uint b) :: byte) = b"
    by (rule word_uint_eqI) (simp add: uint_byte_of_int del: of_int_add of_int_mult)
  with snoc show ?case by (simp del: of_int_add of_int_mult)
qed simp

lemma from_bytes_bounds: "0 \<le> from_bytes bs \<and> from_bytes bs < 256 ^ length bs"
proof (induction bs rule: rev_induct)
  case (snoc b bs)
  have "uint b < 256" "0 \<le> uint b" by simp_all
  moreover have "from_bytes bs * 256 + 256 \<le> 256 * 256 ^ length bs" "0 \<le> from_bytes bs"
    using snoc by linarith+
  ultimately have "0 \<le> from_bytes bs * 256 + uint b"
    "from_bytes bs * 256 + uint b < 256 * 256 ^ length bs" by linarith+
  then show ?case by simp
qed simp

lemma rd_u32_rest:
  assumes "rd_u32 r f = Inr (v, r')"
  shows "rest r = to_bytes 4 v @ rest r' \<and> 0 \<le> v \<and> v < 2 ^ 32"
proof -
  obtain bs where t: "rd_take r 4 f = Inr (bs, r')" and v: "v = from_bytes bs"
    using assms by (auto simp: rd_u32_def bindE_eq_Inr)
  with rd_take_rest [OF t] to_from_bytes [of bs] from_bytes_bounds [of bs] show ?thesis by simp
qed

lemma rd_prefixed_rest:
  assumes "rd_prefixed r f = Inr (v, r')"
  shows "rest r = word_of_int (int (length v)) # v @ rest r' \<and> length v < 256"
proof -
  obtain n r1 where "rd_u8 r (f @ lit ''_length'') = Inr (n, r1)" and "rd_take r1 (nat n) f = Inr (v, r')"
    using assms by (auto simp: rd_prefixed_def bindE_eq_Inr)
  from rd_u8_rest [OF this(1)] rd_take_rest [OF this(2)] show ?thesis by auto
qed

lemmas rd_rest = rd_u8_rest rd_u32_rest rd_prefixed_rest rd_finish_rest

lemma rd_take_after [simp]:
  "length v = n \<Longrightarrow> rd_take (after pre (v @ xs)) n f = Inr (v, after (pre @ v) xs)"
  by (simp add: rd_take_def after_def)

lemma rd_u8_after [simp]: "rd_u8 (after pre (b # xs)) f = Inr (uint b, after (pre @ [b]) xs)"
  using rd_take_after [of "[b]" 1 pre xs f] by (simp add: rd_u8_def del: rd_take_after)

lemma rd_u32_after [simp]:
  "0 \<le> v \<Longrightarrow> v < 2 ^ 32 \<Longrightarrow>
     rd_u32 (after pre (to_bytes 4 v @ xs)) f = Inr (v, after (pre @ to_bytes 4 v) xs)"
  by (simp add: rd_u32_def from_to_bytes)

lemma rd_prefixed_after [simp]:
  "uint b = int (length v) \<Longrightarrow>
     rd_prefixed (after pre (b # v @ xs)) f = Inr (v, after (pre @ b # v) xs)"
  "uint b = int (length v) \<Longrightarrow>
     rd_prefixed (after pre (b # v)) f = Inr (v, after (pre @ b # v) [])"
  using rd_take_after [of v _ "pre @ [b]" "[]" f]
  by (simp_all add: rd_prefixed_def)

lemma rd_finish_after [simp]: "rd_finish (after pre []) = Inr ()"
  by (simp add: rd_finish_def after_def)

section \<open>One inverse per operation\<close>

lemma require_exact_Inr [simp]: "require_exact p n f = Inr u \<longleftrightarrow> length p = n"
  by (simp add: require_exact_def)

lemma require_exact_ok [simp]: "length p = n \<Longrightarrow> require_exact p n f = Inr ()"
  by (simp add: require_exact_def)

lemma callsign_ok_length: "callsign_ok s \<Longrightarrow> length s \<le> 12"
  by (simp add: callsign_ok_def)

lemma uint_small [simp]: "0 \<le> v \<Longrightarrow> v < 256 \<Longrightarrow> uint (word_of_int v :: byte) = v"
  by (simp add: uint_byte_of_int)

lemma uint_small_nat [simp]: "n < 256 \<Longrightarrow> uint (word_of_nat n :: byte) = int n"
  by (metis of_int_of_nat_eq of_nat_0_le_iff of_nat_less_numeral_iff uint_small)

lemma decode_send_message_iff:
  "decode_send_message p = Inr obj \<longleftrightarrow>
     (\<exists>c r b. obj = SendMessage c r b \<and> encode_send_message c r b = Inr p)" (is "?d \<longleftrightarrow> ?e")
proof
  assume ?d then show ?e
    by (auto simp: decode_send_message_def encode_send_message_def bindE_eq_Inr codec_simps dest!: rd_rest)
next
  assume ?e then show ?d
    by (auto simp: decode_send_message_def encode_send_message_def bindE_eq_Inr codec_simps
        Reader_after dest: callsign_ok_length)
qed

lemma decode_message_iff:
  "decode_message p = Inr obj \<longleftrightarrow>
     (\<exists>s cs c a r b. obj = Message s cs c a r b \<and> encode_message s cs c a r b = Inr p)" (is "?d \<longleftrightarrow> ?e")
proof
  assume ?d then show ?e
    by (auto simp: decode_message_def encode_message_def bindE_eq_Inr codec_simps dest!: rd_rest)
next
  assume ?e then show ?d
    by (auto simp: decode_message_def encode_message_def bindE_eq_Inr codec_simps
        Reader_after dest: callsign_ok_length)
qed

lemma decode_bulletin_header_iff:
  "decode_bulletin_header p = Inr obj \<longleftrightarrow>
     (\<exists>s c a t. obj = BulletinHeader s c a t \<and> encode_bulletin_header s c a t = Inr p)" (is "?d \<longleftrightarrow> ?e")
proof
  assume ?d then show ?e
    by (auto simp: decode_bulletin_header_def encode_bulletin_header_def bindE_eq_Inr codec_simps dest!: rd_rest)
next
  assume ?e then show ?d
    by (auto simp: decode_bulletin_header_def encode_bulletin_header_def bindE_eq_Inr codec_simps
        Reader_after dest: callsign_ok_length)
qed

lemma decode_bulletin_iff:
  "decode_bulletin p = Inr obj \<longleftrightarrow>
     (\<exists>s c a t b. obj = Bulletin s c a t b \<and> encode_bulletin s c a t b = Inr p)" (is "?d \<longleftrightarrow> ?e")
proof
  assume ?d then show ?e
    by (auto simp: decode_bulletin_def encode_bulletin_def bindE_eq_Inr codec_simps dest!: rd_rest) blast
next
  assume ?e then show ?d
    by (auto simp: decode_bulletin_def encode_bulletin_def bindE_eq_Inr codec_simps
        Reader_after dest: callsign_ok_length)
qed

lemma to_bytes_from_bytes: "length bs = n \<Longrightarrow> to_bytes n (from_bytes bs) = bs"
  using to_from_bytes by blast

lemma u32_from_bytes: "length bs = 4 \<Longrightarrow> 0 \<le> from_bytes bs \<and> from_bytes bs < 2 ^ 32"
  using from_bytes_bounds [of bs] by simp

lemma split_last: "length p = Suc n \<Longrightarrow> p = take n p @ [p ! n]"
  using take_Suc_conv_app_nth [of n p] by simp

lemma decode_retrieval_iff:
  "decode_retrieval p model name = Inr obj \<longleftrightarrow>
     (\<exists>s m. obj = model s m \<and> encode_retrieval s m = Inr p)" (is "?d \<longleftrightarrow> ?e")
proof
  assume ?d
  then have l: "length p = 5" and b: "1 \<le> uint (p ! 4)" "uint (p ! 4) \<le> 20"
    and o': "obj = model (from_bytes (take 4 p)) (uint (p ! 4))"
    by (auto simp: decode_retrieval_def bindE_eq_Inr Let_def split: if_splits)
  have "encode_retrieval (from_bytes (take 4 p)) (uint (p ! 4)) = Inr (take 4 p @ [p ! 4])"
    using b l u32_from_bytes [of "take 4 p"] to_bytes_from_bytes [of "take 4 p" 4]
    by (simp add: encode_retrieval_def bindE_eq_Inr codec_simps)
  with o' split_last [of p 4] l show ?e by auto
next
  assume ?e then show ?d
    by (auto simp: encode_retrieval_def decode_retrieval_def bindE_eq_Inr codec_simps Let_def
        from_to_bytes nth_append split: if_splits)
qed

lemma decode_get_bulletin_iff:
  "decode_get_bulletin p = Inr obj \<longleftrightarrow> (\<exists>s. obj = GetBulletin s \<and> encode_get_bulletin s = Inr p)"
  by (auto simp: decode_get_bulletin_def encode_get_bulletin_def bindE_eq_Inr codec_simps Let_def
      from_to_bytes to_bytes_from_bytes)

lemma decode_capabilities_iff:
  "decode_capabilities p = Inr obj \<longleftrightarrow>
     (\<exists>v c. obj = Capabilities v c \<and>
        (encode_capabilities v c = Inr p \<or>
         v = 0 \<and> 0 \<le> c \<and> c < 2 ^ 32 \<and> p = 0 # to_bytes 4 c))" (is "?d \<longleftrightarrow> ?e")
proof
  assume ?d
  then obtain b bs where p: "p = b # bs" and l: "length bs = 4"
    and o': "obj = Capabilities (uint b) (from_bytes bs)"
    by (auto simp: decode_capabilities_def bindE_eq_Inr numeral_eq_Suc length_Suc_conv)
  then show ?e
    using u32_from_bytes [OF l] to_bytes_from_bytes [OF l]
    by (auto simp: encode_capabilities_def bindE_eq_Inr codec_simps uint_0_iff)
next
  assume ?e then show ?d
    by (auto simp: encode_capabilities_def decode_capabilities_def bindE_eq_Inr codec_simps
        from_to_bytes)
qed

lemma list7: "length p = 7 \<Longrightarrow> p = [p ! 0, p ! 1] @ take 4 (drop 2 p) @ [p ! 6]"
  by (auto simp: numeral_eq_Suc length_Suc_conv)

lemma decode_end_iff:
  "decode_end p = Inr obj \<longleftrightarrow>
     (\<exists>q n s h. obj = End q n s h \<and> encode_end q n s h = Inr p)" (is "?d \<longleftrightarrow> ?e")
proof
  assume ?d
  then obtain q where l: "length p = 7" and q: "Operation (uint (p ! 0)) = Some q"
      "q \<in> {GET_NEW_MESSAGES, GET_NEW_BULLETINS}" and h: "uint (p ! 6) \<in> {0, 1}"
    and o': "obj = End q (uint (p ! 1)) (from_bytes (take 4 (drop 2 p))) (uint (p ! 6) \<noteq> 0)"
    by (auto simp: decode_end_def bindE_eq_Inr split: if_splits option.splits)
  have "word_of_int (op_code q) = p ! 0" using Operation_Some [OF q(1)] by simp
  moreover have "(if uint (p ! 6) \<noteq> 0 then 1 else 0) = p ! 6"
    using h by (auto simp: uint_0_iff uint_1 intro: word_uint_eqI)
  ultimately have "encode_end q (uint (p ! 1)) (from_bytes (take 4 (drop 2 p))) (uint (p ! 6) \<noteq> 0)
      = Inr ([p ! 0, p ! 1] @ take 4 (drop 2 p) @ [p ! 6])"
    using l q u32_from_bytes [of "take 4 (drop 2 p)"] to_bytes_from_bytes [of "take 4 (drop 2 p)" 4]
    by (simp add: encode_end_def bindE_eq_Inr codec_simps)
  with o' list7 [OF l] show ?e by metis
next
  assume ?e then show ?d
    by (auto simp: encode_end_def decode_end_def bindE_eq_Inr codec_simps
        Operation_def all_operations_def from_to_bytes nth_append split: if_splits)
qed

lemma encode_error_Inr:
  "encode_error q e d = Inr p \<longleftrightarrow>
     (\<exists>bs. text_ok 0 64 d bs \<and>
        (q = Raw 0 \<and> p = 0 # word_of_int (err_code e) # word_of_nat (length bs) # bs \<or>
         (\<exists>x. q = Op x \<and>
            p = word_of_int (op_code x) # word_of_int (err_code e) # word_of_nat (length bs) # bs)))"
  by (cases q) (auto simp: encode_error_def bindE_eq_Inr codec_simps text_ok_def split: if_splits)

lemma decode_error_iff:
  "decode_error p = Inr obj \<longleftrightarrow>
     (\<exists>q e d. obj = Error q e d \<and> encode_error q e d = Inr p)" (is "?d \<longleftrightarrow> ?e")
proof
  assume ?d then show ?e
    by (auto simp: decode_error_def encode_error_Inr bindE_eq_Inr codec_simps
        dest!: rd_rest Operation_Some ErrorCode_Some split: if_splits option.splits)
next
  assume ?e
  then obtain q e d bs where o': "obj = Error q e d" and t: "text_ok 0 64 d bs"
    and c: "q = Raw 0 \<and> p = 0 # word_of_int (err_code e) # word_of_nat (length bs) # bs \<or>
       (\<exists>x. q = Op x \<and>
          p = word_of_int (op_code x) # word_of_int (err_code e) # word_of_nat (length bs) # bs)"
    by (auto simp: encode_error_Inr)
  have "length bs < 256" using text_ok_length [OF t] by simp
  moreover have "decode_text bs f 0 MAX_ERROR_DETAIL_LENGTH = Inr d" for f
    using t by (simp add: decode_text_Inr)
  ultimately show ?d
    using c o' by (auto simp: decode_error_def Reader_after less_imp_le)
qed

text \<open>The dispatch tables.\<close>

lemmas decode_iffs = decode_send_message_iff decode_message_iff decode_bulletin_header_iff
  decode_bulletin_iff decode_retrieval_iff decode_get_bulletin_iff decode_capabilities_iff
  decode_end_iff decode_error_iff decode_get_new_messages_def decode_get_new_bulletins_def
  decode_get_capabilities_def decode_stored_def

lemma DECODERS_of_ENCODERS: "ENCODERS obj = Some (q, Inr p) \<Longrightarrow> DECODERS q p = Inr obj"
  by (cases obj) (auto simp: decode_iffs)

lemma ENCODERS_of_DECODERS:
  "DECODERS q p = Inr obj \<Longrightarrow> ENCODERS obj = Some (q, Inr p) \<or> (\<exists>c. obj = Capabilities 0 c)"
  by (cases q) (auto simp: decode_iffs bindE_eq_Inr)

end
