(* ===== verification/Frame_Props.thy ===== *)
theory Frame_Props
  imports Codec_Inverse
begin

text \<open>
  Complete frames: the exact set of byte strings the header check accepts, the inverse laws
  of the package-level codec, the size bound every encoded frame meets, and the exceptions
  decoding can raise, all of which carry short ASCII texts.
\<close>

section \<open>The header\<close>

definition header :: "operation \<Rightarrow> int \<Rightarrow> bytes \<Rightarrow> bytes" where
  "header q fl p = 1 # word_of_int (op_code q) # word_of_int fl # word_of_nat (length p) # p"

lemma and_not_1: "(f :: int) AND NOT 1 = f - f mod 2"
proof -
  have "(f AND 1) + (f AND NOT 1) = f"
    by (subst disjunctive_add_eq_or) (auto simp: bit_eq_iff bit_simps)
  then show ?thesis by (simp add: and_one_eq)
qed

lemma flags_1: "0 \<le> f \<Longrightarrow> (f :: int) AND - 2 = 0 \<longleftrightarrow> f = 0 \<or> f = 1"
  using and_not_1 [of f] by simp presburger

lemma uint_eq_byte: "uint (b :: byte) = v \<longleftrightarrow> 0 \<le> v \<and> v < 256 \<and> b = word_of_int v"
  by auto

lemma length_4: "4 \<le> length d \<Longrightarrow> \<exists>a b c e p. d = a # b # c # e # p"
  by (auto simp: numeral_eq_Suc Suc_le_length_iff)

lemma decode_header_iff:
  "decode_header (PBytes d) allow = Inr (q, fl, p) \<longleftrightarrow>
     length p \<le> 255 \<and> (fl = 0 \<or> allow \<and> fl = 1 \<and> q \<in> {MESSAGE, BULLETIN_HEADER})
     \<and> d = header q fl p" (is "?d \<longleftrightarrow> ?e")
proof
  assume d: ?d
  then have "4 \<le> length d" by (auto simp: decode_header_def split: if_splits)
  then obtain a b c n p' where [simp]: "d = a # b # c # n # p'" using length_4 by blast
  from d have "p = p'" "uint a = 1" "Operation (uint b) = Some q" "fl = uint c"
      "int (length p) = uint n" "length p \<le> 255"
      "fl = 0 \<or> allow \<and> fl = 1 \<and> q \<in> {MESSAGE, BULLETIN_HEADER}"
    by (auto simp: decode_header_def Let_def flags_1 and_one_eq split: if_splits option.splits)
  moreover from this have "b = word_of_int (op_code q)" using Operation_Some by force
  moreover have "n = word_of_nat (length p)"
    using \<open>int (length p) = uint n\<close> by (metis of_int_of_nat_eq word_of_int_uint)
  ultimately show ?e by (auto simp: header_def uint_eq_byte)
next
  assume ?e then show ?d
    by (auto simp: decode_header_def header_def Let_def less_imp_le)
qed

section \<open>Sizes\<close>

lemma ENCODERS_length: "ENCODERS obj = Some (q, Inr p) \<Longrightarrow> length p \<le> 251"
  by (cases obj) (auto simp: encode_send_message_def encode_message_def encode_bulletin_def
      encode_bulletin_header_def encode_retrieval_def encode_get_bulletin_def encode_end_def
      encode_error_Inr encode_capabilities_def bindE_eq_Inr codec_simps
      split: if_splits dest!: text_ok_length callsign_ok_length)

lemma codec_encode_frame_Inr:
  "codec_encode_frame obj uns = Inr d \<longleftrightarrow>
     (\<exists>q p. ENCODERS obj = Some (q, Inr p) \<and> (uns \<longrightarrow> q \<in> {MESSAGE, BULLETIN_HEADER})
        \<and> d = header q (of_bool uns) p)"
  by (auto simp: codec_encode_frame_def header_def bindE_eq_Inr Let_def
      split: option.splits if_splits dest!: ENCODERS_length)

section \<open>GET_MESSAGE frames\<close>

lemma upper_ascii_id:
  assumes "ascii s" shows "upper s = s \<longleftrightarrow> (\<forall>c \<in> set s. \<not> (97 \<le> c \<and> c < 123))"
proof -
  have *: "upper_char c = [if 97 \<le> c \<and> c < 123 then c - 32 else c]" if "c < 0x80" for c
    using that by (simp add: upper_char_def special_upper_def)
  have "upper s = map (\<lambda>c. if 97 \<le> c \<and> c < 123 then c - 32 else c) s"
    using assms by (induction s) (auto simp: upper_def * ascii_def)
  moreover have "map f s = s \<longleftrightarrow> (\<forall>c \<in> set s. f c = c)" for f :: "nat \<Rightarrow> nat"
    by (induction s) auto
  ultimately show ?thesis by (auto split: if_splits)
qed

lemma peer_ok_iff:
  "ascii s \<Longrightarrow> 3 \<le> length s \<Longrightarrow> length s \<le> 12 \<Longrightarrow> peer_ok s \<longleftrightarrow> callsign_ok s"
  using upper_ascii_id [of s]
  by (auto simp: peer_ok_def callsign_ok_def is_alpha_def is_digit_def is_upper_def)

lemma encode_get_message_Inr:
  "encode_get_message_frame peer s = Inr d \<longleftrightarrow>
     callsign_ok peer \<and> 1 \<le> s \<and> s < 2 ^ 32 \<and>
     d = header GET_MESSAGE 0 (word_of_nat (length peer) # map byte_of peer @ to_bytes 4 s)"
proof (cases "ascii peer \<and> 3 \<le> length peer \<and> length peer \<le> 12")
  case True
  then show ?thesis
    by (auto simp: encode_get_message_frame_def header_def Let_def peer_ok_iff)
next
  case False
  then show ?thesis
    by (auto simp: encode_get_message_frame_def Let_def callsign_ok_def dest: callsign_ok_ascii)
      (auto simp: callsign_ok_def ascii_def is_digit_def is_upper_def)
qed

lemma decode_get_message_iff:
  "decode_get_message_frame (PBytes d) = Inr obj \<longleftrightarrow>
     (\<exists>peer s. obj = GetMessage peer s \<and> encode_get_message_frame peer s = Inr d)"
    (is "?d \<longleftrightarrow> ?e")
proof
  assume l: ?d
  then have "4 \<le> length d" by (auto simp: decode_get_message_frame_def split: if_splits)
  then obtain a b c n p where d: "d = a # b # c # n # p" using length_4 by blast
  from l have "p \<noteq> []" by (auto simp: d decode_get_message_frame_def Let_def split: if_splits)
  then obtain k r where p: "p = k # r" by (cases p) auto
  define peer where "peer = map of_byte (take (nat (uint k)) r)"
  define s where "s = from_bytes (drop (length p - 4) p)"
  from l have f: "uint a = 1" "uint b = 6" "uint c = 0" "uint n = int (length p)"
      "3 \<le> uint k" "uint k \<le> 12" "int (length r) = uint k + 4"
      "\<forall>b \<in> set (take (nat (uint k)) r). of_byte b < 0x80" "peer_ok peer" "s \<noteq> 0"
      "obj = GetMessage peer s"
    by (auto simp: d p peer_def s_def decode_get_message_frame_def Let_def split: if_splits)
  have s: "s = from_bytes (drop (length r - 4) r)"
  proof -
    have "length p - 4 = Suc (length r - 4)" using f(5,7) by (simp add: p)
    then show ?thesis by (simp add: s_def p)
  qed
  have r: "r = take (nat (uint k)) r @ drop (length r - 4) r"
  proof -
    have "length r - 4 = nat (uint k)" using f(7) by linarith
    then show ?thesis by (metis append_take_drop_id)
  qed
  have len: "length peer = nat (uint k)" "length (drop (length r - 4) r) = 4"
  proof -
    have "nat (uint k) \<le> length r" "4 \<le> length r" using f(5,7) by linarith+
    then show "length peer = nat (uint k)" "length (drop (length r - 4) r) = 4"
      by (simp_all add: peer_def)
  qed
  have "ascii peer" using f(8) by (auto simp: peer_def ascii_def)
  moreover have "3 \<le> length peer" "length peer \<le> 12" using f(5,6) len(1) by linarith+
  ultimately have "callsign_ok peer" using f(9) peer_ok_iff by blast
  moreover have "1 \<le> s" "s < 2 ^ 32"
    using f(10) u32_from_bytes [OF len(2)] by (auto simp: s)
  moreover have "d = header GET_MESSAGE 0 (word_of_nat (length peer) # map byte_of peer @ to_bytes 4 s)"
  proof -
    have "map byte_of peer = take (nat (uint k)) r" by (simp add: peer_def comp_def)
    moreover have "to_bytes 4 s = drop (length r - 4) r"
      using to_bytes_from_bytes [OF len(2)] by (simp add: s)
    ultimately have "map byte_of peer @ to_bytes 4 s = r" using r by simp
    moreover have "word_of_nat (length peer) = k" using len(1) f(5) by simp
    moreover have "n = word_of_nat (length p)" "a = 1" "b = 6" "c = 0"
      using f(1-4) by (auto simp: uint_eq_byte)
    ultimately show ?thesis by (simp add: d p header_def)
  qed
  ultimately show ?e using f(11) by (auto simp: encode_get_message_Inr)
next
  assume ?e
  then obtain peer s where o': "obj = GetMessage peer s" and c: "callsign_ok peer" "1 \<le> s" "s < 2 ^ 32"
    and d: "d = header GET_MESSAGE 0 (word_of_nat (length peer) # map byte_of peer @ to_bytes 4 s)"
    by (auto simp: encode_get_message_Inr)
  have l: "3 \<le> length peer" "length peer \<le> 12" "ascii peer" "peer_ok peer"
    using c(1) callsign_ok_ascii by (auto simp: callsign_ok_def peer_ok_iff)
  then have "\<forall>b \<in> set (map byte_of peer). of_byte b < 0x80" by (auto simp: ascii_def)
  moreover have "uint (5 + word_of_nat (length peer) :: byte) = 5 + int (length peer)"
    using uint_small_nat [of "5 + length peer"] l by simp
  ultimately show ?d
    using l c by (auto simp: d o' decode_get_message_frame_def header_def Let_def from_to_bytes comp_def)
qed

section \<open>Package-level inverse laws\<close>

lemma header_nth [simp]: "header q fl p ! 0 = 1" "header q fl p ! Suc 0 = word_of_int (op_code q)"
  by (simp_all add: header_def)

lemma length_header [simp]: "length (header q fl p) = length p + 4"
  by (simp add: header_def)

lemma is_get_message_header [simp]:
  "is_get_message_frame (PBytes (header q fl p)) \<longleftrightarrow> q = GET_MESSAGE"
proof -
  have "op_code q = 6 \<longleftrightarrow> q = GET_MESSAGE" by (cases q) auto
  then show ?thesis by (simp add: less_imp_le)
qed

lemma ENCODERS_not_get_message: "ENCODERS obj = Some (q, r) \<Longrightarrow> q \<noteq> GET_MESSAGE"
  by (cases obj) auto

declare is_get_message_frame.simps(1) [simp del]

lemma encode_frame_Inr:
  "encode_frame obj uns = Inr d \<longleftrightarrow>
     (\<exists>peer s. obj = GetMessage peer s \<and> \<not> uns \<and> encode_get_message_frame peer s = Inr d) \<or>
     (\<exists>q p. ENCODERS obj = Some (q, Inr p) \<and> (uns \<longrightarrow> q \<in> {MESSAGE, BULLETIN_HEADER})
        \<and> d = header q (of_bool uns) p)"
  by (cases obj) (auto simp: encode_frame_def codec_encode_frame_Inr)

lemma encode_frame_length:
  assumes "encode_frame obj uns = Inr d" shows "4 \<le> length d \<and> length d \<le> 259"
  using assms unfolding encode_frame_Inr encode_get_message_Inr
  by (elim disjE exE conjE) (auto dest: ENCODERS_length callsign_ok_length)

lemma decode_encode_frame:
  assumes "encode_frame obj uns = Inr d"
  shows "decode_frame_with_flags (PBytes d) = Inr (obj, of_bool uns)"
  using assms unfolding encode_frame_Inr
proof (elim disjE exE conjE)
  fix peer s assume *: "obj = GetMessage peer s" "\<not> uns" "encode_get_message_frame peer s = Inr d"
  then have "is_get_message_frame (PBytes d)" using is_get_message_header by (auto simp: encode_get_message_Inr)
  moreover have "decode_get_message_frame (PBytes d) = Inr obj"
    using * by (simp add: decode_get_message_iff)
  ultimately show ?thesis using * by (simp add: decode_frame_with_flags_def)
next
  fix q p assume *: "ENCODERS obj = Some (q, Inr p)" "d = header q (of_bool uns) p"
    and u: "uns \<longrightarrow> q \<in> {MESSAGE, BULLETIN_HEADER}"
  then have "decode_header (PBytes d) True = Inr (q, of_bool uns, p)"
    using ENCODERS_length [OF *(1)] by (auto simp: decode_header_iff)
  then show ?thesis
    using * ENCODERS_not_get_message [OF *(1)] DECODERS_of_ENCODERS [OF *(1)]
    by (simp add: decode_frame_with_flags_def codec_decode_frame_with_flags_def)
qed

lemma encode_decode_frame:
  assumes "decode_frame_with_flags (PBytes d) = Inr (obj, fl)"
  shows "encode_frame obj (fl = 1) = Inr d \<and> fl \<in> {0, 1} \<or> (\<exists>c. obj = Capabilities 0 c)"
proof (cases "is_get_message_frame (PBytes d)")
  case True
  with assms show ?thesis
    by (auto simp: decode_frame_with_flags_def bindE_eq_Inr decode_get_message_iff encode_frame_def)
next
  case False
  with assms obtain q p where h: "decode_header (PBytes d) True = Inr (q, fl, p)"
    and "DECODERS q p = Inr obj"
    by (auto simp: decode_frame_with_flags_def codec_decode_frame_with_flags_def bindE_eq_Inr)
  from ENCODERS_of_DECODERS [OF this(2)] h show ?thesis
    by (cases "fl = 1") (auto simp: encode_frame_Inr decode_header_iff)
qed

text \<open>\<open>decode_frame\<close> is \<open>decode_frame_with_flags\<close> restricted to frames without flags.\<close>

lemma decode_header_False:
  "decode_header (PBytes d) False = Inr (q, fl, p) \<longleftrightarrow>
     decode_header (PBytes d) True = Inr (q, 0, p) \<and> fl = 0"
  by (auto simp: decode_header_iff)

lemma decode_frame_iff:
  "decode_frame (PBytes d) = Inr obj \<longleftrightarrow> decode_frame_with_flags (PBytes d) = Inr (obj, 0)"
  by (auto simp: decode_frame_def decode_frame_with_flags_def codec_decode_frame_def
      codec_decode_frame_with_flags_def bindE_eq_Inr decode_header_False)

section \<open>Which exceptions decoding raises\<close>

text \<open>
  The exceptions the server turns into an ERROR response: a \<open>ProtocolDecodeError\<close> or an
  \<open>InvalidFieldError\<close>, with an ASCII text.
\<close>

definition codec_error :: "exn \<Rightarrow> bool" where
  "codec_error e \<longleftrightarrow> (is_ProtocolDecodeError e \<or> is_InvalidFieldError e) \<and> plain (exn_str e)"

lemma plain_lit [simp]:
  "plain (lit s) \<longleftrightarrow> list_all (\<lambda>c. 0 < (of_char c :: nat) \<and> (of_char c :: nat) < 0x80) s"
  by (auto simp: plain_def lit_def list_all_iff)

lemma plain_dec_nat [simp]: "plain (dec_nat n)"
  by (induction n rule: dec_nat.induct) (subst dec_nat.simps, auto)

lemma plain_dec [simp]: "plain (dec i)"
  by (simp add: dec_def)

lemma plain_hex_byte [simp]: "0 \<le> v \<Longrightarrow> v < 256 \<Longrightarrow> plain (hex_byte v)"
proof -
  have "0 < hex_digit d \<and> hex_digit d < 0x80" if "d < 16" for d using that by (auto simp: hex_digit_def)
  moreover assume "0 \<le> v" "v < 256"
  then have "nat v div 16 < 16" by (auto simp: div_less_iff_less_mult)
  ultimately show ?thesis by (simp add: hex_byte_def)
qed

lemma codec_error_simps [simp]:
  "codec_error (ProtocolDecodeError m) \<longleftrightarrow> plain m"
  "codec_error (UnsupportedVersionError m) \<longleftrightarrow> plain m"
  "codec_error (UnknownOperationError m) \<longleftrightarrow> plain m"
  "codec_error (InvalidFieldError m) \<longleftrightarrow> plain m"
  "codec_error (FieldTooLongError f mn mx) \<longleftrightarrow> plain f"
  "codec_error (PayloadLengthError m) \<longleftrightarrow> plain m"
  by (simp_all add: codec_error_def between_message_def)

lemma integer_raises [raises]: "integer v n f nz = Inl e \<Longrightarrow> plain f \<Longrightarrow> codec_error e"
  by (auto simp: integer_def Let_def split: pyval.splits if_splits)

lemma u8_raises [raises]: "u8 v f nz = Inl e \<Longrightarrow> plain f \<Longrightarrow> codec_error e"
  by (auto simp: u8_def bindE_eq_Inl dest: integer_raises)

lemma u32_raises [raises]: "u32 v f nz = Inl e \<Longrightarrow> plain f \<Longrightarrow> codec_error e"
  by (auto simp: u32_def bindE_eq_Inl dest: integer_raises)

lemma text_bytes_raises [raises]: "text_bytes v f mn mx = Inl e \<Longrightarrow> plain f \<Longrightarrow> codec_error e"
  by (auto simp: text_bytes_def between_message_def split: pyval.splits option.splits if_splits)

lemma decode_text_raises [raises]: "decode_text v f mn mx = Inl e \<Longrightarrow> plain f \<Longrightarrow> codec_error e"
  by (auto simp: decode_text_def between_message_def split: option.splits if_splits)

lemma callsign_bytes_raises [raises]: "callsign_bytes v f = Inl e \<Longrightarrow> plain f \<Longrightarrow> codec_error e"
  by (auto simp: callsign_bytes_def bindE_eq_Inl split: if_splits dest: text_bytes_raises)

lemma decode_callsign_raises [raises]: "decode_callsign v f = Inl e \<Longrightarrow> plain f \<Longrightarrow> codec_error e"
  by (auto simp: decode_callsign_def Let_def bindE_eq_Inl split: if_splits
      dest: callsign_bytes_raises)

lemma rd_take_raises [raises]: "rd_take r n f = Inl e \<Longrightarrow> plain f \<Longrightarrow> codec_error e"
  by (auto simp: rd_take_def Let_def split: if_splits)

lemma rd_u8_raises [raises]: "rd_u8 r f = Inl e \<Longrightarrow> plain f \<Longrightarrow> codec_error e"
  by (auto simp: rd_u8_def bindE_eq_Inl dest: rd_take_raises)

lemma rd_u32_raises [raises]: "rd_u32 r f = Inl e \<Longrightarrow> plain f \<Longrightarrow> codec_error e"
  by (auto simp: rd_u32_def bindE_eq_Inl dest: rd_take_raises)

lemma rd_prefixed_raises [raises]: "rd_prefixed r f = Inl e \<Longrightarrow> plain f \<Longrightarrow> codec_error e"
  by (auto simp: rd_prefixed_def bindE_eq_Inl dest: rd_take_raises rd_u8_raises)

lemma rd_finish_raises [raises]: "rd_finish r = Inl e \<Longrightarrow> codec_error e"
  by (auto simp: rd_finish_def split: if_splits)

lemma require_exact_raises [raises]: "require_exact p n f = Inl e \<Longrightarrow> plain f \<Longrightarrow> codec_error e"
  by (auto simp: require_exact_def split: if_splits)

lemma DECODERS_raises:
  assumes "DECODERS q p = Inl e" "q \<noteq> GET_MESSAGE"
  shows "codec_error e"
  using assms
  by (cases q)
    (auto simp: decode_send_message_def decode_message_def decode_bulletin_header_def
      decode_bulletin_def decode_get_new_messages_def decode_get_new_bulletins_def
      decode_retrieval_def decode_get_bulletin_def decode_get_capabilities_def
      decode_capabilities_def decode_end_def decode_stored_def decode_error_def
      end_operation_error_def bindE_eq_Inl Let_def
      split: if_splits option.splits dest: raises dest!: rd_rest)

lemma decode_header_raises: "decode_header v a = Inl e \<Longrightarrow> codec_error e"
  by (auto simp: decode_header_def Let_def split: pyval.splits if_splits option.splits)

lemma decode_get_message_raises: "decode_get_message_frame v = Inl e \<Longrightarrow> codec_error e"
  by (auto simp: decode_get_message_frame_def Let_def split: pyval.splits if_splits)

lemma decode_header_get_message:
  assumes "decode_header v a = Inr (q, fl, p)" "\<not> is_get_message_frame v"
  shows "q \<noteq> GET_MESSAGE"
proof -
  obtain d where "v = PBytes d" using assms(1) by (auto simp: decode_header_def split: pyval.splits)
  with assms show ?thesis by (auto simp: decode_header_iff)
qed

lemma codec_decode_raises:
  assumes "bindE (decode_header v a) (\<lambda>(q, fl, p). bindE (DECODERS q p) (\<lambda>x. Inr (g x fl))) = Inl e"
    "\<not> is_get_message_frame v"
  shows "codec_error e"
proof (cases "decode_header v a")
  case (Inl x)
  with assms(1) decode_header_raises show ?thesis by simp
next
  case (Inr y)
  then obtain q fl p where y: "decode_header v a = Inr (q, fl, p)" by (cases y) auto
  with assms(1) have "DECODERS q p = Inl e" by (simp add: bindE_eq_Inl)
  with decode_header_get_message [OF y assms(2)] show ?thesis by (blast intro: DECODERS_raises)
qed

lemma bindE_Inr_id: "bindE m Inr = m"
  by (cases m) auto

lemma decode_frame_raises: "decode_frame v = Inl e \<Longrightarrow> codec_error e"
  using codec_decode_raises [of v False "\<lambda>x _. x"] decode_get_message_raises [of v]
  by (auto simp: decode_frame_def codec_decode_frame_def bindE_Inr_id split: if_splits)

lemma decode_frame_with_flags_raises: "decode_frame_with_flags v = Inl e \<Longrightarrow> codec_error e"
  using codec_decode_raises [of v True Pair] decode_get_message_raises [of v]
  by (auto simp: decode_frame_with_flags_def codec_decode_frame_with_flags_def bindE_eq_Inl
      split: if_splits)

end
