(* ===== verification/Protocol_Properties.thy ===== *)
theory Protocol_Properties
  imports Frame_Props
begin

text \<open>
  What the Core protocol promises. \<open>valid_object\<close> states, without reference to bytes, which
  objects version 0.1 can carry; the properties relate it to the codec, and the codec to
  itself: the two directions are inverse, every frame fits the size limit, and decoding
  arbitrary bytes ends with an object or with an error the server can answer.
\<close>

section \<open>The objects of the protocol\<close>

definition scalar :: "nat \<Rightarrow> bool" where
  "scalar c \<longleftrightarrow> c < 0xD800 \<or> 0xE000 \<le> c \<and> c < 0x110000"

definition utf8_size :: "nat \<Rightarrow> nat" where
  "utf8_size c = (if c < 0x80 then 1 else if c < 0x800 then 2 else if c < 0x10000 then 3 else 4)"

definition valid_text :: "nat \<Rightarrow> nat \<Rightarrow> pystr \<Rightarrow> bool" where
  "valid_text mn mx s \<longleftrightarrow> (\<forall>c \<in> set s. c \<noteq> 0 \<and> scalar c)
     \<and> mn \<le> sum_list (map utf8_size s) \<and> sum_list (map utf8_size s) \<le> mx"

abbreviation valid_seq :: "int \<Rightarrow> bool" where "valid_seq n \<equiv> 1 \<le> n \<and> n < 2 ^ 32"
abbreviation valid_cursor :: "int \<Rightarrow> bool" where "valid_cursor n \<equiv> 0 \<le> n \<and> n < 2 ^ 32"
abbreviation valid_max :: "int \<Rightarrow> bool" where "valid_max n \<equiv> 1 \<le> n \<and> n \<le> 20"

fun valid_object :: "protocol_object \<Rightarrow> bool" where
  "valid_object (SendMessage c r b) \<longleftrightarrow> valid_seq c \<and> callsign_ok r \<and> valid_text 1 208 b"
| "valid_object (GetNewMessages s m) \<longleftrightarrow> valid_cursor s \<and> valid_max m"
| "valid_object (GetNewBulletins s m) \<longleftrightarrow> valid_cursor s \<and> valid_max m"
| "valid_object (GetBulletin s) \<longleftrightarrow> valid_seq s"
| "valid_object GetCapabilities \<longleftrightarrow> True"
| "valid_object (GetMessage p s) \<longleftrightarrow> callsign_ok p \<and> valid_seq s"
| "valid_object (Capabilities v c) \<longleftrightarrow> 1 \<le> v \<and> v < 256 \<and> valid_cursor c"
| "valid_object (Message s cs c a r b) \<longleftrightarrow> valid_seq s \<and> valid_seq cs \<and> valid_seq c
     \<and> callsign_ok a \<and> callsign_ok r \<and> valid_text 1 208 b"
| "valid_object (BulletinHeader s c a t) \<longleftrightarrow> valid_seq s \<and> valid_seq c \<and> callsign_ok a
     \<and> valid_text 1 64 t"
| "valid_object (Bulletin s c a t b) \<longleftrightarrow> valid_seq s \<and> valid_seq c \<and> callsign_ok a
     \<and> valid_text 1 64 t \<and> valid_text 1 164 b"
| "valid_object (End p n s h) \<longleftrightarrow> p \<in> {GET_NEW_MESSAGES, GET_NEW_BULLETINS} \<and> 0 \<le> n \<and> n < 256
     \<and> valid_cursor s"
| "valid_object Stored \<longleftrightarrow> True"
| "valid_object (Error p e d) \<longleftrightarrow> (case p of Raw n \<Rightarrow> n = 0 | Op _ \<Rightarrow> True) \<and> valid_text 0 64 d"

lemma utf8_char_size: "utf8_char c = (if scalar c then utf8_char c else None)"
  "utf8_char c = Some b \<Longrightarrow> length b = utf8_size c \<and> scalar c"
  "scalar c \<Longrightarrow> \<exists>b. utf8_char c = Some b"
  by (auto simp: utf8_char_def scalar_def utf8_size_def split: if_splits)

lemma byte_of_0: "byte_of n = 0 \<longleftrightarrow> n mod 256 = 0"
  unfolding byte_of_def by (simp add: word_of_nat_eq_0_iff dvd_eq_mod_eq_0)

lemma utf8_char_nul: "utf8_char c = Some b \<Longrightarrow> 0 \<in> set b \<longleftrightarrow> c = 0"
  by (auto simp: utf8_char_def byte_of_0 split: if_splits; presburger?)

lemma utf8_encode_iff:
  "(\<exists>bs. utf8_encode s = Some bs \<and> 0 \<notin> set bs \<and> length bs = n) \<longleftrightarrow>
     (\<forall>c \<in> set s. c \<noteq> 0 \<and> scalar c) \<and> n = sum_list (map utf8_size s)"
proof (induction s arbitrary: n)
  case (Cons c s)
  show ?case
  proof (cases "scalar c")
    case True
    then obtain b where b: "utf8_char c = Some b" using utf8_char_size(3) by blast
    have "(\<exists>bs. utf8_encode (c # s) = Some bs \<and> 0 \<notin> set bs \<and> length bs = n) \<longleftrightarrow>
        c \<noteq> 0 \<and> (\<exists>m. n = utf8_size c + m \<and>
          (\<exists>bs. utf8_encode s = Some bs \<and> 0 \<notin> set bs \<and> length bs = m))"
      using b utf8_char_size(2) [OF b] utf8_char_nul [OF b] by (auto split: option.splits)
    also have "\<dots> \<longleftrightarrow> (\<forall>x \<in> set (c # s). x \<noteq> 0 \<and> scalar x) \<and> n = sum_list (map utf8_size (c # s))"
      unfolding Cons.IH using True by auto
    finally show ?thesis .
  next
    case False
    then have "utf8_char c = None" using utf8_char_size(1) [of c] by simp
    with False show ?thesis by simp
  qed
qed auto

lemma text_ok_valid: "(\<exists>bs. text_ok (int mn) (int mx) s bs) \<longleftrightarrow> valid_text mn mx s"
proof -
  have "(\<exists>bs. text_ok (int mn) (int mx) s bs) \<longleftrightarrow>
      (\<exists>n. mn \<le> n \<and> n \<le> mx \<and> (\<exists>bs. utf8_encode s = Some bs \<and> 0 \<notin> set bs \<and> length bs = n))"
    by (auto simp: text_ok_def)
  then show ?thesis unfolding utf8_encode_iff by (auto simp: valid_text_def)
qed

lemmas text_ok_valids = text_ok_valid [of 1 208, simplified] text_ok_valid [of 1 64, simplified]
  text_ok_valid [of 1 164, simplified] text_ok_valid [of 0 64, simplified]

lemma ENCODERS_total:
  "(\<exists>peer s. obj = GetMessage peer s) \<or> (\<exists>q m. ENCODERS obj = Some (q, m))"
  by (cases obj) auto

lemma encode_frame_is_ok:
  "is_ok (encode_frame obj uns) \<longleftrightarrow>
     (\<exists>peer s. obj = GetMessage peer s \<and> \<not> uns \<and> is_ok (encode_get_message_frame peer s)) \<or>
     (\<exists>q m. ENCODERS obj = Some (q, m) \<and> is_ok m \<and> (uns \<longrightarrow> q \<in> {MESSAGE, BULLETIN_HEADER}))"
  by (auto simp: is_ok_iff encode_frame_Inr)

lemma valid_textD: "valid_text mn mx s \<Longrightarrow> \<exists>bs. text_ok (int mn) (int mx) s bs \<and> length bs \<le> mx"
  using text_ok_valid [of mn mx s] text_ok_length [of "int mn" "int mx" s] by fastforce

lemma valid_textI: "text_ok (int mn) (int mx) s bs \<Longrightarrow> valid_text mn mx s"
  using text_ok_valid by blast

lemmas valid_textIs = valid_textI [of 1 208, simplified] valid_textI [of 1 64, simplified]
  valid_textI [of 1 164, simplified] valid_textI [of 0 64, simplified]

lemma text_ok_short: "text_ok mn mx s bs \<Longrightarrow> mx < 256 \<Longrightarrow> length bs < 256"
  using text_ok_length by fastforce

lemma callsign_short: "callsign_ok s \<Longrightarrow> length s < 256"
  by (simp add: callsign_ok_def)

lemma encoders_ok:
  "is_ok (encode_send_message c r b) \<longleftrightarrow> valid_object (SendMessage c r b)"
  "is_ok (encode_retrieval s m) \<longleftrightarrow> valid_object (GetNewMessages s m)"
  "is_ok (encode_get_bulletin s) \<longleftrightarrow> valid_object (GetBulletin s)"
  "is_ok (encode_get_message_frame p s) \<longleftrightarrow> valid_object (GetMessage p s)"
  "is_ok (encode_capabilities s c) \<longleftrightarrow> valid_object (Capabilities s c)"
  "is_ok (encode_message s cs c a r b) \<longleftrightarrow> valid_object (Message s cs c a r b)"
  "is_ok (encode_bulletin_header s c a t) \<longleftrightarrow> valid_object (BulletinHeader s c a t)"
  "is_ok (encode_bulletin s c a t b) \<longleftrightarrow> valid_object (Bulletin s c a t b)"
  "is_ok (encode_end q n s h) \<longleftrightarrow> valid_object (End q n s h)"
  "is_ok (encode_error e k d) \<longleftrightarrow> valid_object (Error e k d)"
  by (auto simp: is_ok_iff bindE_eq_Inr codec_simps encode_send_message_def encode_retrieval_def
      encode_get_bulletin_def encode_get_message_Inr encode_capabilities_def encode_message_def
      encode_bulletin_header_def encode_bulletin_def encode_end_def encode_error_Inr
      split: request_operation.splits
      simp: text_ok_short callsign_short cong: conj_cong
      dest!: valid_textD intro: valid_textIs) blast

lemma ENCODERS_ok: "ENCODERS obj = Some (q, m) \<Longrightarrow> is_ok m \<longleftrightarrow> valid_object obj"
  by (cases obj) (auto simp: encoders_ok)

definition may_be_unsolicited :: "protocol_object \<Rightarrow> bool" where
  "may_be_unsolicited obj \<longleftrightarrow> (case obj of Message _ _ _ _ _ _ \<Rightarrow> True | BulletinHeader _ _ _ _ \<Rightarrow> True
     | _ \<Rightarrow> False)"

lemma ENCODERS_unsolicited:
  "ENCODERS obj = Some (q, m) \<Longrightarrow> q \<in> {MESSAGE, BULLETIN_HEADER} \<longleftrightarrow> may_be_unsolicited obj"
  by (cases obj) (auto simp: may_be_unsolicited_def)

lemma encode_frame_ok:
  "is_ok (encode_frame obj uns) \<longleftrightarrow> valid_object obj \<and> (uns \<longrightarrow> may_be_unsolicited obj)"
proof (cases "\<exists>peer s. obj = GetMessage peer s")
  case True
  then show ?thesis by (auto simp: encode_frame_is_ok encoders_ok may_be_unsolicited_def)
next
  case False
  then obtain q m where "ENCODERS obj = Some (q, m)" using ENCODERS_total by blast
  with False show ?thesis
    using ENCODERS_ok [of obj q m] ENCODERS_unsolicited [of obj q m]
    by (auto simp: encode_frame_is_ok)
qed

section \<open>Properties\<close>

text \<open>C1. Every object the protocol can carry is encoded, into at most 259 bytes, and decoding
  the frame gives back the object and the UNSOLICITED flag.\<close>

theorem frame_roundtrip:
  assumes "valid_object obj" "uns \<longrightarrow> may_be_unsolicited obj"
  shows "\<exists>d. encode_frame obj uns = Inr d \<and> 4 \<le> length d \<and> length d \<le> MAX_FRAME_SIZE
    \<and> decode_frame_with_flags (PBytes d) = Inr (obj, of_bool uns)"
proof -
  obtain d where "encode_frame obj uns = Inr d"
    using assms encode_frame_ok is_ok_iff by metis
  then show ?thesis using encode_frame_length decode_encode_frame by auto
qed

theorem frame_roundtrip_witness:
  "\<exists>d. encode_frame (Message 7 3 1700000000 (lit ''EA1ABC'') (lit ''K2XYZ'') [104, 0x20AC]) True = Inr d
    \<and> 4 \<le> length d \<and> length d \<le> MAX_FRAME_SIZE
    \<and> decode_frame_with_flags (PBytes d)
      = Inr (Message 7 3 1700000000 (lit ''EA1ABC'') (lit ''K2XYZ'') [104, 0x20AC], of_bool True)"
  by (rule frame_roundtrip)
    (simp_all add: valid_text_def scalar_def utf8_size_def callsign_ok_def lit_def is_digit_def
      is_upper_def may_be_unsolicited_def)

text \<open>C2. Frames are canonical: whatever byte string decodes, encoding the decoded object with
  the decoded flag gives the same byte string. The one exception is a CAPABILITIES frame with
  protocol version 0.\<close>

theorem frame_canonical:
  assumes "decode_frame_with_flags (PBytes d) = Inr (obj, fl)" "\<forall>c. obj \<noteq> Capabilities 0 c"
  shows "encode_frame obj (fl = 1) = Inr d \<and> fl \<in> {0, 1} \<and> valid_object obj"
  using encode_decode_frame [OF assms(1)] assms(2) encode_frame_ok [of obj "fl = 1"] by auto

theorem frame_canonical_witness:
  "encode_frame (GetBulletin 258) ((0 :: int) = 1) = Inr [1, 4, 0, 4, 0, 0, 1, 2] \<and> (0 :: int) \<in> {0, 1}
    \<and> valid_object (GetBulletin 258)"
  by (rule frame_canonical) (code_simp, simp)

text \<open>Decoding is total on byte strings: it gives an object or raises one of the
  exceptions the server answers, a \<open>ProtocolDecodeError\<close> or an \<open>InvalidFieldError\<close> whose text
  is ASCII; no \<open>KeyError\<close>, \<open>IndexError\<close> or \<open>UnicodeDecodeError\<close> escapes.\<close>

theorem decode_total:
  "(case decode_frame (PBytes d) of Inl e \<Rightarrow> codec_error e | Inr _ \<Rightarrow> True)
    \<and> (case decode_frame_with_flags (PBytes d) of Inl e \<Rightarrow> codec_error e | Inr _ \<Rightarrow> True)"
  by (auto split: sum.splits dest: decode_frame_raises decode_frame_with_flags_raises)

text \<open>The encoder accepts exactly the objects of the protocol, and the UNSOLICITED flag
  only on a MESSAGE or a BULLETIN_HEADER.\<close>

theorem encoder_domain:
  "is_ok (encode_frame obj uns) = (valid_object obj \<and> (if uns then may_be_unsolicited obj else True))"
  by (simp add: encode_frame_ok)

text \<open>\<open>validate_callsign\<close> accepts exactly 3 to 12 capital letters and digits with at least
  one of each, and returns them unchanged; \<open>normalize_callsign\<close> returns only such callsigns and
  leaves them alone, so normalising twice is normalising once.\<close>

theorem callsign_normal_form:
  assumes "normalize_callsign v f = Inr u"
  shows "callsign_ok u \<and> normalize_callsign (PStr u) g = Inr u
    \<and> (validate_callsign (PStr s) h = Inr t) = (callsign_ok s \<and> t = s)"
  using normalize_callsign_ok [OF assms] normalize_callsign_id by (simp add: validate_callsign_Inr)

theorem callsign_normal_form_witness:
  "callsign_ok (lit ''EA1ABC'') \<and> normalize_callsign (PStr (lit ''EA1ABC'')) [] = Inr (lit ''EA1ABC'')
    \<and> (validate_callsign (PStr []) [] = Inr []) = (callsign_ok [] \<and> [] = ([] :: pystr))"
  by (rule callsign_normal_form [of "PStr (lit '' ea1abc'')" "[]"])
    (simp add: normalize_callsign_def Let_def strip_def lit_def upper_def upper_char_def special_upper_def
      is_space_def validate_callsign_Inr callsign_ok_def is_digit_def is_upper_def)

text \<open>The codec module alone does not know GET_MESSAGE: on every valid GET_MESSAGE frame
  \<open>codec.decode_frame\<close> raises \<open>KeyError\<close>, where the package-level decoder returns the request.\<close>

theorem codec_get_message_key_error:
  assumes "encode_frame (GetMessage peer s) False = Inr d"
  shows "codec_decode_frame (PBytes d) = Inl KeyError
    \<and> decode_frame (PBytes d) = Inr (GetMessage peer s)"
proof -
  have "decode_frame (PBytes d) = Inr (GetMessage peer s)"
    using decode_encode_frame [OF assms] by (simp add: decode_frame_iff)
  moreover have "decode_header (PBytes d) False = Inr (GET_MESSAGE, 0, drop 4 d)"
    using assms encode_frame_length [OF assms]
    by (auto simp: encode_frame_def encode_get_message_Inr decode_header_iff header_def)
  ultimately show ?thesis by (simp add: codec_decode_frame_def)
qed

theorem codec_get_message_key_error_witness:
  "codec_decode_frame (PBytes [1, 6, 0, 10, 5, 75, 50, 88, 89, 90, 0, 0, 0, 9]) = Inl KeyError
    \<and> decode_frame (PBytes [1, 6, 0, 10, 5, 75, 50, 88, 89, 90, 0, 0, 0, 9])
      = Inr (GetMessage (lit ''K2XYZ'') 9)"
  by (rule codec_get_message_key_error)
    (simp add: encode_frame_def encode_get_message_Inr header_def callsign_ok_def is_digit_def
      is_upper_def lit_def byte_of_def numeral_eq_Suc)

text \<open>A CAPABILITIES frame with protocol version 0 is decoded, but the decoded object
  cannot be encoded again.\<close>

theorem capabilities_version_0:
  "decode_frame (PBytes [1, 0x46, 0, 5, 0, a, b, c, e])
     = Inr (Capabilities 0 (from_bytes [a, b, c, e]))
   \<and> encode_frame (Capabilities 0 n) False
     = Inl (InvalidFieldError (lit ''protocol_version must be a non-zero unsigned 8-bit value''))"
  by (simp add: decode_frame_def codec_decode_frame_def decode_header_def decode_capabilities_def
      Operation_def all_operations_def require_exact_def encode_frame_def codec_encode_frame_def
      encode_capabilities_def u8_def integer_def Let_def dec_def dec_nat.simps is_get_message_frame.simps
      lit_def)

end
