(* ===== verification/Sqlite.thy ===== *)
theory Sqlite
  imports Utf8
begin

text \<open>
  What the storage layer uses of SQLite. A connection works on a private copy of the database
  that \<open>COMMIT\<close> publishes and \<open>ROLLBACK\<close> discards; a statement either takes effect as a whole
  or raises; closing a connection loses what was not committed. Writers hold the database
  from \<open>BEGIN IMMEDIATE\<close> on, so an operation of the stores is one atomic step on the
  committed database. Columns whose declared type does not fix the stored class hold a
  dynamically typed \<open>sqlval\<close>.
\<close>

datatype sqlval = SNull | SInt int | SReal rat | SText pystr | SBlob bytes

record 'd connection =
  committed :: 'd
  working :: 'd

type_synonym ('d, 'a) sql = "'d connection \<Rightarrow> 'a result \<times> 'd connection"

named_theorems sql_simps \<open>equations that run the statements of a connection\<close>

definition returnS :: "'a \<Rightarrow> ('d, 'a) sql" where
  "returnS x c = (Inr x, c)"

definition raiseS :: "exn \<Rightarrow> ('d, 'a) sql" where
  "raiseS e c = (Inl e, c)"

definition liftS :: "'a result \<Rightarrow> ('d, 'a) sql" where
  "liftS m c = (m, c)"

definition bindS :: "('d, 'a) sql \<Rightarrow> ('a \<Rightarrow> ('d, 'b) sql) \<Rightarrow> ('d, 'b) sql" where
  "bindS m f c = (case m c of (Inl e, c') \<Rightarrow> (Inl e, c') | (Inr x, c') \<Rightarrow> f x c')"

text \<open>A query reads the connection's own view; a statement that changes rows may raise.\<close>

definition query :: "('d \<Rightarrow> 'a) \<Rightarrow> ('d, 'a) sql" where
  "query f c = (Inr (f (working c)), c)"

definition execute :: "('d \<Rightarrow> 'd result) \<Rightarrow> ('d, unit) sql" where
  "execute f c = (case f (working c) of
     Inl e \<Rightarrow> (Inl e, c) | Inr w \<Rightarrow> (Inr (), c\<lparr>working := w\<rparr>))"

text \<open>The same with \<open>cursor.rowcount\<close> as the value.\<close>

definition execute_count :: "('d \<Rightarrow> (int \<times> 'd) result) \<Rightarrow> ('d, int) sql" where
  "execute_count f c = (case f (working c) of
     Inl e \<Rightarrow> (Inl e, c) | Inr (n, w) \<Rightarrow> (Inr n, c\<lparr>working := w\<rparr>))"

definition commit :: "('d, unit) sql" where
  "commit c = (Inr (), c\<lparr>committed := working c\<rparr>)"

definition rollback :: "'d connection \<Rightarrow> 'd connection" where
  "rollback c = c\<lparr>working := committed c\<rparr>"

text \<open>\<open>try: body except BaseException: connection.rollback(); raise\<close>\<close>

definition or_rollback :: "('d, 'a) sql \<Rightarrow> ('d, 'a) sql" where
  "or_rollback body c =
     (case body c of (Inl e, c') \<Rightarrow> (Inl e, rollback c') | (Inr x, c') \<Rightarrow> (Inr x, c'))"

text \<open>\<open>with closing(database.connect()) as connection\<close>\<close>

definition with_connection :: "('d, 'a) sql \<Rightarrow> 'd \<Rightarrow> 'a result \<times> 'd" where
  "with_connection body db =
     (case body \<lparr>committed = db, working = db\<rparr> of (r, c) \<Rightarrow> (r, committed c))"

text \<open>\<open>fetchone()[0]\<close>: there is no row to index when the result is empty.\<close>

definition fetch_first :: "'a option \<Rightarrow> 'a result" where
  "fetch_first row = (case row of
     None \<Rightarrow> Inl (TypeError (lit ''NoneType object is not subscriptable'')) | Some x \<Rightarrow> Inr x)"

text \<open>\<open>LIMIT n\<close>, where a negative limit is no limit, and \<open>rows[:n]\<close>.\<close>

definition sql_limit :: "int \<Rightarrow> 'a list \<Rightarrow> 'a list" where
  "sql_limit n xs = (if n < 0 then xs else take (nat n) xs)"

definition slice_to :: "int \<Rightarrow> 'a list \<Rightarrow> 'a list" where
  "slice_to n xs = take (nat (if n < 0 then int (length xs) + n else n)) xs"

text \<open>Binding a parameter: text must be encodable, integers must fit 64 bits.\<close>

definition bind_text :: "pystr \<Rightarrow> unit result" where
  "bind_text s = (if utf8_encode s = None then Inl UnicodeEncodeError else Inr ())"

definition bind_int :: "int \<Rightarrow> unit result" where
  "bind_int i = (if - (2 ^ 63) \<le> i \<and> i < 2 ^ 63 then Inr ()
     else Inl (OverflowError (lit ''Python int too large to convert to SQLite INTEGER'')))"

fun bind_texts :: "pystr list \<Rightarrow> unit result" where
  "bind_texts [] = Inr ()"
| "bind_texts (s # ss) = bindE (bind_text s) (\<lambda>_. bind_texts ss)"

lemma bind_text_Inr [simp]: "bind_text s = Inr u \<longleftrightarrow> utf8_encode s \<noteq> None"
  by (simp add: bind_text_def)

lemma bind_text_Inl [simp]: "bind_text s = Inl e \<longleftrightarrow> utf8_encode s = None \<and> e = UnicodeEncodeError"
  by (auto simp: bind_text_def)

lemma bind_int_Inr [simp]: "bind_int i = Inr u \<longleftrightarrow> - (2 ^ 63) \<le> i \<and> i < 2 ^ 63"
  by (simp add: bind_int_def)

lemma bind_texts_Inr [simp]: "bind_texts ss = Inr u \<longleftrightarrow> (\<forall>s \<in> set ss. utf8_encode s \<noteq> None)"
  by (induction ss) (auto simp: bindE_eq_Inr)

lemma fetch_first_Inr [simp]: "fetch_first row = Inr x \<longleftrightarrow> row = Some x"
  by (auto simp: fetch_first_def split: option.splits)

lemma limit_nat: "sql_limit (int n) xs = take n xs" "slice_to (int n) xs = take n xs"
  by (simp_all add: sql_limit_def slice_to_def)

declare bind_texts.simps [simp del]

lemma run_simps [sql_simps]:
  "returnS x c = (Inr x, c)"
  "raiseS e c = (Inl e, c)"
  "liftS m c = (m, c)"
  "query f c = (Inr (f (working c)), c)"
  "commit c = (Inr (), c\<lparr>committed := working c\<rparr>)"
  by (simp_all add: returnS_def raiseS_def liftS_def query_def commit_def)

lemma bindS_lift [sql_simps]:
  "bindS (liftS (Inl e)) f c = (Inl e, c)"
  "bindS (liftS (Inr x)) f c = f x c"
  "bindS (returnS x) f c = f x c"
  "bindS (raiseS e) f c = (Inl e, c)"
  "bindS (query q) f c = f (q (working c)) c"
  "bindS commit k c = k () (c\<lparr>committed := working c\<rparr>)"
  by (simp_all add: bindS_def run_simps)

lemma bindS_execute [sql_simps]:
  "bindS (execute g) f c =
     (case g (working c) of Inl e \<Rightarrow> (Inl e, c) | Inr w \<Rightarrow> f () (c\<lparr>working := w\<rparr>))"
  "bindS (execute_count h) k c =
     (case h (working c) of Inl e \<Rightarrow> (Inl e, c) | Inr (n, w) \<Rightarrow> k n (c\<lparr>working := w\<rparr>))"
  by (simp_all add: bindS_def execute_def execute_count_def split: sum.splits prod.splits)

lemma bindS_liftE:
  "bindS (liftS m) f c = (case m of Inl e \<Rightarrow> (Inl e, c) | Inr x \<Rightarrow> f x c)"
  by (simp add: bindS_def run_simps split: sum.splits)

lemma bindS_Inr:
  "bindS m f c = (Inr y, c') \<longleftrightarrow> (\<exists>x c1. m c = (Inr x, c1) \<and> f x c1 = (Inr y, c'))"
  by (auto simp: bindS_def split: prod.splits sum.splits)

lemma run_Inr:
  "liftS r c = (Inr x, c') \<longleftrightarrow> r = Inr x \<and> c' = c"
  "query q c = (Inr v, c') \<longleftrightarrow> v = q (working c) \<and> c' = c"
  "execute g c = (Inr u, c') \<longleftrightarrow> (\<exists>w. g (working c) = Inr w \<and> c' = c\<lparr>working := w\<rparr>)"
  by (auto simp: liftS_def query_def execute_def split: sum.splits)

lemma with_connection_Inr:
  "with_connection (or_rollback body) db = (Inr x, db') \<longleftrightarrow>
     (\<exists>c. body \<lparr>committed = db, working = db\<rparr> = (Inr x, c) \<and> db' = committed c)"
  by (auto simp: with_connection_def or_rollback_def split: prod.splits sum.splits)

lemma bindS_Inl:
  "bindS m f c = (Inl e, c') \<longleftrightarrow>
     m c = (Inl e, c') \<or> (\<exists>x c1. m c = (Inr x, c1) \<and> f x c1 = (Inl e, c'))"
  by (auto simp: bindS_def split: prod.splits sum.splits)

lemma with_connection_Inl_iff:
  "with_connection (or_rollback body) db = (Inl e, db') \<longleftrightarrow>
     (\<exists>c. body \<lparr>committed = db, working = db\<rparr> = (Inl e, c) \<and> db' = committed c)"
  by (auto simp: with_connection_def or_rollback_def rollback_def split: prod.splits sum.splits)

section \<open>Atomicity\<close>

text \<open>
  A body is safe when an exception it raises leaves the committed database alone: statements
  before the commit may raise, nothing after it does.
\<close>

named_theorems safe_intros \<open>which bodies are safe\<close>

definition no_commit :: "('d, 'a) sql \<Rightarrow> bool" where
  "no_commit m \<longleftrightarrow> (\<forall>c. committed (snd (m c)) = committed c)"

definition safe :: "('d, 'a) sql \<Rightarrow> bool" where
  "safe m \<longleftrightarrow> (\<forall>c e c'. m c = (Inl e, c') \<longrightarrow> committed c' = committed c)"

lemma no_commit_basic [safe_intros]:
  "no_commit (returnS x)" "no_commit (raiseS e)" "no_commit (liftS r)" "no_commit (query q)"
  "no_commit (execute g)" "no_commit (execute_count h)"
  by (auto simp: no_commit_def run_simps execute_def execute_count_def split: sum.splits)

lemma no_commit_bind [safe_intros]:
  assumes "no_commit m" "\<And>x. no_commit (f x)" shows "no_commit (bindS m f)"
proof -
  have "committed (snd (bindS m f c)) = committed c" for c
    using assms unfolding no_commit_def bindS_def
    by (cases "m c"; cases "fst (m c)") (auto, metis snd_conv, metis snd_conv)
  then show ?thesis by (simp add: no_commit_def)
qed

lemma no_commit_safe: "no_commit m \<Longrightarrow> safe m"
  unfolding no_commit_def safe_def by (metis snd_conv)

lemma safe_commit [safe_intros]: "safe (bindS commit (\<lambda>_. returnS x))"
  by (simp add: safe_def sql_simps)

lemma safe_raise [safe_intros]: "safe (raiseS e)" "safe (returnS x)"
  by (simp_all add: safe_def run_simps)

lemma safe_bind [safe_intros]:
  assumes "no_commit m" "\<And>x. safe (f x)" shows "safe (bindS m f)"
  unfolding safe_def
proof (intro allI impI)
  fix c e c' assume b: "bindS m f c = (Inl e, c')"
  obtain r c1 where m: "m c = (r, c1)" by fastforce
  have "committed c1 = committed c" using assms(1) m unfolding no_commit_def by (metis snd_conv)
  moreover have "committed c' = committed c1" if "r = Inr x" for x
    using b m assms(2) [of x] that by (simp add: bindS_def safe_def)
  ultimately show "committed c' = committed c"
    using b m by (cases r) (auto simp: bindS_def)
qed

lemma safe_if [safe_intros]: "safe m \<Longrightarrow> safe m' \<Longrightarrow> safe (if b then m else m')"
  by simp

lemma no_commit_if [safe_intros]: "no_commit m \<Longrightarrow> no_commit m' \<Longrightarrow> no_commit (if b then m else m')"
  by simp

lemma no_commit_option [safe_intros]:
  "no_commit m \<Longrightarrow> (\<And>x. no_commit (f x)) \<Longrightarrow> no_commit (case v of None \<Rightarrow> m | Some x \<Rightarrow> f x)"
  by (cases v) auto

lemma with_connection_error:
  assumes "safe body" "with_connection (or_rollback body) db = (Inl e, db')"
  shows "db' = db"
  using assms by (auto simp: with_connection_def or_rollback_def rollback_def safe_def
      split: prod.splits sum.splits; metis connection.select_convs(1))

lemma with_connection_close:
  assumes "safe body" "with_connection body db = (Inl e, db')"
  shows "db' = db"
  using assms by (auto simp: with_connection_def safe_def split: prod.splits)

end
