(* ===== verification/Store_Common.thy ===== *)
theory Store_Common
  imports Sqlite
begin

text \<open>
  \<open>storage/_common.py\<close>: the limits and validators the stores share. A validator that only
  checks returns the checked value, so that its caller can go on with an integer or a text.
\<close>

definition MAX_U32 :: int where [simp]: "MAX_U32 = 0xFFFFFFFF"
definition MAX_SQLITE_INTEGER :: int where [simp]: "MAX_SQLITE_INTEGER = 0x7FFFFFFFFFFFFFFF"
definition MAX_RETRIEVAL_LIMIT :: int where [simp]: "MAX_RETRIEVAL_LIMIT = 20"

definition require_u32 :: "pystr \<Rightarrow> pyval \<Rightarrow> int result" where
  "require_u32 name value =
     (case value of
        PInt v \<Rightarrow> if 0 \<le> v \<and> v \<le> MAX_U32 then Inr v
          else Inl (ValueError (name @ lit '' must be an unsigned 32-bit integer''))
      | _ \<Rightarrow> Inl (ValueError (name @ lit '' must be an unsigned 32-bit integer'')))"

definition require_nonzero_u32 :: "pystr \<Rightarrow> pyval \<Rightarrow> int result" where
  "require_nonzero_u32 name value =
     bindE (require_u32 name value) (\<lambda>v.
       if v = 0
       then Inl (ValueError (name @ lit '' must be a non-zero unsigned 32-bit integer''))
       else Inr v)"

definition validate_retrieval_limit :: "pyval \<Rightarrow> int result" where
  "validate_retrieval_limit limit =
     (case limit of
        PInt v \<Rightarrow> if 1 \<le> v \<and> v \<le> MAX_RETRIEVAL_LIMIT then Inr v
          else Inl (ValueError (lit ''limit must be an integer between 1 and 20''))
      | _ \<Rightarrow> Inl (ValueError (lit ''limit must be an integer between 1 and 20'')))"

definition validate_clock_value :: "pyval \<Rightarrow> int result" where
  "validate_clock_value value =
     (case value of
        PInt v \<Rightarrow> if 0 \<le> v \<and> v \<le> MAX_SQLITE_INTEGER then Inr v
          else Inl (ValueError (lit ''clock must return a non-negative SQLite integer''))
      | _ \<Rightarrow> Inl (ValueError (lit ''clock must return a non-negative SQLite integer'')))"

definition validate_stored_u32 :: "sqlval \<Rightarrow> pystr \<Rightarrow> bool \<Rightarrow> int result" where
  "validate_stored_u32 value field allow_zero =
     (case value of
        SInt v \<Rightarrow> if (if allow_zero then 0 else 1) \<le> v \<and> v \<le> MAX_U32 then Inr v
          else Inl (StorageIntegrityError (field @ lit '' is not a valid unsigned 32-bit integer''))
      | _ \<Rightarrow> Inl (StorageIntegrityError (field @ lit '' is not a valid unsigned 32-bit integer'')))"

text \<open>\<open>if not isinstance(value, str): raise TypeError(message)\<close>\<close>

definition require_str :: "pystr \<Rightarrow> pyval \<Rightarrow> pystr result" where
  "require_str message value = (case value of PStr s \<Rightarrow> Inr s | _ \<Rightarrow> Inl (TypeError message))"

text \<open>\<open>text.encode("utf-8")\<close>\<close>

definition encode_utf8 :: "pystr \<Rightarrow> bytes result" where
  "encode_utf8 s = (case utf8_encode s of None \<Rightarrow> Inl UnicodeEncodeError | Some bs \<Rightarrow> Inr bs)"

lemma require_u32_Inr [simp]:
  "require_u32 name v = Inr n \<longleftrightarrow> v = PInt n \<and> 0 \<le> n \<and> n \<le> MAX_U32"
  by (auto simp: require_u32_def split: pyval.splits)

lemma require_nonzero_u32_Inr [simp]:
  "require_nonzero_u32 name v = Inr n \<longleftrightarrow> v = PInt n \<and> 1 \<le> n \<and> n \<le> MAX_U32"
  by (auto simp: require_nonzero_u32_def bindE_eq_Inr)

lemma validate_retrieval_limit_Inr [simp]:
  "validate_retrieval_limit v = Inr n \<longleftrightarrow> v = PInt n \<and> 1 \<le> n \<and> n \<le> 20"
  by (auto simp: validate_retrieval_limit_def split: pyval.splits)

lemma validate_clock_value_Inr [simp]:
  "validate_clock_value v = Inr n \<longleftrightarrow> v = PInt n \<and> 0 \<le> n \<and> n \<le> MAX_SQLITE_INTEGER"
  by (auto simp: validate_clock_value_def split: pyval.splits)

lemma validate_stored_u32_Inr [simp]:
  "validate_stored_u32 v f z = Inr n \<longleftrightarrow> v = SInt n \<and> (if z then 0 else 1) \<le> n \<and> n \<le> MAX_U32"
  by (auto simp: validate_stored_u32_def split: sqlval.splits)

lemma require_str_Inr [simp]: "require_str m v = Inr s \<longleftrightarrow> v = PStr s"
  by (auto simp: require_str_def split: pyval.splits)

lemma encode_utf8_Inr [simp]: "encode_utf8 s = Inr bs \<longleftrightarrow> utf8_encode s = Some bs"
  by (auto simp: encode_utf8_def split: option.splits)

text \<open>The validators applied to values that pass them.\<close>

lemma validators_ok:
  "0 \<le> n \<Longrightarrow> n \<le> 0xFFFFFFFF \<Longrightarrow> require_u32 f (PInt n) = Inr n"
  "1 \<le> n \<Longrightarrow> n \<le> 0xFFFFFFFF \<Longrightarrow> require_nonzero_u32 f (PInt n) = Inr n"
  "1 \<le> n \<Longrightarrow> n \<le> 20 \<Longrightarrow> validate_retrieval_limit (PInt n) = Inr n"
  "0 \<le> n \<Longrightarrow> n \<le> 0x7FFFFFFFFFFFFFFF \<Longrightarrow> validate_clock_value (PInt n) = Inr n"
  "0 \<le> n \<Longrightarrow> n \<le> 0xFFFFFFFF \<Longrightarrow> validate_stored_u32 (SInt n) f True = Inr n"
  "1 \<le> n \<Longrightarrow> n \<le> 0xFFFFFFFF \<Longrightarrow> validate_stored_u32 (SInt n) f z = Inr n"
  "require_str f (PStr s) = Inr s"
  "utf8_encode s = Some bs \<Longrightarrow> encode_utf8 s = Inr bs"
  by simp_all

end
