(* ===== verification/Database.thy ===== *)
theory Database
  imports Store_Common
begin

text \<open>
  The tables of schema version 5 (\<open>storage/migrations.py\<close>) and the statements that change
  them, each with the constraints of its table: NOT NULL, CHECK, PRIMARY KEY, UNIQUE and
  FOREIGN KEY violations raise \<open>sqlite3.IntegrityError\<close> and change nothing.
\<close>

record message_row =
  mr_recipient :: sqlval
  mr_sequence :: int
  mr_api :: int
  mr_created :: int
  mr_accepted :: sqlval
  mr_author :: sqlval
  mr_body :: sqlval

record delivery_row =
  dr_recipient :: pystr
  dr_sequence :: int
  dr_transport :: pystr
  dr_status :: pystr
  dr_delivered_at :: "int option"

record bulletin_row =
  br_sequence :: int
  br_created :: int
  br_accepted :: sqlval
  br_author :: sqlval
  br_title :: sqlval
  br_body :: sqlval

record account_row =
  ar_password_hash :: pystr
  ar_created_at :: int

record database =
  mailbox_sequences :: "pystr \<rightharpoonup> int"
  api_message_sequence :: "int option"
  messages :: "message_row list"
  api_idempotency :: "pystr \<times> pystr \<times> pystr \<rightharpoonup> pystr \<times> pystr \<times> int"
  conversation_reads :: "pystr \<times> pystr \<rightharpoonup> int"
  deliveries :: "delivery_row list"
  bulletins :: "bulletin_row list"
  bulletin_sequence :: "int option"
  accounts :: "pystr \<rightharpoonup> account_row"

text \<open>A migrated database without content.\<close>

definition empty_database :: database where
  "empty_database =
     \<lparr>mailbox_sequences = Map.empty, api_message_sequence = Some 0, messages = [],
      api_idempotency = Map.empty, conversation_reads = Map.empty, deliveries = [],
      bulletins = [], bulletin_sequence = Some 0, accounts = Map.empty\<rparr>"

text \<open>\<open>CHECK(accepted_at >= 0)\<close>: texts and blobs compare above every number.\<close>

fun nonneg :: "sqlval \<Rightarrow> bool" where
  "nonneg (SInt i) \<longleftrightarrow> 0 \<le> i"
| "nonneg (SReal r) \<longleftrightarrow> 0 \<le> r"
| "nonneg SNull \<longleftrightarrow> False"
| "nonneg _ \<longleftrightarrow> True"

definition message_check :: "message_row \<Rightarrow> bool" where
  "message_check row \<longleftrightarrow>
     mr_recipient row \<noteq> SNull \<and> 1 \<le> mr_sequence row \<and> mr_sequence row \<le> MAX_U32
     \<and> 0 < mr_api row \<and> 0 \<le> mr_created row \<and> mr_created row \<le> MAX_U32
     \<and> nonneg (mr_accepted row) \<and> mr_author row \<noteq> SNull \<and> mr_body row \<noteq> SNull"

definition insert_message :: "message_row \<Rightarrow> database \<Rightarrow> database result" where
  "insert_message row db =
     (if message_check row
         \<and> \<not> (\<exists>r \<in> set (messages db). mr_recipient r = mr_recipient row \<and> mr_sequence r = mr_sequence row)
         \<and> \<not> (\<exists>r \<in> set (messages db). mr_api r = mr_api row)
      then Inr (db\<lparr>messages := messages db @ [row]\<rparr>)
      else Inl SqliteIntegrityError)"

definition upsert_mailbox_sequence :: "pystr \<Rightarrow> int \<Rightarrow> database \<Rightarrow> database result" where
  "upsert_mailbox_sequence recipient v db =
     (if 0 \<le> v \<and> v \<le> MAX_U32
      then Inr (db\<lparr>mailbox_sequences := (mailbox_sequences db)(recipient \<mapsto> v)\<rparr>)
      else Inl SqliteIntegrityError)"

definition update_api_sequence :: "int \<Rightarrow> database \<Rightarrow> database result" where
  "update_api_sequence v db =
     (case api_message_sequence db of
        None \<Rightarrow> Inr db
      | Some _ \<Rightarrow> if 0 \<le> v then Inr (db\<lparr>api_message_sequence := Some v\<rparr>)
          else Inl SqliteIntegrityError)"

definition message_exists :: "database \<Rightarrow> pystr \<Rightarrow> int \<Rightarrow> bool" where
  "message_exists db recipient n \<longleftrightarrow>
     (\<exists>r \<in> set (messages db). mr_recipient r = SText recipient \<and> mr_sequence r = n)"

definition insert_idempotency ::
  "pystr \<Rightarrow> pystr \<Rightarrow> pystr \<Rightarrow> pystr \<Rightarrow> int \<Rightarrow> database \<Rightarrow> database result" where
  "insert_idempotency author key request_hash recipient n db =
     (if api_idempotency db (author, lit ''send'', key) = None \<and> message_exists db recipient n
      then Inr (db\<lparr>api_idempotency :=
             (api_idempotency db)((author, lit ''send'', key) \<mapsto> (request_hash, recipient, n))\<rparr>)
      else Inl SqliteIntegrityError)"

definition upsert_conversation_read :: "pystr \<Rightarrow> pystr \<Rightarrow> int \<Rightarrow> database \<Rightarrow> database result" where
  "upsert_conversation_read owner peer v db =
     (if 0 \<le> v
      then Inr (db\<lparr>conversation_reads := (conversation_reads db)((owner, peer) \<mapsto>
             (case conversation_reads db (owner, peer) of None \<Rightarrow> v | Some old \<Rightarrow> max old v))\<rparr>)
      else Inl SqliteIntegrityError)"

definition delivery_statuses :: "pystr set" where
  "delivery_statuses = {lit ''pending'', lit ''delivered'', lit ''failed''}"

definition same_delivery :: "delivery_row \<Rightarrow> delivery_row \<Rightarrow> bool" where
  "same_delivery a b \<longleftrightarrow> dr_recipient a = dr_recipient b \<and> dr_sequence a = dr_sequence b
     \<and> dr_transport a = dr_transport b"

text \<open>The transition the upsert's WHERE clause permits.\<close>

definition delivery_may_change :: "pystr \<Rightarrow> pystr \<Rightarrow> bool" where
  "delivery_may_change old nw \<longleftrightarrow>
     old \<noteq> lit ''delivered'' \<and> \<not> (old = lit ''failed'' \<and> nw = lit ''delivered'')"

definition upsert_delivery :: "delivery_row \<Rightarrow> database \<Rightarrow> (int \<times> database) result" where
  "upsert_delivery row db =
     (if dr_status row \<notin> delivery_statuses \<or>
         (case dr_delivered_at row of None \<Rightarrow> False | Some t \<Rightarrow> t < 0)
      then Inl SqliteIntegrityError
      else (case find (same_delivery row) (deliveries db) of
          None \<Rightarrow>
            if message_exists db (dr_recipient row) (dr_sequence row)
            then Inr (1, db\<lparr>deliveries := deliveries db @ [row]\<rparr>)
            else Inl SqliteIntegrityError
        | Some old \<Rightarrow>
            if delivery_may_change (dr_status old) (dr_status row)
            then Inr (1, db\<lparr>deliveries :=
                   map (\<lambda>r. if same_delivery row r
                     then r\<lparr>dr_status := dr_status row, dr_delivered_at := dr_delivered_at row\<rparr>
                     else r) (deliveries db)\<rparr>)
            else Inr (0, db)))"

definition bulletin_check :: "bulletin_row \<Rightarrow> bool" where
  "bulletin_check row \<longleftrightarrow>
     1 \<le> br_sequence row \<and> br_sequence row \<le> MAX_U32 \<and> 0 \<le> br_created row
     \<and> br_created row \<le> MAX_U32 \<and> (case br_accepted row of SInt t \<Rightarrow> 0 \<le> t | _ \<Rightarrow> False) \<and> br_author row \<noteq> SNull
     \<and> br_title row \<noteq> SNull \<and> br_body row \<noteq> SNull"

definition insert_bulletin :: "bulletin_row \<Rightarrow> database \<Rightarrow> database result" where
  "insert_bulletin row db =
     (if bulletin_check row \<and> \<not> (\<exists>r \<in> set (bulletins db). br_sequence r = br_sequence row)
      then Inr (db\<lparr>bulletins := bulletins db @ [row]\<rparr>)
      else Inl SqliteIntegrityError)"

definition update_bulletin_sequence :: "int \<Rightarrow> database \<Rightarrow> database result" where
  "update_bulletin_sequence v db =
     (case bulletin_sequence db of
        None \<Rightarrow> Inr db
      | Some _ \<Rightarrow> if 0 \<le> v \<and> v \<le> MAX_U32 then Inr (db\<lparr>bulletin_sequence := Some v\<rparr>)
          else Inl SqliteIntegrityError)"

definition insert_account :: "pystr \<Rightarrow> account_row \<Rightarrow> database \<Rightarrow> database result" where
  "insert_account callsign row db =
     (if accounts db callsign = None \<and> 0 \<le> ar_created_at row
      then Inr (db\<lparr>accounts := (accounts db)(callsign \<mapsto> row)\<rparr>)
      else Inl SqliteIntegrityError)"

text \<open>The value of a column of the expected class.\<close>

fun the_text :: "sqlval \<Rightarrow> pystr" where
  "the_text (SText s) = s"
| "the_text _ = []"

fun the_int :: "sqlval \<Rightarrow> int" where
  "the_int (SInt i) = i"
| "the_int _ = 0"

fun the_utf8 :: "sqlval \<Rightarrow> pystr" where
  "the_utf8 (SBlob b) = (case utf8_decode b of None \<Rightarrow> [] | Some s \<Rightarrow> s)"
| "the_utf8 _ = []"

end
