(* ===== verification/Message_Store.thy ===== *)
theory Message_Store
  imports Database Protocol
begin

text \<open>
  \<open>storage/messages.py\<close> and \<open>storage/conversation_lookup.py\<close>: every operation of
  \<open>MessageStore\<close> as a function from the committed database to its result and the committed
  database after it. The bodies run on a connection, statement by statement, with commit and
  rollback where the code has them. The clock's answer is an argument.
\<close>

record stored_message =
  st_sequence :: int
  st_created_at :: int
  st_accepted_at :: int
  st_author :: pystr
  st_recipient :: pystr
  st_body :: pystr
  st_api_sequence :: int

record message_page =
  mp_messages :: "stored_message list"
  mp_next_since :: int
  mp_has_more :: bool

record conversation =
  cv_peer :: sqlval
  cv_last_message :: stored_message
  cv_unread_count :: int
  cv_last_read_sequence :: int

section \<open>Rows\<close>

text \<open>The rows of one mailbox, and of one conversation in it, in insertion order.\<close>

definition mailbox :: "database \<Rightarrow> pystr \<Rightarrow> message_row list" where
  "mailbox db recipient = filter (\<lambda>r. mr_recipient r = SText recipient) (messages db)"

definition incoming :: "database \<Rightarrow> pystr \<Rightarrow> pystr \<Rightarrow> message_row list" where
  "incoming db recipient author = filter (\<lambda>r. mr_author r = SText author) (mailbox db recipient)"

definition max_sequence :: "message_row list \<Rightarrow> int option" where
  "max_sequence rows = (if rows = [] then None else Some (Max (set (map mr_sequence rows))))"

definition find_message :: "database \<Rightarrow> pystr \<Rightarrow> int \<Rightarrow> message_row option" where
  "find_message db recipient n =
     find (\<lambda>r. mr_recipient r = SText recipient \<and> mr_sequence r = n) (messages db)"

text \<open>\<open>_stored_message\<close>; the second argument says whether the query selected the API column.\<close>

definition stored_message_of :: "message_row \<Rightarrow> bool \<Rightarrow> stored_message result" where
  "stored_message_of row api_selected =
     bindE (validate_stored_u32 (SInt (mr_sequence row)) (lit ''message sequence'') False) (\<lambda>sequence.
     bindE (validate_stored_u32 (SInt (mr_created row)) (lit ''message created_at'') True) (\<lambda>created_at.
     case mr_accepted row of
       SInt accepted_at \<Rightarrow>
         if accepted_at < 0
         then Inl (StorageIntegrityError (lit ''message accepted_at is invalid''))
         else (case (mr_author row, mr_recipient row) of
             (SText author, SText recipient) \<Rightarrow>
               (case mr_body row of
                  SBlob body \<Rightarrow>
                    (case utf8_decode body of
                       None \<Rightarrow> Inl (StorageIntegrityError (lit ''message body is not valid UTF-8''))
                     | Some text \<Rightarrow>
                         Inr \<lparr>st_sequence = sequence, st_created_at = created_at,
                              st_accepted_at = accepted_at, st_author = author,
                              st_recipient = recipient, st_body = text,
                              st_api_sequence = (if api_selected then mr_api row else 0)\<rparr>)
                | _ \<Rightarrow> Inl (StorageIntegrityError (lit ''message body is not a BLOB'')))
           | _ \<Rightarrow> Inl (StorageIntegrityError (lit ''message author or recipient is not text'')))
     | _ \<Rightarrow> Inl (StorageIntegrityError (lit ''message accepted_at is invalid''))))"

definition optional_message :: "message_row option \<Rightarrow> stored_message result" where
  "optional_message row = (case row of
     None \<Rightarrow> Inl (TypeError (lit ''NoneType object is not subscriptable''))
   | Some r \<Rightarrow> stored_message_of r True)"

section \<open>Reading a mailbox\<close>

definition mailbox_highest :: "database \<Rightarrow> pystr \<Rightarrow> int result" where
  "mailbox_highest db callsign =
     (case mailbox_sequences db callsign of
        None \<Rightarrow> if max_sequence (mailbox db callsign) \<noteq> None
          then Inl (StorageIntegrityError (lit ''mailbox has messages but no sequence state''))
          else Inr 0
      | Some last_value \<Rightarrow>
          bindE (validate_stored_u32 (SInt last_value) (lit ''mailbox high-water'') True) (\<lambda>highest.
          case max_sequence (mailbox db callsign) of
            None \<Rightarrow> Inr highest
          | Some m \<Rightarrow>
              bindE (validate_stored_u32 (SInt m) (lit ''highest persisted message sequence'') False)
                (\<lambda>maximum.
                  if highest < maximum
                  then Inl (StorageIntegrityError
                         (lit ''mailbox high-water is behind persisted messages''))
                  else Inr highest)))"

definition get_new_messages_tx :: "pystr \<Rightarrow> int \<Rightarrow> int \<Rightarrow> (database, message_row list) sql" where
  "get_new_messages_tx callsign since limit =
     bindS (liftS (bind_text callsign)) (\<lambda>_.
     bindS (query (\<lambda>db. mailbox_highest db callsign)) (\<lambda>r.
     bindS (liftS r) (\<lambda>highest.
     if since > highest
     then raiseS (InvalidCursorError (lit ''message cursor '' @ dec since @
            lit '' is ahead of mailbox high-water '' @ dec highest))
     else bindS (query (\<lambda>db. sql_limit (limit + 1) (sort_key mr_sequence
              (filter (\<lambda>r. mr_sequence r > since) (mailbox db callsign))))) (\<lambda>rows.
          bindS commit (\<lambda>_. returnS rows)))))"

definition get_new_messages ::
  "pyval \<Rightarrow> pyval \<Rightarrow> pyval \<Rightarrow> database \<Rightarrow> message_page result \<times> database" where
  "get_new_messages callsign since limit db =
     (case bindE (require_u32 (lit ''since'') since) (\<lambda>since.
           bindE (validate_retrieval_limit limit) (\<lambda>limit.
           bindE (require_str (lit ''callsign must be a string'') callsign) (\<lambda>callsign.
             Inr (callsign, since, limit)))) of
        Inl e \<Rightarrow> (Inl e, db)
      | Inr (callsign, since, limit) \<Rightarrow>
          (case with_connection (or_rollback (get_new_messages_tx callsign since limit)) db of
             (Inl e, db) \<Rightarrow> (Inl e, db)
           | (Inr rows, db) \<Rightarrow>
               (bindE (mapE (\<lambda>row. stored_message_of row False) (slice_to limit rows)) (\<lambda>messages.
                  Inr \<lparr>mp_messages = messages,
                       mp_next_since = (if messages = [] then since else st_sequence (last messages)),
                       mp_has_more = int (length rows) > limit\<rparr>), db)))"

definition get_message :: "pystr \<Rightarrow> int \<Rightarrow> database \<Rightarrow> stored_message option result" where
  "get_message recipient n db =
     bindE (bind_text recipient) (\<lambda>_. bindE (bind_int n) (\<lambda>_.
     case find_message db recipient n of
       None \<Rightarrow> Inr None
     | Some row \<Rightarrow> bindE (stored_message_of row True) (\<lambda>m. Inr (Some m))))"

section \<open>Storing\<close>

definition store_message_tx ::
  "int \<Rightarrow> pystr \<Rightarrow> pystr \<Rightarrow> bytes \<Rightarrow> pyval \<Rightarrow> (database, int) sql" where
  "store_message_tx created_at author recipient body_bytes clock =
     bindS (liftS (bind_text recipient)) (\<lambda>_.
     bindS (query (\<lambda>db. mailbox_sequences db recipient)) (\<lambda>row.
     bindS (liftS (case row of
              None \<Rightarrow> Inr 0
            | Some v \<Rightarrow> validate_stored_u32 (SInt v) (lit ''mailbox high-water'') True)) (\<lambda>last.
     if last = MAX_U32
     then raiseS (SequenceExhaustedError (lit ''mailbox sequence is exhausted''))
     else (let sequence = last + 1 in
       bindS (liftS (validate_clock_value clock)) (\<lambda>accepted_at.
       bindS (query api_message_sequence) (\<lambda>api_row.
       bindS (liftS (fetch_first api_row)) (\<lambda>api_last.
       let api_sequence = api_last + 1 in
       bindS (liftS (bind_int api_sequence)) (\<lambda>_.
       bindS (execute (update_api_sequence api_sequence)) (\<lambda>_.
       bindS (execute (upsert_mailbox_sequence recipient sequence)) (\<lambda>_.
       bindS (liftS (bind_text author)) (\<lambda>_.
       bindS (execute (insert_message
           \<lparr>mr_recipient = SText recipient, mr_sequence = sequence, mr_api = api_sequence,
            mr_created = created_at, mr_accepted = SInt accepted_at, mr_author = SText author,
            mr_body = SBlob body_bytes\<rparr>)) (\<lambda>_.
       bindS commit (\<lambda>_. returnS sequence)))))))))))))"

definition store_message ::
  "pyval \<Rightarrow> pyval \<Rightarrow> pyval \<Rightarrow> pyval \<Rightarrow> pyval \<Rightarrow> database \<Rightarrow> int result \<times> database" where
  "store_message created_at author recipient body clock db =
     (case bindE (require_u32 (lit ''created_at'') created_at) (\<lambda>created_at.
           bindE (require_str (lit ''author and recipient must be strings'') author) (\<lambda>author.
           bindE (require_str (lit ''author and recipient must be strings'') recipient) (\<lambda>recipient.
           bindE (require_str (lit ''body must be a string'') body) (\<lambda>body.
           bindE (encode_utf8 body) (\<lambda>body_bytes.
             Inr (created_at, author, recipient, body_bytes)))))) of
        Inl e \<Rightarrow> (Inl e, db)
      | Inr (created_at, author, recipient, body_bytes) \<Rightarrow>
          with_connection (or_rollback
            (store_message_tx created_at author recipient body_bytes clock)) db)"

text \<open>The keyed request's original result, when there is one.\<close>

definition replay_idempotent ::
  "pystr \<Rightarrow> pystr \<Rightarrow> pystr \<Rightarrow> (database, (stored_message \<times> bool) option) sql" where
  "replay_idempotent author key request_hash =
     bindS (liftS (bind_texts [author, key])) (\<lambda>_.
     bindS (query (\<lambda>db. api_idempotency db (author, lit ''send'', key))) (\<lambda>old.
     case old of
       None \<Rightarrow> returnS None
     | Some (old_hash, old_recipient, old_sequence) \<Rightarrow>
         if old_hash \<noteq> request_hash
         then raiseS (IdempotencyConflictError (lit ''key reused with another request''))
         else bindS (query (\<lambda>db. find_message db old_recipient old_sequence)) (\<lambda>row.
              bindS commit (\<lambda>_.
              bindS (liftS (optional_message row)) (\<lambda>m. returnS (Some (m, False)))))))"

definition insert_idempotent_message ::
  "int \<Rightarrow> pystr \<Rightarrow> pystr \<Rightarrow> pystr \<Rightarrow> pystr option \<Rightarrow> pystr \<Rightarrow> pyval \<Rightarrow>
     (database, message_row option) sql" where
  "insert_idempotent_message created_at author recipient body idempotency_key request_hash clock =
     bindS (liftS (bind_text recipient)) (\<lambda>_.
     bindS (query (\<lambda>db. mailbox_sequences db recipient)) (\<lambda>mbox.
     let sequence = (case mbox of None \<Rightarrow> 0 | Some v \<Rightarrow> v) + 1 in
     if sequence > MAX_U32
     then raiseS (SequenceExhaustedError (lit ''mailbox sequence is exhausted''))
     else
       bindS (query api_message_sequence) (\<lambda>api_row.
       bindS (liftS (fetch_first api_row)) (\<lambda>api_last.
       let api_sequence = api_last + 1 in
       bindS (liftS (validate_clock_value clock)) (\<lambda>accepted_at.
       bindS (execute (upsert_mailbox_sequence recipient sequence)) (\<lambda>_.
       bindS (liftS (bind_int api_sequence)) (\<lambda>_.
       bindS (execute (update_api_sequence api_sequence)) (\<lambda>_.
       bindS (liftS (encode_utf8 body)) (\<lambda>body_bytes.
       bindS (liftS (bind_int created_at)) (\<lambda>_.
       bindS (liftS (bind_text author)) (\<lambda>_.
       bindS (execute (insert_message
           \<lparr>mr_recipient = SText recipient, mr_sequence = sequence, mr_api = api_sequence,
            mr_created = created_at, mr_accepted = SInt accepted_at, mr_author = SText author,
            mr_body = SBlob body_bytes\<rparr>)) (\<lambda>_.
       bindS (case idempotency_key of
                None \<Rightarrow> returnS ()
              | Some key \<Rightarrow>
                  bindS (liftS (bind_texts [author, key, request_hash])) (\<lambda>_.
                    execute (insert_idempotency author key request_hash recipient sequence))) (\<lambda>_.
       query (\<lambda>db. find (\<lambda>r. mr_api r = api_sequence) (messages db)))))))))))))))"

definition store_new_idempotent ::
  "int \<Rightarrow> pystr \<Rightarrow> pystr \<Rightarrow> pystr \<Rightarrow> pystr option \<Rightarrow> pystr \<Rightarrow> pyval \<Rightarrow>
     (database, stored_message \<times> bool) sql" where
  "store_new_idempotent created_at author recipient body idempotency_key request_hash clock =
     bindS (insert_idempotent_message created_at author recipient body idempotency_key
              request_hash clock) (\<lambda>row.
     bindS commit (\<lambda>_.
     bindS (liftS (optional_message row)) (\<lambda>m. returnS (m, True))))"

definition store_message_idempotent ::
  "int \<Rightarrow> pystr \<Rightarrow> pystr \<Rightarrow> pystr \<Rightarrow> pystr option \<Rightarrow> pystr \<Rightarrow> pyval \<Rightarrow> database \<Rightarrow>
     (stored_message \<times> bool) result \<times> database" where
  "store_message_idempotent created_at author recipient body idempotency_key request_hash clock db =
     with_connection (or_rollback
       (bindS (case idempotency_key of
                 None \<Rightarrow> returnS None
               | Some key \<Rightarrow> replay_idempotent author key request_hash) (\<lambda>old.
        case old of
          Some result \<Rightarrow> returnS result
        | None \<Rightarrow> store_new_idempotent created_at author recipient body idempotency_key
                    request_hash clock))) db"

section \<open>The API's view\<close>

definition visible :: "pystr \<Rightarrow> message_row \<Rightarrow> bool" where
  "visible callsign r \<longleftrightarrow> mr_author r = SText callsign \<or> mr_recipient r = SText callsign"

definition between :: "pystr \<Rightarrow> pystr \<Rightarrow> message_row \<Rightarrow> bool" where
  "between a b r \<longleftrightarrow> mr_author r = SText a \<and> mr_recipient r = SText b
     \<or> mr_author r = SText b \<and> mr_recipient r = SText a"

definition api_list ::
  "pystr \<Rightarrow> int \<Rightarrow> int \<Rightarrow> pystr option \<Rightarrow> database \<Rightarrow> (stored_message list \<times> bool) result" where
  "api_list callsign after limit peer db =
     bindE (bind_text callsign) (\<lambda>_. bindE (bind_int after) (\<lambda>_.
     bindE (case peer of None \<Rightarrow> Inr () | Some p \<Rightarrow> bind_text p) (\<lambda>_.
     bindE (bind_int (limit + 1)) (\<lambda>_.
     let rows = sql_limit (limit + 1) (sort_key mr_api (filter (\<lambda>r. visible callsign r
           \<and> mr_api r > after \<and> (case peer of None \<Rightarrow> True | Some p \<Rightarrow> between callsign p r))
           (messages db))) in
     bindE (mapE (\<lambda>r. stored_message_of r True) (slice_to limit rows)) (\<lambda>items.
       Inr (items, int (length rows) > limit))))))"

definition api_high_water :: "database \<Rightarrow> int result" where
  "api_high_water db = fetch_first (api_message_sequence db)"

definition conversation_sequence :: "stored_message \<Rightarrow> database \<Rightarrow> int result" where
  "conversation_sequence value db =
     bindE (bind_texts [st_recipient value, st_author value]) (\<lambda>_.
     bindE (bind_int (st_sequence value)) (\<lambda>_.
     let count = int (length (filter (\<lambda>r. mr_sequence r \<le> st_sequence value)
           (incoming db (st_recipient value) (st_author value)))) in
     if count \<le> 0 \<or> count > MAX_U32
     then Inl (StorageIntegrityError (lit ''message conversation sequence is invalid''))
     else Inr count))"

text \<open>\<open>storage/conversation_lookup.py\<close>\<close>

definition get_conversation_message ::
  "pyval \<Rightarrow> pyval \<Rightarrow> pyval \<Rightarrow> database \<Rightarrow> stored_message option result" where
  "get_conversation_message recipient author number db =
     bindE (require_u32 (lit ''conversation_sequence'') number) (\<lambda>n.
     if n = 0 then Inl (ValueError (lit ''conversation_sequence must be non-zero''))
     else bindE (require_str (lit ''recipient and author must be strings'') recipient) (\<lambda>recipient.
     bindE (require_str (lit ''recipient and author must be strings'') author) (\<lambda>author.
     bindE (bind_texts [recipient, author]) (\<lambda>_.
     case drop (nat (n - 1)) (sort_key mr_sequence (incoming db recipient author)) of
       [] \<Rightarrow> Inr None
     | row # _ \<Rightarrow>
         bindE (stored_message_of row True) (\<lambda>value.
           if \<not> (1 \<le> n \<and> n \<le> MAX_U32)
           then Inl (StorageIntegrityError (lit ''message conversation sequence is invalid''))
           else Inr (Some value))))))"

definition max_delivered_at :: "delivery_row list \<Rightarrow> int option" where
  "max_delivered_at rows =
     (let times = List.map_filter dr_delivered_at rows in
      if times = [] then None else Some (Max (set times)))"

definition message_state :: "stored_message \<Rightarrow> database \<Rightarrow> (pystr \<times> int option) result" where
  "message_state value db =
     bindE (bind_texts [st_recipient value, st_author value]) (\<lambda>_.
     bindE (bind_int (st_sequence value)) (\<lambda>_.
     let read_row = conversation_reads db (st_recipient value, st_author value);
         delivered_at = max_delivered_at (filter (\<lambda>r. dr_recipient r = st_recipient value
           \<and> dr_sequence r = st_sequence value \<and> dr_status r = lit ''delivered'') (deliveries db)) in
     if (case read_row of None \<Rightarrow> False | Some v \<Rightarrow> v \<ge> st_sequence value)
     then Inr (lit ''read'', delivered_at)
     else (case delivered_at of
             Some t \<Rightarrow> Inr (lit ''delivered'', Some t)
           | None \<Rightarrow> Inr (lit ''stored'', None))))"

definition peer_of :: "pystr \<Rightarrow> message_row \<Rightarrow> sqlval" where
  "peer_of callsign r = (if mr_author r = SText callsign then mr_recipient r else mr_author r)"

text \<open>The query of \<open>conversations\<close>: the visible messages no later visible message of the same
  peer follows, newest first, each with its read cursor and the number of unread messages.\<close>

definition read_cursor :: "database \<Rightarrow> pystr \<Rightarrow> sqlval \<Rightarrow> int" where
  "read_cursor db owner peer = (case peer of
     SText p \<Rightarrow> (case conversation_reads db (owner, p) of None \<Rightarrow> 0 | Some v \<Rightarrow> v)
   | _ \<Rightarrow> 0)"

definition conversation_rows :: "pystr \<Rightarrow> database \<Rightarrow> (message_row \<times> int \<times> int) list" where
  "conversation_rows callsign db =
     (let vis = filter (visible callsign) (messages db);
          latest = filter (\<lambda>v. \<forall>w \<in> set vis. peer_of callsign w = peer_of callsign v \<longrightarrow> mr_api w \<le> mr_api v) vis
      in map (\<lambda>v. (v, read_cursor db callsign (peer_of callsign v),
             int (length (filter (\<lambda>r. mr_recipient r = SText callsign
               \<and> mr_author r = peer_of callsign v
               \<and> mr_sequence r > read_cursor db callsign (peer_of callsign v)) (messages db)))))
           (rev (sort_key mr_api latest)))"

definition conversations :: "pystr \<Rightarrow> database \<Rightarrow> conversation list result" where
  "conversations callsign db =
     bindE (bind_text callsign) (\<lambda>_.
     mapE (\<lambda>(row, last_read, unread).
       bindE (stored_message_of row True) (\<lambda>m.
         Inr \<lparr>cv_peer = peer_of callsign row, cv_last_message = m, cv_unread_count = unread,
              cv_last_read_sequence = last_read\<rparr>)) (conversation_rows callsign db))"

section \<open>Read cursors and deliveries\<close>

definition advance_conversation_read ::
  "pystr \<Rightarrow> pystr \<Rightarrow> database \<Rightarrow> (int \<times> bool) result \<times> database" where
  "advance_conversation_read owner peer = with_connection
     (bindS (liftS (bind_texts [owner, peer])) (\<lambda>_.
      bindS (query (\<lambda>db. conversation_reads db (owner, peer))) (\<lambda>previous_row.
      let previous = (case previous_row of None \<Rightarrow> 0 | Some v \<Rightarrow> v) in
      bindS (query (\<lambda>db. case max_sequence (incoming db owner peer) of None \<Rightarrow> 0 | Some v \<Rightarrow> v)) (\<lambda>sequence.
      bindS (execute (upsert_conversation_read owner peer sequence)) (\<lambda>_.
      bindS (query (\<lambda>db. conversation_reads db (owner, peer))) (\<lambda>row.
      bindS (liftS (fetch_first row)) (\<lambda>persisted.
      bindS commit (\<lambda>_. returnS (persisted, persisted > previous)))))))))"

definition mark_conversation_read :: "pystr \<Rightarrow> pystr \<Rightarrow> database \<Rightarrow> int result \<times> database" where
  "mark_conversation_read owner peer db =
     (case advance_conversation_read owner peer db of
        (Inl e, db) \<Rightarrow> (Inl e, db) | (Inr (n, _), db) \<Rightarrow> (Inr n, db))"

definition set_delivery ::
  "pystr \<Rightarrow> int \<Rightarrow> pystr \<Rightarrow> pystr \<Rightarrow> int option \<Rightarrow> database \<Rightarrow> bool result \<times> database" where
  "set_delivery recipient n transport status delivered_at = with_connection
     (bindS (liftS (bind_text recipient)) (\<lambda>_.
      bindS (liftS (bind_int n)) (\<lambda>_.
      bindS (liftS (bind_texts [transport, status])) (\<lambda>_.
      bindS (liftS (case delivered_at of None \<Rightarrow> Inr () | Some t \<Rightarrow> bind_int t)) (\<lambda>_.
      bindS (execute_count (upsert_delivery
          \<lparr>dr_recipient = recipient, dr_sequence = n, dr_transport = transport,
           dr_status = status, dr_delivered_at = delivered_at\<rparr>)) (\<lambda>rowcount.
      bindS commit (\<lambda>_. returnS (rowcount > 0))))))))"

end
