(* ===== verification/Paging.thy ===== *)
theory Paging
  imports Prelude
begin

text \<open>
  The cursor contract that mailboxes, bulletins and the API list share: a page is a prefix of
  the items after the cursor, it names the next cursor, and it says whether more follow. The
  locales state what a provider of such a log promises; inside them, reading page after page
  is shown to deliver every item exactly once and in order, also when items are appended
  between two pages.
\<close>

section \<open>One page\<close>

definition next_cursor :: "('a \<Rightarrow> int) \<Rightarrow> int \<Rightarrow> 'a list \<Rightarrow> int" where
  "next_cursor key since items = (if items = [] then since else key (last items))"

definition page_of :: "('a \<Rightarrow> int) \<Rightarrow> 'a list \<Rightarrow> int \<Rightarrow> nat \<Rightarrow> 'a list \<times> int \<times> bool" where
  "page_of key xs since limit =
     (let rows = take (limit + 1) (filter (\<lambda>x. since < key x) xs); items = take limit rows
      in (items, next_cursor key since items, length rows > limit))"

definition increasing :: "('a \<Rightarrow> int) \<Rightarrow> 'a list \<Rightarrow> bool" where
  "increasing key xs \<longleftrightarrow> sorted_wrt (\<lambda>x y. key x < key y) xs"

lemma increasing_filter: "increasing key xs \<Longrightarrow> increasing key (filter P xs)"
  by (simp add: increasing_def sorted_wrt_filter)

lemma increasing_take: "increasing key xs \<Longrightarrow> increasing key (take n xs)"
  by (simp add: increasing_def sorted_wrt_take)

lemma increasing_append: "increasing key (xs @ ys) \<longleftrightarrow>
    increasing key xs \<and> increasing key ys \<and> (\<forall>x \<in> set xs. \<forall>y \<in> set ys. key x < key y)"
  by (simp add: increasing_def sorted_wrt_append)

lemma increasing_distinct: "increasing key xs \<Longrightarrow> distinct xs"
  by (induction xs) (auto simp: increasing_def)

text \<open>The items after the cursor that a page of the first items names are the remaining ones.\<close>

lemma filter_after_last:
  assumes "increasing key (ps @ rs)" "ps \<noteq> []"
  shows "filter (\<lambda>x. key (last ps) < key x) (ps @ rs) = rs"
proof -
  have p: "\<not> key (last ps) < key x" if "x \<in> set ps" for x
  proof -
    have "increasing key (butlast ps @ [last ps])" using assms by (simp add: increasing_append)
    then have "x \<in> set (butlast ps) \<longrightarrow> key x < key (last ps)" by (simp add: increasing_append)
    moreover have "x \<in> set (butlast ps) \<or> x = last ps"
      using that assms(2) by (metis append_butlast_last_id in_set_conv_decomp rotate1.simps(2)
          set_ConsD set_rotate1)
    ultimately show ?thesis by auto
  qed
  moreover have "key (last ps) < key x" if "x \<in> set rs" for x
    using assms that by (simp add: increasing_append)
  ultimately show ?thesis by (simp add: filter_empty_conv)
qed

lemma page_of_split:
  assumes "increasing key xs" "page_of key xs since limit = (items, nxt, mr)"
  shows "filter (\<lambda>x. since < key x) xs = items @ filter (\<lambda>x. nxt < key x) xs"
    and "mr \<longleftrightarrow> filter (\<lambda>x. nxt < key x) xs \<noteq> []"
    and "length items \<le> limit" and "0 < limit \<Longrightarrow> items = [] \<Longrightarrow> \<not> mr"
    and "since \<le> nxt"
proof -
  define fs where "fs = filter (\<lambda>x. since < key x) xs"
  have items: "items = take limit fs" and n: "nxt = next_cursor key since items"
    and mr: "mr \<longleftrightarrow> length fs > limit"
    using assms(2) by (auto simp: page_of_def Let_def fs_def)
  have inc: "increasing key fs" using assms(1) by (simp add: fs_def increasing_filter)
  have le: "since \<le> nxt"
  proof (cases "items = []")
    case False
    then have "last items \<in> set fs" using items by (metis in_set_takeD last_in_set)
    with False n show ?thesis by (simp add: next_cursor_def fs_def)
  qed (use n in \<open>simp add: next_cursor_def\<close>)
  then show "since \<le> nxt" .
  have "filter (\<lambda>x. nxt < key x) xs = filter (\<lambda>x. nxt < key x) fs"
    using le by (auto simp: fs_def intro!: filter_cong)
  moreover have "filter (\<lambda>x. nxt < key x) fs = drop limit fs"
  proof (cases "items = []")
    case True
    then have "limit = 0 \<or> fs = []" using items by auto
    moreover have "filter (\<lambda>x. since < key x) fs = fs" by (simp add: fs_def)
    ultimately show ?thesis using True n by (auto simp: next_cursor_def)
  next
    case False
    have "increasing key (items @ drop limit fs)" using inc items by simp
    from filter_after_last [OF this False] False show ?thesis
      using items n by (simp add: next_cursor_def)
  qed
  ultimately have d: "filter (\<lambda>x. nxt < key x) xs = drop limit fs" by simp
  show "filter (\<lambda>x. since < key x) xs = items @ filter (\<lambda>x. nxt < key x) xs"
    using d items by (simp flip: fs_def)
  show "mr \<longleftrightarrow> filter (\<lambda>x. nxt < key x) xs \<noteq> []" using d mr by auto
  show "length items \<le> limit" using items by simp
  show "0 < limit \<Longrightarrow> items = [] \<Longrightarrow> \<not> mr" using items mr by auto
qed

lemma sorted_upto: "sorted_wrt (<) [a..b :: int]"
  by (rule strict_sorted_iff [THEN iffD2]) simp

lemma increasing_keys: "map key xs = [a..b] \<Longrightarrow> increasing key xs"
  using sorted_upto [of a b] by (simp add: increasing_def flip: sorted_wrt_map)

lemma increasing_sort: "increasing key xs \<Longrightarrow> sort_key key xs = xs"
proof (rule sort_key_id_if_sorted)
  assume "increasing key xs"
  then show "sorted (map key xs)"
    by (auto simp: increasing_def sorted_wrt_map elim: sorted_wrt_mono_rel [rotated])
qed

lemma page_of_map:
  "page_of key (map f xs) since limit =
     (let rows = take (limit + 1) (filter (\<lambda>r. since < key (f r)) xs); items = map f (take limit rows)
      in (items, next_cursor key since items, length rows > limit))"
  by (simp add: page_of_def Let_def filter_map comp_def take_map)

section \<open>Reading a whole log\<close>

text \<open>The synchronisation procedure of a client: ask again from the returned cursor while
  \<open>has_more\<close> is set.\<close>

fun sync_loop :: "(int \<Rightarrow> 'e + ('a list \<times> int \<times> bool)) \<Rightarrow> nat \<Rightarrow> int \<Rightarrow> ('e + 'a list \<times> int) option" where
  "sync_loop fetch 0 since = None"
| "sync_loop fetch (Suc fuel) since =
     (case fetch since of
        Inl e \<Rightarrow> Some (Inl e)
      | Inr (items, nxt, mr) \<Rightarrow>
          if mr
          then (case sync_loop fetch fuel nxt of
                  None \<Rightarrow> None | Some (Inl e) \<Rightarrow> Some (Inl e)
                | Some (Inr (rest, c)) \<Rightarrow> Some (Inr (items @ rest, c)))
          else Some (Inr (items, nxt)))"

text \<open>One page in each of a sequence of states, each page from the cursor of the one before.\<close>

fun read_pages :: "('s \<Rightarrow> int \<Rightarrow> 'e + ('a list \<times> int \<times> bool)) \<Rightarrow> 's list \<Rightarrow> int \<Rightarrow> 'e + ('a list \<times> int)" where
  "read_pages fetch [] since = Inr ([], since)"
| "read_pages fetch (s # ss) since =
     (case fetch s since of
        Inl e \<Rightarrow> Inl e
      | Inr (items, nxt, _) \<Rightarrow>
          (case read_pages fetch ss nxt of Inl e \<Rightarrow> Inl e | Inr (rest, c) \<Rightarrow> Inr (items @ rest, c)))"

fun chained :: "('s \<Rightarrow> 's \<Rightarrow> bool) \<Rightarrow> 's list \<Rightarrow> bool" where
  "chained r (s # s' # ss) \<longleftrightarrow> r s s' \<and> chained r (s' # ss)"
| "chained r _ \<longleftrightarrow> True"

lemma window_split:
  assumes "increasing key xs" "a \<le> b" "b \<le> c"
  shows "filter (\<lambda>x. a < key x \<and> key x \<le> c) xs =
    filter (\<lambda>x. a < key x \<and> key x \<le> b) xs @ filter (\<lambda>x. b < key x \<and> key x \<le> (c :: int)) xs"
  using assms
proof (induction xs)
  case (Cons x xs)
  show ?case
  proof (cases "key x \<le> b")
    case False
    then have "filter (\<lambda>x. a < key x \<and> key x \<le> b) xs = []"
      using Cons.prems(1) by (fastforce simp: increasing_def filter_empty_conv)
    then show ?thesis using False Cons by (auto simp: increasing_def)
  qed (use Cons in \<open>auto simp: increasing_def\<close>)
qed simp

lemma page_of_window:
  assumes "increasing key xs" "page_of key xs since limit = (items, nxt, mr)"
  shows "items = filter (\<lambda>x. since < key x \<and> key x \<le> nxt) xs"
proof -
  note sp = page_of_split [OF assms]
  have "filter (\<lambda>x. key x \<le> nxt) (filter (\<lambda>x. since < key x) xs) = filter (\<lambda>x. key x \<le> nxt) items"
    by (subst sp(1)) (auto simp: filter_empty_conv)
  moreover have "key x \<le> nxt" if "x \<in> set items" for x
  proof -
    have "items \<noteq> []" using that by auto
    then have "nxt = key (last items)" using assms(2) by (auto simp: page_of_def Let_def next_cursor_def)
    moreover have "increasing key (butlast items @ [last items])"
      using that increasing_filter [OF assms(1), of "\<lambda>x. since < key x"] sp(1)
      by (metis append_butlast_last_id empty_iff empty_set increasing_append)
    moreover have "x \<in> set (butlast items) \<or> x = last items"
      using that by (metis append_butlast_last_id empty_iff empty_set insert_iff list.simps(15) rotate1.simps(2) set_rotate1)
    ultimately show ?thesis by (auto simp: increasing_append less_imp_le)
  qed
  ultimately show ?thesis by (simp add: conj_commute)
qed

locale paged_log =
  fixes fetch :: "'s \<Rightarrow> int \<Rightarrow> nat \<Rightarrow> 'e + ('a list \<times> int \<times> bool)"
    and log :: "'s \<Rightarrow> 'a list"
    and key :: "'a \<Rightarrow> int"
    and high :: "'s \<Rightarrow> int"
    and invar :: "'s \<Rightarrow> bool"
    and max_limit :: nat
  assumes log_increasing: "invar s \<Longrightarrow> increasing key (log s)"
    and log_below: "invar s \<Longrightarrow> x \<in> set (log s) \<Longrightarrow> 0 < key x \<and> key x \<le> high s"
    and fetch_page: "invar s \<Longrightarrow> 0 \<le> since \<Longrightarrow> since \<le> high s \<Longrightarrow> 1 \<le> limit \<Longrightarrow> limit \<le> max_limit \<Longrightarrow>
      fetch s since limit = Inr (page_of key (log s) since limit)"
begin

lemma fetch_next_cursor:
  assumes "invar s" "0 \<le> since" "since \<le> high s" "1 \<le> limit" "limit \<le> max_limit"
    "fetch s since limit = Inr (items, nxt, mr)"
  shows "0 \<le> nxt \<and> nxt \<le> high s"
proof -
  have p: "page_of key (log s) since limit = (items, nxt, mr)"
    using fetch_page [OF assms(1-5)] assms(6) by simp
  then have "set items \<subseteq> set (log s)" "nxt = next_cursor key since items"
    by (auto simp: page_of_def Let_def dest!: in_set_takeD)
  then show ?thesis
    using assms(2,3) log_below [OF assms(1)]
    by (auto simp: next_cursor_def dest!: last_in_set less_imp_le)
qed

text \<open>Reading to the end returns exactly the items after the cursor, in order.\<close>

theorem sync_complete:
  assumes "invar s" "0 \<le> since" "since \<le> high s" "1 \<le> limit" "limit \<le> max_limit"
    "length (filter (\<lambda>x. since < key x) (log s)) < fuel"
  shows "\<exists>c. sync_loop (\<lambda>n. fetch s n limit) fuel since =
      Some (Inr (filter (\<lambda>x. since < key x) (log s), c)) \<and> filter (\<lambda>x. c < key x) (log s) = []"
  using assms(2,3,6)
proof (induction fuel arbitrary: since)
  case (Suc fuel)
  obtain items nxt mr where p: "page_of key (log s) since limit = (items, nxt, mr)"
    by (metis prod_cases3)
  with fetch_page [OF assms(1) Suc.prems(1,2) assms(4,5)]
  have f: "fetch s since limit = Inr (items, nxt, mr)" by simp
  note sp = page_of_split [OF log_increasing [OF assms(1)] p]
  show ?case
  proof (cases mr)
    case False
    then show ?thesis using f sp(1,2) by auto
  next
    case True
    with sp(4) assms(4) have "items \<noteq> []" by auto
    then have "length (filter (\<lambda>x. nxt < key x) (log s)) < fuel"
      using Suc.prems(3) sp(1) by (cases items) auto
    moreover have "0 \<le> nxt \<and> nxt \<le> high s"
      using fetch_next_cursor [OF assms(1) Suc.prems(1,2) assms(4,5) f] .
    ultimately obtain c where "sync_loop (\<lambda>n. fetch s n limit) fuel nxt =
        Some (Inr (filter (\<lambda>x. nxt < key x) (log s), c))" "filter (\<lambda>x. c < key x) (log s) = []"
      using Suc.IH by blast
    then show ?thesis using f True sp(1) by auto
  qed
qed simp

end

text \<open>
  A log that only grows: in a later state the earlier items are a prefix and the new ones lie
  above every cursor that was valid before.
\<close>

locale growing_log = paged_log fetch log key high invar max_limit
  for fetch :: "'s \<Rightarrow> int \<Rightarrow> nat \<Rightarrow> 'e + ('a list \<times> int \<times> bool)" and log key high invar max_limit +
  fixes later :: "'s \<Rightarrow> 's \<Rightarrow> bool"
  assumes later_log: "invar s \<Longrightarrow> later s s' \<Longrightarrow> \<exists>xs. log s' = log s @ xs \<and> (\<forall>x \<in> set xs. high s < key x)"
    and later_invar: "invar s \<Longrightarrow> later s s' \<Longrightarrow> invar s'"
    and later_high: "invar s \<Longrightarrow> later s s' \<Longrightarrow> high s \<le> high s'"
begin

lemma window_kept:
  assumes "invar s" "later s s'" "c \<le> high s"
  shows "filter (\<lambda>x. b < key x \<and> key x \<le> c) (log s') = filter (\<lambda>x. b < key x \<and> key x \<le> c) (log s)"
  using later_log [OF assms(1,2)] assms(3) by (fastforce simp: filter_empty_conv)

lemma invar_last: "invar s \<Longrightarrow> chained later (s # ss) \<Longrightarrow> invar (last (s # ss))"
proof (induction ss arbitrary: s)
  case (Cons s' ss)
  then show ?case using Cons.IH [of s'] later_invar [of s s'] by simp
qed simp

lemma window_last:
  assumes "invar s" "c \<le> high s" "chained later (s # ss)"
  shows "filter (\<lambda>x. b < key x \<and> key x \<le> c) (log (last (s # ss))) = filter (\<lambda>x. b < key x \<and> key x \<le> c) (log s)"
  using assms
proof (induction ss arbitrary: s)
  case (Cons s' ss)
  then have "invar s'" "c \<le> high s'" using later_invar later_high by force+
  with Cons show ?case using window_kept [of s s' c b] by auto
qed simp

text \<open>
  Reading one page in each of a sequence of later and later states, whatever was appended in
  between, returns exactly the items of the final log between the first cursor and the last.
\<close>

theorem interleaved_pages:
  assumes "invar s" "chained later (s # ss)" "0 \<le> since" "since \<le> high s" "1 \<le> limit" "limit \<le> max_limit"
  shows "\<exists>items c. read_pages (\<lambda>s n. fetch s n limit) (s # ss) since = Inr (items, c) \<and> since \<le> c
    \<and> c \<le> high (last (s # ss)) \<and> items = filter (\<lambda>x. since < key x \<and> key x \<le> c) (log (last (s # ss)))"
  using assms(1-4)
proof (induction ss arbitrary: s since)
  case Nil
  obtain items nxt mr where p: "page_of key (log s) since limit = (items, nxt, mr)" by (metis prod_cases3)
  with fetch_page [OF Nil(1,3,4) assms(5,6)] have f: "fetch s since limit = Inr (items, nxt, mr)" by simp
  have w: "items = filter (\<lambda>x. since < key x \<and> key x \<le> nxt) (log s)" "since \<le> nxt"
    using page_of_window [OF log_increasing [OF Nil(1)] p] page_of_split(5) [OF log_increasing [OF Nil(1)] p] .
  moreover have "nxt \<le> high s" using fetch_next_cursor [OF Nil(1,3,4) assms(5,6) f] by simp
  ultimately show ?case using f by auto
next
  case (Cons s' ss)
  obtain items nxt mr where p: "page_of key (log s) since limit = (items, nxt, mr)" by (metis prod_cases3)
  with fetch_page [OF Cons.prems(1,3,4) assms(5,6)] have f: "fetch s since limit = Inr (items, nxt, mr)" by simp
  have w: "items = filter (\<lambda>x. since < key x \<and> key x \<le> nxt) (log s)" "since \<le> nxt"
    using page_of_window [OF log_increasing [OF Cons.prems(1)] p]
      page_of_split(5) [OF log_increasing [OF Cons.prems(1)] p] .
  have n: "0 \<le> nxt" "nxt \<le> high s" using fetch_next_cursor [OF Cons.prems(1,3,4) assms(5,6) f] by auto
  have l: "later s s'" "chained later (s' # ss)" using Cons.prems(2) by auto
  have i': "invar s'" "nxt \<le> high s'"
    using later_invar [OF Cons.prems(1) l(1)] later_high [OF Cons.prems(1) l(1)] n by auto
  from Cons.IH [OF i'(1) l(2) n(1) i'(2)] obtain rest c where
    r: "read_pages (\<lambda>s n. fetch s n limit) (s' # ss) nxt = Inr (rest, c)" "nxt \<le> c"
      "c \<le> high (last (s' # ss))" "rest = filter (\<lambda>x. nxt < key x \<and> key x \<le> c) (log (last (s' # ss)))"
    by blast
  have "filter (\<lambda>x. since < key x \<and> key x \<le> nxt) (log (last (s' # ss))) =
      filter (\<lambda>x. since < key x \<and> key x \<le> nxt) (log s')"
    by (rule window_last [OF i' l(2)])
  then have "items = filter (\<lambda>x. since < key x \<and> key x \<le> nxt) (log (last (s' # ss)))"
    using w(1) window_kept [OF Cons.prems(1) l(1) n(2)] by simp
  moreover have "increasing key (log (last (s' # ss)))"
    by (rule log_increasing [OF invar_last [OF i'(1) l(2)]])
  ultimately have "items @ rest = filter (\<lambda>x. since < key x \<and> key x \<le> c) (log (last (s' # ss)))"
    using window_split [of key "log (last (s' # ss))" since nxt c] w(2) r(2,4) by simp
  then show ?case using f r w(2) by auto
qed

end

end
