(* ===== verification/Mailboxes.thy ===== *)
theory Mailboxes
  imports Message_Store Paging
begin

text \<open>
  The invariant of the message tables and what each operation of the store does to a
  database that satisfies it: sequences are dense per mailbox and globally, rows are well
  typed, and references point at stored messages.
\<close>

section \<open>Well-formed databases\<close>

definition well_typed :: "message_row \<Rightarrow> bool" where
  "well_typed row \<longleftrightarrow> message_check row \<and>
     (case (mr_recipient row, mr_author row, mr_accepted row, mr_body row) of
        (SText r, SText a, SInt t, SBlob b) \<Rightarrow>
          utf8_encode r \<noteq> None \<and> utf8_encode a \<noteq> None \<and> utf8_decode b \<noteq> None
      | _ \<Rightarrow> False)"

definition view :: "bool \<Rightarrow> message_row \<Rightarrow> stored_message" where
  "view api row =
     \<lparr>st_sequence = mr_sequence row, st_created_at = mr_created row,
      st_accepted_at = the_int (mr_accepted row), st_author = the_text (mr_author row),
      st_recipient = the_text (mr_recipient row), st_body = the_utf8 (mr_body row),
      st_api_sequence = (if api then mr_api row else 0)\<rparr>"

lemma stored_message_of_ok: "well_typed row \<Longrightarrow> stored_message_of row api = Inr (view api row)"
  by (auto simp: well_typed_def message_check_def stored_message_of_def view_def validators_ok
      split: sqlval.splits option.splits)

lemma mapE_stored: "(\<And>r. r \<in> set rows \<Longrightarrow> well_typed r) \<Longrightarrow>
    mapE (\<lambda>r. stored_message_of r api) rows = Inr (map (view api) rows)"
  by (simp add: mapE_Inr stored_message_of_ok)

definition mailbox_last :: "database \<Rightarrow> pystr \<Rightarrow> int" where
  "mailbox_last db p = (case mailbox_sequences db p of None \<Rightarrow> 0 | Some v \<Rightarrow> v)"

definition message_count :: "database \<Rightarrow> int" where
  "message_count db = int (length (messages db))"

definition messages_ok :: "database \<Rightarrow> bool" where
  "messages_ok db \<longleftrightarrow> (\<forall>r \<in> set (messages db). well_typed r)
     \<and> (\<forall>p. map mr_sequence (mailbox db p) = [1..mailbox_last db p])
     \<and> (\<forall>p. 0 \<le> mailbox_last db p \<and> mailbox_last db p \<le> MAX_U32)
     \<and> map mr_api (messages db) = [1..message_count db]
     \<and> api_message_sequence db = Some (message_count db)"

definition references_ok :: "database \<Rightarrow> bool" where
  "references_ok db \<longleftrightarrow>
     (\<forall>k h p n. api_idempotency db k = Some (h, p, n) \<longrightarrow> message_exists db p n)
     \<and> (\<forall>d \<in> set (deliveries db). message_exists db (dr_recipient d) (dr_sequence d)
          \<and> dr_status d \<in> delivery_statuses)
     \<and> (\<forall>p q v. conversation_reads db (p, q) = Some v \<longrightarrow> 0 \<le> v \<and> v \<le> mailbox_last db p)"

definition db_ok :: "database \<Rightarrow> bool" where
  "db_ok db \<longleftrightarrow> messages_ok db \<and> references_ok db"

lemma empty_ok: "db_ok empty_database"
  by (simp add: db_ok_def messages_ok_def references_ok_def empty_database_def mailbox_def
      mailbox_last_def message_count_def)

section \<open>Mailbox order\<close>

lemma mailbox_increasing: "messages_ok db \<Longrightarrow> increasing mr_sequence (mailbox db p)"
  using increasing_keys [of mr_sequence "mailbox db p" 1 "mailbox_last db p"]
  by (simp add: messages_ok_def)

lemma api_increasing: "messages_ok db \<Longrightarrow> increasing mr_api (messages db)"
  using increasing_keys [of mr_api "messages db" 1 "message_count db"] by (simp add: messages_ok_def)

lemma mailbox_sub: "r \<in> set (mailbox db p) \<Longrightarrow> r \<in> set (messages db) \<and> mr_recipient r = SText p"
  by (simp add: mailbox_def)

lemma mailbox_keys: "messages_ok db \<Longrightarrow> mr_sequence ` set (mailbox db p) = {1..mailbox_last db p}"
  by (metis set_upto list.set_map messages_ok_def)

lemma mailbox_bound: "messages_ok db \<Longrightarrow> r \<in> set (mailbox db p) \<Longrightarrow>
    1 \<le> mr_sequence r \<and> mr_sequence r \<le> mailbox_last db p"
  using mailbox_keys by fastforce

lemma max_mailbox:
  assumes "messages_ok db"
  shows "max_sequence (mailbox db p) = (if mailbox_last db p = 0 then None else Some (mailbox_last db p))"
proof -
  have m: "map mr_sequence (mailbox db p) = [1..mailbox_last db p]" and "0 \<le> mailbox_last db p"
    using assms by (auto simp: messages_ok_def)
  then show ?thesis
  proof (cases "mailbox_last db p = 0")
    case False
    with \<open>0 \<le> mailbox_last db p\<close> have "1 \<le> mailbox_last db p" by simp
    moreover from this m have "mailbox db p \<noteq> []" by auto
    moreover from calculation have "Max {1..mailbox_last db p} = mailbox_last db p" by (intro Max_eqI) auto
    ultimately show ?thesis using False mailbox_keys [OF assms, of p] by (simp add: max_sequence_def)
  qed (auto simp: max_sequence_def)
qed

lemma mailbox_highest_ok:
  assumes "messages_ok db" shows "mailbox_highest db p = Inr (mailbox_last db p)"
proof -
  have "0 \<le> mailbox_last db p \<and> mailbox_last db p \<le> MAX_U32" using assms by (simp add: messages_ok_def)
  then show ?thesis
    using max_mailbox [OF assms, of p]
    by (auto simp: mailbox_highest_def mailbox_last_def validators_ok split: option.splits if_splits)
qed

section \<open>Reading a page\<close>

lemma view_simps [simp]:
  "st_sequence (view api r) = mr_sequence r"
  "st_author (view api r) = the_text (mr_author r)"
  "st_recipient (view api r) = the_text (mr_recipient r)"
  "st_api_sequence (view api r) = (if api then mr_api r else 0)"
  by (simp_all add: view_def)

lemma get_new_messages_page:
  assumes "messages_ok db" "utf8_encode p \<noteq> None" "0 \<le> since" "since \<le> mailbox_last db p"
    "1 \<le> limit" "limit \<le> 20" "page_of st_sequence (map (view False) (mailbox db p)) since limit = (items, nxt, mr)"
  shows "get_new_messages (PStr p) (PInt since) (PInt (int limit)) db =
    (Inr \<lparr>mp_messages = items, mp_next_since = nxt, mp_has_more = mr\<rparr>, db)"
proof -
  define rows where "rows = take (limit + 1) (filter (\<lambda>r. since < mr_sequence r) (mailbox db p))"
  have last: "0 \<le> mailbox_last db p" "mailbox_last db p \<le> MAX_U32"
    using assms(1) by (auto simp: messages_ok_def)
  have "sort_key mr_sequence (filter (\<lambda>r. since < mr_sequence r) (mailbox db p)) =
      filter (\<lambda>r. since < mr_sequence r) (mailbox db p)"
    by (intro increasing_sort increasing_filter mailbox_increasing assms)
  moreover have "nat (int limit + 1) = limit + 1" by simp
  ultimately have r: "sql_limit (int limit + 1) (sort_key mr_sequence (filter (\<lambda>r. since < mr_sequence r)
      (mailbox db p))) = rows"
    by (simp add: sql_limit_def rows_def)
  have wt: "well_typed r" if "r \<in> set rows" for r
    using that assms(1) by (auto simp: rows_def messages_ok_def dest!: in_set_takeD mailbox_sub)
  have "mapE (\<lambda>r. stored_message_of r False) (take limit rows) = Inr (map (view False) (take limit rows))"
    by (rule mapE_stored) (auto intro: wt dest: in_set_takeD)
  moreover have "(items, nxt, mr) = (map (view False) (take limit rows),
      next_cursor st_sequence since (map (view False) (take limit rows)), limit < length rows)"
    using assms(7) by (auto simp: page_of_map Let_def rows_def)
  moreover have "with_connection (or_rollback (get_new_messages_tx p since (int limit))) db = (Inr rows, db)"
    using assms r mailbox_highest_ok [OF assms(1), of p]
    by (simp add: with_connection_def or_rollback_def get_new_messages_tx_def sql_simps bind_text_def
        split: option.splits)
  ultimately show ?thesis
    using assms last
    by (auto simp: get_new_messages_def validators_ok limit_nat next_cursor_def)
qed

lemma get_new_messages_unchanged: "snd (get_new_messages callsign since limit db) = db"
  by (auto simp: get_new_messages_def with_connection_def or_rollback_def get_new_messages_tx_def
      bindS_def run_simps rollback_def split: sum.splits prod.splits)

end
