(* ===== verification/Storing.thy ===== *)
theory Storing
  imports Mailboxes
begin

text \<open>
  Storing a message, with and without an idempotency key: the exact new database, the
  preserved invariant, and the atomicity of every failure.
\<close>

section \<open>The effect of an accepted message\<close>

definition accepted_row :: "int \<Rightarrow> pystr \<Rightarrow> pystr \<Rightarrow> bytes \<Rightarrow> int \<Rightarrow> database \<Rightarrow> message_row" where
  "accepted_row created author recipient bs t db =
     \<lparr>mr_recipient = SText recipient, mr_sequence = mailbox_last db recipient + 1,
      mr_api = message_count db + 1, mr_created = created, mr_accepted = SInt t,
      mr_author = SText author, mr_body = SBlob bs\<rparr>"

definition accept :: "int \<Rightarrow> pystr \<Rightarrow> pystr \<Rightarrow> bytes \<Rightarrow> int \<Rightarrow> database \<Rightarrow> database" where
  "accept created author recipient bs t db =
     db\<lparr>mailbox_sequences := (mailbox_sequences db)(recipient \<mapsto> mailbox_last db recipient + 1),
        api_message_sequence := Some (message_count db + 1),
        messages := messages db @ [accepted_row created author recipient bs t db]\<rparr>"

lemma accepted_row_simps [simp]:
  "mr_recipient (accepted_row created author recipient bs t db) = SText recipient"
  "mr_sequence (accepted_row created author recipient bs t db) = mailbox_last db recipient + 1"
  "mr_api (accepted_row created author recipient bs t db) = message_count db + 1"
  "mr_author (accepted_row created author recipient bs t db) = SText author"
  by (simp_all add: accepted_row_def)

lemma accept_simps [simp]:
  "messages (accept created author recipient bs t db) =
     messages db @ [accepted_row created author recipient bs t db]"
  "message_count (accept created author recipient bs t db) = message_count db + 1"
  "mailbox_last (accept created author recipient bs t db) p =
     (if p = recipient then mailbox_last db p + 1 else mailbox_last db p)"
  "mailbox (accept created author recipient bs t db) p =
     (if p = recipient then mailbox db p @ [accepted_row created author recipient bs t db] else mailbox db p)"
  "api_idempotency (accept created author recipient bs t db) = api_idempotency db"
  "deliveries (accept created author recipient bs t db) = deliveries db"
  "conversation_reads (accept created author recipient bs t db) = conversation_reads db"
  "bulletins (accept created author recipient bs t db) = bulletins db"
  "bulletin_sequence (accept created author recipient bs t db) = bulletin_sequence db"
  "accounts (accept created author recipient bs t db) = accounts db"
  by (auto simp: accept_def message_count_def mailbox_last_def mailbox_def)

lemma message_exists_append [simp]:
  "message_exists (accept created author recipient bs t db) p n \<longleftrightarrow>
     message_exists db p n \<or> p = recipient \<and> n = mailbox_last db recipient + 1"
  by (auto simp: message_exists_def)

lemma upto_snoc: "0 \<le> n \<Longrightarrow> [1..n + 1] = [1..n] @ [n + 1 :: int]"
  by (simp add: upto_rec2)

text \<open>What makes a message acceptable to the tables.\<close>

definition acceptable :: "int \<Rightarrow> pystr \<Rightarrow> pystr \<Rightarrow> bytes \<Rightarrow> int \<Rightarrow> bool" where
  "acceptable created author recipient bs t \<longleftrightarrow> 0 \<le> created \<and> created \<le> MAX_U32
     \<and> utf8_encode author \<noteq> None \<and> utf8_encode recipient \<noteq> None \<and> utf8_decode bs \<noteq> None
     \<and> 0 \<le> t \<and> t \<le> MAX_SQLITE_INTEGER"

lemma accepted_well_typed:
  assumes "messages_ok db" "acceptable created author recipient bs t" "mailbox_last db recipient < MAX_U32"
  shows "well_typed (accepted_row created author recipient bs t db)"
proof -
  have "0 \<le> mailbox_last db recipient" using assms(1) by (simp add: messages_ok_def)
  then show ?thesis using assms
    by (simp add: acceptable_def well_typed_def message_check_def accepted_row_def message_count_def)
qed

lemma accept_messages_ok:
  assumes "messages_ok db" "acceptable created author recipient bs t" "mailbox_last db recipient < MAX_U32"
  shows "messages_ok (accept created author recipient bs t db)"
proof -
  have "0 \<le> mailbox_last db recipient" using assms(1) by (simp add: messages_ok_def)
  moreover have "0 \<le> message_count db" by (simp add: message_count_def)
  ultimately show ?thesis
    using assms accepted_well_typed [OF assms]
    by (auto simp: messages_ok_def upto_snoc) (simp add: accept_def)
qed

lemma accept_references_ok:
  "references_ok db \<Longrightarrow> references_ok (accept created author recipient bs t db)"
  by (auto simp: references_ok_def) (smt (verit))+

lemma accept_db_ok:
  "db_ok db \<Longrightarrow> acceptable created author recipient bs t \<Longrightarrow> mailbox_last db recipient < MAX_U32 \<Longrightarrow>
     db_ok (accept created author recipient bs t db)"
  by (simp add: db_ok_def accept_messages_ok accept_references_ok)

text \<open>The three statements of an insertion, in either order of the counters.\<close>

lemma api_bound: "messages_ok db \<Longrightarrow> r \<in> set (messages db) \<Longrightarrow> 1 \<le> mr_api r \<and> mr_api r \<le> message_count db"
  by (metis atLeastAtMost_iff image_eqI list.set_map messages_ok_def set_upto)

lemma fresh_row:
  assumes "messages_ok db" "r \<in> set (messages db)"
  shows "\<not> (mr_recipient r = SText recipient \<and> mr_sequence r = mailbox_last db recipient + 1)"
    and "mr_api r \<noteq> message_count db + 1"
proof -
  show "mr_api r \<noteq> message_count db + 1" using api_bound [OF assms] by simp
  show "\<not> (mr_recipient r = SText recipient \<and> mr_sequence r = mailbox_last db recipient + 1)"
    using mailbox_bound [OF assms(1), of r recipient] assms(2) by (auto simp: mailbox_def)
qed

lemma insert_accepted:
  assumes "messages_ok db" "well_typed (accepted_row created author recipient bs t db)"
    "messages db' = messages db"
  shows "insert_message (accepted_row created author recipient bs t db) db' =
     Inr (db'\<lparr>messages := messages db @ [accepted_row created author recipient bs t db]\<rparr>)"
  using assms fresh_row [OF assms(1)] unfolding insert_message_def
  by (auto simp: well_typed_def)

section \<open>\<open>store_message\<close>\<close>

definition storable :: "int \<Rightarrow> pystr \<Rightarrow> pystr \<Rightarrow> pystr \<Rightarrow> bool" where
  "storable created author recipient body \<longleftrightarrow> 0 \<le> created \<and> created \<le> MAX_U32
     \<and> utf8_encode author \<noteq> None \<and> utf8_encode recipient \<noteq> None \<and> utf8_encode body \<noteq> None"

abbreviation body_bytes :: "pystr \<Rightarrow> bytes" where
  "body_bytes body \<equiv> the (utf8_encode body)"

lemma storable_acceptable:
  "storable created author recipient body \<Longrightarrow> 0 \<le> t \<Longrightarrow> t \<le> MAX_SQLITE_INTEGER \<Longrightarrow>
     acceptable created author recipient (body_bytes body) t"
  using utf8_decode_encode by (fastforce simp: storable_def acceptable_def)

lemma store_message_tx_run:
  assumes "messages_ok db" "storable created author recipient body" "message_count db + 1 < 2 ^ 63"
    "mailbox_last db recipient < MAX_U32" "0 \<le> t" "t \<le> MAX_SQLITE_INTEGER"
  shows "with_connection (or_rollback
      (store_message_tx created author recipient (body_bytes body) (PInt t))) db =
    (Inr (mailbox_last db recipient + 1), accept created author recipient (body_bytes body) t db)"
proof -
  have last: "0 \<le> mailbox_last db recipient" and api: "api_message_sequence db = Some (message_count db)"
    using assms(1) by (auto simp: messages_ok_def)
  have v: "(case mailbox_sequences db recipient of None \<Rightarrow> Inr 0
      | Some v \<Rightarrow> validate_stored_u32 (SInt v) (lit ''mailbox high-water'') True)
      = Inr (mailbox_last db recipient)"
    using last assms(4) by (auto simp: mailbox_last_def validators_ok split: option.splits)
  have c: "0 \<le> message_count db" by (simp add: message_count_def)
  have wt: "well_typed (accepted_row created author recipient (body_bytes body) t db)"
    using accepted_well_typed assms storable_acceptable by blast
  have row: "\<lparr>mr_recipient = SText recipient, mr_sequence = mailbox_last db recipient + 1,
      mr_api = message_count db + 1, mr_created = created, mr_accepted = SInt t, mr_author = SText author,
      mr_body = SBlob (body_bytes body)\<rparr> = accepted_row created author recipient (body_bytes body) t db"
    by (simp add: accepted_row_def)
  show ?thesis
    using assms last api c v wt insert_accepted [OF assms(1) wt]
    by (simp add: with_connection_def or_rollback_def store_message_tx_def sql_simps Let_def
        bind_text_def bind_int_def storable_def validators_ok fetch_first_def row update_api_sequence_def
        upsert_mailbox_sequence_def accept_def split: option.splits)
qed

theorem store_message_run:
  assumes "messages_ok db" "storable created author recipient body" "message_count db + 1 < 2 ^ 63"
    "mailbox_last db recipient < MAX_U32" "0 \<le> t" "t \<le> MAX_SQLITE_INTEGER"
  shows "store_message (PInt created) (PStr author) (PStr recipient) (PStr body) (PInt t) db =
    (Inr (mailbox_last db recipient + 1), accept created author recipient (body_bytes body) t db)"
  using store_message_tx_run [OF assms] assms(2)
  by (auto simp: store_message_def storable_def validators_ok)

lemma safe_store_message_tx: "safe (store_message_tx created author recipient bs clock)"
  unfolding store_message_tx_def Let_def by (intro safe_intros)

lemma store_message_error:
  assumes "store_message created author recipient body clock db = (Inl e, db')" shows "db' = db"
  using assms with_connection_error [OF safe_store_message_tx]
  by (auto simp: store_message_def split: sum.splits prod.splits)

text \<open>Whatever the arguments, a success is the effect of an accepted message.\<close>

lemma store_message_success:
  assumes "messages_ok db" "store_message created author recipient body clock db = (Inr n, db')"
  shows "\<exists>c a r b t. created = PInt c \<and> author = PStr a \<and> recipient = PStr r \<and> body = PStr b
    \<and> clock = PInt t \<and> storable c a r b \<and> 0 \<le> t \<and> t \<le> MAX_SQLITE_INTEGER
    \<and> mailbox_last db r < MAX_U32 \<and> n = mailbox_last db r + 1
    \<and> db' = accept c a r (body_bytes b) t db"
proof -
  from assms(2) obtain c a r b where args: "created = PInt c" "0 \<le> c" "c \<le> MAX_U32" "author = PStr a"
      "recipient = PStr r" "body = PStr b" "utf8_encode b \<noteq> None"
    and run: "with_connection (or_rollback (store_message_tx c a r (body_bytes b) clock)) db = (Inr n, db')"
    by (auto simp: store_message_def bindE_eq_Inr split: sum.splits prod.splits)
  have api: "api_message_sequence db = Some (message_count db)" using assms(1) by (simp add: messages_ok_def)
  from run api obtain t where "utf8_encode r \<noteq> None" "utf8_encode a \<noteq> None" "clock = PInt t" "0 \<le> t"
      "t \<le> MAX_SQLITE_INTEGER" "message_count db + 1 < 2 ^ 63" "mailbox_last db r \<noteq> MAX_U32"
    by (auto simp: with_connection_Inr store_message_tx_def bindS_Inr run_Inr run_simps Let_def
        mailbox_last_def split: if_splits option.splits)
  moreover have "mailbox_last db r \<le> MAX_U32" using assms(1) by (simp add: messages_ok_def)
  moreover have "storable c a r b" using args calculation(1,2) by (simp add: storable_def)
  ultimately show ?thesis
    using store_message_tx_run [OF assms(1), of c a r b t] run args by auto
qed

section \<open>\<open>store_message_idempotent\<close>\<close>

definition remember :: "pystr option \<Rightarrow> pystr \<Rightarrow> pystr \<Rightarrow> pystr \<Rightarrow> int \<Rightarrow> database \<Rightarrow> database" where
  "remember key h author recipient n db = (case key of
     None \<Rightarrow> db
   | Some k \<Rightarrow> db\<lparr>api_idempotency :=
       (api_idempotency db)((author, lit ''send'', k) \<mapsto> (h, recipient, n))\<rparr>)"

lemma remember_simps [simp]:
  "messages (remember key h author recipient n db) = messages db"
  "mailbox (remember key h author recipient n db) = mailbox db"
  "mailbox_last (remember key h author recipient n db) = mailbox_last db"
  "message_count (remember key h author recipient n db) = message_count db"
  "message_exists (remember key h author recipient n db) = message_exists db"
  "api_message_sequence (remember key h author recipient n db) = api_message_sequence db"
  "deliveries (remember key h author recipient n db) = deliveries db"
  "conversation_reads (remember key h author recipient n db) = conversation_reads db"
  "bulletins (remember key h author recipient n db) = bulletins db"
  "bulletin_sequence (remember key h author recipient n db) = bulletin_sequence db"
  "accounts (remember key h author recipient n db) = accounts db"
  by (auto simp: remember_def mailbox_def mailbox_last_def message_count_def message_exists_def fun_eq_iff
      split: option.splits)

lemma remember_ok:
  "db_ok db \<Longrightarrow> message_exists db recipient n \<Longrightarrow> db_ok (remember key h author recipient n db)"
  by (auto simp: db_ok_def messages_ok_def references_ok_def)
    (auto simp: remember_def split: option.splits if_splits)

definition key_fresh :: "pystr option \<Rightarrow> pystr \<Rightarrow> pystr \<Rightarrow> database \<Rightarrow> bool" where
  "key_fresh key h author db \<longleftrightarrow> (case key of None \<Rightarrow> True
     | Some k \<Rightarrow> utf8_encode k \<noteq> None \<and> utf8_encode h \<noteq> None
         \<and> api_idempotency db (author, lit ''send'', k) = None)"

lemma find_append: "find P (xs @ ys) = (case find P xs of None \<Rightarrow> find P ys | Some x \<Rightarrow> Some x)"
  by (induction xs) auto

lemma find_accepted:
  assumes "messages_ok db"
  shows "find (\<lambda>r. mr_api r = message_count db + 1)
      (messages db @ [accepted_row created author recipient bs t db])
    = Some (accepted_row created author recipient bs t db)"
proof -
  have "find (\<lambda>r. mr_api r = message_count db + 1) (messages db) = None"
    using fresh_row(2) [OF assms] by (simp add: find_None_iff)
  then show ?thesis by (simp add: find_append)
qed

lemma insert_idempotent_run:
  assumes "messages_ok db" "storable created author recipient body" "message_count db + 1 < 2 ^ 63"
    "mailbox_last db recipient < MAX_U32" "0 \<le> t" "t \<le> MAX_SQLITE_INTEGER" "key_fresh key h author db"
    "working c = db"
  shows "insert_idempotent_message created author recipient body key h (PInt t) c =
    (Inr (Some (accepted_row created author recipient (body_bytes body) t db)),
     c\<lparr>working := remember key h author recipient (mailbox_last db recipient + 1)
        (accept created author recipient (body_bytes body) t db)\<rparr>)"
proof -
  have last: "0 \<le> mailbox_last db recipient" and api: "api_message_sequence db = Some (message_count db)"
    using assms(1) by (auto simp: messages_ok_def)
  have v: "(case mailbox_sequences db recipient of None \<Rightarrow> 0 | Some v \<Rightarrow> v) = mailbox_last db recipient"
    by (simp add: mailbox_last_def)
  have c: "0 \<le> message_count db" by (simp add: message_count_def)
  obtain ua ur ub where u: "utf8_encode author = Some ua" "utf8_encode recipient = Some ur"
      "utf8_encode body = Some ub" "0 \<le> created" "created \<le> 0xFFFFFFFF"
    using assms(2) by (auto simp: storable_def)
  have wt: "well_typed (accepted_row created author recipient ub t db)"
    using accepted_well_typed [OF assms(1) storable_acceptable [OF assms(2,5,6)] assms(4)] u(3) by simp
  have row: "\<lparr>mr_recipient = SText recipient, mr_sequence = mailbox_last db recipient + 1,
      mr_api = message_count db + 1, mr_created = created, mr_accepted = SInt t, mr_author = SText author,
      mr_body = SBlob ub\<rparr> = accepted_row created author recipient ub t db"
    by (simp add: accepted_row_def)
  have ins: "insert_idempotency author k h recipient (mailbox_last db recipient + 1)
      (accept created author recipient ub t db) =
      Inr (remember (Some k) h author recipient (mailbox_last db recipient + 1)
        (accept created author recipient ub t db))"
    if "api_idempotency db (author, lit ''send'', k) = None" for k
    using that by (simp add: insert_idempotency_def remember_def)
  have acc: "db\<lparr>mailbox_sequences := (mailbox_sequences db)(recipient \<mapsto> mailbox_last db recipient + 1),
       api_message_sequence := Some (message_count db + 1),
       messages := messages db @ [accepted_row created author recipient ub t db]\<rparr>
     = accept created author recipient ub t db"
    by (simp add: accept_def)
  have k: "key = None \<or> (\<exists>k. key = Some k \<and> utf8_encode k \<noteq> None \<and> utf8_encode h \<noteq> None
      \<and> api_idempotency db (author, lit ''send'', k) = None)"
    using assms(7) by (auto simp: key_fresh_def split: option.splits)
  have b: "bind_texts [author, k, h] = Inr ()" if "utf8_encode k \<noteq> None" "utf8_encode h \<noteq> None" for k
    using that u by simp
  have bb: "body_bytes body = ub" using u by simp
  show ?thesis
    using k
  proof
    assume "key = None"
    then show ?thesis
      unfolding bb using assms(3-6,8) last api c wt insert_accepted [OF assms(1) wt] find_accepted [OF assms(1)] u
      by (simp add: insert_idempotent_message_def sql_simps Let_def bind_text_def bind_int_def v
          validators_ok fetch_first_def row update_api_sequence_def acc
          upsert_mailbox_sequence_def run_simps remember_def)
  next
    assume "\<exists>k. key = Some k \<and> utf8_encode k \<noteq> None \<and> utf8_encode h \<noteq> None
      \<and> api_idempotency db (author, lit ''send'', k) = None"
    then obtain k where "key = Some k" "bind_texts [author, k, h] = Inr ()"
        "api_idempotency db (author, lit ''send'', k) = None"
      using b by blast
    then show ?thesis
      unfolding bb using assms(3-6,8) last api c wt insert_accepted [OF assms(1) wt] find_accepted [OF assms(1)] u ins
      by (simp add: insert_idempotent_message_def sql_simps Let_def bind_text_def bind_int_def v
          validators_ok fetch_first_def row update_api_sequence_def acc execute_def bindS_def [of "\<lambda>c. _ c"]
          upsert_mailbox_sequence_def run_simps del: bind_texts_Inr)
  qed
qed

text \<open>Whatever the arguments, the insertion succeeds only as above.\<close>

lemma insert_idempotent_success:
  assumes "messages_ok db" "working c = db"
    "insert_idempotent_message created author recipient body key h clock c = (Inr row, c')"
    "case key of None \<Rightarrow> True | Some k \<Rightarrow> api_idempotency db (author, lit ''send'', k) = None"
  shows "\<exists>t. clock = PInt t \<and> storable created author recipient body \<and> 0 \<le> t \<and> t \<le> MAX_SQLITE_INTEGER
    \<and> mailbox_last db recipient < MAX_U32
    \<and> row = Some (accepted_row created author recipient (body_bytes body) t db)
    \<and> c' = c\<lparr>working := remember key h author recipient (mailbox_last db recipient + 1)
        (accept created author recipient (body_bytes body) t db)\<rparr>"
proof -
  have api: "api_message_sequence db = Some (message_count db)" using assms(1) by (simp add: messages_ok_def)
  have v: "(case mailbox_sequences db recipient of None \<Rightarrow> 0 | Some v \<Rightarrow> v) = mailbox_last db recipient"
    by (simp add: mailbox_last_def)
  obtain t where *: "clock = PInt t" "0 \<le> t" "t \<le> MAX_SQLITE_INTEGER" "message_count db + 1 < 2 ^ 63"
      "mailbox_last db recipient + 1 \<le> MAX_U32" "storable created author recipient body"
    and k: "\<forall>k. key = Some k \<longrightarrow> utf8_encode k \<noteq> None \<and> utf8_encode h \<noteq> None"
    using assms(3) unfolding insert_idempotent_message_def bindS_Inr run_Inr run_simps Let_def
    by (auto simp: assms(2) api v bindS_Inr run_Inr run_simps storable_def insert_message_def message_check_def
        split: if_splits option.splits)
  have "key_fresh key h author db"
    using k assms(4) by (auto simp: key_fresh_def split: option.splits)
  then show ?thesis
    using insert_idempotent_run [OF assms(1) *(6,4) _ *(2,3) _ assms(2), of key h] * assms(3) by simp
qed

lemma no_commit_insert: "no_commit (insert_idempotent_message created author recipient body key h clock)"
  unfolding insert_idempotent_message_def Let_def by (intro safe_intros)

lemma find_message_ok:
  assumes "messages_ok db" "message_exists db p n"
  shows "\<exists>row. find_message db p n = Some row \<and> row \<in> set (messages db) \<and> well_typed row"
proof -
  from assms(2) obtain row where "find_message db p n = Some row"
    by (fastforce simp: message_exists_def find_message_def find_None_iff simp flip: not_None_eq)
  moreover from this have "row \<in> set (messages db)" by (auto simp: find_message_def find_Some_iff)
  ultimately show ?thesis using assms(1) by (auto simp: messages_ok_def)
qed

definition original :: "database \<Rightarrow> pystr \<Rightarrow> int \<Rightarrow> stored_message" where
  "original db p n = view True (the (find_message db p n))"

lemma replay_run:
  assumes "db_ok db" "api_idempotency db (author, lit ''send'', k) = Some (h', p, n)"
    "utf8_encode author \<noteq> None" "utf8_encode k \<noteq> None" "c = \<lparr>committed = db, working = db\<rparr>"
  shows "replay_idempotent author k h c =
    (if h' = h then (Inr (Some (original db p n, False)), c)
     else (Inl (IdempotencyConflictError (lit ''key reused with another request'')), c))"
proof -
  have "message_exists db p n" using assms(1,2) by (auto simp: db_ok_def references_ok_def)
  moreover have "messages_ok db" using assms(1) by (simp add: db_ok_def)
  ultimately obtain row where row: "find_message db p n = Some row" "well_typed row"
    using find_message_ok by blast
  moreover have "bind_texts [author, k] = Inr ()" using assms(3,4) by simp
  ultimately show ?thesis
    using assms(2,5) by (simp add: replay_idempotent_def sql_simps original_def optional_message_def
        stored_message_of_ok del: bind_texts_Inr)
qed

abbreviation opened :: "database \<Rightarrow> database connection" where
  "opened db \<equiv> \<lparr>committed = db, working = db\<rparr>"

lemma replay_cases:
  assumes "db_ok db" "replay_idempotent author k h (opened db) = (r, c)"
  shows "c = opened db" and "is_ok r \<Longrightarrow>
    r = Inr None \<and> api_idempotency db (author, lit ''send'', k) = None \<or>
    (\<exists>p n. r = Inr (Some (original db p n, False)) \<and> message_exists db p n
       \<and> api_idempotency db (author, lit ''send'', k) = Some (h, p, n))"
proof -
  have "c = opened db \<and> (is_ok r \<longrightarrow>
    r = Inr None \<and> api_idempotency db (author, lit ''send'', k) = None \<or>
    (\<exists>p n. r = Inr (Some (original db p n, False)) \<and> message_exists db p n
       \<and> api_idempotency db (author, lit ''send'', k) = Some (h, p, n)))"
  proof (cases "bind_texts [author, k]")
    case (Inl e)
    then show ?thesis using assms(2) by (auto simp: replay_idempotent_def sql_simps)
  next
    case (Inr u)
    then have enc: "utf8_encode author \<noteq> None" "utf8_encode k \<noteq> None" by auto
    show ?thesis
    proof (cases "api_idempotency db (author, lit ''send'', k)")
      case None
      then show ?thesis using assms(2) Inr by (auto simp: replay_idempotent_def sql_simps simp del: bind_texts_Inr)
    next
      case (Some v)
      obtain h' p n where v: "v = (h', p, n)" by (cases v) auto
      have "message_exists db p n" using assms(1) Some v by (auto simp: db_ok_def references_ok_def)
      then show ?thesis
        using replay_run [OF assms(1) Some [unfolded v] enc refl] assms(2) Some v
        by (auto split: if_splits)
    qed
  qed
  then show "c = opened db" and "is_ok r \<Longrightarrow>
    r = Inr None \<and> api_idempotency db (author, lit ''send'', k) = None \<or>
    (\<exists>p n. r = Inr (Some (original db p n, False)) \<and> message_exists db p n
       \<and> api_idempotency db (author, lit ''send'', k) = Some (h, p, n))"
    by auto
qed

text \<open>The outcomes of a keyed or unkeyed submission to a well-formed database.\<close>

lemma store_idempotent_cases:
  assumes "db_ok db"
    "store_message_idempotent created author recipient body key h clock db = (r, db')"
  obtains (error) e where "r = Inl e" "db' = db"
  | (replay) k p n where "key = Some k" "api_idempotency db (author, lit ''send'', k) = Some (h, p, n)"
      "message_exists db p n" "r = Inr (original db p n, False)" "db' = db"
  | (stored) t where "clock = PInt t" "0 \<le> t" "t \<le> MAX_SQLITE_INTEGER"
      "storable created author recipient body" "mailbox_last db recipient < MAX_U32"
      "case key of None \<Rightarrow> True | Some k \<Rightarrow> api_idempotency db (author, lit ''send'', k) = None"
      "r = Inr (view True (accepted_row created author recipient (body_bytes body) t db), True)"
      "db' = remember key h author recipient (mailbox_last db recipient + 1)
         (accept created author recipient (body_bytes body) t db)"
proof -
  let ?pre = "case key of None \<Rightarrow> returnS None | Some k \<Rightarrow> replay_idempotent author k h"
  let ?new = "store_new_idempotent created author recipient body key h clock"
  let ?ins = "insert_idempotent_message created author recipient body key h clock (opened db)"
  obtain r1 c1 where pre: "?pre (opened db) = (r1, c1)" by fastforce
  have c1: "c1 = opened db"
    using pre replay_cases(1) [OF assms(1)] by (cases key) (auto simp: run_simps)
  have pre_ok: "r1 = Inr None \<and> (case key of None \<Rightarrow> True | Some k \<Rightarrow> api_idempotency db (author, lit ''send'', k) = None) \<or>
      (\<exists>k p n. key = Some k \<and> r1 = Inr (Some (original db p n, False)) \<and> message_exists db p n
         \<and> api_idempotency db (author, lit ''send'', k) = Some (h, p, n))" if "is_ok r1"
    using pre replay_cases(2) [OF assms(1)] that by (cases key) (auto simp: run_simps)
  have whole: "with_connection (or_rollback (bindS ?pre (\<lambda>old. case old of Some result \<Rightarrow> returnS result
      | None \<Rightarrow> ?new))) db = (r, db')"
    using assms(2) by (simp add: store_message_idempotent_def)
  consider (raised) e where "r1 = Inl e" | (old) x where "r1 = Inr (Some x)" | (fresh) "r1 = Inr None"
    by (metis not_None_eq sum.exhaust)
  then show thesis
  proof cases
    case raised
    then have "r = Inl e" "db' = db" using whole pre c1
      by (simp_all add: with_connection_def or_rollback_def bindS_def rollback_def)
    then show thesis by (rule error)
  next
    case old
    with pre_ok obtain k p n where k: "key = Some k" "message_exists db p n" "x = (original db p n, False)"
        "api_idempotency db (author, lit ''send'', k) = Some (h, p, n)" by auto
    have "r = Inr x" "db' = db" using whole pre c1 old
      by (simp_all add: with_connection_def or_rollback_def bindS_def run_simps)
    then show thesis using replay [OF k(1,4,2)] k(3) by simp
  next
    case fresh
    with pre_ok have none: "case key of None \<Rightarrow> True | Some k \<Rightarrow> api_idempotency db (author, lit ''send'', k) = None"
      by auto
    have m: "messages_ok db" using assms(1) by (simp add: db_ok_def)
    obtain r2 c2 where ins: "?ins = (r2, c2)" by fastforce
    show thesis
    proof (cases r2)
      case (Inl e)
      have "committed c2 = db" using no_commit_insert ins unfolding no_commit_def by (metis connection.select_convs(1) snd_conv)
      then have "r = Inl e" "db' = db" using whole pre c1 fresh ins Inl
        by (simp_all add: with_connection_def or_rollback_def bindS_def rollback_def store_new_idempotent_def)
      then show thesis by (rule error)
    next
      case (Inr row)
      from insert_idempotent_success [OF m _ ins [unfolded Inr] none]
      obtain t where t: "clock = PInt t" "storable created author recipient body" "0 \<le> t"
          "t \<le> MAX_SQLITE_INTEGER" "mailbox_last db recipient < MAX_U32"
        and row: "row = Some (accepted_row created author recipient (body_bytes body) t db)"
        and c2: "c2 = (opened db)\<lparr>working := remember key h author recipient (mailbox_last db recipient + 1)
            (accept created author recipient (body_bytes body) t db)\<rparr>"
        by auto
      have "well_typed (accepted_row created author recipient (body_bytes body) t db)"
        using accepted_well_typed [OF m storable_acceptable [OF t(2-4)] t(5)] .
      then have "r = Inr (view True (accepted_row created author recipient (body_bytes body) t db), True)"
          "db' = remember key h author recipient (mailbox_last db recipient + 1)
            (accept created author recipient (body_bytes body) t db)"
        using whole pre c1 fresh ins Inr row c2
        by (simp_all add: with_connection_def or_rollback_def bindS_def run_simps store_new_idempotent_def
            optional_message_def stored_message_of_ok)
      then show thesis using stored [OF t(1,3,4,2,5) none] by blast
    qed
  qed
qed

end
