(* ===== verification/Bulletin_Store.thy ===== *)
theory Bulletin_Store
  imports Database Protocol Paging
begin

text \<open>
  \<open>storage/bulletins.py\<close>: the node-wide bulletin log, its pages and its lookups, with the
  invariant of its tables and the exact effect of storing a bulletin.
\<close>

record stored_bulletin_header =
  sbh_sequence :: int
  sbh_created_at :: int
  sbh_author :: pystr
  sbh_title :: pystr

record stored_bulletin =
  sb_sequence :: int
  sb_created_at :: int
  sb_accepted_at :: int
  sb_author :: pystr
  sb_title :: pystr
  sb_body :: pystr

record bulletin_page =
  bp_headers :: "stored_bulletin_header list"
  bp_next_since :: int
  bp_has_more :: bool

section \<open>Operations\<close>

definition stored_header_of :: "bulletin_row \<Rightarrow> stored_bulletin_header result" where
  "stored_header_of row =
     bindE (validate_stored_u32 (SInt (br_sequence row)) (lit ''bulletin sequence'') False) (\<lambda>sequence.
     bindE (validate_stored_u32 (SInt (br_created row)) (lit ''bulletin created_at'') True) (\<lambda>created_at.
     case (br_author row, br_title row) of
       (SText author, SText title) \<Rightarrow>
         Inr \<lparr>sbh_sequence = sequence, sbh_created_at = created_at, sbh_author = author, sbh_title = title\<rparr>
     | _ \<Rightarrow> Inl (StorageIntegrityError (lit ''bulletin author or title is not text''))))"

definition stored_bulletin_of :: "bulletin_row \<Rightarrow> stored_bulletin result" where
  "stored_bulletin_of row =
     bindE (stored_header_of row) (\<lambda>header.
     case br_accepted row of
       SInt accepted_at \<Rightarrow>
         if accepted_at < 0
         then Inl (StorageIntegrityError (lit ''bulletin accepted_at is invalid''))
         else (case br_body row of
             SBlob body \<Rightarrow>
               (case utf8_decode body of
                  None \<Rightarrow> Inl (StorageIntegrityError (lit ''bulletin body is not valid UTF-8''))
                | Some text \<Rightarrow>
                    Inr \<lparr>sb_sequence = sbh_sequence header, sb_created_at = sbh_created_at header,
                         sb_accepted_at = accepted_at, sb_author = sbh_author header,
                         sb_title = sbh_title header, sb_body = text\<rparr>)
           | _ \<Rightarrow> Inl (StorageIntegrityError (lit ''bulletin body is not a BLOB'')))
     | _ \<Rightarrow> Inl (StorageIntegrityError (lit ''bulletin accepted_at is invalid'')))"

definition bulletin_state :: "int option \<Rightarrow> int result" where
  "bulletin_state state = (case state of
     None \<Rightarrow> Inl (StorageIntegrityError (lit ''bulletin sequence state is missing''))
   | Some last_value \<Rightarrow> validate_stored_u32 (SInt last_value) (lit ''bulletin high-water'') True)"

definition get_new_bulletins_tx :: "int \<Rightarrow> int \<Rightarrow> (database, bulletin_row list) sql" where
  "get_new_bulletins_tx since limit =
     bindS (query bulletin_sequence) (\<lambda>state.
     bindS (liftS (bulletin_state state)) (\<lambda>highest.
     if since > highest
     then raiseS (InvalidCursorError (lit ''bulletin cursor '' @ dec since @
            lit '' is ahead of highest sequence '' @ dec highest))
     else bindS (query (\<lambda>db. sql_limit (limit + 1) (sort_key br_sequence
              (filter (\<lambda>r. br_sequence r > since) (bulletins db))))) (\<lambda>rows.
          bindS commit (\<lambda>_. returnS rows))))"

definition get_new_bulletins :: "pyval \<Rightarrow> pyval \<Rightarrow> database \<Rightarrow> bulletin_page result \<times> database" where
  "get_new_bulletins since limit db =
     (case bindE (require_u32 (lit ''since'') since) (\<lambda>since.
           bindE (validate_retrieval_limit limit) (\<lambda>limit. Inr (since, limit))) of
        Inl e \<Rightarrow> (Inl e, db)
      | Inr (since, limit) \<Rightarrow>
          (case with_connection (or_rollback (get_new_bulletins_tx since limit)) db of
             (Inl e, db) \<Rightarrow> (Inl e, db)
           | (Inr rows, db) \<Rightarrow>
               (bindE (mapE stored_header_of (slice_to limit rows)) (\<lambda>headers.
                  Inr \<lparr>bp_headers = headers,
                       bp_next_since = (if headers = [] then since else sbh_sequence (last headers)),
                       bp_has_more = int (length rows) > limit\<rparr>), db)))"

definition get_bulletin :: "pyval \<Rightarrow> database \<Rightarrow> stored_bulletin option result" where
  "get_bulletin n db =
     bindE (require_nonzero_u32 (lit ''sequence'') n) (\<lambda>n.
     case find (\<lambda>r. br_sequence r = n) (bulletins db) of
       None \<Rightarrow> Inr None
     | Some row \<Rightarrow> bindE (stored_bulletin_of row) (\<lambda>b. Inr (Some b)))"

definition store_bulletin_tx ::
  "int \<Rightarrow> pystr \<Rightarrow> pystr \<Rightarrow> bytes \<Rightarrow> pyval \<Rightarrow> (database, int) sql" where
  "store_bulletin_tx created_at author title body_bytes clock =
     bindS (query bulletin_sequence) (\<lambda>state.
     bindS (liftS (bulletin_state state)) (\<lambda>last.
     if last = MAX_U32
     then raiseS (SequenceExhaustedError (lit ''bulletin sequence is exhausted''))
     else (let sequence = last + 1 in
       bindS (liftS (validate_clock_value clock)) (\<lambda>accepted_at.
       bindS (liftS (bind_texts [author, title])) (\<lambda>_.
       bindS (execute (insert_bulletin
           \<lparr>br_sequence = sequence, br_created = created_at, br_accepted = SInt accepted_at,
            br_author = SText author, br_title = SText title, br_body = SBlob body_bytes\<rparr>)) (\<lambda>_.
       bindS (execute (update_bulletin_sequence sequence)) (\<lambda>_.
       bindS commit (\<lambda>_. returnS sequence))))))))"

definition store_bulletin ::
  "pyval \<Rightarrow> pyval \<Rightarrow> pyval \<Rightarrow> pyval \<Rightarrow> pyval \<Rightarrow> database \<Rightarrow> int result \<times> database" where
  "store_bulletin created_at author title body clock db =
     (case bindE (require_u32 (lit ''created_at'') created_at) (\<lambda>created_at.
           bindE (require_str (lit ''author and title must be strings'') author) (\<lambda>author.
           bindE (require_str (lit ''author and title must be strings'') title) (\<lambda>title.
           bindE (require_str (lit ''body must be a string'') body) (\<lambda>body.
           bindE (encode_utf8 body) (\<lambda>body_bytes.
             Inr (created_at, author, title, body_bytes)))))) of
        Inl e \<Rightarrow> (Inl e, db)
      | Inr (created_at, author, title, body_bytes) \<Rightarrow>
          with_connection (or_rollback
            (store_bulletin_tx created_at author title body_bytes clock)) db)"

section \<open>The invariant\<close>

definition bulletin_typed :: "bulletin_row \<Rightarrow> bool" where
  "bulletin_typed row \<longleftrightarrow> bulletin_check row \<and>
     (case (br_author row, br_title row, br_body row) of
        (SText a, SText t, SBlob b) \<Rightarrow>
          utf8_encode a \<noteq> None \<and> utf8_encode t \<noteq> None \<and> utf8_decode b \<noteq> None
      | _ \<Rightarrow> False)"

definition bulletin_count :: "database \<Rightarrow> int" where
  "bulletin_count db = int (length (bulletins db))"

definition bulletins_ok :: "database \<Rightarrow> bool" where
  "bulletins_ok db \<longleftrightarrow> (\<forall>r \<in> set (bulletins db). bulletin_typed r)
     \<and> map br_sequence (bulletins db) = [1..bulletin_count db]
     \<and> bulletin_sequence db = Some (bulletin_count db) \<and> bulletin_count db \<le> MAX_U32"

definition header_view :: "bulletin_row \<Rightarrow> stored_bulletin_header" where
  "header_view row = \<lparr>sbh_sequence = br_sequence row, sbh_created_at = br_created row,
     sbh_author = the_text (br_author row), sbh_title = the_text (br_title row)\<rparr>"

definition bulletin_view :: "bulletin_row \<Rightarrow> stored_bulletin" where
  "bulletin_view row = \<lparr>sb_sequence = br_sequence row, sb_created_at = br_created row,
     sb_accepted_at = the_int (br_accepted row), sb_author = the_text (br_author row),
     sb_title = the_text (br_title row), sb_body = the_utf8 (br_body row)\<rparr>"

lemma header_view_sequence [simp]: "sbh_sequence (header_view row) = br_sequence row"
  by (simp add: header_view_def)

lemma stored_header_ok: "bulletin_typed row \<Longrightarrow> stored_header_of row = Inr (header_view row)"
  by (auto simp: bulletin_typed_def bulletin_check_def stored_header_of_def header_view_def validators_ok
      split: sqlval.splits)

lemma stored_bulletin_ok: "bulletin_typed row \<Longrightarrow> stored_bulletin_of row = Inr (bulletin_view row)"
  using stored_header_ok [of row]
  by (auto simp: bulletin_typed_def bulletin_check_def stored_bulletin_of_def header_view_def
      bulletin_view_def split: sqlval.splits option.splits)

lemma bulletins_increasing: "bulletins_ok db \<Longrightarrow> increasing br_sequence (bulletins db)"
  using increasing_keys [of br_sequence "bulletins db" 1 "bulletin_count db"] by (simp add: bulletins_ok_def)

lemma bulletin_bound: "bulletins_ok db \<Longrightarrow> r \<in> set (bulletins db) \<Longrightarrow>
    1 \<le> br_sequence r \<and> br_sequence r \<le> bulletin_count db"
  by (metis atLeastAtMost_iff image_eqI list.set_map bulletins_ok_def set_upto)

lemma bulletin_state_ok:
  "bulletins_ok db \<Longrightarrow> bulletin_state (bulletin_sequence db) = Inr (bulletin_count db)"
  by (simp add: bulletins_ok_def bulletin_state_def validators_ok bulletin_count_def)

lemma get_new_bulletins_page:
  assumes "bulletins_ok db" "0 \<le> since" "since \<le> bulletin_count db" "1 \<le> limit" "limit \<le> 20"
    "page_of sbh_sequence (map header_view (bulletins db)) since limit = (items, nxt, mr)"
  shows "get_new_bulletins (PInt since) (PInt (int limit)) db =
    (Inr \<lparr>bp_headers = items, bp_next_since = nxt, bp_has_more = mr\<rparr>, db)"
proof -
  define rows where "rows = take (limit + 1) (filter (\<lambda>r. since < br_sequence r) (bulletins db))"
  have "sort_key br_sequence (filter (\<lambda>r. since < br_sequence r) (bulletins db)) =
      filter (\<lambda>r. since < br_sequence r) (bulletins db)"
    by (intro increasing_sort increasing_filter bulletins_increasing assms)
  moreover have "nat (int limit + 1) = limit + 1" by simp
  ultimately have r: "sql_limit (int limit + 1) (sort_key br_sequence (filter (\<lambda>r. since < br_sequence r)
      (bulletins db))) = rows"
    by (simp add: sql_limit_def rows_def)
  have "bulletin_typed r" if "r \<in> set rows" for r
    using that assms(1) by (auto simp: rows_def bulletins_ok_def dest!: in_set_takeD)
  then have "mapE stored_header_of (take limit rows) = Inr (map header_view (take limit rows))"
    by (intro mapE_Inr stored_header_ok) (auto dest: in_set_takeD)
  moreover have "(items, nxt, mr) = (map header_view (take limit rows),
      next_cursor sbh_sequence since (map header_view (take limit rows)), limit < length rows)"
    using assms(6) by (auto simp: page_of_map Let_def rows_def)
  moreover have "with_connection (or_rollback (get_new_bulletins_tx since (int limit))) db = (Inr rows, db)"
    using assms r bulletin_state_ok [OF assms(1)]
    by (simp add: with_connection_def or_rollback_def get_new_bulletins_tx_def sql_simps)
  ultimately show ?thesis
    using assms by (auto simp: get_new_bulletins_def validators_ok limit_nat next_cursor_def bulletins_ok_def)
qed

lemma get_new_bulletins_unchanged: "snd (get_new_bulletins since limit db) = db"
  by (auto simp: get_new_bulletins_def with_connection_def or_rollback_def get_new_bulletins_tx_def
      bindS_def run_simps rollback_def split: sum.splits prod.splits)

section \<open>Storing a bulletin\<close>

definition publish :: "int \<Rightarrow> pystr \<Rightarrow> pystr \<Rightarrow> bytes \<Rightarrow> int \<Rightarrow> database \<Rightarrow> database" where
  "publish created author title bs t db =
     db\<lparr>bulletin_sequence := Some (bulletin_count db + 1),
        bulletins := bulletins db @ [\<lparr>br_sequence = bulletin_count db + 1, br_created = created,
          br_accepted = SInt t, br_author = SText author, br_title = SText title, br_body = SBlob bs\<rparr>]\<rparr>"

lemma store_bulletin_tx_run:
  assumes "bulletins_ok db" "0 \<le> created" "created \<le> MAX_U32" "utf8_encode author \<noteq> None"
    "utf8_encode title \<noteq> None" "bulletin_count db < MAX_U32" "0 \<le> t" "t \<le> MAX_SQLITE_INTEGER"
  shows "with_connection (or_rollback (store_bulletin_tx created author title bs (PInt t))) db =
    (Inr (bulletin_count db + 1), publish created author title bs t db)"
proof -
  have "0 \<le> bulletin_count db" by (simp add: bulletin_count_def)
  moreover have "\<not> (\<exists>r \<in> set (bulletins db). br_sequence r = bulletin_count db + 1)"
    using bulletin_bound [OF assms(1)] by fastforce
  moreover have "bind_texts [author, title] = Inr ()" using assms(4,5) by simp
  moreover have "bulletin_sequence db = Some (bulletin_count db)" using assms(1) by (simp add: bulletins_ok_def)
  ultimately show ?thesis
    using assms bulletin_state_ok [OF assms(1)]
    by (simp add: with_connection_def or_rollback_def store_bulletin_tx_def sql_simps Let_def validators_ok
        insert_bulletin_def bulletin_check_def update_bulletin_sequence_def publish_def del: bind_texts_Inr)
qed

lemma publish_ok:
  assumes "bulletins_ok db" "0 \<le> created" "created \<le> MAX_U32" "utf8_encode author \<noteq> None"
    "utf8_encode title \<noteq> None" "bulletin_count db < MAX_U32" "0 \<le> t" "utf8_decode bs \<noteq> None"
  shows "bulletins_ok (publish created author title bs t db)"
proof -
  have "0 \<le> bulletin_count db" by (simp add: bulletin_count_def)
  then show ?thesis using assms
    by (auto simp: bulletins_ok_def publish_def bulletin_count_def bulletin_typed_def bulletin_check_def upto_rec2)
qed

lemma safe_store_bulletin_tx: "safe (store_bulletin_tx created author title bs clock)"
  unfolding store_bulletin_tx_def Let_def by (intro safe_intros)

lemma store_bulletin_error:
  assumes "store_bulletin created author title body clock db = (Inl e, db')" shows "db' = db"
  using assms with_connection_error [OF safe_store_bulletin_tx]
  by (auto simp: store_bulletin_def split: sum.splits prod.splits)

lemma store_bulletin_success:
  assumes "bulletins_ok db" "store_bulletin created author title body clock db = (Inr n, db')"
  shows "\<exists>c a ti b bs t. created = PInt c \<and> author = PStr a \<and> title = PStr ti \<and> body = PStr b
    \<and> clock = PInt t \<and> 0 \<le> c \<and> c \<le> MAX_U32 \<and> utf8_encode a \<noteq> None \<and> utf8_encode ti \<noteq> None
    \<and> utf8_encode b = Some bs \<and> 0 \<le> t \<and> t \<le> MAX_SQLITE_INTEGER \<and> bulletin_count db < MAX_U32
    \<and> n = bulletin_count db + 1 \<and> db' = publish c a ti bs t db"
proof -
  from assms(2) obtain c a ti b bs where args: "created = PInt c" "0 \<le> c" "c \<le> MAX_U32" "author = PStr a"
      "title = PStr ti" "body = PStr b" "utf8_encode b = Some bs"
    and run: "with_connection (or_rollback (store_bulletin_tx c a ti bs clock)) db = (Inr n, db')"
    by (auto simp: store_bulletin_def bindE_eq_Inr split: sum.splits prod.splits)
  have state: "bulletin_state (bulletin_sequence db) = Inr (bulletin_count db)"
    by (rule bulletin_state_ok [OF assms(1)])
  from run state obtain t where "utf8_encode a \<noteq> None" "utf8_encode ti \<noteq> None" "clock = PInt t" "0 \<le> t"
      "t \<le> MAX_SQLITE_INTEGER" "bulletin_count db \<noteq> MAX_U32"
    by (auto simp: with_connection_Inr store_bulletin_tx_def bindS_Inr run_Inr run_simps Let_def
        split: if_splits)
  moreover have "bulletin_count db \<le> MAX_U32" using assms(1) by (simp add: bulletins_ok_def)
  ultimately show ?thesis
    using store_bulletin_tx_run [OF assms(1) args(2,3), of a ti t bs] run args by auto
qed

lemma store_bulletin_ok:
  assumes "bulletins_ok db" "store_bulletin created author title body clock db = (r, db')"
  shows "bulletins_ok db'"
proof (cases r)
  case (Inl e)
  then show ?thesis using store_bulletin_error assms by blast
next
  case (Inr n)
  from store_bulletin_success [OF assms(1) assms(2) [unfolded Inr]] show ?thesis
    using assms(1) publish_ok utf8_decode_encode by (metis option.distinct(1))
qed

lemma publish_other [simp]:
  "messages (publish created author title bs t db) = messages db"
  "mailbox_sequences (publish created author title bs t db) = mailbox_sequences db"
  "api_message_sequence (publish created author title bs t db) = api_message_sequence db"
  "api_idempotency (publish created author title bs t db) = api_idempotency db"
  "deliveries (publish created author title bs t db) = deliveries db"
  "conversation_reads (publish created author title bs t db) = conversation_reads db"
  "accounts (publish created author title bs t db) = accounts db"
  by (simp_all add: publish_def)

end
