(* ===== verification/Conversations.thy ===== *)
theory Conversations
  imports Storing Bulletin_Store
begin

text \<open>
  Conversation ordinals, read cursors, deliveries and the API's list of messages, on
  databases that satisfy the invariant.
\<close>

section \<open>Conversation ordinals\<close>

lemma mailbox_last_bounds: "messages_ok db \<Longrightarrow> 0 \<le> mailbox_last db p \<and> mailbox_last db p \<le> MAX_U32"
  by (simp add: messages_ok_def)

lemma filter_le_nth:
  assumes "increasing key xs" "i < length xs"
  shows "filter (\<lambda>x. key x \<le> key (xs ! i)) xs = take (Suc i) xs"
proof -
  have x: "xs = take (Suc i) xs @ drop (Suc i) xs" by simp
  have "\<not> key x \<le> key (xs ! i)" if "x \<in> set (drop (Suc i) xs)" for x
  proof -
    have "xs ! i \<in> set (take (Suc i) xs)" using assms(2) by (auto simp: in_set_conv_nth intro!: exI [of _ i])
    moreover have "increasing key (take (Suc i) xs @ drop (Suc i) xs)" using assms(1) by simp
    ultimately show ?thesis using that by (force simp: increasing_append simp del: append_take_drop_id)
  qed
  moreover have "key x \<le> key (xs ! i)" if "x \<in> set (take (Suc i) xs)" for x
  proof -
    from that obtain j where j: "j \<le> i" "x = xs ! j" by (auto simp: in_set_conv_nth less_Suc_eq_le)
    then show ?thesis using assms sorted_wrt_nth_less [of "\<lambda>x y. key x < key y" xs j i]
      by (cases "j = i") (auto simp: increasing_def less_imp_le)
  qed
  ultimately show ?thesis by (subst x, subst filter_append) (simp add: filter_empty_conv filter_id_conv)
qed

lemma incoming_increasing: "messages_ok db \<Longrightarrow> increasing mr_sequence (incoming db r a)"
  by (simp add: incoming_def increasing_filter mailbox_increasing)

lemma incoming_sub: "x \<in> set (incoming db r a) \<Longrightarrow>
    x \<in> set (mailbox db r) \<and> x \<in> set (messages db) \<and> mr_recipient x = SText r \<and> mr_author x = SText a"
  by (auto simp: incoming_def mailbox_def)

lemma incoming_length: "messages_ok db \<Longrightarrow> int (length (incoming db r a)) \<le> mailbox_last db r"
proof -
  assume m: "messages_ok db"
  have "length (incoming db r a) \<le> length (mailbox db r)" by (simp add: incoming_def)
  also have "\<dots> = length [1..mailbox_last db r]" using m by (metis length_map messages_ok_def)
  finally show ?thesis using mailbox_last_bounds [OF m, of r] by (simp add: le_nat_iff)
qed

lemma get_conversation_message_run:
  assumes "messages_ok db" "utf8_encode r \<noteq> None" "utf8_encode a \<noteq> None" "1 \<le> n" "n \<le> MAX_U32"
  shows "get_conversation_message (PStr r) (PStr a) (PInt n) db =
    Inr (if n \<le> int (length (incoming db r a)) then Some (view True (incoming db r a ! nat (n - 1))) else None)"
proof -
  have s: "sort_key mr_sequence (incoming db r a) = incoming db r a"
    by (rule increasing_sort [OF incoming_increasing [OF assms(1)]])
  have b: "bind_texts [r, a] = Inr ()" using assms by simp
  show ?thesis
  proof (cases "n \<le> int (length (incoming db r a))")
    case True
    then have lt: "nat (n - 1) < length (incoming db r a)" using assms(4) by linarith
    then have "drop (nat (n - 1)) (incoming db r a) =
        incoming db r a ! nat (n - 1) # drop (Suc (nat (n - 1))) (incoming db r a)"
      by (simp add: Cons_nth_drop_Suc)
    moreover have "well_typed (incoming db r a ! nat (n - 1))"
      using assms(1) incoming_sub [OF nth_mem [OF lt]] by (auto simp: messages_ok_def)
    ultimately show ?thesis using assms True b
      by (simp add: get_conversation_message_def validators_ok s stored_message_of_ok del: bind_texts_Inr)
  next
    case False
    then have "drop (nat (n - 1)) (incoming db r a) = []" by simp
    then show ?thesis using assms False b
      by (simp add: get_conversation_message_def validators_ok s del: bind_texts_Inr)
  qed
qed

lemma conversation_sequence_run:
  assumes "messages_ok db" "utf8_encode r \<noteq> None" "utf8_encode a \<noteq> None" "i < length (incoming db r a)"
  shows "conversation_sequence (view api (incoming db r a ! i)) db = Inr (int i + 1)"
proof -
  have "mr_recipient (incoming db r a ! i) = SText r" "mr_author (incoming db r a ! i) = SText a"
    using incoming_sub [OF nth_mem [OF assms(4)]] by auto
  moreover have "bind_texts [r, a] = Inr ()" using assms by simp
  moreover have "length (filter (\<lambda>x. mr_sequence x \<le> mr_sequence (incoming db r a ! i)) (incoming db r a)) = Suc i"
    using filter_le_nth [OF incoming_increasing [OF assms(1)] assms(4)] assms(4) by simp
  moreover have "int i + 1 \<le> MAX_U32"
    using incoming_length [OF assms(1), of r a] mailbox_last_bounds [OF assms(1), of r] assms(4) by simp
  moreover have "bind_int (mr_sequence (incoming db r a ! i)) = Inr ()"
    using mailbox_bound [OF assms(1)] incoming_sub [OF nth_mem [OF assms(4)]]
      mailbox_last_bounds [OF assms(1), of r] by fastforce
  ultimately show ?thesis
    by (simp add: conversation_sequence_def del: bind_texts_Inr bind_int_Inr)
qed

section \<open>Read cursors\<close>

definition cursor :: "database \<Rightarrow> pystr \<Rightarrow> pystr \<Rightarrow> int" where
  "cursor db owner peer = (case conversation_reads db (owner, peer) of None \<Rightarrow> 0 | Some v \<Rightarrow> v)"

definition last_incoming :: "database \<Rightarrow> pystr \<Rightarrow> pystr \<Rightarrow> int" where
  "last_incoming db owner peer = (case max_sequence (incoming db owner peer) of None \<Rightarrow> 0 | Some v \<Rightarrow> v)"

definition move_cursor :: "pystr \<Rightarrow> pystr \<Rightarrow> database \<Rightarrow> database" where
  "move_cursor owner peer db = db\<lparr>conversation_reads := (conversation_reads db)
     ((owner, peer) \<mapsto> max (cursor db owner peer) (last_incoming db owner peer))\<rparr>"

lemma last_incoming_bounds:
  assumes "messages_ok db"
  shows "0 \<le> last_incoming db r a" "last_incoming db r a \<le> mailbox_last db r"
    "x \<in> set (incoming db r a) \<Longrightarrow> mr_sequence x \<le> last_incoming db r a"
proof -
  have b: "1 \<le> mr_sequence y \<and> mr_sequence y \<le> mailbox_last db r" if "y \<in> set (incoming db r a)" for y
    using mailbox_bound [OF assms] incoming_sub [OF that] by blast
  have l: "last_incoming db r a = (if incoming db r a = [] then 0 else Max (mr_sequence ` set (incoming db r a)))"
    by (simp add: last_incoming_def max_sequence_def)
  have m: "Max (mr_sequence ` set (incoming db r a)) \<in> mr_sequence ` set (incoming db r a)"
    if "incoming db r a \<noteq> []" using that by (intro Max_in) auto
  then show "0 \<le> last_incoming db r a" using b by (fastforce simp: l)
  show "last_incoming db r a \<le> mailbox_last db r"
    using b m assms by (fastforce simp: l messages_ok_def)
  show "x \<in> set (incoming db r a) \<Longrightarrow> mr_sequence x \<le> last_incoming db r a" by (auto simp: l)
qed

lemma advance_run:
  assumes "db_ok db"
  shows "advance_conversation_read owner peer db =
    (if utf8_encode owner \<noteq> None \<and> utf8_encode peer \<noteq> None
     then (Inr (max (cursor db owner peer) (last_incoming db owner peer),
             cursor db owner peer < last_incoming db owner peer), move_cursor owner peer db)
     else (Inl UnicodeEncodeError, db))"
proof (cases "bind_texts [owner, peer]")
  case (Inl e)
  then have "utf8_encode owner = None \<or> utf8_encode peer = None" "e = UnicodeEncodeError"
    by (auto simp: bind_texts.simps bindE_eq_Inl)
  then show ?thesis using Inl
    by (auto simp: advance_conversation_read_def with_connection_def sql_simps)
next
  case (Inr u)
  have "0 \<le> last_incoming db owner peer" using assms last_incoming_bounds by (simp add: db_ok_def)
  moreover have "0 \<le> cursor db owner peer"
    using assms by (auto simp: db_ok_def references_ok_def cursor_def split: option.splits)
  moreover have "bind_texts [owner, peer] = Inr u \<and> utf8_encode owner \<noteq> None \<and> utf8_encode peer \<noteq> None"
    using Inr by auto
  ultimately show ?thesis
    by (auto simp: advance_conversation_read_def with_connection_def sql_simps Let_def fetch_first_def
        upsert_conversation_read_def move_cursor_def cursor_def last_incoming_def
        simp del: bind_texts_Inr split: option.splits)
qed

lemma move_cursor_simps [simp]:
  "messages (move_cursor owner peer db) = messages db"
  "mailbox (move_cursor owner peer db) = mailbox db"
  "incoming (move_cursor owner peer db) = incoming db"
  "mailbox_last (move_cursor owner peer db) = mailbox_last db"
  "message_count (move_cursor owner peer db) = message_count db"
  "message_exists (move_cursor owner peer db) = message_exists db"
  "api_message_sequence (move_cursor owner peer db) = api_message_sequence db"
  "api_idempotency (move_cursor owner peer db) = api_idempotency db"
  "deliveries (move_cursor owner peer db) = deliveries db"
  "bulletins (move_cursor owner peer db) = bulletins db"
  "bulletin_sequence (move_cursor owner peer db) = bulletin_sequence db"
  "bulletin_count (move_cursor owner peer db) = bulletin_count db"
  "accounts (move_cursor owner peer db) = accounts db"
  "cursor (move_cursor owner peer db) p q =
     (if p = owner \<and> q = peer then max (cursor db owner peer) (last_incoming db owner peer) else cursor db p q)"
  by (auto simp: move_cursor_def mailbox_def incoming_def mailbox_last_def message_count_def cursor_def
      bulletin_count_def message_exists_def fun_eq_iff)

lemma move_cursor_ok: "db_ok db \<Longrightarrow> db_ok (move_cursor owner peer db)"
proof -
  assume ok: "db_ok db"
  have "cursor db owner peer \<le> mailbox_last db owner" "0 \<le> cursor db owner peer"
    using ok by (auto simp: db_ok_def references_ok_def messages_ok_def cursor_def split: option.splits)
  then show ?thesis using ok last_incoming_bounds(1,2) [of db owner peer]
    by (auto simp: db_ok_def messages_ok_def references_ok_def) (auto simp: move_cursor_def split: if_splits)
qed

section \<open>Deliveries\<close>

definition delivery_status ::
  "database \<Rightarrow> pystr \<Rightarrow> int \<Rightarrow> pystr \<Rightarrow> (pystr \<times> int option) option" where
  "delivery_status db p n tr = map_option (\<lambda>d. (dr_status d, dr_delivered_at d))
     (find (\<lambda>d. dr_recipient d = p \<and> dr_sequence d = n \<and> dr_transport d = tr) (deliveries db))"

definition delivery_allowed :: "database \<Rightarrow> pystr \<Rightarrow> int \<Rightarrow> pystr \<Rightarrow> pystr \<Rightarrow> bool" where
  "delivery_allowed db p n tr st \<longleftrightarrow> (case delivery_status db p n tr of
     None \<Rightarrow> True | Some (old, _) \<Rightarrow> delivery_may_change old st)"

abbreviation is_delivery :: "pystr \<Rightarrow> int \<Rightarrow> pystr \<Rightarrow> delivery_row \<Rightarrow> bool" where
  "is_delivery p n tr \<equiv> \<lambda>d. dr_recipient d = p \<and> dr_sequence d = n \<and> dr_transport d = tr"

abbreviation new_delivery :: "pystr \<Rightarrow> int \<Rightarrow> pystr \<Rightarrow> pystr \<Rightarrow> int option \<Rightarrow> delivery_row" where
  "new_delivery p n tr st t \<equiv> \<lparr>dr_recipient = p, dr_sequence = n, dr_transport = tr, dr_status = st,
     dr_delivered_at = t\<rparr>"

definition update_delivery ::
  "pystr \<Rightarrow> int \<Rightarrow> pystr \<Rightarrow> pystr \<Rightarrow> int option \<Rightarrow> delivery_row list \<Rightarrow> delivery_row list" where
  "update_delivery p n tr st t ds = (case find (is_delivery p n tr) ds of
     None \<Rightarrow> ds @ [new_delivery p n tr st t]
   | Some _ \<Rightarrow> map (\<lambda>d. if is_delivery p n tr d then d\<lparr>dr_status := st, dr_delivered_at := t\<rparr> else d) ds)"

definition delivery_ok :: "database \<Rightarrow> delivery_row \<Rightarrow> bool" where
  "delivery_ok db d \<longleftrightarrow> message_exists db (dr_recipient d) (dr_sequence d) \<and> dr_status d \<in> delivery_statuses"

lemma same_delivery_new: "same_delivery (new_delivery p n tr st t) = is_delivery p n tr"
  by (auto simp: same_delivery_def fun_eq_iff)

lemma upsert_delivery_cases:
  assumes "upsert_delivery (new_delivery p n tr st t) db = Inr (k, db')"
  shows "st \<in> delivery_statuses \<and> (if delivery_allowed db p n tr st
     then k = 1 \<and> db' = db\<lparr>deliveries := update_delivery p n tr st t (deliveries db)\<rparr>
       \<and> (find (is_delivery p n tr) (deliveries db) = None \<longrightarrow> message_exists db p n)
     else k = 0 \<and> db' = db)"
proof (cases "find (is_delivery p n tr) (deliveries db)")
  case None
  then show ?thesis using assms
    by (auto simp: upsert_delivery_def same_delivery_new delivery_allowed_def delivery_status_def
        update_delivery_def split: if_splits)
next
  case (Some old)
  then show ?thesis using assms
    by (auto simp: upsert_delivery_def same_delivery_new delivery_allowed_def delivery_status_def
        update_delivery_def split: if_splits)
qed

lemma find_upd:
  "find (is_delivery p' n' tr') (map (\<lambda>d. if is_delivery p n tr d
      then d\<lparr>dr_status := st, dr_delivered_at := t\<rparr> else d) ds) =
     (if p' = p \<and> n' = n \<and> tr' = tr
      then map_option (\<lambda>d. d\<lparr>dr_status := st, dr_delivered_at := t\<rparr>) (find (is_delivery p n tr) ds)
      else find (is_delivery p' n' tr') ds)"
  by (induction ds) auto

lemma update_delivery_status:
  "delivery_status (db\<lparr>deliveries := update_delivery p n tr st t (deliveries db)\<rparr>) p' n' tr' =
     (if p' = p \<and> n' = n \<and> tr' = tr then Some (st, t) else delivery_status db p' n' tr')"
proof (cases "find (is_delivery p n tr) (deliveries db)")
  case None
  then show ?thesis by (auto simp: delivery_status_def update_delivery_def find_append split: option.splits)
next
  case (Some old)
  then show ?thesis
    using find_upd [where ds = "deliveries db" and p = p and n = n and tr = tr and st = st and t = t]
    by (auto simp: delivery_status_def update_delivery_def)
qed

lemma update_delivery_ok:
  assumes "\<forall>d \<in> set ds. delivery_ok db d" "st \<in> delivery_statuses"
    "find (is_delivery p n tr) ds = None \<longrightarrow> message_exists db p n"
  shows "\<forall>d \<in> set (update_delivery p n tr st t ds). delivery_ok db d"
  using assms by (cases "find (is_delivery p n tr) ds") (auto simp: update_delivery_def delivery_ok_def)

lemma deliveries_update_ok:
  assumes "db_ok db" "\<forall>d \<in> set ds. delivery_ok db d" shows "db_ok (db\<lparr>deliveries := ds\<rparr>)"
proof -
  have "messages_ok (db\<lparr>deliveries := ds\<rparr>)"
    using assms(1) by (simp add: db_ok_def messages_ok_def mailbox_def mailbox_last_def message_count_def)
  moreover have "references_ok (db\<lparr>deliveries := ds\<rparr>)"
    using assms by (simp add: db_ok_def references_ok_def mailbox_last_def message_exists_def delivery_ok_def)
  ultimately show ?thesis by (simp add: db_ok_def)
qed

lemma set_delivery_outcome:
  assumes "db_ok db" "set_delivery p n tr st t db = (r, db')"
  shows "(\<exists>e. r = Inl e) \<and> db' = db
    \<or> r = Inr (delivery_allowed db p n tr st) \<and> db_ok db'
      \<and> db' = (if delivery_allowed db p n tr st
          then db\<lparr>deliveries := update_delivery p n tr st t (deliveries db)\<rparr> else db)"
proof (cases r)
  case (Inl e)
  have "safe (bindS (liftS (bind_text p)) (\<lambda>_. bindS (liftS (bind_int n)) (\<lambda>_.
      bindS (liftS (bind_texts [tr, st])) (\<lambda>_.
      bindS (liftS (case t of None \<Rightarrow> Inr () | Some t \<Rightarrow> bind_int t)) (\<lambda>_.
      bindS (execute_count (upsert_delivery (new_delivery p n tr st t))) (\<lambda>rowcount.
      bindS commit (\<lambda>_. returnS (rowcount > 0))))))))"
    by (intro safe_intros)
  from with_connection_close [OF this] show ?thesis using assms(2) Inl by (simp add: set_delivery_def)
next
  case (Inr b)
  then obtain k where u: "upsert_delivery (new_delivery p n tr st t) db = Inr (k, db')" and b: "b \<longleftrightarrow> k > 0"
    using assms(2) unfolding set_delivery_def with_connection_def
    by (simp add: bindS_liftE sql_simps split: sum.splits prod.splits)
  note oc = upsert_delivery_cases [OF u]
  have "\<forall>d \<in> set (deliveries db). delivery_ok db d"
    using assms(1) by (simp add: db_ok_def references_ok_def delivery_ok_def)
  then have "delivery_allowed db p n tr st \<Longrightarrow> db_ok db'"
    using oc deliveries_update_ok [OF assms(1) update_delivery_ok, of "deliveries db" st p n tr t] by auto
  then show ?thesis using Inr b oc assms(1) by (auto split: if_splits)
qed

end
