(* ===== verification/Store_Steps.thy ===== *)
theory Store_Steps
  imports Conversations
begin

text \<open>
  The stores as a state machine: a step is one operation of \<open>MessageStore\<close> or
  \<open>BulletinStore\<close> with any arguments and any outcome. The invariant holds in every reachable
  database, and what a later step can change is limited: logs only grow at their end, keyed
  results stay, read cursors do not move back and a delivered message stays delivered.
\<close>

section \<open>Steps\<close>

inductive store_step :: "database \<Rightarrow> database \<Rightarrow> bool" where
  message: "store_message created author recipient body clock db = (r, db') \<Longrightarrow> store_step db db'"
| keyed: "store_message_idempotent created' author' recipient' body' key h clock db = (r', db') \<Longrightarrow>
    store_step db db'"
| seen: "advance_conversation_read owner peer db = (r'', db') \<Longrightarrow> store_step db db'"
| delivery: "set_delivery p n tr st t db = (r''', db') \<Longrightarrow> store_step db db'"
| bulletin: "store_bulletin created author title body clock db = (r, db') \<Longrightarrow> store_step db db'"

abbreviation store_steps :: "database \<Rightarrow> database \<Rightarrow> bool" where
  "store_steps \<equiv> store_step\<^sup>*\<^sup>*"

definition stores_ok :: "database \<Rightarrow> bool" where
  "stores_ok db \<longleftrightarrow> db_ok db \<and> bulletins_ok db"

lemma empty_stores_ok: "stores_ok empty_database"
  by (simp add: stores_ok_def empty_ok) (simp add: bulletins_ok_def empty_database_def bulletin_count_def)

text \<open>Every step is one of these changes.\<close>

inductive change :: "database \<Rightarrow> database \<Rightarrow> bool" where
  unchanged: "change db db"
| accepted: "storable c a r b \<Longrightarrow> 0 \<le> t \<Longrightarrow> t \<le> MAX_SQLITE_INTEGER \<Longrightarrow> mailbox_last db r < MAX_U32 \<Longrightarrow>
    case key of None \<Rightarrow> True | Some k \<Rightarrow> api_idempotency db (a, lit ''send'', k) = None \<Longrightarrow>
    change db (remember key h a r (mailbox_last db r + 1) (accept c a r (body_bytes b) t db))"
| moved: "change db (move_cursor owner peer db)"
| delivered: "delivery_allowed db p n tr st \<Longrightarrow>
    db_ok (db\<lparr>deliveries := update_delivery p n tr st t' (deliveries db)\<rparr>) \<Longrightarrow>
    change db (db\<lparr>deliveries := update_delivery p n tr st t' (deliveries db)\<rparr>)"
| published: "0 \<le> c \<Longrightarrow> c \<le> MAX_U32 \<Longrightarrow> utf8_encode a \<noteq> None \<Longrightarrow> utf8_encode ti \<noteq> None \<Longrightarrow>
    utf8_encode b = Some bs \<Longrightarrow> 0 \<le> t \<Longrightarrow> bulletin_count db < MAX_U32 \<Longrightarrow>
    change db (publish c a ti bs t db)"

lemma remember_None [simp]: "remember None h a r n db = db"
  by (simp add: remember_def)

lemma step_change:
  assumes "stores_ok db" "store_step db db'" shows "change db db'"
  using assms(2)
proof cases
  case (message created author recipient body clock r)
  show ?thesis
  proof (cases r)
    case (Inl e)
    with message store_message_error have "db' = db" by blast
    then show ?thesis by (simp add: unchanged)
  next
    case (Inr n)
    from store_message_success [OF _ message [unfolded Inr]] assms(1)
    obtain c a r b t where "storable c a r b" "0 \<le> t" "t \<le> MAX_SQLITE_INTEGER" "mailbox_last db r < MAX_U32"
        "db' = accept c a r (body_bytes b) t db" by (auto simp: stores_ok_def db_ok_def)
    then show ?thesis using accepted [of c a r b t db None] by simp
  qed
next
  case (keyed created' author' recipient' body' key h clock r')
  from assms(1) have "db_ok db" by (simp add: stores_ok_def)
  from this keyed show ?thesis
    by (cases rule: store_idempotent_cases) (auto intro: change.intros)
next
  case (seen owner peer r'')
  then show ?thesis using assms(1) by (auto simp: advance_run stores_ok_def split: if_splits intro: change.intros)
next
  case (delivery p n tr st t r''')
  from set_delivery_outcome [OF _ this] assms(1) show ?thesis
    by (auto simp: stores_ok_def split: if_splits intro: change.intros)
next
  case (bulletin created author title body clock r)
  show ?thesis
  proof (cases r)
    case (Inl e)
    with bulletin store_bulletin_error have "db' = db" by blast
    then show ?thesis by (simp add: unchanged)
  next
    case (Inr n)
    from store_bulletin_success [OF _ bulletin [unfolded Inr]] assms(1) show ?thesis
      unfolding stores_ok_def by (elim conjE impCE) (blast intro: published)+
  qed
qed

section \<open>The invariant\<close>

lemma bulletins_ok_frame:
  "bulletins db' = bulletins db \<Longrightarrow> bulletin_sequence db' = bulletin_sequence db \<Longrightarrow>
     bulletins_ok db' = bulletins_ok db"
  by (simp add: bulletins_ok_def bulletin_count_def)

lemma db_ok_frame: "messages db' = messages db \<Longrightarrow> mailbox_sequences db' = mailbox_sequences db \<Longrightarrow>
    api_message_sequence db' = api_message_sequence db \<Longrightarrow> api_idempotency db' = api_idempotency db \<Longrightarrow>
    deliveries db' = deliveries db \<Longrightarrow> conversation_reads db' = conversation_reads db \<Longrightarrow> db_ok db' = db_ok db"
  by (simp add: db_ok_def messages_ok_def references_ok_def mailbox_def mailbox_last_def message_count_def
      message_exists_def)

lemma change_ok:
  assumes "change db db'" "stores_ok db" shows "stores_ok db'"
  using assms
proof cases
  case (accepted c a r b t key h)
  have "db_ok (accept c a r (body_bytes b) t db)"
    using accepted assms(2) by (intro accept_db_ok storable_acceptable) (auto simp: stores_ok_def)
  then have "db_ok db'" unfolding accepted(1) by (rule remember_ok) simp
  moreover have "bulletins_ok db'"
    using assms(2) accepted(1) bulletins_ok_frame [of db' db] by (simp add: stores_ok_def)
  ultimately show ?thesis by (simp add: stores_ok_def)
next
  case (moved owner peer)
  then show ?thesis using assms(2) move_cursor_ok bulletins_ok_frame [of db' db] by (simp add: stores_ok_def)
next
  case (delivered p n tr st t')
  then show ?thesis using assms(2) bulletins_ok_frame [of db' db] by (simp add: stores_ok_def)
next
  case (published c a ti b bs t)
  have "bulletins_ok db'"
    using published assms(2) utf8_decode_encode [of b bs] by (auto simp: stores_ok_def intro!: publish_ok)
  moreover have "db_ok db'" using assms(2) published(1) db_ok_frame [of db' db] by (simp add: stores_ok_def)
  ultimately show ?thesis by (simp add: stores_ok_def)
qed simp

lemma step_ok: "stores_ok db \<Longrightarrow> store_step db db' \<Longrightarrow> stores_ok db'"
  using step_change change_ok by blast

lemma steps_ok: "store_steps db db' \<Longrightarrow> stores_ok db \<Longrightarrow> stores_ok db'"
  by (induction rule: rtranclp_induct) (auto intro: step_ok)

section \<open>What later steps keep\<close>

definition grows :: "database \<Rightarrow> database \<Rightarrow> bool" where
  "grows db db' \<longleftrightarrow> (\<exists>ms. messages db' = messages db @ ms) \<and> (\<exists>bs. bulletins db' = bulletins db @ bs)
     \<and> api_idempotency db \<subseteq>\<^sub>m api_idempotency db'
     \<and> (\<forall>p q. cursor db p q \<le> cursor db' p q)
     \<and> (\<forall>p n tr t. delivery_status db p n tr = Some (lit ''delivered'', t) \<longrightarrow>
          delivery_status db' p n tr = Some (lit ''delivered'', t))"

lemma grows_refl: "grows db db"
  by (simp add: grows_def)

lemma grows_trans: "grows a b \<Longrightarrow> grows b c \<Longrightarrow> grows a c"
  unfolding grows_def by (auto intro: map_le_trans) (metis order_trans)

lemma cursor_frame: "conversation_reads db' = conversation_reads db \<Longrightarrow> cursor db' = cursor db"
  by (simp add: cursor_def fun_eq_iff)

lemma delivery_frame: "deliveries db' = deliveries db \<Longrightarrow> delivery_status db' = delivery_status db"
  by (simp add: delivery_status_def fun_eq_iff)

lemma change_grows: "change db db' \<Longrightarrow> grows db db'"
proof (induction rule: change.induct)
  case (accepted c a r b t db key h)
  have "api_idempotency db \<subseteq>\<^sub>m
      api_idempotency (remember key h a r (mailbox_last db r + 1) (accept c a r (body_bytes b) t db))"
    using accepted(5) by (auto simp: remember_def map_le_def split: option.splits)
  moreover have "cursor (remember key h a r n (accept c a r bs t db)) = cursor db" for n bs
    by (rule cursor_frame) simp
  moreover have "delivery_status (remember key h a r n (accept c a r bs t db)) = delivery_status db" for n bs
    by (rule delivery_frame) simp
  ultimately show ?case by (simp add: grows_def)
next
  case (moved db owner peer)
  have "delivery_status (move_cursor owner peer db) = delivery_status db" by (rule delivery_frame) simp
  then show ?case by (simp add: grows_def)
next
  case (delivered db p n tr st t')
  have "cursor (db\<lparr>deliveries := ds\<rparr>) = cursor db" for ds by (rule cursor_frame) simp
  moreover have "delivery_status db p n tr \<noteq> Some (lit ''delivered'', t)" for t
    using delivered(1) by (auto simp: delivery_allowed_def delivery_may_change_def)
  ultimately show ?case by (auto simp: grows_def update_delivery_status)
next
  case (published c a ti b bs t db)
  have "cursor (publish c a ti bs t db) = cursor db" by (rule cursor_frame) simp
  moreover have "delivery_status (publish c a ti bs t db) = delivery_status db" by (rule delivery_frame) simp
  moreover have "\<exists>x. bulletins (publish c a ti bs t db) = bulletins db @ x" by (simp add: publish_def)
  ultimately show ?case by (simp add: grows_def)
qed (simp add: grows_refl)

lemma steps_grow: "store_steps db db' \<Longrightarrow> stores_ok db \<Longrightarrow> grows db db'"
proof (induction rule: rtranclp_induct)
  case (step b c)
  then show ?case using steps_ok step_change change_grows grows_trans by blast
qed (simp add: grows_refl)

end
