(* ===== verification/Store_Logs.thy ===== *)
theory Store_Logs
  imports Store_Steps
begin

text \<open>
  The mailboxes, the bulletin log and the API's message list as providers of the paged-log
  contract.
\<close>

section \<open>Mailboxes\<close>

definition mailbox_fetch :: "pystr \<Rightarrow> database \<Rightarrow> int \<Rightarrow> nat \<Rightarrow> exn + (stored_message list \<times> int \<times> bool)" where
  "mailbox_fetch p db since limit =
     (case fst (get_new_messages (PStr p) (PInt since) (PInt (int limit)) db) of
        Inl e \<Rightarrow> Inl e
      | Inr page \<Rightarrow> Inr (mp_messages page, mp_next_since page, mp_has_more page))"

definition mailbox_log :: "pystr \<Rightarrow> database \<Rightarrow> stored_message list" where
  "mailbox_log p db = map (view False) (mailbox db p)"

definition addressed :: "pystr \<Rightarrow> database \<Rightarrow> bool" where
  "addressed p db \<longleftrightarrow> stores_ok db \<and> utf8_encode p \<noteq> None"

lemma grows_mailbox:
  assumes "stores_ok db" "stores_ok db'" "grows db db'"
  shows "\<exists>xs. mailbox db' p = mailbox db p @ xs \<and> (\<forall>x \<in> set xs. mailbox_last db p < mr_sequence x)"
    and "mailbox_last db p \<le> mailbox_last db' p"
proof -
  from assms(3) obtain ms where "messages db' = messages db @ ms" by (auto simp: grows_def)
  then obtain xs where xs: "mailbox db' p = mailbox db p @ xs" by (simp add: mailbox_def)
  have m: "messages_ok db" "messages_ok db'" using assms(1,2) by (auto simp: stores_ok_def db_ok_def)
  have k: "map mr_sequence (mailbox db p) = [1..mailbox_last db p]"
      "map mr_sequence (mailbox db' p) = [1..mailbox_last db' p]" "0 \<le> mailbox_last db p" "0 \<le> mailbox_last db' p"
    using m by (auto simp: messages_ok_def)
  have "length [1..mailbox_last db p] \<le> length [1..mailbox_last db' p]"
    unfolding k(1,2) [symmetric] by (simp add: xs)
  then show le: "mailbox_last db p \<le> mailbox_last db' p" using k(3,4) by simp
  have "[1..mailbox_last db' p] = [1..mailbox_last db p] @ map mr_sequence xs"
    using k(1,2) xs by simp
  moreover have "increasing id [1..mailbox_last db' p]" by (simp add: increasing_def sorted_upto)
  ultimately have "\<forall>y \<in> mr_sequence ` set xs. \<forall>x \<in> {1..mailbox_last db p}. x < y"
    by (fastforce simp: increasing_append)
  then have "mailbox_last db p < mr_sequence x" if "x \<in> set xs" for x
  proof (cases "mailbox_last db p = 0")
    case True
    have "x \<in> set (mailbox db' p)" using that xs by simp
    then show ?thesis using mailbox_bound [OF m(2)] True by fastforce
  qed (use k(3) that in auto)
  with xs show "\<exists>xs. mailbox db' p = mailbox db p @ xs \<and> (\<forall>x \<in> set xs. mailbox_last db p < mr_sequence x)"
    by auto
qed

interpretation mb: growing_log "mailbox_fetch p" "mailbox_log p" st_sequence "\<lambda>db. mailbox_last db p"
  "addressed p" 20 store_steps for p
proof
  fix s s' :: database and since :: int and limit :: nat and x
  assume a: "addressed p s"
  then have ok: "stores_ok s" and m: "messages_ok s" and u: "utf8_encode p \<noteq> None"
    by (auto simp: addressed_def stores_ok_def db_ok_def)
  show "increasing st_sequence (mailbox_log p s)"
    using mailbox_increasing [OF m, of p] by (simp add: mailbox_log_def increasing_def sorted_wrt_map)
  show "x \<in> set (mailbox_log p s) \<Longrightarrow> 0 < st_sequence x \<and> st_sequence x \<le> mailbox_last s p"
    using mailbox_bound [OF m] by (fastforce simp: mailbox_log_def)
  show "0 \<le> since \<Longrightarrow> since \<le> mailbox_last s p \<Longrightarrow> 1 \<le> limit \<Longrightarrow> limit \<le> 20 \<Longrightarrow>
      mailbox_fetch p s since limit = Inr (page_of st_sequence (mailbox_log p s) since limit)"
    using get_new_messages_page [OF m u]
    by (cases "page_of st_sequence (mailbox_log p s) since limit") (simp add: mailbox_fetch_def mailbox_log_def)
  assume l: "store_steps s s'"
  have ok': "stores_ok s'" "grows s s'" using steps_ok [OF l ok] steps_grow [OF l ok] .
  show "\<exists>xs. mailbox_log p s' = mailbox_log p s @ xs \<and> (\<forall>x \<in> set xs. mailbox_last s p < st_sequence x)"
    using grows_mailbox(1) [OF ok ok', of p] by (auto simp: mailbox_log_def)
  show "addressed p s'" using ok' u by (simp add: addressed_def)
  show "mailbox_last s p \<le> mailbox_last s' p" by (rule grows_mailbox(2) [OF ok ok'])
qed

section \<open>Bulletins\<close>

definition bulletin_fetch ::
  "database \<Rightarrow> int \<Rightarrow> nat \<Rightarrow> exn + (stored_bulletin_header list \<times> int \<times> bool)" where
  "bulletin_fetch db since limit =
     (case fst (get_new_bulletins (PInt since) (PInt (int limit)) db) of
        Inl e \<Rightarrow> Inl e
      | Inr page \<Rightarrow> Inr (bp_headers page, bp_next_since page, bp_has_more page))"

definition bulletin_log :: "database \<Rightarrow> stored_bulletin_header list" where
  "bulletin_log db = map header_view (bulletins db)"

interpretation bl: growing_log bulletin_fetch bulletin_log sbh_sequence bulletin_count stores_ok 20 store_steps
proof
  fix s s' :: database and since :: int and limit :: nat and x
  assume ok: "stores_ok s"
  then have b: "bulletins_ok s" by (simp add: stores_ok_def)
  show "increasing sbh_sequence (bulletin_log s)"
    using bulletins_increasing [OF b] by (simp add: bulletin_log_def increasing_def sorted_wrt_map)
  show "x \<in> set (bulletin_log s) \<Longrightarrow> 0 < sbh_sequence x \<and> sbh_sequence x \<le> bulletin_count s"
    using bulletin_bound [OF b] by (fastforce simp: bulletin_log_def)
  show "0 \<le> since \<Longrightarrow> since \<le> bulletin_count s \<Longrightarrow> 1 \<le> limit \<Longrightarrow> limit \<le> 20 \<Longrightarrow>
      bulletin_fetch s since limit = Inr (page_of sbh_sequence (bulletin_log s) since limit)"
    using get_new_bulletins_page [OF b]
    by (cases "page_of sbh_sequence (bulletin_log s) since limit") (simp add: bulletin_fetch_def bulletin_log_def)
  assume l: "store_steps s s'"
  have ok': "stores_ok s'" "grows s s'" using steps_ok [OF l ok] steps_grow [OF l ok] .
  then obtain xs where xs: "bulletins s' = bulletins s @ xs" by (auto simp: grows_def)
  then show "bulletin_count s \<le> bulletin_count s'" by (simp add: bulletin_count_def)
  have "map br_sequence (bulletins s) = [1..bulletin_count s]"
      "map br_sequence (bulletins s') = [1..bulletin_count s']"
    using b ok'(1) by (auto simp: bulletins_ok_def stores_ok_def)
  then have "[1..bulletin_count s'] = [1..bulletin_count s] @ map br_sequence xs" using xs by simp
  moreover have "increasing id [1..bulletin_count s']" by (simp add: increasing_def sorted_upto)
  ultimately have gt: "\<forall>y \<in> br_sequence ` set xs. \<forall>x \<in> {1..bulletin_count s}. x < y"
    by (fastforce simp: increasing_append)
  have "bulletin_count s < br_sequence x" if "x \<in> set xs" for x
  proof (cases "bulletin_count s = 0")
    case True
    have "x \<in> set (bulletins s')" using that xs by simp
    then show ?thesis using bulletin_bound [of s'] ok'(1) True by (fastforce simp: stores_ok_def)
  next
    case False
    then have "1 \<le> bulletin_count s" by (simp add: bulletin_count_def Suc_le_eq)
    then show ?thesis using gt that by auto
  qed
  then show "\<exists>xs. bulletin_log s' = bulletin_log s @ xs \<and> (\<forall>x \<in> set xs. bulletin_count s < sbh_sequence x)"
    using xs by (auto simp: bulletin_log_def)
  show "stores_ok s'" by (rule ok'(1))
qed

section \<open>The API's message list\<close>

definition api_fetch ::
  "pystr \<Rightarrow> pystr option \<Rightarrow> database \<Rightarrow> int \<Rightarrow> nat \<Rightarrow> exn + (stored_message list \<times> int \<times> bool)" where
  "api_fetch callsign peer db after limit =
     (case api_list callsign after (int limit) peer db of
        Inl e \<Rightarrow> Inl e
      | Inr (items, mr) \<Rightarrow> Inr (items, next_cursor st_api_sequence after items, mr))"

definition api_log :: "pystr \<Rightarrow> pystr option \<Rightarrow> database \<Rightarrow> stored_message list" where
  "api_log callsign peer db = map (view True) (filter (\<lambda>r. visible callsign r
     \<and> (case peer of None \<Rightarrow> True | Some p \<Rightarrow> between callsign p r)) (messages db))"

definition api_reader :: "pystr \<Rightarrow> pystr option \<Rightarrow> database \<Rightarrow> bool" where
  "api_reader callsign peer db \<longleftrightarrow> stores_ok db \<and> utf8_encode callsign \<noteq> None
     \<and> (case peer of None \<Rightarrow> True | Some p \<Rightarrow> utf8_encode p \<noteq> None) \<and> message_count db < 2 ^ 63"

lemma api_list_run:
  assumes "api_reader callsign peer db" "0 \<le> after" "after \<le> message_count db" "1 \<le> limit" "limit \<le> 200"
    "page_of st_api_sequence (api_log callsign peer db) after limit = (items, nxt, mr)"
  shows "api_list callsign after (int limit) peer db = Inr (items, mr) \<and> nxt = next_cursor st_api_sequence after items"
proof -
  let ?sel = "\<lambda>r. visible callsign r \<and> (case peer of None \<Rightarrow> True | Some p \<Rightarrow> between callsign p r)"
  have m: "messages_ok db" using assms(1) by (simp add: api_reader_def stores_ok_def db_ok_def)
  define rows where "rows = take (limit + 1) (filter (\<lambda>r. after < mr_api r) (filter ?sel (messages db)))"
  have f: "filter (\<lambda>r. visible callsign r \<and> mr_api r > after \<and> (case peer of None \<Rightarrow> True | Some p \<Rightarrow> between callsign p r))
      (messages db) = filter (\<lambda>r. after < mr_api r) (filter ?sel (messages db))"
    by (auto intro: filter_cong)
  have "sort_key mr_api (filter (\<lambda>r. after < mr_api r) (filter ?sel (messages db))) =
      filter (\<lambda>r. after < mr_api r) (filter ?sel (messages db))"
    by (intro increasing_sort increasing_filter api_increasing m)
  moreover have "nat (int limit + 1) = limit + 1" by simp
  ultimately have r: "sql_limit (int limit + 1) (sort_key mr_api (filter (\<lambda>r. after < mr_api r)
      (filter ?sel (messages db)))) = rows"
    by (simp add: sql_limit_def rows_def del: filter_filter)
  have "mapE (\<lambda>r. stored_message_of r True) (take limit rows) = Inr (map (view True) (take limit rows))"
    by (rule mapE_stored) (use m in \<open>auto simp: rows_def messages_ok_def dest!: in_set_takeD\<close>)
  moreover have "(items, nxt, mr) = (map (view True) (take limit rows),
      next_cursor st_api_sequence after (map (view True) (take limit rows)), limit < length rows)"
    using assms(6) by (auto simp: api_log_def page_of_map Let_def rows_def simp del: filter_filter)
  moreover have "bind_text callsign = Inr ()" "bind_int after = Inr ()" "bind_int (int limit + 1) = Inr ()"
      "(case peer of None \<Rightarrow> Inr () | Some p \<Rightarrow> bind_text p) = Inr ()"
    using assms(1-5) by (auto simp: api_reader_def split: option.splits)
  ultimately show ?thesis
    unfolding api_list_def f by (simp add: r limit_nat del: bind_text_Inr bind_int_Inr filter_filter)
qed

interpretation al: paged_log "api_fetch callsign peer" "api_log callsign peer" st_api_sequence message_count
  "api_reader callsign peer" 200 for callsign peer
proof
  fix s :: database and since :: int and limit :: nat and x
  assume a: "api_reader callsign peer s"
  then have m: "messages_ok s" by (simp add: api_reader_def stores_ok_def db_ok_def)
  show "increasing st_api_sequence (api_log callsign peer s)"
    using increasing_filter [OF api_increasing [OF m]]
    by (simp add: api_log_def increasing_def sorted_wrt_map)
  show "x \<in> set (api_log callsign peer s) \<Longrightarrow> 0 < st_api_sequence x \<and> st_api_sequence x \<le> message_count s"
    using api_bound [OF m] by (fastforce simp: api_log_def)
  show "0 \<le> since \<Longrightarrow> since \<le> message_count s \<Longrightarrow> 1 \<le> limit \<Longrightarrow> limit \<le> 200 \<Longrightarrow>
      api_fetch callsign peer s since limit = Inr (page_of st_api_sequence (api_log callsign peer s) since limit)"
    using api_list_run [OF a]
    by (cases "page_of st_api_sequence (api_log callsign peer s) since limit") (simp add: api_fetch_def)
qed

section \<open>What later steps keep of single messages\<close>

lemma grows_find:
  "grows db db' \<Longrightarrow> find_message db p n = Some row \<Longrightarrow> find_message db' p n = Some row"
  by (auto simp: grows_def find_message_def find_append)

lemma grows_incoming: "grows db db' \<Longrightarrow> \<exists>xs. incoming db' r a = incoming db r a @ xs"
  by (auto simp: grows_def incoming_def mailbox_def)

lemma grows_key: "grows db db' \<Longrightarrow> api_idempotency db k = Some v \<Longrightarrow> api_idempotency db' k = Some v"
  unfolding grows_def map_le_def by (metis domI)

lemma keyed_success:
  assumes "store_message_idempotent c a r b (Some k) h clock db = (Inr x, db')"
  shows "utf8_encode a \<noteq> None \<and> utf8_encode k \<noteq> None"
  using assms unfolding store_message_idempotent_def with_connection_Inr bindS_Inr
  by (auto simp: replay_idempotent_def bindS_Inr run_Inr)

lemma find_accepted_message:
  assumes "messages_ok db"
  shows "find_message (accept c a r bs t db) r (mailbox_last db r + 1) = Some (accepted_row c a r bs t db)"
proof -
  have "find_message db r (mailbox_last db r + 1) = None"
    using fresh_row(1) [OF assms, of _ r] by (auto simp: find_message_def find_None_iff)
  then show ?thesis by (simp add: find_message_def find_append)
qed

text \<open>A keyed submission leaves a record of its result.\<close>

lemma keyed_record:
  assumes "db_ok db" "store_message_idempotent c a r b (Some k) h clock db = (Inr (m, fresh), db')"
  shows "\<exists>p n. api_idempotency db' (a, lit ''send'', k) = Some (h, p, n) \<and> original db' p n = m"
  using assms
proof (cases rule: store_idempotent_cases)
  case (stored t)
  have "find_message db' r (mailbox_last db r + 1) = Some (accepted_row c a r (body_bytes b) t db)"
    using find_accepted_message [of db] assms(1)
    by (simp add: stored(8) db_ok_def find_message_def)
  then show ?thesis using stored(7,8) by (auto simp: remember_def original_def)
qed auto

lemma keyed_replay:
  assumes "stores_ok db" "store_message_idempotent c a r b (Some k) h clock db = (Inr (m, fresh), db1)"
    "store_steps db1 db2"
  shows "store_message_idempotent c' a r' b' (Some k) h' clock' db2 =
    (if h' = h then Inr (m, False)
     else Inl (IdempotencyConflictError (lit ''key reused with another request'')), db2)"
proof -
  have ok: "db_ok db" using assms(1) by (simp add: stores_ok_def)
  have "store_steps db db1" using store_step.keyed [OF assms(2)] by blast
  then have ok1: "stores_ok db1" using steps_ok assms(1) by blast
  then have ok2: "db_ok db2" and g: "grows db1 db2"
    using steps_ok [OF assms(3)] steps_grow [OF assms(3)] by (auto simp: stores_ok_def)
  from keyed_record [OF ok assms(2)] obtain p n
    where rec: "api_idempotency db1 (a, lit ''send'', k) = Some (h, p, n)" "original db1 p n = m" by blast
  then have "message_exists db1 p n" using ok1 by (auto simp: stores_ok_def db_ok_def references_ok_def)
  then obtain row where "find_message db1 p n = Some row"
    using find_message_ok [of db1 p n] ok1 by (auto simp: stores_ok_def db_ok_def)
  then have orig: "original db2 p n = m" using grows_find [OF g] rec(2) by (auto simp: original_def)
  have rec2: "api_idempotency db2 (a, lit ''send'', k) = Some (h, p, n)" by (rule grows_key [OF g rec(1)])
  have enc: "utf8_encode a \<noteq> None" "utf8_encode k \<noteq> None" using keyed_success [OF assms(2)] by auto
  have "replay_idempotent a k h' (opened db2) =
    (if h = h' then (Inr (Some (m, False)), opened db2)
     else (Inl (IdempotencyConflictError (lit ''key reused with another request'')), opened db2))"
    using replay_run [OF ok2 rec2 enc refl, of h'] orig by simp
  then show ?thesis
    by (auto simp: store_message_idempotent_def with_connection_def or_rollback_def bindS_def run_simps
        rollback_def)
qed

end
