(* ===== verification/Store_Properties.thy ===== *)
theory Store_Properties
  imports Store_Logs
begin

text \<open>
  What the stores promise their clients: an invariant of every reachable database, atomic
  failures, complete and interleaving-proof synchronisation, stable conversation ordinals,
  exactly-once keyed submissions, and monotone delivery and read states.
\<close>

section \<open>A sample database\<close>

definition sample1 :: database where
  "sample1 = snd (store_message (PInt 7) (PStr (lit ''A1A'')) (PStr (lit ''B2B'')) (PStr (lit ''hi'')) (PInt 9)
     empty_database)"

definition sample2 :: database where
  "sample2 = snd (store_message (PInt 8) (PStr (lit ''A1A'')) (PStr (lit ''B2B'')) (PStr (lit ''yo'')) (PInt 9)
     sample1)"

lemma sample_steps: "store_steps empty_database sample1" "store_steps sample1 sample2"
  unfolding sample1_def sample2_def
  by (auto intro!: r_into_rtranclp store_step.message simp: prod_eq_iff)

lemma sample_ok: "stores_ok sample1" "stores_ok sample2"
  using sample_steps steps_ok empty_stores_ok by blast+

lemma empty_counts: "mailbox_last empty_database p = 0" "message_count empty_database = 0"
  by (simp_all add: mailbox_last_def empty_database_def message_count_def)

lemma empty_messages: "messages empty_database = []" "deliveries empty_database = []"
  "mailbox empty_database p = []"
  by (simp_all add: empty_database_def mailbox_def)

lemma lit_utf8: "ascii (lit s) \<Longrightarrow> utf8_encode (lit s) = Some (map byte_of (lit s))"
  by (rule utf8_encode_ascii)

lemma sample_ascii: "ascii (lit ''A1A'')" "ascii (lit ''B2B'')" "ascii (lit ''hi'')" "ascii (lit ''yo'')"
  by (simp_all add: ascii_def lit_def)

lemma sample_storable: "storable 7 (lit ''A1A'') (lit ''B2B'') (lit ''hi'')"
  "storable 8 (lit ''A1A'') (lit ''B2B'') (lit ''yo'')"
  using sample_ascii by (simp_all add: storable_def lit_utf8)

lemma sample1_run: "sample1 = accept 7 (lit ''A1A'') (lit ''B2B'') (body_bytes (lit ''hi'')) 9 empty_database"
  using store_message_run [OF _ sample_storable(1), of empty_database 9] empty_ok
  by (simp add: sample1_def empty_counts db_ok_def)

lemma sample2_run: "sample2 = accept 8 (lit ''A1A'') (lit ''B2B'') (body_bytes (lit ''yo'')) 9 sample1"
  using store_message_run [OF _ sample_storable(2), of sample1 9] sample_ok(1)
  by (simp add: sample2_def stores_ok_def db_ok_def) (simp add: sample1_run empty_counts)

lemma sample_counts: "mailbox_last sample1 (lit ''B2B'') = 1" "mailbox_last sample2 (lit ''B2B'') = 2"
  by (simp_all add: sample1_run sample2_run empty_counts)

section \<open>Properties\<close>

text \<open>C3. Every database the stores can produce from an empty one, whatever the arguments and
  the outcomes of their operations, is well formed: rows are well typed, mailbox sequences and
  API sequences are dense from 1, high-water marks agree with the rows, and every idempotency
  record, delivery and read cursor refers to stored messages.\<close>

theorem stores_reachable_ok:
  assumes "store_steps empty_database db" shows "stores_ok db"
  using steps_ok [OF assms empty_stores_ok] .

theorem stores_reachable_ok_witness: "stores_ok sample1"
  by (rule stores_reachable_ok [OF sample_steps(1)])

text \<open>C4. Storing a valid message in a well-formed database returns the next number of the
  recipient's mailbox and appends exactly one row, with the next API number; the other
  mailboxes keep their rows.\<close>

theorem store_message_appends:
  assumes "stores_ok db" "storable created author recipient body" "message_count db + 1 < 2 ^ 63"
    "mailbox_last db recipient < MAX_U32" "0 \<le> t" "t \<le> MAX_SQLITE_INTEGER"
  shows "\<exists>db' row. store_message (PInt created) (PStr author) (PStr recipient) (PStr body) (PInt t) db
      = (Inr (mailbox_last db recipient + 1), db')
    \<and> messages db' = messages db @ [row] \<and> mailbox_last db' recipient = mailbox_last db recipient + 1
    \<and> stored_message_of row True = Inr
        \<lparr>st_sequence = mailbox_last db recipient + 1, st_created_at = created, st_accepted_at = t,
         st_author = author, st_recipient = recipient, st_body = body,
         st_api_sequence = message_count db + 1\<rparr> \<and> stores_ok db'"
proof -
  have m: "messages_ok db" "db_ok db" using assms(1) by (auto simp: stores_ok_def db_ok_def)
  let ?row = "accepted_row created author recipient (body_bytes body) t db"
  obtain bs where bs: "utf8_encode body = Some bs" using assms(2) by (auto simp: storable_def)
  have a: "acceptable created author recipient (body_bytes body) t"
    by (rule storable_acceptable [OF assms(2,5,6)])
  have "stored_message_of ?row True = Inr (view True ?row)"
    by (rule stored_message_of_ok [OF accepted_well_typed [OF m(1) a assms(4)]])
  moreover have "st_body (view True ?row) = body"
    using utf8_decode_encode [OF bs] bs by (simp add: view_def accepted_row_def)
  moreover have "stores_ok (accept created author recipient (body_bytes body) t db)"
    using accept_db_ok [OF m(2) a assms(4)] assms(1)
    by (simp add: stores_ok_def bulletins_ok_frame [of "accept _ _ _ _ _ _" db])
  ultimately show ?thesis
    by (intro exI [of _ "accept created author recipient (body_bytes body) t db"] exI [of _ ?row] conjI
        store_message_run [OF m(1) assms(2-6)]) (simp_all add: view_def accepted_row_def)
qed

theorem store_message_appends_witness:
  "\<exists>db' row. store_message (PInt 8) (PStr (lit ''A1A'')) (PStr (lit ''B2B'')) (PStr (lit ''yo'')) (PInt 9) sample1
      = (Inr (mailbox_last sample1 (lit ''B2B'') + 1), db')
    \<and> messages db' = messages sample1 @ [row]
    \<and> mailbox_last db' (lit ''B2B'') = mailbox_last sample1 (lit ''B2B'') + 1
    \<and> stored_message_of row True = Inr
        \<lparr>st_sequence = mailbox_last sample1 (lit ''B2B'') + 1, st_created_at = 8, st_accepted_at = 9,
         st_author = lit ''A1A'', st_recipient = lit ''B2B'', st_body = lit ''yo'',
         st_api_sequence = message_count sample1 + 1\<rparr> \<and> stores_ok db'"
  by (rule store_message_appends [OF sample_ok(1) sample_storable(2)])
    (simp_all add: sample_counts, simp add: sample1_run empty_counts)

text \<open>C5. Failures are atomic: when a storing operation raises, whatever its arguments, the
  committed database is the one before the call; a rejected delivery transition changes
  nothing either.\<close>

theorem store_failures_atomic:
  assumes "stores_ok db"
  shows "(case store_message created author recipient body clock db of (Inl e, db') \<Rightarrow> db' = db | _ \<Rightarrow> True)
    \<and> (case store_message_idempotent created' author' recipient' body' key h clock db of
         (Inl e, db') \<Rightarrow> db' = db | _ \<Rightarrow> True)
    \<and> (case store_bulletin created author title body clock db of (Inl e, db') \<Rightarrow> db' = db | _ \<Rightarrow> True)
    \<and> (case advance_conversation_read owner peer db of (Inl e, db') \<Rightarrow> db' = db | _ \<Rightarrow> True)
    \<and> (case set_delivery p n tr st t db of (Inl e, db') \<Rightarrow> db' = db | (Inr ch, db') \<Rightarrow> ch \<or> db' = db)"
proof (intro conjI)
  have ok: "db_ok db" using assms by (simp add: stores_ok_def)
  show "case store_message created author recipient body clock db of (Inl e, db') \<Rightarrow> db' = db | _ \<Rightarrow> True"
    using store_message_error by (auto split: prod.splits sum.splits)
  show "case store_bulletin created author title body clock db of (Inl e, db') \<Rightarrow> db' = db | _ \<Rightarrow> True"
    using store_bulletin_error by (auto split: prod.splits sum.splits)
  show "case store_message_idempotent created' author' recipient' body' key h clock db of
      (Inl e, db') \<Rightarrow> db' = db | _ \<Rightarrow> True"
  proof (cases "store_message_idempotent created' author' recipient' body' key h clock db")
    case (Pair r db')
    from ok Pair have "case r of Inl e \<Rightarrow> db' = db | _ \<Rightarrow> True"
      by (cases rule: store_idempotent_cases) simp_all
    then show ?thesis by (simp add: Pair)
  qed
  show "case advance_conversation_read owner peer db of (Inl e, db') \<Rightarrow> db' = db | _ \<Rightarrow> True"
    using advance_run [OF ok, of owner peer] by simp
  show "case set_delivery p n tr st t db of (Inl e, db') \<Rightarrow> db' = db | (Inr ch, db') \<Rightarrow> ch \<or> db' = db"
    using set_delivery_outcome [OF ok, of p n tr st t] by (auto split: prod.splits sum.splits if_splits)
qed

theorem store_failures_atomic_witness:
  "(case store_message PNone PNone PNone PNone PNone sample1 of (Inl e, db') \<Rightarrow> db' = sample1 | _ \<Rightarrow> True)
    \<and> (case store_message_idempotent 0 [] [] [] None [] PNone sample1 of
         (Inl e, db') \<Rightarrow> db' = sample1 | _ \<Rightarrow> True)
    \<and> (case store_bulletin PNone PNone PNone PNone PNone sample1 of (Inl e, db') \<Rightarrow> db' = sample1 | _ \<Rightarrow> True)
    \<and> (case advance_conversation_read [] [] sample1 of (Inl e, db') \<Rightarrow> db' = sample1 | _ \<Rightarrow> True)
    \<and> (case set_delivery [] 0 [] [] None sample1 of
         (Inl e, db') \<Rightarrow> db' = sample1 | (Inr ch, db') \<Rightarrow> ch \<or> db' = sample1)"
  by (rule store_failures_atomic [OF sample_ok(1)])

text \<open>Synchronising a mailbox page by page, from any valid cursor and with any page size,
  returns exactly the messages after the cursor, each once and in order, and ends at a cursor
  with nothing after it.\<close>

theorem mailbox_sync_complete:
  assumes "stores_ok db" "utf8_encode p \<noteq> None" "0 \<le> since" "since \<le> mailbox_last db p" "1 \<le> limit"
    "limit \<le> 20" "length (mailbox db p) < fuel"
  shows "\<exists>c. sync_loop (\<lambda>n. mailbox_fetch p db n limit) fuel since
      = Some (Inr (filter (\<lambda>m. since < st_sequence m) (mailbox_log p db), c))
    \<and> filter (\<lambda>m. c < st_sequence m) (mailbox_log p db) = []"
proof (rule mb.sync_complete)
  show "length (filter (\<lambda>m. since < st_sequence m) (mailbox_log p db)) < fuel"
    using assms(7) length_filter_le [of "\<lambda>m. since < st_sequence m" "mailbox_log p db"]
    unfolding mailbox_log_def length_map by linarith
qed (use assms in \<open>simp_all add: addressed_def\<close>)

theorem mailbox_sync_complete_witness:
  "\<exists>c. sync_loop (\<lambda>n. mailbox_fetch (lit ''B2B'') sample2 n 1) 3 0
      = Some (Inr (filter (\<lambda>m. 0 < st_sequence m) (mailbox_log (lit ''B2B'') sample2), c))
    \<and> filter (\<lambda>m. c < st_sequence m) (mailbox_log (lit ''B2B'') sample2) = []"
  by (rule mailbox_sync_complete [OF sample_ok(2)])
    (simp_all add: sample_counts lit_utf8 sample_ascii,
     simp add: sample2_run sample1_run, simp add: empty_database_def mailbox_def)

text \<open>C6. Pages read at different times, with any operations of the stores in between, never lose
  or repeat a message: together they are exactly the messages of the final mailbox between the
  first cursor and the last.\<close>

theorem mailbox_pages_interleaved:
  assumes "stores_ok db" "utf8_encode p \<noteq> None" "chained store_steps (db # dbs)" "0 \<le> since"
    "since \<le> mailbox_last db p" "1 \<le> limit" "limit \<le> 20"
  shows "\<exists>items c. read_pages (\<lambda>db n. mailbox_fetch p db n limit) (db # dbs) since = Inr (items, c)
    \<and> since \<le> c \<and> c \<le> mailbox_last (last (db # dbs)) p
    \<and> items = filter (\<lambda>m. since < st_sequence m \<and> st_sequence m \<le> c) (mailbox_log p (last (db # dbs)))"
  by (rule mb.interleaved_pages) (use assms in \<open>simp_all add: addressed_def\<close>)

theorem mailbox_pages_interleaved_witness:
  "\<exists>items c. read_pages (\<lambda>db n. mailbox_fetch (lit ''B2B'') db n 5) [sample1, sample2] 0 = Inr (items, c)
    \<and> 0 \<le> c \<and> c \<le> mailbox_last (last [sample1, sample2]) (lit ''B2B'')
    \<and> items = filter (\<lambda>m. 0 < st_sequence m \<and> st_sequence m \<le> c)
        (mailbox_log (lit ''B2B'') (last [sample1, sample2]))"
  by (rule mailbox_pages_interleaved [OF sample_ok(1)])
    (simp_all add: sample_counts lit_utf8 sample_ascii sample_steps)

text \<open>The same for bulletins: whatever is published between two pages, the pages together
  are exactly the headers between the first cursor and the last.\<close>

theorem bulletin_pages_interleaved:
  assumes "stores_ok db" "chained store_steps (db # dbs)" "0 \<le> since" "since \<le> bulletin_count db"
    "1 \<le> limit" "limit \<le> 20"
  shows "\<exists>items c. read_pages (\<lambda>db n. bulletin_fetch db n limit) (db # dbs) since = Inr (items, c)
    \<and> since \<le> c \<and> c \<le> bulletin_count (last (db # dbs))
    \<and> items = filter (\<lambda>h. since < sbh_sequence h \<and> sbh_sequence h \<le> c) (bulletin_log (last (db # dbs)))"
  by (rule bl.interleaved_pages [OF assms])

theorem bulletin_pages_interleaved_witness:
  "\<exists>items c. read_pages (\<lambda>db n. bulletin_fetch db n 2) [sample1, sample2] 0 = Inr (items, c)
    \<and> 0 \<le> c \<and> c \<le> bulletin_count (last [sample1, sample2])
    \<and> items = filter (\<lambda>h. 0 < sbh_sequence h \<and> sbh_sequence h \<le> c) (bulletin_log (last [sample1, sample2]))"
  by (rule bulletin_pages_interleaved [OF sample_ok(1)])
    (simp_all add: sample_steps bulletin_count_def)

text \<open>The API's list of messages, with or without a peer filter, is complete in the same
  way: following its pages returns every visible message after the cursor once, in API order.\<close>

theorem api_list_complete:
  assumes "stores_ok db" "message_count db < 2 ^ 63" "utf8_encode callsign \<noteq> None"
    "case peer of None \<Rightarrow> True | Some p \<Rightarrow> utf8_encode p \<noteq> None"
    "0 \<le> after" "after \<le> message_count db" "1 \<le> limit" "limit \<le> 200" "length (messages db) < fuel"
  shows "\<exists>c. sync_loop (\<lambda>n. api_fetch callsign peer db n limit) fuel after
      = Some (Inr (filter (\<lambda>m. after < st_api_sequence m) (api_log callsign peer db), c))
    \<and> filter (\<lambda>m. c < st_api_sequence m) (api_log callsign peer db) = []"
proof (rule al.sync_complete)
  have "length (api_log callsign peer db) \<le> length (messages db)" by (simp add: api_log_def)
  then show "length (filter (\<lambda>m. after < st_api_sequence m) (api_log callsign peer db)) < fuel"
    using assms(9) length_filter_le [of "\<lambda>m. after < st_api_sequence m" "api_log callsign peer db"]
    by linarith
qed (use assms in \<open>simp_all add: api_reader_def\<close>)

theorem api_list_complete_witness:
  "\<exists>c. sync_loop (\<lambda>n. api_fetch (lit ''A1A'') None sample2 n 1) 3 1
      = Some (Inr (filter (\<lambda>m. 1 < st_api_sequence m) (api_log (lit ''A1A'') None sample2), c))
    \<and> filter (\<lambda>m. c < st_api_sequence m) (api_log (lit ''A1A'') None sample2) = []"
  by (rule api_list_complete [OF sample_ok(2)])
    (simp_all add: lit_utf8 sample_ascii sample2_run sample1_run empty_counts,
     simp_all add: empty_database_def)

text \<open>C7. Keyed submissions take effect at most once: once a request with an idempotency key has
  succeeded, then whatever happens in between, submitting the key again returns the original
  message and stores nothing if the request hash is the same, and is refused if it is not.\<close>

theorem idempotent_replay:
  assumes "stores_ok db" "store_message_idempotent c a r b (Some k) h clock db = (Inr (m, fresh), db1)"
    "store_steps db1 db2"
  shows "store_message_idempotent c' a r' b' (Some k) h' clock' db2 =
    (if h' = h then Inr (m, False)
     else Inl (IdempotencyConflictError (lit ''key reused with another request'')), db2)"
  by (rule keyed_replay [OF assms])

definition sample3 :: database where
  "sample3 = snd (store_message_idempotent 5 (lit ''A1A'') (lit ''B2B'') (lit ''hi'') (Some (lit ''k1''))
     (lit ''h'') (PInt 9) sample1)"

lemma sample3_run: "\<exists>m. store_message_idempotent 5 (lit ''A1A'') (lit ''B2B'') (lit ''hi'') (Some (lit ''k1''))
     (lit ''h'') (PInt 9) sample1 = (Inr (m, True), sample3)"
proof -
  have key: "key_fresh (Some (lit ''k1'')) (lit ''h'') (lit ''A1A'') sample1"
    by (simp add: key_fresh_def sample1_run) (simp add: utf8_char_def lit_def empty_database_def)
  have none: "replay_idempotent (lit ''A1A'') (lit ''k1'') (lit ''h'') (opened sample1) = (Inr None, opened sample1)"
    using key by (simp add: replay_idempotent_def bindS_liftE sql_simps key_fresh_def)
      (simp add: bind_texts.simps bind_text_def lit_utf8 sample_ascii sql_simps)
  have st: "storable 5 (lit ''A1A'') (lit ''B2B'') (lit ''hi'')" using sample_storable(1) by (simp add: storable_def)
  have m: "messages_ok sample1" using sample_ok(1) by (simp add: stores_ok_def db_ok_def)
  have c: "message_count sample1 + 1 < 2 ^ 63" "mailbox_last sample1 (lit ''B2B'') < MAX_U32"
    by (simp_all add: sample1_run empty_counts)
  have wt: "well_typed (accepted_row 5 (lit ''A1A'') (lit ''B2B'') (body_bytes (lit ''hi'')) 9 sample1)"
    by (rule accepted_well_typed [OF m storable_acceptable [OF st] c(2)]) simp_all
  show ?thesis
    using insert_idempotent_run [OF m st c(1) c(2) _ _ key, of 9 "opened sample1"] none wt
    by (simp add: sample3_def store_message_idempotent_def with_connection_def or_rollback_def bindS_def
        run_simps store_new_idempotent_def optional_message_def stored_message_of_ok)
qed

theorem idempotent_replay_witness:
  "\<exists>m. store_message_idempotent 6 (lit ''A1A'') [] [] (Some (lit ''k1'')) (lit ''x'') PNone sample3 =
    (if lit ''x'' = lit ''h'' then Inr (m, False)
     else Inl (IdempotencyConflictError (lit ''key reused with another request'')), sample3)"
  using sample3_run idempotent_replay [OF sample_ok(1) _ rtranclp.rtrancl_refl] by blast

lemma message_lookup_stays:
  assumes "stores_ok db" "store_steps db db'" "get_message p n db = Inr (Some m)"
  shows "get_message p n db' = Inr (Some m)"
proof -
  from assms(3) obtain row where row: "find_message db p n = Some row" "stored_message_of row True = Inr m"
    "bind_text p = Inr ()" "bind_int n = Inr ()"
    by (auto simp: get_message_def bindE_eq_Inr split: option.splits)
  then show ?thesis using grows_find [OF steps_grow [OF assms(2,1)] row(1)]
    by (simp add: get_message_def del: bind_text_Inr bind_int_Inr)
qed

text \<open>Conversation numbers are a stable one-based index: the message that a lookup by
  number returns has that number, then and in every later database, and the lookup by that number
  keeps returning it.\<close>

theorem conversation_numbers:
  assumes "stores_ok db" "get_conversation_message (PStr r) (PStr a) (PInt n) db = Inr (Some m)"
    "store_steps db db'"
  shows "conversation_sequence m db' = Inr n \<and> st_recipient m = r \<and> st_author m = a
    \<and> get_conversation_message (PStr r) (PStr a) (PInt n) db' = Inr (Some m)"
proof -
  have m: "messages_ok db" "messages_ok db'"
    using steps_ok [OF assms(3,1)] assms(1) by (auto simp: stores_ok_def db_ok_def)
  have args: "utf8_encode r \<noteq> None" "utf8_encode a \<noteq> None" "1 \<le> n" "n \<le> MAX_U32"
    using assms(2) by (auto simp: get_conversation_message_def bindE_eq_Inr split: if_splits)
  define i where "i = nat (n - 1)"
  have n: "n = int i + 1" using args(3) by (simp add: i_def)
  have i: "i < length (incoming db r a)" "m = view True (incoming db r a ! i)"
    using assms(2) get_conversation_message_run [OF m(1) args] by (auto simp: n split: if_splits)
  obtain xs where "incoming db' r a = incoming db r a @ xs"
    using grows_incoming [OF steps_grow [OF assms(3,1)]] by blast
  then have i': "i < length (incoming db' r a)" "m = view True (incoming db' r a ! i)"
    using i by (auto simp: nth_append)
  then show ?thesis
    using conversation_sequence_run [OF m(2) args(1,2) i'(1)] get_conversation_message_run [OF m(2) args]
      incoming_sub [OF nth_mem [OF i'(1)]] by (simp add: n)
qed

definition greeting :: stored_message where
  "greeting = \<lparr>st_sequence = 1, st_created_at = 7, st_accepted_at = 9, st_author = lit ''A1A'',
     st_recipient = lit ''B2B'', st_body = lit ''hi'', st_api_sequence = 1\<rparr>"

lemma sample1_row: "find_message sample1 (lit ''B2B'') 1 = Some
    (accepted_row 7 (lit ''A1A'') (lit ''B2B'') (body_bytes (lit ''hi'')) 9 empty_database)"
  by (simp add: find_message_def sample1_run empty_counts empty_messages)

lemma sample1_view:
  "view True (accepted_row 7 (lit ''A1A'') (lit ''B2B'') (body_bytes (lit ''hi'')) 9 empty_database) = greeting"
  using utf8_decode_encode [of "lit ''hi''"]
  by (simp add: view_def accepted_row_def greeting_def lit_utf8 sample_ascii empty_counts)

lemma sample1_get: "get_message (lit ''B2B'') 1 sample1 = Inr (Some greeting)"
proof -
  let ?row = "accepted_row 7 (lit ''A1A'') (lit ''B2B'') (body_bytes (lit ''hi'')) 9 empty_database"
  have "well_typed ?row"
    by (rule accepted_well_typed [OF _ storable_acceptable [OF sample_storable(1)]])
      (use empty_ok in \<open>simp_all add: db_ok_def empty_counts\<close>)
  moreover have "bind_text (lit ''B2B'') = Inr ()" "bind_int 1 = Inr ()"
    by (simp_all add: lit_utf8 sample_ascii)
  ultimately show ?thesis
    by (simp add: get_message_def sample1_row stored_message_of_ok sample1_view del: bind_text_Inr bind_int_Inr)
qed

lemma sample1_conversation:
  "get_conversation_message (PStr (lit ''B2B'')) (PStr (lit ''A1A'')) (PInt 1) sample1 = Inr (Some greeting)"
proof -
  have "incoming sample1 (lit ''B2B'') (lit ''A1A'') =
      [accepted_row 7 (lit ''A1A'') (lit ''B2B'') (body_bytes (lit ''hi'')) 9 empty_database]"
    by (simp add: incoming_def sample1_run) (simp add: mailbox_def empty_database_def)
  moreover have "messages_ok sample1" using sample_ok(1) by (simp add: stores_ok_def db_ok_def)
  ultimately show ?thesis
    using get_conversation_message_run [of sample1 "lit ''B2B''" "lit ''A1A''" 1] sample1_view
    by (simp add: lit_utf8 sample_ascii)
qed

theorem conversation_numbers_witness:
  "conversation_sequence greeting sample2 = Inr 1 \<and> st_recipient greeting = lit ''B2B''
    \<and> st_author greeting = lit ''A1A''
    \<and> get_conversation_message (PStr (lit ''B2B'')) (PStr (lit ''A1A'')) (PInt 1) sample2
      = Inr (Some greeting)"
  by (rule conversation_numbers [OF sample_ok(1) sample1_conversation sample_steps(2)])

text \<open>C8. A stored message never changes: what a lookup by mailbox number returns, and what a lookup
  by conversation number returns, every later lookup by that number returns.\<close>

theorem messages_immutable:
  assumes "stores_ok db" "store_steps db db'"
  shows "(get_message p n db = Inr (Some m) \<longrightarrow> get_message p n db' = Inr (Some m))
    \<and> (get_conversation_message (PStr r) (PStr a) (PInt k) db = Inr (Some m)
        \<longrightarrow> get_conversation_message (PStr r) (PStr a) (PInt k) db' = Inr (Some m))"
  using message_lookup_stays [OF assms] conversation_numbers [OF assms(1) _ assms(2)] by blast

theorem messages_immutable_witness:
  "get_message (lit ''B2B'') 1 sample2 = Inr (Some greeting)
    \<and> get_conversation_message (PStr (lit ''B2B'')) (PStr (lit ''A1A'')) (PInt 1) sample2 = Inr (Some greeting)"
  using messages_immutable [OF sample_ok(1) sample_steps(2)] sample1_get sample1_conversation by blast

text \<open>C9. A delivery changes only as the transport's life cycle allows: the first status is
  recorded, delivered is final, a failed delivery is not delivered before a retry, the call
  reports exactly whether something changed, and other deliveries keep their state. Once
  delivered, later operations keep the status and its time.\<close>

theorem delivery_life_cycle:
  assumes "stores_ok db" "set_delivery p n tr st t db = (Inr changed, db')" "store_steps db' db''"
  shows "changed = (case delivery_status db p n tr of None \<Rightarrow> True
      | Some (old, _) \<Rightarrow> old \<noteq> lit ''delivered'' \<and> \<not> (old = lit ''failed'' \<and> st = lit ''delivered''))
    \<and> delivery_status db' p' n' tr' = (if changed \<and> (p', n', tr') = (p, n, tr) then Some (st, t)
        else delivery_status db p' n' tr')
    \<and> (if changed \<and> st = lit ''delivered'' then delivery_status db'' p n tr = Some (st, t) else True)"
proof -
  have ok: "db_ok db" using assms(1) by (simp add: stores_ok_def)
  note s = set_delivery_outcome [OF ok assms(2)]
  have "store_steps db db'" using store_step.delivery [OF assms(2)] by blast
  then have g: "grows db' db''" using steps_grow [OF assms(3)] steps_ok assms(1) by blast
  have c: "changed = delivery_allowed db p n tr st"
    "db' = (if changed then db\<lparr>deliveries := update_delivery p n tr st t (deliveries db)\<rparr> else db)"
    using s by auto
  have "changed = (case delivery_status db p n tr of None \<Rightarrow> True
      | Some (old, _) \<Rightarrow> old \<noteq> lit ''delivered'' \<and> \<not> (old = lit ''failed'' \<and> st = lit ''delivered''))"
    using c(1) by (simp add: delivery_allowed_def delivery_may_change_def split: option.splits)
  moreover have d: "delivery_status db' p' n' tr' =
      (if changed \<and> (p', n', tr') = (p, n, tr) then Some (st, t) else delivery_status db p' n' tr')" for p' n' tr'
    using c(2) by (auto simp: update_delivery_status)
  moreover have "delivery_status db'' p n tr = Some (st, t)" if "changed" "st = lit ''delivered''"
    using g d [of p n tr] that by (auto simp: grows_def)
  ultimately show ?thesis by simp
qed

lemma sample2_delivery: "\<exists>db'. set_delivery (lit ''B2B'') 1 (lit ''aprs'') (lit ''delivered'') (Some 9) sample2
    = (Inr True, db')"
proof -
  have e: "message_exists sample2 (lit ''B2B'') 1" by (simp add: sample2_run sample1_run empty_counts)
  have d: "deliveries sample2 = []" by (simp add: sample2_run sample1_run empty_database_def)
  have u: "bind_texts [lit ''aprs'', lit ''delivered''] = Inr ()" "bind_text (lit ''B2B'') = Inr ()"
      "bind_int 1 = Inr ()" "bind_int 9 = Inr ()"
    by (simp_all add: lit_utf8 sample_ascii) (simp add: utf8_char_def lit_def)
  show ?thesis
    by (simp add: set_delivery_def with_connection_def sql_simps u upsert_delivery_def d e
        delivery_statuses_def del: bind_text_Inr bind_int_Inr bind_texts_Inr)
qed

theorem delivery_life_cycle_witness:
  "\<exists>db'. True = (case delivery_status sample2 (lit ''B2B'') 1 (lit ''aprs'') of None \<Rightarrow> True
      | Some (old, _) \<Rightarrow> old \<noteq> lit ''delivered''
          \<and> \<not> (old = lit ''failed'' \<and> lit ''delivered'' = lit ''delivered''))
    \<and> delivery_status db' (lit ''B2B'') 2 (lit ''aprs'') =
        (if True \<and> (lit ''B2B'', 2 :: int, lit ''aprs'') = (lit ''B2B'', 1, lit ''aprs'')
         then Some (lit ''delivered'', Some 9) else delivery_status sample2 (lit ''B2B'') 2 (lit ''aprs''))
    \<and> (if True \<and> lit ''delivered'' = lit ''delivered''
       then delivery_status db' (lit ''B2B'') 1 (lit ''aprs'') = Some (lit ''delivered'', Some 9) else True)"
  using sample2_delivery delivery_life_cycle [OF sample_ok(2) _ rtranclp.rtrancl_refl] by blast

text \<open>Marking a conversation read moves the owner's cursor forward, never back, to at least
  the last incoming message, reports whether it moved, and leaves the conversation summary with
  no unread message.\<close>

theorem reading_clears_unread:
  assumes "stores_ok db" "advance_conversation_read owner peer db = (Inr (n, moved), db')"
    "conversations owner db' = Inr cs" "cv \<in> set cs" "cv_peer cv = SText peer"
  shows "cursor db owner peer \<le> n \<and> moved = (cursor db owner peer < n) \<and> messages db' = messages db
    \<and> cv_unread_count cv = 0 \<and> cv_last_read_sequence cv = n"
proof -
  have ok: "db_ok db" "messages_ok db" using assms(1) by (auto simp: stores_ok_def db_ok_def)
  have n: "n = max (cursor db owner peer) (last_incoming db owner peer)" "db' = move_cursor owner peer db"
      "moved = (cursor db owner peer < last_incoming db owner peer)"
    using advance_run [OF ok(1), of owner peer] assms(2) by (auto split: if_splits)
  have c: "read_cursor db' owner (SText peer) = n"
    using n by (simp add: read_cursor_def move_cursor_def)
  from assms(3) obtain row last_read unread where x: "(row, last_read, unread) \<in> set (conversation_rows owner db')"
      "cv_peer cv = peer_of owner row" "cv_unread_count cv = unread" "cv_last_read_sequence cv = last_read"
    using mapE_mem [OF _ assms(4)] by (fastforce simp: conversations_def bindE_eq_Inr)
  have row: "peer_of owner row = SText peer" using x(2) assms(5) by simp
  have u: "last_read = n" "unread = int (length (filter (\<lambda>r. mr_recipient r = SText owner
      \<and> mr_author r = SText peer \<and> n < mr_sequence r) (messages db')))"
    using x(1) row c by (auto simp: conversation_rows_def Let_def)
  have "\<not> n < mr_sequence r" if "r \<in> set (messages db)" "mr_recipient r = SText owner" "mr_author r = SText peer" for r
    using last_incoming_bounds(3) [OF ok(2), of r owner peer] that n(1)
    by (simp add: incoming_def mailbox_def max_def)
  then have "unread = 0" using u(2) n(2) by (auto simp: filter_empty_conv)
  then show ?thesis using n x u by auto
qed

lemma sample1_advance: "advance_conversation_read (lit ''B2B'') (lit ''A1A'') sample1 =
    (Inr (1, True), move_cursor (lit ''B2B'') (lit ''A1A'') sample1)"
proof -
  have "incoming sample1 (lit ''B2B'') (lit ''A1A'') =
      [accepted_row 7 (lit ''A1A'') (lit ''B2B'') (body_bytes (lit ''hi'')) 9 empty_database]"
    by (simp add: incoming_def sample1_run empty_messages)
  then have "last_incoming sample1 (lit ''B2B'') (lit ''A1A'') = 1"
    by (simp add: last_incoming_def max_sequence_def empty_counts)
  moreover have "cursor sample1 (lit ''B2B'') (lit ''A1A'') = 0"
    by (simp add: cursor_def sample1_run) (simp add: empty_database_def)
  ultimately show ?thesis
    using advance_run [of sample1 "lit ''B2B''" "lit ''A1A''"] sample_ok(1)
    by (simp add: stores_ok_def lit_utf8 sample_ascii)
qed

lemma sample1_conversations:
  "\<exists>u r. conversations (lit ''B2B'') (move_cursor (lit ''B2B'') (lit ''A1A'') sample1) =
    Inr [\<lparr>cv_peer = SText (lit ''A1A''), cv_last_message = greeting, cv_unread_count = u,
          cv_last_read_sequence = r\<rparr>]"
proof -
  let ?row = "accepted_row 7 (lit ''A1A'') (lit ''B2B'') (body_bytes (lit ''hi'')) 9 empty_database"
  have d: "lit ''A1A'' \<noteq> lit ''B2B''" by (simp add: lit_def)
  have "well_typed ?row"
    by (rule accepted_well_typed [OF _ storable_acceptable [OF sample_storable(1)]])
      (use empty_ok in \<open>simp_all add: db_ok_def empty_counts\<close>)
  then have s: "stored_message_of ?row True = Inr greeting" by (simp add: stored_message_of_ok sample1_view)
  have "messages (move_cursor (lit ''B2B'') (lit ''A1A'') sample1) = [?row]"
    by (simp add: sample1_run empty_messages)
  moreover have "bind_text (lit ''B2B'') = Inr ()" by (simp add: lit_utf8 sample_ascii)
  ultimately show ?thesis
    by (simp add: conversations_def conversation_rows_def Let_def visible_def peer_of_def d s del: bind_text_Inr)
qed

theorem reading_clears_unread_witness:
  "\<exists>cv :: conversation. cursor sample1 (lit ''B2B'') (lit ''A1A'') \<le> 1
    \<and> True = (cursor sample1 (lit ''B2B'') (lit ''A1A'') < 1)
    \<and> messages (move_cursor (lit ''B2B'') (lit ''A1A'') sample1) = messages sample1
    \<and> cv_unread_count cv = 0 \<and> cv_last_read_sequence cv = 1"
proof -
  obtain cv where c: "conversations (lit ''B2B'') (move_cursor (lit ''B2B'') (lit ''A1A'') sample1) = Inr [cv]"
      "cv_peer cv = SText (lit ''A1A'')"
    using sample1_conversations by force
  from reading_clears_unread [OF sample_ok(1) sample1_advance c(1) _ c(2)] show ?thesis
    by auto
qed

text \<open>On a well-formed database a valid page request either succeeds or names a cursor ahead
  of the mailbox, which is refused; no integrity error is reported and nothing changes.\<close>

theorem page_request_outcome:
  assumes "stores_ok db" "utf8_encode p \<noteq> None" "0 \<le> since" "since \<le> MAX_U32" "1 \<le> limit" "limit \<le> 20"
  shows "(if since \<le> mailbox_last db p
     then \<exists>page. get_new_messages (PStr p) (PInt since) (PInt limit) db = (Inr page, db)
     else get_new_messages (PStr p) (PInt since) (PInt limit) db =
       (Inl (InvalidCursorError (lit ''message cursor '' @ dec since @
          lit '' is ahead of mailbox high-water '' @ dec (mailbox_last db p))), db))"
proof (cases "since \<le> mailbox_last db p")
  case True
  have m: "messages_ok db" using assms(1) by (simp add: stores_ok_def db_ok_def)
  obtain items nxt mr where "page_of st_sequence (map (view False) (mailbox db p)) since (nat limit) = (items, nxt, mr)"
    by (metis prod_cases3)
  from get_new_messages_page [OF m assms(2,3) True _ _ this] assms(5,6) show ?thesis using True by simp
next
  case False
  have m: "messages_ok db" using assms(1) by (simp add: stores_ok_def db_ok_def)
  have "bind_text p = Inr ()" using assms(2) by simp
  then show ?thesis using False assms mailbox_highest_ok [OF m, of p]
    by (simp add: get_new_messages_def validators_ok with_connection_def or_rollback_def
        get_new_messages_tx_def sql_simps rollback_def del: bind_text_Inr)
qed

theorem page_request_outcome_witness:
  "(if (2 :: int) \<le> mailbox_last sample1 (lit ''B2B'')
     then \<exists>page. get_new_messages (PStr (lit ''B2B'')) (PInt 2) (PInt 5) sample1 = (Inr page, sample1)
     else get_new_messages (PStr (lit ''B2B'')) (PInt 2) (PInt 5) sample1 =
       (Inl (InvalidCursorError (lit ''message cursor '' @ dec 2 @
          lit '' is ahead of mailbox high-water '' @ dec (mailbox_last sample1 (lit ''B2B'')))), sample1))"
  by (rule page_request_outcome [OF sample_ok(1)]) (simp_all add: lit_utf8 sample_ascii)

end
