(* ===== verification/Presence.thy ===== *)
theory Presence
  imports Field_Codec
begin

text \<open>
  \<open>server/presence.py\<close>: one authoritative route per user, and the router that picks it. The
  registry is a map from callsigns to routes; the clock's answer and the identifiers are
  arguments. A route that is reported closed is removed only while it is still the current one.
\<close>

datatype active_transport = WEBSOCKET | APRS

record user_presence =
  up_callsign :: pystr
  up_active_transport :: active_transport
  up_updated_at :: rat
  up_session_id :: "pystr option"
  up_aprs_endpoint :: "pystr option"

type_synonym presence = "pystr \<rightharpoonup> user_presence"

abbreviation the_callsign :: "pystr \<Rightarrow> pystr result" where
  "the_callsign callsign \<equiv> validate_callsign (PStr callsign) (lit ''callsign'')"

definition presence_get :: "pystr \<Rightarrow> presence \<Rightarrow> user_presence option result" where
  "presence_get callsign users = bindE (the_callsign callsign) (\<lambda>callsign. Inr (users callsign))"

definition set_websocket :: "pystr \<Rightarrow> pystr \<Rightarrow> rat \<Rightarrow> presence \<Rightarrow> (user_presence \<times> presence) result" where
  "set_websocket callsign session_id now users =
     bindE (the_callsign callsign) (\<lambda>callsign.
     if session_id = [] then Inl (ValueError (lit ''session_id is required''))
     else (let value = \<lparr>up_callsign = callsign, up_active_transport = WEBSOCKET, up_updated_at = now,
                        up_session_id = Some session_id, up_aprs_endpoint = None\<rparr>
           in Inr (value, users(callsign \<mapsto> value))))"

definition set_aprs :: "pystr \<Rightarrow> pystr \<Rightarrow> rat \<Rightarrow> presence \<Rightarrow> (user_presence \<times> presence) result" where
  "set_aprs callsign endpoint now users =
     bindE (the_callsign callsign) (\<lambda>callsign.
     if endpoint = [] then Inl (ValueError (lit ''APRS endpoint is required''))
     else (let value = \<lparr>up_callsign = callsign, up_active_transport = APRS, up_updated_at = now,
                        up_session_id = None, up_aprs_endpoint = Some endpoint\<rparr>
           in Inr (value, users(callsign \<mapsto> value))))"

definition presence_clear :: "pystr \<Rightarrow> presence \<Rightarrow> (bool \<times> presence) result" where
  "presence_clear callsign users =
     bindE (the_callsign callsign) (\<lambda>callsign.
       Inr (users callsign \<noteq> None, users(callsign := None)))"

definition clear_websocket :: "pystr \<Rightarrow> pystr \<Rightarrow> presence \<Rightarrow> (bool \<times> presence) result" where
  "clear_websocket callsign session_id users =
     bindE (the_callsign callsign) (\<lambda>callsign.
     case users callsign of
       None \<Rightarrow> Inr (False, users)
     | Some current \<Rightarrow>
         if up_active_transport current \<noteq> WEBSOCKET \<or> up_session_id current \<noteq> Some session_id
         then Inr (False, users)
         else Inr (True, users(callsign := None)))"

definition clear_aprs :: "pystr \<Rightarrow> pystr \<Rightarrow> presence \<Rightarrow> (bool \<times> presence) result" where
  "clear_aprs callsign endpoint users =
     bindE (the_callsign callsign) (\<lambda>callsign.
     case users callsign of
       None \<Rightarrow> Inr (False, users)
     | Some current \<Rightarrow>
         if up_active_transport current \<noteq> APRS \<or> up_aprs_endpoint current \<noteq> Some endpoint
         then Inr (False, users)
         else Inr (True, users(callsign := None)))"

section \<open>Routing\<close>

text \<open>The router's callbacks are present or not; a call of one is recorded as a push.\<close>

record router =
  rt_presence :: presence
  rt_websocket_delivery :: bool
  rt_aprs_delivery :: bool

datatype push = WebsocketPush protocol_object pystr | AprsPush protocol_object pystr

definition route :: "protocol_object \<Rightarrow> router \<Rightarrow> (active_transport option \<times> push list) result" where
  "route message rt =
     bindE (presence_get (m_recipient message) (rt_presence rt)) (\<lambda>current.
     case current of
       None \<Rightarrow> Inr (None, [])
     | Some current \<Rightarrow>
         if up_active_transport current = WEBSOCKET
         then Inr (Some WEBSOCKET,
                (case (rt_websocket_delivery rt, up_session_id current) of
                   (True, Some session_id) \<Rightarrow> [WebsocketPush message session_id]
                 | _ \<Rightarrow> []))
         else Inr (Some APRS,
                (case (rt_aprs_delivery rt, up_aprs_endpoint current) of
                   (True, Some endpoint) \<Rightarrow> [AprsPush message endpoint]
                 | _ \<Rightarrow> [])))"

section \<open>The registry's invariant and laws\<close>

text \<open>A route carries the callsign it is filed under and exactly the address of its transport.\<close>

definition route_ok :: "pystr \<Rightarrow> user_presence \<Rightarrow> bool" where
  "route_ok callsign u \<longleftrightarrow> callsign_ok callsign \<and> up_callsign u = callsign \<and>
     (case up_active_transport u of
        WEBSOCKET \<Rightarrow> (\<exists>s. up_session_id u = Some s \<and> s \<noteq> []) \<and> up_aprs_endpoint u = None
      | APRS \<Rightarrow> (\<exists>e. up_aprs_endpoint u = Some e \<and> e \<noteq> []) \<and> up_session_id u = None)"

definition presence_ok :: "presence \<Rightarrow> bool" where
  "presence_ok users \<longleftrightarrow> (\<forall>c u. users c = Some u \<longrightarrow> route_ok c u)"

datatype presence_call = SetWebsocket pystr pystr rat | SetAprs pystr pystr rat | Clear pystr
  | ClearWebsocket pystr pystr | ClearAprs pystr pystr

text \<open>One call on the registry; a call that raises leaves it as it is.\<close>

definition after :: "presence \<Rightarrow> ('a \<times> presence) result \<Rightarrow> presence" where
  "after users m = (case m of Inl _ \<Rightarrow> users | Inr (_, users') \<Rightarrow> users')"

fun presence_step :: "presence_call \<Rightarrow> presence \<Rightarrow> presence" where
  "presence_step (SetWebsocket c s t) users = after users (set_websocket c s t users)"
| "presence_step (SetAprs c e t) users = after users (set_aprs c e t users)"
| "presence_step (Clear c) users = after users (presence_clear c users)"
| "presence_step (ClearWebsocket c s) users = after users (clear_websocket c s users)"
| "presence_step (ClearAprs c e) users = after users (clear_aprs c e users)"

fun call_callsign :: "presence_call \<Rightarrow> pystr" where
  "call_callsign (SetWebsocket c _ _) = c"
| "call_callsign (SetAprs c _ _) = c"
| "call_callsign (Clear c) = c"
| "call_callsign (ClearWebsocket c _) = c"
| "call_callsign (ClearAprs c _) = c"

lemmas presence_defs = after_def set_websocket_def set_aprs_def presence_clear_def clear_websocket_def
  clear_aprs_def presence_get_def

lemma the_callsign_cases:
  obtains e where "the_callsign c = Inl e" | "the_callsign c = Inr c" "callsign_ok c"
  by (cases "the_callsign c") (auto simp: validate_callsign_Inr)

lemma presence_step_ok: "presence_ok users \<Longrightarrow> presence_ok (presence_step call users)"
proof -
  assume ok: "presence_ok users"
  show ?thesis
    by (cases "call_callsign call" rule: the_callsign_cases; cases call)
      (use ok in \<open>auto simp: presence_defs presence_ok_def route_ok_def Let_def split: option.splits\<close>)
qed

lemma presence_step_other: "c \<noteq> call_callsign call \<Longrightarrow> presence_step call users c = users c"
  by (cases "call_callsign call" rule: the_callsign_cases; cases call)
    (auto simp: presence_defs Let_def split: option.splits)

lemma presence_run_ok: "presence_ok users \<Longrightarrow> presence_ok (fold presence_step calls users)"
  by (induction calls arbitrary: users) (auto intro: presence_step_ok)

section \<open>Properties\<close>

text \<open>C10. Whatever calls are made on the registry, every route is filed under its own valid
  callsign with exactly one address; a call for one user never touches another's route; and
  closing a session or an endpoint removes the user's route exactly when that session or endpoint
  is still the current one.\<close>

theorem presence_authoritative:
  assumes "users = fold presence_step calls Map.empty" "callsign_ok c"
  shows "presence_ok users \<and> (if d = call_callsign call then True else presence_step call users d = users d)
    \<and> clear_websocket c s users = Inr (if map_option up_session_id (users c) = Some (Some s)
        then (True, users(c := None)) else (False, users))
    \<and> clear_aprs c e users = Inr (if map_option up_aprs_endpoint (users c) = Some (Some e)
        then (True, users(c := None)) else (False, users))"
proof -
  have ok: "presence_ok users" unfolding assms(1) by (rule presence_run_ok) (simp add: presence_ok_def)
  have v: "the_callsign c = Inr c" using assms(2) by (simp add: validate_callsign_Inr)
  have r: "users c = Some u \<Longrightarrow> route_ok c u" for u using ok by (simp add: presence_ok_def)
  have "clear_websocket c s users = Inr (if map_option up_session_id (users c) = Some (Some s)
        then (True, users(c := None)) else (False, users))"
    using v r by (cases "users c") (auto simp: clear_websocket_def route_ok_def split: active_transport.splits)
  moreover have "clear_aprs c e users = Inr (if map_option up_aprs_endpoint (users c) = Some (Some e)
        then (True, users(c := None)) else (False, users))"
    using v r by (cases "users c") (auto simp: clear_aprs_def route_ok_def split: active_transport.splits)
  ultimately show ?thesis using ok presence_step_other by simp
qed

theorem presence_authoritative_witness:
  "\<exists>users. presence_ok users
    \<and> (if lit ''K2K'' = call_callsign (Clear (lit ''A1A'')) then True
       else presence_step (Clear (lit ''A1A'')) users (lit ''K2K'') = users (lit ''K2K''))
    \<and> clear_websocket (lit ''A1A'') (lit ''s1'') users = Inr (if map_option up_session_id (users (lit ''A1A''))
          = Some (Some (lit ''s1'')) then (True, users(lit ''A1A'' := None)) else (False, users))
    \<and> clear_aprs (lit ''A1A'') (lit ''e'') users = Inr (if map_option up_aprs_endpoint (users (lit ''A1A''))
          = Some (Some (lit ''e'')) then (True, users(lit ''A1A'' := None)) else (False, users))"
proof -
  have "callsign_ok (lit ''A1A'')" by (simp add: callsign_ok_def lit_def is_digit_def is_upper_def)
  from presence_authoritative [OF refl this] show ?thesis by blast
qed

text \<open>A message is pushed to at most one place: the session or endpoint of the recipient's
  current route, on that route's transport, and nowhere when the recipient has no route.\<close>

theorem route_exactly_one:
  assumes "presence_ok (rt_presence rt)" "callsign_ok (m_recipient message)"
  shows "\<exists>pushes. route message rt =
      Inr (map_option up_active_transport (rt_presence rt (m_recipient message)), pushes)
    \<and> pushes = (case rt_presence rt (m_recipient message) of
        None \<Rightarrow> []
      | Some u \<Rightarrow> (case up_active_transport u of
          WEBSOCKET \<Rightarrow> if rt_websocket_delivery rt then [WebsocketPush message (the (up_session_id u))] else []
        | APRS \<Rightarrow> if rt_aprs_delivery rt then [AprsPush message (the (up_aprs_endpoint u))] else []))"
proof (cases "rt_presence rt (m_recipient message)")
  case None
  then show ?thesis using assms(2) by (simp add: route_def presence_get_def validate_callsign_Inr bindE_eq_Inr)
next
  case (Some u)
  then have "route_ok (m_recipient message) u" using assms(1) by (simp add: presence_ok_def)
  then show ?thesis using assms(2) Some
    by (cases "up_active_transport u")
      (auto simp: route_def presence_get_def validate_callsign_Inr bindE_eq_Inr route_ok_def split: bool.splits)
qed

theorem route_exactly_one_witness:
  "\<exists>(rt :: router) message pushes. route message rt =
      Inr (map_option up_active_transport (rt_presence rt (m_recipient message)), pushes)
    \<and> pushes = [WebsocketPush message (lit ''s1'')]"
proof -
  let ?m = "Message 1 1 1 (lit ''K2K'') (lit ''A1A'') (lit ''hi'')"
  let ?u = "\<lparr>up_callsign = lit ''A1A'', up_active_transport = WEBSOCKET, up_updated_at = 0,
     up_session_id = Some (lit ''s1''), up_aprs_endpoint = None\<rparr>"
  let ?rt = "\<lparr>rt_presence = [lit ''A1A'' \<mapsto> ?u], rt_websocket_delivery = True, rt_aprs_delivery = True\<rparr>"
  have c: "callsign_ok (lit ''A1A'')" by (simp add: callsign_ok_def lit_def is_digit_def is_upper_def)
  then have "presence_ok (rt_presence ?rt)" by (simp add: presence_ok_def route_ok_def) (simp add: lit_def)
  from route_exactly_one [OF this, of ?m] c
  have "route ?m ?rt = Inr (Some WEBSOCKET, [WebsocketPush ?m (lit ''s1'')])" by simp
  then show ?thesis by (intro exI [of _ ?rt] exI [of _ ?m]) simp
qed

end
