(* ===== verification/Sessions.thy ===== *)
theory Sessions
  imports Field_Codec
begin

text \<open>
  \<open>server/sessions.py\<close>: the registry of authenticated runtime sessions and the best-effort push
  of a message to every active session of its recipient. The registry keeps insertion order
  like the code's dict; fresh identifiers, the clock and the outcome of a delivery callback are
  arguments.
\<close>

record session =
  se_callsign :: pystr
  se_session_id :: pystr
  se_active :: bool
  se_last_activity :: rat

type_synonym sessions = "session list"

definition new_session :: "pystr \<Rightarrow> pystr \<Rightarrow> rat \<Rightarrow> session result" where
  "new_session callsign session_id now =
     bindE (validate_callsign (PStr callsign) (lit ''callsign'')) (\<lambda>_.
       Inr \<lparr>se_callsign = callsign, se_session_id = session_id, se_active = True,
            se_last_activity = now\<rparr>)"

definition touch :: "rat \<Rightarrow> session \<Rightarrow> session" where
  "touch now s = (if se_active s then s\<lparr>se_last_activity := now\<rparr> else s)"

definition close_session :: "session \<Rightarrow> session" where
  "close_session s = s\<lparr>se_active := False\<rparr>"

text \<open>Assignment to a key keeps its position when the key exists.\<close>

definition put_session :: "session \<Rightarrow> sessions \<Rightarrow> sessions" where
  "put_session s reg =
     (if \<exists>x \<in> set reg. se_session_id x = se_session_id s
      then map (\<lambda>x. if se_session_id x = se_session_id s then s else x) reg
      else reg @ [s])"

definition session_create :: "pystr \<Rightarrow> pystr \<Rightarrow> rat \<Rightarrow> sessions \<Rightarrow> (session \<times> sessions) result" where
  "session_create callsign session_id now reg =
     bindE (new_session callsign session_id now) (\<lambda>s. Inr (s, put_session s reg))"

definition session_close :: "session \<Rightarrow> sessions \<Rightarrow> session \<times> sessions" where
  "session_close s reg = (close_session s, filter (\<lambda>x. se_session_id x \<noteq> se_session_id s) reg)"

definition active_for :: "pystr \<Rightarrow> sessions \<Rightarrow> sessions" where
  "active_for callsign reg = filter (\<lambda>s. se_active s \<and> se_callsign s = callsign) reg"

definition active_count :: "sessions \<Rightarrow> int" where
  "active_count reg = int (length (filter se_active reg))"

text \<open>What a delivery callback does: return a truth value, fail with a connection error that the
  registry ignores, or raise something else.\<close>

datatype delivery_outcome = Pushed bool | Disconnected | Crashed exn

definition touch_in :: "pystr \<Rightarrow> rat \<Rightarrow> sessions \<Rightarrow> sessions" where
  "touch_in session_id now reg = map (\<lambda>s. if se_session_id s = session_id then touch now s else s) reg"

text \<open>The loop over the snapshot: the sessions called so far, the count, and the registry.\<close>

fun deliver_loop ::
  "(pystr \<Rightarrow> delivery_outcome) \<Rightarrow> rat \<Rightarrow> sessions \<Rightarrow> int \<Rightarrow> sessions \<Rightarrow>
     int result \<times> pystr list \<times> sessions" where
  "deliver_loop deliver now [] delivered reg = (Inr delivered, [], reg)"
| "deliver_loop deliver now (s # ss) delivered reg =
     (case deliver (se_session_id s) of
        Crashed e \<Rightarrow> (Inl e, [se_session_id s], reg)
      | Disconnected \<Rightarrow>
          (case deliver_loop deliver now ss delivered reg of
             (r, called, reg) \<Rightarrow> (r, se_session_id s # called, reg))
      | Pushed ok \<Rightarrow>
          (case deliver_loop deliver now ss (if ok then delivered + 1 else delivered)
                  (if ok then touch_in (se_session_id s) now reg else reg) of
             (r, called, reg) \<Rightarrow> (r, se_session_id s # called, reg)))"

definition deliver_message ::
  "(pystr \<Rightarrow> delivery_outcome) \<Rightarrow> rat \<Rightarrow> protocol_object \<Rightarrow> sessions \<Rightarrow>
     int result \<times> pystr list \<times> sessions" where
  "deliver_message deliver now message reg =
     deliver_loop deliver now (active_for (m_recipient message) reg) 0 reg"

section \<open>Facts\<close>

definition sessions_ok :: "sessions \<Rightarrow> bool" where
  "sessions_ok reg \<longleftrightarrow> distinct (map se_session_id reg) \<and> (\<forall>s \<in> set reg. callsign_ok (se_callsign s))"

lemma put_session_ok:
  assumes "sessions_ok reg" "callsign_ok (se_callsign s)" shows "sessions_ok (put_session s reg)"
proof (cases "\<exists>x \<in> set reg. se_session_id x = se_session_id s")
  case True
  have "map se_session_id (put_session s reg) = map se_session_id reg"
    using True by (auto simp: put_session_def)
  moreover have "\<forall>x \<in> set (put_session s reg). callsign_ok (se_callsign x)"
    using True assms by (auto simp: sessions_ok_def put_session_def)
  ultimately show ?thesis using assms(1) by (simp add: sessions_ok_def)
qed (use assms in \<open>auto simp: sessions_ok_def put_session_def\<close>)

lemma session_create_ok:
  "sessions_ok reg \<Longrightarrow> session_create callsign sid now reg = Inr (s, reg') \<Longrightarrow> sessions_ok reg'"
  by (auto simp: session_create_def new_session_def bindE_eq_Inr validate_callsign_Inr intro!: put_session_ok)

lemma session_close_ok: "sessions_ok reg \<Longrightarrow> sessions_ok (snd (session_close s reg))"
  by (auto simp: sessions_ok_def session_close_def distinct_map_filter)

lemma touch_in_simps [simp]:
  "map se_session_id (touch_in sid now reg) = map se_session_id reg"
  "map se_callsign (touch_in sid now reg) = map se_callsign reg"
  "map se_active (touch_in sid now reg) = map se_active reg"
  by (auto simp: touch_in_def touch_def)

definition accepts :: "(pystr \<Rightarrow> delivery_outcome) \<Rightarrow> session \<Rightarrow> bool" where
  "accepts deliver s \<longleftrightarrow> deliver (se_session_id s) = Pushed True"

lemma deliver_loop_run:
  assumes "\<forall>s \<in> set ss. \<forall>e. deliver (se_session_id s) \<noteq> Crashed e"
  shows "\<exists>reg'. deliver_loop deliver now ss n reg =
      (Inr (n + int (length (filter (accepts deliver) ss))), map se_session_id ss, reg')
    \<and> map se_session_id reg' = map se_session_id reg \<and> map se_active reg' = map se_active reg"
  using assms
proof (induction ss arbitrary: n reg)
  case (Cons s ss)
  show ?case
  proof (cases "deliver (se_session_id s)")
    case (Pushed ok)
    have "\<exists>reg'. deliver_loop deliver now ss (if ok then n + 1 else n)
        (if ok then touch_in (se_session_id s) now reg else reg) =
      (Inr ((if ok then n + 1 else n) + int (length (filter (accepts deliver) ss))), map se_session_id ss, reg')
      \<and> map se_session_id reg' = map se_session_id reg \<and> map se_active reg' = map se_active reg"
      using Cons.IH [of "if ok then n + 1 else n" "if ok then touch_in (se_session_id s) now reg else reg"]
        Cons.prems by auto
    then show ?thesis using Pushed by (cases ok) (auto simp: accepts_def [of deliver s])
  next
    case Disconnected
    then show ?thesis using Cons.IH [of n reg] Cons.prems by (auto simp: accepts_def [of deliver s])
  qed (use Cons.prems in auto)
qed simp

section \<open>Properties\<close>

text \<open>A push tries every active session of the recipient exactly once and in order, and no
  session of anybody else; disconnected sessions are skipped without stopping the others; the
  count is the number of sessions that accepted; no session is added, removed or deactivated.\<close>

theorem deliver_message_best_effort:
  assumes "\<forall>s \<in> set reg. \<forall>e. deliver (se_session_id s) \<noteq> Crashed e"
  shows "\<exists>reg'. deliver_message deliver now message reg =
      (Inr (int (length (filter (accepts deliver) (active_for (m_recipient message) reg)))),
       map se_session_id (filter (\<lambda>s. se_active s \<and> se_callsign s = m_recipient message) reg), reg')
    \<and> map se_session_id reg' = map se_session_id reg \<and> active_count reg' = active_count reg"
proof -
  have "\<forall>s \<in> set (active_for (m_recipient message) reg). \<forall>e. deliver (se_session_id s) \<noteq> Crashed e"
    using assms by (simp add: active_for_def)
  from deliver_loop_run [OF this, of now 0 reg] obtain reg' where
    r: "deliver_loop deliver now (active_for (m_recipient message) reg) 0 reg =
      (Inr (int (length (filter (accepts deliver) (active_for (m_recipient message) reg)))),
       map se_session_id (active_for (m_recipient message) reg), reg')"
    "map se_session_id reg' = map se_session_id reg" "map se_active reg' = map se_active reg"
    by auto
  have "length (filter se_active xs) = length (filter id (map se_active xs))" for xs :: sessions
    by (induction xs) auto
  then have "active_count reg' = active_count reg" using r(3) unfolding active_count_def by metis
  then show ?thesis using r by (auto simp: deliver_message_def active_for_def)
qed

theorem deliver_message_best_effort_witness:
  "\<exists>reg'. deliver_message (\<lambda>i. if i = lit ''a'' then Disconnected else Pushed True) 5
      (Message 1 1 1 (lit ''K2K'') (lit ''A1A'') (lit ''hi''))
      [\<lparr>se_callsign = lit ''A1A'', se_session_id = lit ''a'', se_active = True, se_last_activity = 0\<rparr>,
       \<lparr>se_callsign = lit ''A1A'', se_session_id = lit ''b'', se_active = True, se_last_activity = 0\<rparr>]
    = (Inr 1, [lit ''a'', lit ''b''], reg')"
  using deliver_message_best_effort [of
      "[\<lparr>se_callsign = lit ''A1A'', se_session_id = lit ''a'', se_active = True, se_last_activity = 0\<rparr>,
       \<lparr>se_callsign = lit ''A1A'', se_session_id = lit ''b'', se_active = True, se_last_activity = 0\<rparr>]"
      "\<lambda>i. if i = lit ''a'' then Disconnected else Pushed True" 5
      "Message 1 1 1 (lit ''K2K'') (lit ''A1A'') (lit ''hi'')"]
  by (auto simp: active_for_def accepts_def lit_def)

end
