(* ===== verification/Core.thy ===== *)
theory Core
  imports Store_Logs Frame_Props
begin

text \<open>
  \<open>server/core.py\<close> and \<open>server/get_message_core.py\<close>: a complete frame and an authenticated
  callsign in, response frames out. The state is the shared database, which stores are
  configured, and the listeners; a call of a listener is recorded as an event. A result of an
  operation comes with the events it caused and the server after it, also when it raises.
\<close>

record server =
  sv_message_store :: bool
  sv_bulletin_store :: bool
  sv_message_listeners :: "nat list"
  sv_delivery_listeners :: "nat list"
  sv_db :: database

record message_acceptance =
  ma_message :: stored_message
  ma_created :: bool

datatype event = MessageEvent nat protocol_object | DeliveryEvent nat stored_message int

type_synonym 'a outcome = "'a result \<times> event list \<times> server"

section \<open>Listeners and deliveries\<close>

definition add_message_listener :: "nat \<Rightarrow> server \<Rightarrow> server" where
  "add_message_listener l sv =
     (if l \<in> set (sv_message_listeners sv) then sv
      else sv\<lparr>sv_message_listeners := sv_message_listeners sv @ [l]\<rparr>)"

definition remove_message_listener :: "nat \<Rightarrow> server \<Rightarrow> server" where
  "remove_message_listener l sv = sv\<lparr>sv_message_listeners := remove1 l (sv_message_listeners sv)\<rparr>"

definition add_delivery_listener :: "nat \<Rightarrow> server \<Rightarrow> server" where
  "add_delivery_listener l sv = sv\<lparr>sv_delivery_listeners := sv_delivery_listeners sv @ [l]\<rparr>"

definition mark_aprs :: "pystr \<Rightarrow> pystr \<Rightarrow> int \<Rightarrow> server \<Rightarrow> unit outcome" where
  "mark_aprs status recipient n sv =
     (if sv_message_store sv
      then (case set_delivery recipient n (lit ''aprs'') status None (sv_db sv) of
              (Inl e, db) \<Rightarrow> (Inl e, [], sv\<lparr>sv_db := db\<rparr>)
            | (Inr _, db) \<Rightarrow> (Inr (), [], sv\<lparr>sv_db := db\<rparr>))
      else (Inr (), [], sv))"

definition mark_aprs_pending :: "pystr \<Rightarrow> int \<Rightarrow> server \<Rightarrow> unit outcome" where
  "mark_aprs_pending = mark_aprs (lit ''pending'')"

definition mark_aprs_failed :: "pystr \<Rightarrow> int \<Rightarrow> server \<Rightarrow> unit outcome" where
  "mark_aprs_failed = mark_aprs (lit ''failed'')"

text \<open>The listeners are called in order until one raises.\<close>

fun call_delivery_listeners ::
  "(nat \<Rightarrow> exn option) \<Rightarrow> nat list \<Rightarrow> stored_message \<Rightarrow> int \<Rightarrow> unit result \<times> event list" where
  "call_delivery_listeners raising [] value t = (Inr (), [])"
| "call_delivery_listeners raising (l # ls) value t =
     (case raising l of
        Some e \<Rightarrow> (Inl e, [DeliveryEvent l value t])
      | None \<Rightarrow> (case call_delivery_listeners raising ls value t of
                   (r, events) \<Rightarrow> (r, DeliveryEvent l value t # events)))"

definition mark_aprs_delivered ::
  "(nat \<Rightarrow> exn option) \<Rightarrow> int \<Rightarrow> pystr \<Rightarrow> int \<Rightarrow> server \<Rightarrow> unit outcome" where
  "mark_aprs_delivered raising now recipient n sv =
     (if \<not> sv_message_store sv then (Inr (), [], sv)
      else (case set_delivery recipient n (lit ''aprs'') (lit ''delivered'') (Some now) (sv_db sv) of
          (Inl e, db) \<Rightarrow> (Inl e, [], sv\<lparr>sv_db := db\<rparr>)
        | (Inr changed, db) \<Rightarrow>
            if \<not> changed then (Inr (), [], sv\<lparr>sv_db := db\<rparr>)
            else (case get_message recipient n db of
                    Inl e \<Rightarrow> (Inl e, [], sv\<lparr>sv_db := db\<rparr>)
                  | Inr None \<Rightarrow> (Inr (), [], sv\<lparr>sv_db := db\<rparr>)
                  | Inr (Some value) \<Rightarrow>
                      (case call_delivery_listeners raising (sv_delivery_listeners sv) value now of
                         (r, events) \<Rightarrow> (r, events, sv\<lparr>sv_db := db\<rparr>)))))"

section \<open>Accepting a message\<close>

text \<open>\<open>encode_frame(SendMessage(created_at, recipient, body))\<close> used as a validator; arguments of
  another type than the model's fields are refused by the encoder's own checks.\<close>

definition validated_message :: "pyval \<Rightarrow> pystr \<Rightarrow> pyval \<Rightarrow> (int \<times> pystr) result" where
  "validated_message created_at recipient body =
     (case (created_at, body) of
        (PInt c, PStr b) \<Rightarrow> bindE (encode_frame (SendMessage c recipient b) False) (\<lambda>_. Inr (c, b))
      | _ \<Rightarrow>
          bindE (text_bytes body (lit ''body'') MIN_MESSAGE_BODY_LENGTH MAX_MESSAGE_BODY_LENGTH) (\<lambda>_.
          bindE (u32 created_at (lit ''created_at'') True) (\<lambda>_. Inl AssertionError)))"

definition store_unkeyed ::
  "int \<Rightarrow> pystr \<Rightarrow> pystr \<Rightarrow> pystr \<Rightarrow> pyval \<Rightarrow> database \<Rightarrow> (stored_message \<times> bool) result \<times> database" where
  "store_unkeyed created_at author recipient body clock db =
     (case store_message (PInt created_at) (PStr author) (PStr recipient) (PStr body) clock db of
        (Inl e, db) \<Rightarrow> (Inl e, db)
      | (Inr n, db) \<Rightarrow>
          (case get_message recipient n db of
             Inl e \<Rightarrow> (Inl e, db)
           | Inr None \<Rightarrow> (Inl AssertionError, db)
           | Inr (Some stored) \<Rightarrow> (Inr (stored, True), db)))"

definition send_message ::
  "pyval \<Rightarrow> pyval \<Rightarrow> pyval \<Rightarrow> pyval \<Rightarrow> pystr option \<Rightarrow> pystr \<Rightarrow> pyval \<Rightarrow> server \<Rightarrow>
     message_acceptance outcome" where
  "send_message author recipient body created_at idempotency_key request_hash clock sv =
     (if \<not> sv_message_store sv
      then (Inl (StorageIntegrityError (lit ''message store unavailable'')), [], sv)
      else (case bindE (validate_callsign author (lit ''author'')) (\<lambda>a.
              bindE (validate_callsign recipient (lit ''recipient'')) (\<lambda>r.
              bindE (validated_message created_at r body) (\<lambda>(c, b). Inr (a, r, c, b)))) of
          Inl e \<Rightarrow> (Inl e, [], sv)
        | Inr (a, r, c, b) \<Rightarrow>
            (case (case idempotency_key of
                     None \<Rightarrow> store_unkeyed c a r b clock (sv_db sv)
                   | Some key \<Rightarrow> store_message_idempotent c a r b (Some key) request_hash clock (sv_db sv)) of
               (Inl e, db) \<Rightarrow> (Inl e, [], sv\<lparr>sv_db := db\<rparr>)
             | (Inr (stored, created), db) \<Rightarrow>
                 if created
                 then (case conversation_sequence stored db of
                     Inl e \<Rightarrow> (Inl e, [], sv\<lparr>sv_db := db\<rparr>)
                   | Inr n \<Rightarrow>
                       (Inr \<lparr>ma_message = stored, ma_created = created\<rparr>,
                        map (\<lambda>l. MessageEvent l (Message (st_sequence stored) n (st_created_at stored)
                               (st_author stored) (st_recipient stored) (st_body stored)))
                          (sv_message_listeners sv),
                        sv\<lparr>sv_db := db\<rparr>))
                 else (Inr \<lparr>ma_message = stored, ma_created = created\<rparr>, [], sv\<lparr>sv_db := db\<rparr>))))"

section \<open>Request handlers\<close>

definition auth_callsign :: "pystr \<Rightarrow> pystr result" where
  "auth_callsign callsign = validate_callsign (PStr callsign) (lit ''authenticated_callsign'')"

definition handle_send_message ::
  "pystr \<Rightarrow> int \<Rightarrow> pystr \<Rightarrow> pystr \<Rightarrow> pyval \<Rightarrow> server \<Rightarrow> protocol_object list outcome" where
  "handle_send_message authenticated created_at recipient body clock sv =
     (if \<not> sv_message_store sv
      then (Inr [Error (Op SEND_MESSAGE) BUSY (lit ''message store unavailable'')], [], sv)
      else (case auth_callsign authenticated of
          Inl e \<Rightarrow>
            if is_InvalidFieldError e
            then (Inr [Error (Op SEND_MESSAGE) UNAUTHORIZED (lit ''invalid authenticated callsign'')], [], sv)
            else (Inl e, [], sv)
        | Inr author \<Rightarrow>
            (case send_message (PStr author) (PStr recipient) (PStr body) (PInt created_at) None [] clock sv of
               (Inl (SequenceExhaustedError _), events, sv) \<Rightarrow>
                 (Inr [Error (Op SEND_MESSAGE) BUSY (lit ''message storage exhausted'')], events, sv)
             | (Inl (StorageIntegrityError _), events, sv) \<Rightarrow>
                 (Inr [Error (Op SEND_MESSAGE) INTERNAL_ERROR (lit ''message storage integrity failure'')],
                  events, sv)
             | (Inl e, events, sv) \<Rightarrow> (Inl e, events, sv)
             | (Inr _, events, sv) \<Rightarrow> (Inr [Stored], events, sv))))"

definition message_response :: "database \<Rightarrow> stored_message \<Rightarrow> protocol_object result" where
  "message_response db m = bindE (conversation_sequence m db) (\<lambda>n.
     Inr (Message (st_sequence m) n (st_created_at m) (st_author m) (st_recipient m) (st_body m)))"

definition handle_get_new_messages ::
  "pystr \<Rightarrow> int \<Rightarrow> int \<Rightarrow> server \<Rightarrow> protocol_object list result" where
  "handle_get_new_messages authenticated since mx sv =
     (if \<not> sv_message_store sv
      then Inr [Error (Op GET_NEW_MESSAGES) BUSY (lit ''message store unavailable'')]
      else (case auth_callsign authenticated of
          Inl e \<Rightarrow>
            if is_InvalidFieldError e
            then Inr [Error (Op GET_NEW_MESSAGES) UNAUTHORIZED (lit ''invalid authenticated callsign'')]
            else Inl e
        | Inr callsign \<Rightarrow>
            (case fst (get_new_messages (PStr callsign) (PInt since) (PInt mx) (sv_db sv)) of
               Inl (InvalidCursorError _) \<Rightarrow>
                 Inr [Error (Op GET_NEW_MESSAGES) INVALID_CURSOR (lit ''invalid message cursor'')]
             | Inl (StorageIntegrityError _) \<Rightarrow>
                 Inr [Error (Op GET_NEW_MESSAGES) INTERNAL_ERROR (lit ''message storage integrity failure'')]
             | Inl e \<Rightarrow> Inl e
             | Inr page \<Rightarrow>
                 bindE (mapE (message_response (sv_db sv)) (mp_messages page)) (\<lambda>responses.
                   Inr (responses @ [End GET_NEW_MESSAGES (int (length (mp_messages page)))
                     (mp_next_since page) (mp_has_more page)])))))"

definition handle_get_new_bulletins ::
  "pystr \<Rightarrow> int \<Rightarrow> int \<Rightarrow> server \<Rightarrow> protocol_object list result" where
  "handle_get_new_bulletins authenticated since mx sv =
     (if \<not> sv_bulletin_store sv
      then Inr [Error (Op GET_NEW_BULLETINS) BUSY (lit ''bulletin store unavailable'')]
      else (case auth_callsign authenticated of
          Inl e \<Rightarrow>
            if is_InvalidFieldError e
            then Inr [Error (Op GET_NEW_BULLETINS) UNAUTHORIZED (lit ''invalid authenticated callsign'')]
            else Inl e
        | Inr _ \<Rightarrow>
            (case fst (get_new_bulletins (PInt since) (PInt mx) (sv_db sv)) of
               Inl (InvalidCursorError _) \<Rightarrow>
                 Inr [Error (Op GET_NEW_BULLETINS) INVALID_CURSOR (lit ''invalid bulletin cursor'')]
             | Inl (StorageIntegrityError _) \<Rightarrow>
                 Inr [Error (Op GET_NEW_BULLETINS) INTERNAL_ERROR (lit ''bulletin storage integrity failure'')]
             | Inl e \<Rightarrow> Inl e
             | Inr page \<Rightarrow>
                 Inr (map (\<lambda>h. BulletinHeader (sbh_sequence h) (sbh_created_at h) (sbh_author h) (sbh_title h))
                       (bp_headers page)
                   @ [End GET_NEW_BULLETINS (int (length (bp_headers page))) (bp_next_since page)
                        (bp_has_more page)]))))"

definition handle_get_bulletin :: "pystr \<Rightarrow> int \<Rightarrow> server \<Rightarrow> protocol_object list result" where
  "handle_get_bulletin authenticated n sv =
     (if \<not> sv_bulletin_store sv
      then Inr [Error (Op GET_BULLETIN) BUSY (lit ''bulletin store unavailable'')]
      else (case auth_callsign authenticated of
          Inl e \<Rightarrow>
            if is_InvalidFieldError e
            then Inr [Error (Op GET_BULLETIN) UNAUTHORIZED (lit ''invalid authenticated callsign'')]
            else Inl e
        | Inr _ \<Rightarrow>
            (case get_bulletin (PInt n) (sv_db sv) of
               Inl (StorageIntegrityError _) \<Rightarrow>
                 Inr [Error (Op GET_BULLETIN) INTERNAL_ERROR (lit ''bulletin storage integrity failure'')]
             | Inl e \<Rightarrow> Inl e
             | Inr None \<Rightarrow> Inr [Error (Op GET_BULLETIN) NOT_FOUND (lit ''bulletin not found'')]
             | Inr (Some b) \<Rightarrow>
                 Inr [Bulletin (sb_sequence b) (sb_created_at b) (sb_author b) (sb_title b) (sb_body b)])))"

definition handle_get_message :: "pystr \<Rightarrow> pystr \<Rightarrow> int \<Rightarrow> server \<Rightarrow> protocol_object list result" where
  "handle_get_message authenticated peer n sv =
     (if \<not> sv_message_store sv
      then Inr [Error (Op GET_MESSAGE) BUSY (lit ''message store unavailable'')]
      else (case bindE (auth_callsign authenticated) (\<lambda>recipient.
              bindE (validate_callsign (PStr peer) (lit ''peer'')) (\<lambda>peer. Inr (recipient, peer))) of
          Inl e \<Rightarrow>
            if is_InvalidFieldError e
            then Inr [Error (Op GET_MESSAGE) UNAUTHORIZED (lit ''invalid callsign'')]
            else Inl e
        | Inr (recipient, peer) \<Rightarrow>
            (case get_conversation_message (PStr recipient) (PStr peer) (PInt n) (sv_db sv) of
               Inl e \<Rightarrow>
                 if is_ValueError e \<or> (case e of StorageIntegrityError _ \<Rightarrow> True | _ \<Rightarrow> False)
                 then Inr [Error (Op GET_MESSAGE) INTERNAL_ERROR (lit ''message storage integrity failure'')]
                 else Inl e
             | Inr None \<Rightarrow> Inr [Error (Op GET_MESSAGE) NOT_FOUND (lit ''message not found'')]
             | Inr (Some m) \<Rightarrow>
                 Inr [Message (st_sequence m) n (st_created_at m) (st_author m) (st_recipient m) (st_body m)])))"

section \<open>Dispatch\<close>

fun operation_for :: "protocol_object \<Rightarrow> operation result" where
  "operation_for (Message _ _ _ _ _ _) = Inr MESSAGE"
| "operation_for (BulletinHeader _ _ _ _) = Inr BULLETIN_HEADER"
| "operation_for (Bulletin _ _ _ _ _) = Inr BULLETIN"
| "operation_for (End _ _ _ _) = Inr END_OP"
| "operation_for Stored = Inr STORED"
| "operation_for (Error _ _ _) = Inr ERROR"
| "operation_for (Capabilities _ _) = Inr CAPABILITIES"
| "operation_for _ = Inl (TypeError (lit ''unclassified protocol object''))"

text \<open>A handler that only reads.\<close>

definition reading :: "server \<Rightarrow> protocol_object list result \<Rightarrow> protocol_object list outcome" where
  "reading sv m = (m, [], sv)"

definition dispatch :: "pystr \<Rightarrow> protocol_object \<Rightarrow> pyval \<Rightarrow> server \<Rightarrow> protocol_object list outcome" where
  "dispatch authenticated request clock sv =
     (case request of
        GetMessage peer n \<Rightarrow> reading sv (handle_get_message authenticated peer n sv)
      | SendMessage created_at recipient body \<Rightarrow>
          handle_send_message authenticated created_at recipient body clock sv
      | GetNewMessages since mx \<Rightarrow> reading sv (handle_get_new_messages authenticated since mx sv)
      | GetNewBulletins since mx \<Rightarrow> reading sv (handle_get_new_bulletins authenticated since mx sv)
      | GetBulletin n \<Rightarrow> reading sv (handle_get_bulletin authenticated n sv)
      | GetCapabilities \<Rightarrow> reading sv (Inr [Capabilities PROTOCOL_VERSION IMPLEMENTED_CAPABILITIES])
      | _ \<Rightarrow> reading sv (bindE (operation_for request) (\<lambda>q.
            Inr [Error (Op q) UNKNOWN_OPERATION (lit ''operation is not a client request'')])))"

section \<open>Frames\<close>

definition decode_error_response :: "pyval \<Rightarrow> exn \<Rightarrow> protocol_object option" where
  "decode_error_response frame error =
     (case frame of
        PBytes data \<Rightarrow>
          if length data < 4 then None
          else (let operation = (if uint (data ! 0) = 1
                    then (case Operation (uint (data ! 1)) of Some q \<Rightarrow> Op q | None \<Rightarrow> Raw 0)
                    else Raw 0);
                  detail = take 64 (exn_str error) in
            case error of
              UnsupportedVersionError _ \<Rightarrow> Some (Error (Raw 0) UNSUPPORTED_VERSION detail)
            | UnknownOperationError _ \<Rightarrow> Some (Error (Raw 0) UNKNOWN_OPERATION detail)
            | _ \<Rightarrow>
                if is_InvalidFieldError error
                then Some (Error operation (if data ! 2 \<noteq> 0 then INVALID_FRAME else INVALID_FIELD) detail)
                else Some (Error operation INVALID_FRAME detail))
      | _ \<Rightarrow> None)"

definition handle_frame :: "pyval \<Rightarrow> pyval \<Rightarrow> pyval \<Rightarrow> server \<Rightarrow> bytes list outcome" where
  "handle_frame authenticated_callsign frame clock sv =
     (case authenticated_callsign of
        PStr callsign \<Rightarrow>
          (case decode_frame frame of
             Inl error \<Rightarrow>
               if is_ProtocolDecodeError error \<or> is_InvalidFieldError error
               then (case decode_error_response frame error of
                       None \<Rightarrow> (Inr [], [], sv)
                     | Some response \<Rightarrow> (bindE (encode_frame response False) (\<lambda>f. Inr [f]), [], sv))
               else (Inl error, [], sv)
           | Inr request \<Rightarrow>
               (case dispatch callsign request clock sv of
                  (Inl e, events, sv) \<Rightarrow> (Inl e, events, sv)
                | (Inr responses, events, sv) \<Rightarrow>
                    (mapE (\<lambda>r. encode_frame r False) responses, events, sv)))
      | _ \<Rightarrow> (Inl (TypeError (lit ''authenticated_callsign must be a string'')), [], sv))"

end
