(* ===== verification/Core_Facts.thy ===== *)
theory Core_Facts
  imports Core Protocol_Properties
begin

text \<open>
  How the server core behaves on databases whose rows the protocol can carry: every handler
  answers with encodable objects, and accepting a message keeps the database that way.
\<close>

section \<open>Transportable databases\<close>

definition message_wire_ok :: "message_row \<Rightarrow> bool" where
  "message_wire_ok r \<longleftrightarrow> callsign_ok (the_text (mr_author r)) \<and> callsign_ok (the_text (mr_recipient r))
     \<and> 1 \<le> mr_created r \<and> valid_text 1 208 (the_utf8 (mr_body r))"

definition bulletin_wire_ok :: "bulletin_row \<Rightarrow> bool" where
  "bulletin_wire_ok r \<longleftrightarrow> callsign_ok (the_text (br_author r)) \<and> 1 \<le> br_created r
     \<and> valid_text 1 64 (the_text (br_title r)) \<and> valid_text 1 164 (the_utf8 (br_body r))"

definition transportable :: "database \<Rightarrow> bool" where
  "transportable db \<longleftrightarrow> stores_ok db \<and> (\<forall>r \<in> set (messages db). message_wire_ok r)
     \<and> (\<forall>r \<in> set (bulletins db). bulletin_wire_ok r)"

lemma transportable_parts:
  assumes "transportable db"
  shows "stores_ok db" "db_ok db" "messages_ok db" "bulletins_ok db"
  using assms by (auto simp: transportable_def stores_ok_def db_ok_def)

lemma callsign_utf8: "callsign_ok s \<Longrightarrow> utf8_encode s = Some (map byte_of s)"
  by (simp add: utf8_encode_ascii callsign_ok_ascii)

lemma valid_text_plain: "plain s \<Longrightarrow> length s \<le> mx \<Longrightarrow> valid_text 0 mx s"
proof -
  assume p: "plain s" and l: "length s \<le> mx"
  have "sum_list (map utf8_size s) = length s" using p by (induction s) (auto simp: utf8_size_def)
  moreover have "\<forall>c \<in> set s. c \<noteq> 0 \<and> scalar c" using p by (auto simp: plain_def scalar_def)
  ultimately show ?thesis using l by (simp add: valid_text_def)
qed

lemma valid_text_utf8: "valid_text mn mx s \<Longrightarrow> utf8_encode s \<noteq> None"
  using valid_textD by (fastforce simp: text_ok_def)

lemma well_typed_sequence:
  "well_typed r \<Longrightarrow> 1 \<le> mr_sequence r \<and> mr_sequence r \<le> MAX_U32 \<and> mr_created r \<le> MAX_U32"
  by (simp add: well_typed_def message_check_def)

section \<open>Responses to a page request\<close>

lemma mailbox_recipient: "r \<in> set (mailbox db p) \<Longrightarrow> the_text (mr_recipient r) = p"
  by (simp add: mailbox_def)

lemma well_typed_author: "well_typed r \<Longrightarrow> mr_author r = SText (the_text (mr_author r)) \<and> utf8_encode (the_text (mr_author r)) \<noteq> None"
  by (auto simp: well_typed_def split: sqlval.splits)

lemma conversation_number:
  assumes "messages_ok db" "utf8_encode p \<noteq> None" "r \<in> set (mailbox db p)"
  shows "\<exists>n. conversation_sequence (view api r) db = Inr n \<and> 1 \<le> n \<and> n \<le> MAX_U32"
proof -
  let ?a = "the_text (mr_author r)"
  have "well_typed r" using assms(1) mailbox_sub [OF assms(3)] by (simp add: messages_ok_def)
  then have a: "mr_author r = SText ?a" "utf8_encode ?a \<noteq> None" using well_typed_author by auto
  then have "r \<in> set (incoming db p ?a)" using assms(3) by (simp add: incoming_def)
  then obtain i where i: "i < length (incoming db p ?a)" "r = incoming db p ?a ! i"
    by (metis in_set_conv_nth)
  have "int (length (incoming db p ?a)) \<le> MAX_U32"
    using incoming_length [OF assms(1), of p ?a] mailbox_last_bounds [OF assms(1), of p] by linarith
  then show ?thesis
    using conversation_sequence_run [OF assms(1,2) a(2) i(1), of api] i by (auto simp flip: i(2))
qed

definition number_of :: "database \<Rightarrow> stored_message \<Rightarrow> int" where
  "number_of db m = (case conversation_sequence m db of Inl _ \<Rightarrow> 0 | Inr n \<Rightarrow> n)"

definition wire_message :: "database \<Rightarrow> stored_message \<Rightarrow> protocol_object" where
  "wire_message db m = Message (st_sequence m) (number_of db m) (st_created_at m) (st_author m)
     (st_recipient m) (st_body m)"

lemma wire_message_ok:
  assumes "transportable db" "callsign_ok p" "r \<in> set (mailbox db p)"
  shows "message_response db (view api r) = Inr (wire_message db (view api r))"
    and "valid_object (wire_message db (view api r))"
proof -
  obtain n where n: "conversation_sequence (view api r) db = Inr n" "1 \<le> n" "n \<le> MAX_U32"
    using conversation_number [OF transportable_parts(3) [OF assms(1)] _ assms(3)] callsign_utf8 [OF assms(2)]
    by fastforce
  then show "message_response db (view api r) = Inr (wire_message db (view api r))"
    by (simp add: message_response_def wire_message_def number_of_def)
  have "message_wire_ok r" "well_typed r"
    using assms(1) mailbox_sub [OF assms(3)] by (auto simp: transportable_def stores_ok_def db_ok_def messages_ok_def)
  then show "valid_object (wire_message db (view api r))"
    using n well_typed_sequence [of r]
    by (auto simp: wire_message_def number_of_def message_wire_ok_def view_def)
qed

lemma get_new_messages_handled:
  assumes "transportable (sv_db sv)" "sv_message_store sv" "callsign_ok who" "valid_cursor since" "valid_max mx"
  shows "handle_get_new_messages who since mx sv =
    Inr (if since \<le> mailbox_last (sv_db sv) who
      then (case page_of st_sequence (mailbox_log who (sv_db sv)) since (nat mx) of
          (items, nxt, mr) \<Rightarrow> map (wire_message (sv_db sv)) items
            @ [End GET_NEW_MESSAGES (int (length items)) nxt mr])
      else [Error (Op GET_NEW_MESSAGES) INVALID_CURSOR (lit ''invalid message cursor'')])"
proof -
  let ?db = "sv_db sv"
  note m = transportable_parts [OF assms(1)]
  have u: "utf8_encode who \<noteq> None" using callsign_utf8 assms(3) by simp
  have l: "1 \<le> nat mx" "nat mx \<le> 20" using assms(5) by auto
  have a: "auth_callsign who = Inr who" using assms(3) by (simp add: auth_callsign_def validate_callsign_Inr)
  show ?thesis
  proof (cases "since \<le> mailbox_last ?db who")
    case True
    obtain items nxt mr where p: "page_of st_sequence (map (view False) (mailbox ?db who)) since (nat mx) = (items, nxt, mr)"
      by (metis prod_cases3)
    have g: "get_new_messages (PStr who) (PInt since) (PInt mx) ?db =
        (Inr \<lparr>mp_messages = items, mp_next_since = nxt, mp_has_more = mr\<rparr>, ?db)"
      using get_new_messages_page [OF m(3) u _ True l p] assms(4,5) by simp
    have "message_response ?db x = Inr (wire_message ?db x)" if "x \<in> set items" for x
      using that p wire_message_ok(1) [OF assms(1,3)] by (auto simp: page_of_map Let_def dest!: in_set_takeD)
    then have "mapE (message_response ?db) items = Inr (map (wire_message ?db) items)" by (rule mapE_Inr)
    then show ?thesis using True p g a assms(2) by (simp add: handle_get_new_messages_def mailbox_log_def)
  next
    case False
    have "bind_text who = Inr ()" using u by simp
    then show ?thesis using False assms(2,4,5) a mailbox_highest_ok [OF m(3), of who]
      by (simp add: handle_get_new_messages_def get_new_messages_def validators_ok with_connection_def
          or_rollback_def get_new_messages_tx_def sql_simps del: bind_text_Inr)
  qed
qed

lemma get_new_bulletins_handled:
  assumes "transportable (sv_db sv)" "sv_bulletin_store sv" "callsign_ok who" "valid_cursor since" "valid_max mx"
  shows "handle_get_new_bulletins who since mx sv =
    Inr (if since \<le> bulletin_count (sv_db sv)
      then (case page_of sbh_sequence (bulletin_log (sv_db sv)) since (nat mx) of
          (items, nxt, mr) \<Rightarrow>
            map (\<lambda>h. BulletinHeader (sbh_sequence h) (sbh_created_at h) (sbh_author h) (sbh_title h)) items
            @ [End GET_NEW_BULLETINS (int (length items)) nxt mr])
      else [Error (Op GET_NEW_BULLETINS) INVALID_CURSOR (lit ''invalid bulletin cursor'')])"
proof -
  let ?db = "sv_db sv"
  note b = transportable_parts(4) [OF assms(1)]
  have l: "1 \<le> nat mx" "nat mx \<le> 20" using assms(5) by auto
  have a: "auth_callsign who = Inr who" using assms(3) by (simp add: auth_callsign_def validate_callsign_Inr)
  show ?thesis
  proof (cases "since \<le> bulletin_count ?db")
    case True
    obtain items nxt mr where p: "page_of sbh_sequence (map header_view (bulletins ?db)) since (nat mx) = (items, nxt, mr)"
      by (metis prod_cases3)
    have "get_new_bulletins (PInt since) (PInt mx) ?db =
        (Inr \<lparr>bp_headers = items, bp_next_since = nxt, bp_has_more = mr\<rparr>, ?db)"
      using get_new_bulletins_page [OF b _ True l p] assms(4,5) by simp
    then show ?thesis using True p a assms(2) by (simp add: handle_get_new_bulletins_def bulletin_log_def)
  next
    case False
    then show ?thesis using assms(2,4,5) a bulletin_state_ok [OF b]
      by (simp add: handle_get_new_bulletins_def get_new_bulletins_def validators_ok with_connection_def
          or_rollback_def get_new_bulletins_tx_def sql_simps)
  qed
qed

section \<open>The other readers\<close>

lemma find_bulletin:
  assumes "transportable db" "find (\<lambda>r. br_sequence r = n) (bulletins db) = Some row"
  shows "bulletin_typed row \<and> bulletin_wire_ok row \<and> br_sequence row = n"
proof -
  have "row \<in> set (bulletins db)" "br_sequence row = n" using assms(2) by (auto simp: find_Some_iff)
  then show ?thesis using assms(1) transportable_parts(4) [OF assms(1)]
    by (auto simp: transportable_def bulletins_ok_def)
qed

lemma get_bulletin_handled:
  assumes "transportable (sv_db sv)" "sv_bulletin_store sv" "callsign_ok who" "valid_seq n"
  shows "handle_get_bulletin who n sv = Inr [case find (\<lambda>r. br_sequence r = n) (bulletins (sv_db sv)) of
      None \<Rightarrow> Error (Op GET_BULLETIN) NOT_FOUND (lit ''bulletin not found'')
    | Some r \<Rightarrow> Bulletin n (br_created r) (the_text (br_author r)) (the_text (br_title r)) (the_utf8 (br_body r))]"
proof -
  have a: "auth_callsign who = Inr who" using assms(3) by (simp add: auth_callsign_def validate_callsign_Inr)
  show ?thesis
  proof (cases "find (\<lambda>r. br_sequence r = n) (bulletins (sv_db sv))")
    case None
    then show ?thesis using assms(2,4) a by (simp add: handle_get_bulletin_def get_bulletin_def validators_ok)
  next
    case (Some row)
    from find_bulletin [OF assms(1) this] Some show ?thesis using assms(2,4) a
      by (simp add: handle_get_bulletin_def get_bulletin_def validators_ok stored_bulletin_ok bulletin_view_def)
  qed
qed

lemma get_message_handled:
  assumes "transportable (sv_db sv)" "sv_message_store sv" "callsign_ok who" "callsign_ok peer" "valid_seq n"
  shows "handle_get_message who peer n sv = Inr
     [if n \<le> int (length (incoming (sv_db sv) who peer))
      then (let m = view True (incoming (sv_db sv) who peer ! nat (n - 1)) in
        Message (st_sequence m) n (st_created_at m) peer who (st_body m))
      else Error (Op GET_MESSAGE) NOT_FOUND (lit ''message not found'')]"
proof -
  let ?db = "sv_db sv"
  have v: "bindE (auth_callsign who) (\<lambda>recipient. bindE (validate_callsign (PStr peer) (lit ''peer''))
      (\<lambda>peer. Inr (recipient, peer))) = Inr (who, peer)"
    using assms(3,4) by (auto simp: auth_callsign_def bindE_eq_Inr validate_callsign_Inr)
  have g: "get_conversation_message (PStr who) (PStr peer) (PInt n) ?db =
    Inr (if n \<le> int (length (incoming ?db who peer)) then Some (view True (incoming ?db who peer ! nat (n - 1))) else None)"
    using get_conversation_message_run [OF transportable_parts(3) [OF assms(1)]] assms(3-5) callsign_utf8 by simp
  have lt: "nat (n - 1) < length (incoming ?db who peer)" if "n \<le> int (length (incoming ?db who peer))"
    using that assms(5) by linarith
  have "mr_recipient (incoming ?db who peer ! nat (n - 1)) = SText who
      \<and> mr_author (incoming ?db who peer ! nat (n - 1)) = SText peer" if "n \<le> int (length (incoming ?db who peer))"
    using incoming_sub [OF nth_mem [OF lt [OF that]]] by simp
  then show ?thesis using assms(2) v g by (auto simp: handle_get_message_def Let_def)
qed

section \<open>Accepting a message\<close>

lemma accept_transportable:
  assumes "transportable db" "callsign_ok a" "valid_object (SendMessage c r b)" "mailbox_last db r < MAX_U32"
    "0 \<le> t" "t \<le> MAX_SQLITE_INTEGER"
  shows "storable c a r b" and "transportable (accept c a r (body_bytes b) t db)"
    and "message_wire_ok (accepted_row c a r (body_bytes b) t db)"
    and "st_body (view api (accepted_row c a r (body_bytes b) t db)) = b"
proof -
  obtain bs where bs: "utf8_encode b = Some bs" using assms(3) valid_text_utf8 by fastforce
  show st: "storable c a r b" using assms(2,3) callsign_utf8 bs by (simp add: storable_def)
  have dec: "utf8_decode bs = Some b" by (rule utf8_decode_encode [OF bs])
  show w: "message_wire_ok (accepted_row c a r (body_bytes b) t db)"
    using assms(2,3) dec bs by (simp add: message_wire_ok_def accepted_row_def)
  show "st_body (view api (accepted_row c a r (body_bytes b) t db)) = b"
    using dec bs by (simp add: view_def accepted_row_def)
  have "stores_ok (accept c a r (body_bytes b) t db)"
    using accept_db_ok [OF transportable_parts(2) [OF assms(1)] storable_acceptable [OF st assms(5,6)] assms(4)]
      assms(1) by (simp add: stores_ok_def transportable_def bulletins_ok_frame [of "accept _ _ _ _ _ _" db])
  then show "transportable (accept c a r (body_bytes b) t db)"
    using assms(1) w by (simp add: transportable_def)
qed

lemma mailbox_accept: "mailbox (accept c a r bs t db) r = mailbox db r @ [accepted_row c a r bs t db]"
  by simp

text \<open>The event every listener gets for an accepted message.\<close>

definition accepted_event :: "int \<Rightarrow> pystr \<Rightarrow> pystr \<Rightarrow> pystr \<Rightarrow> database \<Rightarrow> protocol_object" where
  "accepted_event c a r b db =
     Message (mailbox_last db r + 1) (int (length (incoming db r a)) + 1) c a r b"

lemma store_unkeyed_run:
  assumes "transportable db" "callsign_ok a" "valid_object (SendMessage c r b)" "message_count db + 1 < 2 ^ 63"
    "0 \<le> t" "t \<le> MAX_SQLITE_INTEGER"
  shows "store_unkeyed c a r b (PInt t) db =
    (if mailbox_last db r < MAX_U32
     then (Inr (view True (accepted_row c a r (body_bytes b) t db), True), accept c a r (body_bytes b) t db)
     else (Inl (SequenceExhaustedError (lit ''mailbox sequence is exhausted'')), db))"
proof (cases "mailbox_last db r < MAX_U32")
  case True
  note acc = accept_transportable [OF assms(1-3) True assms(5,6)]
  note m = transportable_parts(3) [OF assms(1)]
  have "well_typed (accepted_row c a r (body_bytes b) t db)"
    by (rule accepted_well_typed [OF m storable_acceptable [OF acc(1) assms(5,6)] True])
  moreover have "bind_text r = Inr ()" "bind_int (mailbox_last db r + 1) = Inr ()"
    using acc(1) mailbox_last_bounds [OF m, of r] by (auto simp: storable_def)
  ultimately show ?thesis
    using True store_message_run [OF m acc(1) assms(4) True assms(5,6)] find_accepted_message [OF m]
    by (simp add: store_unkeyed_def get_message_def stored_message_of_ok del: bind_text_Inr bind_int_Inr)
next
  case False
  note m = transportable_parts(3) [OF assms(1)]
  have last: "mailbox_last db r = MAX_U32" using False mailbox_last_bounds [OF m, of r] by simp
  then obtain v where "mailbox_sequences db r = Some v" "v = MAX_U32"
    by (auto simp: mailbox_last_def split: option.splits)
  moreover obtain bs where "utf8_encode b = Some bs" using assms(3) valid_text_utf8 by fastforce
  moreover have "bind_text r = Inr ()" using assms(3) callsign_utf8 by simp
  ultimately show ?thesis using False assms(3)
    by (simp add: store_unkeyed_def store_message_def validators_ok with_connection_def or_rollback_def
        store_message_tx_def sql_simps rollback_def del: bind_text_Inr)
qed

lemma accepted_number:
  assumes "transportable db" "callsign_ok a" "valid_object (SendMessage c r b)" "mailbox_last db r < MAX_U32"
    "0 \<le> t" "t \<le> MAX_SQLITE_INTEGER"
  shows "conversation_sequence (view True (accepted_row c a r (body_bytes b) t db)) (accept c a r (body_bytes b) t db)
    = Inr (int (length (incoming db r a)) + 1)"
proof -
  note acc = accept_transportable [OF assms]
  have i: "incoming (accept c a r (body_bytes b) t db) r a =
      incoming db r a @ [accepted_row c a r (body_bytes b) t db]"
    by (simp add: incoming_def)
  show ?thesis
    using conversation_sequence_run [OF transportable_parts(3) [OF acc(2)], of r a "length (incoming db r a)" True]
      assms(2,3) callsign_utf8 by (simp add: i)
qed

lemma send_message_run:
  assumes "transportable (sv_db sv)" "sv_message_store sv" "callsign_ok a" "valid_object (SendMessage c r b)"
    "message_count (sv_db sv) + 1 < 2 ^ 63" "0 \<le> t" "t \<le> MAX_SQLITE_INTEGER"
  shows "send_message (PStr a) (PStr r) (PStr b) (PInt c) None h (PInt t) sv =
    (if mailbox_last (sv_db sv) r < MAX_U32
     then (Inr \<lparr>ma_message = view True (accepted_row c a r (body_bytes b) t (sv_db sv)), ma_created = True\<rparr>,
        map (\<lambda>l. MessageEvent l (accepted_event c a r b (sv_db sv))) (sv_message_listeners sv),
        sv\<lparr>sv_db := accept c a r (body_bytes b) t (sv_db sv)\<rparr>)
     else (Inl (SequenceExhaustedError (lit ''mailbox sequence is exhausted'')), [], sv))"
proof -
  have v: "bindE (validate_callsign (PStr a) (lit ''author'')) (\<lambda>a.
      bindE (validate_callsign (PStr r) (lit ''recipient'')) (\<lambda>r.
      bindE (validated_message (PInt c) r (PStr b)) (\<lambda>(c, b). Inr (a, r, c, b)))) = Inr (a, r, c, b)"
  proof -
    have "is_ok (encode_frame (SendMessage c r b) False)" using assms(4) encode_frame_ok by blast
    then show ?thesis using assms(3,4)
      by (auto simp: bindE_eq_Inr validate_callsign_Inr validated_message_def is_ok_iff)
  qed
  show ?thesis
  proof (cases "mailbox_last (sv_db sv) r < MAX_U32")
    case True
    note acc = accept_transportable [OF assms(1,3,4) True assms(6,7)]
    show ?thesis
      using True v assms(2) store_unkeyed_run [OF assms(1,3,4,5,6,7)]
        accepted_number [OF assms(1,3,4) True assms(6,7)] acc(4) [of True]
      by (simp add: send_message_def accepted_event_def) (simp add: view_def accepted_row_def)
  next
    case False
    then show ?thesis using v assms(2) store_unkeyed_run [OF assms(1,3,4,5,6,7)]
      by (simp add: send_message_def)
  qed
qed

lemma send_message_handled:
  assumes "transportable (sv_db sv)" "sv_message_store sv" "callsign_ok who" "valid_object (SendMessage c r b)"
    "message_count (sv_db sv) + 1 < 2 ^ 63" "0 \<le> t" "t \<le> MAX_SQLITE_INTEGER"
  shows "handle_send_message who c r b (PInt t) sv =
    (if mailbox_last (sv_db sv) r < MAX_U32
     then (Inr [Stored],
        map (\<lambda>l. MessageEvent l (accepted_event c who r b (sv_db sv))) (sv_message_listeners sv),
        sv\<lparr>sv_db := accept c who r (body_bytes b) t (sv_db sv)\<rparr>)
     else (Inr [Error (Op SEND_MESSAGE) BUSY (lit ''message storage exhausted'')], [], sv))"
proof -
  have a: "auth_callsign who = Inr who" using assms(3) by (simp add: auth_callsign_def validate_callsign_Inr)
  show ?thesis using send_message_run [OF assms(1-7)] a assms(2) by (simp add: handle_send_message_def)
qed

end
