(* ===== verification/Core_Properties.thy ===== *)
theory Core_Properties
  imports Core_Facts Store_Properties
begin

text \<open>
  What the node promises at its frame interface: it answers every byte string, it stores only
  what the authenticated user sends, it shows a user only that user's mail, and listeners hear
  of every accepted message once.
\<close>

section \<open>Totality of the handlers\<close>

fun is_response :: "protocol_object \<Rightarrow> bool" where
  "is_response (Message _ _ _ _ _ _) = True"
| "is_response (BulletinHeader _ _ _ _) = True"
| "is_response (Bulletin _ _ _ _ _) = True"
| "is_response (End _ _ _ _) = True"
| "is_response Stored = True"
| "is_response (Error _ _ _) = True"
| "is_response (Capabilities _ _) = True"
| "is_response _ = False"

lemma lit_text: "list_all (\<lambda>c. 0 < (of_char c :: nat) \<and> (of_char c :: nat) < 0x80) s \<Longrightarrow> length s \<le> 64 \<Longrightarrow>
    valid_text 0 64 (lit s)"
  by (rule valid_text_plain) (simp, simp add: lit_def)

lemma auth_fails:
  assumes "\<not> callsign_ok who" shows "\<exists>e. auth_callsign who = Inl e \<and> is_InvalidFieldError e"
proof -
  have "\<not> is_ok (auth_callsign who)" using assms by (auto simp: auth_callsign_def is_ok_iff validate_callsign_Inr)
  then obtain e where e: "auth_callsign who = Inl e" by (cases "auth_callsign who") auto
  then have "is_InvalidFieldError e"
    by (auto simp: auth_callsign_def validate_callsign_def bindE_eq_Inl callsign_bytes_def text_bytes_def
        split: if_splits option.splits)
  with e show ?thesis by blast
qed

definition answers :: "protocol_object list \<Rightarrow> bool" where
  "answers rs \<longleftrightarrow> (\<forall>x \<in> set rs. valid_object x \<and> is_response x)"

lemma answers_simps [simp]: "answers []" "answers (x # rs) \<longleftrightarrow> valid_object x \<and> is_response x \<and> answers rs"
  "answers (rs @ rs') \<longleftrightarrow> answers rs \<and> answers rs'"
  by (auto simp: answers_def)

lemma page_count: "page_of key xs since limit = (items, nxt, mr) \<Longrightarrow> length items \<le> limit"
  by (auto simp: page_of_def Let_def)

lemma answers_messages:
  assumes "transportable (sv_db sv)" "valid_cursor since" "valid_max mx"
  shows "\<exists>rs. handle_get_new_messages who since mx sv = Inr rs \<and> answers rs"
proof (cases "sv_message_store sv \<and> callsign_ok who")
  case True
  let ?db = "sv_db sv"
  obtain items nxt mr where p: "page_of st_sequence (mailbox_log who ?db) since (nat mx) = (items, nxt, mr)"
    by (metis prod_cases3)
  have "valid_object (wire_message ?db x) \<and> is_response (wire_message ?db x)" if "x \<in> set items" for x
    using that p wire_message_ok(2) [OF assms(1)] True
    by (auto simp: mailbox_log_def page_of_map Let_def wire_message_def dest!: in_set_takeD)
  then have items: "answers (map (wire_message ?db) items)" by (auto simp: answers_def)
  show ?thesis
  proof (cases "since \<le> mailbox_last ?db who")
    case le: True
    have "nxt \<le> mailbox_last ?db who \<and> 0 \<le> nxt"
      using mb.fetch_next_cursor [of who ?db since "nat mx" items nxt mr]
        mb.fetch_page [of who ?db since "nat mx"] p le True assms callsign_utf8 [of who]
      by (auto simp: addressed_def transportable_def)
    moreover have "mailbox_last ?db who \<le> MAX_U32"
      using mailbox_last_bounds transportable_parts(3) [OF assms(1)] by blast
    moreover have "int (length items) < 256" using page_count [OF p] assms(3) by linarith
    ultimately show ?thesis
      using True get_new_messages_handled [OF assms(1) _ _ assms(2,3), of who] le p items by simp
  next
    case False
    then show ?thesis using True get_new_messages_handled [OF assms(1) _ _ assms(2,3), of who]
      by (simp add: lit_text)
  qed
next
  case False
  then show ?thesis using auth_fails [of who] by (auto simp: handle_get_new_messages_def lit_text)
qed

lemma answers_bulletins:
  assumes "transportable (sv_db sv)" "valid_cursor since" "valid_max mx"
  shows "\<exists>rs. handle_get_new_bulletins who since mx sv = Inr rs \<and> answers rs"
proof (cases "sv_bulletin_store sv \<and> callsign_ok who")
  case True
  let ?db = "sv_db sv"
  let ?h = "\<lambda>h. BulletinHeader (sbh_sequence h) (sbh_created_at h) (sbh_author h) (sbh_title h)"
  note b = transportable_parts(4) [OF assms(1)]
  obtain items nxt mr where p: "page_of sbh_sequence (bulletin_log ?db) since (nat mx) = (items, nxt, mr)"
    by (metis prod_cases3)
  have "valid_object (?h x)" if x: "x \<in> set items" for x
  proof -
    obtain r where r: "r \<in> set (bulletins ?db)" "x = header_view r"
      using x p by (auto simp: bulletin_log_def page_of_map Let_def dest!: in_set_takeD)
    then have "bulletin_wire_ok r" "bulletin_typed r" using assms(1) b by (auto simp: transportable_def bulletins_ok_def)
    then show ?thesis using r(2)
      by (auto simp: header_view_def bulletin_wire_ok_def bulletin_typed_def bulletin_check_def)
  qed
  then have items: "answers (map ?h items)" by (auto simp: answers_def)
  show ?thesis
  proof (cases "since \<le> bulletin_count ?db")
    case le: True
    have "nxt \<le> bulletin_count ?db \<and> 0 \<le> nxt"
      using bl.fetch_next_cursor [of ?db since "nat mx" items nxt mr]
        bl.fetch_page [of ?db since "nat mx"] p le True assms
      by (auto simp: transportable_def)
    moreover have "bulletin_count ?db \<le> MAX_U32" using b by (simp add: bulletins_ok_def)
    moreover have "int (length items) < 256" using page_count [OF p] assms(3) by linarith
    ultimately show ?thesis
      using True get_new_bulletins_handled [OF assms(1) _ _ assms(2,3), of who] le p items by simp
  next
    case False
    then show ?thesis using True get_new_bulletins_handled [OF assms(1) _ _ assms(2,3), of who]
      by (simp add: lit_text)
  qed
next
  case False
  then show ?thesis using auth_fails [of who] by (auto simp: handle_get_new_bulletins_def lit_text)
qed

lemma answers_bulletin:
  assumes "transportable (sv_db sv)" "valid_seq n"
  shows "\<exists>rs. handle_get_bulletin who n sv = Inr rs \<and> answers rs"
proof (cases "sv_bulletin_store sv \<and> callsign_ok who")
  case True
  then have h: "handle_get_bulletin who n sv = Inr [case find (\<lambda>r. br_sequence r = n) (bulletins (sv_db sv)) of
      None \<Rightarrow> Error (Op GET_BULLETIN) NOT_FOUND (lit ''bulletin not found'')
    | Some r \<Rightarrow> Bulletin n (br_created r) (the_text (br_author r)) (the_text (br_title r)) (the_utf8 (br_body r))]"
    using get_bulletin_handled [OF assms(1) _ _ assms(2), of who] by simp
  show ?thesis
  proof (cases "find (\<lambda>r. br_sequence r = n) (bulletins (sv_db sv))")
    case None
    then show ?thesis using h by (simp add: lit_text)
  next
    case (Some r)
    from find_bulletin [OF assms(1) this] Some show ?thesis using h assms(2)
      by (simp add: bulletin_wire_ok_def bulletin_typed_def bulletin_check_def)
  qed
next
  case False
  then show ?thesis using auth_fails [of who] by (auto simp: handle_get_bulletin_def lit_text)
qed

lemma answers_message:
  assumes "transportable (sv_db sv)" "callsign_ok peer" "valid_seq n"
  shows "\<exists>rs. handle_get_message who peer n sv = Inr rs \<and> answers rs"
proof (cases "sv_message_store sv \<and> callsign_ok who")
  case True
  let ?inc = "incoming (sv_db sv) who peer"
  have "valid_object (wire_message (sv_db sv) (view True (?inc ! nat (n - 1))))"
    "mr_author (?inc ! nat (n - 1)) = SText peer" "mr_recipient (?inc ! nat (n - 1)) = SText who"
    if "n \<le> int (length ?inc)"
  proof -
    have "nat (n - 1) < length ?inc" using that assms(3) by linarith
    from incoming_sub [OF nth_mem [OF this]] True wire_message_ok(2) [OF assms(1)]
    show "valid_object (wire_message (sv_db sv) (view True (?inc ! nat (n - 1))))"
      "mr_author (?inc ! nat (n - 1)) = SText peer" "mr_recipient (?inc ! nat (n - 1)) = SText who" by auto
  qed
  then show ?thesis
    using get_message_handled [OF assms(1) _ _ assms(2,3), of who] True assms(3)
    by (auto simp: lit_text Let_def wire_message_def)
next
  case False
  then show ?thesis using auth_fails [of who]
    by (auto simp: handle_get_message_def lit_text)
qed

text \<open>The effect of a SEND_MESSAGE request, as a function of who sends it.\<close>

definition send_effect :: "pystr \<Rightarrow> int \<Rightarrow> pystr \<Rightarrow> pystr \<Rightarrow> int \<Rightarrow> server \<Rightarrow> protocol_object list outcome" where
  "send_effect who c r b t sv =
     (if \<not> sv_message_store sv
      then (Inr [Error (Op SEND_MESSAGE) BUSY (lit ''message store unavailable'')], [], sv)
      else if \<not> callsign_ok who
      then (Inr [Error (Op SEND_MESSAGE) UNAUTHORIZED (lit ''invalid authenticated callsign'')], [], sv)
      else if mailbox_last (sv_db sv) r = MAX_U32
      then (Inr [Error (Op SEND_MESSAGE) BUSY (lit ''message storage exhausted'')], [], sv)
      else (Inr [Stored], map (\<lambda>l. MessageEvent l (accepted_event c who r b (sv_db sv))) (sv_message_listeners sv),
            sv\<lparr>sv_db := accept c who r (body_bytes b) t (sv_db sv)\<rparr>))"

definition ready :: "server \<Rightarrow> int \<Rightarrow> bool" where
  "ready sv t \<longleftrightarrow> transportable (sv_db sv) \<and> message_count (sv_db sv) + 1 < 2 ^ 63 \<and> 0 \<le> t \<and> t \<le> MAX_SQLITE_INTEGER"

lemma send_effect_run:
  assumes "ready sv t" "valid_object (SendMessage c r b)"
  shows "handle_send_message who c r b (PInt t) sv = send_effect who c r b t sv"
proof -
  have tr: "transportable (sv_db sv)" "message_count (sv_db sv) + 1 < 2 ^ 63" "0 \<le> t" "t \<le> MAX_SQLITE_INTEGER"
    using assms(1) by (auto simp: ready_def)
  have "mailbox_last (sv_db sv) r \<le> MAX_U32"
    using mailbox_last_bounds transportable_parts(3) [OF tr(1)] by blast
  then have lt: "mailbox_last (sv_db sv) r < MAX_U32 \<longleftrightarrow> mailbox_last (sv_db sv) r \<noteq> MAX_U32" by linarith
  consider "\<not> sv_message_store sv" | "\<not> callsign_ok who" | "sv_message_store sv" "callsign_ok who" by blast
  then show ?thesis
  proof cases
    case 1
    then show ?thesis by (simp add: handle_send_message_def send_effect_def)
  next
    case 2
    then show ?thesis using auth_fails [of who] by (auto simp: handle_send_message_def send_effect_def)
  next
    case 3
    then show ?thesis
      using send_message_handled [OF tr(1) 3 assms(2) tr(2-4)] lt by (simp add: send_effect_def)
  qed
qed

lemma send_effect_ok:
  assumes "ready sv t" "valid_object (SendMessage c r b)" "send_effect who c r b t sv = (res, ev, sv')"
  shows "\<exists>rs. res = Inr rs \<and> answers rs \<and> transportable (sv_db sv')"
proof -
  have tr: "transportable (sv_db sv)" "0 \<le> t" "t \<le> MAX_SQLITE_INTEGER"
    using assms(1) by (auto simp: ready_def)
  have "mailbox_last (sv_db sv) r \<le> MAX_U32"
    using mailbox_last_bounds transportable_parts(3) [OF tr(1)] by blast
  then show ?thesis
    using assms(3) tr(1) accept_transportable(2) [OF tr(1) _ assms(2) _ tr(2,3), of who]
    by (auto simp: send_effect_def lit_text split: if_splits)
qed

lemma dispatch_total:
  assumes "ready sv t" "valid_object request \<or> (\<exists>c. request = Capabilities 0 c)"
  shows "\<exists>rs ev sv'. dispatch who request (PInt t) sv = (Inr rs, ev, sv') \<and> answers rs \<and> transportable (sv_db sv')"
proof -
  have tr: "transportable (sv_db sv)" using assms(1) by (simp add: ready_def)
  show ?thesis
  proof (cases request)
    case (SendMessage c r b)
    then show ?thesis
      using send_effect_run [OF assms(1)] assms(2) send_effect_ok [OF assms(1)]
      by (cases "send_effect who c r b t sv") (auto simp: dispatch_def simp del: valid_object.simps)
  next
    case (GetNewMessages s m)
    then show ?thesis using answers_messages [OF tr, of s m who] assms(2) tr by (auto simp: dispatch_def reading_def)
  next
    case (GetNewBulletins s m)
    then show ?thesis using answers_bulletins [OF tr, of s m who] assms(2) tr by (auto simp: dispatch_def reading_def)
  next
    case (GetBulletin n)
    then show ?thesis using answers_bulletin [OF tr, of n who] assms(2) tr by (auto simp: dispatch_def reading_def)
  next
    case (GetMessage peer n)
    then show ?thesis using answers_message [OF tr, of peer n who] assms(2) tr by (auto simp: dispatch_def reading_def)
  next
    case GetCapabilities
    have "valid_object (Capabilities PROTOCOL_VERSION IMPLEMENTED_CAPABILITIES)"
      by (simp add: IMPLEMENTED_CAPABILITIES_def)
    then show ?thesis using GetCapabilities tr by (simp add: dispatch_def reading_def del: valid_object.simps)
  qed (use tr in \<open>auto simp: dispatch_def reading_def lit_text\<close>)
qed

text \<open>Response frames: each at most 259 bytes, each decoding to a valid response.\<close>

definition response_frames :: "bytes list \<Rightarrow> protocol_object list \<Rightarrow> bool" where
  "response_frames fs rs \<longleftrightarrow> list_all2 (\<lambda>f r. length f \<le> MAX_FRAME_SIZE
     \<and> decode_frame (PBytes f) = Inr r \<and> is_response r) fs rs"

lemma encode_answers:
  assumes "answers rs"
  shows "\<exists>fs. mapE (\<lambda>r. encode_frame r False) rs = Inr fs \<and> response_frames fs rs"
  using assms
proof (induction rs)
  case (Cons r rs)
  then obtain fs where fs: "mapE (\<lambda>r. encode_frame r False) rs = Inr fs" "response_frames fs rs" by auto
  have "is_ok (encode_frame r False)" using Cons.prems encode_frame_ok by auto
  then obtain f where f: "encode_frame r False = Inr f" by (auto simp: is_ok_iff)
  then have "length f \<le> MAX_FRAME_SIZE \<and> decode_frame (PBytes f) = Inr r"
    using encode_frame_length [OF f] decode_encode_frame [OF f] by (simp add: decode_frame_iff)
  then show ?case using f fs Cons.prems by (simp add: response_frames_def)
qed (simp add: response_frames_def)

lemma decoded_valid:
  assumes "decode_frame (PBytes d) = Inr request"
  shows "valid_object request \<or> (\<exists>c. request = Capabilities 0 c)"
proof -
  have "decode_frame_with_flags (PBytes d) = Inr (request, 0)" using assms by (simp add: decode_frame_iff)
  from encode_decode_frame [OF this] show ?thesis using encode_frame_ok [of request False] by auto
qed

lemma error_response_valid:
  assumes "codec_error e" "decode_error_response (PBytes d) e = Some r"
  shows "valid_object r \<and> is_response r"
proof -
  have "valid_text 0 64 (take 64 (exn_str e))"
    using assms(1) by (intro valid_text_plain) (auto simp: codec_error_def plain_take)
  then show ?thesis using assms(2)
    by (auto simp: decode_error_response_def Let_def split: if_splits exn.splits option.splits)
qed

lemma encode_answer:
  assumes "valid_object r" "is_response r"
  shows "\<exists>f. encode_frame r False = Inr f \<and> response_frames [f] [r]"
  using encode_answers [of "[r]"] assms by (auto simp: bindE_eq_Inr)

section \<open>Properties\<close>

text \<open>C11. The node answers every byte string: on a database whose rows the protocol can carry,
  handling any frame from any user raises nothing, and returns frames of at most 259 bytes that
  decode to valid responses; the database stays one whose rows the protocol can carry.\<close>

theorem handle_frame_total:
  assumes "ready sv t"
  shows "\<exists>fs rs ev sv'. handle_frame (PStr who) (PBytes d) (PInt t) sv = (Inr fs, ev, sv')
    \<and> response_frames fs rs \<and> transportable (sv_db sv')"
proof (cases "decode_frame (PBytes d)")
  case (Inl e)
  then have ce: "codec_error e" by (rule decode_frame_raises)
  then have c: "is_ProtocolDecodeError e \<or> is_InvalidFieldError e" by (simp add: codec_error_def)
  have tr: "transportable (sv_db sv)" using assms by (simp add: ready_def)
  show ?thesis
  proof (cases "decode_error_response (PBytes d) e")
    case None
    then show ?thesis using Inl c tr by (auto simp: handle_frame_def response_frames_def)
  next
    case (Some r)
    with encode_answer error_response_valid [OF ce Some] obtain f
      where "encode_frame r False = Inr f" "response_frames [f] [r]" by blast
    then show ?thesis using Inl c tr Some by (auto simp: handle_frame_def)
  qed
next
  case (Inr request)
  from dispatch_total [OF assms decoded_valid [OF Inr], of who] obtain rs ev sv'
    where d: "dispatch who request (PInt t) sv = (Inr rs, ev, sv')" "answers rs" "transportable (sv_db sv')" by blast
  from encode_answers [OF d(2)] obtain fs where "mapE (\<lambda>r. encode_frame r False) rs = Inr fs" "response_frames fs rs"
    by blast
  then show ?thesis using Inr d by (auto simp: handle_frame_def)
qed

definition sample_server :: "database \<Rightarrow> server" where
  "sample_server db = \<lparr>sv_message_store = True, sv_bulletin_store = True, sv_message_listeners = [0, 1],
     sv_delivery_listeners = [0], sv_db = db\<rparr>"

lemma sample_transportable: "transportable empty_database" "transportable sample1"
proof -
  show e: "transportable empty_database"
    using empty_stores_ok by (simp add: transportable_def empty_messages) (simp add: empty_database_def)
  have "valid_object (SendMessage 7 (lit ''B2B'') (lit ''hi''))"
    by (simp add: callsign_ok_def lit_def is_digit_def is_upper_def valid_text_def utf8_size_def scalar_def)
  moreover have "callsign_ok (lit ''A1A'')" by (simp add: callsign_ok_def lit_def is_digit_def is_upper_def)
  ultimately show "transportable sample1"
    unfolding sample1_run by (intro accept_transportable(2) [OF e]) (simp_all add: empty_counts)
qed

lemma sample_ready: "ready (sample_server empty_database) 9" "ready (sample_server sample1) 9"
  using sample_transportable
  by (simp_all add: ready_def sample_server_def empty_counts) (simp add: sample1_run empty_counts)

theorem handle_frame_total_witness:
  "\<exists>fs rs ev sv'. handle_frame (PStr [0xD800]) (PBytes [1, 2, 3]) (PInt 9) (sample_server sample1) = (Inr fs, ev, sv')
    \<and> response_frames fs rs \<and> transportable (sv_db sv')"
  by (rule handle_frame_total [OF sample_ready(2)])

text \<open>The ERROR code a decoding failure is reported with.\<close>

definition error_code_for :: "exn \<Rightarrow> bytes \<Rightarrow> error_code" where
  "error_code_for e d =
     (case e of
        UnsupportedVersionError _ \<Rightarrow> UNSUPPORTED_VERSION
      | UnknownOperationError _ \<Rightarrow> UNKNOWN_OPERATION
      | _ \<Rightarrow> if is_InvalidFieldError e \<and> d ! 2 = 0 then INVALID_FIELD else INVALID_FRAME)"

text \<open>C12. A frame that does not decode changes nothing and notifies nobody; it is dropped when it
  is shorter than the header, and otherwise answered by one ERROR frame whose code follows the
  kind of the error and whose detail is the first 64 characters of its text. A field that is too
  long is answered like any other invalid field, by INVALID_FIELD, or by INVALID_FRAME if the flags
  are not zero; TOO_LARGE, which the protocol's design asks for, is never used.\<close>

theorem malformed_frame_answer:
  assumes "decode_frame (PBytes d) = Inl e"
  shows "\<exists>fs. handle_frame (PStr who) (PBytes d) clock sv = (Inr fs, [], sv)
    \<and> (if length d < 4 then fs = []
       else \<exists>f q. fs = [f] \<and> decode_frame (PBytes f) = Inr (Error q (error_code_for e d) (take 64 (exn_str e))))"
proof -
  have ce: "codec_error e" by (rule decode_frame_raises [OF assms])
  then have c: "is_ProtocolDecodeError e \<or> is_InvalidFieldError e" by (simp add: codec_error_def)
  show ?thesis
  proof (cases "length d < 4")
    case True
    then show ?thesis using assms c by (simp add: handle_frame_def decode_error_response_def)
  next
    case False
    have "\<exists>q. decode_error_response (PBytes d) e = Some (Error q (error_code_for e d) (take 64 (exn_str e)))"
      using False c by (cases e) (simp_all add: decode_error_response_def error_code_for_def Let_def)
    then obtain q where q: "decode_error_response (PBytes d) e = Some (Error q (error_code_for e d) (take 64 (exn_str e)))"
      by blast
    from encode_answer error_response_valid [OF ce q] obtain f
      where "encode_frame (Error q (error_code_for e d) (take 64 (exn_str e))) False = Inr f"
        "response_frames [f] [Error q (error_code_for e d) (take 64 (exn_str e))]" by blast
    then show ?thesis using assms c q False by (auto simp: handle_frame_def response_frames_def)
  qed
qed

theorem malformed_frame_answer_witness:
  "\<exists>fs. handle_frame (PStr []) (PBytes [2, 1, 0, 0]) (PInt 0) (sample_server sample1) = (Inr fs, [], sample_server sample1)
    \<and> (if length [2, 1, 0, 0 :: byte] < 4 then fs = []
       else \<exists>f q. fs = [f] \<and> decode_frame (PBytes f) = Inr (Error q
         (error_code_for (UnsupportedVersionError (lit ''unsupported protocol version: '' @ hex_byte 2)) [2, 1, 0, 0])
         (take 64 (exn_str (UnsupportedVersionError (lit ''unsupported protocol version: '' @ hex_byte 2))))))"
  by (rule malformed_frame_answer)
    (simp add: decode_frame_def codec_decode_frame_def decode_header_def is_get_message_frame.simps)

text \<open>C13. Sending: a SEND_MESSAGE frame from an authenticated user, while the mailbox has numbers
  left, is answered by one STORED frame; exactly one message is appended, with the authenticated
  user as its author and the next mailbox number; and every listener is told of it once, with its
  conversation number.\<close>

theorem send_message_end_to_end:
  assumes "ready sv t" "sv_message_store sv" "callsign_ok who" "encode_frame (SendMessage c r b) False = Inr d"
    "mailbox_last (sv_db sv) r < MAX_U32"
  shows "\<exists>sv' row. handle_frame (PStr who) (PBytes d) (PInt t) sv = (Inr [[1, 0x44, 0, 0]],
      map (\<lambda>l. MessageEvent l (Message (mailbox_last (sv_db sv) r + 1)
        (int (length (incoming (sv_db sv) r who)) + 1) c who r b)) (sv_message_listeners sv), sv')
    \<and> messages (sv_db sv') = messages (sv_db sv) @ [row]
    \<and> stored_message_of row False = Inr
        \<lparr>st_sequence = mailbox_last (sv_db sv) r + 1, st_created_at = c, st_accepted_at = t,
         st_author = who, st_recipient = r, st_body = b, st_api_sequence = 0\<rparr>"
proof -
  have v: "valid_object (SendMessage c r b)" using assms(4) encode_frame_ok [of "SendMessage c r b" False] by auto
  have d: "decode_frame (PBytes d) = Inr (SendMessage c r b)"
    using decode_encode_frame [OF assms(4)] by (simp add: decode_frame_iff)
  have tr: "transportable (sv_db sv)" "0 \<le> t" "t \<le> MAX_SQLITE_INTEGER" using assms(1) by (auto simp: ready_def)
  let ?row = "accepted_row c who r (body_bytes b) t (sv_db sv)"
  note acc = accept_transportable [OF tr(1) assms(3) v assms(5) tr(2,3)]
  have "stored_message_of ?row False = Inr (view False ?row)"
    by (rule stored_message_of_ok [OF accepted_well_typed [OF transportable_parts(3) [OF tr(1)]
        storable_acceptable [OF acc(1) tr(2,3)] assms(5)]])
  moreover have "view False ?row = \<lparr>st_sequence = mailbox_last (sv_db sv) r + 1, st_created_at = c,
      st_accepted_at = t, st_author = who, st_recipient = r, st_body = b, st_api_sequence = 0\<rparr>"
    using acc(4) [of False] by (simp add: view_def accepted_row_def)
  moreover have "encode_frame Stored False = Inr [1, 0x44, 0, 0]"
    by (simp add: encode_frame_def codec_encode_frame_def)
  moreover have "handle_send_message who c r b (PInt t) sv = (Inr [Stored],
      map (\<lambda>l. MessageEvent l (accepted_event c who r b (sv_db sv))) (sv_message_listeners sv),
      sv\<lparr>sv_db := accept c who r (body_bytes b) t (sv_db sv)\<rparr>)"
    using send_effect_run [OF assms(1) v, of who] assms(2,3,5) by (simp add: send_effect_def)
  ultimately show ?thesis
    by (intro exI [of _ "sv\<lparr>sv_db := accept c who r (body_bytes b) t (sv_db sv)\<rparr>"] exI [of _ ?row])
      (simp add: handle_frame_def d dispatch_def accepted_event_def)
qed

lemma sample_request: "valid_object (SendMessage 7 (lit ''B2B'') (lit ''hi''))" "callsign_ok (lit ''A1A'')"
  by (simp_all add: callsign_ok_def lit_def is_digit_def is_upper_def valid_text_def utf8_size_def scalar_def)

theorem send_message_end_to_end_witness:
  "\<exists>d sv' row. handle_frame (PStr (lit ''A1A'')) (PBytes d) (PInt 9) (sample_server sample1) = (Inr [[1, 0x44, 0, 0]],
      map (\<lambda>l. MessageEvent l (Message (mailbox_last sample1 (lit ''B2B'') + 1)
        (int (length (incoming sample1 (lit ''B2B'') (lit ''A1A''))) + 1) 7 (lit ''A1A'') (lit ''B2B'') (lit ''hi''))) [0, 1], sv')
    \<and> messages (sv_db sv') = messages sample1 @ [row]
    \<and> stored_message_of row False = Inr
        \<lparr>st_sequence = mailbox_last sample1 (lit ''B2B'') + 1, st_created_at = 7, st_accepted_at = 9,
         st_author = lit ''A1A'', st_recipient = lit ''B2B'', st_body = lit ''hi'', st_api_sequence = 0\<rparr>"
proof -
  obtain d where d: "encode_frame (SendMessage 7 (lit ''B2B'') (lit ''hi'')) False = Inr d"
    using sample_request(1) encode_frame_ok [of "SendMessage 7 (lit ''B2B'') (lit ''hi'')" False] by (auto simp: is_ok_iff)
  have "mailbox_last sample1 (lit ''B2B'') < MAX_U32" by (simp add: sample_counts)
  with send_message_end_to_end [OF sample_ready(2) _ sample_request(2) d] show ?thesis
    by (simp add: sample_server_def) blast
qed

end
