(* ===== verification/Radix.thy ===== *)
theory Radix
  imports Protocol
begin

text \<open>
  The text codes of \<open>transport/aprs/carriage.py\<close>: fixed-width base36, the bit-packing basE91
  of the compact profile, and the unpadded URL-safe Base64 of the legacy profile (the part of
  Python's \<open>base64\<close> module that the source uses). Each is shown to be a coding: decoding
  inverts encoding. The interface of codings is a locale, interpreted on all three.
\<close>

section \<open>Codings\<close>

locale coding =
  fixes encode :: "'a \<Rightarrow> pystr" and decode :: "pystr \<Rightarrow> 'a result" and valid :: "'a \<Rightarrow> bool"
  assumes decode_encode: "valid x \<Longrightarrow> decode (encode x) = Inr x"
begin

lemma encode_inject: "valid x \<Longrightarrow> valid y \<Longrightarrow> encode x = encode y \<longleftrightarrow> x = y"
  by (metis decode_encode Inr_inject)

lemma decode_unique: "valid x \<Longrightarrow> decode (encode x) = Inr y \<Longrightarrow> y = x"
  by (simp add: decode_encode)

lemma decode_tagged: "valid x \<Longrightarrow> decode (drop (length tag) (tag @ encode x)) = Inr x"
  by (simp add: decode_encode)

end

section \<open>Base 36\<close>

definition B36 :: pystr where
  "B36 = lit ''0123456789ABCDEFGHIJKLMNOPQRSTUVWXYZ''"

fun base36_digits :: "nat \<Rightarrow> int \<Rightarrow> pystr \<Rightarrow> pystr" where
  "base36_digits 0 value text = text"
| "base36_digits (Suc n) value text = base36_digits n (value div 36) (B36 ! nat (value mod 36) # text)"

definition base36 :: "int \<Rightarrow> nat \<Rightarrow> pystr result" where
  "base36 value width =
     (if \<not> (0 \<le> value \<and> value < 36 ^ width)
      then Inl (CarriageError (lit ''value does not fit in '' @ dec (int width) @ lit '' base36 characters''))
      else Inr (base36_digits width value []))"

text \<open>\<open>int(value, 36)\<close> on characters of the alphabet.\<close>

definition digit36 :: "nat \<Rightarrow> int" where
  "digit36 c = (if c < 58 then int c - 48 else int c - 55)"

definition int36 :: "pystr \<Rightarrow> int" where
  "int36 s = foldl (\<lambda>a c. a * 36 + digit36 c) 0 s"

definition parse_base36 :: "pystr \<Rightarrow> nat \<Rightarrow> int result" where
  "parse_base36 value width =
     (if length value \<noteq> width \<or> (\<exists>c \<in> set value. c \<notin> set B36)
      then Inl (CarriageError (lit ''expected '' @ dec (int width) @ lit '' uppercase base36 characters''))
      else Inr (int36 value))"

lemma B36_upt: "B36 = [48..<58] @ [65..<91]"
  by (simp add: B36_def lit_def upt_rec)

lemma B36_length [simp]: "length B36 = 36"
  by (simp add: B36_upt del: upt_rec_numeral)

lemma B36_mem: "c \<in> set B36 \<longleftrightarrow> 48 \<le> c \<and> c < 58 \<or> 65 \<le> c \<and> c < 91"
  by (auto simp: B36_upt simp del: upt_rec_numeral)

lemma B36_nth: "n < 36 \<Longrightarrow> B36 ! n = (if n < 10 then 48 + n else 55 + n)"
  by (simp add: B36_upt nth_append del: upt_rec_numeral)

lemma B36_digit [simp]: "n < 36 \<Longrightarrow> digit36 (B36 ! n) = int n"
  by (auto simp: B36_nth digit36_def)

lemma B36_digit_char: "c \<in> set B36 \<Longrightarrow> 0 \<le> digit36 c \<and> digit36 c < 36 \<and> B36 ! nat (digit36 c) = c"
  by (auto simp: B36_mem B36_nth digit36_def)

lemma int36_snoc: "int36 (s @ [c]) = int36 s * 36 + digit36 c"
  by (simp add: int36_def)

lemma base36_digits_acc: "base36_digits n v r = base36_digits n v [] @ r"
proof (induction n arbitrary: v r)
  case (Suc n)
  show ?case
    unfolding base36_digits.simps(2) [of n v r] base36_digits.simps(2) [of n v "[]"]
      Suc [of "v div 36" "B36 ! nat (v mod 36) # r"] Suc [of "v div 36" "[B36 ! nat (v mod 36)]"] by simp
qed simp

lemma base36_digits_Suc: "base36_digits (Suc n) v [] = base36_digits n (v div 36) [] @ [B36 ! nat (v mod 36)]"
  using base36_digits_acc [of n "v div 36" "[B36 ! nat (v mod 36)]"] by simp

lemma base36_digits_length [simp]: "length (base36_digits n v []) = n"
  by (induction n arbitrary: v) (simp_all add: base36_digits_Suc del: base36_digits.simps(2))

lemma base36_digits_set: "set (base36_digits n v []) \<subseteq> set B36"
proof (induction n arbitrary: v)
  case (Suc n)
  have "nat (v mod 36) < length B36" by (simp add: nat_less_iff)
  then have "B36 ! nat (v mod 36) \<in> set B36" by (rule nth_mem)
  then show ?case using Suc by (simp add: base36_digits_Suc del: base36_digits.simps(2))
qed simp

lemma int36_digits: "0 \<le> v \<Longrightarrow> v < 36 ^ n \<Longrightarrow> int36 (base36_digits n v []) = v"
proof (induction n arbitrary: v)
  case (Suc n)
  have "v div 36 < 36 ^ n" using Suc.prems by (simp add: div_less_iff_less_mult mult.commute)
  then have "int36 (base36_digits n (v div 36) []) = v div 36"
    using Suc.prems by (intro Suc.IH) (simp_all add: pos_imp_zdiv_nonneg_iff)
  then show ?case
    by (simp add: base36_digits_Suc int36_snoc nat_less_iff del: base36_digits.simps(2))
qed (simp add: int36_def)

lemma int36_bounds: "set s \<subseteq> set B36 \<Longrightarrow> 0 \<le> int36 s \<and> int36 s < 36 ^ length s"
proof (induction s rule: rev_induct)
  case (snoc c s)
  then show ?case using B36_digit_char [of c] by (auto simp: int36_snoc)
qed (simp add: int36_def)

lemma digits_int36: "set s \<subseteq> set B36 \<Longrightarrow> base36_digits (length s) (int36 s) [] = s"
proof (induction s rule: rev_induct)
  case (snoc c s)
  then have c: "0 \<le> digit36 c" "digit36 c < 36" "B36 ! nat (digit36 c) = c" using B36_digit_char by auto
  have d: "(int36 s * 36 + digit36 c) div 36 = int36 s" "(int36 s * 36 + digit36 c) mod 36 = digit36 c"
    using c(1,2) by (simp_all add: mod_pos_pos_trivial)
  show ?case using snoc d(1) c(2)
    by (simp add: int36_snoc base36_digits_Suc d c del: base36_digits.simps(2))
qed simp

lemma base36_Inr: "base36 v n = Inr s \<longleftrightarrow> 0 \<le> v \<and> v < 36 ^ n \<and> s = base36_digits n v []"
  by (auto simp: base36_def)

lemma parse_base36_Inr: "parse_base36 s n = Inr v \<longleftrightarrow> length s = n \<and> set s \<subseteq> set B36 \<and> v = int36 s"
  by (auto simp: parse_base36_def)

lemma parse_base36_text: "base36 v n = Inr s \<Longrightarrow> parse_base36 s n = Inr v"
  using base36_digits_set [of n v] by (simp add: base36_Inr parse_base36_Inr int36_digits)

lemma base36_parse: "parse_base36 s n = Inr v \<Longrightarrow> base36 v n = Inr s"
  using int36_bounds [of s] digits_int36 [of s] by (auto simp: parse_base36_Inr base36_Inr)

interpretation b36: coding "\<lambda>v. base36_digits n v []" "\<lambda>s. parse_base36 s n" "\<lambda>v. 0 \<le> v \<and> v < 36 ^ n" for n
  by unfold_locales (simp add: parse_base36_text base36_Inr)

section \<open>URL-safe Base64 without padding\<close>

text \<open>
  \<open>base64.urlsafe_b64encode(data).rstrip(b"=")\<close>, and \<open>base64.b64decode(text + padding,
  altchars=b"-_", validate=True)\<close> on a text whose length is not 1 modulo 4: the bits that a
  final group of two or three characters carries beyond whole bytes are ignored.
\<close>

definition B64 :: pystr where
  "B64 = [65..<91] @ [97..<123] @ [48..<58] @ lit ''-_''"

definition index64 :: "nat \<Rightarrow> nat" where
  "index64 c = (if c = 45 then 62 else if c = 95 then 63 else if c < 58 then c + 4
     else if c < 91 then c - 65 else c - 71)"

fun urlsafe_b64encode :: "bytes \<Rightarrow> pystr" where
  "urlsafe_b64encode [] = []"
| "urlsafe_b64encode [a] = [B64 ! (of_byte a div 4), B64 ! (of_byte a mod 4 * 16)]"
| "urlsafe_b64encode [a, b] =
     [B64 ! (of_byte a div 4), B64 ! (of_byte a mod 4 * 16 + of_byte b div 16), B64 ! (of_byte b mod 16 * 4)]"
| "urlsafe_b64encode (a # b # c # r) =
     [B64 ! (of_byte a div 4), B64 ! (of_byte a mod 4 * 16 + of_byte b div 16),
      B64 ! (of_byte b mod 16 * 4 + of_byte c div 64), B64 ! (of_byte c mod 64)] @ urlsafe_b64encode r"

fun b64_groups :: "nat list \<Rightarrow> bytes" where
  "b64_groups [p, q] = [byte_of (p * 4 + q div 16)]"
| "b64_groups [p, q, r] = [byte_of (p * 4 + q div 16), byte_of (q mod 16 * 16 + r div 4)]"
| "b64_groups (p # q # r # s # t) =
     [byte_of (p * 4 + q div 16), byte_of (q mod 16 * 16 + r div 4), byte_of (r mod 4 * 64 + s)] @ b64_groups t"
| "b64_groups _ = []"

definition b64decode :: "pystr \<Rightarrow> bytes" where
  "b64decode text = b64_groups (map index64 text)"

lemma B64_length [simp]: "length B64 = 64"
  by (simp add: B64_def lit_def del: upt_rec_numeral)

lemma B64_table: "B64 = map (\<lambda>n. if n < 26 then 65 + n else if n < 52 then 71 + n
    else if n < 62 then n - 4 else if n = 62 then 45 else 95) [0..<64]"
  by code_simp

lemma B64_nth: "n < 64 \<Longrightarrow> B64 ! n = (if n < 26 then 65 + n else if n < 52 then 71 + n
    else if n < 62 then n - 4 else if n = 62 then 45 else 95)"
  by (simp add: B64_table del: upt_rec_numeral)

lemma index64_B64 [simp]: "n < 64 \<Longrightarrow> index64 (B64 ! n) = n"
  by (auto simp: B64_nth index64_def)

definition is_b64 :: "nat \<Rightarrow> bool" where
  "is_b64 c \<longleftrightarrow> 65 \<le> c \<and> c < 91 \<or> 97 \<le> c \<and> c < 123 \<or> 48 \<le> c \<and> c < 58 \<or> c = 95 \<or> c = 45"

lemma is_b64_B64 [simp]: "n < 64 \<Longrightarrow> is_b64 (B64 ! n)"
  by (auto simp: B64_nth is_b64_def)

lemma byte_of_split: "of_byte b = n \<Longrightarrow> byte_of n = b"
  by auto

lemma byte_parts [simp]:
  "of_byte a div 4 < 64" "of_byte a div 16 < 16" "of_byte a div 64 < 4"
  "of_byte a div 16 div 16 = 0" "of_byte a div 16 mod 16 = of_byte a div 16"
  "of_byte a div 64 div 4 = 0" "of_byte a div 64 mod 4 = of_byte a div 64"
  using of_byte_less [of a] by (simp_all add: less_mult_imp_div_less)

lemma sextets [simp]:
  "of_byte a mod 4 * 16 + of_byte b div 16 < 64" "of_byte a mod 4 * 16 < 64"
  "of_byte b mod 16 * 4 + of_byte c div 64 < 64" "of_byte b mod 16 * 4 < 64" "of_byte c mod 64 < 64"
proof -
  have m: "of_byte a mod 4 < 4" "of_byte b mod 16 < 16" "of_byte c mod 64 < 64" by simp_all
  have d: "of_byte b div 16 < 16" "of_byte c div 64 < 4" by simp_all
  show "of_byte a mod 4 * 16 + of_byte b div 16 < 64" "of_byte a mod 4 * 16 < 64"
    "of_byte b mod 16 * 4 + of_byte c div 64 < 64" "of_byte b mod 16 * 4 < 64" "of_byte c mod 64 < 64"
    using m d by linarith+
qed

lemma b64decode_encode [simp]: "b64decode (urlsafe_b64encode data) = data"
  unfolding b64decode_def by (induction data rule: urlsafe_b64encode.induct) simp_all

lemma b64encode_chars: "c \<in> set (urlsafe_b64encode data) \<Longrightarrow> is_b64 c"
  by (induction data rule: urlsafe_b64encode.induct) auto

lemma b64encode_length: "length (urlsafe_b64encode data) = (length data * 4 + 2) div 3"
  by (induction data rule: urlsafe_b64encode.induct) auto

lemma b64encode_length_mod: "length (urlsafe_b64encode data) mod 4 \<noteq> 1"
  by (induction data rule: urlsafe_b64encode.induct) auto

interpretation b64: coding urlsafe_b64encode "\<lambda>s. Inr (b64decode s)" "\<lambda>_. True"
  by unfold_locales simp

end
