(* ===== verification/Base91.thy ===== *)
theory Base91
  imports Radix
begin

text \<open>
  \<open>base91_encode\<close> and \<open>base91_decode\<close> of \<open>transport/aprs/carriage.py\<close>. The encoder packs the
  bits of the data, least significant first, into pairs of characters of 13 or 14 bits each; the
  decoder tells the width of a pair from its value. Shown here: decoding inverts encoding on
  every non-empty byte string, the alphabet is safe in an APRS message body, and the text has at
  most \<open>2 * ((8 * n + 12) div 13)\<close> characters for \<open>n\<close> bytes.
\<close>

section \<open>Definitions\<close>

definition BASE91_ALPHABET :: pystr where
  "BASE91_ALPHABET = filter (\<lambda>value. value \<notin> set (lit ''{|~'')) [33..<127]"

definition BASE91_DECODE :: "nat \<Rightarrow> int option" where
  "BASE91_DECODE = map_of (zip BASE91_ALPHABET (map int [0..<length BASE91_ALPHABET]))"

definition b91_pair :: "int \<Rightarrow> pystr" where
  "b91_pair encoded = [BASE91_ALPHABET ! nat (encoded mod 91), BASE91_ALPHABET ! nat (encoded div 91)]"

fun encode_byte :: "int \<times> nat \<times> pystr \<Rightarrow> byte \<Rightarrow> int \<times> nat \<times> pystr" where
  "encode_byte (value, bits, output) byte =
     (let value = value OR push_bit bits (uint byte); bits = bits + 8 in
      if bits > 13
      then (let encoded = value AND 8191 in
            if encoded > 88
            then (drop_bit 13 value, bits - 13, output @ b91_pair encoded)
            else (drop_bit 14 value, bits - 14, output @ b91_pair (value AND 16383)))
      else (value, bits, output))"

definition base91_encode :: "bytes \<Rightarrow> pystr" where
  "base91_encode data =
     (let (value, bits, output) = foldl encode_byte (0, 0, []) data in
      if bits \<noteq> 0
      then output @ [BASE91_ALPHABET ! nat (value mod 91)]
             @ (if bits > 7 \<or> value > 90 then [BASE91_ALPHABET ! nat (value div 91)] else [])
      else output)"

text \<open>\<open>while bits >= 8\<close>: whole bytes leave the accumulator.\<close>

fun drain :: "int \<Rightarrow> nat \<Rightarrow> bytes \<Rightarrow> int \<times> nat \<times> bytes" where
  "drain accumulator bits output =
     (if bits \<ge> 8
      then drain (drop_bit 8 accumulator) (bits - 8) (output @ [word_of_int (accumulator AND 0xFF)])
      else (accumulator, bits, output))"

declare drain.simps [simp del]

fun decode_char :: "int \<times> int \<times> nat \<times> bytes \<Rightarrow> nat \<Rightarrow> (int \<times> int \<times> nat \<times> bytes) result" where
  "decode_char (value, accumulator, bits, output) character =
     (case BASE91_DECODE character of
        None \<Rightarrow> Inl (CarriageError (lit ''invalid Base91 character''))
      | Some decoded \<Rightarrow>
          if value < 0 then Inr (decoded, accumulator, bits, output)
          else (let value = value + decoded * 91;
                    accumulator = accumulator OR push_bit bits value;
                    bits = bits + (if value AND 8191 > 88 then 13 else 14);
                    (accumulator, bits, output) = drain accumulator bits output
                in Inr (- 1, accumulator, bits, output)))"

fun decode_chars :: "int \<times> int \<times> nat \<times> bytes \<Rightarrow> pystr \<Rightarrow> (int \<times> int \<times> nat \<times> bytes) result" where
  "decode_chars state [] = Inr state"
| "decode_chars state (character # text) = bindE (decode_char state character) (\<lambda>state. decode_chars state text)"

definition base91_decode :: "pystr \<Rightarrow> bytes result" where
  "base91_decode text =
     (if text = [] then Inl (CarriageError (lit ''invalid Base91 text''))
      else bindE (decode_chars (- 1, 0, 0, []) text) (\<lambda>(value, accumulator, bits, output).
        if value \<ge> 0
        then (let (_, _, output) = drain (accumulator OR push_bit bits value) (bits + 7) output in Inr output)
        else Inr output))"

section \<open>The alphabet\<close>

lemma ALPHABET_table: "BASE91_ALPHABET = [33..<123] @ [125]"
  by code_simp

lemma ALPHABET_length [simp]: "length BASE91_ALPHABET = 91"
  by (simp add: ALPHABET_table del: upt_rec_numeral)

lemma ALPHABET_nth: "n < 91 \<Longrightarrow> BASE91_ALPHABET ! n = (if n < 90 then 33 + n else 125)"
  by (simp add: ALPHABET_table nth_append del: upt_rec_numeral)

lemma ALPHABET_set: "c \<in> set BASE91_ALPHABET \<longleftrightarrow> 33 \<le> c \<and> c < 123 \<or> c = 125"
  by (auto simp: ALPHABET_table simp del: upt_rec_numeral)

lemma ALPHABET_distinct: "distinct BASE91_ALPHABET"
  by (simp add: BASE91_ALPHABET_def del: upt_rec_numeral)

lemma DECODE_nth [simp]: "n < 91 \<Longrightarrow> BASE91_DECODE (BASE91_ALPHABET ! n) = Some (int n)"
  using map_of_zip_nth [of BASE91_ALPHABET "map int [0..<91]" n] ALPHABET_distinct
  by (simp add: BASE91_DECODE_def)

lemma DECODE_Some: "BASE91_DECODE c = Some v \<Longrightarrow> 0 \<le> v \<and> v < 91"
  by (auto simp: BASE91_DECODE_def dest!: map_of_SomeD set_zip_rightD)

section \<open>Bits\<close>

lemma or_push_bit: "0 \<le> a \<Longrightarrow> a < 2 ^ n \<Longrightarrow> a OR push_bit n b = a + b * 2 ^ n" for a b :: int
proof -
  assume a: "0 \<le> a" "a < 2 ^ n"
  have "a = take_bit n a" using a by (simp add: take_bit_int_eq_self)
  then have "a AND push_bit n b = 0"
    by (metis take_bit_eq_mask and.assoc and.commute mult_zero_right push_bit_eq_mult and_zero_eq
        take_bit_push_bit diff_self_eq_0 take_bit_0 push_bit_of_0)
  then show ?thesis by (simp add: disjunctive_add_eq_or [symmetric] push_bit_eq_mult)
qed

lemma and_13 [simp]: "v AND 8191 = v mod 8192" for v :: int
  using take_bit_eq_mask [of 13 v] by (simp add: take_bit_eq_mod mask_eq_exp_minus_1)

lemma and_14 [simp]: "v AND 16383 = v mod 16384" for v :: int
  using take_bit_eq_mask [of 14 v] by (simp add: take_bit_eq_mod mask_eq_exp_minus_1)

lemma and_8 [simp]: "v AND 255 = v mod 256" for v :: int
  using take_bit_eq_mask [of 8 v] by (simp add: take_bit_eq_mod mask_eq_exp_minus_1)

lemma int_div_less: "v div q < n" if "0 < q" "v < n * q" for v q n :: int
proof (rule ccontr)
  assume "\<not> v div q < n"
  then have "n * q \<le> v div q * q" using that(1) by (intro mult_right_mono) simp_all
  also have "\<dots> \<le> v" using that(1) by (simp add: minus_mod_eq_div_mult [symmetric])
  finally show False using that(2) by simp
qed

lemma div_exp_less: "v < 2 ^ n \<Longrightarrow> w \<le> n \<Longrightarrow> v div 2 ^ w < 2 ^ (n - w)" for v :: int
proof -
  assume *: "v < 2 ^ n" "w \<le> n"
  then have "(2 :: int) ^ (n - w) * 2 ^ w = 2 ^ n" by (metis le_add_diff_inverse2 power_add)
  with * show ?thesis by (intro int_div_less) simp_all
qed

lemma exp_split: "(2 :: int) ^ n = 2 ^ (n mod 8) * 256 ^ (n div 8)"
proof -
  have "(2 :: int) ^ n = 2 ^ (n mod 8 + 8 * (n div 8))" by simp
  also have "\<dots> = 2 ^ (n mod 8) * 256 ^ (n div 8)" by (simp only: power_add power_mult) simp
  finally show ?thesis .
qed

lemma whole_bytes: "8 * a = 8 * b + c \<Longrightarrow> c = 8 * (c div 8) \<and> a = b + c div 8" for a b c :: nat
proof -
  assume *: "8 * a = 8 * b + c"
  then have "c = 8 * (a - b)" "b \<le> a" by arith+
  then show ?thesis by simp
qed

text \<open>Byte strings as little-endian numbers.\<close>

fun le_val :: "bytes \<Rightarrow> int" where
  "le_val [] = 0"
| "le_val (b # bs) = uint b + 256 * le_val bs"

lemma le_val_append: "le_val (xs @ ys) = le_val xs + 256 ^ length xs * le_val ys"
  by (induction xs) (simp_all add: algebra_simps)

lemma le_val_inject: "length xs = length ys \<Longrightarrow> le_val xs = le_val ys \<Longrightarrow> xs = ys"
proof (induction xs ys rule: list_induct2)
  case (Cons x xs y ys)
  have low: "(uint b + 256 * k) mod 256 = uint b" for b :: byte and k :: int
    by (simp add: mod_pos_pos_trivial)
  have "uint x = uint y"
    using arg_cong [OF Cons.prems, of "\<lambda>v. v mod 256"] by (simp add: low del: mod_mult_self2)
  then show ?case using Cons by (auto intro: unsigned_word_eqI)
qed simp

lemma drain_run:
  "\<exists>bs. drain acc bits out = (acc div 256 ^ (bits div 8), bits mod 8, out @ bs)
     \<and> length bs = bits div 8 \<and> le_val bs = acc mod 256 ^ (bits div 8)"
proof (induction acc bits out rule: drain.induct)
  case (1 acc bits out)
  show ?case
  proof (cases "bits \<ge> 8")
    case True
    let ?n = "(bits - 8) div 8"
    from 1 [OF True] obtain bs where bs: "length bs = ?n" "le_val bs = (acc div 256) mod 256 ^ ?n"
      "drain (drop_bit 8 acc) (bits - 8) (out @ [word_of_int (acc AND 255)])
         = (acc div 256 div 256 ^ ?n, (bits - 8) mod 8, (out @ [word_of_int (acc AND 255)]) @ bs)"
      by (auto simp: drop_bit_eq_div)
    have n: "bits div 8 = Suc ?n" "(bits - 8) mod 8 = bits mod 8" using True
      by (simp_all add: le_div_geq le_mod_geq)
    have "acc mod (256 * 256 ^ ?n) = acc mod 256 + 256 * (acc div 256 mod 256 ^ ?n)"
      by (simp add: zmod_zmult2_eq)
    with bs True n show ?thesis
      by (intro exI [of _ "word_of_int (acc AND 255) # bs"])
        (simp add: drain.simps [of acc] uint_word_of_int zdiv_zmult2_eq)
  qed (simp add: drain.simps [of acc])
qed

section \<open>Code streams\<close>

text \<open>
  What encoder and decoder share: the list of codes sent so far, each with the width that its
  value determines, and the number they stand for.
\<close>

definition code_width :: "int \<Rightarrow> nat" where
  "code_width e = (if e mod 8192 > 88 then 13 else 14)"

definition code_ok :: "int \<Rightarrow> bool" where
  "code_ok e \<longleftrightarrow> 0 \<le> e \<and> e < 2 ^ code_width e \<and> e < 8281"

fun stream :: "int list \<Rightarrow> int" where
  "stream [] = 0"
| "stream (e # es) = e + 2 ^ code_width e * stream es"

fun stream_bits :: "int list \<Rightarrow> nat" where
  "stream_bits [] = 0"
| "stream_bits (e # es) = code_width e + stream_bits es"

lemma stream_snoc: "stream (es @ [e]) = stream es + 2 ^ stream_bits es * e"
  by (induction es) (simp_all add: algebra_simps power_add)

lemma stream_bits_snoc [simp]: "stream_bits (es @ [e]) = stream_bits es + code_width e"
  by (induction es) simp_all

lemma width_bounds: "13 \<le> code_width e" "code_width e \<le> 14"
  by (simp_all add: code_width_def)

lemma stream_bits_length: "13 * length es \<le> stream_bits es"
  by (induction es) (use width_bounds(1) in \<open>auto intro: add_mono\<close>)

text \<open>The code taken from the low bits of a value, and what is left.\<close>

definition low_code :: "int \<Rightarrow> int" where
  "low_code v = (if v mod 8192 > 88 then v mod 8192 else v mod 16384)"

lemma low_code: 
  assumes "0 \<le> v"
  shows "code_ok (low_code v)" "v = low_code v + 2 ^ code_width (low_code v) * (v div 2 ^ code_width (low_code v))"
    "code_width (low_code v) = (if v mod 8192 > 88 then 13 else 14)"
proof -
  have m: "v mod 16384 mod 8192 = v mod 8192" by (simp add: mod_mod_cancel)
  have b: "v mod 16384 < 8192 + 89" if "\<not> v mod 8192 > 88"
  proof -
    have "v mod 16384 = 8192 * (v mod 16384 div 8192) + v mod 8192" using m by (metis mult_div_mod_eq)
    moreover have "v mod 16384 div 8192 < 2"
      using pos_mod_bound [of 16384 v] by (simp add: div_less_iff_less_mult)
    ultimately show ?thesis using that by linarith
  qed
  show w: "code_width (low_code v) = (if v mod 8192 > 88 then 13 else 14)"
    by (simp add: code_width_def low_code_def m)
  show "code_ok (low_code v)"
    using b unfolding code_ok_def w by (simp add: low_code_def) linarith
  show "v = low_code v + 2 ^ code_width (low_code v) * (v div 2 ^ code_width (low_code v))"
    unfolding w by (simp add: low_code_def)
qed

definition encoded :: "int \<times> nat \<times> pystr \<Rightarrow> bytes \<Rightarrow> int list \<Rightarrow> bool" where
  "encoded st data es \<longleftrightarrow>
     (case st of (value, bits, output) \<Rightarrow>
        output = concat (map b91_pair es) \<and> (\<forall>e \<in> set es. code_ok e)
        \<and> le_val data = stream es + 2 ^ stream_bits es * value \<and> 8 * length data = stream_bits es + bits
        \<and> 0 \<le> value \<and> value < 2 ^ bits \<and> bits \<le> 13)"

lemma encoded_byte:
  assumes "encoded (value, bits, output) data es"
  shows "\<exists>es'. encoded (encode_byte (value, bits, output) b) (data @ [b]) es'"
proof -
  let ?v = "value + uint b * 2 ^ bits"
  have v: "0 \<le> value" "value < 2 ^ bits" and n: "8 * length data = stream_bits es + bits" "bits \<le> 13"
    using assms by (auto simp: encoded_def)
  have or: "value OR push_bit bits (uint b) = ?v" by (rule or_push_bit [OF v])
  have "?v < (uint b + 1) * 2 ^ bits" using v by (simp add: distrib_right)
  also have "\<dots> \<le> 256 * 2 ^ bits"
    using uint_byte_bounds(3) [of b] by (intro mult_right_mono) simp_all
  finally have vb: "0 \<le> ?v" "?v < 2 ^ (bits + 8)"
    using v by (simp_all add: power_add mult.commute)
  have "(256 :: int) ^ length data = 2 ^ (8 * length data)" by (simp add: power_mult)
  then have p: "(256 :: int) ^ length data = 2 ^ stream_bits es * 2 ^ bits" using n(1) by (simp add: power_add)
  have le: "le_val (data @ [b]) = stream es + 2 ^ stream_bits es * ?v"
    using assms by (simp add: encoded_def le_val_append p algebra_simps)
  show ?thesis
  proof (cases "bits + 8 > 13")
    case False
    then show ?thesis using assms le vb by (intro exI [of _ es]) (simp add: encoded_def or)
  next
    case True
    let ?e = "low_code ?v" and ?w = "code_width (low_code ?v)"
    note e = low_code [OF vb(1)]
    have step: "encode_byte (value, bits, output) b = (?v div 2 ^ ?w, bits + 8 - ?w, output @ b91_pair ?e)"
      unfolding e(3) using True by (simp add: or low_code_def drop_bit_eq_div Let_def)
    have "stream es + 2 ^ stream_bits es * ?v = stream (es @ [?e]) + 2 ^ stream_bits (es @ [?e]) * (?v div 2 ^ ?w)"
      by (subst e(2)) (simp add: stream_snoc power_add algebra_simps)
    moreover have "?w \<le> bits + 8" "bits + 8 - ?w \<le> 13" using True n(2) width_bounds [of ?e] by linarith+
    moreover have "?v div 2 ^ ?w < 2 ^ (bits + 8 - ?w)"
      using vb(2) \<open>?w \<le> bits + 8\<close> by (rule div_exp_less)
    ultimately show ?thesis using assms e(1) vb(1) n(1)
      unfolding step by (intro exI [of _ "es @ [?e]"]) (simp add: encoded_def le pos_imp_zdiv_nonneg_iff)
  qed
qed

lemma encoded_bytes: "\<exists>es. encoded (foldl encode_byte (0, 0, []) data) data es"
proof (induction data rule: rev_induct)
  case Nil
  show ?case by (intro exI [of _ "[]"]) (simp add: encoded_def)
next
  case (snoc b data)
  then show ?case using encoded_byte [of _ _ _ data _ b] by (cases "foldl encode_byte (0, 0, []) data") auto
qed

section \<open>Decoding what was encoded\<close>

definition decoded :: "int \<times> int \<times> nat \<times> bytes \<Rightarrow> int list \<Rightarrow> bool" where
  "decoded st es \<longleftrightarrow>
     (case st of (value, acc, bits, output) \<Rightarrow>
        value = - 1 \<and> stream es = le_val output + 256 ^ length output * acc
        \<and> stream_bits es = 8 * length output + bits \<and> bits < 8 \<and> 0 \<le> acc \<and> acc < 2 ^ bits)"

lemma code_digits: "code_ok e \<Longrightarrow> nat (e mod 91) < 91 \<and> nat (e div 91) < 91 \<and> e = e mod 91 + e div 91 * 91"
  by (auto simp: code_ok_def nat_less_iff div_less_iff_less_mult)

lemma decode_pair:
  assumes "0 \<le> e" "e < 8281"
  shows "decode_chars (- 1, acc, bits, output) (b91_pair e) =
     (let (acc, bits, output) = drain (acc OR push_bit bits e) (bits + code_width e) output in Inr (- 1, acc, bits, output))"
proof -
  have d: "nat (e mod 91) < 91" "nat (e div 91) < 91" "0 \<le> e mod 91" "0 \<le> e div 91"
    using assms by (auto simp: nat_less_iff div_less_iff_less_mult pos_imp_zdiv_nonneg_iff)
  show ?thesis using d
    by (simp add: b91_pair_def Let_def code_width_def mod_div_mult_eq split: prod.splits)
qed

lemma decoded_pair:
  assumes "decoded st es" "code_ok e"
  shows "\<exists>st'. decode_chars st (b91_pair e) = Inr st' \<and> decoded st' (es @ [e])"
proof -
  obtain acc bits out where st: "st = (- 1, acc, bits, out)" and s: "stream es = le_val out + 256 ^ length out * acc"
    and n: "stream_bits es = 8 * length out + bits" "bits < 8" and a: "0 \<le> acc" "acc < 2 ^ bits"
    using assms(1) by (cases st) (auto simp: decoded_def)
  have e: "0 \<le> e" "e < 8281" "e < 2 ^ code_width e" using assms(2) by (auto simp: code_ok_def)
  let ?a = "acc + e * 2 ^ bits" and ?n = "(bits + code_width e) div 8"
  from drain_run [of ?a "bits + code_width e" out] obtain bs where
    r: "drain ?a (bits + code_width e) out = (?a div 256 ^ ?n, (bits + code_width e) mod 8, out @ bs)"
    and bs: "length bs = ?n" "le_val bs = ?a mod 256 ^ ?n" by blast
  have run: "decode_chars st (b91_pair e) = Inr (- 1, ?a div 256 ^ ?n, (bits + code_width e) mod 8, out @ bs)"
    using e(1,2) a by (simp add: st decode_pair or_push_bit r)
  have "?a < (e + 1) * 2 ^ bits" using a(2) by (simp add: distrib_right)
  also have "\<dots> \<le> 2 ^ code_width e * 2 ^ bits" using e(3) by (intro mult_right_mono) simp_all
  finally have "?a < 2 ^ (bits + code_width e)" by (simp add: power_add mult.commute)
  then have "?a div 256 ^ ?n < 2 ^ ((bits + code_width e) mod 8)"
    by (intro int_div_less) (simp_all flip: exp_split)
  moreover have "stream (es @ [e]) = le_val (out @ bs) + 256 ^ length (out @ bs) * (?a div 256 ^ ?n)"
  proof -
    have "(2 :: int) ^ stream_bits es = 256 ^ length out * 2 ^ bits" by (simp add: n(1) power_add power_mult)
    then have "stream (es @ [e]) = le_val out + 256 ^ length out * ?a" by (simp add: stream_snoc s algebra_simps)
    also have "?a = le_val bs + 256 ^ ?n * (?a div 256 ^ ?n)" by (simp add: bs(2))
    finally show ?thesis by (simp add: le_val_append bs(1) power_add algebra_simps)
  qed
  moreover have "stream_bits (es @ [e]) = 8 * length (out @ bs) + (bits + code_width e) mod 8"
    using n(1) bs(1) by simp
  ultimately show ?thesis unfolding run
    using a e(1) by (simp add: decoded_def pos_imp_zdiv_nonneg_iff)
qed

lemma decode_chars_append:
  "decode_chars st (s @ t) = bindE (decode_chars st s) (\<lambda>st. decode_chars st t)"
  by (induction s arbitrary: st) (simp_all add: bindE_assoc)

lemma decoded_codes:
  "\<forall>e \<in> set es. code_ok e \<Longrightarrow> \<exists>st. decode_chars (- 1, 0, 0, []) (concat (map b91_pair es)) = Inr st \<and> decoded st es"
proof (induction es rule: rev_induct)
  case (snoc e es)
  then obtain st where "decode_chars (- 1, 0, 0, []) (concat (map b91_pair es)) = Inr st" "decoded st es" by auto
  with decoded_pair [of st es e] snoc.prems show ?case by (auto simp: decode_chars_append)
qed (simp add: decoded_def)

text \<open>The last code fills exactly the bytes that were still open.\<close>

lemma drain_last:
  assumes "decoded (- 1, acc, bits, output) es" "le_val data = stream es + 2 ^ stream_bits es * value"
    "8 * length data = stream_bits es + rest" "0 \<le> value" "value < 2 ^ rest" "(bits + n) div 8 = (bits + rest) div 8"
  shows "\<exists>a b. drain (acc OR push_bit bits value) (bits + n) output = (a, b, data)"
proof -
  have s: "stream es = le_val output + 256 ^ length output * acc" and sb: "stream_bits es = 8 * length output + bits"
    and a: "0 \<le> acc" "acc < 2 ^ bits" using assms(1) by (auto simp: decoded_def)
  let ?a = "acc + value * 2 ^ bits" and ?n = "(bits + rest) div 8"
  have len: "8 * length data = 8 * length output + (bits + rest)" using assms(3) sb by simp
  from whole_bytes [OF this] have m: "bits + rest = 8 * ?n" "length data = length output + ?n" by blast+
  from drain_run [of ?a "bits + n" "output"] assms(6) obtain bs where
    r: "drain ?a (bits + n) output = (?a div 256 ^ ?n, (bits + n) mod 8, output @ bs)"
    and bs: "length bs = ?n" "le_val bs = ?a mod 256 ^ ?n" by auto
  have "?a < (value + 1) * 2 ^ bits" using a(2) by (simp add: distrib_right)
  also have "\<dots> \<le> 2 ^ rest * 2 ^ bits" using assms(5) by (intro mult_right_mono) simp_all
  also have "\<dots> = 2 ^ (bits + rest)" by (simp add: power_add)
  also have "\<dots> = 256 ^ ?n" by (subst m(1)) (simp add: power_mult)
  finally have "?a mod 256 ^ ?n = ?a" using a(1) assms(4) by (intro mod_pos_pos_trivial) simp_all
  moreover have "le_val data = le_val output + 256 ^ length output * ?a"
  proof -
    have "(2 :: int) ^ stream_bits es = 256 ^ length output * 2 ^ bits" by (simp add: sb power_add power_mult)
    then show ?thesis using assms(2) s by (simp add: algebra_simps)
  qed
  ultimately have "le_val (output @ bs) = le_val data" by (simp add: le_val_append bs(2))
  moreover have "length (output @ bs) = length data" using m(2) bs(1) by simp
  ultimately have "output @ bs = data" by (intro le_val_inject)
  then show ?thesis using r or_push_bit [OF a] by simp
qed

text \<open>The encoder's last characters, and the theorem.\<close>

lemma base91_split:
  obtains "value" bits es where "foldl encode_byte (0, 0, []) data = (value, bits, concat (map b91_pair es))"
    "encoded (value, bits, concat (map b91_pair es)) data es"
  using encoded_bytes [of data] by (cases "foldl encode_byte (0, 0, []) data") (auto simp: encoded_def)

lemma concat_pairs_length: "length (concat (map b91_pair es)) = 2 * length es"
  by (induction es) (simp_all add: b91_pair_def)

lemma only_multiple: "x mod 8 = 0 \<Longrightarrow> 0 < x \<Longrightarrow> x < 16 \<Longrightarrow> x = 8"
  "x mod 8 = 0 \<Longrightarrow> 8 < x \<Longrightarrow> x < 24 \<Longrightarrow> x = 16" for x :: nat
  by presburger+

lemma base91_roundtrip: 
  assumes "data \<noteq> []"
  shows "base91_decode (base91_encode data) = Inr data"
proof -
  obtain "value" bits es where f: "foldl encode_byte (0, 0, []) data = (value, bits, concat (map b91_pair es))"
    and e: "encoded (value, bits, concat (map b91_pair es)) data es" by (rule base91_split)
  have v: "0 \<le> value" "value < 2 ^ bits" "bits \<le> 13" and ok: "\<forall>c \<in> set es. code_ok c"
    and le: "le_val data = stream es + 2 ^ stream_bits es * value" "8 * length data = stream_bits es + bits"
    using e by (auto simp: encoded_def)
  from decoded_codes [OF ok] obtain acc n out where d: "decoded (- 1, acc, n, out) es"
    and run: "decode_chars (- 1, 0, 0, []) (concat (map b91_pair es)) = Inr (- 1, acc, n, out)"
    by (fastforce simp: decoded_def)
  have sb: "stream_bits es = 8 * length out + n" "n < 8" using d by (auto simp: decoded_def)
  note last = drain_last [OF d le v(1,2)]
  have v13: "value < 8192"
    using v(2) power_increasing [of bits 13 "2 :: int"] v(3) by simp
  show ?thesis
  proof (cases "bits = 0")
    case True
    have "\<exists>a b. drain acc n out = (a, b, data)"
    proof -
      have "value = 0" using True v(1,2) by simp
      then show ?thesis using last [of 0] True by simp
    qed
    then have "out = data" using sb(2) by (simp add: drain.simps)
    moreover have "concat (map b91_pair es) \<noteq> []"
      using assms le True by (cases es) (auto simp: b91_pair_def)
    ultimately show ?thesis using True f run by (simp add: base91_encode_def base91_decode_def)
  next
    case bits: False
    have m: "(n + bits) mod 8 = 0" "0 < n + bits" using le(2) sb bits by presburger+
    show ?thesis
    proof (cases "bits > 7 \<or> value > 90")
      case False
      then have s: "nat (value mod 91) < 91" "value mod 91 = value" using v(1) by auto
      have "n + bits = 8" using False m sb(2) by (intro only_multiple(1)) simp_all
      moreover from this have "1 \<le> n" using False by simp
      ultimately have "(n + 7) div 8 = (n + bits) div 8" using sb(2) by (simp add: div_nat_eqI)
      from last [OF this] s show ?thesis using False bits f run v(1)
        by (auto simp: base91_encode_def base91_decode_def decode_chars_append)
    next
      case True
      have "value > 90 \<Longrightarrow> bits \<ge> 7"
        using v(2) power_increasing [of bits 6 "2 :: int"] by (cases "bits \<le> 6") auto
      then have b: "bits \<ge> 7" "bits = 7 \<Longrightarrow> value > 90" using True by auto
      have w: "code_width value = (if value > 88 then 13 else 14)"
        using v(1) v13 by (simp add: code_width_def mod_pos_pos_trivial)
      have "(n + code_width value) div 8 = (n + bits) div 8"
      proof (cases "bits = 7")
        case True
        then have "n + bits = 8" using m(1) sb(2) by (intro only_multiple(1)) simp_all
        then have "n = 1" using True by simp
        then show ?thesis using True b(2) w by simp
      next
        case False
        then have b8: "8 \<le> bits" using b(1) by simp
        have "(n + k) div 8 = (n + bits) div 8" if k: "k = 13 \<or> k = 14" for k
        proof (cases "n + bits \<le> 8")
          case True
          then have "bits = 8" "n = 0" using b8 by simp_all
          then show ?thesis using k by auto
        next
          case False
          then have "n + bits = 16" using m(1) sb(2) v(3) by (intro only_multiple(2)) simp_all
          moreover from this have "16 \<le> n + k" "n + k < 24" using v(3) k sb(2) by auto
          then have "(n + k) div 8 = 2" by (simp add: div_nat_eqI)
          ultimately show ?thesis by simp
        qed
        then show ?thesis using w by simp
      qed
      from last [OF this] obtain a b where
        dr: "drain (acc OR push_bit n value) (n + code_width value) out = (a, b, data)" by blast
      have "base91_encode data = concat (map b91_pair es) @ b91_pair value"
        using True bits f by (simp add: base91_encode_def b91_pair_def)
      then show ?thesis using decode_pair [of "value" acc n out] v(1) v13 run dr
        by (simp add: base91_decode_def decode_chars_append b91_pair_def)
    qed
  qed
qed

interpretation b91: coding base91_encode base91_decode "\<lambda>data. data \<noteq> []"
  by unfold_locales (rule base91_roundtrip)

section \<open>Size, alphabet and errors\<close>

lemma base91_length: "length (base91_encode data) \<le> 2 * ((8 * length data + 12) div 13)"
proof -
  obtain "value" bits es where f: "foldl encode_byte (0, 0, []) data = (value, bits, concat (map b91_pair es))"
    and e: "encoded (value, bits, concat (map b91_pair es)) data es" by (rule base91_split)
  have n: "13 * length es + bits \<le> 8 * length data"
    using e stream_bits_length [of es] by (simp add: encoded_def)
  have "length (base91_encode data) \<le> 2 * length es + (if bits = 0 then 0 else 2)"
    by (simp add: base91_encode_def f concat_pairs_length)
  also have "\<dots> \<le> 2 * ((13 * length es + bits + 12) div 13)"
  proof (cases "bits = 0")
    case False
    then have "13 * (length es + 1) div 13 \<le> (13 * length es + bits + 12) div 13" by (intro div_le_mono) simp
    then show ?thesis using False by simp
  qed simp
  also have "\<dots> \<le> 2 * ((8 * length data + 12) div 13)" using n by (simp add: div_le_mono)
  finally show ?thesis .
qed

lemma base91_nonempty: "data \<noteq> [] \<Longrightarrow> base91_encode data \<noteq> []"
  using base91_roundtrip [of data] by (auto simp: base91_decode_def)

lemma b91_pair_chars: "code_ok e \<Longrightarrow> set (b91_pair e) \<subseteq> set BASE91_ALPHABET"
  using code_digits [of e] by (auto simp: b91_pair_def)

lemma base91_chars: "set (base91_encode data) \<subseteq> set BASE91_ALPHABET"
proof -
  obtain "value" bits es where f: "foldl encode_byte (0, 0, []) data = (value, bits, concat (map b91_pair es))"
    and e: "encoded (value, bits, concat (map b91_pair es)) data es" by (rule base91_split)
  have v: "0 \<le> value" "value < 2 ^ bits" "bits \<le> 13" and ok: "\<forall>c \<in> set es. code_ok c"
    using e by (auto simp: encoded_def)
  have "value < 8192" using v(2) power_increasing [of bits 13 "2 :: int"] v(3) by simp
  then have "value div 91 < 91" by simp
  then have "nat (value mod 91) < 91" "nat (value div 91) < 91"
    using v(1) by (auto simp: nat_less_iff pos_imp_zdiv_nonneg_iff)
  then have "BASE91_ALPHABET ! nat (value mod 91) \<in> set BASE91_ALPHABET"
    "BASE91_ALPHABET ! nat (value div 91) \<in> set BASE91_ALPHABET"
    by (simp_all add: nth_mem)
  then show ?thesis using ok b91_pair_chars by (auto simp: base91_encode_def f)
qed

lemma decode_chars_error: "decode_chars st t = Inl e \<Longrightarrow> \<exists>m. e = CarriageError m"
proof (induction t arbitrary: st)
  case (Cons c t)
  then show ?case
    by (cases st) (auto simp: bindE_eq_Inl Let_def split: option.splits if_splits prod.splits)
qed simp

lemma base91_decode_error: "base91_decode t = Inl e \<Longrightarrow> \<exists>m. e = CarriageError m"
  by (auto simp: base91_decode_def bindE_eq_Inl Let_def split: if_splits prod.splits dest: decode_chars_error)

end
