(* ===== verification/Carriage.thy ===== *)
theory Carriage
  imports Base91 Frame
begin

text \<open>
  Frames as APRS message bodies (\<open>transport/aprs/carriage.py\<close>): the legacy Q1 text profile,
  the compact Q2 profile, fragmentation and the fragment parser. The regular expressions of the
  source are written out as tests on the characters at their positions.
\<close>

section \<open>Frames as text\<close>

definition DATA_CHUNK_SIZE :: nat where [simp]: "DATA_CHUNK_SIZE = 48"
definition V2_DATA_CHUNK_SIZE :: nat where [simp]: "V2_DATA_CHUNK_SIZE = 50"
definition MAX_FRAGMENTS :: nat where [simp]: "MAX_FRAGMENTS = 16"
definition MAX_APRS_BODY :: nat where [simp]: "MAX_APRS_BODY = 67"

definition encode_frame_text :: "bytes \<Rightarrow> pystr result" where
  "encode_frame_text frame =
     (if frame = [] \<or> length frame > MAX_FRAME_SIZE
      then Inl (CarriageError (lit ''frame size is outside the OpenQSP bounds''))
      else bindE (decode_frame_with_flags (PBytes frame)) (\<lambda>_. Inr (urlsafe_b64encode frame)))"

definition decode_frame_text :: "pystr \<Rightarrow> bytes result" where
  "decode_frame_text text =
     (if text = [] \<or> \<not> (\<forall>c \<in> set text. is_b64 c)
      then Inl (CarriageError (lit ''invalid unpadded Base64url text''))
      else if length text mod 4 = 1
      then Inl (CarriageError (lit ''impossible unpadded Base64url length''))
      else (let frame = b64decode text in
        case decode_frame_with_flags (PBytes frame) of
          Inl _ \<Rightarrow> Inl (CarriageError (lit ''invalid OpenQSP frame carriage''))
        | Inr _ \<Rightarrow> Inr frame))"

section \<open>Fragments\<close>

record aprs_fragment =
  af_transaction_id :: pystr
  af_index :: int
  af_total :: int
  af_data :: pystr
  af_message_id :: "pystr option"
  af_version :: int
  af_raw_data :: "bytes option"

text \<open>\<open>APRSFragment.body\<close>: the text that is transmitted.\<close>

definition fragment_body :: "aprs_fragment \<Rightarrow> pystr result" where
  "fragment_body f =
     (if af_version f = 2
      then bindE (parse_base36 (af_transaction_id f) 3) (\<lambda>transaction.
        if transaction > 0xFF
        then Inl (CarriageError (lit ''Q2 transaction ID must fit in one byte''))
        else if \<not> (0 \<le> af_index f \<and> af_index f < af_total f \<and> af_total f \<le> int MAX_FRAGMENTS)
        then Inl (CarriageError (lit ''fragment index or count is outside profile bounds''))
        else (case af_raw_data f of
            None \<Rightarrow> Inl (CarriageError (lit ''Q2 fragment is missing raw data''))
          | Some raw \<Rightarrow>
              (let descriptor = push_bit 4 (af_index f) OR (af_total f - 1);
                   text = lit ''Q2'' @ base91_encode ([word_of_int transaction, word_of_int descriptor] @ raw) in
               if length text > MAX_APRS_BODY
               then Inl (CarriageError (lit ''Q2 fragment exceeds APRS message body limit''))
               else Inr text)))
      else bindE (base36 (af_index f) 2) (\<lambda>index. bindE (base36 (af_total f) 2) (\<lambda>total.
        let text = lit ''Q1:'' @ af_transaction_id f @ lit '':'' @ index @ lit ''/'' @ total @ lit '':'' @ af_data f in
        Inr (case af_message_id f of None \<Rightarrow> text | Some message_id \<Rightarrow> text @ lit ''{'' @ message_id))))"

text \<open>\<open>data[i : i + n] for i in range(0, len(data), n)\<close>.\<close>

fun chunks :: "nat \<Rightarrow> 'a list \<Rightarrow> 'a list list" where
  "chunks n xs = (if n = 0 \<or> xs = [] then [] else take n xs # chunks n (drop n xs))"

declare chunks.simps [simp del]

text \<open>\<open>enumerate\<close>.\<close>

definition numbered :: "'a list \<Rightarrow> (int \<times> 'a) list" where
  "numbered xs = zip (map int [0..<length xs]) xs"

definition fragment_frame :: "bytes \<Rightarrow> pystr \<Rightarrow> aprs_fragment list result" where
  "fragment_frame frame transaction_id =
     bindE (parse_base36 transaction_id 3) (\<lambda>_.
     bindE (encode_frame_text frame) (\<lambda>encoded.
     let parts = chunks DATA_CHUNK_SIZE encoded in
     if parts = [] \<or> length parts > MAX_FRAGMENTS
     then Inl (CarriageError (lit ''frame exceeds the 16-fragment profile limit''))
     else Inr (map (\<lambda>(i, chunk). \<lparr>af_transaction_id = transaction_id, af_index = i,
            af_total = int (length parts), af_data = chunk, af_message_id = None, af_version = 1,
            af_raw_data = None\<rparr>) (numbered parts))))"

definition fragment_frame_v2 :: "bytes \<Rightarrow> pystr \<Rightarrow> aprs_fragment list result" where
  "fragment_frame_v2 frame transaction_id =
     bindE (parse_base36 transaction_id 3) (\<lambda>transaction.
     if transaction > 0xFF then Inl (CarriageError (lit ''Q2 transaction ID must fit in one byte''))
     else if frame = [] \<or> length frame > MAX_FRAME_SIZE
     then Inl (CarriageError (lit ''frame size is outside the OpenQSP bounds''))
     else bindE (decode_frame_with_flags (PBytes frame)) (\<lambda>_.
       let parts = chunks V2_DATA_CHUNK_SIZE frame in
       if parts = [] \<or> length parts > MAX_FRAGMENTS
       then Inl (CarriageError (lit ''frame exceeds the 16-fragment profile limit''))
       else (let fragments = map (\<lambda>(index, chunk). \<lparr>af_transaction_id = transaction_id, af_index = index,
                   af_total = int (length parts), af_data = base91_encode chunk, af_message_id = None,
                   af_version = 2, af_raw_data = Some chunk\<rparr>) (numbered parts)
             in bindE (mapE fragment_body fragments) (\<lambda>_. Inr fragments))))"

section \<open>Parsing a body\<close>

definition parse_q2 :: "pystr \<Rightarrow> aprs_fragment result" where
  "parse_q2 body =
     (if 123 \<in> set body then Inl (CarriageError (lit ''Q2 fragments must not use APRS message IDs''))
      else bindE (base91_decode (drop 2 body)) (\<lambda>decoded.
        if length decoded < 3 then Inl (CarriageError (lit ''Q2 fragment is truncated''))
        else (let transaction = uint (decoded ! 0); descriptor = uint (decoded ! 1);
                  index = drop_bit 4 descriptor; total = (descriptor AND 0x0F) + 1 in
          if index \<ge> total
          then Inl (CarriageError (lit ''fragment index or count is outside profile bounds''))
          else (let raw = drop 2 decoded in
            if raw = [] \<or> length raw > V2_DATA_CHUNK_SIZE
            then Inl (CarriageError (lit ''Q2 fragment payload is outside profile bounds''))
            else bindE (base36 transaction 3) (\<lambda>transaction_id.
              Inr \<lparr>af_transaction_id = transaction_id, af_index = index, af_total = total,
                   af_data = base91_encode raw, af_message_id = None, af_version = 2, af_raw_data = Some raw\<rparr>)))))"

text \<open>\<open>body.rsplit("{", 1)\<close> on a text that contains a brace.\<close>

definition rsplit_brace :: "pystr \<Rightarrow> pystr \<times> pystr" where
  "rsplit_brace body =
     (let tail = takeWhile (\<lambda>c. c \<noteq> 123) (rev body)
      in (take (length body - length tail - 1) body, rev tail))"

text \<open>\<open>Q1:([0-9A-Z]{3}):([0-9A-Z]{2})/([0-9A-Z]{2}):([A-Za-z0-9_-]{1,48})\<close>.\<close>

definition match_q1 :: "pystr \<Rightarrow> (pystr \<times> pystr \<times> pystr \<times> pystr) option" where
  "match_q1 s =
     (let t = take 3 (drop 3 s); i = take 2 (drop 7 s); n = take 2 (drop 10 s); d = drop 13 s in
      if 14 \<le> length s \<and> length s \<le> 61 \<and> take 3 s = lit ''Q1:'' \<and> s ! 6 = 58 \<and> s ! 9 = 47 \<and> s ! 12 = 58
         \<and> (\<forall>c \<in> set (t @ i @ n). c \<in> set B36) \<and> (\<forall>c \<in> set d. is_b64 c)
      then Some (t, i, n, d) else None)"

definition parse_fragment :: "pystr \<Rightarrow> aprs_fragment result" where
  "parse_fragment body =
     (if take 2 body = lit ''Q2'' then parse_q2 body
      else bindE (if 123 \<in> set body
                  then (let (carriage, message_id) = rsplit_brace body in
                    if message_id = [] \<or> length message_id > 5 \<or> (\<exists>c \<in> set message_id. c \<notin> set B36)
                    then Inl (CarriageError (lit ''invalid APRS message ID''))
                    else Inr (carriage, Some message_id))
                  else Inr (body, None)) (\<lambda>(carriage, message_id).
        case match_q1 carriage of
          None \<Rightarrow> Inl (CarriageError (lit ''malformed OpenQSP fragment''))
        | Some (transaction_id, raw_index, raw_total, data) \<Rightarrow>
            bindE (parse_base36 raw_index 2) (\<lambda>index. bindE (parse_base36 raw_total 2) (\<lambda>total.
            if \<not> (1 \<le> total \<and> total \<le> int MAX_FRAGMENTS) \<or> index \<ge> total
            then Inl (CarriageError (lit ''fragment index or count is outside profile bounds''))
            else Inr \<lparr>af_transaction_id = transaction_id, af_index = index, af_total = total,
                   af_data = data, af_message_id = message_id, af_version = 1, af_raw_data = None\<rparr>))))"

end
