(* ===== verification/Ordered_Dict.thy ===== *)
theory Ordered_Dict
  imports Prelude "HOL-Library.AList"
begin

text \<open>
  Python's insertion-ordered dictionaries (\<open>dict\<close>, \<open>OrderedDict\<close>) as association lists with
  distinct keys: lookup is \<^const>\<open>map_of\<close>, assignment \<open>AList.update\<close> (an existing key
  keeps its place, a new one goes to the end), deletion \<open>AList.delete\<close>, the oldest entry the
  head. The last section is the interface of the caches that drop entries by age.
\<close>

type_synonym ('k, 'v) odict = "('k \<times> 'v) list"

definition keys_ok :: "('k, 'v) odict \<Rightarrow> bool" where
  "keys_ok d \<longleftrightarrow> distinct (map fst d)"

text \<open>\<open>OrderedDict.move_to_end(key)\<close> on a present key.\<close>

definition move_to_end :: "'k \<Rightarrow> ('k, 'v) odict \<Rightarrow> ('k, 'v) odict" where
  "move_to_end k d = (case map_of d k of None \<Rightarrow> d | Some v \<Rightarrow> AList.delete k d @ [(k, v)])"

lemma keys_ok_Nil [simp]: "keys_ok []"
  by (simp add: keys_ok_def)

lemma keys_ok_update [simp]: "keys_ok d \<Longrightarrow> keys_ok (AList.update k v d)"
  unfolding keys_ok_def by (rule distinct_update)

lemma keys_ok_delete [simp]: "keys_ok d \<Longrightarrow> keys_ok (AList.delete k d)"
  unfolding keys_ok_def by (rule distinct_delete)

lemma keys_ok_filter: "keys_ok d \<Longrightarrow> keys_ok (filter P d)"
  unfolding keys_ok_def by (rule distinct_map_filter)

lemma keys_ok_tl: "keys_ok d \<Longrightarrow> keys_ok (tl d)"
  by (cases d) (simp_all add: keys_ok_def)

lemma keys_delete [simp]: "fst ` set (AList.delete k d) = fst ` set d - {k}"
  by (simp add: delete_keys Diff_eq) (auto simp: AList.delete_eq)

lemma delete_absent: "k \<notin> fst ` set d \<Longrightarrow> AList.delete k d = d"
  by (induction d) auto

lemma map_of_delete [simp]: "map_of (AList.delete k d) k' = (if k' = k then None else map_of d k')"
  by (simp add: delete_conv')

lemma map_of_update [simp]: "map_of (AList.update k v d) k' = (if k' = k then Some v else map_of d k')"
  by (simp add: update_conv')

lemma length_delete_le: "length (AList.delete k d) \<le> length d"
  by (simp add: AList.delete_eq)

lemma length_delete_mem: "k \<in> fst ` set d \<Longrightarrow> length (AList.delete k d) < length d"
  by (induction d) (force simp: less_Suc_eq_le length_delete_le)+

lemma length_update_le: "length (AList.update k v d) \<le> Suc (length d)"
  by (induction d) auto

lemma update_subset: "set (AList.update k v d) \<subseteq> insert (k, v) (set d)"
  by (induction d) auto

lemma delete_subset: "set (AList.delete k d) \<subseteq> set d"
  by (auto simp: AList.delete_eq)

lemma move_to_end_set: "keys_ok d \<Longrightarrow> set (move_to_end k d) = set d"
  by (auto simp: move_to_end_def AList.delete_eq keys_ok_def split: option.splits dest: eq_key_imp_eq_value map_of_SomeD)

lemma delete_update_same [simp]: "AList.delete k (AList.update k v d) = AList.delete k d"
  by (induction d) (auto simp: AList.delete_eq)

lemma delete_move [simp]: "AList.delete k (move_to_end k d) = AList.delete k d"
  by (auto simp: move_to_end_def AList.delete_eq split: option.splits)

lemma dict_length: "keys_ok d \<Longrightarrow> length d = card (dom (map_of d))"
proof -
  assume "keys_ok d"
  then have "card (set (map fst d)) = length (map fst d)" unfolding keys_ok_def by (rule distinct_card)
  then show ?thesis by (simp add: dom_map_of_conv_image_fst)
qed

lemma update_absent: "k \<notin> fst ` set d \<Longrightarrow> AList.update k v d = d @ [(k, v)]"
  by (induction d) auto

lemma length_update_mem: "k \<in> fst ` set d \<Longrightarrow> length (AList.update k v d) = length d"
  by (induction d) auto

lemma keys_ok_move [simp]: "keys_ok d \<Longrightarrow> keys_ok (move_to_end k d)"
  using keys_ok_delete [of d k] by (auto simp: move_to_end_def keys_ok_def split: option.splits)

lemma map_of_move [simp]: "map_of (move_to_end k d) k' = map_of d k'"
  by (auto simp: move_to_end_def map_add_def split: option.splits)

lemma length_move_le: "length (move_to_end k d) \<le> length d"
  using length_delete_mem [of k d] by (force simp: move_to_end_def dest: map_of_SomeD split: option.splits)

lemma keys_ok_nth: "keys_ok d \<Longrightarrow> (k, v) \<in> set d \<longleftrightarrow> map_of d k = Some v"
  by (simp add: keys_ok_def)

lemma map_of_filter: "keys_ok d \<Longrightarrow>
    map_of (filter P d) k = (case map_of d k of Some v \<Rightarrow> if P (k, v) then Some v else None | None \<Rightarrow> None)"
  by (induction d) (force simp: keys_ok_def split: option.splits dest: map_of_SomeD)+

section \<open>Entries that expire\<close>

text \<open>
  The contract of every \<open>expire\<close> of the transport: what is older than its time to live goes,
  everything else stays in its order.
\<close>

locale expiring =
  fixes stamp :: "'v \<Rightarrow> rat" and ttl :: rat and expire :: "rat \<Rightarrow> ('k, 'v) odict \<Rightarrow> ('k, 'v) odict"
  assumes expire_filter: "expire now d = filter (\<lambda>(k, v). now - stamp v < ttl) d"
begin

lemma expire_ok: "keys_ok d \<Longrightarrow> keys_ok (expire now d)"
  by (simp add: expire_filter keys_ok_filter)

lemma expire_length: "length (expire now d) \<le> length d"
  by (simp add: expire_filter)

lemma expire_subset: "set (expire now d) \<subseteq> set d"
  by (auto simp: expire_filter)

lemma expire_live: "keys_ok d \<Longrightarrow> map_of d k = Some v \<Longrightarrow> now - stamp v < ttl \<Longrightarrow> map_of (expire now d) k = Some v"
  by (simp add: expire_filter map_of_filter)

lemma expire_stale: "keys_ok d \<Longrightarrow> map_of d k = Some v \<Longrightarrow> \<not> now - stamp v < ttl \<Longrightarrow> map_of (expire now d) k = None"
  by (simp add: expire_filter map_of_filter)

lemma expire_SomeD: "keys_ok d \<Longrightarrow> map_of (expire now d) k = Some v \<Longrightarrow> map_of d k = Some v"
  by (auto simp: expire_filter map_of_filter split: option.splits if_splits)

lemma expire_absent: "keys_ok d \<Longrightarrow> map_of d k = None \<Longrightarrow> map_of (expire now d) k = None"
  by (simp add: expire_filter map_of_filter)

end

end
