(* ===== verification/Reassembly.thy ===== *)
theory Reassembly
  imports Carriage Ordered_Dict
begin

text \<open>
  \<open>transport/aprs/state.py\<close>: bounded reassembly of fragmented frames and the bounded cache of
  answered requests. Times are the adapter's clock as rationals. Both tables drop what is older
  than their time to live and then the oldest entries beyond their capacity.
\<close>

section \<open>Reassembly\<close>

text \<open>A part is the text of a Q1 fragment or the bytes of a Q2 fragment.\<close>

datatype part = TextPart pystr | RawPart bytes

record assembly =
  as_total :: int
  as_first_seen :: rat
  as_last_seen :: rat
  as_version :: int
  as_parts :: "(int, part) odict"

type_synonym key = "pystr \<times> pystr"

record reassembler =
  ra_ttl :: rat
  ra_max_entries :: int
  ra_entries :: "(key, assembly) odict"

definition new_reassembler :: "rat \<Rightarrow> int \<Rightarrow> reassembler result" where
  "new_reassembler ttl max_entries =
     (if ttl \<le> 0 \<or> max_entries \<le> 0 then Inl (ValueError (lit ''reassembly bounds must be positive''))
      else Inr \<lparr>ra_ttl = ttl, ra_max_entries = max_entries, ra_entries = []\<rparr>)"

definition expire_entries :: "rat \<Rightarrow> rat \<Rightarrow> (key, assembly) odict \<Rightarrow> (key, assembly) odict" where
  "expire_entries ttl now d = filter (\<lambda>(key, entry). \<not> now - as_last_seen entry \<ge> ttl) d"

definition reassembler_expire :: "rat \<Rightarrow> reassembler \<Rightarrow> reassembler" where
  "reassembler_expire now ra = ra\<lparr>ra_entries := expire_entries (ra_ttl ra) now (ra_entries ra)\<rparr>"

text \<open>\<open>while len(entries) >= max_entries: entries.popitem(last=False)\<close>, and with \<open>>\<close>.\<close>

fun pop_while :: "int \<Rightarrow> ('k, 'v) odict \<Rightarrow> ('k, 'v) odict" where
  "pop_while limit [] = []"
| "pop_while limit (e # d) = (if int (length (e # d)) \<ge> limit then pop_while limit d else e # d)"

text \<open>
  \<open>bytes(part)\<close> and \<open>str(part)\<close>. All parts of an assembly have its version, so a part of the
  other kind is never met.
\<close>

fun raw_part :: "part option \<Rightarrow> bytes result" where
  "raw_part None = Inl KeyError"
| "raw_part (Some (RawPart b)) = Inr b"
| "raw_part (Some (TextPart _)) = Inl (TypeError (lit ''string argument without an encoding''))"

fun text_part :: "part option \<Rightarrow> pystr result" where
  "text_part None = Inl KeyError"
| "text_part (Some (TextPart s)) = Inr s"
| "text_part (Some (RawPart _)) = Inl (TypeError (lit ''unexpected bytes''))"

definition assemble :: "assembly \<Rightarrow> bytes result" where
  "assemble entry =
     (if as_version entry = 2
      then bindE (mapE (\<lambda>i. raw_part (map_of (as_parts entry) i)) (map int [0..<nat (as_total entry)])) (\<lambda>parts.
        let frame = concat parts in
        case decode_frame_with_flags (PBytes frame) of
          Inl _ \<Rightarrow> Inl (CarriageError (lit ''invalid OpenQSP Q2 frame carriage''))
        | Inr _ \<Rightarrow> Inr frame)
      else bindE (mapE (\<lambda>i. text_part (map_of (as_parts entry) i)) (map int [0..<nat (as_total entry)])) (\<lambda>parts.
        decode_frame_text (concat parts)))"

definition fragment_part :: "aprs_fragment \<Rightarrow> part option" where
  "fragment_part f =
     (if af_version f = 2 then (case af_raw_data f of None \<Rightarrow> None | Some raw \<Rightarrow> Some (RawPart raw))
      else Some (TextPart (af_data f)))"

text \<open>The part of \<open>add\<close> after the entry has been found or made.\<close>

definition add_part ::
  "key \<Rightarrow> aprs_fragment \<Rightarrow> rat \<Rightarrow> assembly \<Rightarrow> (key, assembly) odict
    \<Rightarrow> bytes option result \<times> (key, assembly) odict" where
  "add_part key f now entry d =
     (case fragment_part f of
        None \<Rightarrow> (Inl (CarriageError (lit ''Q2 fragment is missing raw data'')), AList.delete key d)
      | Some part \<Rightarrow>
          if (case map_of (as_parts entry) (af_index f) of None \<Rightarrow> False | Some existing \<Rightarrow> existing \<noteq> part)
          then (Inl (TransactionConflict (lit ''conflicting duplicate fragment'')), AList.delete key d)
          else (let entry = entry\<lparr>as_parts := AList.update (af_index f) part (as_parts entry),
                                  as_last_seen := now\<rparr>;
                    d = move_to_end key (AList.update key entry d) in
            if int (length (as_parts entry)) \<noteq> as_total entry then (Inr None, d)
            else (case assemble entry of
                Inl e \<Rightarrow> (Inl e, AList.delete key d)
              | Inr frame \<Rightarrow> (Inr (Some frame), AList.delete key d))))"

definition reassembler_add ::
  "pystr \<Rightarrow> aprs_fragment \<Rightarrow> rat \<Rightarrow> reassembler \<Rightarrow> bytes option result \<times> reassembler" where
  "reassembler_add peer f now ra =
     (let ra = reassembler_expire now ra; key = (peer, af_transaction_id f); d = ra_entries ra in
      case (case map_of d key of
          None \<Rightarrow>
            (let entry = \<lparr>as_total = af_total f, as_first_seen = now, as_last_seen = now,
                          as_version = af_version f, as_parts = []\<rparr>
             in add_part key f now entry (AList.update key entry (pop_while (ra_max_entries ra) d)))
        | Some entry \<Rightarrow>
            if as_total entry \<noteq> af_total f \<or> as_version entry \<noteq> af_version f
            then (Inl (TransactionConflict (lit ''inconsistent fragment profile or count'')), AList.delete key d)
            else add_part key f now entry d) of
        (r, d) \<Rightarrow> (r, ra\<lparr>ra_entries := d\<rparr>))"

lemma pop_while_ok: "keys_ok d \<Longrightarrow> keys_ok (pop_while n d)"
  by (induction n d rule: pop_while.induct) (auto simp: keys_ok_def)

lemma pop_while_length: "0 < n \<Longrightarrow> int (length (pop_while n d)) < n"
  by (induction n d rule: pop_while.induct) auto

lemma pop_while_le: "length (pop_while n d) \<le> length d"
  by (induction n d rule: pop_while.induct) auto

lemma pop_while_subset: "set (pop_while n d) \<subseteq> set d"
  by (induction n d rule: pop_while.induct) auto

lemma pop_while_small: "int (length d) < n \<Longrightarrow> pop_while n d = d"
  by (cases d) auto

section \<open>Replay\<close>

record replay =
  rp_request :: bytes
  rp_responses :: "bytes list"
  rp_created_at :: rat

record replay_cache =
  rc_ttl :: rat
  rc_max_entries :: int
  rc_max_per_peer :: int
  rc_entries :: "(key, replay) odict"

definition new_replay_cache :: "rat \<Rightarrow> int \<Rightarrow> int \<Rightarrow> replay_cache result" where
  "new_replay_cache ttl max_entries max_per_peer =
     (if ttl \<le> 0 \<or> max_entries \<le> 0 \<or> max_per_peer \<le> 0
      then Inl (ValueError (lit ''replay bounds must be positive''))
      else Inr \<lparr>rc_ttl = ttl, rc_max_entries = max_entries, rc_max_per_peer = max_per_peer, rc_entries = []\<rparr>)"

definition expire_replays :: "rat \<Rightarrow> rat \<Rightarrow> (key, replay) odict \<Rightarrow> (key, replay) odict" where
  "expire_replays ttl now d = filter (\<lambda>(key, value). \<not> now - rp_created_at value \<ge> ttl) d"

definition replay_expire :: "rat \<Rightarrow> replay_cache \<Rightarrow> replay_cache" where
  "replay_expire now rc = rc\<lparr>rc_entries := expire_replays (rc_ttl rc) now (rc_entries rc)\<rparr>"

definition replay_get :: "pystr \<Rightarrow> pystr \<Rightarrow> rat \<Rightarrow> replay_cache \<Rightarrow> replay option \<times> replay_cache" where
  "replay_get peer transaction_id now rc =
     (let rc = replay_expire now rc; v = map_of (rc_entries rc) (peer, transaction_id) in
      (v, if v = None then rc else rc\<lparr>rc_entries := move_to_end (peer, transaction_id) (rc_entries rc)\<rparr>))"

text \<open>\<open>while len(peer_keys) > max_per_peer: del entries[peer_keys.pop(0)]\<close>.\<close>

fun trim_keys :: "int \<Rightarrow> 'k list \<Rightarrow> ('k, 'v) odict \<Rightarrow> ('k, 'v) odict" where
  "trim_keys limit [] d = d"
| "trim_keys limit (k # ks) d = (if int (length (k # ks)) > limit then trim_keys limit ks (AList.delete k d) else d)"

definition replay_put :: "pystr \<Rightarrow> pystr \<Rightarrow> bytes \<Rightarrow> bytes list \<Rightarrow> rat \<Rightarrow> replay_cache \<Rightarrow> replay_cache" where
  "replay_put peer transaction_id request responses now rc =
     (let key = (peer, transaction_id);
          d = move_to_end key (AList.update key
                \<lparr>rp_request = request, rp_responses = responses, rp_created_at = now\<rparr> (rc_entries rc));
          peer_keys = filter (\<lambda>item. fst item = peer) (map fst d);
          d = pop_while (rc_max_entries rc + 1) (trim_keys (rc_max_per_peer rc) peer_keys d)
      in rc\<lparr>rc_entries := d\<rparr>)"

section \<open>Both tables expire their entries\<close>

interpretation ra: expiring as_last_seen ttl "expire_entries ttl" for ttl
  by unfold_locales (simp add: expire_entries_def not_le)

interpretation rc: expiring rp_created_at ttl "expire_replays ttl" for ttl
  by unfold_locales (simp add: expire_replays_def not_le)

end
