(* ===== verification/Carriage_Facts.thy ===== *)
theory Carriage_Facts
  imports Carriage Frame_Props
begin

text \<open>
  How the carriage behaves on frames: which frames are fragmented and into what, and that the
  body of every fragment, in both profiles, parses back to the fragment.
\<close>

section \<open>Frames and chunks\<close>

definition framed :: "bytes \<Rightarrow> bool" where
  "framed d \<longleftrightarrow> is_ok (decode_frame_with_flags (PBytes d))"

lemma decode_header_length: "decode_header (PBytes d) u = Inr x \<Longrightarrow> 4 \<le> length d \<and> length d \<le> 259"
  by (auto simp: decode_header_def Let_def split: if_splits option.splits)

lemma get_message_length: "decode_get_message_frame (PBytes d) = Inr x \<Longrightarrow> 4 \<le> length d \<and> length d \<le> 259"
  using uint_byte_bounds(3) [of "d ! 3"]
  by (auto simp: decode_get_message_frame_def Let_def split: if_splits)

lemma framed_length: "framed d \<Longrightarrow> 4 \<le> length d \<and> length d \<le> 259"
  by (auto simp: framed_def is_ok_iff decode_frame_with_flags_def codec_decode_frame_with_flags_def
      bindE_eq_Inr split: if_splits dest: decode_header_length get_message_length)

lemma encoded_framed: "encode_frame obj u = Inr d \<Longrightarrow> framed d"
  by (drule decode_encode_frame) (simp add: framed_def)

lemma concat_chunks: "0 < n \<Longrightarrow> concat (chunks n xs) = xs"
  by (induction n xs rule: chunks.induct) (subst chunks.simps, simp)

lemma chunks_mem: "0 < n \<Longrightarrow> c \<in> set (chunks n xs) \<Longrightarrow> c \<noteq> [] \<and> length c \<le> n"
proof (induction n xs rule: chunks.induct)
  case (1 n xs)
  then show ?case by (subst (asm) (2) chunks.simps) (auto split: if_splits)
qed

lemma chunks_set: "c \<in> set (chunks n xs) \<Longrightarrow> set c \<subseteq> set xs"
  using concat_chunks [of n xs] by (cases "n = 0") (auto simp: chunks.simps [of 0], metis UN_I set_concat)

lemma chunks_length: "0 < n \<Longrightarrow> length (chunks n xs) = (length xs + n - 1) div n"
proof (induction n xs rule: chunks.induct)
  case (1 n xs)
  show ?case
  proof (cases "xs = []")
    case False
    show ?thesis
    proof (cases "length xs \<le> n")
      case True
      then have "chunks n (drop n xs) = []" by (simp add: chunks.simps)
      moreover have "(length xs + n - 1) div n = 1"
        using True False "1.prems" by (cases xs) (auto intro!: div_nat_eqI)
      ultimately show ?thesis using False "1.prems" by (subst chunks.simps) simp
    next
      case long: False
      then have "(length xs + n - 1) div n = Suc ((length (drop n xs) + n - 1) div n)"
        using "1.prems" by (subst le_div_geq) simp_all
      then show ?thesis using False 1 by (subst chunks.simps) simp
    qed
  qed (use "1.prems" in \<open>simp add: chunks.simps\<close>)
qed

lemma numbered_length [simp]: "length (numbered xs) = length xs"
  by (simp add: numbered_def)

lemma numbered_nth: "i < length xs \<Longrightarrow> numbered xs ! i = (int i, xs ! i)"
  by (simp add: numbered_def)

lemma numbered_mem: "(i, c) \<in> set (numbered xs) \<longleftrightarrow> 0 \<le> i \<and> i < int (length xs) \<and> c = xs ! nat i"
  by (auto simp: in_set_conv_nth numbered_nth intro!: exI [of _ "nat i"])

lemma map_snd_numbered: "map snd (numbered xs) = xs"
  by (simp add: numbered_def)

section \<open>Compact fragments\<close>

definition q2_fragment :: "pystr \<Rightarrow> int \<Rightarrow> int \<Rightarrow> bytes \<Rightarrow> aprs_fragment" where
  "q2_fragment tid i n chunk = \<lparr>af_transaction_id = tid, af_index = i, af_total = n,
     af_data = base91_encode chunk, af_message_id = None, af_version = 2, af_raw_data = Some chunk\<rparr>"

definition transaction_byte :: "pystr \<Rightarrow> bool" where
  "transaction_byte tid \<longleftrightarrow> (\<exists>t. parse_base36 tid 3 = Inr t \<and> t \<le> 0xFF)"

definition aprs_safe :: "pystr \<Rightarrow> bool" where
  "aprs_safe s \<longleftrightarrow> (\<forall>c \<in> set s. 33 \<le> c \<and> c < 127 \<and> c \<notin> {123, 124, 126})"

lemma base91_safe: "aprs_safe (base91_encode data)"
  unfolding aprs_safe_def
proof
  fix c assume "c \<in> set (base91_encode data)"
  then have "c \<in> set BASE91_ALPHABET" using base91_chars by blast
  then show "33 \<le> c \<and> c < 127 \<and> c \<notin> {123, 124, 126}" by (auto simp: ALPHABET_set)
qed

lemma descriptor:
  assumes "0 \<le> i" "i < n" "n \<le> 16"
  shows "uint (word_of_int (push_bit 4 i OR (n - 1)) :: byte) = i * 16 + (n - 1)"
    "(i * 16 + (n - 1)) AND 15 = n - 1" "drop_bit 4 (i * 16 + (n - 1)) = i"
proof -
  have "push_bit 4 i OR (n - 1) = i * 16 + (n - 1)"
    using assms or_push_bit [of "n - 1" 4 i] by (simp add: or.commute)
  then have "uint (word_of_int (push_bit 4 i OR (n - 1)) :: byte) = (i * 16 + (n - 1)) mod 256"
    by (simp only: uint_word_of_int) simp
  then show "uint (word_of_int (push_bit 4 i OR (n - 1)) :: byte) = i * 16 + (n - 1)"
    using assms by (simp add: mod_pos_pos_trivial)
  show "(i * 16 + (n - 1)) AND 15 = n - 1"
    using assms take_bit_eq_mask [of 4 "i * 16 + (n - 1)"]
    by (simp add: take_bit_eq_mod mask_eq_exp_minus_1 mod_pos_pos_trivial mod_add_eq [symmetric])
  show "drop_bit 4 (i * 16 + (n - 1)) = i"
    using assms by (simp add: drop_bit_eq_div)
qed

lemma q2_body:
  assumes "transaction_byte tid" "0 \<le> i" "i < n" "n \<le> 16" "chunk \<noteq> []" "length chunk \<le> 50"
  shows "\<exists>b. fragment_body (q2_fragment tid i n chunk) = Inr b \<and> parse_fragment b = Inr (q2_fragment tid i n chunk)
    \<and> length b \<le> 66 \<and> aprs_safe b \<and> take 2 b = lit ''Q2''"
proof -
  obtain t where t: "parse_base36 tid 3 = Inr t" "t \<le> 0xFF" using assms(1) by (auto simp: transaction_byte_def)
  then have t0: "0 \<le> t" using int36_bounds [of tid] by (auto simp: parse_base36_Inr)
  then have tb: "uint (word_of_int t :: byte) = t" using t(2) by (simp add: uint_word_of_int mod_pos_pos_trivial)
  have tid: "base36 t 3 = Inr tid" by (rule base36_parse [OF t(1)])
  let ?d = "push_bit 4 i OR (n - 1)"
  let ?bytes = "[word_of_int t, word_of_int ?d] @ chunk"
  let ?b = "lit ''Q2'' @ base91_encode ?bytes"
  have "length (base91_encode ?bytes) \<le> 2 * ((8 * length ?bytes + 12) div 13)" by (rule base91_length)
  also have "\<dots> \<le> 2 * ((8 * 52 + 12) div 13)" using assms(6) by (intro mult_le_mono2 div_le_mono) simp
  finally have len: "length ?b \<le> 66" by (simp add: lit_def)
  have body: "fragment_body (q2_fragment tid i n chunk) = Inr ?b"
    using assms(2-4) t len by (simp add: fragment_body_def q2_fragment_def)
  have safe: "aprs_safe ?b" using base91_safe [of ?bytes] by (auto simp: aprs_safe_def lit_def)
  then have "123 \<notin> set ?b" by (auto simp: aprs_safe_def)
  moreover have "base91_decode (drop 2 ?b) = Inr ?bytes"
    using b91.decode_tagged [of ?bytes "lit ''Q2''"] by (simp add: lit_def)
  moreover have "take 2 ?b = lit ''Q2''" by (simp add: lit_def)
  ultimately have "parse_fragment ?b = Inr (q2_fragment tid i n chunk)"
    using assms(2-6) descriptor [OF assms(2-4)]
    by (simp add: parse_fragment_def parse_q2_def Let_def tb tid q2_fragment_def Suc_le_eq)
  with body len safe show ?thesis by (intro exI [of _ ?b]) (simp add: lit_def)
qed

lemma fragment_v2_run:
  assumes "framed frame" "transaction_byte tid"
  shows "fragment_frame_v2 frame tid = Inr (map (\<lambda>(i, chunk).
    q2_fragment tid i (int (length (chunks 50 frame))) chunk) (numbered (chunks 50 frame)))"
proof -
  obtain t where t: "parse_base36 tid 3 = Inr t" "t \<le> 0xFF" using assms(2) by (auto simp: transaction_byte_def)
  note len = framed_length [OF assms(1)]
  let ?n = "length (chunks 50 frame)"
  have "(length frame + 50 - 1) div 50 \<le> 308 div 50" using len by (intro div_le_mono) simp
  then have n: "?n \<le> 16" by (simp add: chunks_length)
  have ne: "chunks 50 frame \<noteq> []" using len by (auto simp: chunks.simps [of 50])
  have "is_ok (fragment_body f)" if mem: "f \<in> (\<lambda>(i, chunk). q2_fragment tid i (int ?n) chunk) ` set (numbered (chunks 50 frame))" for f
  proof -
    obtain i chunk where f: "f = q2_fragment tid i (int ?n) chunk" "0 \<le> i" "i < int ?n" "chunk = chunks 50 frame ! nat i"
      using mem by (auto simp: numbered_mem)
    then have "chunk \<in> set (chunks 50 frame)" by (auto simp: nat_less_iff)
    then show ?thesis using q2_body [OF assms(2) f(2,3), of chunk] chunks_mem [of 50 chunk frame] n f(1)
      by (auto simp: is_ok_iff)
  qed
  then have "mapE fragment_body (map (\<lambda>(i, chunk). q2_fragment tid i (int ?n) chunk) (numbered (chunks 50 frame)))
      = Inr (map (\<lambda>f. projr (fragment_body f)) (map (\<lambda>(i, chunk). q2_fragment tid i (int ?n) chunk) (numbered (chunks 50 frame))))"
    by (intro mapE_Inr) (force simp: is_ok_iff)
  moreover obtain x where "decode_frame_with_flags (PBytes frame) = Inr x" using assms(1) by (auto simp: framed_def is_ok_iff)
  ultimately show ?thesis using t len n ne
    by (simp add: fragment_frame_v2_def Let_def q2_fragment_def case_prod_unfold) auto
qed

section \<open>Legacy fragments\<close>

definition q1_fragment :: "pystr \<Rightarrow> int \<Rightarrow> int \<Rightarrow> pystr \<Rightarrow> pystr option \<Rightarrow> aprs_fragment" where
  "q1_fragment tid i n chunk mid = \<lparr>af_transaction_id = tid, af_index = i, af_total = n,
     af_data = chunk, af_message_id = mid, af_version = 1, af_raw_data = None\<rparr>"

definition transaction_text :: "pystr \<Rightarrow> bool" where
  "transaction_text tid \<longleftrightarrow> length tid = 3 \<and> set tid \<subseteq> set B36"

definition message_id_ok :: "pystr \<Rightarrow> bool" where
  "message_id_ok m \<longleftrightarrow> m \<noteq> [] \<and> length m \<le> 5 \<and> set m \<subseteq> set B36"

lemma message_id_no_brace: "message_id_ok m \<Longrightarrow> 123 \<notin> set m"
  by (auto simp: message_id_ok_def B36_mem)

lemma rsplit_brace: "123 \<notin> set m \<Longrightarrow> rsplit_brace (s @ 123 # m) = (s, m)"
proof -
  assume m: "123 \<notin> set m"
  then have "takeWhile (\<lambda>c. c \<noteq> 123) (rev m @ 123 # rev s) = rev m"
    by (subst takeWhile_append2) auto
  then show ?thesis by (simp add: rsplit_brace_def Let_def)
qed

lemma rsplit_brace_join: "123 \<in> set body \<Longrightarrow> rsplit_brace body = (c, m) \<Longrightarrow> body = c @ 123 # m"
  using split_list_last [of 123 body] by (auto simp: rsplit_brace)

lemma match_q1_text:
  assumes "length t = 3" "length i = 2" "length n = 2" "set t \<subseteq> set B36" "set i \<subseteq> set B36" "set n \<subseteq> set B36"
    "1 \<le> length d" "length d \<le> 48" "\<forall>c \<in> set d. is_b64 c"
  shows "match_q1 (lit ''Q1:'' @ t @ lit '':'' @ i @ lit ''/'' @ n @ lit '':'' @ d) = Some (t, i, n, d)"
proof -
  obtain t1 t2 t3 i1 i2 n1 n2 where "t = [t1, t2, t3]" "i = [i1, i2]" "n = [n1, n2]"
    using assms(1-3) by (auto simp: numeral_eq_Suc length_Suc_conv)
  then show ?thesis using assms(4-) by (simp add: match_q1_def lit_def Let_def)
qed

lemma match_q1_Some:
  assumes "match_q1 s = Some (t, i, n, d)"
  shows "length t = 3" "length i = 2" "length n = 2" "set t \<subseteq> set B36" "set i \<subseteq> set B36" "set n \<subseteq> set B36"
    "1 \<le> length d" "length d \<le> 48" "\<forall>c \<in> set d. is_b64 c"
  using assms by (auto simp: match_q1_def Let_def split: if_splits)

lemma q1_body:
  assumes "transaction_text tid" "0 \<le> i" "i < n" "n \<le> 16" "chunk \<noteq> []" "length chunk \<le> 48" "\<forall>c \<in> set chunk. is_b64 c"
    "case mid of None \<Rightarrow> True | Some m \<Rightarrow> message_id_ok m"
  shows "\<exists>b. fragment_body (q1_fragment tid i n chunk mid) = Inr b \<and> parse_fragment b = Inr (q1_fragment tid i n chunk mid)
    \<and> length b \<le> 67 \<and> take 3 b = lit ''Q1:''"
proof -
  let ?i = "base36_digits 2 i []" and ?n = "base36_digits 2 n []"
  have b: "base36 i 2 = Inr ?i" "base36 n 2 = Inr ?n" using assms(2-4) by (simp_all add: base36_Inr)
  let ?t = "lit ''Q1:'' @ tid @ lit '':'' @ ?i @ lit ''/'' @ ?n @ lit '':'' @ chunk"
  have tid: "length tid = 3" "set tid \<subseteq> set B36" using assms(1) by (auto simp: transaction_text_def)
  have m: "match_q1 ?t = Some (tid, ?i, ?n, chunk)"
    using tid assms(5-7) base36_digits_set by (intro match_q1_text) (simp_all add: Suc_le_eq)
  have p: "parse_base36 ?i 2 = Inr i" "parse_base36 ?n 2 = Inr n" using b by (auto intro: parse_base36_text)
  have t2: "take 2 (?t @ x) \<noteq> lit ''Q2''" "take 3 (?t @ x) = lit ''Q1:''" for x by (simp_all add: lit_def)
  have nb: "123 \<notin> set ?t"
    using assms(7) tid(2) base36_digits_set [of 2 i] base36_digits_set [of 2 n]
    by (auto simp: lit_def B36_mem is_b64_def subset_iff)
  show ?thesis
  proof (cases mid)
    case None
    have "parse_fragment ?t = Inr (q1_fragment tid i n chunk None)"
      using t2(1) [of "[]"] nb m p assms(2-4) by (simp add: parse_fragment_def q1_fragment_def)
    then show ?thesis using None b t2 [of "[]"] tid assms(6)
      by (intro exI [of _ ?t]) (simp add: fragment_body_def q1_fragment_def lit_def)
  next
    case (Some k)
    then have k: "message_id_ok k" using assms(8) by simp
    have r: "rsplit_brace (?t @ 123 # k) = (?t, k)" by (rule rsplit_brace [OF message_id_no_brace [OF k]])
    have k': "k \<noteq> []" "length k \<le> 5" "\<not> (\<exists>c \<in> set k. c \<notin> set B36)" using k by (auto simp: message_id_ok_def)
    have "parse_fragment (?t @ 123 # k) = Inr (q1_fragment tid i n chunk (Some k))"
      using t2(1) [of "123 # k"] r k' m p assms(2-4) unfolding parse_fragment_def
      by (simp add: q1_fragment_def del: append_assoc append_Cons)
    then show ?thesis using Some b t2 [of "123 # k"] tid assms(6) k'(2)
      by (intro exI [of _ "?t @ 123 # k"]) (simp add: fragment_body_def q1_fragment_def lit_def)
  qed
qed

lemma fragment_q1_run:
  assumes "framed frame" "transaction_text tid"
  defines "text \<equiv> urlsafe_b64encode frame"
  shows "fragment_frame frame tid = Inr (map (\<lambda>(i, chunk).
    q1_fragment tid i (int (length (chunks 48 text))) chunk None) (numbered (chunks 48 text)))"
    "length (chunks 48 text) \<le> 8" "chunks 48 text \<noteq> []"
proof -
  note len = framed_length [OF assms(1)]
  have t: "length text = (length frame * 4 + 2) div 3" by (simp add: text_def b64encode_length)
  have "(length frame * 4 + 2) div 3 \<le> 1038 div 3" using len by (intro div_le_mono) simp
  then have "(length text + 48 - 1) div 48 \<le> 393 div 48" unfolding t by (intro div_le_mono) simp
  then show n: "length (chunks 48 text) \<le> 8" by (simp add: chunks_length)
  have "text \<noteq> []" using len b64decode_encode [of frame] by (auto simp: text_def b64decode_def)
  then show ne: "chunks 48 text \<noteq> []" by (auto simp: chunks.simps [of 48])
  obtain x where x: "decode_frame_with_flags (PBytes frame) = Inr x" using assms(1) by (auto simp: framed_def is_ok_iff)
  have "encode_frame_text frame = Inr text"
    using len x by (auto simp: encode_frame_text_def text_def)
  moreover have "is_ok (parse_base36 tid 3)"
    using assms(2) by (auto simp: transaction_text_def parse_base36_def)
  ultimately show "fragment_frame frame tid = Inr (map (\<lambda>(i, chunk).
    q1_fragment tid i (int (length (chunks 48 text))) chunk None) (numbered (chunks 48 text)))"
    using n ne by (auto simp: fragment_frame_def Let_def q1_fragment_def is_ok_iff case_prod_unfold)
qed

section \<open>What the parser accepts\<close>

definition fragment_ok :: "aprs_fragment \<Rightarrow> bool" where
  "fragment_ok f \<longleftrightarrow> 0 \<le> af_index f \<and> af_index f < af_total f \<and> af_total f \<le> 16 \<and>
     (if af_version f = 2
      then transaction_byte (af_transaction_id f) \<and> af_message_id f = None
         \<and> (\<exists>r. af_raw_data f = Some r \<and> r \<noteq> [] \<and> length r \<le> 50 \<and> af_data f = base91_encode r)
      else af_version f = 1 \<and> transaction_text (af_transaction_id f) \<and> af_raw_data f = None \<and> af_data f \<noteq> []
         \<and> length (af_data f) \<le> 48 \<and> (\<forall>c \<in> set (af_data f). is_b64 c)
         \<and> (case af_message_id f of None \<Rightarrow> True | Some m \<Rightarrow> message_id_ok m))"

lemma fragment_body_parse:
  assumes "fragment_ok f"
  shows "\<exists>b. fragment_body f = Inr b \<and> parse_fragment b = Inr f \<and> length b \<le> 67"
proof (cases "af_version f = 2")
  case True
  then obtain r where r: "af_raw_data f = Some r" "r \<noteq> []" "length r \<le> 50" "af_data f = base91_encode r"
    using assms by (auto simp: fragment_ok_def)
  then have "f = q2_fragment (af_transaction_id f) (af_index f) (af_total f) r"
    using assms True by (simp add: q2_fragment_def fragment_ok_def)
  then show ?thesis
    using q2_body [of "af_transaction_id f" "af_index f" "af_total f" r] assms True r by (auto simp: fragment_ok_def)
next
  case False
  then have "f = q1_fragment (af_transaction_id f) (af_index f) (af_total f) (af_data f) (af_message_id f)"
    using assms by (simp add: q1_fragment_def fragment_ok_def)
  then show ?thesis
    using q1_body [of "af_transaction_id f" "af_index f" "af_total f" "af_data f" "af_message_id f"] assms False
    by (auto simp: fragment_ok_def)
qed

lemma base36_byte: "base36 (uint (b :: byte)) 3 = Inr (base36_digits 3 (uint b) [])"
proof -
  have "uint b < 46656" using uint_byte_bounds(3) [of b] by linarith
  then show ?thesis by (simp add: base36_Inr)
qed

lemma transaction_byte_digits: "transaction_byte (base36_digits 3 (uint (b :: byte)) [])"
  unfolding transaction_byte_def using parse_base36_text [OF base36_byte [of b]] uint_byte_bounds(3) by blast

lemma parse_q2_ok: "parse_q2 body = Inr f \<Longrightarrow> fragment_ok f"
  using uint_byte_bounds
  by (auto simp: parse_q2_def bindE_eq_Inr Let_def fragment_ok_def base36_byte transaction_byte_digits
      drop_bit_eq_div pos_imp_zdiv_nonneg_iff split: if_splits)

lemma parse_q1_ok:
  assumes "match_q1 carriage = Some (t, i, n, d)" "parse_base36 i 2 = Inr index" "parse_base36 n 2 = Inr count"
    "1 \<le> count" "count \<le> 16" "\<not> count \<le> index" "case mid of None \<Rightarrow> True | Some m \<Rightarrow> message_id_ok m"
  shows "fragment_ok (q1_fragment t index count d mid)"
  using match_q1_Some [OF assms(1)] int36_bounds [of i] assms(2-)
  by (auto simp: fragment_ok_def q1_fragment_def transaction_text_def parse_base36_Inr)

lemma parse_fragment_ok:
  assumes "parse_fragment body = Inr f"
  shows "fragment_ok f"
proof (cases "take 2 body = lit ''Q2''")
  case True
  then show ?thesis using assms by (simp add: parse_fragment_def parse_q2_ok)
next
  case False
  from assms False obtain carriage mid where
    m: "(if 123 \<in> set body
                  then (let (carriage, message_id) = rsplit_brace body in
                    if message_id = [] \<or> length message_id > 5 \<or> (\<exists>c \<in> set message_id. c \<notin> set B36)
                    then Inl (CarriageError (lit ''invalid APRS message ID''))
                    else Inr (carriage, Some message_id))
                  else Inr (body, None)) = Inr (carriage, mid)"
    and r: "(case match_q1 carriage of
          None \<Rightarrow> Inl (CarriageError (lit ''malformed OpenQSP fragment''))
        | Some (t, i, n, d) \<Rightarrow>
            bindE (parse_base36 i 2) (\<lambda>index. bindE (parse_base36 n 2) (\<lambda>total.
            if \<not> (1 \<le> total \<and> total \<le> int MAX_FRAGMENTS) \<or> index \<ge> total
            then Inl (CarriageError (lit ''fragment index or count is outside profile bounds''))
            else Inr (q1_fragment t index total d mid)))) = Inr f"
    unfolding parse_fragment_def q1_fragment_def by (auto simp only: bindE_eq_Inr if_False split_conv)
  have "case mid of None \<Rightarrow> True | Some k \<Rightarrow> message_id_ok k"
    using m by (auto simp: message_id_ok_def Let_def subset_iff split: if_splits prod.splits)
  with r show ?thesis
    by (cases "match_q1 carriage") (auto simp: bindE_eq_Inr intro: parse_q1_ok)
qed

lemma base36_error: "base36 v n = Inl e \<Longrightarrow> \<exists>m. e = CarriageError m"
  and parse_base36_error: "parse_base36 s n = Inl e \<Longrightarrow> \<exists>m. e = CarriageError m"
  by (auto simp: base36_def parse_base36_def split: if_splits)

lemma parse_fragment_error: "parse_fragment body = Inl e \<Longrightarrow> \<exists>m. e = CarriageError m"
  by (auto simp: parse_fragment_def parse_q2_def bindE_eq_Inl Let_def
      split: if_splits option.splits prod.splits
      dest: base36_error parse_base36_error base91_decode_error)

end
