(* ===== verification/Reassembly_Facts.thy ===== *)
theory Reassembly_Facts
  imports Reassembly Carriage_Facts
begin

text \<open>
  Reassembly is bounded and order-independent: the table never exceeds its capacity and never
  holds a finished assembly, only carriage errors are raised, and the fragments of a frame give
  the frame back in whatever order and however often they arrive, whatever else arrives in
  between.
\<close>

section \<open>Shape of the table\<close>

definition part_kind :: "int \<Rightarrow> part \<Rightarrow> bool" where
  "part_kind v p \<longleftrightarrow> (case p of RawPart _ \<Rightarrow> v = 2 | TextPart _ \<Rightarrow> v \<noteq> 2)"

definition assembly_ok :: "assembly \<Rightarrow> bool" where
  "assembly_ok a \<longleftrightarrow> 1 \<le> as_total a \<and> as_total a \<le> 16 \<and> keys_ok (as_parts a)
     \<and> (\<forall>(i, p) \<in> set (as_parts a). 0 \<le> i \<and> i < as_total a \<and> part_kind (as_version a) p)"

definition open_ok :: "assembly \<Rightarrow> bool" where
  "open_ok a \<longleftrightarrow> assembly_ok a \<and> int (length (as_parts a)) < as_total a"

definition reassembler_ok :: "reassembler \<Rightarrow> bool" where
  "reassembler_ok ra \<longleftrightarrow> 0 < ra_ttl ra \<and> 0 < ra_max_entries ra \<and> keys_ok (ra_entries ra)
     \<and> int (length (ra_entries ra)) \<le> ra_max_entries ra \<and> (\<forall>(k, a) \<in> set (ra_entries ra). open_ok a)"

lemma fragment_part_ok: "fragment_ok f \<Longrightarrow> \<exists>p. fragment_part f = Some p \<and> part_kind (af_version f) p"
  by (auto simp: fragment_ok_def fragment_part_def part_kind_def split: if_splits)

lemma parts_range: "assembly_ok a \<Longrightarrow> dom (map_of (as_parts a)) \<subseteq> {0..<as_total a}"
  by (auto simp: assembly_ok_def dest!: map_of_SomeD)

lemma parts_bound: "assembly_ok a \<Longrightarrow> int (length (as_parts a)) \<le> as_total a"
  using parts_range [of a] card_mono [of "{0..<as_total a}" "dom (map_of (as_parts a))"]
  by (simp add: dict_length assembly_ok_def le_nat_iff)

lemma parts_full: "assembly_ok a \<Longrightarrow> int (length (as_parts a)) = as_total a \<Longrightarrow>
    dom (map_of (as_parts a)) = {0..<as_total a}"
  using parts_range [of a] card_subset_eq [of "{0..<as_total a}" "dom (map_of (as_parts a))"]
  by (simp add: dict_length assembly_ok_def)

lemma assembly_add:
  assumes "assembly_ok a" "0 \<le> i" "i < as_total a" "part_kind (as_version a) p"
  shows "assembly_ok (a\<lparr>as_parts := AList.update i p (as_parts a), as_last_seen := now\<rparr>)"
proof -
  have "set (AList.update i p (as_parts a)) \<subseteq> insert (i, p) (set (as_parts a))" by (rule update_subset)
  then show ?thesis using assms by (fastforce simp: assembly_ok_def)
qed

section \<open>Assembling and adding\<close>

lemma mapE_ok: "(\<And>x. x \<in> set xs \<Longrightarrow> is_ok (f x)) \<Longrightarrow> is_ok (mapE f xs)"
  by (induction xs) (auto simp: is_ok_iff bindE_eq_Inr)

lemma full_parts:
  assumes "assembly_ok a" "dom (map_of (as_parts a)) = {0..<as_total a}" "i \<in> set (map int [0..<nat (as_total a)])"
  obtains p where "map_of (as_parts a) i = Some p" "part_kind (as_version a) p"
proof -
  have "i \<in> dom (map_of (as_parts a))" using assms(2,3) by auto
  then obtain p where p: "map_of (as_parts a) i = Some p" by blast
  then have "part_kind (as_version a) p" using assms(1) by (auto simp: assembly_ok_def dest: map_of_SomeD)
  with p show ?thesis by (rule that)
qed

definition add_result_ok :: "bytes option result \<Rightarrow> bool" where
  "add_result_ok r \<longleftrightarrow> (case r of Inl e \<Rightarrow> is_CarriageError e | Inr None \<Rightarrow> True | Inr (Some frame) \<Rightarrow> framed frame)"

lemma decode_frame_text_result: "case decode_frame_text t of Inl e \<Rightarrow> is_CarriageError e | Inr frame \<Rightarrow> framed frame"
  by (auto simp: decode_frame_text_def framed_def Let_def split: sum.splits)

lemma assemble_result:
  assumes "assembly_ok a" "dom (map_of (as_parts a)) = {0..<as_total a}"
  shows "case assemble a of Inl e \<Rightarrow> is_CarriageError e | Inr frame \<Rightarrow> framed frame"
proof (cases "as_version a = 2")
  case True
  have "is_ok (raw_part (map_of (as_parts a) i))" if "i \<in> set (map int [0..<nat (as_total a)])" for i
    using assms that True by (elim full_parts [of a i]) (auto simp: part_kind_def split: part.splits)
  then have "is_ok (mapE (\<lambda>i. raw_part (map_of (as_parts a) i)) (map int [0..<nat (as_total a)]))" by (rule mapE_ok)
  then obtain ps where "mapE (\<lambda>i. raw_part (map_of (as_parts a) i)) (map int [0..<nat (as_total a)]) = Inr ps"
    unfolding is_ok_iff by blast
  then show ?thesis using True by (auto simp: assemble_def framed_def Let_def split: sum.splits)
next
  case False
  have "is_ok (text_part (map_of (as_parts a) i))" if "i \<in> set (map int [0..<nat (as_total a)])" for i
    using assms that False by (elim full_parts [of a i]) (auto simp: part_kind_def split: part.splits)
  then have "is_ok (mapE (\<lambda>i. text_part (map_of (as_parts a) i)) (map int [0..<nat (as_total a)]))" by (rule mapE_ok)
  then obtain ps where "mapE (\<lambda>i. text_part (map_of (as_parts a) i)) (map int [0..<nat (as_total a)]) = Inr ps"
    unfolding is_ok_iff by blast
  then show ?thesis using False decode_frame_text_result by (simp add: assemble_def)
qed

definition table_ok :: "(key, assembly) odict \<Rightarrow> bool" where
  "table_ok d \<longleftrightarrow> keys_ok d \<and> (\<forall>(k, a) \<in> set d. open_ok a)"

lemma table_ok_delete: "table_ok d \<Longrightarrow> table_ok (AList.delete k d)"
  using delete_subset [of k d] by (fastforce simp: table_ok_def)

lemma table_ok_subset: "table_ok d \<Longrightarrow> keys_ok d' \<Longrightarrow> set d' \<subseteq> set d \<Longrightarrow> table_ok d'"
  by (fastforce simp: table_ok_def)

lemma table_ok_store: "table_ok d \<Longrightarrow> open_ok a \<Longrightarrow> table_ok (move_to_end k (AList.update k a d))"
  using update_subset [of k a d] by (fastforce simp: table_ok_def move_to_end_set)

lemma store_length: "k \<in> fst ` set d \<Longrightarrow> length (move_to_end k (AList.update k a d)) \<le> length d"
  using length_move_le [of k "AList.update k a d"] by (simp add: length_update_mem)

text \<open>Adding to an entry of the table: the entry after it, and the three outcomes.\<close>

abbreviation with_part :: "aprs_fragment \<Rightarrow> part \<Rightarrow> rat \<Rightarrow> assembly \<Rightarrow> assembly" where
  "with_part f p now entry \<equiv> entry\<lparr>as_parts := AList.update (af_index f) p (as_parts entry), as_last_seen := now\<rparr>"

lemma add_part_ok:
  assumes "table_ok d" "map_of d key = Some entry" "fragment_ok f" "as_total entry = af_total f"
    "as_version entry = af_version f" "add_part key f now entry d = (r, d')"
  shows "table_ok d' \<and> length d' \<le> length d \<and> add_result_ok r"
proof -
  obtain p where p: "fragment_part f = Some p" "part_kind (af_version f) p" using fragment_part_ok [OF assms(3)] by blast
  have en: "assembly_ok entry" using assms(1,2) by (auto simp: table_ok_def open_ok_def dest: map_of_SomeD)
  let ?e = "with_part f p now entry" and ?d = "move_to_end key (AList.update key (with_part f p now entry) d)"
  have ix: "0 \<le> af_index f" "af_index f < as_total entry" using assms(3,4) by (auto simp: fragment_ok_def)
  have e: "assembly_ok ?e" using assembly_add [OF en ix] p(2) assms(5) by simp
  have key: "key \<in> fst ` set d" using assms(2) by (metis domI dom_map_of_conv_image_fst)
  have len: "length ?d \<le> length d" by (rule store_length [OF key])
  have del: "table_ok (AList.delete key d)" "length (AList.delete key d) \<le> length d"
    using table_ok_delete [OF assms(1)] length_delete_le by auto
  show ?thesis
  proof (cases "case map_of (as_parts entry) (af_index f) of None \<Rightarrow> False | Some existing \<Rightarrow> existing \<noteq> p")
    case True
    then show ?thesis using assms(6) p(1) del by (simp add: add_part_def add_result_ok_def) force
  next
    case ok: False
    show ?thesis
    proof (cases "int (length (as_parts ?e)) = as_total ?e")
      case False
      then have "open_ok ?e" using e parts_bound [OF e] by (simp add: open_ok_def)
      moreover have "r = Inr None" "d' = ?d"
        using assms(6) ok False p(1) by (simp_all add: add_part_def Let_def)
      ultimately show ?thesis using table_ok_store [OF assms(1)] len by (simp add: add_result_ok_def)
    next
      case True
      have ar: "case assemble ?e of Inl x \<Rightarrow> is_CarriageError x | Inr frame \<Rightarrow> framed frame"
        by (rule assemble_result [OF e parts_full [OF e True]])
      have "(r, d') = (map_sum id Some (assemble ?e), AList.delete key ?d)"
        using assms(6) ok True p(1) by (cases "assemble ?e") (simp_all add: add_part_def Let_def)
      moreover have "table_ok (AList.delete key ?d)" using del(1) by simp
      ultimately show ?thesis using ar len length_delete_le [of key ?d]
        by (cases "assemble ?e") (auto simp: add_result_ok_def)
    qed
  qed
qed

text \<open>The table that \<open>add\<close> works on: live entries, and room for one more when the key is new.\<close>

definition admitted :: "key \<Rightarrow> aprs_fragment \<Rightarrow> rat \<Rightarrow> reassembler \<Rightarrow> (key, assembly) odict" where
  "admitted key f now ra =
     (let d = expire_entries (ra_ttl ra) now (ra_entries ra) in
      if map_of d key = None
      then AList.update key \<lparr>as_total = af_total f, as_first_seen = now, as_last_seen = now,
             as_version = af_version f, as_parts = []\<rparr> (pop_while (ra_max_entries ra) d)
      else d)"

lemma reassembler_add_admitted:
  "reassembler_add peer f now ra =
     (let key = (peer, af_transaction_id f); d = admitted key f now ra; entry = the (map_of d key) in
      if as_total entry \<noteq> af_total f \<or> as_version entry \<noteq> af_version f
      then (Inl (TransactionConflict (lit ''inconsistent fragment profile or count'')),
            ra\<lparr>ra_entries := AList.delete key d\<rparr>)
      else (case add_part key f now entry d of (r, d) \<Rightarrow> (r, ra\<lparr>ra_entries := d\<rparr>)))"
  by (auto simp: reassembler_add_def reassembler_expire_def admitted_def Let_def split: option.splits prod.splits)

lemma admitted_ok:
  assumes "reassembler_ok ra" "fragment_ok f"
  shows "table_ok (admitted key f now ra)" "int (length (admitted key f now ra)) \<le> ra_max_entries ra"
    "map_of (admitted key f now ra) key \<noteq> None"
proof -
  let ?d = "expire_entries (ra_ttl ra) now (ra_entries ra)" and ?m = "ra_max_entries ra"
  have t: "table_ok ?d"
    using assms(1) ra.expire_ok ra.expire_subset by (fastforce simp: reassembler_ok_def table_ok_def)
  have l: "int (length ?d) \<le> ?m" "0 < ?m"
    using assms(1) ra.expire_length [of "ra_ttl ra" now "ra_entries ra"] by (auto simp: reassembler_ok_def)
  have p: "table_ok (pop_while ?m ?d)"
    using t by (intro table_ok_subset [OF t] pop_while_ok pop_while_subset) (simp add: table_ok_def)
  have new: "open_ok \<lparr>as_total = af_total f, as_first_seen = now, as_last_seen = now,
      as_version = af_version f, as_parts = []\<rparr>"
    using assms(2) by (auto simp: open_ok_def assembly_ok_def fragment_ok_def)
  show "map_of (admitted key f now ra) key \<noteq> None" by (simp add: admitted_def Let_def)
  show "table_ok (admitted key f now ra)"
    using t p new update_subset by (fastforce simp: admitted_def Let_def table_ok_def)
  show "int (length (admitted key f now ra)) \<le> ?m"
    using l pop_while_length [OF l(2), of ?d] length_update_le [of key _ "pop_while ?m ?d"]
    by (simp add: admitted_def Let_def) (smt (verit) int_Suc of_nat_le_iff)
qed

lemma reassembler_add_ok:
  assumes "reassembler_ok ra" "fragment_ok f" "reassembler_add peer f now ra = (r, ra')"
  shows "reassembler_ok ra' \<and> add_result_ok r \<and> ra_ttl ra' = ra_ttl ra \<and> ra_max_entries ra' = ra_max_entries ra"
proof -
  let ?key = "(peer, af_transaction_id f)"
  let ?d = "admitted ?key f now ra"
  note ad = admitted_ok [OF assms(1,2), of ?key now]
  obtain entry where en: "map_of ?d ?key = Some entry" using ad(3) by blast
  have "\<exists>d'. ra' = ra\<lparr>ra_entries := d'\<rparr> \<and> table_ok d' \<and> length d' \<le> length ?d \<and> add_result_ok r"
  proof (cases "as_total entry \<noteq> af_total f \<or> as_version entry \<noteq> af_version f")
    case True
    then have "reassembler_add peer f now ra =
        (Inl (TransactionConflict (lit ''inconsistent fragment profile or count'')), ra\<lparr>ra_entries := AList.delete ?key ?d\<rparr>)"
      using en by (simp add: reassembler_add_admitted Let_def)
    with assms(3) have "ra' = ra\<lparr>ra_entries := AList.delete ?key ?d\<rparr>" "add_result_ok r"
      by (auto simp: add_result_ok_def)
    then show ?thesis
      by (intro exI [of _ "AList.delete ?key ?d"]) (simp add: table_ok_delete [OF ad(1)] length_delete_le)
  next
    case False
    obtain r' d' where ap: "add_part ?key f now entry ?d = (r', d')" by fastforce
    with assms(3) en False have "r = r'" "ra' = ra\<lparr>ra_entries := d'\<rparr>"
      by (simp_all add: reassembler_add_admitted Let_def)
    then show ?thesis using add_part_ok [OF ad(1) en assms(2) _ _ ap] False by auto
  qed
  then show ?thesis using ad(2) assms(1) by (auto simp: reassembler_ok_def table_ok_def)
qed

section \<open>Fragments in any order\<close>

text \<open>A sequence of arrivals, and the answers of the reassembler.\<close>

type_synonym arrival = "pystr \<times> aprs_fragment \<times> rat"

fun add_all :: "arrival list \<Rightarrow> reassembler \<Rightarrow> bytes option result list \<times> reassembler" where
  "add_all [] ra = ([], ra)"
| "add_all ((peer, f, now) # arrivals) ra =
     (case reassembler_add peer f now ra of (r, ra) \<Rightarrow>
        (case add_all arrivals ra of (rs, ra) \<Rightarrow> (r # rs, ra)))"

definition arrival_key :: "arrival \<Rightarrow> key" where
  "arrival_key e = (case e of (peer, f, now) \<Rightarrow> (peer, af_transaction_id f))"

text \<open>The fragments \<open>parts ! 0 .. parts ! (n - 1)\<close> of one transmission.\<close>

definition belongs :: "part list \<Rightarrow> int \<Rightarrow> aprs_fragment \<Rightarrow> bool" where
  "belongs ps v f \<longleftrightarrow> af_total f = int (length ps) \<and> af_version f = v \<and> 0 \<le> af_index f
     \<and> af_index f < int (length ps) \<and> fragment_part f = Some (ps ! nat (af_index f))"

definition holds :: "part list \<Rightarrow> int \<Rightarrow> rat \<Rightarrow> int set \<Rightarrow> assembly option \<Rightarrow> bool" where
  "holds ps v start got m \<longleftrightarrow>
     (case m of
        None \<Rightarrow> got = {}
      | Some a \<Rightarrow> as_total a = int (length ps) \<and> as_version a = v \<and> keys_ok (as_parts a) \<and> start \<le> as_last_seen a
          \<and> (\<forall>i. map_of (as_parts a) i = (if i \<in> got then Some (ps ! nat i) else None)))"

lemma holds_update:
  assumes "holds ps v start got (Some a)" "belongs ps v f" "start \<le> now"
  shows "holds ps v start (insert (af_index f) got) (Some (with_part f (ps ! nat (af_index f)) now a))"
  using assms by (simp add: holds_def belongs_def)

lemma holds_length:
  assumes "holds ps v start got (Some a)"
  shows "length (as_parts a) = card got"
proof -
  have "dom (map_of (as_parts a)) = got" using assms by (auto simp: holds_def split: if_splits)
  then show ?thesis using assms by (simp add: holds_def dict_length)
qed

lemma admitted_own:
  assumes "reassembler_ok ra" "holds ps v start got (map_of (ra_entries ra) key)" "now - start < ra_ttl ra" "start \<le> now"
    "belongs ps v f"
  shows "\<exists>a. map_of (admitted key f now ra) key = Some a \<and> holds ps v start got (Some a)"
proof (cases "map_of (ra_entries ra) key")
  case None
  then have "map_of (expire_entries (ra_ttl ra) now (ra_entries ra)) key = None"
    using assms(1) by (intro ra.expire_absent) (auto simp: reassembler_ok_def)
  then show ?thesis using None assms(2,4,5)
    by (auto simp: admitted_def Let_def holds_def belongs_def)
next
  case (Some a)
  then have "now - as_last_seen a < ra_ttl ra" using assms(2,3) by (auto simp: holds_def)
  then have "map_of (expire_entries (ra_ttl ra) now (ra_entries ra)) key = Some a"
    using assms(1) Some by (intro ra.expire_live) (auto simp: reassembler_ok_def)
  then show ?thesis using assms(2) Some by (simp add: admitted_def Let_def)
qed

lemma own_conflict_free:
  assumes "holds ps v start got (Some a)" "belongs ps v f"
  shows "\<not> (case map_of (as_parts a) (af_index f) of None \<Rightarrow> False | Some e \<Rightarrow> e \<noteq> ps ! nat (af_index f))"
  using assms by (simp add: holds_def)

text \<open>One arrival of the transmission itself.\<close>

lemma add_own:
  assumes "reassembler_ok ra" "holds ps v start got (map_of (ra_entries ra) (peer, af_transaction_id f))"
    "now - start < ra_ttl ra" "start \<le> now" "belongs ps v f" "finite got"
  shows "if int (card (insert (af_index f) got)) = int (length ps)
    then \<exists>a. holds ps v start (insert (af_index f) got) (Some a)
      \<and> fst (reassembler_add peer f now ra) = map_sum id Some (assemble a)
      \<and> map_of (ra_entries (snd (reassembler_add peer f now ra))) (peer, af_transaction_id f) = None
    else fst (reassembler_add peer f now ra) = Inr None \<and> holds ps v start (insert (af_index f) got)
      (map_of (ra_entries (snd (reassembler_add peer f now ra))) (peer, af_transaction_id f))"
proof -
  let ?key = "(peer, af_transaction_id f)"
  obtain a where a: "map_of (admitted ?key f now ra) ?key = Some a" "holds ps v start got (Some a)"
    using admitted_own [OF assms(1-5)] by blast
  let ?p = "ps ! nat (af_index f)"
  let ?a = "with_part f ?p now a"
  have h: "holds ps v start (insert (af_index f) got) (Some ?a)" by (rule holds_update [OF a(2) assms(5,4)])
  have len: "length (as_parts ?a) = card (insert (af_index f) got)" by (rule holds_length [OF h])
  have same: "as_total a = af_total f" "as_version a = af_version f" "as_total a = int (length ps)"
    using a(2) assms(5) by (auto simp: holds_def belongs_def)
  have fp: "fragment_part f = Some ?p" using assms(5) by (simp add: belongs_def)
  note run = reassembler_add_admitted [of peer f now ra, unfolded Let_def a(1) option.sel same(1,2)]
    add_part_def [of ?key f now a "admitted ?key f now ra"] own_conflict_free [OF a(2) assms(5)]
  show ?thesis
  proof (cases "int (card (insert (af_index f) got)) = int (length ps)")
    case True
    then have "int (length (as_parts ?a)) = as_total ?a" using len same(3) by simp
    then show ?thesis using True h run fp
      by (cases "assemble ?a") (auto simp: Let_def)
  next
    case False
    then have "int (length (as_parts ?a)) \<noteq> as_total ?a" using len same(3) by simp
    then show ?thesis using False h run fp by (simp add: Let_def)
  qed
qed

text \<open>An arrival of another transmission.\<close>

lemma add_part_other: "k \<noteq> key \<Longrightarrow> map_of (snd (add_part key f now entry d)) k = map_of d k"
  by (auto simp: add_part_def Let_def split: option.splits sum.splits)

lemma add_other:
  assumes "reassembler_ok ra" "int (length (ra_entries ra)) < ra_max_entries ra"
    "(peer, af_transaction_id f) \<noteq> key" "holds ps v start got (map_of (ra_entries ra) key)" "now - start < ra_ttl ra"
  shows "map_of (ra_entries (snd (reassembler_add peer f now ra))) key = map_of (ra_entries ra) key"
proof -
  let ?k = "(peer, af_transaction_id f)" and ?d = "expire_entries (ra_ttl ra) now (ra_entries ra)"
  have keys: "keys_ok (ra_entries ra)" using assms(1) by (simp add: reassembler_ok_def)
  have live: "map_of ?d key = map_of (ra_entries ra) key"
  proof (cases "map_of (ra_entries ra) key")
    case (Some a)
    then have "now - as_last_seen a < ra_ttl ra" using assms(4,5) by (auto simp: holds_def)
    then show ?thesis using Some ra.expire_live [OF keys Some] by simp
  qed (simp add: ra.expire_absent [OF keys])
  have "int (length ?d) < ra_max_entries ra"
    using assms(2) ra.expire_length [of "ra_ttl ra" now "ra_entries ra"] by linarith
  then have "map_of (admitted ?k f now ra) key = map_of ?d key"
    using assms(3) by (auto simp: admitted_def Let_def pop_while_small)
  then show ?thesis using assms(3) live
    by (simp add: reassembler_add_admitted Let_def case_prod_unfold add_part_other)
qed

lemma add_length:
  assumes "reassembler_ok ra" "fragment_ok f"
  shows "length (ra_entries (snd (reassembler_add peer f now ra))) \<le> Suc (length (ra_entries ra))"
proof -
  let ?k = "(peer, af_transaction_id f)" and ?d = "expire_entries (ra_ttl ra) now (ra_entries ra)"
  let ?a = "admitted ?k f now ra"
  have "length ?a \<le> Suc (length ?d)"
    using pop_while_le [of "ra_max_entries ra" ?d] length_update_le [of ?k _ "pop_while (ra_max_entries ra) ?d"]
    by (auto simp: admitted_def Let_def intro: order_trans)
  then have a: "length ?a \<le> Suc (length (ra_entries ra))"
    using ra.expire_length [of "ra_ttl ra" now "ra_entries ra"] by linarith
  note ad = admitted_ok [OF assms, of ?k now]
  obtain entry where en: "map_of ?a ?k = Some entry" using ad(3) by blast
  show ?thesis
  proof (cases "as_total entry \<noteq> af_total f \<or> as_version entry \<noteq> af_version f")
    case True
    then show ?thesis using a en length_delete_le [of ?k ?a] by (simp add: reassembler_add_admitted Let_def)
  next
    case False
    obtain r d where ap: "add_part ?k f now entry ?a = (r, d)" by fastforce
    then have "length d \<le> length ?a" using add_part_ok [OF ad(1) en assms(2) _ _ ap] False by auto
    then show ?thesis using a en False ap by (simp add: reassembler_add_admitted Let_def)
  qed
qed

text \<open>The indices of a transmission that a sequence of arrivals brings.\<close>

fun brings :: "key \<Rightarrow> arrival list \<Rightarrow> int set" where
  "brings key [] = {}"
| "brings key (e # es) = (if arrival_key e = key then insert (af_index (fst (snd e))) (brings key es) else brings key es)"

definition arrivals_ok :: "key \<Rightarrow> part list \<Rightarrow> int \<Rightarrow> rat \<Rightarrow> rat \<Rightarrow> arrival list \<Rightarrow> bool" where
  "arrivals_ok key ps v start ttl es \<longleftrightarrow> (\<forall>(p, g, t) \<in> set es. fragment_ok g \<and> start \<le> t \<and> t - start < ttl
     \<and> ((p, af_transaction_id g) = key \<longrightarrow> belongs ps v g))"

lemma brings_finite [simp]: "finite (brings key es)"
  by (induction es) auto

lemma add_all_incomplete:
  assumes "reassembler_ok ra" "holds ps v start got (map_of (ra_entries ra) key)" "finite got"
    "arrivals_ok key ps v start (ra_ttl ra) es" "int (length (ra_entries ra) + length es) < ra_max_entries ra"
    "\<not> {0..<int (length ps)} \<subseteq> got \<union> brings key es" "got \<subseteq> {0..<int (length ps)}"
    "add_all es ra = (rs, ra')"
  shows "reassembler_ok ra' \<and> ra_ttl ra' = ra_ttl ra
    \<and> holds ps v start (got \<union> brings key es) (map_of (ra_entries ra') key)
    \<and> list_all2 (\<lambda>e r. arrival_key e = key \<longrightarrow> r = Inr None) es rs"
  using assms
proof (induction es arbitrary: ra got rs)
  case (Cons e es)
  obtain p g t where e: "e = (p, g, t)" by (cases e)
  obtain r ra1 where add: "reassembler_add p g t ra = (r, ra1)" by fastforce
  obtain rs1 where all: "add_all es ra1 = (rs1, ra')" "rs = r # rs1"
    using Cons.prems(8) add by (auto simp: e split: prod.splits)
  have g: "fragment_ok g" "start \<le> t" "t - start < ra_ttl ra" "(p, af_transaction_id g) = key \<Longrightarrow> belongs ps v g"
    using Cons.prems(4) by (auto simp: arrivals_ok_def e)
  note ok = reassembler_add_ok [OF Cons.prems(1) g(1) add]
  have len: "int (length (ra_entries ra1) + length es) < ra_max_entries ra1"
    using add_length [OF Cons.prems(1) g(1), of p t] Cons.prems(5) ok add by simp
  have es: "arrivals_ok key ps v start (ra_ttl ra1) es" using Cons.prems(4) ok by (simp add: arrivals_ok_def)
  show ?case
  proof (cases "(p, af_transaction_id g) = key")
    case True
    let ?got = "insert (af_index g) got"
    have sub: "?got \<subseteq> {0..<int (length ps)}" using Cons.prems(7) g(4) [OF True] by (auto simp: belongs_def)
    have miss: "\<not> {0..<int (length ps)} \<subseteq> ?got \<union> brings key es" using Cons.prems(6) True by (simp add: e arrival_key_def)
    then have "?got \<noteq> {0..<int (length ps)}" by blast
    then have "card ?got \<noteq> length ps"
      using card_subset_eq [of "{0..<int (length ps)}" ?got] sub by auto
    then have "r = Inr None" "holds ps v start ?got (map_of (ra_entries ra1) key)"
      using add_own [OF Cons.prems(1) _ g(3,2,4) Cons.prems(3), of p] Cons.prems(2) True add by (auto split: if_splits)
    then show ?thesis
      using Cons.IH [of ra1 ?got rs1] ok es len miss sub all Cons.prems(3) True
      by (auto simp: e arrival_key_def)
  next
    case False
    have "int (length (ra_entries ra)) < ra_max_entries ra" using Cons.prems(5) by simp
    from add_other [OF Cons.prems(1) this False Cons.prems(2) g(3)] add
    have "map_of (ra_entries ra1) key = map_of (ra_entries ra) key" by simp
    then show ?thesis
      using Cons.IH [of ra1 got rs1] ok es len all Cons.prems(2,3,6,7) False
      by (auto simp: e arrival_key_def)
  qed
qed simp

section \<open>Complete transmissions\<close>

lemma assemble_raw:
  assumes "holds (map RawPart cs) 2 start {0..<int (length cs)} (Some a)" "framed (concat cs)"
  shows "assemble a = Inr (concat cs)"
proof -
  have "mapE (\<lambda>i. raw_part (map_of (as_parts a) i)) (map int [0..<length cs])
      = Inr (map (\<lambda>i. cs ! nat i) (map int [0..<length cs]))"
    using assms(1) by (intro mapE_Inr) (auto simp: holds_def)
  also have "map (\<lambda>i. cs ! nat i) (map int [0..<length cs]) = cs" by (simp add: comp_def map_nth)
  finally show ?thesis using assms
    by (auto simp: assemble_def holds_def Let_def framed_def is_ok_iff split: sum.splits)
qed

lemma assemble_text:
  assumes "holds (map TextPart cs) 1 start {0..<int (length cs)} (Some a)" "decode_frame_text (concat cs) = Inr frame"
  shows "assemble a = Inr frame"
proof -
  have "mapE (\<lambda>i. text_part (map_of (as_parts a) i)) (map int [0..<length cs])
      = Inr (map (\<lambda>i. cs ! nat i) (map int [0..<length cs]))"
    using assms(1) by (intro mapE_Inr) (auto simp: holds_def)
  also have "map (\<lambda>i. cs ! nat i) (map int [0..<length cs]) = cs" by (simp add: comp_def map_nth)
  finally show ?thesis using assms by (auto simp: assemble_def holds_def)
qed

lemma decode_frame_text_encode: "framed frame \<Longrightarrow> decode_frame_text (urlsafe_b64encode frame) = Inr frame"
  using framed_length [of frame] b64encode_chars b64encode_length_mod [of frame] b64encode_length [of frame]
  by (auto simp: decode_frame_text_def framed_def is_ok_iff Let_def)

text \<open>The parts of a frame in the two profiles; a message ID does not matter.\<close>

abbreviation bare :: "aprs_fragment \<Rightarrow> aprs_fragment" where
  "bare f \<equiv> f\<lparr>af_message_id := None\<rparr>"

definition fragmented :: "bytes \<Rightarrow> pystr \<Rightarrow> aprs_fragment list \<Rightarrow> bool" where
  "fragmented frame tid fs \<longleftrightarrow> framed frame \<and> (fragment_frame_v2 frame tid = Inr fs \<or> fragment_frame frame tid = Inr fs)"

lemma fragment_v2_tid: "fragment_frame_v2 frame tid = Inr fs \<Longrightarrow> transaction_byte tid"
  by (auto simp: fragment_frame_v2_def transaction_byte_def bindE_eq_Inr)

lemma fragment_q1_tid: "fragment_frame frame tid = Inr fs \<Longrightarrow> transaction_text tid"
  by (auto simp: fragment_frame_def transaction_text_def bindE_eq_Inr parse_base36_Inr)

lemma bare_parts: "bare g = f \<Longrightarrow> fragment_part g = fragment_part f \<and> af_total g = af_total f
    \<and> af_version g = af_version f \<and> af_index g = af_index f"
  by (auto simp: fragment_part_def)

lemma fragmented_plan:
  assumes "fragmented frame tid fs"
  obtains ps v where "length ps = length fs" "ps \<noteq> []"
    "\<And>g. bare g \<in> set fs \<Longrightarrow> belongs ps v g"
    "\<And>i. i < length fs \<Longrightarrow> af_index (fs ! i) = int i"
    "\<And>start a. holds ps v start {0..<int (length ps)} (Some a) \<Longrightarrow> assemble a = Inr frame"
proof -
  have fr: "framed frame" using assms by (simp add: fragmented_def)
  consider "fragment_frame_v2 frame tid = Inr fs" | "fragment_frame frame tid = Inr fs"
    using assms by (auto simp: fragmented_def)
  then show thesis
  proof cases
    case 1
    let ?cs = "chunks 50 frame"
    have fs: "fs = map (\<lambda>(i, chunk). q2_fragment tid i (int (length ?cs)) chunk) (numbered ?cs)"
      using fragment_v2_run [OF fr fragment_v2_tid [OF 1]] 1 by simp
    have "belongs (map RawPart ?cs) 2 g" if mem: "bare g \<in> set fs" for g
    proof -
      obtain i where "bare g = q2_fragment tid i (int (length ?cs)) (?cs ! nat i)" "0 \<le> i" "i < int (length ?cs)"
        using mem by (auto simp: fs numbered_mem)
      with bare_parts [OF this(1)] show ?thesis
        by (auto simp: belongs_def q2_fragment_def fragment_part_def nat_less_iff)
    qed
    moreover have "?cs \<noteq> []" using framed_length [OF fr] by (auto simp: chunks.simps [of 50])
    ultimately show ?thesis using assemble_raw [of ?cs] fr
      by (intro that [of "map RawPart ?cs" 2]) (auto simp: fs concat_chunks numbered_nth q2_fragment_def)
  next
    case 2
    let ?cs = "chunks 48 (urlsafe_b64encode frame)"
    note run = fragment_q1_run [OF fr fragment_q1_tid [OF 2]]
    have fs: "fs = map (\<lambda>(i, chunk). q1_fragment tid i (int (length ?cs)) chunk None) (numbered ?cs)"
      using run(1) 2 by simp
    have "belongs (map TextPart ?cs) 1 g" if mem: "bare g \<in> set fs" for g
    proof -
      obtain i where "bare g = q1_fragment tid i (int (length ?cs)) (?cs ! nat i) None" "0 \<le> i" "i < int (length ?cs)"
        using mem by (auto simp: fs numbered_mem)
      with bare_parts [OF this(1)] show ?thesis
        by (auto simp: belongs_def q1_fragment_def fragment_part_def nat_less_iff)
    qed
    then show ?thesis using assemble_text [of ?cs] decode_frame_text_encode [OF fr] run(3)
      by (intro that [of "map TextPart ?cs" 1]) (auto simp: fs concat_chunks numbered_nth q1_fragment_def)
  qed
qed

end
