(* ===== verification/Replay_Facts.thy ===== *)
theory Replay_Facts
  imports Reassembly
begin

text \<open>
  The replay cache keeps at most \<open>max_entries\<close> answered requests, at most \<open>max_per_peer\<close> of
  any one peer, and always the one it was given last.
\<close>

section \<open>Trimming\<close>

definition peer_count :: "pystr \<Rightarrow> (key, 'v) odict \<Rightarrow> nat" where
  "peer_count p d = length (filter (\<lambda>k. fst k = p) (map fst d))"

lemma pop_while_drop: "\<exists>n. pop_while limit d = drop n d"
proof (induction limit d rule: pop_while.induct)
  case (2 limit e d)
  then show ?case
    by (cases "int (length (e # d)) \<ge> limit") (auto intro: exI [of _ 0] dest: arg_cong [of _ _ "\<lambda>n. n"], metis drop_Suc_Cons)
qed simp

lemma pop_while_last: "1 < limit \<Longrightarrow> \<exists>d'. pop_while limit (d @ [x]) = d' @ [x]"
proof (induction d)
  case (Cons e d)
  then show ?case by (cases "int (length (e # d @ [x])) \<ge> limit") auto
qed simp

lemma peer_count_drop: "peer_count p (drop n d) \<le> peer_count p d"
proof -
  have "filter (\<lambda>k. fst k = p) (map fst d)
      = filter (\<lambda>k. fst k = p) (map fst (take n d)) @ filter (\<lambda>k. fst k = p) (map fst (drop n d))"
    by (metis append_take_drop_id filter_append map_append)
  then show ?thesis unfolding peer_count_def by simp
qed

lemma peer_count_delete: "peer_count p (AList.delete k d) \<le> peer_count p d"
  by (induction d) (auto simp: peer_count_def)

lemma trim_keys_count: "peer_count q (trim_keys limit ks d) \<le> peer_count q d"
proof (induction limit ks d rule: trim_keys.induct)
  case (2 limit k ks d)
  then show ?case using peer_count_delete [of q k d] by (auto intro: order_trans)
qed simp

lemma trim_keys_length: "length (trim_keys limit ks d) \<le> length d"
proof (induction limit ks d rule: trim_keys.induct)
  case (2 limit k ks d)
  then show ?case using length_delete_le [of k d] by (auto intro: order_trans)
qed simp

lemma trim_keys_ok: "keys_ok d \<Longrightarrow> keys_ok (trim_keys limit ks d)"
  by (induction limit ks d rule: trim_keys.induct) auto

lemma filter_keys_delete:
  assumes "keys_ok d" "filter P (map fst d) = k # ks"
  shows "filter P (map fst (AList.delete k d)) = ks"
proof -
  have "map fst (AList.delete k d) = filter (\<lambda>x. x \<noteq> k) (map fst d)"
    by (induction d) auto
  moreover have "filter P (filter Q xs) = filter Q (filter P xs)" for Q xs
    by (simp add: conj_commute)
  ultimately have "filter P (map fst (AList.delete k d)) = filter (\<lambda>x. x \<noteq> k) (k # ks)"
    using assms(2) by (simp del: filter_filter)
  moreover have "distinct (k # ks)" using assms unfolding keys_ok_def by (metis distinct_filter)
  ultimately show ?thesis by (auto simp: filter_id_conv)
qed

lemma trim_keys_peer:
  assumes "0 < limit" "keys_ok d" "filter (\<lambda>k. fst k = p) (map fst d) = ks"
  shows "int (peer_count p (trim_keys limit ks d)) \<le> limit"
  using assms
proof (induction limit ks d rule: trim_keys.induct)
  case (1 limit d)
  then show ?case by (simp add: peer_count_def)
next
  case (2 limit k ks d)
  have "peer_count p d = length (k # ks)" using 2(4) by (simp add: peer_count_def)
  then show ?case using 2 filter_keys_delete [OF 2(3,4)] by simp
qed

lemma trim_keys_last:
  "0 < limit \<Longrightarrow> k \<notin> set ks \<Longrightarrow> \<exists>d'. trim_keys limit (ks @ [k]) (d @ [(k, v)]) = d' @ [(k, v)]"
proof (induction ks arbitrary: d)
  case (Cons j ks)
  then have "AList.delete j (d @ [(k, v)]) = AList.delete j d @ [(k, v)]" by (auto simp: AList.delete_eq)
  then show ?case using Cons by auto
qed auto

section \<open>The cache\<close>

definition replay_ok :: "replay_cache \<Rightarrow> bool" where
  "replay_ok rc \<longleftrightarrow> 0 < rc_ttl rc \<and> 0 < rc_max_entries rc \<and> 0 < rc_max_per_peer rc \<and> keys_ok (rc_entries rc)
     \<and> int (length (rc_entries rc)) \<le> rc_max_entries rc
     \<and> (\<forall>p. int (peer_count p (rc_entries rc)) \<le> rc_max_per_peer rc)"

lemma peer_count_filter: "peer_count p (filter P d) \<le> peer_count p d"
  by (induction d) (auto simp: peer_count_def)

lemma replay_expire_ok:
  assumes "replay_ok rc" shows "replay_ok (replay_expire now rc)"
proof -
  let ?d = "expire_replays (rc_ttl rc) now (rc_entries rc)"
  have "keys_ok ?d" using assms by (intro rc.expire_ok) (simp add: replay_ok_def)
  moreover have "int (length ?d) \<le> rc_max_entries rc"
    using assms rc.expire_length [of "rc_ttl rc" now "rc_entries rc"] by (simp add: replay_ok_def)
  moreover have "int (peer_count p ?d) \<le> rc_max_per_peer rc" for p
  proof -
    have "int (peer_count p ?d) \<le> int (peer_count p (rc_entries rc))"
      by (simp add: rc.expire_filter peer_count_filter)
    also have "\<dots> \<le> rc_max_per_peer rc" using assms by (simp add: replay_ok_def)
    finally show ?thesis .
  qed
  ultimately show ?thesis using assms by (simp add: replay_ok_def replay_expire_def)
qed

lemma move_to_end_length: "keys_ok d \<Longrightarrow> length (move_to_end k d) = length d"
proof -
  assume "keys_ok d"
  moreover have "dom (map_of (move_to_end k d)) = dom (map_of d)" by (auto simp: dom_def)
  ultimately show ?thesis by (simp add: dict_length)
qed

lemma peer_count_present: "keys_ok d \<Longrightarrow> map_of d k = Some v \<Longrightarrow>
    peer_count p (AList.delete k d) + (if fst k = p then 1 else 0) = peer_count p d"
  by (induction d) (auto simp: peer_count_def keys_ok_def delete_absent split: if_splits)

lemma peer_count_append: "peer_count p (d @ e) = peer_count p d + peer_count p e"
  by (simp add: peer_count_def)

lemma peer_count_move: "keys_ok d \<Longrightarrow> peer_count p (move_to_end k d) = peer_count p d"
  using peer_count_present [of d k _ p]
  by (cases "map_of d k") (auto simp: move_to_end_def peer_count_append, auto simp: peer_count_def)

lemma replay_get_ok:
  assumes "replay_ok rc" shows "replay_ok (snd (replay_get peer tid now rc))"
proof -
  have "replay_ok (replay_expire now rc)" by (rule replay_expire_ok [OF assms])
  then show ?thesis
    by (auto simp: replay_get_def Let_def replay_ok_def move_to_end_length peer_count_move)
qed

lemma replay_put_ok:
  assumes "replay_ok rc"
  shows "replay_ok (replay_put peer tid request responses now rc)"
    "map_of (rc_entries (replay_put peer tid request responses now rc)) (peer, tid)
       = Some \<lparr>rp_request = request, rp_responses = responses, rp_created_at = now\<rparr>"
proof -
  let ?k = "(peer, tid)" and ?v = "\<lparr>rp_request = request, rp_responses = responses, rp_created_at = now\<rparr>"
  let ?u = "AList.update ?k ?v (rc_entries rc)"
  have keys: "keys_ok (rc_entries rc)" using assms by (simp add: replay_ok_def)
  have d: "move_to_end ?k ?u = AList.delete ?k (rc_entries rc) @ [(?k, ?v)]" by (simp add: move_to_end_def)
  let ?d = "AList.delete ?k (rc_entries rc) @ [(?k, ?v)]"
  have kd: "keys_ok ?d" using keys d by (metis keys_ok_move keys_ok_update)
  let ?ks = "filter (\<lambda>item. fst item = peer) (map fst ?d)"
  let ?t = "trim_keys (rc_max_per_peer rc) ?ks ?d"
  let ?p = "pop_while (rc_max_entries rc + 1) ?t"
  have put: "replay_put peer tid request responses now rc = rc\<lparr>rc_entries := ?p\<rparr>"
    by (simp add: replay_put_def Let_def d)
  have pos: "0 < rc_max_entries rc" "0 < rc_max_per_peer rc" using assms by (auto simp: replay_ok_def)
  obtain n where n: "?p = drop n ?t" using pop_while_drop by blast
  have kp: "keys_ok ?p" unfolding n using trim_keys_ok [OF kd] by (simp add: keys_ok_def drop_map distinct_drop flip: drop_map)
  have len: "int (length ?p) \<le> rc_max_entries rc" using pop_while_length [of "rc_max_entries rc + 1" ?t] pos by simp
  have count: "int (peer_count q ?p) \<le> rc_max_per_peer rc" for q
  proof -
    have "int (peer_count q ?p) \<le> int (peer_count q ?t)" unfolding n by (simp add: peer_count_drop)
    also have "\<dots> \<le> rc_max_per_peer rc"
    proof (cases "q = peer")
      case True
      show ?thesis unfolding True by (rule trim_keys_peer [OF pos(2) kd refl])
    next
      case False
      have "peer_count q ?d \<le> peer_count q (rc_entries rc)"
        using False peer_count_delete [of q ?k "rc_entries rc"] by (simp add: peer_count_def)
      then show ?thesis using trim_keys_count [of q "rc_max_per_peer rc" ?ks ?d] assms
        by (simp add: replay_ok_def) (meson of_nat_mono order_trans)
    qed
    finally show ?thesis .
  qed
  show "replay_ok (replay_put peer tid request responses now rc)"
    unfolding put using assms kp len count by (simp add: replay_ok_def)
  have "?k \<notin> fst ` set (AList.delete ?k (rc_entries rc))" by simp
  then obtain d' where t: "?t = d' @ [(?k, ?v)]"
    using trim_keys_last [OF pos(2), of ?k "filter (\<lambda>item. fst item = peer) (map fst (AList.delete ?k (rc_entries rc)))"
        "AList.delete ?k (rc_entries rc)" ?v] by auto
  then obtain d'' where "?p = d'' @ [(?k, ?v)]" using pop_while_last [of "rc_max_entries rc + 1" d' "(?k, ?v)"] pos(1) unfolding t by auto
  then have "(?k, ?v) \<in> set ?p" by simp
  then show "map_of (rc_entries (replay_put peer tid request responses now rc)) ?k = Some ?v"
    unfolding put using kp by (simp add: keys_ok_nth)
qed

end
