(* ===== verification/Carriage_Properties.thy ===== *)
theory Carriage_Properties
  imports Reassembly_Facts Replay_Facts Protocol_Properties
begin

text \<open>
  What the APRS carriage promises: frames survive fragmentation in any order of arrival, the
  parser accepts exactly the well-formed fragments, and the state kept for peers is bounded.
\<close>

lemma compact_fragments:
  assumes "framed frame" "transaction_byte tid"
  shows "\<exists>fs. fragment_frame_v2 frame tid = Inr fs \<and> length fs = (length frame + 49) div 50
    \<and> list_all (\<lambda>f. \<exists>b. fragment_body f = Inr b \<and> parse_fragment b = Inr f \<and> length b \<le> MAX_APRS_BODY \<and> aprs_safe b) fs
    \<and> concat (map (\<lambda>f. the (af_raw_data f)) fs) = frame"
proof -
  let ?cs = "chunks 50 frame"
  let ?fs = "map (\<lambda>(i, chunk). q2_fragment tid i (int (length ?cs)) chunk) (numbered ?cs)"
  have len: "length ?cs = (length frame + 49) div 50" by (simp add: chunks_length)
  have "(length frame + 49) div 50 \<le> 308 div 50" using framed_length [OF assms(1)] by (intro div_le_mono) simp
  then have n: "int (length ?cs) \<le> 16" using len by simp
  have "\<exists>b. fragment_body f = Inr b \<and> parse_fragment b = Inr f \<and> length b \<le> MAX_APRS_BODY \<and> aprs_safe b"
    if mem: "f \<in> set ?fs" for f
  proof -
    obtain i where f: "f = q2_fragment tid i (int (length ?cs)) (?cs ! nat i)" "0 \<le> i" "i < int (length ?cs)"
      using mem by (auto simp: numbered_mem)
    then have "?cs ! nat i \<in> set ?cs" by (simp add: nat_less_iff)
    then show ?thesis using q2_body [OF assms(2) f(2,3) n, of "?cs ! nat i"] chunks_mem [of 50 _ frame] f(1) by force
  qed
  moreover have "map (\<lambda>f. the (af_raw_data f)) ?fs = map snd (numbered ?cs)"
    by (auto simp: q2_fragment_def)
  ultimately show ?thesis
    using fragment_v2_run [OF assms] len by (simp add: list_all_iff map_snd_numbered concat_chunks)
qed

text \<open>C14. The compact profile carries every frame: it becomes one fragment per started 50 bytes,
  whose bodies fit an APRS message, use only characters that are safe in one and parse back to
  the fragments, and whose payloads concatenate to the frame.\<close>

theorem carriage_roundtrip:
  assumes "encode_frame obj u = Inr frame" "parse_base36 tid 3 = Inr n" "n \<le> 255"
  shows "\<exists>fs. fragment_frame_v2 frame tid = Inr fs \<and> length fs = (length frame + 49) div 50
    \<and> list_all (\<lambda>f. \<exists>b. fragment_body f = Inr b \<and> parse_fragment b = Inr f \<and> length b \<le> MAX_APRS_BODY \<and> aprs_safe b) fs
    \<and> concat (map (\<lambda>f. the (af_raw_data f)) fs) = frame"
  using compact_fragments [OF encoded_framed [OF assms(1)], of tid] assms(2,3)
  by (auto simp: transaction_byte_def)

theorem carriage_roundtrip_witness:
  "\<exists>fs. fragment_frame_v2 [1, 0x44, 0, 0] (lit ''00A'') = Inr fs \<and> length fs = (length [1, 0x44, 0, 0 :: byte] + 49) div 50
    \<and> list_all (\<lambda>f. \<exists>b. fragment_body f = Inr b \<and> parse_fragment b = Inr f \<and> length b \<le> MAX_APRS_BODY \<and> aprs_safe b) fs
    \<and> concat (map (\<lambda>f. the (af_raw_data f)) fs) = [1, 0x44, 0, 0]"
  by (rule carriage_roundtrip [where obj = Stored and u = False and n = 10])
    (simp_all add: encode_frame_def codec_encode_frame_def parse_base36_def lit_def B36_mem int36_def digit36_def)

text \<open>C15. The fragment parser: a body is rejected with a carriage error, or parses to a
  well-formed fragment (index below the total, at most 16 fragments, a payload within the
  profile's size) whose own body parses back to it.\<close>

theorem parse_fragment_sound:
  "case parse_fragment body of
     Inl e \<Rightarrow> is_CarriageError e
   | Inr f \<Rightarrow> fragment_ok f \<and> (\<exists>b. fragment_body f = Inr b \<and> parse_fragment b = Inr f \<and> length b \<le> MAX_APRS_BODY)"
proof (cases "parse_fragment body")
  case (Inl e)
  then show ?thesis using parse_fragment_error by fastforce
next
  case (Inr f)
  then have "fragment_ok f" by (rule parse_fragment_ok)
  then show ?thesis using Inr fragment_body_parse [of f] by simp
qed

text \<open>basE91 as the transport uses it: decoding inverts encoding, \<open>n\<close> bytes take at most
  \<open>2 * ((8 * n + 12) div 13)\<close> characters, and every character is safe in an APRS message.\<close>

theorem base91_code:
  assumes "data \<noteq> []"
  shows "base91_decode (base91_encode data) = Inr data
    \<and> length (base91_encode data) \<le> 2 * ((8 * length data + 12) div 13) \<and> aprs_safe (base91_encode data)"
  using base91_roundtrip [OF assms] base91_length base91_safe by simp

theorem base91_code_witness:
  "base91_decode (base91_encode [0, 255, 7]) = Inr [0, 255, 7]
    \<and> length (base91_encode [0, 255, 7]) \<le> 2 * ((8 * length [0, 255, 7 :: byte] + 12) div 13)
    \<and> aprs_safe (base91_encode [0, 255, 7])"
  by (rule base91_code) simp

text \<open>C16. Fragments in any order: if no transaction of the peer with the frame's ID is open, the
  fragments of the frame, in any order, repeated however often and mixed with any well-formed fragments of other
  peers and IDs, give no frame until the last missing one arrives, and then exactly the frame,
  provided that everything the peer sends under that ID in between is a fragment of this frame, that
  all arrive within the time to live and that the table does not run full. This holds for both
  profiles.\<close>

theorem fragments_any_order:
  assumes "reassembler_ok ra" "map_of (ra_entries ra) (peer, tid) = None" "fragmented frame tid fs"
    "list_all (\<lambda>(p, g, t). fragment_ok g \<and> start \<le> t \<and> t - start < ra_ttl ra
       \<and> (if (p, af_transaction_id g) = (peer, tid) then bare g \<in> set fs else True)) (before @ [(peer, f, now)])"
    "int (length (ra_entries ra) + length before) < ra_max_entries ra"
    "af_transaction_id f = tid" "af_index f \<notin> brings (peer, tid) before"
    "insert (af_index f) (brings (peer, tid) before) = {0..<int (length fs)}"
  shows "\<exists>rs ra'. add_all (before @ [(peer, f, now)]) ra = (rs @ [Inr (Some frame)], ra')
    \<and> list_all2 (\<lambda>e r. if arrival_key e = (peer, tid) then r = Inr None else True) before rs
    \<and> map_of (ra_entries ra') (peer, tid) = None"
proof -
  from assms(3) obtain ps v where ps: "length ps = length fs" "ps \<noteq> []"
      "\<And>g. bare g \<in> set fs \<Longrightarrow> belongs ps v g"
      "\<And>start a. holds ps v start {0..<int (length ps)} (Some a) \<Longrightarrow> assemble a = Inr frame"
    by (elim fragmented_plan) blast
  let ?key = "(peer, tid)"
  have h0: "holds ps v start {} (map_of (ra_entries ra) ?key)" using assms(2) by (simp add: holds_def)
  have ok: "arrivals_ok ?key ps v start (ra_ttl ra) before"
    using assms(4) ps(3) by (fastforce simp: arrivals_ok_def list_all_iff split: if_splits)
  obtain rs ra1 where run: "add_all before ra = (rs, ra1)" by fastforce
  have "\<not> {0..<int (length ps)} \<subseteq> {} \<union> brings ?key before" using assms(7,8) ps(1) by auto
  from add_all_incomplete [OF assms(1) h0 _ ok assms(5) this _ run]
  have s: "reassembler_ok ra1" "ra_ttl ra1 = ra_ttl ra" "holds ps v start (brings ?key before) (map_of (ra_entries ra1) ?key)"
      "list_all2 (\<lambda>e r. arrival_key e = ?key \<longrightarrow> r = Inr None) before rs"
    by auto
  have f: "belongs ps v f" "start \<le> now" "now - start < ra_ttl ra1"
    using assms(4,6) ps(3) s(2) by auto
  have full: "insert (af_index f) (brings ?key before) = {0..<int (length ps)}" using assms(8) ps(1) by simp
  obtain r ra' where last: "reassembler_add peer f now ra1 = (r, ra')" by fastforce
  from add_own [OF s(1) _ f(3,2,1) brings_finite, of "?key" before peer] s(3) full last assms(6)
  obtain a where "holds ps v start {0..<int (length ps)} (Some a)" "r = map_sum id Some (assemble a)"
      "map_of (ra_entries ra') ?key = None"
    by auto
  then have "r = Inr (Some frame)" "map_of (ra_entries ra') ?key = None" using ps(4) by auto
  moreover have "add_all (es @ [(peer, f, now)]) st = (let (rs, st) = add_all es st; (r, st) = reassembler_add peer f now st
      in (rs @ [r], st))" for es st
    by (induction es arbitrary: st) (auto split: prod.splits)
  ultimately show ?thesis using run last s(4) by (auto elim: list_all2_mono)
qed

text \<open>A request of 73 bytes, and its two fragments arriving last first, the last one twice, with a
  fragment of another user in between.\<close>

definition long_request :: protocol_object where
  "long_request = SendMessage 7 (lit ''B2B'') (replicate 60 97)"

lemma send_frame_length:
  "encode_frame (SendMessage c r b) False = Inr d \<Longrightarrow> length d = 10 + length r + length (the (utf8_encode b))"
  by (auto simp: encode_frame_def codec_encode_frame_Inr encode_send_message_def bindE_eq_Inr codec_simps
      text_ok_def header_def)

lemma long_frame:
  obtains d where "encode_frame long_request False = Inr d" "length d = 73"
proof -
  have a: "ascii (replicate 60 97)" by (simp add: ascii_def)
  have "valid_object long_request"
    by (simp add: long_request_def callsign_ok_def lit_def is_digit_def is_upper_def valid_text_def scalar_def)
      (simp add: utf8_size_def sum_list_replicate)
  then obtain d where d: "encode_frame long_request False = Inr d"
    using encode_frame_ok [of long_request False] by (auto simp: is_ok_iff)
  then have "length d = 73"
    using send_frame_length a by (simp add: long_request_def utf8_encode_ascii lit_def)
  with d show ?thesis by (rule that)
qed

definition sample_table :: reassembler where
  "sample_table = \<lparr>ra_ttl = 120, ra_max_entries = 128, ra_entries = []\<rparr>"

lemma sample_table_ok: "reassembler_ok sample_table"
  by (simp add: reassembler_ok_def sample_table_def)

theorem fragments_any_order_witness:
  "\<exists>d f0 f1 rs ra'. encode_frame long_request False = Inr d \<and> fragment_frame_v2 d (lit ''00A'') = Inr [f0, f1]
    \<and> add_all ([(lit ''A1A'', f1, 5), (lit ''C3C'', f0, 6), (lit ''A1A'', f1, 7)] @ [(lit ''A1A'', f0, 9)]) sample_table
        = (rs @ [Inr (Some d)], ra')
    \<and> list_all2 (\<lambda>e r. if arrival_key e = (lit ''A1A'', lit ''00A'') then r = Inr None else True)
        [(lit ''A1A'', f1, 5), (lit ''C3C'', f0, 6), (lit ''A1A'', f1, 7)] rs
    \<and> map_of (ra_entries ra') (lit ''A1A'', lit ''00A'') = None"
proof -
  obtain d where d: "encode_frame long_request False = Inr d" "length d = 73" by (rule long_frame)
  have fr: "framed d" by (rule encoded_framed [OF d(1)])
  have tb: "transaction_byte (lit ''00A'')"
    by (simp add: transaction_byte_def parse_base36_def lit_def B36_mem int36_def digit36_def)
  have "length (chunks 50 d) = 2" by (simp add: chunks_length d(2))
  then obtain c0 c1 where c: "chunks 50 d = [c0, c1]" by (auto simp: numeral_2_eq_2 length_Suc_conv)
  let ?f0 = "q2_fragment (lit ''00A'') 0 2 c0" and ?f1 = "q2_fragment (lit ''00A'') 1 2 c1"
  have f: "fragment_frame_v2 d (lit ''00A'') = Inr [?f0, ?f1]"
    using fragment_v2_run [OF fr tb] by (simp add: c numbered_def upt_rec)
  have cs: "c0 \<noteq> []" "length c0 \<le> 50" "c1 \<noteq> []" "length c1 \<le> 50"
    using chunks_mem [of 50 c0 d] chunks_mem [of 50 c1 d] by (auto simp: c)
  then have ok: "fragment_ok ?f0" "fragment_ok ?f1" using tb by (simp_all add: fragment_ok_def q2_fragment_def)
  have "\<exists>rs ra'. add_all ([(lit ''A1A'', ?f1, 5), (lit ''C3C'', ?f0, 6), (lit ''A1A'', ?f1, 7)] @ [(lit ''A1A'', ?f0, 9)]) sample_table
        = (rs @ [Inr (Some d)], ra')
    \<and> list_all2 (\<lambda>e r. if arrival_key e = (lit ''A1A'', lit ''00A'') then r = Inr None else True)
        [(lit ''A1A'', ?f1, 5), (lit ''C3C'', ?f0, 6), (lit ''A1A'', ?f1, 7)] rs
    \<and> map_of (ra_entries ra') (lit ''A1A'', lit ''00A'') = None"
  proof (rule fragments_any_order [OF sample_table_ok, where fs = "[?f0, ?f1]" and start = 5])
    show "fragmented d (lit ''00A'') [?f0, ?f1]" using fr f by (simp add: fragmented_def)
    show "insert (af_index ?f0) (brings (lit ''A1A'', lit ''00A'')
        [(lit ''A1A'', ?f1, 5), (lit ''C3C'', ?f0, 6), (lit ''A1A'', ?f1, 7)]) = {0..<int (length [?f0, ?f1])}"
      by (auto simp: arrival_key_def q2_fragment_def lit_def)
  qed (use ok in \<open>auto simp: sample_table_def q2_fragment_def arrival_key_def lit_def\<close>)
  with d(1) f show ?thesis by blast
qed

text \<open>C17. Reassembly is bounded: starting empty, whatever parsed fragments arrive, the table never
  exceeds its capacity and holds only incomplete transmissions of at most 16 fragments, every
  frame it returns decodes, and nothing but carriage errors is raised.\<close>

theorem reassembly_bounded:
  assumes "new_reassembler ttl capacity = Inr ra" "list_all (\<lambda>(p, f, t). \<exists>b. parse_fragment b = Inr f) es"
    "add_all es ra = (rs, ra')"
  shows "int (length (ra_entries ra')) \<le> capacity
    \<and> list_all (\<lambda>(k, a). int (length (as_parts a)) < as_total a \<and> as_total a \<le> 16) (ra_entries ra')
    \<and> list_all add_result_ok rs"
proof -
  have ok: "reassembler_ok ra" "ra_max_entries ra = capacity"
    using assms(1) by (auto simp: new_reassembler_def reassembler_ok_def split: if_splits)
  have "reassembler_ok ra' \<and> ra_max_entries ra' = capacity \<and> list_all add_result_ok rs"
    using ok assms(2,3)
  proof (induction es arbitrary: ra rs)
    case (Cons e es)
    obtain p f t where e: "e = (p, f, t)" by (cases e)
    obtain r ra1 where add: "reassembler_add p f t ra = (r, ra1)" by fastforce
    obtain rs1 where all: "add_all es ra1 = (rs1, ra')" "rs = r # rs1"
      using Cons.prems(4) add by (auto simp: e split: prod.splits)
    have "fragment_ok f" using Cons.prems(3) parse_fragment_ok by (auto simp: e)
    from reassembler_add_ok [OF Cons.prems(1) this add] show ?case
      using Cons.IH [of ra1 rs1] Cons.prems(2,3) all by (simp add: e)
  qed simp
  then show ?thesis by (auto simp: reassembler_ok_def list_all_iff open_ok_def assembly_ok_def)
qed

theorem reassembly_bounded_witness:
  "\<exists>f rs ra'. parse_fragment (lit ''Q1:001:00/02:AUQ'') = Inr f
    \<and> add_all [(lit ''A1A'', f, 0), (lit ''B2B'', f, 1)] \<lparr>ra_ttl = 9, ra_max_entries = 1, ra_entries = []\<rparr> = (rs, ra')
    \<and> int (length (ra_entries ra')) \<le> 1
    \<and> list_all (\<lambda>(k, a). int (length (as_parts a)) < as_total a \<and> as_total a \<le> 16) (ra_entries ra')
    \<and> list_all add_result_ok rs"
proof -
  let ?f = "q1_fragment (lit ''001'') 0 2 (lit ''AUQ'') None"
  have f: "parse_fragment (lit ''Q1:001:00/02:AUQ'') = Inr ?f"
    by (simp add: parse_fragment_def match_q1_def lit_def B36_mem is_b64_def parse_base36_def int36_def digit36_def
        q1_fragment_def)
  obtain rs ra' where run: "add_all [(lit ''A1A'', ?f, 0), (lit ''B2B'', ?f, 1)]
      \<lparr>ra_ttl = 9, ra_max_entries = 1, ra_entries = []\<rparr> = (rs, ra')" by fastforce
  from reassembly_bounded [OF _ _ run, of 9 1] f show ?thesis
    by (intro exI [of _ ?f] exI [of _ rs] exI [of _ ra'])
      (auto simp: new_reassembler_def run simp del: add_all.simps)
qed

datatype replay_call = GetReplay pystr pystr rat | PutReplay pystr pystr bytes "bytes list" rat | ExpireReplay rat

fun do_replay_call :: "replay_call \<Rightarrow> replay_cache \<Rightarrow> replay_cache" where
  "do_replay_call (GetReplay p tid now) rc = snd (replay_get p tid now rc)"
| "do_replay_call (PutReplay p tid request responses now) rc = replay_put p tid request responses now rc"
| "do_replay_call (ExpireReplay now) rc = replay_expire now rc"

lemma replay_calls_ok: "replay_ok rc \<Longrightarrow> replay_ok (fold do_replay_call calls rc)"
proof (induction calls arbitrary: rc)
  case (Cons c calls)
  then show ?case using replay_get_ok replay_put_ok(1) replay_expire_ok by (cases c) simp_all
qed simp

lemma replay_calls_bounds: "rc_ttl (fold do_replay_call calls rc) = rc_ttl rc
    \<and> rc_max_entries (fold do_replay_call calls rc) = rc_max_entries rc
    \<and> rc_max_per_peer (fold do_replay_call calls rc) = rc_max_per_peer rc"
proof (induction calls arbitrary: rc)
  case (Cons c calls)
  then show ?case
    by (cases c) (simp_all add: replay_get_def replay_put_def replay_expire_def Let_def)
qed simp

text \<open>The replay cache: after any calls it holds at most \<open>max_entries\<close> requests, at most
  \<open>max_per_peer\<close> of each peer, and a request that is put is returned for as long as its time to
  live runs and not after.\<close>

theorem replay_bounded:
  assumes "new_replay_cache ttl most per_peer = Inr rc0" "rc = fold do_replay_call calls rc0"
  shows "int (length (rc_entries rc)) \<le> most \<and> (\<forall>p. int (peer_count p (rc_entries rc)) \<le> per_peer)
    \<and> fst (replay_get peer tid later (replay_put peer tid request responses now rc))
      = (if later - now < ttl then Some \<lparr>rp_request = request, rp_responses = responses, rp_created_at = now\<rparr> else None)"
proof -
  have "replay_ok rc0" using assms(1)
    by (auto simp: new_replay_cache_def replay_ok_def peer_count_def split: if_splits)
  then have ok: "replay_ok rc" unfolding assms(2) by (rule replay_calls_ok)
  have b: "rc_ttl rc = ttl" "rc_max_entries rc = most" "rc_max_per_peer rc = per_peer"
    using replay_calls_bounds [of calls rc0] assms by (auto simp: new_replay_cache_def split: if_splits)
  let ?rc = "replay_put peer tid request responses now rc"
  note put = replay_put_ok [OF ok, of peer tid request responses now]
  have "rc_ttl ?rc = ttl" using b by (simp add: replay_put_def Let_def)
  then have "map_of (expire_replays ttl later (rc_entries ?rc)) (peer, tid)
      = (if later - now < ttl then Some \<lparr>rp_request = request, rp_responses = responses, rp_created_at = now\<rparr> else None)"
    using rc.expire_live [OF _ put(2), of later ttl] rc.expire_stale [OF _ put(2), of later ttl] put(1)
    by (simp add: replay_ok_def)
  then show ?thesis using ok b \<open>rc_ttl ?rc = ttl\<close>
    by (simp add: replay_ok_def replay_get_def replay_expire_def Let_def)
qed

theorem replay_bounded_witness:
  "int (length (rc_entries (fold do_replay_call [PutReplay (lit ''A1A'') (lit ''001'') [1] [] 3, ExpireReplay 4]
        \<lparr>rc_ttl = 600, rc_max_entries = 256, rc_max_per_peer = 16, rc_entries = []\<rparr>))) \<le> 256
    \<and> (\<forall>p. int (peer_count p (rc_entries (fold do_replay_call [PutReplay (lit ''A1A'') (lit ''001'') [1] [] 3, ExpireReplay 4]
        \<lparr>rc_ttl = 600, rc_max_entries = 256, rc_max_per_peer = 16, rc_entries = []\<rparr>))) \<le> 16)
    \<and> fst (replay_get (lit ''B2B'') (lit ''007'') 700 (replay_put (lit ''B2B'') (lit ''007'') [2] [[3]] 90
        (fold do_replay_call [PutReplay (lit ''A1A'') (lit ''001'') [1] [] 3, ExpireReplay 4]
          \<lparr>rc_ttl = 600, rc_max_entries = 256, rc_max_per_peer = 16, rc_entries = []\<rparr>)))
      = (if (700 :: rat) - 90 < 600 then Some \<lparr>rp_request = [2], rp_responses = [[3]], rp_created_at = 90\<rparr> else None)"
  by (rule replay_bounded [OF _ refl]) (simp add: new_replay_cache_def)

end
