(* ===== verification/Effects.thy ===== *)
theory Effects
  imports Core
begin

text \<open>
  Actions of the transport adapters: a computation on a state that may raise, keeps the state
  changes it has made when it does, and records the events of the core it causes. Reads of
  clocks are a record of readings, one for each operation.
\<close>

type_synonym ('s, 'a) act = "'s \<Rightarrow> 'a result \<times> event list \<times> 's"

definition returnA :: "'a \<Rightarrow> ('s, 'a) act" where
  "returnA x s = (Inr x, [], s)"

definition raiseA :: "exn \<Rightarrow> ('s, 'a) act" where
  "raiseA e s = (Inl e, [], s)"

definition bindA :: "('s, 'a) act \<Rightarrow> ('a \<Rightarrow> ('s, 'b) act) \<Rightarrow> ('s, 'b) act" where
  "bindA m f s =
     (case m s of
        (Inl e, events, s) \<Rightarrow> (Inl e, events, s)
      | (Inr x, events, s) \<Rightarrow> (case f x s of (r, events', s) \<Rightarrow> (r, events @ events', s)))"

definition seqA :: "('s, 'a) act \<Rightarrow> ('s, 'b) act \<Rightarrow> ('s, 'b) act" where
  "seqA m n = bindA m (\<lambda>_. n)"

definition readA :: "('s \<Rightarrow> 'a) \<Rightarrow> ('s, 'a) act" where
  "readA f s = (Inr (f s), [], s)"

definition updateA :: "('s \<Rightarrow> 's) \<Rightarrow> ('s, unit) act" where
  "updateA f s = (Inr (), [], f s)"

definition resultA :: "'a result \<Rightarrow> ('s, 'a) act" where
  "resultA r s = (r, [], s)"

definition whenA :: "bool \<Rightarrow> ('s, unit) act \<Rightarrow> ('s, unit) act" where
  "whenA b m = (if b then m else returnA ())"

text \<open>A loop over a snapshot, and a call whose exception is caught and logged.\<close>

fun forA :: "'a list \<Rightarrow> ('a \<Rightarrow> ('s, unit) act) \<Rightarrow> ('s, unit) act" where
  "forA [] f = returnA ()"
| "forA (x # xs) f = seqA (f x) (forA xs f)"

definition swallowA :: "('s, 'a) act \<Rightarrow> ('s, unit) act" where
  "swallowA m s = (case m s of (_, events, s) \<Rightarrow> (Inr (), events, s))"

section \<open>Laws\<close>

lemma bindA_return [simp]: "bindA (returnA x) f = f x"
  by (rule ext) (simp add: bindA_def returnA_def)

lemma bindA_raise [simp]: "bindA (raiseA e) f = raiseA e"
  by (rule ext) (simp add: bindA_def raiseA_def)

lemma bindA_result [simp]: "bindA (resultA (Inl e)) f = raiseA e" "bindA (resultA (Inr x)) f = f x"
  by (rule ext, simp add: bindA_def raiseA_def resultA_def)+

lemma bindA_run:
  "m s = (Inr x, ev, s') \<Longrightarrow> bindA m f s = (case f x s' of (r, ev', s'') \<Rightarrow> (r, ev @ ev', s''))"
  "m s = (Inl e, ev, s') \<Longrightarrow> bindA m f s = (Inl e, ev, s')"
  by (simp_all add: bindA_def)

lemma bindA_read [simp]: "bindA (readA g) f s = f (g s) s"
  by (simp add: bindA_def readA_def)

lemma bindA_update [simp]: "bindA (updateA g) f s = f () (g s)"
  by (simp add: bindA_def updateA_def split: prod.splits)

lemma seqA_update [simp]: "seqA (updateA g) m s = m (g s)"
  by (simp add: seqA_def)

lemma whenA_simps [simp]: "whenA True m = m" "whenA False m = returnA ()"
  by (simp_all add: whenA_def)

lemma seqA_return [simp]: "seqA (returnA x) m = m"
  by (simp add: seqA_def)

lemma bind_return_state [simp]:
  "snd (snd (bindA m (\<lambda>x. returnA (g x)) s)) = snd (snd (m s))"
  "snd (snd (seqA m (returnA y) s)) = snd (snd (m s))"
  by (simp_all add: seqA_def bindA_def returnA_def split: prod.splits sum.splits)

section \<open>What an action keeps\<close>

text \<open>
  \<open>keeps P m\<close>: from a state with \<open>P\<close> the action ends, normally or by an exception, in a state
  with \<open>P\<close>. The rules follow the structure of an action.
\<close>

named_theorems keeping \<open>rules for what an action keeps\<close>

definition keeps :: "('s \<Rightarrow> bool) \<Rightarrow> ('s, 'a) act \<Rightarrow> bool" where
  "keeps P m \<longleftrightarrow> (\<forall>s. P s \<longrightarrow> P (snd (snd (m s))))"

lemma keepsD: "keeps P m \<Longrightarrow> P s \<Longrightarrow> P (snd (snd (m s)))"
  by (simp add: keeps_def)

lemma keepsI: "(\<And>s. P s \<Longrightarrow> P (snd (snd (m s)))) \<Longrightarrow> keeps P m"
  by (simp add: keeps_def)

lemma keeps_run: "keeps P m \<Longrightarrow> P s \<Longrightarrow> m s = (r, ev, s') \<Longrightarrow> P s'"
  using keepsD [of P m s] by simp

lemma keeps_simple [keeping]: "keeps P (returnA x)" "keeps P (raiseA e)" "keeps P (readA f)" "keeps P (resultA r)"
  by (simp_all add: keeps_def returnA_def raiseA_def readA_def resultA_def)

lemma keeps_update [keeping]: "(\<And>s. P s \<Longrightarrow> P (f s)) \<Longrightarrow> keeps P (updateA f)"
  by (simp add: keeps_def updateA_def)

lemma keeps_bind [keeping]:
  assumes "keeps P m" "\<And>x. keeps P (f x)"
  shows "keeps P (bindA m f)"
proof (rule keepsI)
  fix s assume p: "P s"
  obtain r ev s' where m: "m s = (r, ev, s')" by (cases "m s")
  with keeps_run [OF assms(1) p] have "P s'" by blast
  then show "P (snd (snd (bindA m f s)))"
    using keepsD [OF assms(2), of s'] by (cases r) (simp_all add: bindA_def m case_prod_unfold)
qed

lemma keeps_seq [keeping]: "keeps P m \<Longrightarrow> keeps P n \<Longrightarrow> keeps P (seqA m n)"
  unfolding seqA_def by (rule keeps_bind)

lemma keeps_when [keeping]: "keeps P m \<Longrightarrow> keeps P (whenA b m)"
  by (simp add: whenA_def keeps_simple)

lemma keeps_for [keeping]: "(\<And>x. keeps P (f x)) \<Longrightarrow> keeps P (forA xs f)"
  by (induction xs) (simp_all add: keeps_simple keeps_seq)

lemma keeps_swallow [keeping]: "keeps P m \<Longrightarrow> keeps P (swallowA m)"
  using keepsD [of P m] by (auto simp: keeps_def swallowA_def split: prod.splits)

lemma keeps_if [keeping]: "keeps P m \<Longrightarrow> keeps P n \<Longrightarrow> keeps P (if b then m else n)"
  by simp

end
