(* ===== verification/Adapter.thy ===== *)
theory Adapter
  imports Effects Reassembly Presence
begin

text \<open>
  The base APRS adapter (\<open>transport/aprs/adapter.py\<close>): configuration, outbound queue with its
  identifiers, acknowledgement and retry state, activity. The heap of queued fragments is a list
  in the order \<open>(priority, order)\<close>; dictionaries are association lists. Methods that a subclass
  overrides are passed to the operations that call them on \<open>self\<close>.
\<close>

section \<open>State\<close>

record adapter_config =
  cf_ack_timeout :: rat
  cf_max_attempts :: int
  cf_min_interval :: rat
  cf_activity_timeout :: rat
  cf_reassembly_ttl :: rat
  cf_replay_ttl :: rat
  cf_max_reassemblies :: int
  cf_max_replays :: int
  cf_max_replays_per_peer :: int
  cf_queue_capacity :: int
  cf_transaction_id_space :: int
  cf_max_activity_peers :: int
  cf_event_history_capacity :: int

definition default_config :: adapter_config where
  "default_config = \<lparr>cf_ack_timeout = 15, cf_max_attempts = 5, cf_min_interval = 2, cf_activity_timeout = 600,
     cf_reassembly_ttl = 120, cf_replay_ttl = 600, cf_max_reassemblies = 128, cf_max_replays = 256,
     cf_max_replays_per_peer = 16, cf_queue_capacity = 512, cf_transaction_id_space = 36 ^ 3,
     cf_max_activity_peers = 256, cf_event_history_capacity = 512\<rparr>"

text \<open>\<open>__post_init__\<close>.\<close>

definition check_config :: "adapter_config \<Rightarrow> adapter_config result" where
  "check_config c =
     (if cf_ack_timeout c \<le> 0 \<or> cf_max_attempts c \<le> 0 \<or> cf_activity_timeout c \<le> 0
      then Inl (ValueError (lit ''timeouts and attempts must be positive''))
      else if cf_min_interval c < 0 \<or> cf_queue_capacity c \<le> 0
      then Inl (ValueError (lit ''rate interval must be non-negative and queue bounded''))
      else if \<not> (1 \<le> cf_transaction_id_space c \<and> cf_transaction_id_space c \<le> 36 ^ 3)
      then Inl (ValueError (lit ''transaction ID space must be between 1 and 46656''))
      else if cf_max_activity_peers c \<le> 0 \<or> cf_event_history_capacity c \<le> 0
      then Inl (ValueError (lit ''activity and event-history bounds must be positive''))
      else Inr c)"

record outbound_packet =
  op_source :: pystr
  op_destination :: pystr
  op_body :: pystr
  op_is_ack :: bool

type_synonym delivery = "pystr \<times> int"

record queued =
  qd_priority :: int
  qd_order :: int
  qd_peer :: pystr
  qd_fragment :: aprs_fragment
  qd_delivery :: "delivery option"
  qd_response_batch :: "key option"
  qd_response_supersedable :: bool

record pending =
  pd_packet :: outbound_packet
  pd_attempts :: int
  pd_deadline :: rat
  pd_priority :: int
  pd_transaction_id :: pystr
  pd_delivery :: "delivery option"
  pd_response_batch :: "key option"
  pd_response_supersedable :: bool

text \<open>
  The core and the router are shared with the rest of the node; \<open>ad_router_listener\<close> is the
  number under which the router listens to the core. A peer that was never sent to has no
  last-send time (\<open>float("-inf")\<close> in the source).
\<close>

record adapter =
  ad_core :: server
  ad_config :: adapter_config
  ad_service_callsign :: pystr
  ad_reassembly :: reassembler
  ad_replay :: replay_cache
  ad_queue :: "queued list"
  ad_pending :: "(key, pending) odict"
  ad_immediate :: "outbound_packet list"
  ad_next_transaction :: "pystr \<Rightarrow> int"
  ad_next_message :: "pystr \<Rightarrow> int"
  ad_activity :: "(pystr, pystr \<times> rat) odict"
  ad_last_send :: "pystr \<Rightarrow> rat option"
  ad_order :: int
  ad_completed_transactions :: "key list"
  ad_failed_packets :: "outbound_packet list"
  ad_router :: "router option"
  ad_router_listener :: nat

text \<open>The clocks an operation reads, and which delivery listeners raise.\<close>

record readings =
  rd_now :: rat
  rd_accepted_at :: pyval
  rd_delivered_at :: int
  rd_presence_now :: rat
  rd_raising :: "nat \<Rightarrow> exn option"

section \<open>Peers\<close>

text \<open>\<open>[A-Z0-9]{3,12}(?:-[0-9]{1,2})?\<close>, and an SSID of at most 15.\<close>

definition int10 :: "pystr \<Rightarrow> int" where
  "int10 s = foldl (\<lambda>a c. a * 10 + (int c - 48)) 0 s"

definition validate_peer :: "pystr \<Rightarrow> pystr result" where
  "validate_peer peer =
     (let callsign = takeWhile (\<lambda>c. c \<noteq> 45) peer; rest = dropWhile (\<lambda>c. c \<noteq> 45) peer; ssid = tl rest in
      if \<not> (3 \<le> length callsign \<and> length callsign \<le> 12 \<and> (\<forall>c \<in> set callsign. c \<in> set B36)
           \<and> (rest = [] \<or> 1 \<le> length ssid \<and> length ssid \<le> 2 \<and> (\<forall>c \<in> set ssid. is_digit c)))
      then Inl (CarriageError (lit ''invalid APRS source address''))
      else if ssid \<noteq> [] \<and> int10 ssid > 15
      then Inl (CarriageError (lit ''APRS SSID must be between 0 and 15''))
      else Inr peer)"

section \<open>Identifiers\<close>

text \<open>\<open>for _ in range(n)\<close>: the next counter value whose identifier is not active.\<close>

fun allocate_loop :: "pystr \<Rightarrow> nat \<Rightarrow> int \<Rightarrow> nat \<Rightarrow> pystr list \<Rightarrow> int \<Rightarrow> pystr result \<times> int" where
  "allocate_loop exhausted 0 space n_chars active counter = (Inl (OverflowError exhausted), counter)"
| "allocate_loop exhausted (Suc n) space n_chars active counter =
     (let val = counter mod space; counter = val + 1 in
      case base36 val n_chars of
        Inl e \<Rightarrow> (Inl e, counter)
      | Inr candidate \<Rightarrow>
          if candidate \<notin> set active then (Inr candidate, counter)
          else allocate_loop exhausted n space n_chars active counter)"

definition active_transactions :: "pystr \<Rightarrow> 'z adapter_scheme \<Rightarrow> pystr list" where
  "active_transactions peer s =
     map (\<lambda>item. af_transaction_id (qd_fragment item)) (filter (\<lambda>item. qd_peer item = peer) (ad_queue s))
     @ concat (map (\<lambda>((pending_peer, _), pending).
         if pending_peer \<noteq> peer then []
         else (case parse_fragment (op_body (pd_packet pending)) of
             Inl _ \<Rightarrow> []
           | Inr f \<Rightarrow> [af_transaction_id f])) (ad_pending s))"

definition active_message_ids :: "pystr \<Rightarrow> 'z adapter_scheme \<Rightarrow> pystr list" where
  "active_message_ids peer s =
     concat (map (\<lambda>item. if qd_peer item = peer then (case af_message_id (qd_fragment item) of
         None \<Rightarrow> [] | Some m \<Rightarrow> [m]) else []) (ad_queue s))
     @ map (\<lambda>((_, message_id), _). message_id) (filter (\<lambda>((pending_peer, _), _). pending_peer = peer) (ad_pending s))"

definition allocate_transaction :: "pystr \<Rightarrow> ('z adapter_scheme, pystr) act" where
  "allocate_transaction peer s =
     (let space = cf_transaction_id_space (ad_config s) in
      case allocate_loop (lit ''peer APRS identifier space exhausted'') (nat space) space 3 (active_transactions peer s) (ad_next_transaction s peer) of
        (r, counter) \<Rightarrow> (r, [], s\<lparr>ad_next_transaction := (ad_next_transaction s)(peer := counter)\<rparr>))"

definition allocate_message :: "pystr \<Rightarrow> ('z adapter_scheme, pystr) act" where
  "allocate_message peer s =
     (case allocate_loop (lit ''peer APRS identifier space exhausted'') (36 ^ 2) (36 ^ 2) 2 (active_message_ids peer s) (ad_next_message s peer) of
        (r, counter) \<Rightarrow> (r, [], s\<lparr>ad_next_message := (ad_next_message s)(peer := counter)\<rparr>))"

section \<open>Queueing\<close>

text \<open>\<open>heapq.heappush\<close>, with the order of \<open>_Queued\<close>.\<close>

definition queued_before :: "queued \<Rightarrow> queued \<Rightarrow> bool" where
  "queued_before a b \<longleftrightarrow> qd_priority a < qd_priority b \<or> qd_priority a = qd_priority b \<and> qd_order a < qd_order b"

fun heappush :: "queued list \<Rightarrow> queued \<Rightarrow> queued list" where
  "heappush [] item = [item]"
| "heappush (q # queue) item = (if queued_before item q then item # q # queue else q # heappush queue item)"

definition queue_fragment ::
  "pystr \<Rightarrow> bool \<Rightarrow> delivery option \<Rightarrow> key option \<Rightarrow> bool \<Rightarrow> aprs_fragment \<Rightarrow> ('z adapter_scheme, unit) act" where
  "queue_fragment peer proactive dl batch supersedable fragment =
     bindA (allocate_message peer) (\<lambda>message_id.
     updateA (\<lambda>s. s\<lparr>ad_queue := heappush (ad_queue s)
         \<lparr>qd_priority = (if proactive then 1 else 0), qd_order = ad_order s, qd_peer = peer,
          qd_fragment = \<lparr>af_transaction_id = af_transaction_id fragment, af_index = af_index fragment,
            af_total = af_total fragment, af_data = af_data fragment, af_message_id = Some message_id,
            af_version = 1, af_raw_data = None\<rparr>,
          qd_delivery = dl, qd_response_batch = batch, qd_response_supersedable = supersedable\<rparr>,
        ad_order := ad_order s + 1\<rparr>))"

definition queue_frame ::
  "pystr \<Rightarrow> bytes \<Rightarrow> bool \<Rightarrow> delivery option \<Rightarrow> key option \<Rightarrow> bool \<Rightarrow> ('z adapter_scheme, pystr) act" where
  "queue_frame peer frame proactive dl batch supersedable =
     bindA (resultA (validate_peer peer)) (\<lambda>_.
     bindA (allocate_transaction peer) (\<lambda>transaction_id.
     bindA (resultA (fragment_frame frame transaction_id)) (\<lambda>fragments.
     bindA (readA (\<lambda>s. int (length (ad_queue s) + length fragments) > cf_queue_capacity (ad_config s))) (\<lambda>is_full.
     if is_full then raiseA (OverflowError (lit ''bounded APRS outbound queue is full''))
     else seqA (forA fragments (queue_fragment peer proactive dl batch supersedable))
            (returnA transaction_id)))))"

text \<open>Replaceable responses of older batches of a peer.\<close>

definition supersede_stale_response_batches :: "pystr \<Rightarrow> key \<Rightarrow> 'z adapter_scheme \<Rightarrow> 'z adapter_scheme" where
  "supersede_stale_response_batches peer current s =
     (let stale =
        concat (map (\<lambda>item. if qd_peer item = peer \<and> qd_response_batch item \<noteq> None
            \<and> qd_response_batch item \<noteq> Some current \<and> qd_response_supersedable item
          then [qd_response_batch item] else []) (ad_queue s))
        @ concat (map (\<lambda>((pending_peer, _), p). if pending_peer = peer \<and> pd_response_batch p \<noteq> None
            \<and> pd_response_batch p \<noteq> Some current \<and> pd_response_supersedable p
          then [pd_response_batch p] else []) (ad_pending s))
      in if stale = [] then s
         else s\<lparr>ad_queue := filter (\<lambda>item. qd_response_batch item \<notin> set stale) (ad_queue s),
                ad_pending := filter (\<lambda>((pending_peer, _), p).
                  \<not> (pending_peer = peer \<and> pd_response_batch p \<in> set stale)) (ad_pending s)\<rparr>)"

definition confirm_inbound :: "pystr \<Rightarrow> pystr option \<Rightarrow> bool \<Rightarrow> 'z adapter_scheme \<Rightarrow> 'z adapter_scheme" where
  "confirm_inbound peer message_id accepted s =
     (case message_id of
        None \<Rightarrow> s
      | Some m \<Rightarrow> s\<lparr>ad_immediate := ad_immediate s @
          [\<lparr>op_source = ad_service_callsign s, op_destination = peer,
            op_body = (if accepted then lit ''ack'' else lit ''rej'') @ m, op_is_ack = accepted\<rparr>]\<rparr>)"

section \<open>Core and router\<close>

definition coreA :: "(server \<Rightarrow> 'a outcome) \<Rightarrow> ('z adapter_scheme, 'a) act" where
  "coreA f s = (case f (ad_core s) of (r, events, sv) \<Rightarrow> (r, events, s\<lparr>ad_core := sv\<rparr>))"

abbreviation markA_pending :: "delivery \<Rightarrow> ('z adapter_scheme, unit) act" where
  "markA_pending d \<equiv> coreA (mark_aprs_pending (fst d) (snd d))"

abbreviation markA_failed :: "delivery \<Rightarrow> ('z adapter_scheme, unit) act" where
  "markA_failed d \<equiv> coreA (mark_aprs_failed (fst d) (snd d))"

abbreviation markA_delivered :: "readings \<Rightarrow> delivery \<Rightarrow> ('z adapter_scheme, unit) act" where
  "markA_delivered rd d \<equiv> coreA (mark_aprs_delivered (rd_raising rd) (rd_delivered_at rd) (fst d) (snd d))"

definition is_error_frame :: "bytes \<Rightarrow> bool result" where
  "is_error_frame response =
     bindE (decode_frame (PBytes response)) (\<lambda>r. Inr (case r of Error _ _ _ \<Rightarrow> True | _ \<Rightarrow> False))"

text \<open>\<open>any(isinstance(decode_frame(response), Error) for response in responses)\<close>.\<close>

fun any_error :: "bytes list \<Rightarrow> bool result" where
  "any_error [] = Inr False"
| "any_error (r # rs) = bindE (is_error_frame r) (\<lambda>b. if b then Inr True else any_error rs)"

definition responses_accepted :: "bytes list \<Rightarrow> bool result" where
  "responses_accepted responses =
     (if responses = [] then Inr False else bindE (any_error responses) (\<lambda>b. Inr (\<not> b)))"

definition set_aprs_presence :: "readings \<Rightarrow> pystr \<Rightarrow> ('z adapter_scheme, unit) act" where
  "set_aprs_presence rd peer s =
     (case ad_router s of
        None \<Rightarrow> (Inr (), [], s)
      | Some rt \<Rightarrow>
          (case bindE (normalize_callsign (PStr peer) (lit ''APRS source'')) (\<lambda>callsign.
                  set_aprs callsign peer (rd_presence_now rd) (rt_presence rt)) of
             Inl e \<Rightarrow> (Inl e, [], s)
           | Inr (_, users) \<Rightarrow> (Inr (), [], s\<lparr>ad_router := Some (rt\<lparr>rt_presence := users\<rparr>)\<rparr>)))"

definition activate_aprs_if_accepted :: "readings \<Rightarrow> pystr \<Rightarrow> bytes list \<Rightarrow> ('z adapter_scheme, unit) act" where
  "activate_aprs_if_accepted rd peer responses =
     bindA (readA ad_router) (\<lambda>router.
     if router = None \<or> responses = [] then returnA ()
     else bindA (resultA (any_error responses)) (\<lambda>bad.
       if bad then returnA () else set_aprs_presence rd peer))"

section \<open>Failure, polling, activity\<close>

text \<open>\<open>del xs[:-n]\<close>: the last \<open>n\<close> entries.\<close>

definition keep_last :: "int \<Rightarrow> 'a list \<Rightarrow> 'a list" where
  "keep_last n xs = drop (length xs - nat n) xs"

definition belongs_to_failed_work :: "pystr \<Rightarrow> pystr \<Rightarrow> key option \<Rightarrow> queued \<Rightarrow> bool" where
  "belongs_to_failed_work peer transaction_id batch item \<longleftrightarrow>
     qd_peer item = peer \<and> (af_transaction_id (qd_fragment item) = transaction_id
       \<or> batch \<noteq> None \<and> qd_response_batch item = batch)"

definition somes :: "'a option list \<Rightarrow> 'a list" where
  "somes xs = concat (map (\<lambda>x. case x of None \<Rightarrow> [] | Some y \<Rightarrow> [y]) xs)"

definition fail_transaction :: "pystr \<Rightarrow> pending \<Rightarrow> ('z adapter_scheme, unit) act" where
  "fail_transaction peer p =
     bindA (readA (\<lambda>s.
       let failed_item = belongs_to_failed_work peer (pd_transaction_id p) (pd_response_batch p);
           failed_pending = (\<lambda>((pending_peer, _), other). pending_peer = peer
             \<and> (pd_transaction_id other = pd_transaction_id p
                \<or> pd_response_batch p \<noteq> None \<and> pd_response_batch other = pd_response_batch p))
       in (failed_item, failed_pending,
           remdups (somes (pd_delivery p # map qd_delivery (filter failed_item (ad_queue s))
             @ map (\<lambda>(_, other). pd_delivery other) (filter failed_pending (ad_pending s)))))))
       (\<lambda>(failed_item, failed_pending, abandoned).
     seqA (updateA (\<lambda>s. s\<lparr>ad_queue := filter (\<lambda>item. \<not> failed_item item) (ad_queue s),
              ad_pending := filter (\<lambda>entry. \<not> failed_pending entry) (ad_pending s)\<rparr>))
       (forA abandoned markA_failed))"

definition expire_activity :: "rat \<Rightarrow> rat \<Rightarrow> (pystr, pystr \<times> rat) odict \<Rightarrow> (pystr, pystr \<times> rat) odict" where
  "expire_activity timeout now d = filter (\<lambda>(peer, (_, active_at)). \<not> now - active_at \<ge> timeout) d"

text \<open>\<open>now - self._last_send[peer] >= min_interval\<close>.\<close>

definition may_send :: "pystr \<Rightarrow> rat \<Rightarrow> 'z adapter_scheme \<Rightarrow> bool" where
  "may_send peer now s =
     (case ad_last_send s peer of None \<Rightarrow> True | Some t \<Rightarrow> now - t \<ge> cf_min_interval (ad_config s))"

definition expire_all :: "rat \<Rightarrow> 'z adapter_scheme \<Rightarrow> 'z adapter_scheme" where
  "expire_all now s = s\<lparr>ad_reassembly := reassembler_expire now (ad_reassembly s),
     ad_replay := replay_expire now (ad_replay s),
     ad_activity := expire_activity (cf_activity_timeout (ad_config s)) now (ad_activity s)\<rparr>"

text \<open>The packet that the retry of one pending entry sends, if any.\<close>

definition retry_pending :: "rat \<Rightarrow> key \<Rightarrow> ('z adapter_scheme, outbound_packet list) act" where
  "retry_pending now k =
     bindA (readA (\<lambda>s. (map_of (ad_pending s) k, s))) (\<lambda>(p, s).
     case p of
       None \<Rightarrow> returnA []
     | Some p \<Rightarrow>
         if now < pd_deadline p then returnA []
         else if pd_attempts p \<ge> cf_max_attempts (ad_config s)
         then seqA (updateA (\<lambda>s. s\<lparr>ad_failed_packets := keep_last (cf_event_history_capacity (ad_config s))
                (ad_failed_packets s @ [pd_packet p])\<rparr>))
              (seqA (fail_transaction (fst k) p) (returnA []))
         else if may_send (op_destination (pd_packet p)) now s
         then seqA (updateA (\<lambda>s. s\<lparr>
                ad_pending := AList.update k (p\<lparr>pd_attempts := pd_attempts p + 1,
                  pd_deadline := now + cf_ack_timeout (ad_config s)\<rparr>) (ad_pending s),
                ad_last_send := (ad_last_send s)(op_destination (pd_packet p) := Some now)\<rparr>))
              (returnA [pd_packet p])
         else returnA [])"

fun retry_all :: "rat \<Rightarrow> key list \<Rightarrow> ('z adapter_scheme, outbound_packet list) act" where
  "retry_all now [] = returnA []"
| "retry_all now (k # ks) =
     bindA (retry_pending now k) (\<lambda>ps. bindA (retry_all now ks) (\<lambda>qs. returnA (ps @ qs)))"

text \<open>The first queued fragment, sent when its peer has nothing unacknowledged.\<close>

definition send_next :: "rat \<Rightarrow> ('z adapter_scheme, outbound_packet list) act" where
  "send_next now =
     bindA (readA (\<lambda>s. (ad_queue s, s))) (\<lambda>(queue, s).
     case queue of
       [] \<Rightarrow> returnA []
     | item # items \<Rightarrow>
         if (\<exists>((peer, _), _) \<in> set (ad_pending s). peer = qd_peer item) \<or> \<not> may_send (qd_peer item) now s
         then returnA []
         else seqA (updateA (\<lambda>s. s\<lparr>ad_queue := items\<rparr>))
           (bindA (resultA (fragment_body (qd_fragment item))) (\<lambda>body.
             let packet = \<lparr>op_source = ad_service_callsign s, op_destination = qd_peer item, op_body = body,
                   op_is_ack = False\<rparr> in
             seqA (updateA (\<lambda>s. s\<lparr>
               ad_pending := AList.update (qd_peer item, case af_message_id (qd_fragment item) of None \<Rightarrow> [] | Some m \<Rightarrow> m)
                 \<lparr>pd_packet = packet, pd_attempts = 1, pd_deadline = now + cf_ack_timeout (ad_config s),
                  pd_priority = qd_priority item, pd_transaction_id = af_transaction_id (qd_fragment item),
                  pd_delivery = qd_delivery item, pd_response_batch = qd_response_batch item,
                  pd_response_supersedable = qd_response_supersedable item\<rparr> (ad_pending s),
               ad_last_send := (ad_last_send s)(qd_peer item := Some now)\<rparr>))
             (returnA [packet]))))"

definition poll :: "rat \<Rightarrow> ('z adapter_scheme, outbound_packet list) act" where
  "poll now =
     bindA (readA (\<lambda>s. (ad_immediate s, map fst (ad_pending s)))) (\<lambda>(packets, ks).
     seqA (updateA (\<lambda>s. s\<lparr>ad_immediate := []\<rparr>))
     (bindA (retry_all now ks) (\<lambda>retries.
      bindA (send_next now) (\<lambda>sent.
      seqA (updateA (expire_all now)) (returnA (packets @ retries @ sent))))))"

definition is_active :: "pystr \<Rightarrow> rat \<Rightarrow> ('z adapter_scheme, bool) act" where
  "is_active peer now s =
     (case map_of (ad_activity s) peer of
        None \<Rightarrow> (Inr False, [], s)
      | Some (_, active_at) \<Rightarrow>
          if now - active_at \<ge> cf_activity_timeout (ad_config s)
          then (Inr False, [], s\<lparr>ad_activity := AList.delete peer (ad_activity s)\<rparr>)
          else (Inr True, [], s))"

section \<open>Lifecycle\<close>

text \<open>\<open>APRSAdapter(core, ...)\<close>; with a router, the adapter becomes its APRS delivery.\<close>

definition new_adapter ::
  "server \<Rightarrow> adapter_config \<Rightarrow> pystr \<Rightarrow> router option \<Rightarrow> nat \<Rightarrow> adapter result" where
  "new_adapter core config service_callsign rt listener =
     bindE (validate_peer (upper service_callsign)) (\<lambda>service.
     bindE (new_reassembler (cf_reassembly_ttl config) (cf_max_reassemblies config)) (\<lambda>reassembly.
     bindE (new_replay_cache (cf_replay_ttl config) (cf_max_replays config) (cf_max_replays_per_peer config)) (\<lambda>cache.
     Inr \<lparr>ad_core = core, ad_config = config, ad_service_callsign = service, ad_reassembly = reassembly,
          ad_replay = cache, ad_queue = [], ad_pending = [], ad_immediate = [], ad_next_transaction = (\<lambda>_. 0),
          ad_next_message = (\<lambda>_. 0), ad_activity = [], ad_last_send = (\<lambda>_. None), ad_order = 0,
          ad_completed_transactions = [], ad_failed_packets = [],
          ad_router = map_option (\<lambda>rt. rt\<lparr>rt_aprs_delivery := True\<rparr>) rt, ad_router_listener = listener\<rparr>)))"

definition close_adapter :: "'z adapter_scheme \<Rightarrow> 'z adapter_scheme" where
  "close_adapter s = s\<lparr>ad_router := map_option (\<lambda>rt. rt\<lparr>rt_aprs_delivery := False\<rparr>) (ad_router s)\<rparr>"

definition connection_lost :: "('z adapter_scheme, unit) act" where
  "connection_lost =
     bindA (readA (\<lambda>s. remdups (somes (map qd_delivery (ad_queue s)
       @ map (\<lambda>(_, p). pd_delivery p) (ad_pending s))))) (\<lambda>abandoned.
     seqA (updateA (\<lambda>s. s\<lparr>ad_queue := [], ad_pending := [], ad_immediate := []\<rparr>))
       (forA abandoned markA_failed))"

end
