(* ===== verification/Commit_Adapter.thy ===== *)
theory Commit_Adapter
  imports Adapter
begin

text \<open>
  The durable-ACK adapter (\<open>transport/aprs/commit_adapter.py\<close>, \<open>commit_ack.py\<close>): one APRS body
  in, a disposition out. A subclass overrides \<open>queue_frame\<close>, \<open>_confirm_inbound\<close> and
  \<open>_supersede_stale_response_batches\<close>; they are a record of methods here. While the core
  handles a frame, its message listener may hand a message back to the adapter
  (\<open>deliver_message\<close>): the listener is called after the message is stored and its exceptions
  are caught, so the call is made when the core returns.
\<close>

section \<open>Methods and delivery\<close>

record 's methods =
  mt_queue_frame :: "pystr \<Rightarrow> bytes \<Rightarrow> bool \<Rightarrow> delivery option \<Rightarrow> key option \<Rightarrow> bool \<Rightarrow> ('s, pystr) act"
  mt_confirm_inbound :: "pystr \<Rightarrow> pystr option \<Rightarrow> bool \<Rightarrow> 's \<Rightarrow> 's"
  mt_supersede :: "pystr \<Rightarrow> key \<Rightarrow> 's \<Rightarrow> 's"

definition base_methods :: "'z adapter_scheme methods" where
  "base_methods = \<lparr>mt_queue_frame = queue_frame, mt_confirm_inbound = confirm_inbound,
     mt_supersede = supersede_stale_response_batches\<rparr>"

definition aprs_deliver_message ::
  "'z adapter_scheme methods \<Rightarrow> protocol_object \<Rightarrow> pystr \<Rightarrow> ('z adapter_scheme, bool) act" where
  "aprs_deliver_message mt message endpoint =
     bindA (resultA (encode_frame message True)) (\<lambda>frame.
     bindA (mt_queue_frame mt endpoint frame True (Some (m_recipient message, m_sequence message)) None True) (\<lambda>_.
     seqA (markA_pending (m_recipient message, m_sequence message)) (returnA True)))"

text \<open>\<open>DeliveryRouter.listener\<close>, called by the core for an accepted message.\<close>

definition deliver_event :: "'z adapter_scheme methods \<Rightarrow> event \<Rightarrow> ('z adapter_scheme, unit) act" where
  "deliver_event mt event =
     bindA (readA (\<lambda>s. (ad_router s, ad_router_listener s))) (\<lambda>(router, listener).
     case (router, event) of
       (Some rt, MessageEvent l message) \<Rightarrow>
         if l \<noteq> listener then returnA ()
         else (case route message rt of
             Inl _ \<Rightarrow> returnA ()
           | Inr (_, pushes) \<Rightarrow> forA pushes (\<lambda>push. case push of
               WebsocketPush _ _ \<Rightarrow> returnA ()
             | AprsPush message endpoint \<Rightarrow> swallowA (aprs_deliver_message mt message endpoint)))
     | _ \<Rightarrow> returnA ())"

definition core_frame :: "'z adapter_scheme methods \<Rightarrow> readings \<Rightarrow> pystr \<Rightarrow> bytes \<Rightarrow> ('z adapter_scheme, bytes list) act" where
  "core_frame mt rd callsign frame s =
     (case handle_frame (PStr callsign) (PBytes frame) (rd_accepted_at rd) (ad_core s) of
        (r, events, sv) \<Rightarrow>
          (case forA events (deliver_event mt) (s\<lparr>ad_core := sv\<rparr>) of
             (_, events', s) \<Rightarrow> (r, events @ events', s)))"

section \<open>Bodies\<close>

datatype disposition = Ignored | Acknowledged | Conflict | Invalid | Fragment | Replayed | Completed
  | RepairRequested

text \<open>\<open>ack([0-9A-Z]{1,5})\<close>, and \<open>\{([0-9A-Z]{1,5})$\<close>, where \<open>$\<close> also matches before a final newline.\<close>

definition id_chars :: "pystr \<Rightarrow> bool" where
  "id_chars s \<longleftrightarrow> 1 \<le> length s \<and> length s \<le> 5 \<and> (\<forall>c \<in> set s. c \<in> set B36)"

definition match_ack :: "pystr \<Rightarrow> pystr option" where
  "match_ack body = (if take 3 body = lit ''ack'' \<and> id_chars (drop 3 body) then Some (drop 3 body) else None)"

definition search_message_id :: "pystr \<Rightarrow> pystr option" where
  "search_message_id body =
     (let body = (if body \<noteq> [] \<and> last body = 10 then butlast body else body);
          tail = rev (takeWhile (\<lambda>c. c \<noteq> 123) (rev body)) in
      if 123 \<in> set body \<and> id_chars tail then Some tail else None)"

text \<open>\<open>commit_ack.requested\<close>.\<close>

definition COMMIT_ACK_PREFIX :: pystr where "COMMIT_ACK_PREFIX = lit ''C''"

definition commit_ack_requested :: "pystr option \<Rightarrow> bool" where
  "commit_ack_requested message_id =
     (case message_id of None \<Rightarrow> False | Some m \<Rightarrow> take 1 m = COMMIT_ACK_PREFIX)"

definition send_was_stored :: "bytes list \<Rightarrow> bool result" where
  "send_was_stored responses =
     (case responses of
        [response] \<Rightarrow> bindE (decode_frame (PBytes response)) (\<lambda>r. Inr (r = Stored))
      | _ \<Rightarrow> Inr False)"

section \<open>The client's cursor\<close>

definition confirmed_by :: "pystr \<Rightarrow> int \<Rightarrow> delivery option \<Rightarrow> bool" where
  "confirmed_by callsign since d \<longleftrightarrow> (case d of None \<Rightarrow> False | Some (recipient, n) \<Rightarrow> recipient = callsign \<and> n \<le> since)"

definition reconcile_message_cursor ::
  "readings \<Rightarrow> pystr \<Rightarrow> pystr \<Rightarrow> int \<Rightarrow> ('z adapter_scheme, unit) act" where
  "reconcile_message_cursor rd peer callsign since =
     bindA (readA (\<lambda>s. remdups (somes (
       map qd_delivery (filter (\<lambda>item. qd_peer item = peer \<and> confirmed_by callsign since (qd_delivery item)) (ad_queue s))
       @ map (\<lambda>(_, p). pd_delivery p) (filter (\<lambda>((pending_peer, _), p). pending_peer = peer
           \<and> confirmed_by callsign since (pd_delivery p)) (ad_pending s)))))) (\<lambda>confirmed.
     seqA (updateA (\<lambda>s. s\<lparr>
         ad_queue := filter (\<lambda>item. \<not> (qd_peer item = peer \<and> confirmed_by callsign since (qd_delivery item))) (ad_queue s),
         ad_pending := filter (\<lambda>((pending_peer, _), p). \<not> (pending_peer = peer
           \<and> confirmed_by callsign since (pd_delivery p))) (ad_pending s)\<rparr>))
       (forA confirmed (markA_delivered rd)))"

section \<open>Receiving\<close>

definition transaction_outstanding :: "pystr \<Rightarrow> pystr \<Rightarrow> 'z adapter_scheme \<Rightarrow> bool" where
  "transaction_outstanding peer transaction_id s \<longleftrightarrow>
     (\<exists>item \<in> set (ad_queue s). qd_peer item = peer \<and> af_transaction_id (qd_fragment item) = transaction_id)
     \<or> (\<exists>((other_peer, _), other) \<in> set (ad_pending s). other_peer = peer \<and> pd_transaction_id other = transaction_id)"

definition receive_ack :: "readings \<Rightarrow> pystr \<Rightarrow> pystr \<Rightarrow> ('z adapter_scheme, disposition) act" where
  "receive_ack rd peer message_id =
     bindA (readA (\<lambda>s. map_of (ad_pending s) (peer, message_id))) (\<lambda>found.
     case found of
       None \<Rightarrow> returnA Ignored
     | Some p \<Rightarrow>
         seqA (updateA (\<lambda>s. s\<lparr>ad_pending := AList.delete (peer, message_id) (ad_pending s)\<rparr>))
         (bindA (readA (transaction_outstanding peer (pd_transaction_id p))) (\<lambda>outstanding.
          seqA (case pd_delivery p of
                  None \<Rightarrow> returnA ()
                | Some d \<Rightarrow> whenA (\<not> outstanding) (markA_delivered rd d))
               (returnA Acknowledged))))"

definition confirmA :: "'z adapter_scheme methods \<Rightarrow> pystr \<Rightarrow> pystr option \<Rightarrow> bool \<Rightarrow> ('z adapter_scheme, unit) act" where
  "confirmA mt peer message_id accepted = updateA (mt_confirm_inbound mt peer message_id accepted)"

text \<open>The reassembler's exceptions are caught by the caller, so they are values here.\<close>

definition reassembleA :: "pystr \<Rightarrow> aprs_fragment \<Rightarrow> rat \<Rightarrow> ('z adapter_scheme, bytes option result) act" where
  "reassembleA peer f now s =
     (case reassembler_add peer f now (ad_reassembly s) of (r, ra) \<Rightarrow> (Inr r, [], s\<lparr>ad_reassembly := ra\<rparr>))"

definition replay_getA :: "pystr \<Rightarrow> pystr \<Rightarrow> rat \<Rightarrow> ('z adapter_scheme, replay option) act" where
  "replay_getA peer transaction_id now s =
     (case replay_get peer transaction_id now (ad_replay s) of (v, rc) \<Rightarrow> (Inr v, [], s\<lparr>ad_replay := rc\<rparr>))"

fun is_send :: "protocol_object \<Rightarrow> bool" where
  "is_send (SendMessage _ _ _) = True"
| "is_send _ = False"

fun is_supported :: "protocol_object \<Rightarrow> bool" where
  "is_supported (SendMessage _ _ _) = True"
| "is_supported (GetNewMessages _ _) = True"
| "is_supported (GetNewBulletins _ _) = True"
| "is_supported (GetBulletin _) = True"
| "is_supported GetCapabilities = True"
| "is_supported (GetMessage _ _) = True"
| "is_supported _ = False"

definition answer_replay ::
  "'z adapter_scheme methods \<Rightarrow> readings \<Rightarrow> pystr \<Rightarrow> pystr \<Rightarrow> pystr option \<Rightarrow> replay
    \<Rightarrow> ('z adapter_scheme, disposition) act" where
  "answer_replay mt rd peer transaction_id message_id cached =
     (let batch = (peer, transaction_id); commit_ack = commit_ack_requested message_id in
      bindA (resultA (decode_frame (PBytes (rp_request cached)))) (\<lambda>request.
      seqA (activate_aprs_if_accepted rd peer (rp_responses cached))
      (seqA (updateA (mt_supersede mt peer batch))
      (if is_send request \<and> commit_ack
       then bindA (resultA (send_was_stored (rp_responses cached))) (\<lambda>stored.
            seqA (confirmA mt peer message_id stored) (returnA Replayed))
       else seqA (whenA commit_ack (confirmA mt peer message_id True))
           (seqA (forA (rp_responses cached) (\<lambda>response.
              bindA (mt_queue_frame mt peer response False None (Some batch) (\<not> is_send request)) (\<lambda>_. returnA ())))
            (returnA Replayed))))))"

definition note_activity :: "rat \<Rightarrow> pystr \<Rightarrow> pystr \<Rightarrow> pystr \<Rightarrow> 'z adapter_scheme \<Rightarrow> 'z adapter_scheme" where
  "note_activity now peer callsign transaction_id s =
     (let activity = expire_activity (cf_activity_timeout (ad_config s)) now (ad_activity s);
          activity = (if map_of activity peer = None \<and> int (length activity) \<ge> cf_max_activity_peers (ad_config s)
                      then AList.delete (fst (arg_min_list (\<lambda>(_, _, t). t) activity)) activity else activity)
      in s\<lparr>ad_activity := AList.update peer (callsign, now) activity,
           ad_completed_transactions := keep_last (cf_event_history_capacity (ad_config s))
             (ad_completed_transactions s @ [(peer, transaction_id)])\<rparr>)"

text \<open>The mailbox position of a response that carries a message.\<close>

fun response_delivery :: "protocol_object \<Rightarrow> delivery option" where
  "response_delivery (Message n _ _ _ recipient _) = Some (recipient, n)"
| "response_delivery _ = None"

definition queue_response ::
  "'z adapter_scheme methods \<Rightarrow> pystr \<Rightarrow> key \<Rightarrow> bool \<Rightarrow> bytes \<Rightarrow> ('z adapter_scheme, unit) act" where
  "queue_response mt peer batch supersedable response =
     bindA (resultA (decode_frame (PBytes response))) (\<lambda>decoded.
     let d = response_delivery decoded in
     bindA (mt_queue_frame mt peer response False d (Some batch) supersedable) (\<lambda>_.
     case d of None \<Rightarrow> returnA () | Some d \<Rightarrow> markA_pending d))"

text \<open>\<open>receive\<close> after the core has answered: first from the replay entry on, then before it.\<close>

definition answer_request ::
  "'z adapter_scheme methods \<Rightarrow> rat \<Rightarrow> pystr \<Rightarrow> pystr \<Rightarrow> pystr \<Rightarrow> pystr option \<Rightarrow> bool \<Rightarrow> bytes list
    \<Rightarrow> ('z adapter_scheme, disposition) act" where
  "answer_request mt now peer callsign transaction_id message_id send responses =
     seqA (updateA (note_activity now peer callsign transaction_id))
     (if send \<and> commit_ack_requested message_id
      then bindA (resultA (send_was_stored responses)) (\<lambda>stored.
           seqA (confirmA mt peer message_id stored) (returnA Completed))
      else seqA (forA responses (queue_response mt peer (peer, transaction_id) (\<not> send))) (returnA Completed))"

definition finish_request ::
  "'z adapter_scheme methods \<Rightarrow> rat \<Rightarrow> pystr \<Rightarrow> pystr \<Rightarrow> pystr \<Rightarrow> pystr option \<Rightarrow> bytes \<Rightarrow> bool \<Rightarrow> bytes list
    \<Rightarrow> ('z adapter_scheme, disposition) act" where
  "finish_request mt now peer callsign transaction_id message_id frame send responses =
     seqA (updateA (mt_supersede mt peer (peer, transaction_id)))
     (seqA (updateA (\<lambda>s. s\<lparr>ad_replay := replay_put peer transaction_id frame responses now (ad_replay s)\<rparr>))
     (answer_request mt now peer callsign transaction_id message_id send responses))"

definition execute_request ::
  "'z adapter_scheme methods \<Rightarrow> readings \<Rightarrow> pystr \<Rightarrow> pystr \<Rightarrow> pystr option \<Rightarrow> bytes
    \<Rightarrow> ('z adapter_scheme, disposition) act" where
  "execute_request mt rd peer transaction_id message_id frame =
     (let commit_ack = commit_ack_requested message_id in
      bindA (resultA (decode_frame (PBytes frame))) (\<lambda>request.
      if \<not> is_supported request
      then seqA (whenA commit_ack (confirmA mt peer message_id False)) (returnA Invalid)
      else seqA (whenA (commit_ack \<and> \<not> is_send request) (confirmA mt peer message_id True))
     (bindA (resultA (normalize_callsign (PStr peer) (lit ''APRS source''))) (\<lambda>callsign.
      seqA (case request of GetNewMessages since _ \<Rightarrow> reconcile_message_cursor rd peer callsign since | _ \<Rightarrow> returnA ())
     (bindA (core_frame mt rd callsign frame) (\<lambda>responses.
      seqA (activate_aprs_if_accepted rd peer responses)
        (finish_request mt (rd_now rd) peer callsign transaction_id message_id frame (is_send request) responses)))))))"

definition receive_fragment ::
  "'z adapter_scheme methods \<Rightarrow> readings \<Rightarrow> pystr \<Rightarrow> pystr option \<Rightarrow> aprs_fragment
    \<Rightarrow> ('z adapter_scheme, disposition) act" where
  "receive_fragment mt rd peer message_id f =
     (let commit_ack = commit_ack_requested message_id; transaction_id = af_transaction_id f; now = rd_now rd in
      bindA (reassembleA peer f now) (\<lambda>r.
      case r of
        Inl (TransactionConflict _) \<Rightarrow> seqA (whenA commit_ack (confirmA mt peer message_id False)) (returnA Conflict)
      | Inl (CarriageError _) \<Rightarrow> seqA (whenA commit_ack (confirmA mt peer message_id False)) (returnA Invalid)
      | Inl e \<Rightarrow> raiseA e
      | Inr None \<Rightarrow> seqA (whenA commit_ack (confirmA mt peer message_id True)) (returnA Fragment)
      | Inr (Some frame) \<Rightarrow>
          bindA (replay_getA peer transaction_id now) (\<lambda>cached.
          case cached of
            Some cached \<Rightarrow>
              if rp_request cached \<noteq> frame
              then seqA (whenA commit_ack (confirmA mt peer message_id False)) (returnA Conflict)
              else answer_replay mt rd peer transaction_id message_id cached
          | None \<Rightarrow> execute_request mt rd peer transaction_id message_id frame)))"

definition commit_receive ::
  "'z adapter_scheme methods \<Rightarrow> readings \<Rightarrow> pystr \<Rightarrow> pystr \<Rightarrow> ('z adapter_scheme, disposition) act" where
  "commit_receive mt rd peer body =
     (case validate_peer peer of
        Inl _ \<Rightarrow> returnA Ignored
      | Inr peer \<Rightarrow>
          (case match_ack body of
             Some message_id \<Rightarrow> receive_ack rd peer message_id
           | None \<Rightarrow>
               (let message_id = search_message_id body; commit_ack = commit_ack_requested message_id in
                seqA (whenA (message_id \<noteq> None \<and> \<not> commit_ack) (confirmA mt peer message_id True))
                (case parse_fragment body of
                   Inl _ \<Rightarrow> seqA (whenA commit_ack (confirmA mt peer message_id False)) (returnA Ignored)
                 | Inr f \<Rightarrow> receive_fragment mt rd peer message_id f))))"

end
