(* ===== verification/Base_Receive.thy ===== *)
theory Base_Receive
  imports Commit_Adapter
begin

text \<open>
  \<open>APRSAdapter.receive\<close> of the base class (\<open>transport/aprs/adapter.py\<close>), which both exported
  adapters override: every fragment with an APRS message ID is confirmed or rejected, and the one
  that completes SEND_MESSAGE is confirmed by the core's answer alone.
\<close>

definition confirm_accepted :: "pystr \<Rightarrow> pystr option \<Rightarrow> bytes list \<Rightarrow> disposition \<Rightarrow> ('z adapter_scheme, disposition) act" where
  "confirm_accepted peer message_id responses result =
     bindA (resultA (responses_accepted responses)) (\<lambda>accepted.
     seqA (updateA (confirm_inbound peer message_id accepted)) (returnA result))"

definition base_replay ::
  "readings \<Rightarrow> pystr \<Rightarrow> pystr \<Rightarrow> pystr option \<Rightarrow> replay \<Rightarrow> ('z adapter_scheme, disposition) act" where
  "base_replay rd peer transaction_id message_id cached =
     (let batch = (peer, transaction_id) in
      bindA (resultA (decode_frame (PBytes (rp_request cached)))) (\<lambda>request.
      seqA (activate_aprs_if_accepted rd peer (rp_responses cached))
      (seqA (updateA (supersede_stale_response_batches peer batch))
      (if is_send request \<and> message_id \<noteq> None
       then confirm_accepted peer message_id (rp_responses cached) Replayed
       else seqA (updateA (confirm_inbound peer message_id True))
           (seqA (forA (rp_responses cached) (\<lambda>response.
              bindA (queue_frame peer response False None (Some batch) (\<not> is_send request)) (\<lambda>_. returnA ())))
            (returnA Replayed))))))"

fun is_base_supported :: "protocol_object \<Rightarrow> bool" where
  "is_base_supported (GetMessage _ _) = False"
| "is_base_supported request = is_supported request"

definition base_execute ::
  "readings \<Rightarrow> pystr \<Rightarrow> pystr \<Rightarrow> pystr option \<Rightarrow> bytes \<Rightarrow> ('z adapter_scheme, disposition) act" where
  "base_execute rd peer transaction_id message_id frame =
     (let batch = (peer, transaction_id); now = rd_now rd in
      bindA (resultA (decode_frame (PBytes frame))) (\<lambda>request.
      if \<not> is_base_supported request
      then seqA (updateA (confirm_inbound peer message_id False)) (returnA Invalid)
      else seqA (whenA (\<not> is_send request) (updateA (confirm_inbound peer message_id True)))
     (bindA (resultA (normalize_callsign (PStr peer) (lit ''APRS source''))) (\<lambda>callsign.
      bindA (core_frame base_methods rd callsign frame) (\<lambda>responses.
      seqA (activate_aprs_if_accepted rd peer responses)
     (seqA (updateA (supersede_stale_response_batches peer batch))
     (seqA (updateA (\<lambda>s. s\<lparr>ad_replay := replay_put peer transaction_id frame responses now (ad_replay s)\<rparr>))
     (seqA (updateA (note_activity now peer callsign transaction_id))
     (if is_send request \<and> message_id \<noteq> None
      then confirm_accepted peer message_id responses Completed
      else seqA (forA responses (queue_response base_methods peer batch (\<not> is_send request))) (returnA Completed))))))))))"

definition base_receive_fragment ::
  "readings \<Rightarrow> pystr \<Rightarrow> pystr option \<Rightarrow> aprs_fragment \<Rightarrow> ('z adapter_scheme, disposition) act" where
  "base_receive_fragment rd peer message_id f =
     (let transaction_id = af_transaction_id f; now = rd_now rd;
          reject = (\<lambda>d. seqA (updateA (confirm_inbound peer message_id False)) (returnA d)) in
      bindA (reassembleA peer f now) (\<lambda>r.
      case r of
        Inl (TransactionConflict _) \<Rightarrow> reject Conflict
      | Inl (CarriageError _) \<Rightarrow> reject Invalid
      | Inl e \<Rightarrow> raiseA e
      | Inr None \<Rightarrow> seqA (updateA (confirm_inbound peer message_id True)) (returnA Fragment)
      | Inr (Some frame) \<Rightarrow>
          bindA (replay_getA peer transaction_id now) (\<lambda>cached.
          case cached of
            Some cached \<Rightarrow>
              if rp_request cached \<noteq> frame then reject Conflict
              else base_replay rd peer transaction_id message_id cached
          | None \<Rightarrow> base_execute rd peer transaction_id message_id frame)))"

definition base_receive :: "readings \<Rightarrow> pystr \<Rightarrow> pystr \<Rightarrow> ('z adapter_scheme, disposition) act" where
  "base_receive rd peer body =
     (case validate_peer peer of
        Inl _ \<Rightarrow> returnA Ignored
      | Inr peer \<Rightarrow>
          (case match_ack body of
             Some message_id \<Rightarrow> receive_ack rd peer message_id
           | None \<Rightarrow>
               (case parse_fragment body of
                  Inl _ \<Rightarrow> returnA Ignored
                | Inr f \<Rightarrow> base_receive_fragment rd peer (search_message_id body) f)))"

end
