(* ===== verification/Burst_Control.thy ===== *)
theory Burst_Control
  imports Carriage_Facts
begin

text \<open>
  The transaction-level controls of \<open>transport/aprs/selective_burst.py\<close>: positive receipt
  (\<open>A2\<close>), missing fragments (\<open>N2\<close>, a 16-bit mask), durable completion (\<open>S2\<close>) and the legacy
  forms \<open>Q1A\<close> and \<open>Q1N\<close>. Sets of fragment indices are lists.
\<close>

section \<open>Definitions\<close>

definition transaction_code :: "pystr \<Rightarrow> int result" where
  "transaction_code transaction_id =
     bindE (parse_base36 transaction_id 3) (\<lambda>v.
     if v > 0xFF then Inl (CarriageError (lit ''Q2 transaction ID must fit in one byte'')) else Inr v)"

definition encode_burst_ack :: "pystr \<Rightarrow> pystr result" where
  "encode_burst_ack transaction_id =
     bindE (transaction_code transaction_id) (\<lambda>t. Inr (lit ''A2'' @ base91_encode [word_of_int t]))"

definition encode_stored :: "pystr \<Rightarrow> pystr result" where
  "encode_stored transaction_id =
     bindE (transaction_code transaction_id) (\<lambda>t. Inr (lit ''S2'' @ base91_encode [word_of_int t]))"

definition parse_stored :: "pystr \<Rightarrow> pystr option result" where
  "parse_stored body =
     (if take 2 body \<noteq> lit ''S2'' then Inr None
      else (case base91_decode (drop 2 body) of
          Inl _ \<Rightarrow> Inr None
        | Inr payload \<Rightarrow>
            if length payload \<noteq> 1 then Inr None
            else bindE (base36 (uint (payload ! 0)) 3) (\<lambda>t. Inr (Some t))))"

fun missing_mask :: "int list \<Rightarrow> int \<Rightarrow> int result" where
  "missing_mask [] bitmap = Inr bitmap"
| "missing_mask (i # missing) bitmap =
     (if \<not> (0 \<le> i \<and> i < 16)
      then Inl (CarriageError (lit ''missing fragment index is outside profile bounds''))
      else missing_mask missing (bitmap OR push_bit (nat i) 1))"

definition encode_missing :: "pystr \<Rightarrow> int list \<Rightarrow> pystr result" where
  "encode_missing transaction_id missing =
     bindE (missing_mask missing 0) (\<lambda>bitmap.
     if bitmap = 0 then Inl (CarriageError (lit ''missing-fragment mask must not be empty''))
     else bindE (transaction_code transaction_id) (\<lambda>t.
       Inr (lit ''N2'' @ base91_encode ([word_of_int t] @ to_bytes 2 bitmap))))"

datatype control = AckControl pystr | MissingControl pystr "int list"

definition mask_indices :: "int \<Rightarrow> int list" where
  "mask_indices bitmap = filter (\<lambda>i. bitmap AND push_bit (nat i) 1 \<noteq> 0) (map int [0..<16])"

text \<open>\<open>Q1A:([0-9A-Z]{3})\<close> and \<open>Q1N:([0-9A-Z]{3}):([0-9A-F]{4})\<close>.\<close>

definition is_hex :: "nat \<Rightarrow> bool" where
  "is_hex c \<longleftrightarrow> 48 \<le> c \<and> c < 58 \<or> 65 \<le> c \<and> c < 71"

definition int16 :: "pystr \<Rightarrow> int" where
  "int16 s = foldl (\<lambda>a c. a * 16 + digit36 c) 0 s"

definition match_legacy_ack :: "pystr \<Rightarrow> pystr option" where
  "match_legacy_ack s =
     (if length s = 7 \<and> take 4 s = lit ''Q1A:'' \<and> (\<forall>c \<in> set (drop 4 s). c \<in> set B36)
      then Some (drop 4 s) else None)"

definition match_legacy_missing :: "pystr \<Rightarrow> (pystr \<times> pystr) option" where
  "match_legacy_missing s =
     (if length s = 12 \<and> take 4 s = lit ''Q1N:'' \<and> s ! 7 = 58 \<and> (\<forall>c \<in> set (take 3 (drop 4 s)). c \<in> set B36)
         \<and> (\<forall>c \<in> set (drop 8 s). is_hex c)
      then Some (take 3 (drop 4 s), drop 8 s) else None)"

definition parse_burst_control :: "pystr \<Rightarrow> control option result" where
  "parse_burst_control body =
     (if take 2 body = lit ''A2''
      then (case base91_decode (drop 2 body) of
          Inl _ \<Rightarrow> Inr None
        | Inr payload \<Rightarrow>
            if length payload \<noteq> 1 then Inr None
            else bindE (base36 (uint (payload ! 0)) 3) (\<lambda>t. Inr (Some (AckControl t))))
      else if take 2 body = lit ''N2''
      then (case base91_decode (drop 2 body) of
          Inl _ \<Rightarrow> Inr None
        | Inr payload \<Rightarrow>
            if length payload \<noteq> 3 then Inr None
            else (let bitmap = from_bytes (drop 1 payload) in
              if bitmap = 0 then Inr None
              else bindE (base36 (uint (payload ! 0)) 3) (\<lambda>t. Inr (Some (MissingControl t (mask_indices bitmap))))))
      else (case match_legacy_ack body of
          Some t \<Rightarrow> Inr (Some (AckControl t))
        | None \<Rightarrow>
            (case match_legacy_missing body of
               None \<Rightarrow> Inr None
             | Some (t, bitmap) \<Rightarrow>
                 if int16 bitmap = 0 then Inr None
                 else Inr (Some (MissingControl t (mask_indices (int16 bitmap)))))))"

section \<open>Controls round-trip\<close>

lemma transaction_code_iff: "transaction_code tid = Inr t \<longleftrightarrow> parse_base36 tid 3 = Inr t \<and> t \<le> 255"
  by (auto simp: transaction_code_def bindE_eq_Inr)

lemma transaction_code_byte:
  assumes "transaction_code tid = Inr t"
  shows "uint (word_of_int t :: byte) = t" "base36 (uint (word_of_int t :: byte)) 3 = Inr tid"
proof -
  have t: "parse_base36 tid 3 = Inr t" "t \<le> 255" using assms by (simp_all add: transaction_code_iff)
  then have "0 \<le> t" using int36_bounds [of tid] by (auto simp: parse_base36_Inr)
  then show "uint (word_of_int t :: byte) = t" using t(2) by (simp add: uint_word_of_int mod_pos_pos_trivial)
  then show "base36 (uint (word_of_int t :: byte)) 3 = Inr tid" using base36_parse [OF t(1)] by simp
qed

lemma tagged:
  assumes "data \<noteq> []" "length tag = 2"
  shows "take 2 (tag @ base91_encode data) = tag" "base91_decode (drop 2 (tag @ base91_encode data)) = Inr data"
  using b91.decode_tagged [OF assms(1), of tag] assms(2) by simp_all

lemma tag_length [simp]: "length (lit ''A2'') = 2" "length (lit ''S2'') = 2" "length (lit ''N2'') = 2"
  by (simp_all add: lit_def)

lemma tags_differ [simp]: "lit ''N2'' \<noteq> lit ''A2''"
  by (simp add: lit_def)

lemma transaction_code_text: "transaction_code tid = Inr t \<Longrightarrow> base36 t 3 = Inr tid"
  by (simp add: transaction_code_iff base36_parse)

lemma burst_ack_roundtrip: "encode_burst_ack tid = Inr b \<Longrightarrow> parse_burst_control b = Inr (Some (AckControl tid))"
  by (auto simp: encode_burst_ack_def bindE_eq_Inr parse_burst_control_def base91_roundtrip transaction_code_byte transaction_code_text
      tags_differ [symmetric])

lemma stored_roundtrip: "encode_stored tid = Inr b \<Longrightarrow> parse_stored b = Inr (Some tid)"
  by (auto simp: encode_stored_def bindE_eq_Inr parse_stored_def base91_roundtrip transaction_code_byte transaction_code_text
      tags_differ [symmetric])

text \<open>The mask of a list of indices, bit by bit.\<close>

lemma missing_mask_run:
  "missing_mask missing bitmap = Inr m \<Longrightarrow> 0 \<le> bitmap \<Longrightarrow> bitmap < 2 ^ 16 \<Longrightarrow>
    (\<forall>i \<in> set missing. 0 \<le> i \<and> i < 16) \<and> 0 \<le> m \<and> m < 2 ^ 16
    \<and> (\<forall>n. bit m n \<longleftrightarrow> bit bitmap n \<or> int n \<in> set missing)"
proof (induction missing bitmap rule: missing_mask.induct)
  case (2 i missing bitmap)
  let ?m = "bitmap OR push_bit (nat i) (1 :: int)"
  have i: "0 \<le> i" "i < 16" "missing_mask missing ?m = Inr m" using "2.prems"(1) by (auto split: if_splits)
  have "take_bit 16 bitmap = bitmap" "take_bit 16 (push_bit (nat i) (1 :: int)) = push_bit (nat i) 1"
    using "2.prems"(2,3) i(1,2)
    by (simp_all add: take_bit_int_eq_self push_bit_eq_mult power_strict_increasing nat_less_iff)
  then have "take_bit 16 ?m = ?m" by (simp add: take_bit_or)
  then have m: "0 \<le> ?m" "?m < 2 ^ 16" by (metis take_bit_int_less_exp take_bit_nonnegative)+
  have "bit ?m n \<longleftrightarrow> bit bitmap n \<or> int n = i" for n
    using i(1) by (auto simp: bit_or_iff bit_exp_iff)
  then show ?case using "2.IH" [OF _ i(3) m] i by auto
qed auto

lemma mask_indices_set: "0 \<le> m \<Longrightarrow> set (mask_indices m) = {i. 0 \<le> i \<and> i < 16 \<and> bit m (nat i)}"
proof -
  have "m AND push_bit n 1 \<noteq> 0 \<longleftrightarrow> bit m n" for n
    by (simp add: and_exp_eq_0_iff_not_bit push_bit_eq_mult)
  then show ?thesis by (auto simp: mask_indices_def intro!: image_eqI [of _ int "nat _"])
qed

lemma missing_roundtrip:
  assumes "encode_missing tid missing = Inr b"
  shows "\<exists>got. parse_burst_control b = Inr (Some (MissingControl tid got)) \<and> set got = set missing"
proof -
  obtain bitmap t where m: "missing_mask missing 0 = Inr bitmap" "bitmap \<noteq> 0" and t: "transaction_code tid = Inr t"
    and b: "b = lit ''N2'' @ base91_encode ([word_of_int t] @ to_bytes 2 bitmap)"
    using assms by (auto simp: encode_missing_def bindE_eq_Inr)
  have run: "\<forall>i \<in> set missing. 0 \<le> i \<and> i < 16" "0 \<le> bitmap" "bitmap < 2 ^ 16" "\<forall>n. bit bitmap n \<longleftrightarrow> int n \<in> set missing"
    using missing_mask_run [OF m(1)] by auto
  have "from_bytes (to_bytes 2 bitmap) = bitmap" using run(2,3) by (intro from_to_bytes) simp_all
  moreover have "length ([word_of_int t :: byte] @ to_bytes 2 bitmap) = 3" by simp
  ultimately have "parse_burst_control b = Inr (Some (MissingControl tid (mask_indices bitmap)))"
    using m(2) transaction_code_byte [OF t] unfolding b
    by (simp add: parse_burst_control_def tagged [of "[word_of_int t] @ to_bytes 2 bitmap" "lit ''N2''", simplified])
  moreover have "set (mask_indices bitmap) = set missing"
    using run by (auto simp: mask_indices_set)
  ultimately show ?thesis by blast
qed

end
