(* ===== verification/Burst_Adapter.thy ===== *)
theory Burst_Adapter
  imports Commit_Adapter Burst_Control
begin

text \<open>
  The production APRS adapter: whole transactions as bursts of Q2 fragments with selective
  repair (\<open>transport/aprs/selective_burst.py\<close>) and the guard against late duplicates
  (\<open>selective_burst_guarded.py\<close>). The state extends the base adapter's; its \<open>order\<close> numbers the
  transactions, which stands for the identity of a \<open>_BurstTx\<close> object. Sets of indices are lists.
\<close>

section \<open>State\<close>

record burst_tx =
  bt_peer :: pystr
  bt_transaction_id :: pystr
  bt_fragments :: "aprs_fragment list"
  bt_packets :: "outbound_packet list"
  bt_priority :: int
  bt_order :: int
  bt_delivery :: "delivery option"
  bt_response_batch :: "key option"
  bt_response_supersedable :: bool
  bt_attempts :: int
  bt_deadline :: rat
  bt_requested :: "int list option"
  bt_repair_active :: bool
  bt_repair_indices :: "int list option"

record rx_progress =
  rx_total :: int
  rx_received :: "int list"
  rx_deadline :: rat
  rx_saw_final :: bool

definition rx_missing :: "rx_progress \<Rightarrow> int list" where
  "rx_missing p = filter (\<lambda>i. i \<notin> set (rx_received p)) (map int [0..<nat (rx_total p)])"

record burst_adapter = adapter +
  ba_repair_grace :: rat
  ba_final_fragment_grace :: rat
  ba_queue :: "burst_tx list"
  ba_active :: "(pystr, burst_tx) odict"
  ba_rx_progress :: "(key, rx_progress) odict"
  ba_order :: int

type_synonym 'a burst = "(burst_adapter, 'a) act"

definition new_burst_adapter ::
  "rat \<Rightarrow> rat \<Rightarrow> server \<Rightarrow> adapter_config \<Rightarrow> pystr \<Rightarrow> router option \<Rightarrow> nat \<Rightarrow> burst_adapter result" where
  "new_burst_adapter repair_grace final_fragment_grace core config service_callsign rt listener =
     (if repair_grace \<le> 0 then Inl (ValueError (lit ''repair_grace must be positive''))
      else if final_fragment_grace \<le> 0 then Inl (ValueError (lit ''final_fragment_grace must be positive''))
      else bindE (new_adapter core config service_callsign rt listener) (\<lambda>s.
        Inr (adapter.extend s (burst_adapter.fields repair_grace final_fragment_grace [] [] [] 0))))"

section \<open>Outbound transactions\<close>

definition burst_active_transactions :: "pystr \<Rightarrow> burst_adapter \<Rightarrow> pystr list" where
  "burst_active_transactions peer s =
     active_transactions peer s
     @ map bt_transaction_id (filter (\<lambda>tx. bt_peer tx = peer) (ba_queue s))
     @ (case map_of (ba_active s) peer of None \<Rightarrow> [] | Some tx \<Rightarrow> [bt_transaction_id tx])"

definition burst_allocate :: "pystr \<Rightarrow> pystr burst" where
  "burst_allocate peer s =
     (case allocate_loop (lit ''peer Q2 transaction ID space exhausted'') 256 256 3
         (burst_active_transactions peer s) (ad_next_transaction s peer) of
        (r, counter) \<Rightarrow> (r, [], s\<lparr>ad_next_transaction := (ad_next_transaction s)(peer := counter)\<rparr>))"

definition queued_count :: "burst_adapter \<Rightarrow> int" where
  "queued_count s = int (sum_list (map (\<lambda>tx. length (bt_fragments tx)) (ba_queue s)))"

definition pending_count :: "burst_adapter \<Rightarrow> int" where
  "pending_count s = int (sum_list (map (\<lambda>(_, tx). length (bt_fragments tx)) (ba_active s)))"

definition supersede_active_response_for_proactive :: "pystr \<Rightarrow> burst_adapter \<Rightarrow> burst_adapter" where
  "supersede_active_response_for_proactive peer s =
     (case map_of (ba_active s) peer of
        None \<Rightarrow> s
      | Some active \<Rightarrow>
          if bt_response_batch active = None \<or> \<not> bt_response_supersedable active then s
          else s\<lparr>ba_active := AList.delete peer (ba_active s),
                 ba_queue := filter (\<lambda>tx. \<not> (bt_peer tx = peer \<and> bt_response_batch tx = bt_response_batch active))
                   (ba_queue s)\<rparr>)"

text \<open>\<open>queue_frame\<close> once the transaction has its identifier.\<close>

definition burst_enqueue ::
  "pystr \<Rightarrow> bytes \<Rightarrow> bool \<Rightarrow> delivery option \<Rightarrow> key option \<Rightarrow> bool \<Rightarrow> pystr \<Rightarrow> pystr burst" where
  "burst_enqueue peer frame proactive dl batch supersedable transaction_id =
     bindA (resultA (fragment_frame_v2 frame transaction_id)) (\<lambda>fragments.
     bindA (readA (\<lambda>s. (queued_count s + pending_count s + int (length fragments) > cf_queue_capacity (ad_config s),
         ad_service_callsign s))) (\<lambda>(is_full, service).
     if is_full then raiseA (OverflowError (lit ''bounded APRS outbound queue is full''))
     else bindA (resultA (mapE fragment_body fragments)) (\<lambda>bodies.
       seqA (updateA (\<lambda>s. s\<lparr>ba_queue := ba_queue s @
           [\<lparr>bt_peer = peer, bt_transaction_id = transaction_id, bt_fragments = fragments,
             bt_packets = map (\<lambda>body. \<lparr>op_source = service, op_destination = peer, op_body = body,
               op_is_ack = False\<rparr>) bodies,
             bt_priority = (if proactive then 1 else 0), bt_order = ba_order s, bt_delivery = dl,
             bt_response_batch = batch, bt_response_supersedable = supersedable, bt_attempts = 0,
             bt_deadline = 0, bt_requested = None, bt_repair_active = False, bt_repair_indices = None\<rparr>],
           ba_order := ba_order s + 1\<rparr>))
         (returnA transaction_id))))"

definition burst_queue_frame ::
  "pystr \<Rightarrow> bytes \<Rightarrow> bool \<Rightarrow> delivery option \<Rightarrow> key option \<Rightarrow> bool \<Rightarrow> pystr burst" where
  "burst_queue_frame peer frame proactive dl batch supersedable =
     bindA (resultA (validate_peer peer)) (\<lambda>_.
     seqA (whenA proactive (updateA (supersede_active_response_for_proactive peer)))
     (bindA (burst_allocate peer) (burst_enqueue peer frame proactive dl batch supersedable)))"

definition burst_supersede :: "pystr \<Rightarrow> key \<Rightarrow> burst_adapter \<Rightarrow> burst_adapter" where
  "burst_supersede peer current s =
     (let s = supersede_stale_response_batches peer current s;
          stale_active = (\<lambda>tx. bt_response_batch tx \<noteq> None \<and> bt_response_batch tx \<noteq> Some current
            \<and> bt_response_supersedable tx);
          stale = map bt_response_batch (filter (\<lambda>tx. bt_peer tx = peer \<and> stale_active tx) (ba_queue s))
            @ (case map_of (ba_active s) peer of
                 None \<Rightarrow> []
               | Some tx \<Rightarrow> if stale_active tx then [bt_response_batch tx] else [])
      in if stale = [] then s
         else s\<lparr>ba_queue := filter (\<lambda>tx. bt_response_batch tx \<notin> set stale) (ba_queue s),
                ba_active := (case map_of (ba_active s) peer of
                    None \<Rightarrow> ba_active s
                  | Some tx \<Rightarrow> if bt_response_batch tx \<in> set stale then AList.delete peer (ba_active s)
                      else ba_active s)\<rparr>)"

definition burst_confirm_inbound :: "pystr \<Rightarrow> pystr option \<Rightarrow> bool \<Rightarrow> burst_adapter \<Rightarrow> burst_adapter" where
  "burst_confirm_inbound peer message_id accepted s =
     (if accepted then s else confirm_inbound peer message_id False s)"

definition burst_methods :: "burst_adapter methods" where
  "burst_methods = \<lparr>mt_queue_frame = burst_queue_frame, mt_confirm_inbound = burst_confirm_inbound,
     mt_supersede = burst_supersede\<rparr>"

text \<open>\<open>if self._burst_active.get(peer) is tx: del self._burst_active[peer]\<close>.\<close>

definition drop_active :: "pystr \<Rightarrow> burst_tx \<Rightarrow> burst_adapter \<Rightarrow> burst_adapter" where
  "drop_active peer tx s =
     (case map_of (ba_active s) peer of
        None \<Rightarrow> s
      | Some current \<Rightarrow>
          if bt_order current = bt_order tx then s\<lparr>ba_active := AList.delete peer (ba_active s)\<rparr> else s)"

definition complete_outbound :: "readings \<Rightarrow> pystr \<Rightarrow> burst_tx \<Rightarrow> unit burst" where
  "complete_outbound rd peer tx =
     seqA (updateA (drop_active peer tx))
       (case bt_delivery tx of None \<Rightarrow> returnA () | Some d \<Rightarrow> markA_delivered rd d)"

definition fail_outbound :: "pystr \<Rightarrow> burst_tx \<Rightarrow> unit burst" where
  "fail_outbound peer tx =
     seqA (updateA (drop_active peer tx))
     (seqA (case bt_delivery tx of None \<Rightarrow> returnA () | Some d \<Rightarrow> markA_failed d)
       (updateA (\<lambda>s. s\<lparr>ad_failed_packets := keep_last (cf_event_history_capacity (ad_config s))
          (ad_failed_packets s @ bt_packets tx)\<rparr>)))"

section \<open>Receiving\<close>

definition say :: "pystr \<Rightarrow> pystr \<Rightarrow> burst_adapter \<Rightarrow> burst_adapter" where
  "say peer body s = s\<lparr>ad_immediate := ad_immediate s @
     [\<lparr>op_source = ad_service_callsign s, op_destination = peer, op_body = body, op_is_ack = False\<rparr>]\<rparr>"

definition compact_stored_result :: "pystr \<Rightarrow> pystr \<Rightarrow> rat \<Rightarrow> unit burst" where
  "compact_stored_result peer transaction_id now =
     bindA (replay_getA peer transaction_id now) (\<lambda>found.
     case found of
       None \<Rightarrow> returnA ()
     | Some cached \<Rightarrow>
         bindA (resultA (decode_frame (PBytes (rp_request cached)))) (\<lambda>request.
         if \<not> is_send request then returnA ()
         else bindA (resultA (send_was_stored (rp_responses cached))) (\<lambda>stored.
           if \<not> stored then returnA ()
           else (let batch = Some (peer, transaction_id) in
             seqA (updateA (\<lambda>s. s\<lparr>ba_queue := filter (\<lambda>tx. bt_response_batch tx \<noteq> batch) (ba_queue s),
                 ba_active := (case map_of (ba_active s) peer of
                     None \<Rightarrow> ba_active s
                   | Some tx \<Rightarrow> if bt_response_batch tx = batch then AList.delete peer (ba_active s)
                       else ba_active s)\<rparr>))
             (bindA (resultA (encode_stored transaction_id)) (\<lambda>text. updateA (say peer text)))))))"

definition grace :: "rx_progress \<Rightarrow> burst_adapter \<Rightarrow> rat" where
  "grace p s = min (if rx_saw_final p then ba_final_fragment_grace s else ba_repair_grace s) (ba_repair_grace s)"

definition note_fragment :: "key \<Rightarrow> aprs_fragment \<Rightarrow> rat \<Rightarrow> burst_adapter \<Rightarrow> burst_adapter" where
  "note_fragment k f now s =
     (let p = (case map_of (ba_rx_progress s) k of
             Some p \<Rightarrow> if rx_total p \<noteq> af_total f
               then \<lparr>rx_total = af_total f, rx_received = [], rx_deadline = 0, rx_saw_final = False\<rparr> else p
           | None \<Rightarrow> \<lparr>rx_total = af_total f, rx_received = [], rx_deadline = 0, rx_saw_final = False\<rparr>);
          p = p\<lparr>rx_received := List.insert (af_index f) (rx_received p),
                rx_saw_final := rx_saw_final p \<or> af_index f = af_total f - 1\<rparr>
      in s\<lparr>ba_rx_progress := AList.update k (p\<lparr>rx_deadline := now + grace p s\<rparr>) (ba_rx_progress s)\<rparr>)"

definition receive_control :: "readings \<Rightarrow> pystr \<Rightarrow> control \<Rightarrow> disposition burst" where
  "receive_control rd peer c =
     bindA (readA (\<lambda>s. map_of (ba_active s) peer)) (\<lambda>active.
     case active of
       None \<Rightarrow> returnA Ignored
     | Some tx \<Rightarrow>
         (case c of
            AckControl transaction_id \<Rightarrow>
              if bt_transaction_id tx \<noteq> transaction_id then returnA Ignored
              else seqA (set_aprs_presence rd peer) (seqA (complete_outbound rd peer tx) (returnA Acknowledged))
          | MissingControl transaction_id missing \<Rightarrow>
              if bt_transaction_id tx \<noteq> transaction_id then returnA Ignored
              else (let valid = filter (\<lambda>i. i < int (length (bt_fragments tx))) missing in
                if valid = [] then returnA Ignored
                else seqA (set_aprs_presence rd peer)
                  (seqA (updateA (\<lambda>s. s\<lparr>ba_active := AList.update peer
                      (tx\<lparr>bt_requested := Some valid, bt_repair_active := True, bt_repair_indices := Some valid\<rparr>)
                      (ba_active s)\<rparr>))
                    (returnA RepairRequested)))))"

definition acknowledge_burst :: "pystr \<Rightarrow> pystr \<Rightarrow> unit burst" where
  "acknowledge_burst peer transaction_id =
     bindA (resultA (encode_burst_ack transaction_id)) (\<lambda>text. updateA (say peer text))"

definition burst_receive :: "readings \<Rightarrow> pystr \<Rightarrow> pystr \<Rightarrow> disposition burst" where
  "burst_receive rd peer body =
     (case validate_peer peer of
        Inl _ \<Rightarrow> returnA Ignored
      | Inr peer \<Rightarrow>
          bindA (resultA (parse_burst_control body)) (\<lambda>control.
          case control of
            Some c \<Rightarrow> receive_control rd peer c
          | None \<Rightarrow>
              (case parse_fragment body of
                 Inl _ \<Rightarrow> commit_receive burst_methods rd peer body
               | Inr f \<Rightarrow>
                   (let k = (peer, af_transaction_id f) in
                    seqA (updateA (note_fragment k f (rd_now rd)))
                    (bindA (commit_receive burst_methods rd peer body) (\<lambda>disposition.
                     seqA (whenA (disposition \<in> {Completed, Replayed})
                       (seqA (acknowledge_burst peer (af_transaction_id f))
                         (compact_stored_result peer (af_transaction_id f) (rd_now rd))))
                     (seqA (whenA (disposition \<in> {Completed, Replayed, Invalid, Conflict})
                       (updateA (\<lambda>s. s\<lparr>ba_rx_progress := AList.delete k (ba_rx_progress s)\<rparr>)))
                     (returnA disposition))))))))"

text \<open>\<open>selective_burst_guarded.APRSAdapter.receive\<close>, the adapter the node runs.\<close>

definition guarded_receive :: "readings \<Rightarrow> pystr \<Rightarrow> pystr \<Rightarrow> disposition burst" where
  "guarded_receive rd peer body =
     (case bindE (validate_peer peer) (\<lambda>normalized. bindE (parse_fragment body) (\<lambda>f. Inr (normalized, f))) of
        Inl _ \<Rightarrow> burst_receive rd peer body
      | Inr (normalized, f) \<Rightarrow>
          bindA (replay_getA normalized (af_transaction_id f) (rd_now rd)) (\<lambda>found.
          if found \<noteq> None
          then seqA (updateA (\<lambda>s. s\<lparr>ba_rx_progress := AList.delete (normalized, af_transaction_id f) (ba_rx_progress s)\<rparr>))
               (seqA (acknowledge_burst normalized (af_transaction_id f))
               (seqA (compact_stored_result normalized (af_transaction_id f) (rd_now rd))
                 (returnA Replayed)))
          else burst_receive rd normalized body))"

section \<open>Polling\<close>

text \<open>Requests for the missing fragments of inbound transactions.\<close>

fun poll_progress :: "rat \<Rightarrow> (key \<times> rx_progress) list \<Rightarrow> outbound_packet list burst" where
  "poll_progress now [] = returnA []"
| "poll_progress now ((k, p) # ps) =
     (if now < rx_deadline p then poll_progress now ps
      else if rx_missing p = []
      then seqA (updateA (\<lambda>s. s\<lparr>ba_rx_progress := AList.delete k (ba_rx_progress s)\<rparr>)) (poll_progress now ps)
      else bindA (resultA (encode_missing (snd k) (rx_missing p))) (\<lambda>text.
        bindA (readA (\<lambda>s. \<lparr>op_source = ad_service_callsign s, op_destination = fst k, op_body = text, op_is_ack = False\<rparr>)) (\<lambda>packet.
        seqA (updateA (\<lambda>s. s\<lparr>ba_rx_progress := AList.update k (p\<lparr>rx_deadline := now + grace p s\<rparr>) (ba_rx_progress s)\<rparr>))
        (bindA (poll_progress now ps) (\<lambda>packets. returnA (packet # packets))))))"

text \<open>What is due of an active transaction: \<open>None\<close> nothing, \<open>Some None\<close> it has failed.\<close>

definition due_indices :: "rat \<Rightarrow> burst_tx \<Rightarrow> int list option option" where
  "due_indices now tx =
     (case bt_requested tx of
        Some requested \<Rightarrow> Some (Some (sort requested))
      | None \<Rightarrow>
          if bt_deadline tx \<noteq> 0 \<and> now \<ge> bt_deadline tx
          then (if bt_repair_active tx
                then (case bt_repair_indices tx of
                    Some (i # indices) \<Rightarrow> Some (Some (sort (i # indices)))
                  | _ \<Rightarrow> Some None)
                else Some (Some (map int [0..<length (bt_fragments tx)])))
          else None)"

definition poll_active :: "rat \<Rightarrow> pystr \<Rightarrow> burst_tx \<Rightarrow> outbound_packet list burst" where
  "poll_active now peer tx =
     (case due_indices now tx of
        None \<Rightarrow> returnA []
      | Some None \<Rightarrow> seqA (fail_outbound peer tx) (returnA [])
      | Some (Some indices) \<Rightarrow>
          bindA (readA (\<lambda>s. s)) (\<lambda>s.
          let tx = tx\<lparr>bt_requested := None\<rparr> in
          if bt_attempts tx \<ge> cf_max_attempts (ad_config s)
          then seqA (updateA (\<lambda>s. s\<lparr>ba_active := AList.update peer tx (ba_active s)\<rparr>))
            (seqA (fail_outbound peer tx) (returnA []))
          else if \<not> may_send peer now s
          then seqA (updateA (\<lambda>s. s\<lparr>ba_active := AList.update peer (tx\<lparr>bt_requested := Some indices\<rparr>) (ba_active s)\<rparr>))
            (returnA [])
          else seqA (updateA (\<lambda>s. s\<lparr>
              ba_active := AList.update peer (tx\<lparr>bt_attempts := bt_attempts tx + 1,
                bt_deadline := now + cf_ack_timeout (ad_config s)\<rparr>) (ba_active s),
              ad_last_send := (ad_last_send s)(peer := Some now)\<rparr>))
            (returnA (map (\<lambda>i. bt_packets tx ! nat i) indices))))"

fun poll_actives :: "rat \<Rightarrow> (pystr \<times> burst_tx) list \<Rightarrow> outbound_packet list burst" where
  "poll_actives now [] = returnA []"
| "poll_actives now ((peer, tx) # txs) =
     bindA (poll_active now peer tx) (\<lambda>ps. bindA (poll_actives now txs) (\<lambda>qs. returnA (ps @ qs)))"

text \<open>\<open>sorted(queue, key=(priority, order))\<close>.\<close>

fun tx_insert :: "burst_tx \<Rightarrow> burst_tx list \<Rightarrow> burst_tx list" where
  "tx_insert tx [] = [tx]"
| "tx_insert tx (t # ts) =
     (if bt_priority tx < bt_priority t \<or> bt_priority tx = bt_priority t \<and> bt_order tx \<le> bt_order t
      then tx # t # ts else t # tx_insert tx ts)"

definition by_priority :: "burst_tx list \<Rightarrow> burst_tx list" where
  "by_priority txs = foldr tx_insert txs []"

fun start_candidates :: "rat \<Rightarrow> burst_tx list \<Rightarrow> outbound_packet list burst" where
  "start_candidates now [] = returnA []"
| "start_candidates now (tx # txs) =
     bindA (readA (\<lambda>s. map_of (ba_active s) (bt_peer tx) \<noteq> None \<or> \<not> may_send (bt_peer tx) now s)) (\<lambda>wait.
     if wait then start_candidates now txs
     else seqA (updateA (\<lambda>s. s\<lparr>
         ba_queue := remove1 tx (ba_queue s),
         ba_active := AList.update (bt_peer tx) (tx\<lparr>bt_attempts := 1,
           bt_deadline := now + cf_ack_timeout (ad_config s)\<rparr>) (ba_active s),
         ad_last_send := (ad_last_send s)(bt_peer tx := Some now)\<rparr>))
       (bindA (start_candidates now txs) (\<lambda>packets. returnA (bt_packets tx @ packets))))"

definition burst_poll :: "rat \<Rightarrow> outbound_packet list burst" where
  "burst_poll now =
     bindA (readA ad_immediate) (\<lambda>packets.
     seqA (updateA (\<lambda>s. s\<lparr>ad_immediate := []\<rparr>))
     (bindA (readA ba_rx_progress) (\<lambda>progress.
      bindA (poll_progress now progress) (\<lambda>requests.
      bindA (readA ba_active) (\<lambda>active.
      bindA (poll_actives now active) (\<lambda>repairs.
      bindA (readA (\<lambda>s. by_priority (ba_queue s))) (\<lambda>candidates.
      bindA (start_candidates now candidates) (\<lambda>started.
      seqA (updateA (expire_all now)) (returnA (packets @ requests @ repairs @ started))))))))))"

end
