(* ===== verification/Receiving.thy ===== *)
theory Receiving
  imports Commit_Adapter Carriage_Facts
begin

text \<open>
  What receiving keeps. The durable-ACK adapter calls on \<open>self\<close> the methods its subclasses
  override; \<open>method_contract\<close> says what such methods promise about a predicate of the state, and
  proves once that what sends a response or a pushed message keeps it. \<open>adapter_contract\<close> adds the
  calls on the router and the tables: every path of \<open>receive\<close> that does not hand a frame to the
  core keeps the predicate. \<open>core_contract\<close> adds the promise of the core itself, and gives the
  whole of \<open>receive\<close>.
\<close>

lemma keeps_core: "(\<And>s. P s \<Longrightarrow> P (s\<lparr>ad_core := snd (snd (f (ad_core s)))\<rparr>)) \<Longrightarrow> keeps P (coreA f)"
  by (auto simp: keeps_def coreA_def split: prod.splits) (metis snd_conv)

locale method_contract =
  fixes mt :: "'z adapter_scheme methods" and P :: "'z adapter_scheme \<Rightarrow> bool"
  assumes queue_keeps: "keeps P (mt_queue_frame mt peer frame proactive dl batch supersedable)"
    and confirm_keeps: "P s \<Longrightarrow> P (mt_confirm_inbound mt peer message_id accepted s)"
    and supersede_keeps: "P s \<Longrightarrow> P (mt_supersede mt peer k s)"
    and pending_keeps: "keeps P (coreA (mark_aprs_pending recipient n))"
    and activity_keeps: "P s \<Longrightarrow> P (s\<lparr>ad_activity := activity, ad_completed_transactions := completed\<rparr>)"
begin

lemma confirmA_keeps: "keeps P (confirmA mt peer message_id accepted)"
  unfolding confirmA_def by (intro keeping confirm_keeps)

lemma supersedeA_keeps: "keeps P (updateA (mt_supersede mt peer k))"
  by (intro keeping supersede_keeps)

lemma deliver_message_keeps: "keeps P (aprs_deliver_message mt message endpoint)"
  unfolding aprs_deliver_message_def by (intro keeping queue_keeps pending_keeps)

lemma deliver_event_keeps: "keeps P (deliver_event mt event)"
proof -
  have "keeps P (case push of WebsocketPush _ _ \<Rightarrow> returnA ()
      | AprsPush message endpoint \<Rightarrow> swallowA (aprs_deliver_message mt message endpoint))" for push
    by (cases push) (auto intro!: keeping deliver_message_keeps)
  then show ?thesis unfolding deliver_event_def
    by (intro keeps_bind keeping) (auto split: option.splits event.splits sum.splits intro!: keeping)
qed

lemma queue_response_keeps: "keeps P (queue_response mt peer batch supersedable response)"
  unfolding queue_response_def Let_def
  by (intro keeping queue_keeps) (auto split: option.splits intro: keeping pending_keeps)

lemma note_activity_keeps: "P s \<Longrightarrow> P (note_activity now peer callsign tid s)"
  by (simp add: note_activity_def Let_def activity_keeps)

text \<open>The end of a request, once its answer is in the replay cache.\<close>

lemma answer_request_keeps: "keeps P (answer_request mt now peer callsign tid message_id send responses)"
  unfolding answer_request_def by (intro keeping note_activity_keeps confirmA_keeps queue_response_keeps)

end

locale adapter_contract = method_contract +
  assumes delivered_keeps: "keeps P (coreA (mark_aprs_delivered raising t recipient n))"
    and router_keeps: "P s \<Longrightarrow> P (s\<lparr>ad_router := rt\<rparr>)"
    and reassembly_keeps: "P s \<Longrightarrow> fragment_ok f \<Longrightarrow>
      P (s\<lparr>ad_reassembly := snd (reassembler_add peer f now (ad_reassembly s))\<rparr>)"
    and get_keeps: "P s \<Longrightarrow> P (s\<lparr>ad_replay := snd (replay_get peer tid now (ad_replay s))\<rparr>)"
    and put_keeps: "P s \<Longrightarrow> P (s\<lparr>ad_replay := replay_put peer tid request responses now (ad_replay s)\<rparr>)"
    and drop_keeps: "P s \<Longrightarrow> P (s\<lparr>ad_queue := filter Q (ad_queue s), ad_pending := filter R (ad_pending s)\<rparr>)"
begin

lemma presence_keeps: "keeps P (set_aprs_presence rd peer)"
  by (auto simp: keeps_def set_aprs_presence_def router_keeps split: option.splits sum.splits)

lemma activate_keeps: "keeps P (activate_aprs_if_accepted rd peer responses)"
  unfolding activate_aprs_if_accepted_def
  by (intro keeping presence_keeps)

lemma reassembleA_keeps: "fragment_ok f \<Longrightarrow> keeps P (reassembleA peer f now)"
  by (auto simp: keeps_def reassembleA_def split: prod.splits) (metis reassembly_keeps snd_conv)

lemma replay_getA_keeps: "keeps P (replay_getA peer tid now)"
  by (auto simp: keeps_def replay_getA_def split: prod.splits) (metis get_keeps snd_conv)

lemma reconcile_keeps: "keeps P (reconcile_message_cursor rd peer callsign since)"
  unfolding reconcile_message_cursor_def by (intro keeping drop_keeps delivered_keeps)

lemma receive_ack_keeps: "keeps P (receive_ack rd peer message_id)"
proof -
  have "P s \<Longrightarrow> P (s\<lparr>ad_pending := AList.delete k (ad_pending s)\<rparr>)" for s k
    using drop_keeps [of s "\<lambda>(k', _). k \<noteq> k'" "\<lambda>_. True"] by (simp add: AList.delete_eq)
  then show ?thesis unfolding receive_ack_def
    by (intro keeps_bind keeping) (auto split: option.splits intro!: keeping delivered_keeps)
qed

lemma answer_replay_keeps: "keeps P (answer_replay mt rd peer tid message_id cached)"
  unfolding answer_replay_def Let_def
  by (intro keeping activate_keeps supersede_keeps confirmA_keeps queue_keeps)

lemma finish_request_keeps: "keeps P (finish_request mt now peer callsign tid message_id frame send responses)"
  unfolding finish_request_def by (intro keeping supersede_keeps put_keeps answer_request_keeps)

end

locale core_contract = adapter_contract +
  assumes handle_keeps: "keeps P (coreA (handle_frame (PStr callsign) (PBytes frame) t))"
begin

lemma core_frame_keeps: "keeps P (core_frame mt rd callsign frame)"
proof (rule keepsI)
  fix s assume p: "P s"
  obtain r ev sv where h: "handle_frame (PStr callsign) (PBytes frame) (rd_accepted_at rd) (ad_core s) = (r, ev, sv)"
    by (rule prod_cases3)
  have events: "keeps P (forA ev (deliver_event mt))" by (intro keeps_for deliver_event_keeps)
  have "P (s\<lparr>ad_core := sv\<rparr>)"
    using keepsD [OF handle_keeps [of callsign frame "rd_accepted_at rd"] p] by (simp add: coreA_def h)
  then have "P (snd (snd (forA ev (deliver_event mt) (s\<lparr>ad_core := sv\<rparr>))))"
    by (rule keepsD [OF events])
  then show "P (snd (snd (core_frame mt rd callsign frame s)))"
    by (auto simp: core_frame_def h split: prod.splits)
qed

lemma execute_keeps: "keeps P (execute_request mt rd peer tid message_id frame)"
  unfolding execute_request_def Let_def
  by (intro keeps_bind keeps_if keeps_seq finish_request_keeps activate_keeps core_frame_keeps)
    (auto split: protocol_object.splits intro!: keeping confirmA_keeps reconcile_keeps)

lemma receive_fragment_keeps:
  assumes "fragment_ok f" shows "keeps P (receive_fragment mt rd peer message_id f)"
proof -
  have "keeps P (case r of
        Inl (TransactionConflict _) \<Rightarrow> seqA (whenA c (confirmA mt peer message_id False)) (returnA Conflict)
      | Inl (CarriageError _) \<Rightarrow> seqA (whenA c (confirmA mt peer message_id False)) (returnA Invalid)
      | Inl e \<Rightarrow> raiseA e
      | Inr None \<Rightarrow> seqA (whenA c (confirmA mt peer message_id True)) (returnA Fragment)
      | Inr (Some frame) \<Rightarrow>
          bindA (replay_getA peer tid now) (\<lambda>cached.
          case cached of
            Some cached \<Rightarrow>
              if rp_request cached \<noteq> frame
              then seqA (whenA c (confirmA mt peer message_id False)) (returnA Conflict)
              else answer_replay mt rd peer tid message_id cached
          | None \<Rightarrow> execute_request mt rd peer tid message_id frame))" for r c tid now
    by (auto split: sum.splits option.splits exn.splits
        intro!: keeping confirmA_keeps replay_getA_keeps answer_replay_keeps execute_keeps)
  then show ?thesis unfolding receive_fragment_def Let_def
    by (intro keeps_bind reassembleA_keeps assms)
qed

lemma commit_receive_keeps: "keeps P (commit_receive mt rd peer body)"
  unfolding commit_receive_def Let_def
  by (auto split: sum.splits option.splits dest: parse_fragment_ok
      intro!: keeping receive_ack_keeps confirmA_keeps receive_fragment_keeps)

end

end
