(* ===== verification/Burst_Invariant.thy ===== *)
theory Burst_Invariant
  imports Burst_Adapter Receiving Reassembly_Facts Replay_Facts "HOL-Library.Multiset"
begin

text \<open>
  The state of the burst adapter. Its outstanding transactions, queued and active, are a
  multiset: they are well formed, no two of a peer share a transaction ID, and together they stay
  within the configured capacity. Every operation of the adapter keeps this.
\<close>

section \<open>Transactions\<close>

definition indices_ok :: "burst_tx \<Rightarrow> int list option \<Rightarrow> bool" where
  "indices_ok tx indices \<longleftrightarrow> (case indices of None \<Rightarrow> True
     | Some is \<Rightarrow> is \<noteq> [] \<and> (\<forall>i \<in> set is. 0 \<le> i \<and> i < int (length (bt_fragments tx))))"

definition tx_ok :: "burst_tx \<Rightarrow> bool" where
  "tx_ok tx \<longleftrightarrow> transaction_byte (bt_transaction_id tx)
     \<and> 1 \<le> length (bt_fragments tx) \<and> length (bt_fragments tx) \<le> 16
     \<and> (\<forall>f \<in> set (bt_fragments tx). fragment_ok f \<and> af_transaction_id f = bt_transaction_id tx)
     \<and> mapE fragment_body (bt_fragments tx) = Inr (map op_body (bt_packets tx))
     \<and> (\<forall>p \<in> set (bt_packets tx). op_destination p = bt_peer tx)
     \<and> indices_ok tx (bt_requested tx) \<and> indices_ok tx (bt_repair_indices tx)
     \<and> (bt_repair_active tx \<longrightarrow> bt_repair_indices tx \<noteq> None)"

definition tx_key :: "burst_tx \<Rightarrow> key" where
  "tx_key tx = (bt_peer tx, bt_transaction_id tx)"

definition load :: "burst_tx multiset \<Rightarrow> int" where
  "load M = int (\<Sum>\<^sub># (image_mset (length \<circ> bt_fragments) M))"

definition outstanding :: "burst_adapter \<Rightarrow> burst_tx multiset" where
  "outstanding s = mset (ba_queue s) + mset (map snd (ba_active s))"

text \<open>Every value of \<open>f\<close> occurs at most once.\<close>

definition once :: "('a \<Rightarrow> 'b) \<Rightarrow> 'a multiset \<Rightarrow> bool" where
  "once f M \<longleftrightarrow> (\<forall>y. count (image_mset f M) y \<le> 1)"

definition txs_ok :: "int \<Rightarrow> int \<Rightarrow> burst_tx multiset \<Rightarrow> bool" where
  "txs_ok capacity order M \<longleftrightarrow> (\<forall>tx \<in># M. tx_ok tx \<and> bt_order tx < order) \<and> once tx_key M \<and> once bt_order M
     \<and> load M \<le> capacity"

lemma once_mono: "M \<subseteq># N \<Longrightarrow> once f N \<Longrightarrow> once f M"
  unfolding once_def by (meson image_mset_subseteq_mono mset_subset_eq_count order_trans)

lemma once_add: "once f M \<Longrightarrow> f x \<notin> f ` set_mset M \<Longrightarrow> once f (add_mset x M)"
  by (auto simp: once_def not_in_iff simp flip: set_image_mset)

lemma load_mono: "M \<subseteq># N \<Longrightarrow> load M \<le> load N"
  by (metis (no_types, lifting) add_diff_cancel_left' image_mset_union load_def of_nat_mono le_add1
      subset_mset.le_iff_add sum_mset.union)

lemma load_add [simp]: "load (add_mset tx M) = int (length (bt_fragments tx)) + load M"
  by (simp add: load_def)

lemma load_outstanding: "load (outstanding s) = queued_count s + pending_count s"
  unfolding load_def outstanding_def queued_count_def pending_count_def
  by (simp add: sum_mset_sum_list comp_def case_prod_unfold flip: mset_map)

lemma txs_ok_mono: "M \<subseteq># N \<Longrightarrow> txs_ok c k N \<Longrightarrow> txs_ok c k M"
  unfolding txs_ok_def by (meson load_mono mset_subset_eqD once_mono order_trans)

lemma txs_ok_add:
  assumes "txs_ok c k M" "tx_ok tx" "bt_order tx = k" "tx_key tx \<notin> tx_key ` set_mset M"
    "int (length (bt_fragments tx)) + load M \<le> c"
  shows "txs_ok c (k + 1) (add_mset tx M)"
proof -
  have "bt_order tx \<notin> bt_order ` set_mset M" using assms(1,3) by (auto simp: txs_ok_def)
  moreover have "bt_order t < k + 1" if "t \<in># M" for t using assms(1) that by (fastforce simp: txs_ok_def)
  ultimately show ?thesis using assms by (auto simp: txs_ok_def intro!: once_add)
qed

text \<open>Changing the retry state of a transaction.\<close>

definition same_tx :: "burst_tx \<Rightarrow> burst_tx \<Rightarrow> bool" where
  "same_tx tx tx' \<longleftrightarrow> bt_peer tx' = bt_peer tx \<and> bt_transaction_id tx' = bt_transaction_id tx
     \<and> bt_fragments tx' = bt_fragments tx \<and> bt_order tx' = bt_order tx"

lemma txs_ok_change:
  assumes "txs_ok c k (add_mset tx M)" "same_tx tx tx'" "tx_ok tx'"
  shows "txs_ok c k (add_mset tx' M)"
proof -
  have "image_mset tx_key (add_mset tx' M) = image_mset tx_key (add_mset tx M)"
    "image_mset bt_order (add_mset tx' M) = image_mset bt_order (add_mset tx M)"
    using assms(2) by (simp_all add: same_tx_def tx_key_def)
  then show ?thesis using assms by (auto simp: txs_ok_def once_def same_tx_def)
qed

section \<open>The dictionary of active transactions\<close>

lemma mset_active: "keys_ok d \<Longrightarrow> map_of d k = Some v \<Longrightarrow>
    mset (map snd d) = add_mset v (mset (map snd (AList.delete k d)))"
  by (induction d) (auto simp: keys_ok_def delete_absent)

lemma mset_delete: "mset (map snd (AList.delete k d)) \<subseteq># mset (map snd d)"
  by (induction d) (auto intro: subset_mset.order_trans)

lemma mset_update: "keys_ok d \<Longrightarrow>
    mset (map snd (AList.update k v d)) = add_mset v (mset (map snd (AList.delete k d)))"
  using mset_active [of "AList.update k v d" k v] by simp

section \<open>The invariant\<close>

definition active_ok :: "int \<Rightarrow> (pystr, burst_tx) odict \<Rightarrow> bool" where
  "active_ok n d \<longleftrightarrow> keys_ok d \<and> (\<forall>(peer, tx) \<in> set d. bt_peer tx = peer \<and> 1 \<le> bt_attempts tx \<and> bt_attempts tx \<le> n)"

definition progress_ok :: "(key, rx_progress) odict \<Rightarrow> bool" where
  "progress_ok d \<longleftrightarrow> keys_ok d \<and> (\<forall>(k, p) \<in> set d. 1 \<le> rx_total p \<and> rx_total p \<le> 16 \<and> rx_received p \<noteq> []
     \<and> (\<forall>i \<in> set (rx_received p). 0 \<le> i \<and> i < rx_total p))"

definition burst_ok :: "burst_adapter \<Rightarrow> bool" where
  "burst_ok s \<longleftrightarrow> txs_ok (cf_queue_capacity (ad_config s)) (ba_order s) (outstanding s)
     \<and> active_ok (cf_max_attempts (ad_config s)) (ba_active s) \<and> 1 \<le> cf_max_attempts (ad_config s)
     \<and> progress_ok (ba_rx_progress s) \<and> reassembler_ok (ad_reassembly s) \<and> replay_ok (ad_replay s)"

text \<open>It depends on these fields alone.\<close>

lemma burst_ok_frame:
  assumes "burst_ok s" "ad_config s' = ad_config s" "ba_order s' = ba_order s" "ba_queue s' = ba_queue s"
    "ba_active s' = ba_active s" "ba_rx_progress s' = ba_rx_progress s"
    "reassembler_ok (ad_reassembly s')" "replay_ok (ad_replay s')"
  shows "burst_ok s'"
  using assms by (simp add: burst_ok_def outstanding_def)

lemma burst_ok_tables: "burst_ok s \<Longrightarrow> reassembler_ok (ad_reassembly s)" "burst_ok s \<Longrightarrow> replay_ok (ad_replay s)"
  by (simp_all add: burst_ok_def)

lemma active_ok_delete: "active_ok n d \<Longrightarrow> active_ok n (AList.delete k d)"
  using delete_subset [of k d] by (fastforce simp: active_ok_def)

lemma burst_ok_fewer:
  assumes "burst_ok s" "mset (ba_queue s') \<subseteq># mset (ba_queue s)"
    "ba_active s' = ba_active s \<or> (\<exists>k. ba_active s' = AList.delete k (ba_active s))"
    "ad_config s' = ad_config s" "ba_order s' = ba_order s" "ba_rx_progress s' = ba_rx_progress s"
    "ad_reassembly s' = ad_reassembly s" "ad_replay s' = ad_replay s"
  shows "burst_ok s'"
proof -
  have "mset (map snd (ba_active s')) \<subseteq># mset (map snd (ba_active s))"
    using assms(3) mset_delete by auto
  then have "outstanding s' \<subseteq># outstanding s"
    unfolding outstanding_def by (rule subset_mset.add_mono [OF assms(2)])
  then show ?thesis using assms txs_ok_mono active_ok_delete by (auto simp: burst_ok_def)
qed

section \<open>Queueing a frame\<close>

lemma allocate_loop_fresh:
  "allocate_loop ex n space w active c = (Inr t, c') \<Longrightarrow> t \<notin> set active"
  by (induction ex n space w active c rule: allocate_loop.induct) (auto simp: Let_def split: sum.splits if_splits)

lemma active_transactions_outstanding:
  "active_ok n (ba_active s) \<Longrightarrow> tx \<in># outstanding s \<Longrightarrow> bt_transaction_id tx \<in> set (burst_active_transactions (bt_peer tx) s)"
  by (fastforce simp: outstanding_def burst_active_transactions_def active_ok_def keys_ok_def dest: map_of_is_SomeI)

lemma fragments_v2_ok:
  assumes "fragment_frame_v2 frame tid = Inr fs"
  shows "transaction_byte tid" "1 \<le> length fs" "length fs \<le> 16"
    "\<forall>f \<in> set fs. fragment_ok f \<and> af_transaction_id f = tid"
proof -
  have fr: "framed frame" "transaction_byte tid"
    using assms by (auto simp: fragment_frame_v2_def bindE_eq_Inr framed_def is_ok_iff transaction_byte_def split: if_splits)
  have fs: "fs = map (\<lambda>(i, chunk). q2_fragment tid i (int (length (chunks 50 frame))) chunk) (numbered (chunks 50 frame))"
    using fragment_v2_run [OF fr] assms by simp
  have len: "1 \<le> length (chunks 50 frame)" "length (chunks 50 frame) \<le> 16"
    using assms by (auto simp: fragment_frame_v2_def bindE_eq_Inr Let_def Suc_le_eq split: if_splits)
  then show "transaction_byte tid" "1 \<le> length fs" "length fs \<le> 16" using fs fr by auto
  show "\<forall>f \<in> set fs. fragment_ok f \<and> af_transaction_id f = tid"
  proof
    fix f assume "f \<in> set fs"
    then obtain i where i: "i < length (chunks 50 frame)"
      "f = q2_fragment tid (int i) (int (length (chunks 50 frame))) (chunks 50 frame ! i)"
      unfolding fs by (auto simp: in_set_conv_nth numbered_nth)
    then have "chunks 50 frame ! i \<noteq> [] \<and> length (chunks 50 frame ! i) \<le> 50" using chunks_mem [of 50 _ frame] by simp
    then show "fragment_ok f \<and> af_transaction_id f = tid"
      using i fr len by (simp add: fragment_ok_def q2_fragment_def)
  qed
qed

lemma burst_ok_filter: "burst_ok s \<Longrightarrow> burst_ok (s\<lparr>ba_queue := filter Q (ba_queue s)\<rparr>)"
  by (erule burst_ok_fewer) (simp_all add: mset_filter)

lemma burst_ok_drop: "burst_ok s \<Longrightarrow> burst_ok (s\<lparr>ba_active := AList.delete k (ba_active s)\<rparr>)"
  by (erule burst_ok_fewer) (simp_all, blast)

lemma burst_ok_filter_drop:
  "burst_ok s \<Longrightarrow> burst_ok (s\<lparr>ba_active := AList.delete k (ba_active s), ba_queue := filter Q (ba_queue s)\<rparr>)"
  using burst_ok_filter [OF burst_ok_drop [of s k], of Q] by simp

lemma supersede_active_ok: "burst_ok s \<Longrightarrow> burst_ok (supersede_active_response_for_proactive peer s)"
  by (simp add: supersede_active_response_for_proactive_def burst_ok_filter_drop split: option.splits)

lemma supersede_base_ok: "burst_ok s \<Longrightarrow> burst_ok (supersede_stale_response_batches peer k s)"
  unfolding supersede_stale_response_batches_def Let_def
  by (rule burst_ok_frame [of s]) (simp_all add: burst_ok_tables)

lemma burst_ok_filter_active:
  assumes "burst_ok s" "d = ba_active s \<or> (\<exists>k. d = AList.delete k (ba_active s))"
  shows "burst_ok (s\<lparr>ba_queue := filter Q (ba_queue s), ba_active := d\<rparr>)"
  using assms by (intro burst_ok_fewer [OF assms(1)]) (simp_all add: mset_filter)

lemma burst_ok_filter_delete:
  "burst_ok s \<Longrightarrow> burst_ok (s\<lparr>ba_queue := filter Q (ba_queue s), ba_active := AList.delete k (ba_active s)\<rparr>)"
  by (rule burst_ok_filter_active) blast+

lemma burst_supersede_ok:
  assumes "burst_ok s" shows "burst_ok (burst_supersede peer k s)"
  using supersede_base_ok [OF assms, of peer k] unfolding burst_supersede_def Let_def
  by (auto intro!: burst_ok_filter_active burst_ok_filter split: option.splits)

lemma burst_confirm_ok: "burst_ok s \<Longrightarrow> burst_ok (burst_confirm_inbound peer m accepted s)"
  by (rule burst_ok_frame [of s])
    (simp_all add: burst_confirm_inbound_def confirm_inbound_def burst_ok_tables split: option.splits)

text \<open>A queued transaction: fresh, within the capacity, with packets for its fragments.\<close>

lemma new_transaction_ok:
  assumes "burst_ok s" "tid \<notin> set (burst_active_transactions peer s)" "fragment_frame_v2 frame tid = Inr fs"
    "\<not> queued_count s + pending_count s + int (length fs) > cf_queue_capacity (ad_config s)"
    "mapE fragment_body fs = Inr (map op_body packets)" "\<forall>p \<in> set packets. op_destination p = peer"
    "bt_peer tx = peer" "bt_transaction_id tx = tid" "bt_fragments tx = fs" "bt_packets tx = packets"
    "bt_order tx = ba_order s" "bt_requested tx = None" "bt_repair_indices tx = None" "\<not> bt_repair_active tx"
  shows "burst_ok (s\<lparr>ba_queue := ba_queue s @ [tx], ba_order := ba_order s + 1\<rparr>)"
proof -
  let ?s = "s\<lparr>ba_queue := ba_queue s @ [tx], ba_order := ba_order s + 1\<rparr>"
  have tx: "tx_ok tx" using fragments_v2_ok [OF assms(3)] assms(5-) by (simp add: tx_ok_def indices_ok_def)
  have "tx_key tx \<notin> tx_key ` set_mset (outstanding s)"
    using active_transactions_outstanding [of _ s] assms(1,2,7,8) by (force simp: tx_key_def burst_ok_def)
  moreover have "int (length (bt_fragments tx)) + load (outstanding s) \<le> cf_queue_capacity (ad_config s)"
    using assms(4,9) by (simp add: load_outstanding)
  ultimately have "txs_ok (cf_queue_capacity (ad_config s)) (ba_order s + 1) (add_mset tx (outstanding s))"
    using txs_ok_add [OF _ tx assms(11)] assms(1) by (simp add: burst_ok_def)
  moreover have "outstanding ?s = add_mset tx (outstanding s)" by (simp add: outstanding_def)
  ultimately show ?thesis using assms(1) by (simp add: burst_ok_def)
qed

lemma burst_enqueue_ok:
  assumes "burst_ok s" "tid \<notin> set (burst_active_transactions peer s)"
  shows "burst_ok (snd (snd (burst_enqueue peer frame proactive dl batch supersedable tid s)))"
proof (cases "fragment_frame_v2 frame tid")
  case (Inr fs)
  show ?thesis
  proof (cases "mapE fragment_body fs")
    case bodies: (Inr bodies)
    then show ?thesis using Inr assms(1)
      by (auto simp: burst_enqueue_def raiseA_def returnA_def comp_def intro!: new_transaction_ok [OF assms Inr])
  qed (use Inr assms(1) in \<open>simp add: burst_enqueue_def raiseA_def\<close>)
qed (use assms(1) in \<open>simp add: burst_enqueue_def raiseA_def\<close>)

lemma burst_allocate_enqueue_ok:
  "keeps burst_ok (bindA (burst_allocate peer) (burst_enqueue peer frame proactive dl batch supersedable))"
proof (rule keepsI)
  fix s assume s: "burst_ok s"
  obtain r c where a: "allocate_loop (lit ''peer Q2 transaction ID space exhausted'') 256 256 3
      (burst_active_transactions peer s) (ad_next_transaction s peer) = (r, c)" by fastforce
  let ?t = "s\<lparr>ad_next_transaction := (ad_next_transaction s)(peer := c)\<rparr>"
  have t: "burst_ok ?t" using s by (intro burst_ok_frame [OF s]) (simp_all add: burst_ok_tables)
  have act: "burst_active_transactions peer ?t = burst_active_transactions peer s"
    by (simp add: burst_active_transactions_def active_transactions_def)
  have run: "burst_allocate peer s = (r, [], ?t)" by (simp add: burst_allocate_def a)
  show "burst_ok (snd (snd (bindA (burst_allocate peer) (burst_enqueue peer frame proactive dl batch supersedable) s)))"
  proof (cases r)
    case (Inr tid)
    have "tid \<notin> set (burst_active_transactions peer s)" using allocate_loop_fresh a Inr by blast
    then have "burst_ok (snd (snd (burst_enqueue peer frame proactive dl batch supersedable tid ?t)))"
      by (intro burst_enqueue_ok [OF t]) (simp only: act not_False_eq_True)
    then show ?thesis using run Inr by (simp add: bindA_def case_prod_unfold)
  qed (use run t in \<open>simp add: bindA_def\<close>)
qed

lemma burst_queue_ok: "keeps burst_ok (burst_queue_frame peer frame proactive dl batch supersedable)"
  unfolding burst_queue_frame_def
  by (intro keeping supersede_active_ok burst_allocate_enqueue_ok)

end
