(* ===== verification/Burst_Steps.thy ===== *)
theory Burst_Steps
  imports Burst_Invariant
begin

text \<open>
  Receiving and polling keep the invariant of the burst adapter, whose methods satisfy the contract
  of the durable-ACK adapter they extend.
\<close>

section \<open>Receiving\<close>

lemma burst_ok_core: "burst_ok s \<Longrightarrow> burst_ok (s\<lparr>ad_core := sv\<rparr>)"
  by (rule burst_ok_frame [of s]) (simp_all add: burst_ok_tables)

lemma burst_core_keeps: "keeps burst_ok (coreA f)"
  by (intro keeps_core burst_ok_core)

interpretation burst: core_contract burst_methods burst_ok
proof unfold_locales
  fix s :: burst_adapter and f peer now tid assume s: "burst_ok s"
  show "burst_ok (s\<lparr>ad_router := rt\<rparr>)" for rt by (intro burst_ok_frame [OF s]) (simp_all add: burst_ok_tables s)
  show "burst_ok (s\<lparr>ad_activity := a, ad_completed_transactions := c\<rparr>)" for a c
    by (intro burst_ok_frame [OF s]) (simp_all add: burst_ok_tables s)
  show "burst_ok (s\<lparr>ad_queue := filter Q (ad_queue s), ad_pending := filter R (ad_pending s)\<rparr>)" for Q R
    by (intro burst_ok_frame [OF s]) (simp_all add: burst_ok_tables s)
  show "burst_ok (s\<lparr>ad_replay := snd (replay_get peer tid now (ad_replay s))\<rparr>)"
    by (intro burst_ok_frame [OF s]) (simp_all add: burst_ok_tables s replay_get_ok)
  show "burst_ok (s\<lparr>ad_replay := replay_put peer tid request responses now (ad_replay s)\<rparr>)" for request responses
    by (intro burst_ok_frame [OF s]) (simp_all add: burst_ok_tables s replay_put_ok)
  assume "fragment_ok f"
  then have "reassembler_ok (snd (reassembler_add peer f now (ad_reassembly s)))"
    using reassembler_add_ok [OF burst_ok_tables(1) [OF s]] by (metis prod.collapse)
  then show "burst_ok (s\<lparr>ad_reassembly := snd (reassembler_add peer f now (ad_reassembly s))\<rparr>)"
    by (intro burst_ok_frame [OF s]) (simp_all add: burst_ok_tables s)
qed (simp_all add: burst_methods_def burst_queue_ok burst_confirm_ok burst_supersede_ok burst_core_keeps)

lemma say_ok: "burst_ok s \<Longrightarrow> burst_ok (say peer body s)"
  by (rule burst_ok_frame [of s]) (simp_all add: say_def burst_ok_tables)

lemma drop_active_ok: "burst_ok s \<Longrightarrow> burst_ok (drop_active peer tx s)"
  by (simp add: drop_active_def burst_ok_drop split: option.splits)

lemma complete_outbound_ok: "keeps burst_ok (complete_outbound rd peer tx)"
  unfolding complete_outbound_def
  by (auto intro!: keeping drop_active_ok burst_core_keeps split: option.splits)

lemma fail_outbound_ok: "keeps burst_ok (fail_outbound peer tx)"
proof -
  have "burst_ok s \<Longrightarrow> burst_ok (s\<lparr>ad_failed_packets := ps\<rparr>)" for s ps
    by (rule burst_ok_frame [of s]) (simp_all add: burst_ok_tables)
  then show ?thesis unfolding fail_outbound_def
    by (auto intro!: keeping drop_active_ok burst_core_keeps split: option.splits)
qed

lemma acknowledge_ok: "keeps burst_ok (acknowledge_burst peer tid)"
  unfolding acknowledge_burst_def by (intro keeping say_ok)

lemma compact_ok: "keeps burst_ok (compact_stored_result peer tid now)"
  unfolding compact_stored_result_def Let_def
  by (auto intro!: keeping burst.replay_getA_keeps say_ok burst_ok_filter burst_ok_filter_delete split: option.splits)

text \<open>Progress of inbound transactions.\<close>

lemma progress_ok_update:
  assumes "progress_ok d" "1 \<le> rx_total p" "rx_total p \<le> 16" "rx_received p \<noteq> []"
    "\<forall>i \<in> set (rx_received p). 0 \<le> i \<and> i < rx_total p"
  shows "progress_ok (AList.update k p d)"
  using assms update_subset [of k p d] unfolding progress_ok_def by fastforce

lemma progress_ok_delete: "progress_ok d \<Longrightarrow> progress_ok (AList.delete k d)"
  using delete_subset [of k d] unfolding progress_ok_def by fastforce

lemma progress_okD: "progress_ok d \<Longrightarrow> map_of d k = Some p \<Longrightarrow> 1 \<le> rx_total p \<and> rx_total p \<le> 16 \<and> rx_received p \<noteq> []
    \<and> (\<forall>i \<in> set (rx_received p). 0 \<le> i \<and> i < rx_total p)"
  by (auto simp: progress_ok_def dest!: map_of_SomeD)

lemma burst_ok_progress: "burst_ok s \<Longrightarrow> progress_ok d \<Longrightarrow> burst_ok (s\<lparr>ba_rx_progress := d\<rparr>)"
  by (simp add: burst_ok_def outstanding_def)

lemma note_fragment_ok:
  assumes "burst_ok s" "fragment_ok f" shows "burst_ok (note_fragment k f now s)"
proof -
  have f: "0 \<le> af_index f" "af_index f < af_total f" "af_total f \<le> 16" using assms(2) by (auto simp: fragment_ok_def)
  have p: "progress_ok (ba_rx_progress s)" using assms(1) by (simp add: burst_ok_def)
  show ?thesis unfolding note_fragment_def Let_def
    by (intro burst_ok_progress assms(1) progress_ok_update [OF p])
      (use f progress_okD [OF p, of k] in \<open>auto split: option.splits simp: List.insert_def\<close>)
qed

lemma active_update_ok:
  assumes "burst_ok s" "map_of (ba_active s) peer = Some tx" "same_tx tx tx'" "tx_ok tx'"
    "1 \<le> bt_attempts tx'" "bt_attempts tx' \<le> cf_max_attempts (ad_config s)"
  shows "burst_ok (s\<lparr>ba_active := AList.update peer tx' (ba_active s)\<rparr>)"
proof -
  let ?d = "AList.update peer tx' (ba_active s)" and ?c = "cf_queue_capacity (ad_config s)"
  have a: "active_ok (cf_max_attempts (ad_config s)) (ba_active s)" and t: "txs_ok ?c (ba_order s) (outstanding s)"
    using assms(1) by (simp_all add: burst_ok_def)
  have k: "keys_ok (ba_active s)" using a by (simp add: active_ok_def)
  have peer: "bt_peer tx = peer" using a map_of_SomeD [OF assms(2)] by (auto simp: active_ok_def)
  have "bt_peer tx' = peer" using peer assms(3) by (simp add: same_tx_def)
  then have "active_ok (cf_max_attempts (ad_config s)) ?d"
    using a assms(5,6) update_subset [of peer tx' "ba_active s"] by (fastforce simp: active_ok_def)
  moreover have "txs_ok ?c (ba_order s) (mset (ba_queue s) + mset (map snd ?d))"
    using txs_ok_change [OF _ assms(3,4)] t mset_active [OF k assms(2)] mset_update [OF k, of peer tx']
    by (simp add: outstanding_def)
  ultimately show ?thesis using assms(1) by (simp add: burst_ok_def outstanding_def)
qed

lemma active_txD:
  assumes "burst_ok s" "map_of (ba_active s) peer = Some tx"
  shows "bt_peer tx = peer" "tx_ok tx" "1 \<le> bt_attempts tx" "bt_attempts tx \<le> cf_max_attempts (ad_config s)"
proof -
  have mem: "(peer, tx) \<in> set (ba_active s)" using assms(2) by (rule map_of_SomeD)
  then have "tx \<in># outstanding s" by (force simp: outstanding_def)
  then show "tx_ok tx" using assms(1) by (simp add: burst_ok_def txs_ok_def)
  show "bt_peer tx = peer" "1 \<le> bt_attempts tx" "bt_attempts tx \<le> cf_max_attempts (ad_config s)"
    using mem assms(1) by (auto simp: burst_ok_def active_ok_def)
qed

section \<open>One body\<close>

lemma control_indices: "parse_burst_control body = Inr (Some (MissingControl tid missing)) \<Longrightarrow> i \<in> set missing \<Longrightarrow> 0 \<le> i"
  by (auto simp: parse_burst_control_def mask_indices_def Let_def bindE_eq_Inr split: sum.splits option.splits if_splits)

lemma receive_control_ok:
  assumes "\<And>tid missing i. c = MissingControl tid missing \<Longrightarrow> i \<in> set missing \<Longrightarrow> 0 \<le> i"
  shows "keeps burst_ok (receive_control rd peer c)"
proof (rule keepsI)
  fix s assume s: "burst_ok s"
  show "burst_ok (snd (snd (receive_control rd peer c s)))"
  proof (cases "map_of (ba_active s) peer")
    case None
    then show ?thesis using s by (simp add: receive_control_def returnA_def)
  next
    case (Some tx)
    show ?thesis
    proof (cases c)
      case (AckControl tid)
      have ack: "keeps burst_ok (seqA (set_aprs_presence rd peer) (seqA (complete_outbound rd peer tx) (returnA Acknowledged)))"
        by (intro keeping burst.presence_keeps complete_outbound_ok)
      then show ?thesis using keepsD [OF ack s] Some AckControl s by (simp add: receive_control_def returnA_def)
    next
      case (MissingControl tid missing)
      let ?valid = "filter (\<lambda>i. i < int (length (bt_fragments tx))) missing"
      let ?tx = "tx\<lparr>bt_requested := Some ?valid, bt_repair_active := True, bt_repair_indices := Some ?valid\<rparr>"
      let ?P = "\<lambda>s. burst_ok s \<and> map_of (ba_active s) peer = Some tx"
      have "?valid \<noteq> [] \<Longrightarrow> tx_ok ?tx"
        using active_txD(2) [OF s Some] assms [OF MissingControl] by (simp add: tx_ok_def indices_ok_def)
      then have "?valid \<noteq> [] \<Longrightarrow> ?P s \<Longrightarrow> burst_ok (s\<lparr>ba_active := AList.update peer ?tx (ba_active s)\<rparr>)" for s
        using active_update_ok [of s peer tx ?tx] active_txD [of s peer tx] by (simp add: same_tx_def)
      moreover obtain r ev s' where run: "set_aprs_presence rd peer s = (r, ev, s')" by (rule prod_cases3)
      moreover have "?P s'"
        using s Some keepsD [OF burst.presence_keeps s, of rd peer] run
        by (auto simp: set_aprs_presence_def split: option.splits sum.splits)
      ultimately show ?thesis using Some MissingControl s run
        by (cases r) (simp_all add: receive_control_def Let_def returnA_def seqA_def bindA_run)
    qed
  qed
qed

lemma burst_receive_ok: "keeps burst_ok (burst_receive rd peer body)"
proof -
  have "keeps burst_ok (case c of Some c \<Rightarrow> receive_control rd p c | None \<Rightarrow> m)"
    if "parse_burst_control body = Inr c" "keeps burst_ok m" for c p m
    using that control_indices by (cases c) (auto intro!: receive_control_ok)
  moreover have "keeps burst_ok (case parse_fragment body of
       Inl _ \<Rightarrow> commit_receive burst_methods rd p body
     | Inr f \<Rightarrow>
         (let k = (p, af_transaction_id f) in
          seqA (updateA (note_fragment k f (rd_now rd)))
          (bindA (commit_receive burst_methods rd p body) (\<lambda>disposition.
           seqA (whenA (disposition \<in> {Completed, Replayed})
             (seqA (acknowledge_burst p (af_transaction_id f)) (compact_stored_result p (af_transaction_id f) (rd_now rd))))
           (seqA (whenA (disposition \<in> {Completed, Replayed, Invalid, Conflict})
             (updateA (\<lambda>s. s\<lparr>ba_rx_progress := AList.delete k (ba_rx_progress s)\<rparr>)))
           (returnA disposition)))))) " for p
    by (auto simp: Let_def split: sum.splits intro!: keeping burst.commit_receive_keeps note_fragment_ok
        acknowledge_ok compact_ok burst_ok_progress progress_ok_delete dest: parse_fragment_ok simp: burst_ok_def)
  ultimately show ?thesis unfolding burst_receive_def
    by (cases "validate_peer peer"; cases "parse_burst_control body") (simp_all add: keeps_simple)
qed

lemma guarded_receive_ok: "keeps burst_ok (guarded_receive rd peer body)"
proof -
  have "burst_ok s \<Longrightarrow> burst_ok (s\<lparr>ba_rx_progress := AList.delete k (ba_rx_progress s)\<rparr>)" for s k
    by (intro burst_ok_progress progress_ok_delete) (simp_all add: burst_ok_def)
  then show ?thesis unfolding guarded_receive_def
    by (auto split: sum.splits intro!: keeping burst_receive_ok burst.replay_getA_keeps acknowledge_ok compact_ok)
qed

end
