(* ===== verification/Burst_Polling.thy ===== *)
theory Burst_Polling
  imports Burst_Steps
begin

text \<open>
  Polling keeps the invariant of the burst adapter: the loops run over snapshots of the tables they
  change, so each proof carries the entries of the snapshot that are still to come.
\<close>

section \<open>Missing fragments\<close>

lemma poll_progress_ok:
  "progress_ok ps \<Longrightarrow> keeps burst_ok (poll_progress now ps)"
proof (induction now ps rule: poll_progress.induct)
  case (2 now k p ps)
  have p: "1 \<le> rx_total p" "rx_total p \<le> 16" "rx_received p \<noteq> []" "\<forall>i \<in> set (rx_received p). 0 \<le> i \<and> i < rx_total p"
    "progress_ok ps" using 2(4) by (auto simp: progress_ok_def keys_ok_def)
  have "burst_ok s \<Longrightarrow> burst_ok (s\<lparr>ba_rx_progress := AList.update k (p\<lparr>rx_deadline := t\<rparr>) (ba_rx_progress s)\<rparr>)" for s t
    using p by (intro burst_ok_progress progress_ok_update) (simp_all add: burst_ok_def)
  moreover have "burst_ok s \<Longrightarrow> burst_ok (s\<lparr>ba_rx_progress := AList.delete k (ba_rx_progress s)\<rparr>)" for s
    by (intro burst_ok_progress progress_ok_delete) (simp_all add: burst_ok_def)
  ultimately show ?case using 2(1-3) p(5) by (auto intro!: keeping)
qed (simp add: keeps_simple)

section \<open>Repairs and retries\<close>

lemma same_tx_refl [simp]: "same_tx tx tx"
  by (simp add: same_tx_def)

lemma sort_Nil [simp]: "sort (xs :: int list) = [] \<longleftrightarrow> xs = []"
  by (metis length_0_conv length_sort)

lemma due_indices_ok: "tx_ok tx \<Longrightarrow> due_indices now tx = Some (Some is) \<Longrightarrow> indices_ok tx (Some is)"
  unfolding due_indices_def
  by (cases "bt_requested tx"; cases "bt_repair_indices tx" rule: option.exhaust;
      cases "the (bt_repair_indices tx)")
    (auto simp: tx_ok_def indices_ok_def Suc_le_eq set_insort_key sort_Nil split: if_splits)

lemma poll_active_run:
  assumes "burst_ok s" "map_of (ba_active s) peer = Some tx"
  shows "burst_ok (snd (snd (poll_active now peer tx s)))
    \<and> (\<forall>p. p \<noteq> peer \<longrightarrow> map_of (ba_active (snd (snd (poll_active now peer tx s)))) p = map_of (ba_active s) p)"
proof -
  note t = active_txD [OF assms]
  have other: "map_of (ba_active (snd (snd (fail_outbound peer tx' s')))) p = map_of (ba_active s') p"
    if "p \<noteq> peer" for p s' tx'
    using that by (auto simp: fail_outbound_def seqA_def bindA_def updateA_def returnA_def coreA_def drop_active_def
        split: option.splits prod.splits sum.splits)
  have fails: "burst_ok (snd (snd (seqA (fail_outbound peer tx') (returnA ps) s')))
      \<and> (\<forall>p. p \<noteq> peer \<longrightarrow> map_of (ba_active (snd (snd (seqA (fail_outbound peer tx') (returnA ps) s')))) p = map_of (ba_active s') p)"
    if "burst_ok s'" for s' tx' and ps :: "outbound_packet list"
    using other keepsD [OF fail_outbound_ok that] by simp
  have change: "burst_ok (s\<lparr>ba_active := AList.update peer tx' (ba_active s)\<rparr>)"
    if "same_tx tx tx'" "tx_ok tx'" "1 \<le> bt_attempts tx'" "bt_attempts tx' \<le> cf_max_attempts (ad_config s)" for tx'
    by (rule active_update_ok [OF assms that])
  have done': "burst_ok (s\<lparr>ba_active := AList.update peer tx' (ba_active s), ad_last_send := l\<rparr>)"
    if "same_tx tx tx'" "tx_ok tx'" "1 \<le> bt_attempts tx'" "bt_attempts tx' \<le> cf_max_attempts (ad_config s)" for tx' l
    using change [OF that] burst_ok_frame [OF change [OF that], of "s\<lparr>ba_active := AList.update peer tx' (ba_active s), ad_last_send := l\<rparr>"]
    by (simp add: burst_ok_def)
  have ok: "tx_ok (tx\<lparr>bt_requested := r\<rparr>)" "tx_ok (tx\<lparr>bt_requested := r, bt_attempts := n, bt_deadline := d\<rparr>)"
    if "indices_ok tx r" for r n d
    using t(2) that by (auto simp: tx_ok_def indices_ok_def split: option.splits)
  show ?thesis
  proof (cases "due_indices now tx")
    case None
    then show ?thesis using assms(1) by (simp add: poll_active_def returnA_def)
  next
    case (Some due)
    show ?thesis
    proof (cases due)
      case None
      then show ?thesis using Some fails [OF assms(1)] by (simp add: poll_active_def)
    next
      case indices: (Some "is")
      have io: "indices_ok tx (Some is)" "indices_ok tx None" using due_indices_ok [OF t(2)] Some indices
        by (simp_all add: indices_ok_def)
      have "burst_ok (s\<lparr>ba_active := AList.update peer (tx\<lparr>bt_requested := r\<rparr>) (ba_active s)\<rparr>)" if "indices_ok tx r" for r
        by (rule change) (use t ok [OF that] in \<open>simp_all add: same_tx_def\<close>)
      then show ?thesis
        using Some indices fails [of "s\<lparr>ba_active := AList.update peer (tx\<lparr>bt_requested := None\<rparr>) (ba_active s)\<rparr>"] io
          done' [of "tx\<lparr>bt_requested := None, bt_attempts := bt_attempts tx + 1, bt_deadline := now + cf_ack_timeout (ad_config s)\<rparr>"]
          ok [OF io(2)] t
        by (auto simp: poll_active_def Let_def returnA_def same_tx_def)
    qed
  qed
qed

lemma poll_actives_ok:
  "burst_ok s \<Longrightarrow> distinct (map fst txs) \<Longrightarrow> \<forall>(peer, tx) \<in> set txs. map_of (ba_active s) peer = Some tx \<Longrightarrow>
    burst_ok (snd (snd (poll_actives now txs s)))"
proof (induction now txs arbitrary: s rule: poll_actives.induct)
  case (2 now peer tx txs)
  obtain r ev s' where run: "poll_active now peer tx s = (r, ev, s')" by (rule prod_cases3)
  have s': "burst_ok s'" "\<forall>p. p \<noteq> peer \<longrightarrow> map_of (ba_active s') p = map_of (ba_active s) p"
    using poll_active_run [OF 2(2), of peer tx now] 2(4) run by simp_all
  have "map_of (ba_active s') p = Some t" if mem: "(p, t) \<in> set txs" for p t
  proof -
    have "p \<noteq> peer" using 2(3) mem by (metis distinct.simps(2) fst_conv image_eqI list.set_map list.simps(9))
    then show ?thesis using s'(2) 2(4) mem by simp blast
  qed
  then have "\<forall>(peer, tx) \<in> set txs. map_of (ba_active s') peer = Some tx" by blast
  then have "burst_ok (snd (snd (poll_actives now txs s')))" using 2(1) [of s'] s'(1) 2(3) by simp
  then show ?case using run s'(1)
by (cases r) (simp_all add: bindA_run case_prod_unfold)
qed (simp add: returnA_def)

section \<open>Starting queued transactions\<close>

lemma tx_insert_mset: "mset (tx_insert tx txs) = add_mset tx (mset txs)"
  by (induction txs) auto

lemma by_priority_mset: "mset (by_priority txs) = mset txs"
  by (induction txs) (simp_all add: by_priority_def tx_insert_mset)

lemma burst_queue_distinct: "burst_ok s \<Longrightarrow> distinct (ba_queue s)"
proof -
  assume s: "burst_ok s"
  have "mset (ba_queue s) \<subseteq># outstanding s" by (simp add: outstanding_def)
  then have "once bt_order (mset (ba_queue s))" using s once_mono by (auto simp: burst_ok_def txs_ok_def)
  then have "count (mset (map bt_order (ba_queue s))) n \<le> 1" for n by (simp add: once_def)
  then have "distinct (map bt_order (ba_queue s))"
    by (metis One_nat_def count_mset_0_iff distinct_count_atmost_1 le_Suc_eq le_zero_eq)
  then show ?thesis by (simp add: distinct_map)
qed

lemma start_one:
  assumes "burst_ok s" "tx \<in> set (ba_queue s)" "map_of (ba_active s) (bt_peer tx) = None"
  shows "burst_ok (s\<lparr>ba_queue := remove1 tx (ba_queue s),
    ba_active := AList.update (bt_peer tx) (tx\<lparr>bt_attempts := 1, bt_deadline := d\<rparr>) (ba_active s), ad_last_send := l\<rparr>)"
proof -
  let ?tx = "tx\<lparr>bt_attempts := 1, bt_deadline := d\<rparr>" and ?d = "ba_active s"
  let ?u = "AList.update (bt_peer tx) ?tx ?d"
  have t: "txs_ok (cf_queue_capacity (ad_config s)) (ba_order s) (outstanding s)"
    and a: "active_ok (cf_max_attempts (ad_config s)) ?d" "1 \<le> cf_max_attempts (ad_config s)"
    using assms(1) by (simp_all add: burst_ok_def)
  have k: "keys_ok ?d" using a by (simp add: active_ok_def)
  have "mset (map snd ?u) = add_mset ?tx (mset (map snd ?d))"
    using mset_update [OF k] assms(3) by (simp add: delete_absent map_of_eq_None_iff)
  moreover have "outstanding s = add_mset tx (mset (remove1 tx (ba_queue s)) + mset (map snd ?d))"
    using assms(2) by (simp add: outstanding_def)
  moreover have "tx_ok tx" using t assms(2) by (simp add: txs_ok_def outstanding_def)
  then have "tx_ok ?tx" by (auto simp: tx_ok_def indices_ok_def split: option.splits)
  ultimately have "txs_ok (cf_queue_capacity (ad_config s)) (ba_order s) (mset (remove1 tx (ba_queue s)) + mset (map snd ?u))"
    using txs_ok_change [of _ _ tx _ ?tx] t by (simp add: same_tx_def)
  moreover have "active_ok (cf_max_attempts (ad_config s)) ?u"
    using a update_subset [of "bt_peer tx" ?tx ?d] by (fastforce simp: active_ok_def)
  ultimately show ?thesis using assms(1) by (simp add: burst_ok_def outstanding_def)
qed

lemma start_candidates_ok:
  "burst_ok s \<Longrightarrow> distinct txs \<Longrightarrow> set txs \<subseteq> set (ba_queue s) \<Longrightarrow> burst_ok (snd (snd (start_candidates now txs s)))"
proof (induction now txs arbitrary: s rule: start_candidates.induct)
  case (2 now tx txs)
  let ?wait = "map_of (ba_active s) (bt_peer tx) \<noteq> None \<or> \<not> may_send (bt_peer tx) now s"
  show ?case
  proof (cases ?wait)
    case True
    then show ?thesis using 2 by (simp del: not_None_eq)
  next
    case False
    let ?s = "s\<lparr>ba_queue := remove1 tx (ba_queue s),
       ba_active := AList.update (bt_peer tx) (tx\<lparr>bt_attempts := 1, bt_deadline := now + cf_ack_timeout (ad_config s)\<rparr>) (ba_active s),
       ad_last_send := (ad_last_send s)(bt_peer tx := Some now)\<rparr>"
    have "set txs \<subseteq> set (ba_queue ?s)" using 2(4,5) burst_queue_distinct [OF 2(3)] by auto
    moreover have "burst_ok ?s" using start_one [OF 2(3)] 2(5) False by simp
    ultimately have "burst_ok (snd (snd (start_candidates now txs ?s)))" using 2(2) [OF False] 2(4) by simp
    then show ?thesis using False by simp
  qed
qed (simp add: returnA_def)

section \<open>A poll\<close>

lemma bindA_state:
  assumes "P (snd (snd (m s)))" "\<And>x ev s'. m s = (Inr x, ev, s') \<Longrightarrow> P s' \<Longrightarrow> P (snd (snd (f x s')))"
  shows "P (snd (snd (bindA m f s)))"
proof -
  obtain r ev s' where m: "m s = (r, ev, s')" by (rule prod_cases3)
  show ?thesis using assms m by (cases r) (simp_all add: bindA_run case_prod_unfold)
qed

lemma burst_ok_immediate: "burst_ok s \<Longrightarrow> burst_ok (s\<lparr>ad_immediate := ps\<rparr>)"
  by (rule burst_ok_frame [of s]) (simp_all add: burst_ok_tables)

lemma expire_all_ok:
  assumes "burst_ok s" shows "burst_ok (expire_all now s)"
proof -
  have "reassembler_ok (reassembler_expire now (ad_reassembly s))"
    using burst_ok_tables(1) [OF assms] ra.expire_length [of "ra_ttl (ad_reassembly s)" now "ra_entries (ad_reassembly s)"]
      ra.expire_ok ra.expire_subset [of "ra_ttl (ad_reassembly s)" now "ra_entries (ad_reassembly s)"]
    by (fastforce simp: reassembler_ok_def reassembler_expire_def table_ok_def)
  then show ?thesis
    by (intro burst_ok_frame [OF assms]) (simp_all add: expire_all_def replay_expire_ok burst_ok_tables assms)
qed

lemma burst_ok_snapshots:
  assumes "burst_ok s"
  shows "progress_ok (ba_rx_progress s)" "distinct (map fst (ba_active s))"
    "\<forall>(peer, tx) \<in> set (ba_active s). map_of (ba_active s) peer = Some tx"
    "distinct (by_priority (ba_queue s))" "set (by_priority (ba_queue s)) \<subseteq> set (ba_queue s)"
proof -
  show "progress_ok (ba_rx_progress s)" using assms by (simp add: burst_ok_def)
  have "keys_ok (ba_active s)" using assms by (simp add: burst_ok_def active_ok_def)
  then show "distinct (map fst (ba_active s))" "\<forall>(peer, tx) \<in> set (ba_active s). map_of (ba_active s) peer = Some tx"
    by (auto simp: keys_ok_def)
  show "distinct (by_priority (ba_queue s))"
    using burst_queue_distinct [OF assms] by_priority_mset by (metis mset_eq_imp_distinct_iff)
  show "set (by_priority (ba_queue s)) \<subseteq> set (ba_queue s)"
    by (metis by_priority_mset set_mset_mset subset_refl)
qed

text \<open>The two loops on the state they are reached in, and what follows them.\<close>

lemma poll_starts_ok: "burst_ok s \<Longrightarrow> burst_ok (snd (snd (bindA (readA (\<lambda>s. by_priority (ba_queue s))) (\<lambda>candidates.
    bindA (start_candidates now candidates) (\<lambda>started. seqA (updateA (expire_all now)) (returnA (ps @ started)))) s)))"
  by (subst bindA_read, rule bindA_state)
    (simp_all add: start_candidates_ok burst_ok_snapshots expire_all_ok returnA_def)

lemma burst_poll_ok: "keeps burst_ok (burst_poll now)"
proof (rule keepsI)
  fix s assume s: "burst_ok s"
  let ?s = "s\<lparr>ad_immediate := []\<rparr>"
  have "burst_ok (snd (snd (bindA (poll_progress now (ba_rx_progress s)) (\<lambda>requests.
      bindA (readA ba_active) (\<lambda>active.
      bindA (poll_actives now active) (\<lambda>repairs.
      bindA (readA (\<lambda>s. by_priority (ba_queue s))) (\<lambda>candidates.
      bindA (start_candidates now candidates) (\<lambda>started.
      seqA (updateA (expire_all now)) (returnA (ad_immediate s @ requests @ repairs @ started))))))) ?s)))"
  proof (rule bindA_state)
    show "burst_ok (snd (snd (poll_progress now (ba_rx_progress s) ?s)))"
      by (rule keepsD [OF poll_progress_ok [OF burst_ok_snapshots(1) [OF s]] burst_ok_immediate [OF s]])
  next
    fix requests ev and s2 :: burst_adapter assume s2: "burst_ok s2"
    show "burst_ok (snd (snd (bindA (readA ba_active) (\<lambda>active.
      bindA (poll_actives now active) (\<lambda>repairs.
      bindA (readA (\<lambda>s. by_priority (ba_queue s))) (\<lambda>candidates.
      bindA (start_candidates now candidates) (\<lambda>started.
      seqA (updateA (expire_all now)) (returnA (ad_immediate s @ requests @ repairs @ started)))))) s2)))"
    proof (subst bindA_read, rule bindA_state)
      show "burst_ok (snd (snd (poll_actives now (ba_active s2) s2)))"
        by (rule poll_actives_ok [OF s2 burst_ok_snapshots(2,3) [OF s2]])
    next
      fix repairs ev and s3 :: burst_adapter assume s3: "burst_ok s3"
      show "burst_ok (snd (snd (bindA (readA (\<lambda>s. by_priority (ba_queue s))) (\<lambda>candidates.
        bindA (start_candidates now candidates) (\<lambda>started.
        seqA (updateA (expire_all now)) (returnA (ad_immediate s @ requests @ repairs @ started)))) s3)))"
        using poll_starts_ok [OF s3, of now "ad_immediate s @ requests @ repairs"] by simp
    qed
  qed
  then show "burst_ok (snd (snd (burst_poll now s)))" by (simp add: burst_poll_def)
qed

section \<open>Reachable states\<close>

lemma new_burst_ok:
  assumes "new_burst_adapter repair final core config service rt l = Inr s" "check_config config = Inr config"
  shows "burst_ok s"
proof -
  obtain ra rc where t: "new_reassembler (cf_reassembly_ttl config) (cf_max_reassemblies config) = Inr ra"
    "new_replay_cache (cf_replay_ttl config) (cf_max_replays config) (cf_max_replays_per_peer config) = Inr rc"
    and s: "ad_config s = config" "ba_queue s = []" "ba_active s = []" "ba_rx_progress s = []"
      "ad_reassembly s = ra" "ad_replay s = rc"
    using assms(1) by (auto simp: new_burst_adapter_def new_adapter_def bindE_eq_Inr adapter.extend_def
        burst_adapter.fields_def split: if_splits)
  have "reassembler_ok ra" "replay_ok rc"
    using t by (auto simp: new_reassembler_def new_replay_cache_def reassembler_ok_def replay_ok_def table_ok_def
        peer_count_def split: if_splits)
  moreover have "1 \<le> cf_max_attempts config" "0 \<le> cf_queue_capacity config"
    using assms(2) by (auto simp: check_config_def split: if_splits)
  ultimately show ?thesis using s
    by (simp add: burst_ok_def txs_ok_def outstanding_def active_ok_def progress_ok_def once_def load_def)
qed

text \<open>
  What can happen to an adapter: a body arrives, it is polled, the core changes and announces a
  message another client sent, the router changes, the link is lost, activity is queried.
\<close>

inductive burst_step :: "burst_adapter \<Rightarrow> burst_adapter \<Rightarrow> bool" where
  received: "guarded_receive rd peer body s = (disposition, ev, s') \<Longrightarrow> burst_step s s'"
| polled: "burst_poll now s = (packets, ev, s') \<Longrightarrow> burst_step s s'"
| announced: "deliver_event burst_methods event (s\<lparr>ad_core := sv\<rparr>) = (r, ev, s') \<Longrightarrow> burst_step s s'"
| rerouted: "burst_step s (s\<lparr>ad_router := rt\<rparr>)"
| lost: "connection_lost s = (r, ev, s') \<Longrightarrow> burst_step s s'"
| queried: "is_active peer now s = (answer, ev, s') \<Longrightarrow> burst_step s s'"
| closed: "burst_step s (close_adapter s)"

inductive_cases burst_stepE: "burst_step s s'"

inductive burst_reachable :: "burst_adapter \<Rightarrow> bool" where
  initial: "new_burst_adapter repair final core config service rt l = Inr s \<Longrightarrow> check_config config = Inr config
    \<Longrightarrow> burst_reachable s"
| later: "burst_reachable s \<Longrightarrow> burst_step s s' \<Longrightarrow> burst_reachable s'"

lemma connection_lost_ok: "keeps burst_ok connection_lost"
proof -
  have "burst_ok s \<Longrightarrow> burst_ok (s\<lparr>ad_queue := [], ad_pending := [], ad_immediate := []\<rparr>)" for s
    by (rule burst_ok_frame [of s]) (simp_all add: burst_ok_tables)
  then show ?thesis unfolding connection_lost_def by (intro keeping burst_core_keeps)
qed

lemma is_active_ok: "keeps burst_ok (is_active peer now)"
proof (rule keepsI)
  fix s :: burst_adapter assume s: "burst_ok s"
  show "burst_ok (snd (snd (is_active peer now s)))"
    by (intro burst_ok_frame [OF s]) (simp_all add: is_active_def burst_ok_tables s split: option.split prod.split)
qed

lemma burst_step_ok: "burst_step s s' \<Longrightarrow> burst_ok s \<Longrightarrow> burst_ok s'"
  by (erule burst_stepE)
    (auto intro: keeps_run [OF guarded_receive_ok] keeps_run [OF burst_poll_ok] burst_ok_core
      keeps_run [OF burst.deliver_event_keeps] keeps_run [OF connection_lost_ok] keeps_run [OF is_active_ok]
      burst.router_keeps simp: close_adapter_def)

lemma burst_reachable_ok: "burst_reachable s \<Longrightarrow> burst_ok s"
  by (induction rule: burst_reachable.induct) (auto intro: new_burst_ok burst_step_ok)

end
