(* ===== verification/Burst_Peers.thy ===== *)
theory Burst_Peers
  imports Burst_Polling
begin

text \<open>
  A poll, peer by peer. \<open>peer_poll\<close> says what one poll does to what the adapter holds for one peer:
  its active transaction, its queue and the time it was sent sent to. The loops of \<open>poll\<close> refine
  it for all peers at once, and raise nothing on a state whose inbound transaction IDs fit a byte
  and whose deliveries name stored messages. From this follows when a transaction is given up.
\<close>

section \<open>Deliveries that can be marked\<close>

definition known_delivery :: "database \<Rightarrow> delivery option \<Rightarrow> bool" where
  "known_delivery db d \<longleftrightarrow> (case d of None \<Rightarrow> True | Some (p, n) \<Rightarrow> message_exists db p n)"

lemma message_exists_bounds:
  assumes "db_ok db" "message_exists db p n"
  shows "utf8_encode p \<noteq> None" "- (2 ^ 63) \<le> n" "n < 2 ^ 63"
proof -
  obtain r where r: "r \<in> set (messages db)" "mr_recipient r = SText p" "mr_sequence r = n"
    using assms(2) by (auto simp: message_exists_def)
  then have "well_typed r" using assms(1) by (auto simp: db_ok_def messages_ok_def)
  then have "utf8_encode p \<noteq> None \<and> 1 \<le> n \<and> n \<le> MAX_U32"
    using r by (auto simp: well_typed_def message_check_def split: sqlval.splits)
  then show "utf8_encode p \<noteq> None" "- (2 ^ 63) \<le> n" "n < 2 ^ 63" by auto
qed

lemma status_texts: "bind_texts [lit ''aprs'', lit ''failed''] = Inr ()"
  by (simp add: lit_def utf8_char_def)

text \<open>A delivery that ended: delivered, or given up.\<close>

definition settled :: "database \<Rightarrow> delivery option \<Rightarrow> bool" where
  "settled db d \<longleftrightarrow> (case d of None \<Rightarrow> True | Some (p, n) \<Rightarrow>
     \<exists>st t. delivery_status db p n (lit ''aprs'') = Some (st, t) \<and> st \<in> {lit ''failed'', lit ''delivered''})"

lemma settled_update:
  assumes "st \<in> {lit ''failed'', lit ''delivered''}"
  shows "settled db d \<Longrightarrow> settled (db\<lparr>deliveries := update_delivery p n tr st t (deliveries db)\<rparr>) d"
    "settled (db\<lparr>deliveries := update_delivery p n (lit ''aprs'') st t (deliveries db)\<rparr>) (Some (p, n))"
  using assms by (auto simp: settled_def update_delivery_status split: option.splits)

lemma set_failed_run:
  assumes "db_ok db" "message_exists db p n"
  shows "\<exists>changed db'. set_delivery p n (lit ''aprs'') (lit ''failed'') None db = (Inr changed, db')
    \<and> db_ok db' \<and> messages db' = messages db \<and> settled db' (Some (p, n)) \<and> (\<forall>d. settled db d \<longrightarrow> settled db' d)"
proof -
  obtain r db' where s: "set_delivery p n (lit ''aprs'') (lit ''failed'') None db = (r, db')" by fastforce
  have "\<exists>k db'. upsert_delivery (new_delivery p n (lit ''aprs'') (lit ''failed'') None) db = Inr (k, db')"
    using assms(2) by (auto simp: upsert_delivery_def delivery_statuses_def split: option.splits)
  moreover have "bind_text p = Inr ()" "bind_int n = Inr ()" using message_exists_bounds [OF assms] by simp_all
  ultimately have "\<exists>changed. r = Inr changed"
    using s status_texts by (auto simp: set_delivery_def with_connection_def sql_simps
        simp del: bind_text_Inr bind_int_Inr bind_texts_Inr)
  then have run: "r = Inr (delivery_allowed db p n (lit ''aprs'') (lit ''failed''))" "db_ok db'"
    "db' = (if delivery_allowed db p n (lit ''aprs'') (lit ''failed'')
      then db\<lparr>deliveries := update_delivery p n (lit ''aprs'') (lit ''failed'') None (deliveries db)\<rparr> else db)"
    using set_delivery_outcome [OF assms(1) s] by auto
  moreover have "\<not> delivery_allowed db p n (lit ''aprs'') (lit ''failed'') \<Longrightarrow> settled db (Some (p, n))"
    by (auto simp: delivery_allowed_def delivery_may_change_def settled_def lit_def split: option.splits)
  ultimately show ?thesis using s by (auto simp: settled_update)
qed

definition calm :: "burst_adapter \<Rightarrow> bool" where
  "calm s \<longleftrightarrow> (\<forall>(k, p) \<in> set (ba_rx_progress s). transaction_byte (snd k))
     \<and> sv_message_store (ad_core s) \<and> db_ok (sv_db (ad_core s))
     \<and> (\<forall>tx \<in># outstanding s. known_delivery (sv_db (ad_core s)) (bt_delivery tx))"

text \<open>A change of the core that only marks deliveries.\<close>

definition marks :: "server \<Rightarrow> server \<Rightarrow> bool" where
  "marks sv sv' \<longleftrightarrow> sv_message_store sv' = sv_message_store sv \<and> db_ok (sv_db sv')
     \<and> messages (sv_db sv') = messages (sv_db sv) \<and> (\<forall>d. settled (sv_db sv) d \<longrightarrow> settled (sv_db sv') d)"

lemma marks_refl: "db_ok (sv_db sv) \<Longrightarrow> marks sv sv"
  by (simp add: marks_def)

lemma marks_trans: "marks a b \<Longrightarrow> marks b c \<Longrightarrow> marks a c"
  by (simp add: marks_def)

lemma mark_failed_run:
  assumes "sv_message_store sv" "db_ok (sv_db sv)" "known_delivery (sv_db sv) (Some d)"
  shows "\<exists>sv'. mark_aprs_failed (fst d) (snd d) sv = (Inr (), [], sv') \<and> marks sv sv' \<and> settled (sv_db sv') (Some d)"
  using assms set_failed_run [of "sv_db sv" "fst d" "snd d"]
  by (auto simp: mark_aprs_failed_def mark_aprs_def known_delivery_def marks_def split: prod.splits)

lemma known_delivery_frame: "messages db' = messages db \<Longrightarrow> known_delivery db' d = known_delivery db d"
  by (auto simp: known_delivery_def message_exists_def split: option.splits)

section \<open>One peer\<close>

type_synonym peer_state = "burst_tx option \<times> burst_tx list \<times> rat option"

definition peer_view :: "pystr \<Rightarrow> burst_adapter \<Rightarrow> peer_state" where
  "peer_view p s = (map_of (ba_active s) p, filter (\<lambda>tx. bt_peer tx = p) (ba_queue s), ad_last_send s p)"

definition ready_at :: "adapter_config \<Rightarrow> rat \<Rightarrow> rat option \<Rightarrow> bool" where
  "ready_at c now sent = (case sent of None \<Rightarrow> True | Some t \<Rightarrow> now - t \<ge> cf_min_interval c)"

definition retry_step :: "adapter_config \<Rightarrow> rat \<Rightarrow> peer_state \<Rightarrow> peer_state" where
  "retry_step c now = (\<lambda>(active, queue, sent). case active of None \<Rightarrow> (None, queue, sent) | Some tx \<Rightarrow>
     (case due_indices now tx of
        None \<Rightarrow> (Some tx, queue, sent)
      | Some None \<Rightarrow> (None, queue, sent)
      | Some (Some is) \<Rightarrow>
          if bt_attempts tx \<ge> cf_max_attempts c then (None, queue, sent)
          else if \<not> ready_at c now sent then (Some (tx\<lparr>bt_requested := Some is\<rparr>), queue, sent)
          else (Some (tx\<lparr>bt_requested := None, bt_attempts := bt_attempts tx + 1,
                 bt_deadline := now + cf_ack_timeout c\<rparr>), queue, Some now)))"

definition start_step :: "adapter_config \<Rightarrow> rat \<Rightarrow> peer_state \<Rightarrow> peer_state" where
  "start_step c now = (\<lambda>(active, queue, sent).
     case by_priority queue of
       [] \<Rightarrow> (active, queue, sent)
     | tx # _ \<Rightarrow>
         if active \<noteq> None \<or> \<not> ready_at c now sent then (active, queue, sent)
         else (Some (tx\<lparr>bt_attempts := 1, bt_deadline := now + cf_ack_timeout c\<rparr>), remove1 tx queue, Some now))"

definition peer_poll :: "adapter_config \<Rightarrow> rat \<Rightarrow> peer_state \<Rightarrow> peer_state" where
  "peer_poll c now = start_step c now \<circ> retry_step c now"

section \<open>The loops refine it\<close>

lemma missing_mask_total: "\<forall>i \<in> set is. 0 \<le> i \<and> i < 16 \<Longrightarrow> \<exists>m. missing_mask is b = Inr m"
  by (induction "is" b rule: missing_mask.induct) auto

lemma encode_missing_total:
  assumes "transaction_byte tid" "\<forall>i \<in> set is. 0 \<le> i \<and> i < 16" "is \<noteq> []"
  shows "\<exists>b. encode_missing tid is = Inr b"
proof -
  obtain m where m: "missing_mask is 0 = Inr m" using missing_mask_total assms(2) by blast
  have "bit m (nat (hd is))" using missing_mask_run [OF m] assms(2,3) by simp
  then have "m \<noteq> 0" by auto
  moreover obtain t where "transaction_code tid = Inr t" using assms(1)
    by (auto simp: transaction_code_iff transaction_byte_def)
  ultimately show ?thesis using m by (simp add: encode_missing_def)
qed

lemma calm_progress:
  assumes "calm s" "\<forall>(k, p) \<in> set d. transaction_byte (snd k)" shows "calm (s\<lparr>ba_rx_progress := d\<rparr>)"
  using assms by (simp add: calm_def outstanding_def)

lemma peer_view_progress [simp]: "peer_view p (s\<lparr>ba_rx_progress := d\<rparr>) = peer_view p s"
  by (simp add: peer_view_def)


lemma poll_progress_total:
  assumes "progress_ok ps" "\<forall>(k, p) \<in> set ps. transaction_byte (snd k)" "calm s"
  shows "\<exists>out s'. poll_progress now ps s = (Inr out, [], s') \<and> calm s' \<and> ad_config s' = ad_config s
    \<and> ad_core s' = ad_core s \<and> (\<forall>p. peer_view p s' = peer_view p s)"
  using assms
proof (induction now ps arbitrary: s rule: poll_progress.induct)
  case (2 now k p ps)
  have k: "transaction_byte (snd k)" and rest: "progress_ok ps" "\<forall>(k, p) \<in> set ps. transaction_byte (snd k)"
    and p: "rx_total p \<le> 16"
    using "2.prems" by (auto simp: progress_ok_def keys_ok_def)
  have d: "\<forall>(k, p) \<in> set (ba_rx_progress s). transaction_byte (snd k)" using "2.prems"(3) by (simp add: calm_def)
  show ?case
  proof (cases "now < rx_deadline p")
    case True
    then show ?thesis using "2.IH"(1) [OF True rest "2.prems"(3)] by simp
  next
    case late: False
    show ?thesis
    proof (cases "rx_missing p = []")
      case True
      have "calm (s\<lparr>ba_rx_progress := AList.delete k (ba_rx_progress s)\<rparr>)"
        using d delete_subset [of k "ba_rx_progress s"] by (intro calm_progress "2.prems"(3)) blast
      from "2.IH"(2) [OF late True rest this] late True show ?thesis by simp
    next
      case False
      have "\<forall>i \<in> set (rx_missing p). 0 \<le> i \<and> i < 16" using p by (auto simp: rx_missing_def)
      then obtain b where b: "encode_missing (snd k) (rx_missing p) = Inr b"
        using encode_missing_total [OF k _ False] by blast
      let ?s = "s\<lparr>ba_rx_progress := AList.update k (p\<lparr>rx_deadline := now + grace p s\<rparr>) (ba_rx_progress s)\<rparr>"
      have "calm ?s" using d k update_subset [of k _ "ba_rx_progress s"] by (intro calm_progress "2.prems"(3)) fastforce
      from "2.IH"(3) [OF late False rest this] late False b show ?thesis
        by (auto simp: bindA_run returnA_def)
    qed
  qed
qed (simp add: returnA_def)

lemma may_send_ready: "may_send peer now s = ready_at (ad_config s) now (ad_last_send s peer)"
  by (simp add: may_send_def ready_at_def)

lemma calm_frame:
  assumes "calm s" "ba_rx_progress s' = ba_rx_progress s" "marks (ad_core s) (ad_core s')"
    "bt_delivery ` set_mset (outstanding s') \<subseteq> bt_delivery ` set_mset (outstanding s)"
  shows "calm s'"
proof -
  have "known_delivery (sv_db (ad_core s)) (bt_delivery tx)" if "tx \<in># outstanding s'" for tx
    using that assms(1,4) by (auto simp: calm_def image_subset_iff)
  then show ?thesis using assms(1-3) known_delivery_frame [of "sv_db (ad_core s')" "sv_db (ad_core s)"]
    by (simp add: calm_def marks_def)
qed

lemma outstanding_set: "set_mset (outstanding s) = set (ba_queue s) \<union> snd ` set (ba_active s)"
  by (simp add: outstanding_def)

lemma fail_total:
  assumes "calm s" "map_of (ba_active s) peer = Some t" "bt_order t = bt_order tx" "bt_delivery t = bt_delivery tx"
  shows "\<exists>s'. fail_outbound peer tx s = (Inr (), [], s') \<and> calm s' \<and> marks (ad_core s) (ad_core s')
    \<and> settled (sv_db (ad_core s')) (bt_delivery tx) \<and> ad_config s' = ad_config s
    \<and> ba_active s' = AList.delete peer (ba_active s) \<and> ba_queue s' = ba_queue s \<and> ad_last_send s' = ad_last_send s"
proof -
  have t: "t \<in># outstanding s" using map_of_SomeD [OF assms(2)] by (force simp: outstanding_set)
  let ?s = "s\<lparr>ba_active := AList.delete peer (ba_active s)\<rparr>"
  have drop: "drop_active peer tx s = ?s" using assms(2,3) by (simp add: drop_active_def)
  have sub: "bt_delivery ` set_mset (outstanding s') \<subseteq> bt_delivery ` set_mset (outstanding s)"
    if "ba_active s' = AList.delete peer (ba_active s)" "ba_queue s' = ba_queue s" for s'
    using that delete_subset [of peer "ba_active s"] by (auto simp: outstanding_set)
  show ?thesis
  proof (cases "bt_delivery tx")
    case None
    let ?f = "?s\<lparr>ad_failed_packets := keep_last (cf_event_history_capacity (ad_config s)) (ad_failed_packets s @ bt_packets tx)\<rparr>"
    have "calm ?f" using assms(1) by (intro calm_frame [OF assms(1)] sub) (auto simp: calm_def marks_refl)
    moreover have "fail_outbound peer tx s = (Inr (), [], ?f)"
      using None by (simp add: fail_outbound_def drop) (simp add: updateA_def)
    moreover have "marks (ad_core s) (ad_core s)" using assms(1) by (simp add: calm_def marks_refl)
    ultimately show ?thesis using None by (auto simp: settled_def)
  next
    case (Some d)
    have "sv_message_store (ad_core s)" "db_ok (sv_db (ad_core s))" "known_delivery (sv_db (ad_core s)) (Some d)"
      using assms(1,4) t Some by (auto simp: calm_def)
    from mark_failed_run [OF this] obtain sv' where sv': "mark_aprs_failed (fst d) (snd d) (ad_core s) = (Inr (), [], sv')"
      "marks (ad_core s) sv'" "settled (sv_db sv') (Some d)" by blast
    let ?f = "?s\<lparr>ad_core := sv', ad_failed_packets := keep_last (cf_event_history_capacity (ad_config s))
      (ad_failed_packets s @ bt_packets tx)\<rparr>"
    have "calm ?f" using sv' by (intro calm_frame [OF assms(1)] sub) simp_all
    moreover have "markA_failed d ?s = (Inr (), [], ?s\<lparr>ad_core := sv'\<rparr>)" using sv'(1) by (simp add: coreA_def)
    then have "fail_outbound peer tx s = (Inr (), [], ?f)"
      using Some by (simp add: fail_outbound_def drop) (simp add: seqA_def bindA_run updateA_def)
    ultimately show ?thesis using sv'(2,3) Some by auto
  qed
qed

lemma peer_view_fewer: "ba_active s' = AList.delete peer (ba_active s) \<Longrightarrow> ba_queue s' = ba_queue s \<Longrightarrow>
    ad_last_send s' = ad_last_send s \<Longrightarrow>
    peer_view p s' = (if p = peer then (None, snd (peer_view p s)) else peer_view p s)"
  by (simp add: peer_view_def)

lemma poll_active_total:
  assumes "burst_ok s" "calm s" "map_of (ba_active s) peer = Some tx"
  shows "\<exists>out s'. poll_active now peer tx s = (Inr out, [], s') \<and> burst_ok s' \<and> calm s' \<and> ad_config s' = ad_config s
    \<and> marks (ad_core s) (ad_core s')
    \<and> (fst (retry_step (ad_config s) now (peer_view peer s)) = None \<longrightarrow> settled (sv_db (ad_core s')) (bt_delivery tx))
    \<and> (\<forall>p. peer_view p s' = (if p = peer then retry_step (ad_config s) now (peer_view p s) else peer_view p s))"
proof -
  have m: "marks (ad_core s) (ad_core s)" using assms(2) by (simp add: calm_def marks_refl)
  have ok: "burst_ok (snd (snd (poll_active now peer tx s)))" using poll_active_run [OF assms(1,3)] by blast
  have view: "peer_view peer s = (Some tx, filter (\<lambda>tx. bt_peer tx = peer) (ba_queue s), ad_last_send s peer)"
    using assms(3) by (simp add: peer_view_def)
  have change: "calm (s\<lparr>ba_active := AList.update peer tx' (ba_active s), ad_last_send := l\<rparr>)"
    if "bt_delivery tx' = bt_delivery tx" for tx' l
  proof (rule calm_frame [OF assms(2)])
    have "tx \<in> snd ` set (ba_active s)" using map_of_SomeD [OF assms(3)] by force
    moreover have "snd ` set (AList.update peer tx' (ba_active s)) \<subseteq> insert tx' (snd ` set (ba_active s))"
      using update_subset [of peer tx' "ba_active s"] by force
    ultimately show "bt_delivery ` set_mset (outstanding (s\<lparr>ba_active := AList.update peer tx' (ba_active s), ad_last_send := l\<rparr>))
        \<subseteq> bt_delivery ` set_mset (outstanding s)"
      using that by (auto simp: outstanding_set)
  qed (use m in simp_all)
  show ?thesis
  proof (cases "due_indices now tx")
    case None
    then show ?thesis using assms view m by (auto simp: poll_active_def returnA_def retry_step_def)
  next
    case (Some due)
    show ?thesis
    proof (cases due)
      case None
      obtain s' where "fail_outbound peer tx s = (Inr (), [], s')" "calm s'" "ad_config s' = ad_config s" "marks (ad_core s) (ad_core s')"
        "settled (sv_db (ad_core s')) (bt_delivery tx)" "ba_active s' = AList.delete peer (ba_active s)" "ba_queue s' = ba_queue s" "ad_last_send s' = ad_last_send s"
        using fail_total [OF assms(2,3), of tx] by blast
      then show ?thesis using Some None ok view peer_view_fewer [of s' peer s]
        by (auto simp: poll_active_def seqA_def bindA_run returnA_def retry_step_def)
    next
      case indices: (Some "is")
      consider (out) "bt_attempts tx \<ge> cf_max_attempts (ad_config s)"
        | (wait) "\<not> bt_attempts tx \<ge> cf_max_attempts (ad_config s)" "\<not> may_send peer now s"
        | (sent) "\<not> bt_attempts tx \<ge> cf_max_attempts (ad_config s)" "may_send peer now s" by blast
      then show ?thesis
      proof cases
        case out
        let ?t = "tx\<lparr>bt_requested := None\<rparr>"
        let ?s = "s\<lparr>ba_active := AList.update peer ?t (ba_active s)\<rparr>"
        have "calm ?s" using change [of ?t "ad_last_send s"] by simp
        then obtain s' where "fail_outbound peer ?t ?s = (Inr (), [], s')" "calm s'" "ad_config s' = ad_config s" "marks (ad_core s) (ad_core s')"
          "settled (sv_db (ad_core s')) (bt_delivery tx)" "ba_active s' = AList.delete peer (ba_active s)" "ba_queue s' = ba_queue s" "ad_last_send s' = ad_last_send s"
          using fail_total [of ?s peer ?t ?t] by auto
        then show ?thesis using Some indices out ok view peer_view_fewer [of s' peer s]
          by (auto simp: poll_active_def Let_def seqA_def [of "fail_outbound _ _"] bindA_run returnA_def retry_step_def)
      next
        case wait
        have "calm (s\<lparr>ba_active := AList.update peer (tx\<lparr>bt_requested := Some is\<rparr>) (ba_active s)\<rparr>)"
          using change [of "tx\<lparr>bt_requested := Some is\<rparr>" "ad_last_send s"] by simp
        then show ?thesis using Some indices wait ok view m
          by (auto simp: poll_active_def Let_def returnA_def retry_step_def may_send_ready peer_view_def)
      next
        case sent
        then show ?thesis using Some indices ok view m
          by (auto simp: poll_active_def Let_def returnA_def retry_step_def may_send_ready peer_view_def intro!: change)
      qed
    qed
  qed
qed

lemma poll_actives_total:
  assumes "burst_ok s" "calm s" "distinct (map fst txs)" "\<forall>(peer, tx) \<in> set txs. map_of (ba_active s) peer = Some tx"
  shows "\<exists>out s'. poll_actives now txs s = (Inr out, [], s') \<and> burst_ok s' \<and> calm s' \<and> ad_config s' = ad_config s
    \<and> marks (ad_core s) (ad_core s')
    \<and> (\<forall>(p, tx) \<in> set txs. fst (retry_step (ad_config s) now (peer_view p s)) = None
        \<longrightarrow> settled (sv_db (ad_core s')) (bt_delivery tx))
    \<and> (\<forall>p. peer_view p s' = (if p \<in> fst ` set txs then retry_step (ad_config s) now (peer_view p s) else peer_view p s))"
  using assms
proof (induction now txs arbitrary: s rule: poll_actives.induct)
  case (2 now peer tx txs)
  obtain out s' where run: "poll_active now peer tx s = (Inr out, [], s')" "burst_ok s'" "calm s'" "ad_config s' = ad_config s"
    "marks (ad_core s) (ad_core s')"
    and gone: "fst (retry_step (ad_config s) now (peer_view peer s)) = None \<longrightarrow> settled (sv_db (ad_core s')) (bt_delivery tx)"
    and view: "\<forall>p. peer_view p s' = (if p = peer then retry_step (ad_config s) now (peer_view p s) else peer_view p s)"
    using poll_active_total [OF "2.prems"(1,2), of peer tx now] "2.prems"(4) by auto
  have "map_of (ba_active s') p = Some t" if mem: "(p, t) \<in> set txs" for p t
  proof -
    have "p \<noteq> peer" using "2.prems"(3) mem by force
    then have "peer_view p s' = peer_view p s" using view by simp
    then show ?thesis using "2.prems"(4) mem by (auto simp: peer_view_def)
  qed
  then have "\<forall>(peer, tx) \<in> set txs. map_of (ba_active s') peer = Some tx" by blast
  with "2.IH" [OF run(2,3)] "2.prems"(3) obtain out' s'' where
    "poll_actives now txs s' = (Inr out', [], s'')" "burst_ok s''" "calm s''" "ad_config s'' = ad_config s'"
    "marks (ad_core s') (ad_core s'')"
    "\<forall>(p, tx) \<in> set txs. fst (retry_step (ad_config s') now (peer_view p s')) = None
        \<longrightarrow> settled (sv_db (ad_core s'')) (bt_delivery tx)"
    "\<forall>p. peer_view p s'' = (if p \<in> fst ` set txs then retry_step (ad_config s') now (peer_view p s') else peer_view p s')"
    by auto
  note rest = this
  have new: "peer \<notin> fst ` set txs" using "2.prems"(3) by simp
  have "settled (sv_db (ad_core s'')) (bt_delivery t)"
    if "(p, t) \<in> set ((peer, tx) # txs)" "fst (retry_step (ad_config s) now (peer_view p s)) = None" for p t
  proof (cases "(p, t) = (peer, tx)")
    case True
    then show ?thesis using that(2) gone rest(5) by (simp add: marks_def)
  next
    case False
    then have "(p, t) \<in> set txs" "p \<noteq> peer" using that(1) new by force+
    then show ?thesis using that(2) rest(6) view run(4) by auto
  qed
  then have "\<forall>(p, t) \<in> set ((peer, tx) # txs). fst (retry_step (ad_config s) now (peer_view p s)) = None
      \<longrightarrow> settled (sv_db (ad_core s'')) (bt_delivery t)" by blast
  moreover have "marks (ad_core s) (ad_core s'')" using marks_trans [OF run(5) rest(5)] .
  ultimately show ?case using run view rest(1-4,7) new by (simp add: bindA_run returnA_def)
qed (auto simp: returnA_def calm_def marks_refl)

section \<open>Queue order\<close>

definition tx_le :: "burst_tx \<Rightarrow> burst_tx \<Rightarrow> bool" where
  "tx_le t u \<longleftrightarrow> bt_priority t < bt_priority u \<or> bt_priority t = bt_priority u \<and> bt_order t \<le> bt_order u"

lemma tx_insert_set [simp]: "set (tx_insert t ts) = insert t (set ts)"
  by (induction ts) auto

lemma tx_insert_sorted: "sorted_wrt tx_le ts \<Longrightarrow> sorted_wrt tx_le (tx_insert t ts)"
  by (induction ts) (auto simp: tx_le_def)

lemma by_priority_sorted: "sorted_wrt tx_le (by_priority ts)"
  by (induction ts) (simp_all add: by_priority_def tx_insert_sorted)

lemma tx_insert_first: "\<forall>u \<in> set ts. tx_le t u \<Longrightarrow> tx_insert t ts = t # ts"
  by (cases ts) (auto simp: tx_le_def)

lemma filter_tx_insert:
  "sorted_wrt tx_le ts \<Longrightarrow> filter P (tx_insert t ts) = (if P t then tx_insert t (filter P ts) else filter P ts)"
proof (induction ts)
  case (Cons u ts)
  show ?case
  proof (cases "tx_le t u")
    case True
    then have "\<forall>v \<in> set (filter P (u # ts)). tx_le t v" using Cons.prems by (auto simp: tx_le_def)
    then have "tx_insert t (filter P (u # ts)) = t # filter P (u # ts)" by (rule tx_insert_first)
    then show ?thesis using True by (simp add: tx_le_def)
  next
    case False
    then have "tx_insert t (u # ts) = u # tx_insert t ts" "tx_insert t (u # filter P ts) = u # tx_insert t (filter P ts)"
      by (auto simp: tx_le_def)
    then show ?thesis using Cons by simp
  qed
qed simp

lemma filter_by_priority: "filter P (by_priority ts) = by_priority (filter P ts)"
proof (induction ts)
  case (Cons t ts)
  then show ?case using filter_tx_insert [OF by_priority_sorted [of ts]] by (simp add: by_priority_def)
qed (simp add: by_priority_def)

section \<open>Starting\<close>

definition start_with :: "adapter_config \<Rightarrow> rat \<Rightarrow> burst_tx list \<Rightarrow> peer_state \<Rightarrow> peer_state" where
  "start_with c now txs = (\<lambda>(active, queue, sent).
     case txs of
       [] \<Rightarrow> (active, queue, sent)
     | tx # _ \<Rightarrow>
         if active \<noteq> None \<or> \<not> ready_at c now sent then (active, queue, sent)
         else (Some (tx\<lparr>bt_attempts := 1, bt_deadline := now + cf_ack_timeout c\<rparr>), remove1 tx queue, Some now))"

lemma start_step_with: "start_step c now v = start_with c now (by_priority (fst (snd v))) v"
  by (simp add: start_step_def start_with_def split: prod.splits)

lemma start_with_busy: "fst v \<noteq> None \<or> \<not> ready_at c now (snd (snd v)) \<Longrightarrow> start_with c now txs v = v"
  by (cases v) (auto simp: start_with_def split: list.splits)

lemma update_mem: "e \<in> set (AList.update k v d) \<Longrightarrow> e = (k, v) \<or> e \<in> set d"
  using update_subset by fast

lemma start_candidates_total:
  assumes "burst_ok s" "calm s" "distinct txs" "set txs \<subseteq> set (ba_queue s)"
  shows "\<exists>out s'. start_candidates now txs s = (Inr out, [], s') \<and> burst_ok s' \<and> calm s' \<and> ad_config s' = ad_config s
    \<and> ad_core s' = ad_core s \<and> (\<forall>p. peer_view p s' = start_with (ad_config s) now (filter (\<lambda>tx. bt_peer tx = p) txs) (peer_view p s))"
  using assms
proof (induction now txs arbitrary: s rule: start_candidates.induct)
  case (2 now tx txs)
  let ?wait = "map_of (ba_active s) (bt_peer tx) \<noteq> None \<or> \<not> may_send (bt_peer tx) now s"
  show ?case
  proof (cases ?wait)
    case True
    have "start_with (ad_config s) now txs' (peer_view (bt_peer tx) s) = peer_view (bt_peer tx) s" for txs'
      using True by (intro start_with_busy) (simp add: peer_view_def may_send_ready)
    moreover obtain out s' where "start_candidates now txs s = (Inr out, [], s')" "burst_ok s'" "calm s'" "ad_config s' = ad_config s" "ad_core s' = ad_core s"
      "\<forall>p. peer_view p s' = start_with (ad_config s) now (filter (\<lambda>tx. bt_peer tx = p) txs) (peer_view p s)"
      using "2.IH"(1) [OF True "2.prems"(1,2)] "2.prems"(3,4) by auto
    ultimately show ?thesis using True by (auto simp del: not_None_eq)
  next
    case False
    let ?tx = "tx\<lparr>bt_attempts := 1, bt_deadline := now + cf_ack_timeout (ad_config s)\<rparr>"
    let ?s = "s\<lparr>ba_queue := remove1 tx (ba_queue s), ba_active := AList.update (bt_peer tx) ?tx (ba_active s),
       ad_last_send := (ad_last_send s)(bt_peer tx := Some now)\<rparr>"
    have tx: "tx \<in> set (ba_queue s)" and d: "distinct (ba_queue s)"
      using "2.prems"(4) burst_queue_distinct [OF "2.prems"(1)] by simp_all
    have sub: "set txs \<subseteq> set (ba_queue ?s)" using "2.prems"(3,4) d by auto
    have ok: "burst_ok ?s" using start_one [OF "2.prems"(1)] tx False by simp
    have "bt_delivery ` set_mset (outstanding ?s) \<subseteq> bt_delivery ` set_mset (outstanding s)"
      using tx d by (fastforce simp: outstanding_set dest!: update_mem)
    then have calm: "calm ?s" using "2.prems"(2) by (intro calm_frame [OF "2.prems"(2)]) (simp_all add: calm_def marks_refl)
    have view: "peer_view p ?s = (if p = bt_peer tx then start_with (ad_config s) now (tx # txs') (peer_view p s) else peer_view p s)"
      for p txs'
      using False d by (simp add: peer_view_def start_with_def may_send_ready filter_remove1)
    have busy: "start_with c now txs' (peer_view (bt_peer tx) ?s) = peer_view (bt_peer tx) ?s" for c txs'
      by (intro start_with_busy) (simp add: peer_view_def)
    obtain out s' where "start_candidates now txs ?s = (Inr out, [], s')" "burst_ok s'" "calm s'" "ad_config s' = ad_config s" "ad_core s' = ad_core s"
      "\<forall>p. peer_view p s' = start_with (ad_config s) now (filter (\<lambda>tx. bt_peer tx = p) txs) (peer_view p ?s)"
      using "2.IH"(2) [OF False ok calm _ sub] "2.prems"(3) by auto
    moreover have "start_with (ad_config s) now (filter (\<lambda>tx. bt_peer tx = p) txs) (peer_view p ?s)
        = start_with (ad_config s) now (filter (\<lambda>tx. bt_peer tx = p) (tx # txs)) (peer_view p s)" for p
    proof (cases "p = bt_peer tx")
      case True
      show ?thesis unfolding True busy
        using view [of "bt_peer tx" "filter (\<lambda>t. bt_peer t = bt_peer tx) txs"] by (simp only: filter.simps refl if_True)
    next
      case False
      then have "peer_view p ?s = peer_view p s" using view [of p "[]"] by (simp only: if_False)
      moreover have "bt_peer tx \<noteq> p" using False by blast
      ultimately show ?thesis by (simp only: filter.simps if_False)
    qed
    ultimately show ?thesis using False by (auto simp: bindA_run returnA_def)
  qed
qed (auto simp: returnA_def start_with_def split: prod.splits)

section \<open>A poll\<close>

lemma peer_view_same: "ba_active s' = ba_active s \<Longrightarrow> ba_queue s' = ba_queue s \<Longrightarrow> ad_last_send s' = ad_last_send s
    \<Longrightarrow> peer_view p s' = peer_view p s"
  by (simp add: peer_view_def)

lemma calm_same: "calm s \<Longrightarrow> ba_active s' = ba_active s \<Longrightarrow> ba_queue s' = ba_queue s \<Longrightarrow> ad_core s' = ad_core s
    \<Longrightarrow> ba_rx_progress s' = ba_rx_progress s \<Longrightarrow> calm s'"
  by (simp add: calm_def outstanding_def)

lemma burst_poll_total:
  assumes "burst_ok s" "calm s"
  shows "\<exists>out s'. burst_poll now s = (Inr out, [], s') \<and> burst_ok s' \<and> calm s' \<and> ad_config s' = ad_config s
    \<and> marks (ad_core s) (ad_core s')
    \<and> (\<forall>(p, tx) \<in> set (ba_active s). fst (retry_step (ad_config s) now (peer_view p s)) = None
        \<longrightarrow> settled (sv_db (ad_core s')) (bt_delivery tx))
    \<and> (\<forall>p. peer_view p s' = peer_poll (ad_config s) now (peer_view p s))"
proof -
  let ?s = "s\<lparr>ad_immediate := []\<rparr>"
  have s1: "burst_ok ?s" "calm ?s" using burst_ok_immediate [OF assms(1)] assms(2) by (simp_all add: calm_def outstanding_def)
  have "\<forall>(k, p) \<in> set (ba_rx_progress s). transaction_byte (snd k)" using assms(2) by (simp add: calm_def)
  then obtain out2 s2 where p2: "poll_progress now (ba_rx_progress s) ?s = (Inr out2, [], s2)" "calm s2"
    "ad_config s2 = ad_config s" "ad_core s2 = ad_core s" "\<forall>p. peer_view p s2 = peer_view p s"
    using poll_progress_total [OF burst_ok_snapshots(1) [OF assms(1)] _ s1(2), of now]
    by (auto simp: peer_view_same [of ?s s])
  have b2: "burst_ok s2" using keeps_run [OF poll_progress_ok [OF burst_ok_snapshots(1) [OF assms(1)]] s1(1) p2(1)] .
  obtain out3 s3 where p3: "poll_actives now (ba_active s2) s2 = (Inr out3, [], s3)" "burst_ok s3" "calm s3"
    "ad_config s3 = ad_config s" "marks (ad_core s) (ad_core s3)"
    and gone: "\<forall>(p, tx) \<in> set (ba_active s2). fst (retry_step (ad_config s) now (peer_view p s)) = None
        \<longrightarrow> settled (sv_db (ad_core s3)) (bt_delivery tx)"
    and v3: "\<forall>p. peer_view p s3 = (if p \<in> fst ` set (ba_active s2)
       then retry_step (ad_config s) now (peer_view p s) else peer_view p s)"
    using poll_actives_total [OF b2 p2(2) burst_ok_snapshots(2,3) [OF b2], of now] p2(3,4,5) by auto
  have "retry_step (ad_config s) now (peer_view p s) = peer_view p s" if "p \<notin> fst ` set (ba_active s2)" for p
  proof -
    have "map_of (ba_active s2) p = None" using that by (simp add: map_of_eq_None_iff)
    then have "fst (peer_view p s) = None" using p2(5) by (simp add: peer_view_def)
    then show ?thesis by (cases "peer_view p s") (simp add: retry_step_def)
  qed
  then have v3: "peer_view p s3 = retry_step (ad_config s) now (peer_view p s)" for p using v3 by simp
  obtain out4 s4 where p4: "start_candidates now (by_priority (ba_queue s3)) s3 = (Inr out4, [], s4)" "burst_ok s4" "calm s4"
    "ad_config s4 = ad_config s" "ad_core s4 = ad_core s3" and v4: "\<forall>p. peer_view p s4 =
       start_with (ad_config s) now (filter (\<lambda>tx. bt_peer tx = p) (by_priority (ba_queue s3))) (peer_view p s3)"
    using start_candidates_total [OF p3(2,3) burst_ok_snapshots(4,5) [OF p3(2)], of now] p3(4) by auto
  have "peer_view p s4 = peer_poll (ad_config s) now (peer_view p s)" for p
  proof -
    have "filter (\<lambda>tx. bt_peer tx = p) (ba_queue s3) = fst (snd (peer_view p s3))" by (simp add: peer_view_def)
    then show ?thesis using v4 v3 by (simp add: peer_poll_def start_step_with filter_by_priority)
  qed
  moreover have "peer_view p (expire_all now s4) = peer_view p s4" for p
    by (rule peer_view_same) (simp_all add: expire_all_def)
  moreover have "calm (expire_all now s4)" by (rule calm_same [OF p4(3)]) (simp_all add: expire_all_def)
  moreover have "burst_ok (expire_all now s4)" by (rule expire_all_ok [OF p4(2)])
  moreover have "burst_poll now s = (Inr (ad_immediate s @ out2 @ out3 @ out4), [], expire_all now s4)"
    using p2(1) p3(1) p4(1) by (simp add: burst_poll_def bindA_run returnA_def)
  moreover have "settled (sv_db (ad_core s4)) (bt_delivery tx)"
    if "(p, tx) \<in> set (ba_active s)" "fst (retry_step (ad_config s) now (peer_view p s)) = None" for p tx
  proof -
    have "map_of (ba_active s2) p = Some tx"
      using p2(5) that(1) burst_ok_snapshots(3) [OF assms(1)] by (auto simp: peer_view_def)
    then show ?thesis using gone that(2) p4(5) map_of_SomeD by fastforce
  qed
  ultimately show ?thesis using p3(5) p4(4,5) by (auto simp: expire_all_def)
qed

end
