(* ===== verification/Burst_Retry.thy ===== *)
theory Burst_Retry
  imports Burst_Peers
begin

text \<open>
  Retries end. Polled at times that are far enough apart, a transaction that nobody answers is
  sent at most \<open>max_attempts\<close> times and then leaves the adapter, its delivery marked.
\<close>

section \<open>Polling again and again\<close>

fun burst_polls :: "rat list \<Rightarrow> outbound_packet list list burst" where
  "burst_polls [] = returnA []"
| "burst_polls (t # ts) = bindA (burst_poll t) (\<lambda>ps. bindA (burst_polls ts) (\<lambda>pss. returnA (ps # pss)))"

text \<open>Each time is at least \<open>gap\<close> after the one before.\<close>

fun spaced :: "rat \<Rightarrow> rat \<Rightarrow> rat list \<Rightarrow> bool" where
  "spaced gap prev [] \<longleftrightarrow> True"
| "spaced gap prev (t # ts) \<longleftrightarrow> prev + gap \<le> t \<and> spaced gap t ts"

definition present :: "int \<Rightarrow> peer_state \<Rightarrow> bool" where
  "present k v \<longleftrightarrow> (\<exists>tx. fst v = Some tx \<and> bt_order tx = k) \<or> (\<exists>tx \<in> set (fst (snd v)). bt_order tx = k)"

section \<open>One peer\<close>

lemma by_priority_set: "set (by_priority q) = set q"
  by (metis by_priority_mset set_mset_mset)

lemma start_step_present: "present k (start_step c now v) \<Longrightarrow> present k v"
proof -
  assume p: "present k (start_step c now v)"
  obtain a q l where v: "v = (a, q, l)" by (rule prod_cases3)
  show ?thesis
  proof (cases "by_priority q")
    case Nil
    then show ?thesis using p v by (simp add: start_step_def)
  next
    case (Cons tx rest)
    then have "tx \<in> set q" using by_priority_set [of q] by auto
    then show ?thesis using p Cons unfolding v
      by (auto simp: start_step_def present_def split: if_splits dest: set_mp [OF set_remove1_subset])
  qed
qed

lemma retry_step_present: "present k (retry_step c now v) \<Longrightarrow> present k v"
  by (cases v) (auto simp: retry_step_def present_def split: option.splits if_splits)

lemma peer_poll_present: "present k (peer_poll c now v) \<Longrightarrow> present k v"
  by (auto simp: peer_poll_def dest: start_step_present retry_step_present)

definition overdue :: "rat \<Rightarrow> burst_tx \<Rightarrow> bool" where
  "overdue now tx \<longleftrightarrow> bt_requested tx \<noteq> None \<or> bt_deadline tx \<noteq> 0 \<and> bt_deadline tx \<le> now"

lemma overdue_due: "overdue now tx \<Longrightarrow> due_indices now tx \<noteq> None"
  by (auto simp: overdue_def due_indices_def split: option.splits list.splits)

lemma retry_overdue:
  assumes "overdue now tx" "ready_at c now sent"
  shows "retry_step c now (Some tx, q, sent) = (None, q, sent)
    \<or> (bt_attempts tx < cf_max_attempts c \<and> retry_step c now (Some tx, q, sent) =
        (Some (tx\<lparr>bt_requested := None, bt_attempts := bt_attempts tx + 1, bt_deadline := now + cf_ack_timeout c\<rparr>), q, Some now))"
  using overdue_due [OF assms(1)] assms(2) by (auto simp: retry_step_def split: option.splits)

section \<open>All peers\<close>

lemma present_outstanding:
  assumes "burst_ok s"
  shows "k \<in> bt_order ` set_mset (outstanding s) \<longleftrightarrow> (\<exists>p. present k (peer_view p s))"
proof -
  have "map_of (ba_active s) p = Some tx \<longleftrightarrow> (p, tx) \<in> set (ba_active s)" for p tx
    using assms by (simp add: burst_ok_def active_ok_def keys_ok_def)
  then show ?thesis by (force simp: present_def peer_view_def outstanding_set)
qed

lemma present_unique:
  assumes "burst_ok s" "map_of (ba_active s) p = Some tx"
  shows "\<forall>t \<in> set (ba_queue s). bt_order t \<noteq> bt_order tx"
    "p' \<noteq> p \<Longrightarrow> \<not> present (bt_order tx) (peer_view p' s)"
proof -
  let ?M = "mset (ba_queue s) + mset (map snd (AList.delete p (ba_active s)))"
  have k: "keys_ok (ba_active s)" using assms(1) by (simp add: burst_ok_def active_ok_def)
  have "outstanding s = add_mset tx ?M" using mset_active [OF k assms(2)] by (simp add: outstanding_def)
  moreover have "count (image_mset bt_order (outstanding s)) (bt_order tx) \<le> 1"
    using assms(1) by (simp add: burst_ok_def txs_ok_def once_def)
  ultimately have "count (image_mset bt_order ?M) (bt_order tx) = 0" by simp
  then have "bt_order tx \<notin> bt_order ` set_mset ?M" by (metis count_eq_zero_iff set_image_mset)
  then have M: "\<forall>t \<in># ?M. bt_order t \<noteq> bt_order tx" by (metis imageI)
  then show q: "\<forall>t \<in> set (ba_queue s). bt_order t \<noteq> bt_order tx" by simp
  assume "p' \<noteq> p"
  then have "map_of (ba_active s) p' = Some t \<Longrightarrow> (p', t) \<in> set (AList.delete p (ba_active s))" for t
    using map_of_SomeD [of "AList.delete p (ba_active s)" p' t] by simp
  then show "\<not> present (bt_order tx) (peer_view p' s)"
    using M q by (force simp: present_def peer_view_def)
qed

section \<open>Giving up\<close>

definition gone :: "burst_tx \<Rightarrow> burst_adapter \<Rightarrow> bool" where
  "gone tx s \<longleftrightarrow> bt_order tx \<notin> bt_order ` set_mset (outstanding s) \<and> settled (sv_db (ad_core s)) (bt_delivery tx)"

lemma poll_stays_gone:
  assumes "burst_ok s" "calm s" "gone tx s" "burst_poll now s = (r, ev, s')"
  shows "gone tx s'"
proof -
  obtain out where s': "burst_ok s'" "marks (ad_core s) (ad_core s')"
    "\<forall>p. peer_view p s' = peer_poll (ad_config s) now (peer_view p s)"
    using burst_poll_total [OF assms(1,2), of now] assms(4) by auto
  have "\<not> present (bt_order tx) (peer_view p s)" for p
    using assms(3) present_outstanding [OF assms(1)] by (simp add: gone_def)
  then have "\<not> present (bt_order tx) (peer_view p s')" for p using s'(3) peer_poll_present by metis
  then have "bt_order tx \<notin> bt_order ` set_mset (outstanding s')" using present_outstanding [OF s'(1)] by metis
  then show ?thesis using assms(3) s'(2) by (simp add: gone_def marks_def)
qed

lemma polls_total:
  assumes "burst_ok s" "calm s"
  shows "\<exists>outs s'. burst_polls ts s = (Inr outs, [], s') \<and> burst_ok s' \<and> calm s' \<and> (gone tx s \<longrightarrow> gone tx s')"
  using assms
proof (induction ts arbitrary: s)
  case (Cons t ts)
  obtain out s' where p: "burst_poll t s = (Inr out, [], s')" "burst_ok s'" "calm s'"
    using burst_poll_total [OF Cons.prems, of t] by blast
  obtain outs s'' where "burst_polls ts s' = (Inr outs, [], s'')" "burst_ok s''" "calm s''" "gone tx s' \<longrightarrow> gone tx s''"
    using Cons.IH [OF p(2,3)] by blast
  moreover have "gone tx s \<Longrightarrow> gone tx s'" by (rule poll_stays_gone [OF Cons.prems _ p(1)])
  ultimately show ?case using p(1) by (simp add: bindA_run returnA_def)
qed (auto simp: returnA_def)

lemma poll_overdue:
  assumes "burst_ok s" "calm s" "map_of (ba_active s) p = Some tx" "overdue now tx" "may_send p now s"
    "burst_poll now s = (r, ev, s')"
  shows "gone tx s' \<or> (\<exists>tx'. map_of (ba_active s') p = Some tx' \<and> bt_order tx' = bt_order tx \<and> bt_delivery tx' = bt_delivery tx
    \<and> bt_attempts tx' = bt_attempts tx + 1 \<and> bt_attempts tx < cf_max_attempts (ad_config s)
    \<and> bt_deadline tx' = now + cf_ack_timeout (ad_config s) \<and> ad_last_send s' p = Some now)"
proof -
  let ?c = "ad_config s"
  obtain s': "burst_ok s'"
    and set: "\<forall>(p, tx) \<in> set (ba_active s). fst (retry_step ?c now (peer_view p s)) = None
        \<longrightarrow> settled (sv_db (ad_core s')) (bt_delivery tx)"
    and view: "\<forall>p. peer_view p s' = peer_poll ?c now (peer_view p s)"
    using burst_poll_total [OF assms(1,2), of now] assms(6) by auto
  define q where "q = filter (\<lambda>tx. bt_peer tx = p) (ba_queue s)"
  have v: "peer_view p s = (Some tx, q, ad_last_send s p)" using assms(3) by (simp add: peer_view_def q_def)
  have r: "ready_at ?c now (ad_last_send s p)" using assms(5) by (simp add: may_send_ready)
  from retry_overdue [OF assms(4) r, of q] show ?thesis
  proof (elim disjE conjE)
    assume none: "retry_step ?c now (Some tx, q, ad_last_send s p) = (None, q, ad_last_send s p)"
    have "\<not> present (bt_order tx) (peer_view p s')"
      using none view v present_unique(1) [OF assms(1,3)] start_step_present [of "bt_order tx" ?c now "(None, q, ad_last_send s p)"]
      by (auto simp: peer_poll_def) (auto simp: present_def q_def)
    moreover have "\<not> present (bt_order tx) (peer_view p' s')" if "p' \<noteq> p" for p'
      using view peer_poll_present present_unique(2) [OF assms(1,3) that] by metis
    ultimately have "bt_order tx \<notin> bt_order ` set_mset (outstanding s')"
      unfolding present_outstanding [OF s'] by metis
    moreover have "settled (sv_db (ad_core s')) (bt_delivery tx)"
      using set map_of_SomeD [OF assms(3)] none v by fastforce
    ultimately show ?thesis by (simp add: gone_def)
  next
    let ?tx = "tx\<lparr>bt_requested := None, bt_attempts := bt_attempts tx + 1, bt_deadline := now + cf_ack_timeout ?c\<rparr>"
    assume "retry_step ?c now (Some tx, q, ad_last_send s p) = (Some ?tx, q, Some now)"
      and less: "bt_attempts tx < cf_max_attempts ?c"
    then have "peer_view p s' = (Some ?tx, q, Some now)"
      using view v by (simp add: peer_poll_def start_step_def split: list.splits)
    then show ?thesis using less by (auto simp: peer_view_def)
  qed
qed

lemma polls_give_up:
  assumes "burst_ok s" "calm s" "map_of (ba_active s) p = Some tx" "0 < prev" "0 < cf_ack_timeout (ad_config s)"
    "bt_requested tx \<noteq> None \<or> bt_deadline tx \<noteq> 0 \<and> bt_deadline tx \<le> prev + cf_ack_timeout (ad_config s)"
    "\<forall>t. ad_last_send s p = Some t \<longrightarrow> t \<le> prev"
    "spaced (max (cf_ack_timeout (ad_config s)) (cf_min_interval (ad_config s))) prev ts"
    "cf_max_attempts (ad_config s) - bt_attempts tx < int (length ts)"
  shows "\<exists>outs s'. burst_polls ts s = (Inr outs, [], s') \<and> gone tx s'"
  using assms
proof (induction ts arbitrary: s tx prev)
  case Nil
  then show ?case using active_txD(4) [OF Nil.prems(1,3)] by simp
next
  case (Cons t ts)
  let ?c = "ad_config s"
  obtain out s' where run: "burst_poll t s = (Inr out, [], s')" "burst_ok s'" "calm s'" "ad_config s' = ?c"
    using burst_poll_total [OF Cons.prems(1,2), of t] by blast
  have t: "prev + cf_ack_timeout ?c \<le> t" "prev + cf_min_interval ?c \<le> t"
    "spaced (max (cf_ack_timeout ?c) (cf_min_interval ?c)) t ts"
    using Cons.prems(8) by (auto simp: add.commute le_diff_eq [symmetric] simp del: le_diff_eq) 
  have over: "overdue t tx" "may_send p t s" using Cons.prems(6,7) t(1,2)
    by (auto simp: overdue_def may_send_def split: option.splits)
  have rest: "\<exists>outs s''. burst_polls ts s' = (Inr outs, [], s'') \<and> gone tx s''"
    using poll_overdue [OF Cons.prems(1-3) over run(1)]
  proof (elim disjE exE conjE)
    assume "gone tx s'"
    then show ?thesis using polls_total [OF run(2,3), of ts tx] by blast
  next
    fix tx' assume n: "map_of (ba_active s') p = Some tx'" "bt_order tx' = bt_order tx" "bt_delivery tx' = bt_delivery tx"
      "bt_attempts tx' = bt_attempts tx + 1" "bt_deadline tx' = t + cf_ack_timeout ?c" "ad_last_send s' p = Some t"
    have "\<exists>outs s''. burst_polls ts s' = (Inr outs, [], s'') \<and> gone tx' s''"
      using Cons.IH [OF run(2,3) n(1), of t] Cons.prems(4,5,9) n t run(4) by simp
    then show ?thesis using n(2,3) by (simp add: gone_def)
  qed
  then show ?case using run(1) by (auto simp: bindA_run returnA_def)
qed

end
