(* ===== verification/Request_Once.thy ===== *)
theory Request_Once
  imports Burst_Retry Core_Properties
begin

text \<open>
  A request takes effect at most once. Which message an APRS body stores, if any, is determined by
  the frame it completes, and when it stores one, the answer is in the replay cache before anything
  else can happen, so that a repetition of the transaction is answered from there.
\<close>

section \<open>The core\<close>

lemma dispatch_messages:
  assumes "ready sv t" "valid_object request \<or> (\<exists>c. request = Capabilities 0 c)"
    "dispatch who request (PInt t) sv = (Inr rs, ev, sv')"
  shows "messages (sv_db sv') = messages (sv_db sv) \<or>
    (\<exists>c r b. request = SendMessage c r b
      \<and> messages (sv_db sv') = messages (sv_db sv) @ [accepted_row c who r (body_bytes b) t (sv_db sv)])"
proof (cases request)
  case (SendMessage c r b)
  then have "valid_object (SendMessage c r b)" using assms(2) by simp
  from send_effect_run [OF assms(1) this, of who] assms(3) SendMessage show ?thesis
    by (auto simp: dispatch_def send_effect_def accept_def split: if_splits)
qed (use assms(3) in \<open>simp_all add: dispatch_def reading_def\<close>)

lemma handle_frame_effect:
  assumes "ready sv t"
  shows "\<exists>fs rs ev sv'. handle_frame (PStr who) (PBytes d) (PInt t) sv = (Inr fs, ev, sv') \<and> response_frames fs rs
    \<and> transportable (sv_db sv') \<and> (messages (sv_db sv') = messages (sv_db sv) \<or>
    (\<exists>c r b. decode_frame (PBytes d) = Inr (SendMessage c r b)
      \<and> messages (sv_db sv') = messages (sv_db sv) @ [accepted_row c who r (body_bytes b) t (sv_db sv)]))"
proof (cases "decode_frame (PBytes d)")
  case (Inl e)
  then have ce: "codec_error e" by (rule decode_frame_raises)
  then have c: "is_ProtocolDecodeError e \<or> is_InvalidFieldError e" by (simp add: codec_error_def)
  have tr: "transportable (sv_db sv)" using assms by (simp add: ready_def)
  show ?thesis
  proof (cases "decode_error_response (PBytes d) e")
    case None
    then show ?thesis using Inl c tr by (auto simp: handle_frame_def response_frames_def)
  next
    case (Some r)
    with encode_answer error_response_valid [OF ce Some] obtain f
      where "encode_frame r False = Inr f" "response_frames [f] [r]" by blast
    then show ?thesis using Inl c tr Some by (auto simp: handle_frame_def)
  qed
next
  case (Inr request)
  from dispatch_total [OF assms decoded_valid [OF Inr], of who] obtain rs ev sv'
    where d: "dispatch who request (PInt t) sv = (Inr rs, ev, sv')" "answers rs" "transportable (sv_db sv')" by blast
  from encode_answers [OF d(2)] obtain fs where "mapE (\<lambda>r. encode_frame r False) rs = Inr fs" "response_frames fs rs"
    by blast
  then show ?thesis using Inr d dispatch_messages [OF assms decoded_valid [OF Inr] d(1)]
    by (auto simp: handle_frame_def)
qed

text \<open>Which frame stores a message.\<close>

lemma handle_frame_messages:
  assumes "ready sv t" "handle_frame (PStr who) (PBytes d) (PInt t) sv = (r, ev, sv')"
  shows "sv_message_store sv' = sv_message_store sv \<and> messages (sv_db sv') = messages (sv_db sv) @
    (case decode_frame (PBytes d) of
       Inr (SendMessage c p b) \<Rightarrow>
         if sv_message_store sv \<and> callsign_ok who \<and> mailbox_last (sv_db sv) p \<noteq> MAX_U32
         then [accepted_row c who p (body_bytes b) t (sv_db sv)] else []
     | _ \<Rightarrow> [])"
proof (cases "decode_frame (PBytes d)")
  case (Inl e)
  then show ?thesis using assms(2) by (auto simp: handle_frame_def split: if_splits option.splits)
next
  case (Inr q)
  then obtain r' where d: "dispatch who q (PInt t) sv = (r', ev, sv')"
    using assms(2) by (auto simp: handle_frame_def split: prod.splits sum.splits)
  show ?thesis
  proof (cases q)
    case (SendMessage c p b)
    then have "valid_object (SendMessage c p b)" using decoded_valid [OF Inr] by auto
    from send_effect_run [OF assms(1) this, of who] d SendMessage Inr show ?thesis
      by (auto simp: dispatch_def send_effect_def split: if_splits)
  qed (use d Inr in \<open>simp_all add: dispatch_def reading_def\<close>)
qed

text \<open>Marking a delivery leaves the messages alone.\<close>

lemma set_delivery_messages:
  assumes "transportable db" "set_delivery p n tr st t db = (r, db')"
  shows "transportable db' \<and> messages db' = messages db"
proof -
  note s = set_delivery_outcome [OF transportable_parts(2) [OF assms(1)] assms(2)]
  then have "db_ok db'" "messages db' = messages db" "bulletins db' = bulletins db" "bulletin_sequence db' = bulletin_sequence db"
    using transportable_parts(2) [OF assms(1)] by (auto split: if_splits)
  then show ?thesis using assms(1) bulletins_ok_frame [of db' db] by (simp add: transportable_def stores_ok_def)
qed

lemma mark_messages:
  assumes "transportable (sv_db sv)"
  shows "transportable (sv_db (snd (snd (mark_aprs st p n sv))))" "messages (sv_db (snd (snd (mark_aprs st p n sv)))) = messages (sv_db sv)"
    "transportable (sv_db (snd (snd (mark_aprs_delivered raising t p n sv))))"
    "messages (sv_db (snd (snd (mark_aprs_delivered raising t p n sv)))) = messages (sv_db sv)"
    "sv_message_store (snd (snd (mark_aprs st p n sv))) = sv_message_store sv"
    "sv_message_store (snd (snd (mark_aprs_delivered raising t p n sv))) = sv_message_store sv"
  using assms set_delivery_messages
  by (auto simp: mark_aprs_def mark_aprs_delivered_def split: prod.splits sum.splits option.splits)

section \<open>What the adapter keeps of the store\<close>

definition stored :: "message_row list \<Rightarrow> 'z adapter_scheme \<Rightarrow> bool" where
  "stored ms s \<longleftrightarrow> sv_message_store (ad_core s) \<and> transportable (sv_db (ad_core s)) \<and> messages (sv_db (ad_core s)) = ms
     \<and> replay_ok (ad_replay s)"

text \<open>The overriding methods touch neither the core nor the tables.\<close>

lemma burst_queue_keeps:
  assumes "\<And>s s'. P s \<Longrightarrow> ad_core s' = ad_core s \<Longrightarrow> ad_replay s' = ad_replay s \<Longrightarrow> P s'"
  shows "keeps P (burst_queue_frame peer frame proactive dl batch supersedable)"
proof -
  have "keeps P (burst_allocate peer)"
    by (auto simp: keeps_def burst_allocate_def split: prod.splits intro: assms)
  moreover have "keeps P (burst_enqueue peer frame proactive dl batch supersedable tid)" for tid
    unfolding burst_enqueue_def by (auto intro!: keeping intro: assms split: prod.splits)
  moreover have "P s \<Longrightarrow> P (supersede_active_response_for_proactive p s)" for p s
    by (auto simp: supersede_active_response_for_proactive_def intro: assms split: option.splits)
  ultimately show ?thesis unfolding burst_queue_frame_def by (intro keeping) auto
qed

lemma base_supersede_frames:
  "ad_core (supersede_stale_response_batches peer k s) = ad_core s"
  "ad_replay (supersede_stale_response_batches peer k s) = ad_replay s"
  by (simp_all add: supersede_stale_response_batches_def Let_def)

lemma burst_method_frames:
  "ad_core (burst_confirm_inbound peer m accepted s) = ad_core s"
  "ad_replay (burst_confirm_inbound peer m accepted s) = ad_replay s"
  "ad_core (burst_supersede peer k s) = ad_core s" "ad_replay (burst_supersede peer k s) = ad_replay s"
  by (simp add: burst_confirm_inbound_def confirm_inbound_def split: option.split,
      simp add: burst_confirm_inbound_def confirm_inbound_def split: option.split,
      simp add: burst_supersede_def Let_def base_supersede_frames,
      simp add: burst_supersede_def Let_def base_supersede_frames)

lemma stored_pending: "keeps (stored ms) (coreA (mark_aprs_pending p n))"
  by (rule keeps_core) (simp add: stored_def mark_aprs_pending_def mark_messages)

lemma stored_failed: "keeps (stored ms) (coreA (mark_aprs_failed p n))"
  by (rule keeps_core) (simp add: stored_def mark_aprs_failed_def mark_messages)

lemma stored_delivered: "keeps (stored ms) (coreA (mark_aprs_delivered raising t p n))"
  by (rule keeps_core) (simp add: stored_def mark_messages)

interpretation store: adapter_contract burst_methods "stored ms" for ms
  by unfold_locales
    (auto simp: burst_methods_def burst_method_frames stored_def replay_get_ok replay_put_ok
      intro!: burst_queue_keeps stored_pending stored_delivered)

text \<open>The same together with an answer in the replay cache.\<close>

definition stored_with :: "message_row list \<Rightarrow> replay_cache \<Rightarrow> 'z adapter_scheme \<Rightarrow> bool" where
  "stored_with ms rc s \<longleftrightarrow> stored ms s \<and> ad_replay s = rc"

lemma stored_with_pending: "keeps (stored_with ms rc) (coreA (mark_aprs_pending p n))"
  by (rule keeps_core) (auto simp: stored_with_def stored_def mark_aprs_pending_def mark_messages)

interpretation answered: method_contract burst_methods "stored_with ms rc" for ms rc
  by unfold_locales
    (auto simp: burst_methods_def burst_method_frames stored_with_def stored_def
      intro!: burst_queue_keeps stored_with_pending)

section \<open>One request\<close>

lemma bindA_keeps_then:
  assumes "keeps P m" "P s" "\<And>s'. P s' \<Longrightarrow> R s'" "\<And>x s'. P s' \<Longrightarrow> R (snd (snd (f x s')))"
  shows "R (snd (snd (bindA m f s)))"
proof -
  obtain r ev s1 where m: "m s = (r, ev, s1)" by (rule prod_cases3)
  then have "P s1" using keeps_run [OF assms(1,2)] by blast
  then show ?thesis using assms(3,4) m by (cases r) (simp_all add: bindA_run case_prod_unfold)
qed

lemma any_error_total: "response_frames fs rs \<Longrightarrow> \<exists>b. any_error fs = Inr b"
proof (induction fs arbitrary: rs)
  case (Cons f fs)
  then obtain r rs' where "decode_frame (PBytes f) = Inr r" "response_frames fs rs'"
    by (cases rs) (auto simp: response_frames_def)
  then show ?case using Cons.IH [of rs'] by (auto simp: is_error_frame_def)
qed auto

lemma presence_total:
  assumes "normalize_callsign (PStr peer) (lit ''APRS source'') = Inr callsign"
  shows "\<exists>s'. set_aprs_presence rd peer s = (Inr (), [], s')"
proof -
  have c: "callsign_ok callsign" by (rule normalize_callsign_ok [OF assms])
  have "peer \<noteq> []"
  proof
    assume "peer = []"
    then have "callsign = []" using assms c
      by (simp add: normalize_callsign_def Let_def validate_callsign_Inr callsign_ok_def upper_def strip_def split: if_splits)
    then show False using c by (simp add: callsign_ok_def)
  qed
  moreover have "the_callsign callsign = Inr callsign" using c by (simp add: validate_callsign_Inr)
  ultimately show ?thesis using assms
    by (cases "ad_router s") (simp_all add: set_aprs_presence_def set_aprs_def Let_def)
qed

lemma activate_total:
  assumes "response_frames fs rs" "normalize_callsign (PStr peer) (lit ''APRS source'') = Inr callsign"
  shows "\<exists>s'. activate_aprs_if_accepted rd peer fs s = (Inr (), [], s')"
  using any_error_total [OF assms(1)] presence_total [OF assms(2), of rd s]
  by (auto simp: activate_aprs_if_accepted_def returnA_def)

text \<open>
  The message a frame from a station stores in a node that has the messages \<open>ms\<close>: its time, author,
  recipient and text. The recipient's mailbox must have a number left.
\<close>

definition new_send :: "message_row list \<Rightarrow> pystr \<Rightarrow> bytes \<Rightarrow> (int \<times> pystr \<times> pystr \<times> pystr) option" where
  "new_send ms peer frame =
     (case decode_frame (PBytes frame) of
        Inr (SendMessage c recipient body) \<Rightarrow>
          (case normalize_callsign (PStr peer) (lit ''APRS source'') of
             Inr callsign \<Rightarrow>
               if int (length (filter (\<lambda>row. mr_recipient row = SText recipient) ms)) \<noteq> MAX_U32
               then Some (c, callsign, recipient, body) else None
           | Inl _ \<Rightarrow> None)
      | _ \<Rightarrow> None)"

text \<open>What the frame leaves: the new message and the answer in the cache, or nothing new.\<close>

definition frame_outcome :: "readings \<Rightarrow> int \<Rightarrow> key \<Rightarrow> bytes \<Rightarrow> message_row list \<Rightarrow> 'z adapter_scheme \<Rightarrow> bool" where
  "frame_outcome rd t k frame ms s \<longleftrightarrow>
     (case new_send ms (fst k) frame of
        None \<Rightarrow> stored ms s
      | Some (c, callsign, recipient, body) \<Rightarrow>
          (\<exists>db responses. messages db = ms \<and> list_all (\<lambda>x. is_ok (decode_frame (PBytes x))) responses
            \<and> stored (ms @ [accepted_row c callsign recipient (body_bytes body) t db]) s
            \<and> map_of (rc_entries (ad_replay s)) k
                = Some \<lparr>rp_request = frame, rp_responses = responses, rp_created_at = rd_now rd\<rparr>))"

definition clock_ok :: "readings \<Rightarrow> int \<Rightarrow> message_row list \<Rightarrow> bool" where
  "clock_ok rd t ms \<longleftrightarrow> rd_accepted_at rd = PInt t \<and> 0 \<le> t \<and> t \<le> MAX_SQLITE_INTEGER \<and> int (length ms) + 1 < 2 ^ 63"

lemma stored_ready: "stored ms s \<Longrightarrow> clock_ok rd t ms \<Longrightarrow> ready (ad_core s) t"
  by (simp add: stored_def clock_ok_def ready_def message_count_def)

lemma mailbox_count: "transportable db \<Longrightarrow> int (length (filter (\<lambda>row. mr_recipient row = SText p) (messages db))) = mailbox_last db p"
proof -
  assume "transportable db"
  then have m: "messages_ok db" by (rule transportable_parts(3))
  then have "map mr_sequence (mailbox db p) = [1..mailbox_last db p]" "0 \<le> mailbox_last db p"
    using mailbox_last_bounds [OF m] by (auto simp: messages_ok_def)
  then have "int (length (mailbox db p)) = mailbox_last db p" by (metis length_map length_upto diff_add_cancel int_nat_eq)
  then show ?thesis by (simp add: mailbox_def)
qed

lemma frame_effect:
  assumes "stored ms s" "clock_ok rd t ms" "normalize_callsign (PStr peer) (lit ''APRS source'') = Inr callsign"
    "core_frame burst_methods rd callsign frame s = (r, ev, s')"
  shows "\<exists>db fs rs. r = Inr fs \<and> response_frames fs rs \<and> messages db = ms \<and> stored (ms @ (case new_send ms peer frame of
      None \<Rightarrow> [] | Some (c, callsign, recipient, body) \<Rightarrow> [accepted_row c callsign recipient (body_bytes body) t db])) s'"
proof -
  let ?db = "sv_db (ad_core s)"
  have ready: "ready (ad_core s) t" and t: "rd_accepted_at rd = PInt t" and ms: "messages ?db = ms" and st: "sv_message_store (ad_core s)"
    and tr: "transportable ?db" using assms(1,2) stored_ready by (auto simp: clock_ok_def stored_def)
  obtain fs rs ev1 sv where h: "handle_frame (PStr callsign) (PBytes frame) (PInt t) (ad_core s) = (Inr fs, ev1, sv)"
    "response_frames fs rs" "transportable (sv_db sv)"
    using handle_frame_effect [OF ready, of callsign frame] by blast
  let ?rows = "case new_send ms peer frame of
      None \<Rightarrow> [] | Some (c, callsign, recipient, body) \<Rightarrow> [accepted_row c callsign recipient (body_bytes body) t ?db]"
  have "callsign_ok callsign" by (rule normalize_callsign_ok [OF assms(3)])
  then have "messages (sv_db sv) = ms @ ?rows" "sv_message_store sv"
    using handle_frame_messages [OF ready h(1)] st ms assms(3) mailbox_count [OF tr]
    by (auto simp: new_send_def split: sum.splits protocol_object.splits)
  then have "stored (ms @ ?rows) (s\<lparr>ad_core := sv\<rparr>)" using h(3) assms(1) by (simp add: stored_def)
  moreover have events: "keeps (stored (ms @ ?rows)) (forA ev1 (deliver_event burst_methods))"
    by (intro keeping store.deliver_event_keeps)
  moreover obtain r2 ev2 where run: "forA ev1 (deliver_event burst_methods) (s\<lparr>ad_core := sv\<rparr>) = (r2, ev2, s')" and r: "r = Inr fs"
    using assms(4) h(1) t by (auto simp: core_frame_def split: prod.splits)
  ultimately have "stored (ms @ ?rows) s'" using keeps_run [OF events _ run] by simp
  then show ?thesis using r h(2) ms by blast
qed

lemma finish_stored:
  assumes "stored ms s"
  shows "stored ms (snd (snd (finish_request burst_methods (rd_now rd) peer callsign tid message_id frame send responses s)))"
    "map_of (rc_entries (ad_replay (snd (snd (finish_request burst_methods (rd_now rd) peer callsign tid message_id frame send responses s))))) (peer, tid)
       = Some \<lparr>rp_request = frame, rp_responses = responses, rp_created_at = rd_now rd\<rparr>"
proof -
  let ?s1 = "mt_supersede burst_methods peer (peer, tid) s"
  let ?rc = "replay_put peer tid frame responses (rd_now rd) (ad_replay ?s1)"
  have s1: "stored ms ?s1" by (rule store.supersede_keeps [OF assms(1)])
  then have "stored_with ms ?rc (?s1\<lparr>ad_replay := ?rc\<rparr>)"
    by (simp add: stored_with_def stored_def replay_put_ok)
  from keepsD [OF answered.answer_request_keeps this]
  have "stored_with ms ?rc (snd (snd (finish_request burst_methods (rd_now rd) peer callsign tid message_id frame send responses s)))"
    by (simp add: finish_request_def)
  moreover have "map_of (rc_entries ?rc) (peer, tid)
      = Some \<lparr>rp_request = frame, rp_responses = responses, rp_created_at = rd_now rd\<rparr>"
    using s1 by (intro replay_put_ok(2)) (simp add: stored_def)
  ultimately show "stored ms (snd (snd (finish_request burst_methods (rd_now rd) peer callsign tid message_id frame send responses s)))"
    "map_of (rc_entries (ad_replay (snd (snd (finish_request burst_methods (rd_now rd) peer callsign tid message_id frame send responses s))))) (peer, tid)
       = Some \<lparr>rp_request = frame, rp_responses = responses, rp_created_at = rd_now rd\<rparr>"
    by (simp_all add: stored_with_def)
qed

lemma core_outcome:
  assumes "stored ms s" "clock_ok rd t ms" "normalize_callsign (PStr peer) (lit ''APRS source'') = Inr callsign"
  shows "frame_outcome rd t (peer, tid) frame ms (snd (snd (bindA (core_frame burst_methods rd callsign frame) (\<lambda>responses.
    seqA (activate_aprs_if_accepted rd peer responses)
      (finish_request burst_methods (rd_now rd) peer callsign tid message_id frame send responses)) s)))"
proof -
  obtain r ev s2 where run: "core_frame burst_methods rd callsign frame s = (r, ev, s2)" by (rule prod_cases3)
  obtain db fs rs where r: "r = Inr fs" "response_frames fs rs" "messages db = ms"
    and s2: "stored (ms @ (case new_send ms peer frame of
      None \<Rightarrow> [] | Some (c, callsign, recipient, body) \<Rightarrow> [accepted_row c callsign recipient (body_bytes body) t db])) s2"
    using frame_effect [OF assms run] by blast
  obtain s3 where s3: "activate_aprs_if_accepted rd peer fs s2 = (Inr (), [], s3)"
    using activate_total [OF r(2) assms(3)] by blast
  note fin = finish_stored [OF keeps_run [OF store.activate_keeps s2 s3]]
  have "list_all (\<lambda>x. is_ok (decode_frame (PBytes x))) fs"
    using r(2) by (auto simp: response_frames_def list_all2_conv_all_nth list_all_length is_ok_iff)
  then show ?thesis using run r s3 fin [of rd peer callsign tid message_id frame send fs]
    by (auto simp: bindA_run seqA_def case_prod_unfold frame_outcome_def split: option.splits)
qed

lemma execute_outcome:
  assumes "stored ms s" "clock_ok rd t ms"
  shows "frame_outcome rd t (peer, tid) frame ms (snd (snd (execute_request burst_methods rd peer tid message_id frame s)))"
proof (cases "decode_frame (PBytes frame)")
  case (Inl e)
  then show ?thesis using assms(1) by (simp add: execute_request_def Let_def raiseA_def frame_outcome_def new_send_def)
next
  case (Inr request)
  show ?thesis
  proof (cases "is_send request")
    case True
    then obtain c recipient body where q: "request = SendMessage c recipient body" by (cases request) simp_all
    show ?thesis
    proof (cases "normalize_callsign (PStr peer) (lit ''APRS source'')")
      case (Inl e)
      then show ?thesis using assms(1) \<open>decode_frame _ = _\<close> q
        by (simp add: execute_request_def Let_def whenA_def bindA_run seqA_def returnA_def resultA_def raiseA_def frame_outcome_def new_send_def)
    next
      case callsign: (Inr callsign)
      show ?thesis using core_outcome [OF assms callsign, of tid frame message_id True] Inr q callsign
        by (simp add: execute_request_def Let_def whenA_def bindA_result seqA_def)
    qed
  next
    case False
    then have none: "new_send ms peer frame = None" using Inr by (cases request) (simp_all add: new_send_def)
    have out: "frame_outcome rd t (peer, tid) frame ms s' \<longleftrightarrow> stored ms s'" for s' :: burst_adapter by (simp add: frame_outcome_def none)
    have rec: "keeps (stored ms :: burst_adapter \<Rightarrow> bool) (case request of GetNewMessages since _ \<Rightarrow> reconcile_message_cursor rd peer callsign since | _ \<Rightarrow> returnA ())"
      for callsign
      by (cases request) (simp_all add: keeps_simple store.reconcile_keeps)
    have "keeps (stored ms :: burst_adapter \<Rightarrow> bool) (seqA (case request of GetNewMessages since _ \<Rightarrow> reconcile_message_cursor rd peer callsign since | _ \<Rightarrow> returnA ())
        (bindA (core_frame burst_methods rd callsign frame) (\<lambda>responses.
        seqA (activate_aprs_if_accepted rd peer responses)
        (finish_request burst_methods (rd_now rd) peer callsign tid message_id frame (is_send request) responses))))"
      if c: "normalize_callsign (PStr peer) (lit ''APRS source'') = Inr callsign" for callsign
    proof (rule keepsI)
      fix s' :: burst_adapter assume s': "stored ms s'"
      show "stored ms (snd (snd (seqA (case request of GetNewMessages since _ \<Rightarrow> reconcile_message_cursor rd peer callsign since | _ \<Rightarrow> returnA ())
        (bindA (core_frame burst_methods rd callsign frame) (\<lambda>responses.
        seqA (activate_aprs_if_accepted rd peer responses)
        (finish_request burst_methods (rd_now rd) peer callsign tid message_id frame (is_send request) responses))) s')))"
        unfolding seqA_def [of "case request of GetNewMessages since _ \<Rightarrow> _ since | _ \<Rightarrow> _"]
        by (rule bindA_keeps_then [OF rec s']) (use core_outcome [OF _ assms(2) c, of _ tid frame message_id "is_send request"] in \<open>simp_all add: out\<close>)
    qed
    then have norm: "keeps (stored ms :: burst_adapter \<Rightarrow> bool) (bindA (resultA (normalize_callsign (PStr peer) (lit ''APRS source''))) (\<lambda>callsign.
        seqA (case request of GetNewMessages since _ \<Rightarrow> reconcile_message_cursor rd peer callsign since | _ \<Rightarrow> returnA ())
        (bindA (core_frame burst_methods rd callsign frame) (\<lambda>responses.
        seqA (activate_aprs_if_accepted rd peer responses)
        (finish_request burst_methods (rd_now rd) peer callsign tid message_id frame (is_send request) responses)))))"
      by (cases "normalize_callsign (PStr peer) (lit ''APRS source'')") (simp_all add: bindA_result keeping)
    have "keeps (stored ms) (execute_request burst_methods rd peer tid message_id frame)"
      unfolding execute_request_def Let_def Inr bindA_result
      by (rule keeps_if, rule keeps_seq, rule keeps_when, rule store.confirmA_keeps, rule keeps_simple(1), rule keeps_seq,
          rule keeps_when, rule store.confirmA_keeps, rule norm)
    from keepsD [OF this assms(1)] show ?thesis unfolding out .
  qed
qed

section \<open>A body that is a fragment\<close>

lemma fragment_prefix:
  assumes "parse_fragment body = Inr f"
  shows "take 2 body = lit ''Q2'' \<or> take 3 body = lit ''Q1:'' \<and> 14 \<le> length body"
proof (cases "take 2 body = lit ''Q2''")
  case False
  have carriage: "take 3 c = lit ''Q1:'' \<and> 14 \<le> length c" if "match_q1 c = Some x" for c x
    using that by (auto simp: match_q1_def Let_def split: if_splits)
  show ?thesis
  proof (cases "123 \<in> set body")
    case True
    then obtain c m x where r: "rsplit_brace body = (c, m)" "match_q1 c = Some x"
      using assms False by (auto simp: parse_fragment_def bindE_eq_Inr split: if_splits prod.splits option.splits)
    have "body = c @ 123 # m" by (rule rsplit_brace_join [OF True r(1)])
    then show ?thesis using carriage [OF r(2)] by simp
  next
    case no: False
    then show ?thesis using assms False carriage
      by (auto simp: parse_fragment_def bindE_eq_Inr split: option.splits)
  qed
qed simp

lemma no_control:
  assumes "take 2 body \<noteq> lit ''A2''" "take 2 body \<noteq> lit ''N2''" "match_legacy_ack body = None" "match_legacy_missing body = None"
  shows "parse_burst_control body = Inr None"
  using assms by (simp add: parse_burst_control_def)

lemma prefix_take: "take m xs = t \<Longrightarrow> n \<le> m \<Longrightarrow> take n xs = take n t"
  by (metis min.absorb1 take_take)

lemma fragment_no_control:
  assumes "parse_fragment body = Inr f"
  shows "parse_burst_control body = Inr None" "match_ack body = None"
proof -
  have q: "take 2 body = lit ''Q2'' \<or> take 2 body = lit ''Q1'' \<and> 14 \<le> length body"
    using fragment_prefix [OF assms] prefix_take [of 3 body "lit ''Q1:''" 2] by (auto simp: lit_def)
  then have two: "take 2 body \<noteq> lit ''A2''" "take 2 body \<noteq> lit ''N2''" "take 2 body \<noteq> lit ''ac''" by (auto simp: lit_def)
  have "match_legacy_ack body = None" "match_legacy_missing body = None"
    using q prefix_take [of 4 body "lit ''Q1A:''" 2] prefix_take [of 4 body "lit ''Q1N:''" 2]
    by (auto simp: match_legacy_ack_def match_legacy_missing_def lit_def)
  with two show "parse_burst_control body = Inr None" by (intro no_control)
  have "take 3 body \<noteq> lit ''ack''" using two(3) prefix_take [of 3 body "lit ''ack''" 2] by (auto simp: lit_def)
  then show "match_ack body = None" by (simp add: match_ack_def)
qed

section \<open>One body\<close>

text \<open>The frame a body completes, unless the answer to its transaction is in the replay cache.\<close>

definition completed_by :: "pystr \<Rightarrow> aprs_fragment \<Rightarrow> rat \<Rightarrow> 'z adapter_scheme \<Rightarrow> (key \<times> bytes) option" where
  "completed_by peer f now s =
     (case (fst (replay_get peer (af_transaction_id f) now (ad_replay s)), fst (reassembler_add peer f now (ad_reassembly s))) of
        (None, Inr (Some frame)) \<Rightarrow> Some ((peer, af_transaction_id f), frame)
      | _ \<Rightarrow> None)"

definition completed_frame :: "readings \<Rightarrow> pystr \<Rightarrow> pystr \<Rightarrow> 'z adapter_scheme \<Rightarrow> (key \<times> bytes) option" where
  "completed_frame rd peer body s =
     (case (validate_peer peer, parse_fragment body) of
        (Inr p, Inr f) \<Rightarrow> completed_by p f (rd_now rd) s | _ \<Rightarrow> None)"

definition body_outcome :: "readings \<Rightarrow> int \<Rightarrow> (key \<times> bytes) option \<Rightarrow> message_row list \<Rightarrow> 'z adapter_scheme \<Rightarrow> bool" where
  "body_outcome rd t completed ms s \<longleftrightarrow>
     (case completed of None \<Rightarrow> stored ms s | Some (k, frame) \<Rightarrow> frame_outcome rd t k frame ms s)"

lemma outcome_None: "body_outcome rd t None ms s \<longleftrightarrow> stored ms s"
  by (simp add: body_outcome_def)

lemma fragment_outcome:
  assumes "stored ms s" "clock_ok rd t ms" "fragment_ok f"
  shows "body_outcome rd t (completed_by peer f (rd_now rd) s) ms (snd (snd (receive_fragment burst_methods rd peer message_id f s)))"
proof -
  let ?tid = "af_transaction_id f" and ?now = "rd_now rd"
  obtain r ra where add: "reassembler_add peer f ?now (ad_reassembly s) = (r, ra)" by fastforce
  obtain found rc where get: "replay_get peer ?tid ?now (ad_replay s) = (found, rc)" by fastforce
  let ?s1 = "s\<lparr>ad_reassembly := ra\<rparr>"
  let ?s2 = "?s1\<lparr>ad_replay := rc\<rparr>"
  have run: "reassembleA peer f ?now s = (Inr r, [], ?s1)" "replay_getA peer ?tid ?now ?s1 = (Inr found, [], ?s2)"
    using add get by (simp_all add: reassembleA_def replay_getA_def)
  have s1: "stored ms ?s1" by (rule keeps_run [OF store.reassembleA_keeps [OF assms(3)] assms(1) run(1)])
  have s2: "stored ms ?s2" by (rule keeps_run [OF store.replay_getA_keeps s1 run(2)])
  have reject: "stored ms (snd (snd (seqA (whenA b (confirmA burst_methods peer message_id a)) (returnA d) s')))"
    if "stored ms s'" for a b s' and d :: disposition
  proof -
    have "keeps (stored ms) (seqA (whenA b (confirmA burst_methods peer message_id a)) (returnA d))"
      by (intro keeping store.confirmA_keeps)
    then show ?thesis using that by (rule keepsD)
  qed
  show ?thesis
  proof (cases r)
    case (Inl e)
    then show ?thesis using run(1) add get reject [OF s1] s1
      by (cases e) (simp_all add: receive_fragment_def Let_def bindA_run completed_by_def outcome_None raiseA_def case_prod_unfold split: option.split)
  next
    case (Inr x)
    show ?thesis
    proof (cases x)
      case None
      then show ?thesis using run(1) add get Inr reject [OF s1]
        by (simp add: receive_fragment_def Let_def bindA_run completed_by_def outcome_None case_prod_unfold split: option.split)
    next
      case (Some frame)
      show ?thesis
      proof (cases found)
        case None
        then show ?thesis using run add get Inr Some execute_outcome [OF s2 assms(2), of peer ?tid frame message_id]
          by (simp add: receive_fragment_def Let_def bindA_run completed_by_def body_outcome_def case_prod_unfold)
      next
        case cached: (Some cached)
        then show ?thesis using run add get Inr Some reject [OF s2] keepsD [OF store.answer_replay_keeps s2]
          by (simp add: receive_fragment_def Let_def bindA_run completed_by_def outcome_None case_prod_unfold)
      qed
    qed
  qed
qed

lemma validate_peer_same: "validate_peer peer = Inr p \<Longrightarrow> p = peer"
  by (simp add: validate_peer_def Let_def split: if_splits)

lemma burst_confirm_accepted [simp]: "updateA (mt_confirm_inbound burst_methods peer m True) = returnA ()"
  by (rule ext) (simp add: updateA_def returnA_def burst_methods_def burst_confirm_inbound_def)

lemma commit_outcome:
  assumes "stored ms s" "clock_ok rd t ms"
  shows "body_outcome rd t (completed_frame rd peer body s) ms (snd (snd (commit_receive burst_methods rd peer body s)))"
proof (cases "validate_peer peer")
  case (Inl e)
  then show ?thesis using assms(1) by (simp add: commit_receive_def returnA_def completed_frame_def outcome_None)
next
  case (Inr p)
  then have p: "p = peer" by (rule validate_peer_same)
  show ?thesis
  proof (cases "parse_fragment body")
    case f: (Inr f)
    then show ?thesis using Inr p fragment_no_control(2) [OF f]
        fragment_outcome [OF assms parse_fragment_ok [OF f], of peer "search_message_id body"]
      by (simp add: commit_receive_def Let_def confirmA_def whenA_def completed_frame_def)
  next
    case e: (Inl e)
    have "keeps (stored ms) (seqA (whenA b (confirmA burst_methods peer m True)) (seqA (whenA b' (confirmA burst_methods peer m False)) (returnA Ignored)))"
      for b b' m by (intro keeping store.confirmA_keeps)
    from keepsD [OF this assms(1)] show ?thesis
      using Inr p e keepsD [OF store.receive_ack_keeps assms(1)]
      by (simp add: commit_receive_def Let_def completed_frame_def outcome_None split: option.split)
  qed
qed

text \<open>The burst adapter's controls keep the store and the answer.\<close>

lemma stored_frame: "stored ms s \<Longrightarrow> ad_core s' = ad_core s \<Longrightarrow> ad_replay s' = ad_replay s \<Longrightarrow> stored ms s'"
  by (simp add: stored_def)

lemma outcome_mono:
  assumes "body_outcome rd t o' ms s" "\<And>ms'. stored ms' s \<Longrightarrow> stored ms' s'"
    "\<And>ms' k v. stored ms' s \<Longrightarrow> map_of (rc_entries (ad_replay s)) k = Some v \<Longrightarrow> rp_created_at v = rd_now rd \<Longrightarrow>
      map_of (rc_entries (ad_replay s')) k = Some v"
  shows "body_outcome rd t o' ms s'"
proof (cases o')
  case (Some x)
  obtain k frame where x: "x = (k, frame)" by (cases x)
  show ?thesis
  proof (cases "new_send ms (fst k) frame")
    case None
    then show ?thesis using assms(1,2) Some x by (simp add: body_outcome_def frame_outcome_def)
  next
    case send: (Some q)
    obtain c callsign recipient body where q: "q = (c, callsign, recipient, body)" by (cases q)
    obtain db responses where d: "messages db = ms \<and> list_all (\<lambda>x. is_ok (decode_frame (PBytes x))) responses" "stored (ms @ [accepted_row c callsign recipient (body_bytes body) t db]) s"
      "map_of (rc_entries (ad_replay s)) k = Some \<lparr>rp_request = frame, rp_responses = responses, rp_created_at = rd_now rd\<rparr>"
      using assms(1) Some x send q by (auto simp: body_outcome_def frame_outcome_def)
    show ?thesis using Some x send q d(1) assms(2) [OF d(2)] assms(3) [OF d(2,3)]
      by (auto simp: body_outcome_def frame_outcome_def)
  qed
qed (use assms(1,2) in \<open>simp add: outcome_None\<close>)

lemma outcome_frame:
  assumes "body_outcome rd t o' ms s" "ad_core s' = ad_core s" "ad_replay s' = ad_replay s"
  shows "body_outcome rd t o' ms s'"
  using assms(1) by (rule outcome_mono) (use assms(2,3) in \<open>simp_all add: stored_frame\<close>)

lemma replay_get_holds:
  assumes "replay_ok rc" "map_of (rc_entries rc) k = Some v" "now - rp_created_at v < rc_ttl rc"
  shows "map_of (rc_entries (snd (replay_get peer tid now rc))) k = Some v"
proof -
  have "map_of (expire_replays (rc_ttl rc) now (rc_entries rc)) k = Some v"
    using assms by (intro rc.expire_live) (simp_all add: replay_ok_def)
  then show ?thesis by (simp add: replay_get_def Let_def replay_expire_def)
qed

lemma outcome_replay_get: "keeps (body_outcome rd t o' ms) (replay_getA p tid (rd_now rd) :: (burst_adapter, replay option) act)"
proof (rule keepsI)
  fix s :: burst_adapter assume e: "body_outcome rd t o' ms s"
  let ?s = "s\<lparr>ad_replay := snd (replay_get p tid (rd_now rd) (ad_replay s))\<rparr>"
  have st: "stored ms' ?s" if "stored ms' s" for ms' using that by (simp add: stored_def replay_get_ok)
  have "body_outcome rd t o' ms ?s"
    using e st
  proof (rule outcome_mono)
    fix ms' k v assume "stored ms' s" "map_of (rc_entries (ad_replay s)) k = Some v" "rp_created_at v = rd_now rd"
    then show "map_of (rc_entries (ad_replay ?s)) k = Some v"
      using replay_get_holds [of "ad_replay s" k v "rd_now rd" p tid] by (simp add: stored_def replay_ok_def)
  qed
  then show "body_outcome rd t o' ms (snd (snd (replay_getA p tid (rd_now rd) s)))"
    by (simp add: replay_getA_def case_prod_unfold)
qed

text \<open>What the burst adapter does beside the durable-ACK adapter.\<close>

lemma outcome_updates:
  assumes "body_outcome rd t o' ms s"
  shows "body_outcome rd t o' ms (say p text s)" "body_outcome rd t o' ms (s\<lparr>ba_rx_progress := d\<rparr>)"
    "body_outcome rd t o' ms (s\<lparr>ba_queue := q, ba_active := a\<rparr>)"
  by (rule outcome_frame [OF assms]; simp add: say_def)+

lemma outcome_compact: "keeps (body_outcome rd t o' ms) (compact_stored_result p tid (rd_now rd))"
proof -
  have "keeps (body_outcome rd t o' ms) (updateA (\<lambda>s :: burst_adapter. s\<lparr>ba_queue := q s, ba_active := a s\<rparr>))" for q a
    by (intro keeping outcome_updates)
  then show ?thesis unfolding compact_stored_result_def Let_def
    by (auto intro!: keeping outcome_replay_get outcome_updates split: option.splits)
qed

lemma outcome_acknowledge: "keeps (body_outcome rd t o' ms) (acknowledge_burst p tid)"
  unfolding acknowledge_burst_def by (intro keeping outcome_updates)

lemma stored_updates: "stored ms s \<Longrightarrow> stored ms (s\<lparr>ba_active := a\<rparr>)" "stored ms s \<Longrightarrow> stored ms (note_fragment k f now s)"
  "stored ms s \<Longrightarrow> stored ms (s\<lparr>ba_rx_progress := d\<rparr>)" "stored ms s \<Longrightarrow> stored ms (drop_active p tx s)"
  "stored ms s \<Longrightarrow> stored ms (s\<lparr>ba_queue := q\<rparr>)" "stored ms s \<Longrightarrow> stored ms (s\<lparr>ba_queue := q, ba_active := a\<rparr>)"
  by (simp_all add: stored_def note_fragment_def Let_def drop_active_def split: option.split)

lemma stored_control: "keeps (stored ms) (receive_control rd peer c)"
proof -
  have "keeps (stored ms) (complete_outbound rd peer tx)" for tx
    unfolding complete_outbound_def
    by (auto intro!: keeping stored_updates stored_delivered split: option.splits)
  then show ?thesis unfolding receive_control_def Let_def
    by (auto intro!: keeping store.presence_keeps stored_updates split: option.splits control.splits)
qed

lemma note_fragment_frame: "ad_replay (note_fragment k f now s) = ad_replay s" "ad_reassembly (note_fragment k f now s) = ad_reassembly s"
  by (simp_all add: note_fragment_def Let_def)

lemma burst_outcome:
  assumes "stored ms s" "clock_ok rd t ms"
  shows "body_outcome rd t (completed_frame rd peer body s) ms (snd (snd (burst_receive rd peer body s)))"
proof (cases "validate_peer peer")
  case (Inl e)
  then show ?thesis using assms(1) by (simp add: burst_receive_def returnA_def completed_frame_def outcome_None)
next
  case (Inr p)
  then have p: "p = peer" by (rule validate_peer_same)
  show ?thesis
  proof (cases "parse_fragment body")
    case (Inl e)
    then have none: "completed_frame rd peer body s = None" by (simp add: completed_frame_def split: sum.split)
    show ?thesis using Inl Inr p commit_outcome [OF assms, of peer body] keepsD [OF stored_control assms(1)] assms(1)
      by (cases "parse_burst_control body")
        (simp_all add: burst_receive_def none outcome_None raiseA_def bindA_result split: option.split)
  next
    case f: (Inr f)
    let ?k = "(peer, af_transaction_id f)" and ?o = "completed_frame rd peer body s"
    let ?s = "note_fragment ?k f (rd_now rd) s"
    have after: "keeps (body_outcome rd t ?o ms) (seqA (whenA (d \<in> {Completed, Replayed})
           (seqA (acknowledge_burst peer (af_transaction_id f)) (compact_stored_result peer (af_transaction_id f) (rd_now rd))))
         (seqA (whenA (d \<in> {Completed, Replayed, Invalid, Conflict})
           (updateA (\<lambda>s. s\<lparr>ba_rx_progress := AList.delete ?k (ba_rx_progress s)\<rparr>)))
         (returnA d)))" for d
      by (intro keeping outcome_acknowledge outcome_compact outcome_updates)
    have "stored ms ?s" using assms(1) by (rule stored_updates)
    from commit_outcome [OF this assms(2), of peer body]
    have run: "body_outcome rd t ?o ms (snd (snd (commit_receive burst_methods rd peer body ?s)))"
      by (simp add: completed_frame_def completed_by_def note_fragment_frame cong: sum.case_cong)
    obtain r ev s1 where m: "commit_receive burst_methods rd peer body ?s = (r, ev, s1)" by (rule prod_cases3)
    then have s1: "body_outcome rd t ?o ms s1" using run by simp
    show ?thesis using Inr p f m s1 keepsD [OF after s1] fragment_no_control(1) [OF f]
      by (cases r) (simp_all add: burst_receive_def Let_def bindA_run case_prod_unfold)
  qed
qed

text \<open>A live answer is found again, an absent one stays absent.\<close>

lemma replay_get_again:
  assumes "replay_ok rc"
  shows "fst (replay_get peer tid now (snd (replay_get peer tid now rc))) = fst (replay_get peer tid now rc)"
proof -
  let ?rc = "snd (replay_get peer tid now rc)" and ?k = "(peer, tid)"
  have keys: "keys_ok (rc_entries rc)" using assms by (simp add: replay_ok_def)
  have ttl: "rc_ttl ?rc = rc_ttl rc" by (simp add: replay_get_def Let_def replay_expire_def)
  have keys': "keys_ok (rc_entries ?rc)" using replay_get_ok [OF assms] by (simp add: replay_ok_def)
  have g: "fst (replay_get peer tid now c) = map_of (expire_replays (rc_ttl c) now (rc_entries c)) ?k" for c
    by (simp add: replay_get_def Let_def replay_expire_def)
  show ?thesis
  proof (cases "fst (replay_get peer tid now rc)")
    case None
    then have "map_of (rc_entries ?rc) ?k = None" by (simp add: replay_get_def Let_def replay_expire_def)
    then have "map_of (expire_replays (rc_ttl ?rc) now (rc_entries ?rc)) ?k = None" using keys' by (intro rc.expire_absent)
    then show ?thesis using None g [of ?rc] by simp
  next
    case (Some v)
    then have m: "map_of (expire_replays (rc_ttl rc) now (rc_entries rc)) ?k = Some v" using g [of rc] by simp
    then have o: "map_of (rc_entries rc) ?k = Some v" by (rule rc.expire_SomeD [OF keys])
    then have live: "now - rp_created_at v < rc_ttl rc" using m rc.expire_stale [OF keys o] by fastforce
    have "map_of (rc_entries ?rc) ?k = Some v" by (rule replay_get_holds [OF assms o live])
    then have "map_of (expire_replays (rc_ttl ?rc) now (rc_entries ?rc)) ?k = Some v"
      using live keys' ttl by (intro rc.expire_live) simp_all
    then show ?thesis using Some g [of ?rc] by simp
  qed
qed

lemma replay_get_live:
  assumes "replay_ok rc" "map_of (rc_entries rc) (peer, tid) = Some v" "now - rp_created_at v < rc_ttl rc"
  shows "fst (replay_get peer tid now rc) = Some v"
proof -
  have "map_of (expire_replays (rc_ttl rc) now (rc_entries rc)) (peer, tid) = Some v"
    using assms by (intro rc.expire_live) (simp_all add: replay_ok_def)
  then show ?thesis by (simp add: replay_get_def Let_def replay_expire_def)
qed

text \<open>A body of a transaction whose answer is live changes nothing.\<close>

lemma guarded_known:
  assumes "stored ms s" "validate_peer peer = Inr peer" "parse_fragment body = Inr f"
    "fst (replay_get peer (af_transaction_id f) (rd_now rd) (ad_replay s)) \<noteq> None"
  shows "stored ms (snd (snd (guarded_receive rd peer body s)))"
proof -
  have again: "keeps (stored ms) (seqA (updateA (\<lambda>s. s\<lparr>ba_rx_progress := AList.delete k (ba_rx_progress s)\<rparr>))
      (seqA (acknowledge_burst p tid) (seqA (compact_stored_result p tid now) (returnA Replayed))))" for k p tid now
  proof -
    have "stored ms s \<Longrightarrow> stored ms (say p body s)" for body and s :: burst_adapter
      by (simp add: stored_def say_def)
    then show ?thesis unfolding acknowledge_burst_def compact_stored_result_def Let_def
      by (auto intro!: keeping store.replay_getA_keeps stored_updates split: option.splits)
  qed
  obtain found rc where g: "replay_get peer (af_transaction_id f) (rd_now rd) (ad_replay s) = (Some found, rc)"
    using assms(4) by (metis option.exhaust prod.collapse)
  have "stored ms (s\<lparr>ad_replay := rc\<rparr>)" using assms(1) g replay_get_ok [of "ad_replay s" peer "af_transaction_id f" "rd_now rd"]
    by (simp add: stored_def)
  from keepsD [OF again this] show ?thesis using assms(2,3) g
    by (simp add: guarded_receive_def replay_getA_def bindA_run case_prod_unfold)
qed

lemma guarded_outcome:
  assumes "stored ms s" "clock_ok rd t ms"
  shows "body_outcome rd t (completed_frame rd peer body s) ms (snd (snd (guarded_receive rd peer body s)))"
proof (cases "bindE (validate_peer peer) (\<lambda>n. bindE (parse_fragment body) (\<lambda>f. Inr (n, f)))")
  case (Inl e)
  then show ?thesis using burst_outcome [OF assms, of peer body] by (simp add: guarded_receive_def)
next
  case (Inr nf)
  then obtain f where v: "validate_peer peer = Inr peer" and f: "parse_fragment body = Inr f"
    using validate_peer_same by (auto simp: bindE_eq_Inr)
  obtain found rc where g: "replay_get peer (af_transaction_id f) (rd_now rd) (ad_replay s) = (found, rc)" by fastforce
  show ?thesis
  proof (cases found)
    case None
    let ?s = "s\<lparr>ad_replay := rc\<rparr>"
    have ok: "replay_ok (ad_replay s)" using assms(1) by (simp add: stored_def)
    have s': "stored ms ?s" using assms(1) g replay_get_ok [OF ok, of peer "af_transaction_id f" "rd_now rd"] by (simp add: stored_def)
    have "completed_frame rd peer body ?s = completed_frame rd peer body s"
      using v f g replay_get_again [OF ok, of peer "af_transaction_id f" "rd_now rd"]
      by (simp add: completed_frame_def completed_by_def)
    moreover have "guarded_receive rd peer body s = burst_receive rd peer body ?s"
      using v f g None by (simp add: guarded_receive_def replay_getA_def bindA_run)
    ultimately show ?thesis using burst_outcome [OF s' assms(2), of peer body] by simp
  next
    case (Some a)
    then have "stored ms (snd (snd (guarded_receive rd peer body s)))" using guarded_known [OF assms(1) v f] g by simp
    moreover have "completed_frame rd peer body s = None" using v f g Some
      by (simp add: completed_frame_def completed_by_def)
    ultimately show ?thesis by (simp add: outcome_None)
  qed
qed

end
