(* ===== verification/Burst_Properties.thy ===== *)
theory Burst_Properties
  imports Request_Once Carriage_Properties
begin

text \<open>
  The properties of the production APRS adapter: its bounds, its independent peers, its retries,
  and requests that take effect once, with the one case in which polling breaks down.
\<close>

section \<open>A transaction ID that no control can name\<close>

lemma transaction_code_total: "is_ok (transaction_code tid) \<longleftrightarrow> transaction_byte tid"
  by (auto simp: is_ok_iff transaction_code_iff transaction_byte_def)

text \<open>An overdue inbound transaction whose missing fragments cannot be requested.\<close>

definition blocked :: "rat \<Rightarrow> key \<Rightarrow> burst_adapter \<Rightarrow> bool" where
  "blocked t k s \<longleftrightarrow> \<not> transaction_byte (snd k)
     \<and> (\<exists>p. map_of (ba_rx_progress s) k = Some p \<and> rx_missing p \<noteq> [] \<and> rx_deadline p \<le> t)"

lemma encode_missing_blocked:
  assumes "\<not> transaction_byte tid" "is \<noteq> []" "\<forall>i \<in> set is. 0 \<le> i \<and> i < 16"
  shows "\<exists>m. encode_missing tid is = Inl (CarriageError m)"
proof -
  obtain bitmap where m: "missing_mask is 0 = Inr bitmap" using missing_mask_total assms(3) by blast
  have "bit bitmap (nat (hd is))" using missing_mask_run [OF m] assms(2,3) by simp
  then have "bitmap \<noteq> 0" by auto
  moreover have "\<exists>m. transaction_code tid = Inl (CarriageError m)"
    using assms(1) transaction_code_total [of tid] parse_base36_error [of tid 3]
    by (cases "parse_base36 tid 3") (auto simp: transaction_code_def is_ok_def split: if_splits)
  ultimately show ?thesis using m by (auto simp: encode_missing_def)
qed

lemma poll_progress_blocked:
  assumes "(k, p) \<in> set ps" "\<not> transaction_byte (snd k)" "rx_missing p \<noteq> []" "rx_deadline p \<le> now" "progress_ok ps"
    "map_of (ba_rx_progress s) k = Some p"
  shows "\<exists>m s'. poll_progress now ps s = (Inl (CarriageError m), [], s')
    \<and> map_of (ba_rx_progress s') k = Some p \<and> ad_immediate s' = ad_immediate s"
  using assms
proof (induction now ps arbitrary: s rule: poll_progress.induct)
  case (2 now k1 p1 ps)
  have ps: "progress_ok ps" and total: "rx_total p1 \<le> 16" and fresh: "(k, p) \<in> set ps \<Longrightarrow> k1 \<noteq> k"
    using "2.prems"(5) by (auto simp: progress_ok_def keys_ok_def) force
  have range: "\<forall>i \<in> set (rx_missing p1). 0 \<le> i \<and> i < 16" using total by (auto simp: rx_missing_def)
  show ?case
  proof (cases "(k, p) = (k1, p1)")
    case True
    then obtain m where "encode_missing (snd k1) (rx_missing p1) = Inl (CarriageError m)"
      using encode_missing_blocked [OF "2.prems"(2,3)] range by auto
    then show ?thesis using True "2.prems"(3,4,6) by (auto simp: raiseA_def)
  next
    case False
    then have mem: "(k, p) \<in> set ps" using "2.prems"(1) by auto
    note ih = "2.IH"(1) [OF _ mem "2.prems"(2-4) ps] "2.IH"(2) [OF _ _ mem "2.prems"(2-4) ps]
      "2.IH"(3) [OF _ _ mem "2.prems"(2-4) ps]
    show ?thesis
    proof (cases "now < rx_deadline p1")
      case True
      then show ?thesis using ih(1) [OF True "2.prems"(6)] by simp
    next
      case late: False
      show ?thesis
      proof (cases "rx_missing p1 = []")
        case True
        then show ?thesis using ih(2) [OF late True, of "s\<lparr>ba_rx_progress := AList.delete k1 (ba_rx_progress s)\<rparr>"]
          "2.prems"(6) fresh [OF mem] late by simp
      next
        case missing: False
        let ?s = "s\<lparr>ba_rx_progress := AList.update k1 (p1\<lparr>rx_deadline := now + grace p1 s\<rparr>) (ba_rx_progress s)\<rparr>"
        show ?thesis
        proof (cases "encode_missing (snd k1) (rx_missing p1)")
          case (Inl e)
          then have "\<not> transaction_byte (snd k1)" using encode_missing_total [OF _ range missing] by force
          then obtain m where "e = CarriageError m" using encode_missing_blocked [OF _ missing range] Inl by force
          then show ?thesis using Inl late missing "2.prems"(6) by (simp add: raiseA_def)
        next
          case (Inr text')
          then show ?thesis using ih(3) [OF late missing, of ?s] "2.prems"(6) fresh [OF mem] late missing
            by (auto simp: bindA_run)
        qed
      qed
    qed
  qed
qed simp

lemma burst_poll_blocked:
  assumes "burst_ok s" "blocked t k s" "t \<le> now"
  shows "\<exists>m s'. burst_poll now s = (Inl (CarriageError m), [], s') \<and> burst_ok s' \<and> blocked t k s' \<and> ad_immediate s' = []"
proof -
  let ?s = "s\<lparr>ad_immediate := []\<rparr>"
  obtain p where p: "\<not> transaction_byte (snd k)" "map_of (ba_rx_progress s) k = Some p" "rx_missing p \<noteq> []" "rx_deadline p \<le> t"
    using assms(2) by (auto simp: blocked_def)
  have "(k, p) \<in> set (ba_rx_progress s)" using p(2) by (rule map_of_SomeD)
  then obtain m s' where run: "poll_progress now (ba_rx_progress s) ?s = (Inl (CarriageError m), [], s')"
    "map_of (ba_rx_progress s') k = Some p" "ad_immediate s' = []"
    using poll_progress_blocked [of k p "ba_rx_progress s" now ?s] p assms(3) burst_ok_snapshots(1) [OF assms(1)] by auto
  have "burst_ok s'"
    by (rule keeps_run [OF poll_progress_ok [OF burst_ok_snapshots(1) [OF assms(1)]] burst_ok_immediate [OF assms(1)] run(1)])
  then show ?thesis using run p by (simp add: burst_poll_def bindA_run blocked_def)
qed

text \<open>The results of polls one after the other; one that raises leaves its state to the next.\<close>

fun poll_results :: "rat list \<Rightarrow> burst_adapter \<Rightarrow> outbound_packet list result list" where
  "poll_results [] s = []"
| "poll_results (t # ts) s = (case burst_poll t s of (r, _, s') \<Rightarrow> r # poll_results ts s')"

lemma poll_results_blocked:
  "burst_ok s \<Longrightarrow> blocked t k s \<Longrightarrow> \<forall>now \<in> set ts. t \<le> now \<Longrightarrow> \<forall>r \<in> set (poll_results ts s). \<exists>m. r = Inl (CarriageError m)"
proof (induction ts arbitrary: s)
  case (Cons now ts)
  then show ?case using burst_poll_blocked [OF Cons.prems(1,2), of now] by auto
qed simp

text \<open>The first fragment of a transmission of several.\<close>

lemma first_fragment_add:
  assumes "reassembler_ok ra" "fragment_ok f" "1 < af_total f" "map_of (ra_entries ra) (peer, af_transaction_id f) = None"
  shows "\<exists>ra'. reassembler_add peer f now ra = (Inr None, ra')"
proof -
  have "map_of (expire_entries (ra_ttl ra) now (ra_entries ra)) (peer, af_transaction_id f) = None"
    using assms(1,4) by (intro ra.expire_absent) (simp_all add: reassembler_ok_def)
  moreover obtain part where "fragment_part f = Some part" using fragment_part_ok [OF assms(2)] by blast
  ultimately show ?thesis using assms(3)
    by (simp add: reassembler_add_def add_part_def reassembler_expire_def Let_def)
qed

lemma fragment_receive:
  assumes "validate_peer peer = Inr peer" "parse_fragment body = Inr f"
    "reassembler_add peer f (rd_now rd) (ad_reassembly s) = (Inr None, ra')"
  shows "commit_receive burst_methods rd peer body s = (Inr Fragment, [], s\<lparr>ad_reassembly := ra'\<rparr>)"
  using assms fragment_no_control(2) [OF assms(2)]
  by (simp add: commit_receive_def Let_def confirmA_def whenA_def receive_fragment_def reassembleA_def bindA_run returnA_def)

lemma first_fragment_blocks:
  assumes "burst_ok s" "validate_peer peer = Inr peer" "parse_fragment body = Inr f"
    "\<not> transaction_byte (af_transaction_id f)" "1 < af_total f"
    "map_of (ba_rx_progress s) (peer, af_transaction_id f) = None"
    "map_of (ra_entries (ad_reassembly s)) (peer, af_transaction_id f) = None"
    "fst (replay_get peer (af_transaction_id f) (rd_now rd) (ad_replay s)) = None"
  shows "\<exists>s'. guarded_receive rd peer body s = (Inr Fragment, [], s') \<and> burst_ok s'
    \<and> blocked (rd_now rd + ba_repair_grace s) (peer, af_transaction_id f) s'"
proof -
  let ?k = "(peer, af_transaction_id f)"
  have f: "fragment_ok f" by (rule parse_fragment_ok [OF assms(3)])
  let ?s0 = "s\<lparr>ad_replay := snd (replay_get peer (af_transaction_id f) (rd_now rd) (ad_replay s))\<rparr>"
  let ?s1 = "note_fragment ?k f (rd_now rd) ?s0"
  have same: "ad_reassembly ?s1 = ad_reassembly s" by (simp add: note_fragment_def Let_def)
  obtain ra' where "reassembler_add peer f (rd_now rd) (ad_reassembly s) = (Inr None, ra')"
    using first_fragment_add [OF burst_ok_tables(1) [OF assms(1)] f assms(5,7)] by blast
  then have commit: "commit_receive burst_methods rd peer body ?s1 = (Inr Fragment, [], ?s1\<lparr>ad_reassembly := ra'\<rparr>)"
    by (intro fragment_receive [OF assms(2,3)]) (simp add: same)
  let ?s' = "?s1\<lparr>ad_reassembly := ra'\<rparr>"
  have run: "guarded_receive rd peer body s = (Inr Fragment, [], ?s')"
    using assms(2,3,8) fragment_no_control(1) [OF assms(3)] commit
    by (simp add: guarded_receive_def replay_getA_def bindA_run case_prod_unfold burst_receive_def Let_def whenA_def returnA_def)
  have "burst_ok ?s'" by (rule keeps_run [OF guarded_receive_ok assms(1) run])
  moreover have "blocked (rd_now rd + ba_repair_grace s) ?k ?s'"
  proof -
    let ?p = "\<lparr>rx_total = af_total f, rx_received = [af_index f], rx_deadline = 0, rx_saw_final = (af_index f = af_total f - 1)\<rparr>"
    have "map_of (ba_rx_progress ?s') ?k = Some (?p\<lparr>rx_deadline := rd_now rd + grace ?p ?s0\<rparr>)"
      using assms(6) by (simp add: note_fragment_def Let_def)
    moreover have "rx_missing (?p\<lparr>rx_deadline := d\<rparr>) \<noteq> []" for d
    proof -
      have "(if af_index f = 0 then 1 else 0) \<in> set (rx_missing (?p\<lparr>rx_deadline := d\<rparr>))"
        using assms(5) by (auto simp: rx_missing_def intro!: image_eqI [of _ int "nat _"])
      then show ?thesis by force
    qed
    moreover have "grace ?p ?s0 \<le> ba_repair_grace s" by (simp add: grace_def)
    ultimately show ?thesis using assms(4) unfolding blocked_def by fastforce
  qed
  ultimately show ?thesis using run by blast
qed

section \<open>A repeated transaction\<close>

lemma send_was_stored_total:
  "\<forall>x \<in> set responses. is_ok (decode_frame (PBytes x)) \<Longrightarrow> \<exists>b. send_was_stored responses = Inr b"
  by (auto simp: send_was_stored_def is_ok_iff split: list.splits)

text \<open>The compact result says at most one thing more and touches only the outbound transactions.\<close>

lemma compact_run:
  assumes "replay_ok (ad_replay s)" "fst (replay_get peer tid now (ad_replay s)) = Some cached" "encode_stored tid = Inr text'"
    "\<forall>x \<in> set (rp_request cached # rp_responses cached). is_ok (decode_frame (PBytes x))"
  shows "\<exists>s' said. compact_stored_result peer tid now s = (Inr (), [], s') \<and> ad_core s' = ad_core s
    \<and> ad_reassembly s' = ad_reassembly s \<and> ad_router s' = ad_router s \<and> ba_rx_progress s' = ba_rx_progress s
    \<and> ad_immediate s' = ad_immediate s @ said"
proof -
  let ?s = "s\<lparr>ad_replay := snd (replay_get peer tid now (ad_replay s))\<rparr>"
  have get: "replay_getA peer tid now s = (Inr (Some cached), [], ?s)"
    using assms(2) by (simp add: replay_getA_def case_prod_unfold)
  obtain request b where r: "decode_frame (PBytes (rp_request cached)) = Inr request"
    "send_was_stored (rp_responses cached) = Inr b"
    using assms(4) send_was_stored_total [of "rp_responses cached"] by (auto simp: is_ok_iff)
  let ?send = "is_send request \<and> b"
  have run: "compact_stored_result peer tid now s = (if ?send
      then (Inr (), [], say peer text' (?s\<lparr>ba_queue := filter (\<lambda>tx. bt_response_batch tx \<noteq> Some (peer, tid)) (ba_queue ?s),
             ba_active := (case map_of (ba_active ?s) peer of None \<Rightarrow> ba_active ?s
               | Some tx \<Rightarrow> if bt_response_batch tx = Some (peer, tid) then AList.delete peer (ba_active ?s) else ba_active ?s)\<rparr>))
      else (Inr (), [], ?s))"
    using get r assms(3) by (auto simp: compact_stored_result_def bindA_run returnA_def Let_def updateA_def)
  show ?thesis unfolding run by (auto simp: say_def)
qed

lemma repeated_run:
  assumes "burst_ok s" "validate_peer peer = Inr peer" "parse_fragment body = Inr f"
    "fst (replay_get peer (af_transaction_id f) (rd_now rd) (ad_replay s)) = Some cached"
    "transaction_byte (af_transaction_id f)" 
    "\<forall>x \<in> set (rp_request cached # rp_responses cached). is_ok (decode_frame (PBytes x))"
  shows "\<exists>s' ack said. guarded_receive rd peer body s = (Inr Replayed, [], s') \<and> ad_core s' = ad_core s
    \<and> ad_reassembly s' = ad_reassembly s \<and> ad_router s' = ad_router s
    \<and> map_of (ba_rx_progress s') (peer, af_transaction_id f) = None
    \<and> parse_burst_control ack = Inr (Some (AckControl (af_transaction_id f)))
    \<and> ad_immediate s' = ad_immediate s @ \<lparr>op_source = ad_service_callsign s, op_destination = peer, op_body = ack,
        op_is_ack = False\<rparr> # said"
proof -
  let ?tid = "af_transaction_id f" and ?now = "rd_now rd"
  obtain t where t: "transaction_code ?tid = Inr t" using assms(5) by (auto simp: transaction_code_iff transaction_byte_def)
  obtain ack text' where a: "encode_burst_ack ?tid = Inr ack" "encode_stored ?tid = Inr text'"
    using t by (simp add: encode_burst_ack_def encode_stored_def)
  let ?rc = "snd (replay_get peer ?tid ?now (ad_replay s))"
  let ?s = "say peer ack (s\<lparr>ad_replay := ?rc, ba_rx_progress := AList.delete (peer, ?tid) (ba_rx_progress s)\<rparr>)"
  have rc: "replay_ok (ad_replay s)" by (rule burst_ok_tables(2) [OF assms(1)])
  have "ad_replay ?s = ?rc" by (simp add: say_def)
  then obtain s' said where c: "compact_stored_result peer ?tid ?now ?s = (Inr (), [], s')" "ad_core s' = ad_core ?s"
    "ad_reassembly s' = ad_reassembly ?s" "ad_router s' = ad_router ?s" "ba_rx_progress s' = ba_rx_progress ?s"
    "ad_immediate s' = ad_immediate ?s @ said"
    using compact_run [of ?s peer ?tid ?now cached text'] replay_get_ok [OF rc] replay_get_again [OF rc, of peer ?tid ?now] assms(4) a(2) assms(6)
    by auto
  have "guarded_receive rd peer body s = (Inr Replayed, [], s')"
    using assms(2,3,4) a(1) c(1)
    by (simp add: guarded_receive_def replay_getA_def bindA_run case_prod_unfold acknowledge_burst_def seqA_def returnA_def
        updateA_def)
  then show ?thesis using c(2-) burst_ack_roundtrip [OF a(1)] by (auto simp: say_def)
qed

section \<open>A sample adapter\<close>

definition sample_burst :: burst_adapter where
  "sample_burst = projr (new_burst_adapter 5 2 (sample_server empty_database) default_config (lit ''NODE1'') None 0)"

definition sample_readings :: readings where
  "sample_readings = \<lparr>rd_now = 1, rd_accepted_at = PInt 9, rd_delivered_at = 9, rd_presence_now = 1, rd_raising = (\<lambda>_. None)\<rparr>"

lemma sample_config: "check_config default_config = Inr default_config"
  by (simp add: check_config_def default_config_def)

lemma sample_peer: "validate_peer (lit ''NODE1'') = Inr (lit ''NODE1'')" "validate_peer (lit ''A1A'') = Inr (lit ''A1A'')"
  by (simp_all add: validate_peer_def lit_def B36_def)

lemma sample_upper: "upper (lit ''NODE1'') = lit ''NODE1''"
  by (simp add: lit_def upper_def upper_char_def special_upper_def)

lemma sample_adapter:
  "\<exists>s. new_adapter (sample_server empty_database) default_config (lit ''NODE1'') None 0 = Inr s
    \<and> ad_core s = sample_server empty_database \<and> ad_config s = default_config
    \<and> ad_service_callsign s = lit ''NODE1'' \<and> rc_entries (ad_replay s) = [] \<and> ra_entries (ad_reassembly s) = []"
  by (simp add: new_adapter_def sample_upper sample_peer new_reassembler_def new_replay_cache_def default_config_def)

lemma sample_new: "new_burst_adapter 5 2 (sample_server empty_database) default_config (lit ''NODE1'') None 0 = Inr sample_burst"
  and sample_state: "ad_core sample_burst = sample_server empty_database" "ad_config sample_burst = default_config"
    "ad_service_callsign sample_burst = lit ''NODE1''" "rc_entries (ad_replay sample_burst) = []"
    "ra_entries (ad_reassembly sample_burst) = []" "ba_queue sample_burst = []" "ba_active sample_burst = []"
    "ba_rx_progress sample_burst = []" "ba_repair_grace sample_burst = 5" "ad_immediate sample_burst = []"
proof -
  obtain s where s: "new_adapter (sample_server empty_database) default_config (lit ''NODE1'') None 0 = Inr s"
    "ad_core s = sample_server empty_database" "ad_config s = default_config" "ad_service_callsign s = lit ''NODE1''"
    "rc_entries (ad_replay s) = []" "ra_entries (ad_reassembly s) = []" "ad_immediate s = []"
    using sample_adapter by (auto simp: new_adapter_def bindE_eq_Inr)
  let ?b = "adapter.extend s (burst_adapter.fields 5 2 [] [] [] 0)"
  have new: "new_burst_adapter 5 2 (sample_server empty_database) default_config (lit ''NODE1'') None 0 = Inr ?b"
    using s(1) by (simp add: new_burst_adapter_def)
  then have b: "sample_burst = ?b" by (simp add: sample_burst_def)
  show "new_burst_adapter 5 2 (sample_server empty_database) default_config (lit ''NODE1'') None 0 = Inr sample_burst"
    using new b by simp
  show "ad_core sample_burst = sample_server empty_database" "ad_config sample_burst = default_config"
    "ad_service_callsign sample_burst = lit ''NODE1''" "rc_entries (ad_replay sample_burst) = []"
    "ra_entries (ad_reassembly sample_burst) = []" "ba_queue sample_burst = []" "ba_active sample_burst = []"
    "ba_rx_progress sample_burst = []" "ba_repair_grace sample_burst = 5" "ad_immediate sample_burst = []"
    unfolding b using s(2-) by (simp_all add: adapter.extend_def burst_adapter.fields_def)
qed

lemma sample_reachable: "burst_reachable sample_burst"
  by (rule initial [OF sample_new sample_config])

lemma sample_calm: "calm sample_burst"
  using empty_ok by (simp add: calm_def sample_state outstanding_def sample_server_def)

section \<open>Properties\<close>

text \<open>C18. The adapter is bounded: whatever bodies arrive and however it is polled, what is queued
  and active stays within the configured capacity, no two transactions of a peer share an ID,
  every transaction is well formed with the packets of its own fragments, an active one has been
  sent between once and \<open>max_attempts\<close> times, and the reassembly table and the replay cache stay
  within their capacities. Of the progress of inbound transactions there is one record for each pair
  of a peer and an ID, of at most sixteen fragments; the number of these records and of the replies
  that wait for the next poll is not bounded by the code.\<close>

theorem burst_bounded:
  assumes "burst_reachable s"
  shows "queued_count s + pending_count s \<le> cf_queue_capacity (ad_config s) \<and> once tx_key (outstanding s)
    \<and> list_all tx_ok (ba_queue s @ map snd (ba_active s))
    \<and> list_all (\<lambda>(peer, tx). bt_peer tx = peer \<and> 1 \<le> bt_attempts tx \<and> bt_attempts tx \<le> cf_max_attempts (ad_config s)) (ba_active s)
    \<and> int (length (ra_entries (ad_reassembly s))) \<le> ra_max_entries (ad_reassembly s)
    \<and> int (length (rc_entries (ad_replay s))) \<le> rc_max_entries (ad_replay s)
    \<and> distinct (map fst (ba_rx_progress s))
    \<and> list_all (\<lambda>(k, p). length (remdups (rx_received p)) \<le> 16 \<and> rx_total p \<le> 16) (ba_rx_progress s)"
proof -
  have s: "burst_ok s" by (rule burst_reachable_ok [OF assms])
  then have "queued_count s + pending_count s \<le> cf_queue_capacity (ad_config s)"
    by (simp add: burst_ok_def txs_ok_def load_outstanding)
  moreover have "distinct (map fst (ba_rx_progress s))" using s by (simp add: burst_ok_def progress_ok_def keys_ok_def)
  moreover have "length (remdups (rx_received p)) \<le> 16 \<and> rx_total p \<le> 16" if "(k, p) \<in> set (ba_rx_progress s)" for k p
  proof -
    have p: "rx_total p \<le> 16" "set (rx_received p) \<subseteq> {0..<16}" using s that by (fastforce simp: burst_ok_def progress_ok_def)+
    then have "card (set (rx_received p)) \<le> card {0..<16 :: int}" by (intro card_mono) simp_all
    then show ?thesis using p(1) by (simp add: length_remdups_card_conv)
  qed
  then have "list_all (\<lambda>(k, p). length (remdups (rx_received p)) \<le> 16 \<and> rx_total p \<le> 16) (ba_rx_progress s)"
    by (auto simp: list_all_iff)
  ultimately show ?thesis using s
    by (auto simp: burst_ok_def txs_ok_def active_ok_def reassembler_ok_def replay_ok_def outstanding_def
        list_all_iff)
qed

lemma reachable_after:
  "burst_reachable s \<Longrightarrow> burst_reachable (snd (snd (guarded_receive rd peer body s)))"
  "burst_reachable s \<Longrightarrow> burst_reachable (snd (snd (burst_poll now s)))"
  by (metis later received prod.collapse, metis later polled prod.collapse)

text \<open>A concrete reachable state: after a fragment and a poll.\<close>

definition sample_later :: burst_adapter where
  "sample_later = snd (snd (burst_poll 3 (snd (snd (guarded_receive sample_readings (lit ''A1A'') (lit ''Q1:0ZZ:00/02:AUQ'')
     sample_burst)))))"

lemma sample_later_reachable: "burst_reachable sample_later"
  unfolding sample_later_def by (intro reachable_after sample_reachable)

theorem burst_bounded_witness:
  "queued_count sample_later + pending_count sample_later \<le> cf_queue_capacity (ad_config sample_later)
    \<and> once tx_key (outstanding sample_later) \<and> list_all tx_ok (ba_queue sample_later @ map snd (ba_active sample_later))
    \<and> list_all (\<lambda>(peer, tx). bt_peer tx = peer \<and> 1 \<le> bt_attempts tx \<and> bt_attempts tx \<le> cf_max_attempts (ad_config sample_later))
      (ba_active sample_later)
    \<and> int (length (ra_entries (ad_reassembly sample_later))) \<le> ra_max_entries (ad_reassembly sample_later)
    \<and> int (length (rc_entries (ad_replay sample_later))) \<le> rc_max_entries (ad_replay sample_later)
    \<and> distinct (map fst (ba_rx_progress sample_later))
    \<and> list_all (\<lambda>(k, p). length (remdups (rx_received p)) \<le> 16 \<and> rx_total p \<le> 16) (ba_rx_progress sample_later)"
  by (rule burst_bounded [OF sample_later_reachable])

text \<open>C19. Polling treats every peer by itself, as long as the adapter is calm: its core has a well-formed
  store with every delivery the adapter carries, and every inbound transaction in progress has an ID
  that fits the byte of the burst controls. Then a poll never raises and leaves the adapter calm, and
  what it does to the active and queued transactions of a peer is the specification \<open>peer_poll\<close> on
  that peer's part of the state alone: a retry of the active one, then the start of the most urgent
  queued one; no peer delays or blocks another. An inbound transaction with another ID, which only a
  legacy fragment can bring, blocks all peers (C31).\<close>

theorem poll_each_peer:
  assumes "burst_reachable s" "calm s"
  shows "\<exists>packets s'. burst_poll now s = (Inr packets, [], s') \<and> calm s'
    \<and> (\<forall>p. peer_view p s' = peer_poll (ad_config s) now (peer_view p s))"
  using burst_poll_total [OF burst_reachable_ok [OF assms(1)] assms(2), of now] by blast

theorem poll_each_peer_witness:
  "\<exists>packets s'. burst_poll 9 sample_burst = (Inr packets, [], s') \<and> calm s'
    \<and> (\<forall>p. peer_view p s' = peer_poll (ad_config sample_burst) 9 (peer_view p sample_burst))"
  by (rule poll_each_peer [OF sample_reachable sample_calm])

text \<open>C20. Retries end: polled at times at least an acknowledgement timeout and the minimum interval
  between two sendings apart, more often than the attempts it has left, an active transaction that
  nobody answers leaves the adapter for good, its delivery is no longer open in the store, and no poll
  raises. The adapter must be calm, as in C19: a well-formed store with the deliveries it carries, and
  no inbound transaction with an ID outside the byte of the burst controls.\<close>

theorem burst_gives_up:
  assumes "burst_ok s" "calm s" "map_of (ba_active s) p = Some tx" "0 < prev" "0 < cf_ack_timeout (ad_config s)"
    "bt_requested tx \<noteq> None \<or> bt_deadline tx \<noteq> 0 \<and> bt_deadline tx \<le> prev + cf_ack_timeout (ad_config s)"
    "\<forall>t. ad_last_send s p = Some t \<longrightarrow> t \<le> prev"
    "spaced (max (cf_ack_timeout (ad_config s)) (cf_min_interval (ad_config s))) prev ts"
    "cf_max_attempts (ad_config s) - bt_attempts tx < int (length ts)"
  shows "\<exists>outs s'. burst_polls ts s = (Inr outs, [], s') \<and> gone tx s'"
  by (rule polls_give_up [OF assms])

text \<open>An adapter that has sent the only fragment of a frame at time 1.\<close>

lemma sample_tid: "transaction_byte (lit ''00A'')"
  by (simp add: transaction_byte_def parse_base36_def lit_def B36_mem int36_def digit36_def)

lemma sample_fragments:
  "\<exists>d fs ps. fragment_frame_v2 d (lit ''00A'') = Inr fs \<and> length fs \<le> 16 \<and> mapE fragment_body fs = Inr (map op_body ps)
    \<and> (\<forall>p \<in> set (ps :: outbound_packet list). op_destination p = peer)"
proof -
  obtain d where d: "encode_frame Stored False = Inr d" by (simp add: encode_frame_def codec_encode_frame_def)
  obtain fs where fs: "fragment_frame_v2 d (lit ''00A'') = Inr fs"
    using fragment_v2_run [OF encoded_framed [OF d] sample_tid] by blast
  note ok = fragments_v2_ok [OF fs]
  have "mapE fragment_body fs = Inr (map (\<lambda>f. projr (fragment_body f)) fs)"
    using ok(4) fragment_body_parse by (intro mapE_Inr) fastforce
  moreover let ?ps = "map (\<lambda>f. \<lparr>op_source = [], op_destination = peer, op_body = projr (fragment_body f), op_is_ack = False\<rparr>) fs"
  have "map op_body ?ps = map (\<lambda>f. projr (fragment_body f)) fs" "\<forall>p \<in> set ?ps. op_destination p = peer"
    by (simp_all add: comp_def)
  ultimately show ?thesis using fs ok(3) by metis
qed

lemma sample_sent:
  "\<exists>tx s. burst_ok s \<and> calm s \<and> map_of (ba_active s) (lit ''A1A'') = Some tx \<and> ad_config s = default_config
    \<and> ad_last_send s (lit ''A1A'') = Some 1 \<and> bt_deadline tx = 16 \<and> bt_attempts tx = 1"
proof -
  obtain d fs ps where fs: "fragment_frame_v2 d (lit ''00A'') = Inr fs" "length fs \<le> 16"
    "mapE fragment_body fs = Inr (map op_body ps)" "\<forall>p \<in> set (ps :: outbound_packet list). op_destination p = lit ''A1A''"
    using sample_fragments by metis
  let ?b = "sample_burst\<lparr>ad_queue := [], ad_pending := [], ad_last_send := \<lambda>_. None\<rparr>"
  let ?tx = "\<lparr>bt_peer = lit ''A1A'', bt_transaction_id = lit ''00A'', bt_fragments = fs, bt_packets = ps,
    bt_priority = 0, bt_order = ba_order ?b, bt_delivery = None, bt_response_batch = None,
    bt_response_supersedable = False, bt_attempts = 0, bt_deadline = 0, bt_requested = None,
    bt_repair_active = False, bt_repair_indices = None\<rparr>"
  let ?s = "?b\<lparr>ba_queue := ba_queue ?b @ [?tx], ba_order := ba_order ?b + 1\<rparr>"
  have b: "burst_ok sample_burst" by (rule new_burst_ok [OF sample_new sample_config])
  have "burst_ok ?b" by (rule burst_ok_frame [OF b]) (simp_all add: burst_ok_tables [OF b])
  then have s: "burst_ok ?s"
    using fs by (intro new_transaction_ok [where tid = "lit ''00A''" and peer = "lit ''A1A''" and frame = d])
      (simp_all add: sample_state burst_active_transactions_def active_transactions_def queued_count_def pending_count_def
        default_config_def)
  have c: "calm ?s" using sample_calm by (simp add: calm_def sample_state outstanding_def known_delivery_def)
  obtain out s' where run: "burst_ok s'" "calm s'" "ad_config s' = ad_config ?s"
    "\<forall>p. peer_view p s' = peer_poll (ad_config ?s) 1 (peer_view p ?s)"
    using burst_poll_total [OF s c, of 1] by blast
  have "peer_view (lit ''A1A'') s' = (Some (?tx\<lparr>bt_attempts := 1, bt_deadline := 16\<rparr>), [], Some 1)"
    using run(4) by (simp add: peer_view_def sample_state peer_poll_def retry_step_def start_step_def by_priority_def
        ready_at_def default_config_def)
  then have "map_of (ba_active s') (lit ''A1A'') = Some (?tx\<lparr>bt_attempts := 1, bt_deadline := 16\<rparr>)"
    "ad_last_send s' (lit ''A1A'') = Some 1" by (simp_all add: peer_view_def)
  then show ?thesis using run(1-3)
    by (intro exI [of _ "?tx\<lparr>bt_attempts := 1, bt_deadline := 16\<rparr>"] exI [of _ s']) (simp add: sample_state)
qed

theorem burst_gives_up_witness:
  "\<exists>tx s outs s'. map_of (ba_active s) (lit ''A1A'') = Some tx
    \<and> burst_polls [16, 31, 46, 61, 76] s = (Inr outs, [], s') \<and> gone tx s'"
proof -
  obtain tx s where s: "burst_ok s" "calm s" "map_of (ba_active s) (lit ''A1A'') = Some tx" "ad_config s = default_config"
    "ad_last_send s (lit ''A1A'') = Some 1" "bt_deadline tx = 16" "bt_attempts tx = 1"
    using sample_sent by blast
  have "\<exists>outs s'. burst_polls [16, 31, 46, 61, 76] s = (Inr outs, [], s') \<and> gone tx s'"
    by (rule burst_gives_up [OF s(1-3), where prev = 1]) (simp_all add: s default_config_def)
  then show ?thesis using s(3) by blast
qed

text \<open>C21. At most once over the air: a body the node receives stores a message exactly when it is a
  fragment of a valid peer that completes a frame in the reassembly table, the replay cache has no
  live answer for the transaction, and the frame is a SEND_MESSAGE for a mailbox that has numbers
  left; then it stores just that message, from the normalized callsign of the sender, and puts the
  frame and its answer into the replay cache. A body with the same transaction ID that comes next,
  within the time to live of the answer, stores nothing.\<close>

theorem request_at_most_once:
  assumes "stored ms s" "clock_ok rd t ms" "s' = snd (snd (guarded_receive rd peer body s))"
  shows "case Option.bind (completed_frame rd peer body s)
        (\<lambda>(k, frame). map_option (\<lambda>m. (k, frame, m)) (new_send ms (fst k) frame)) of
      None \<Rightarrow> stored ms s'
    | Some (k, frame, c, callsign, recipient, content) \<Rightarrow> \<exists>db responses. messages db = ms
        \<and> stored (ms @ [accepted_row c callsign recipient (body_bytes content) t db]) s'
        \<and> map_of (rc_entries (ad_replay s')) k
            = Some \<lparr>rp_request = frame, rp_responses = responses, rp_created_at = rd_now rd\<rparr>
        \<and> list_all (\<lambda>x. is_ok (decode_frame (PBytes x))) responses
        \<and> (\<forall>rd' body' f. parse_fragment body' = Inr f \<and> af_transaction_id f = snd k
            \<and> rd_now rd' < rd_now rd + rc_ttl (ad_replay s')
            \<longrightarrow> stored (ms @ [accepted_row c callsign recipient (body_bytes content) t db])
                  (snd (snd (guarded_receive rd' peer body' s'))))"
proof -
  have out: "body_outcome rd t (completed_frame rd peer body s) ms s'" unfolding assms(3) by (rule guarded_outcome [OF assms(1,2)])
  show ?thesis
  proof (cases "completed_frame rd peer body s")
    case (Some x)
    obtain k frame where x: "x = (k, frame)" by (cases x)
    have k: "fst k = peer" "validate_peer peer = Inr peer" using Some x validate_peer_same
      by (auto simp: completed_frame_def completed_by_def split: sum.splits option.splits)
    show ?thesis
    proof (cases "new_send ms (fst k) frame")
      case None
      then show ?thesis using out Some x by (simp add: body_outcome_def frame_outcome_def)
    next
      case m: (Some m)
      obtain c callsign recipient content where m': "m = (c, callsign, recipient, content)" by (cases m)
      obtain db responses where d: "messages db = ms" "list_all (\<lambda>x. is_ok (decode_frame (PBytes x))) responses"
        "stored (ms @ [accepted_row c callsign recipient (body_bytes content) t db]) s'"
        "map_of (rc_entries (ad_replay s')) k = Some \<lparr>rp_request = frame, rp_responses = responses, rp_created_at = rd_now rd\<rparr>"
        using out Some x m m' by (auto simp: body_outcome_def frame_outcome_def)
      have "stored (ms @ [accepted_row c callsign recipient (body_bytes content) t db]) (snd (snd (guarded_receive rd' peer body' s')))"
        if f: "parse_fragment body' = Inr f" "af_transaction_id f = snd k" "rd_now rd' < rd_now rd + rc_ttl (ad_replay s')" for rd' body' f
      proof (rule guarded_known [OF d(3) k(2) f(1)])
        have "replay_ok (ad_replay s')" using d(3) by (simp add: stored_def)
        then show "fst (replay_get peer (af_transaction_id f) (rd_now rd') (ad_replay s')) \<noteq> None"
          using replay_get_live [of "ad_replay s'" peer "snd k" _ "rd_now rd'"] d(4) f(2,3) k(1) by (cases k) auto
      qed
      then show ?thesis using Some x m m' d by auto
    qed
  qed (use out in \<open>simp add: outcome_None\<close>)
qed

lemma sample_stored: "stored [] sample_burst"
  using burst_ok_tables(2) [OF new_burst_ok [OF sample_new sample_config]] sample_transportable
  by (simp add: stored_def sample_state sample_server_def empty_messages)

text \<open>A request of one fragment from A1A, and the adapter after it.\<close>

lemma sample_sender: "normalize_callsign (PStr (lit ''A1A'')) (lit ''APRS source'') = Inr (lit ''A1A'')"
  by (simp add: normalize_callsign_def lit_def upper_def upper_char_def special_upper_def strip_def is_space_def Let_def
      validate_callsign_Inr callsign_ok_def is_digit_def is_upper_def)

lemma sample_body:
  "\<exists>d body. encode_frame (SendMessage 7 (lit ''B2B'') (lit ''hi'')) False = Inr d
    \<and> completed_frame sample_readings (lit ''A1A'') body sample_burst = Some ((lit ''A1A'', lit ''00A''), d)
    \<and> new_send [] (lit ''A1A'') d = Some (7, lit ''A1A'', lit ''B2B'', lit ''hi'')"
proof -
  let ?o = "SendMessage 7 (lit ''B2B'') (lit ''hi'')" and ?tid = "lit ''00A''"
  have "valid_object ?o" by (simp add: callsign_ok_def lit_def is_digit_def is_upper_def valid_text_def utf8_size_def scalar_def)
  then obtain d where d: "encode_frame ?o False = Inr d" using encode_frame_ok [of ?o False] by (auto simp: is_ok_iff)
  have "length d = 15" using send_frame_length [OF d] by (simp add: lit_utf8 sample_ascii) (simp add: lit_def)
  then have c: "chunks 50 d = [d]" by (subst chunks.simps) (auto simp: chunks.simps [of 50 "[]"])
  have fr: "framed d" by (rule encoded_framed [OF d])
  let ?f = "q2_fragment ?tid 0 1 d"
  have "fragment_frame_v2 d ?tid = Inr [?f]" using fragment_v2_run [OF fr sample_tid] by (simp add: c numbered_def)
  then have "fragment_ok ?f" using fragments_v2_ok(4) by force
  then obtain body where body: "parse_fragment body = Inr ?f" using fragment_body_parse by blast
  have dec: "decode_frame_with_flags (PBytes d) = Inr (?o, 0)" "decode_frame (PBytes d) = Inr ?o"
    using decode_encode_frame [OF d] by (simp_all add: decode_frame_iff)
  have "0 < ra_max_entries (ad_reassembly sample_burst)"
    using burst_ok_tables(1) [OF new_burst_ok [OF sample_new sample_config]] by (simp add: reassembler_ok_def)
  then have "fst (reassembler_add (lit ''A1A'') ?f 1 (ad_reassembly sample_burst)) = Inr (Some d)"
    by (simp add: reassembler_add_def reassembler_expire_def expire_entries_def sample_state add_part_def fragment_part_def
        q2_fragment_def assemble_def dec(1) Let_def)
  then have "completed_frame sample_readings (lit ''A1A'') body sample_burst = Some ((lit ''A1A'', ?tid), d)"
    using body sample_peer(2)
    by (simp add: completed_frame_def completed_by_def q2_fragment_def replay_get_def replay_expire_def expire_replays_def
        sample_state sample_readings_def Let_def)
  moreover have "new_send [] (lit ''A1A'') d = Some (7, lit ''A1A'', lit ''B2B'', lit ''hi'')"
    by (simp add: new_send_def dec(2) sample_sender)
  ultimately show ?thesis using d by blast
qed

lemma sample_clock: "clock_ok sample_readings 9 []"
  by (simp add: clock_ok_def sample_readings_def)

theorem request_at_most_once_witness:
  "\<exists>body s' db. s' = snd (snd (guarded_receive sample_readings (lit ''A1A'') body sample_burst))
    \<and> messages db = [] \<and> stored [accepted_row 7 (lit ''A1A'') (lit ''B2B'') (body_bytes (lit ''hi'')) 9 db] s'
    \<and> (\<forall>rd' body' f. parse_fragment body' = Inr f \<and> af_transaction_id f = lit ''00A''
        \<and> rd_now rd' < 1 + rc_ttl (ad_replay s')
        \<longrightarrow> stored [accepted_row 7 (lit ''A1A'') (lit ''B2B'') (body_bytes (lit ''hi'')) 9 db]
              (snd (snd (guarded_receive rd' (lit ''A1A'') body' s'))))"
proof -
  obtain d body where b: "completed_frame sample_readings (lit ''A1A'') body sample_burst = Some ((lit ''A1A'', lit ''00A''), d)"
    "new_send [] (lit ''A1A'') d = Some (7, lit ''A1A'', lit ''B2B'', lit ''hi'')" using sample_body by blast
  have "rd_now sample_readings = 1" by (simp add: sample_readings_def)
  then show ?thesis
    using request_at_most_once [OF sample_stored sample_clock refl, of "lit ''A1A''" body] b by auto
qed

text \<open>The adapter that has answered the request.\<close>

lemma sample_answered:
  "\<exists>s cached. burst_reachable s 
    \<and> fst (replay_get (lit ''A1A'') (lit ''00A'') 1 (ad_replay s)) = Some cached
    \<and> list_all (\<lambda>x. is_ok (decode_frame (PBytes x))) (rp_request cached # rp_responses cached)
    \<and> length (messages (sv_db (ad_core s))) = 1"
proof -
  obtain d body where b: "encode_frame (SendMessage 7 (lit ''B2B'') (lit ''hi'')) False = Inr d"
    "completed_frame sample_readings (lit ''A1A'') body sample_burst = Some ((lit ''A1A'', lit ''00A''), d)"
    "new_send [] (lit ''A1A'') d = Some (7, lit ''A1A'', lit ''B2B'', lit ''hi'')" using sample_body by blast
  let ?s = "snd (snd (guarded_receive sample_readings (lit ''A1A'') body sample_burst))"
  from guarded_outcome [OF sample_stored sample_clock, of "lit ''A1A''" body] b(2,3)
  obtain db responses where s: "list_all (\<lambda>x. is_ok (decode_frame (PBytes x))) responses"
    "stored [accepted_row 7 (lit ''A1A'') (lit ''B2B'') (body_bytes (lit ''hi'')) 9 db] ?s"
    "map_of (rc_entries (ad_replay ?s)) (lit ''A1A'', lit ''00A'') = Some \<lparr>rp_request = d, rp_responses = responses, rp_created_at = 1\<rparr>"
    by (auto simp: body_outcome_def frame_outcome_def sample_readings_def)
  then have "replay_ok (ad_replay ?s)" by (simp add: stored_def)
  then have "fst (replay_get (lit ''A1A'') (lit ''00A'') 1 (ad_replay ?s)) = Some \<lparr>rp_request = d, rp_responses = responses, rp_created_at = 1\<rparr>"
    using s(3) by (intro replay_get_live) (simp_all add: replay_ok_def)
  moreover have "is_ok (decode_frame (PBytes d))" using decode_encode_frame [OF b(1)] by (simp add: decode_frame_iff is_ok_iff)
  ultimately show ?thesis using s(1,2) reachable_after(1) [OF sample_reachable]
    by (intro exI [of _ ?s] exI [of _ "\<lparr>rp_request = d, rp_responses = responses, rp_created_at = 1\<rparr>"]) (simp add: stored_def)
qed

text \<open>C22. A repeated transaction is answered from the cache: while the answer to a transaction of a
  valid peer is live, the ID fits the byte of the burst controls and the cached frames decode, as the
  frames of a stored message do (C21), any further fragment with that ID, whatever its index, total or
  data, is acknowledged as delivered and changes neither the core nor the reassembly table nor the
  routes, and no repair of it is asked for. The fragment is not compared with the request that was
  answered, although the profile's design asks for a conflict.\<close>

theorem repeated_transaction_answered:
  assumes "burst_ok s" "validate_peer peer = Inr peer" "parse_fragment body = Inr f"
    "fst (replay_get peer (af_transaction_id f) (rd_now rd) (ad_replay s)) = Some cached"
    "transaction_byte (af_transaction_id f)"
    "list_all (\<lambda>x. is_ok (decode_frame (PBytes x))) (rp_request cached # rp_responses cached)"
  shows "\<exists>s' ack said. guarded_receive rd peer body s = (Inr Replayed, [], s') \<and> ad_core s' = ad_core s
    \<and> ad_reassembly s' = ad_reassembly s \<and> ad_router s' = ad_router s
    \<and> map_of (ba_rx_progress s') (peer, af_transaction_id f) = None
    \<and> parse_burst_control ack = Inr (Some (AckControl (af_transaction_id f)))
    \<and> ad_immediate s' = ad_immediate s @ \<lparr>op_source = ad_service_callsign s, op_destination = peer, op_body = ack,
        op_is_ack = False\<rparr> # said"
  using repeated_run [OF assms(1-5)] assms(6) by (simp add: list_all_iff)

lemma sample_legacy_fragment:
  "parse_fragment (lit ''Q1:00A:00/02:AUQ'') = Inr \<lparr>af_transaction_id = lit ''00A'', af_index = 0, af_total = 2,
     af_data = lit ''AUQ'', af_message_id = None, af_version = 1, af_raw_data = None\<rparr>"
  "parse_fragment (lit ''Q1:0ZZ:00/02:AUQ'') = Inr \<lparr>af_transaction_id = lit ''0ZZ'', af_index = 0, af_total = 2,
     af_data = lit ''AUQ'', af_message_id = None, af_version = 1, af_raw_data = None\<rparr>"
  by (simp_all add: parse_fragment_def match_q1_def lit_def Let_def B36_mem is_b64_def parse_base36_def int36_def digit36_def)

theorem repeated_transaction_answered_witness:
  "\<exists>s s' ack said. burst_reachable s \<and> length (messages (sv_db (ad_core s))) = 1
    \<and> guarded_receive sample_readings (lit ''A1A'') (lit ''Q1:00A:00/02:AUQ'') s = (Inr Replayed, [], s') \<and> ad_core s' = ad_core s
    \<and> parse_burst_control ack = Inr (Some (AckControl (lit ''00A'')))
    \<and> ad_immediate s' = ad_immediate s @ \<lparr>op_source = ad_service_callsign s,
        op_destination = lit ''A1A'', op_body = ack, op_is_ack = False\<rparr> # said"
proof -
  obtain s cached where s: "burst_reachable s" "fst (replay_get (lit ''A1A'') (lit ''00A'') 1 (ad_replay s)) = Some cached"
    "list_all (\<lambda>x. is_ok (decode_frame (PBytes x))) (rp_request cached # rp_responses cached)"
    "length (messages (sv_db (ad_core s))) = 1" using sample_answered by blast
  show ?thesis
    using repeated_transaction_answered [OF burst_reachable_ok [OF s(1)] sample_peer(2) sample_legacy_fragment(1), of sample_readings cached]
      s sample_tid
    by (simp add: sample_readings_def) blast
qed

text \<open>A legacy fragment can stop all sending: when the first fragment of a longer Q1 transaction
  arrives whose ID does not fit the byte of the burst controls, every poll after the repair grace
  raises, for every peer, and what those polls had taken from the immediate queue is lost.\<close>

theorem legacy_fragment_blocks_polls:
  assumes "burst_ok s" "validate_peer peer = Inr peer" "parse_fragment body = Inr f"
    "\<not> transaction_byte (af_transaction_id f)" "1 < af_total f"
    "map_of (ba_rx_progress s) (peer, af_transaction_id f) = None"
    "map_of (ra_entries (ad_reassembly s)) (peer, af_transaction_id f) = None"
    "fst (replay_get peer (af_transaction_id f) (rd_now rd) (ad_replay s)) = None"
    "list_all (\<lambda>now. rd_now rd + ba_repair_grace s \<le> now) ts"
  shows "\<exists>s'. guarded_receive rd peer body s = (Inr Fragment, [], s')
    \<and> list_all (\<lambda>r. \<exists>m. r = Inl (CarriageError m)) (poll_results ts s')"
proof -
  obtain s' where run: "guarded_receive rd peer body s = (Inr Fragment, [], s')" "burst_ok s'"
    "blocked (rd_now rd + ba_repair_grace s) (peer, af_transaction_id f) s'"
    using first_fragment_blocks [OF assms(1-8)] by blast
  then show ?thesis using poll_results_blocked [OF run(2,3)] assms(9) by (simp add: list_all_iff)
qed

theorem legacy_fragment_blocks_polls_witness:
  "\<exists>s'. guarded_receive sample_readings (lit ''A1A'') (lit ''Q1:0ZZ:00/02:AUQ'') sample_burst = (Inr Fragment, [], s')
    \<and> list_all (\<lambda>r. \<exists>m. r = Inl (CarriageError m)) (poll_results [6, 7, 100] s')"
proof (rule legacy_fragment_blocks_polls [OF new_burst_ok [OF sample_new sample_config] sample_peer(2) sample_legacy_fragment(2)])
  have "parse_base36 (lit ''0ZZ'') 3 = Inr 1295"
    by (simp add: parse_base36_def lit_def B36_mem int36_def digit36_def)
  then show "\<not> transaction_byte (af_transaction_id \<lparr>af_transaction_id = lit ''0ZZ'', af_index = 0, af_total = 2,
      af_data = lit ''AUQ'', af_message_id = None, af_version = 1, af_raw_data = None\<rparr>)"
    by (simp add: transaction_byte_def)
qed (simp_all add: sample_state replay_get_def replay_expire_def expire_replays_def sample_readings_def Let_def)

end
