(* ===== verification/Py_Text.thy ===== *)
theory Py_Text
  imports Radix Field_Codec
begin

text \<open>
  Operations of Python text and of its standard library that several components use: splitting,
  \<open>int(text)\<close>, and the padded Base64 of the \<open>base64\<close> module.
\<close>

section \<open>Splitting\<close>

text \<open>\<open>text.split(c)\<close> and \<open>text.split(c, 1)\<close> for a single character.\<close>

fun split_char :: "'a \<Rightarrow> 'a list \<Rightarrow> 'a list list" where
  "split_char c [] = [[]]"
| "split_char c (x # xs) =
     (if x = c then [] # split_char c xs
      else (case split_char c xs of [] \<Rightarrow> [[x]] | p # ps \<Rightarrow> (x # p) # ps))"

definition split_once :: "'a \<Rightarrow> 'a list \<Rightarrow> 'a list list" where
  "split_once c s =
     (case dropWhile (\<lambda>x. x \<noteq> c) s of [] \<Rightarrow> [s] | _ # r \<Rightarrow> [takeWhile (\<lambda>x. x \<noteq> c) s, r])"

lemma split_char_absent: "c \<notin> set s \<Longrightarrow> split_char c s = [s]"
  by (induction s) auto

lemma split_char_append: "c \<notin> set s \<Longrightarrow> split_char c (s @ c # r) = s # split_char c r"
  by (induction s) auto

lemma split_once_append: "c \<notin> set s \<Longrightarrow> split_once c (s @ c # r) = [s, r]"
  by (auto simp: split_once_def dropWhile_append takeWhile_append split: list.split)

text \<open>\<open>text.removesuffix(t)\<close>.\<close>

definition removesuffix :: "'a list \<Rightarrow> 'a list \<Rightarrow> 'a list" where
  "removesuffix t s = (if t \<noteq> [] \<and> length t \<le> length s \<and> drop (length s - length t) s = t
     then take (length s - length t) s else s)"

lemma removesuffix_append: "t \<noteq> [] \<Longrightarrow> removesuffix t (s @ t) = s"
  by (simp add: removesuffix_def)

lemma removesuffix_last: "s = [] \<or> last s \<noteq> c \<Longrightarrow> removesuffix [c] s = s"
  by (cases s rule: rev_cases) (auto simp: removesuffix_def)

section \<open>Integers\<close>

text \<open>
  The digits zero of Unicode 15, which the least Python the package supports (3.12) has: in each
  script the digits one to nine follow the zero.
\<close>

definition decimal_zeros :: "nat list" where
  "decimal_zeros =
     [0x30, 0x660, 0x6F0, 0x7C0, 0x966, 0x9E6, 0xA66, 0xAE6, 0xB66, 0xBE6, 0xC66, 0xCE6, 0xD66, 0xDE6, 0xE50,
      0xED0, 0xF20, 0x1040, 0x1090, 0x17E0, 0x1810, 0x1946, 0x19D0, 0x1A80, 0x1A90, 0x1B50, 0x1BB0, 0x1C40,
      0x1C50, 0xA620, 0xA8D0, 0xA900, 0xA9D0, 0xA9F0, 0xAA50, 0xABF0, 0xFF10, 0x104A0, 0x10D30, 0x11066,
      0x110F0, 0x11136, 0x111D0, 0x112F0, 0x11450, 0x114D0, 0x11650, 0x116C0, 0x11730, 0x118E0, 0x11950,
      0x11C50, 0x11D50, 0x11DA0, 0x11F50, 0x16A60, 0x16AC0, 0x16B50, 0x1D7CE, 0x1D7D8, 0x1D7E2, 0x1D7EC,
      0x1D7F6, 0x1E140, 0x1E2F0, 0x1E4F0, 0x1E950, 0x1FBF0]"

definition to_decimal :: "nat \<Rightarrow> nat option" where
  "to_decimal c = map_option (\<lambda>z. c - z) (find (\<lambda>z. z \<le> c \<and> c < z + 10) decimal_zeros)"

text \<open>
  What \<open>int\<close> reads of a text: a text beyond ASCII has its digits and spaces replaced by the ASCII
  ones and everything else by a question mark, which is no digit in any base; then the white space
  of C is stripped, which unlike \<open>str.strip\<close> leaves the separators 28 to 31.
\<close>

definition ascii_form :: "nat \<Rightarrow> nat" where
  "ascii_form c = (if c < 127 then c else if is_space c then 32
     else (case to_decimal c of Some d \<Rightarrow> 48 + d | None \<Rightarrow> 63))"

definition is_c_space :: "nat \<Rightarrow> bool" where
  "is_c_space c \<longleftrightarrow> 9 \<le> c \<and> c \<le> 13 \<or> c = 32"

definition number_text :: "pystr \<Rightarrow> pystr" where
  "number_text text =
     (let s = (if list_all (\<lambda>c. c < 128) text then text else map ascii_form text)
      in rev (dropWhile is_c_space (rev (dropWhile is_c_space s))))"

text \<open>The digits of \<open>int(text)\<close>: single underscores may stand between two digits.\<close>

fun int_digits :: "int \<Rightarrow> bool \<Rightarrow> pystr \<Rightarrow> int option" where
  "int_digits acc after_digit [] = (if after_digit then Some acc else None)"
| "int_digits acc after_digit (c # cs) =
     (if is_digit c then int_digits (acc * 10 + (int c - 48)) True cs
      else if c = 95 \<and> after_digit then int_digits acc False cs
      else None)"

text \<open>\<open>int(text)\<close>, \<open>None\<close> where it raises \<open>ValueError\<close>; more than 4300 digits are refused.\<close>

definition py_int :: "pystr \<Rightarrow> int option" where
  "py_int text =
     (let s = number_text text in
      if 4300 < length (filter is_digit s) then None
      else (case s of
          [] \<Rightarrow> None
        | c # cs \<Rightarrow>
            if c = 45 then map_option uminus (int_digits 0 False cs)
            else if c = 43 then int_digits 0 False cs
            else int_digits 0 False s))"

text \<open>Numbers in decimal.\<close>

lemma int_digits_append: "(\<forall>c \<in> set s. is_digit c) \<Longrightarrow> s \<noteq> [] \<Longrightarrow>
    int_digits acc b (s @ r) = int_digits (fold (\<lambda>c a. a * 10 + (int c - 48)) s acc) True r"
  by (induction s arbitrary: acc b) (auto, metis append_Nil fold_simps(1))

lemma dec_nat_digits: "c \<in> set (dec_nat n) \<Longrightarrow> is_digit c"
proof (induction n rule: dec_nat.induct)
  case (1 n)
  then show ?case by (auto simp: dec_nat.simps [of n] is_digit_def split: if_splits)
qed

lemma dec_nat_nonempty [simp]: "dec_nat n \<noteq> []"
  by (subst dec_nat.simps) simp

lemma dec_nat_value: "fold (\<lambda>c a. a * 10 + (int c - 48)) (dec_nat n) 0 = int n"
proof (induction n rule: dec_nat.induct)
  case (1 n)
  show ?case
  proof (cases "n < 10")
    case False
    then have "fold (\<lambda>c a. a * 10 + (int c - 48)) (dec_nat n) 0 = int (n div 10) * 10 + int (n mod 10)"
      using 1 by (subst dec_nat.simps) simp
    then show ?thesis by (metis of_nat_add of_nat_mult of_nat_numeral div_mult_mod_eq)
  qed (subst dec_nat.simps, simp)
qed

lemma int_digits_dec: "int_digits 0 False (dec_nat n) = Some (int n)"
  using int_digits_append [of "dec_nat n" 0 False "[]"] dec_nat_digits dec_nat_value by simp

lemma dec_nat_head: obtains c cs where "dec_nat n = c # cs" "is_digit c" "c = 48 \<longrightarrow> cs = []"
proof -
  have "dec_nat n = c # cs \<Longrightarrow> c = 48 \<Longrightarrow> cs = []" for c cs
  proof (induction n arbitrary: c cs rule: dec_nat.induct)
    case (1 n)
    show ?case
    proof (cases "n < 10")
      case False
      then obtain d ds where d: "dec_nat (n div 10) = d # ds" by (metis dec_nat_nonempty list.exhaust)
      moreover have "dec_nat n = dec_nat (n div 10) @ [48 + n mod 10]" using False by (subst dec_nat.simps) simp
      ultimately have "c = d" "cs = ds @ [48 + n mod 10]" using 1(2) by auto
      then have "ds = []" "d = 48" using 1 False d by auto
      then have "n div 10 = 0" using dec_nat_value [of "n div 10"] d by simp
      then show ?thesis using False by simp
    qed (use 1 in \<open>subst (asm) dec_nat.simps, auto\<close>)
  qed
  then show ?thesis using that dec_nat_digits [of _ n] dec_nat_nonempty [of n]
    by (metis list.exhaust list.set_intros(1))
qed

lemma dec_nat_length: "n < 10 ^ Suc k \<Longrightarrow> length (dec_nat n) \<le> Suc k"
proof (induction k arbitrary: n)
  case (Suc k)
  then have "length (dec_nat (n div 10)) \<le> Suc k" by (simp add: less_mult_imp_div_less mult.commute)
  then show ?case by (subst dec_nat.simps) simp
qed (subst dec_nat.simps, simp)

text \<open>\<open>int(str(n))\<close>.\<close>

lemma number_text_plain: "\<forall>c \<in> set s. c < 128 \<and> \<not> is_c_space c \<Longrightarrow> number_text s = s"
proof -
  assume d: "\<forall>c \<in> set s. c < 128 \<and> \<not> is_c_space c"
  have "dropWhile is_c_space t = t" if "set t \<subseteq> set s" for t using that d by (cases t) auto
  moreover have "list_all (\<lambda>c. c < 128) s" using d by (simp add: list_all_iff)
  ultimately show ?thesis by (simp add: number_text_def Let_def)
qed

lemma number_text_digits: "(\<forall>c \<in> set s. is_digit c) \<Longrightarrow> number_text s = s"
  "(\<forall>c \<in> set s. is_digit c) \<Longrightarrow> number_text (45 # s) = 45 # s"
  by (rule number_text_plain, auto simp: is_digit_def is_c_space_def)+

lemma py_int_dec: "0 \<le> n \<Longrightarrow> n < 10 ^ 20 \<Longrightarrow> py_int (dec n) = Some n"
proof -
  assume n: "0 \<le> n" "n < 10 ^ 20"
  have s: "number_text (dec_nat (nat n)) = dec_nat (nat n)" by (rule number_text_digits(1)) (blast intro: dec_nat_digits)
  have "nat n < 10 ^ Suc 19" using n by (simp add: nat_less_iff)
  then have "length (filter is_digit (dec_nat (nat n))) \<le> 4300"
    using dec_nat_length [of "nat n" 19] length_filter_le [of is_digit "dec_nat (nat n)"] by linarith
  moreover obtain c cs where c: "dec_nat (nat n) = c # cs" "is_digit c" by (rule dec_nat_head)
  moreover have "int_digits 0 False (c # cs) = Some n" using int_digits_dec [of "nat n"] n c by simp
  moreover have "number_text (c # cs) = c # cs" using s c by simp
  ultimately show ?thesis using n(1) by (auto simp: py_int_def dec_def is_digit_def)
qed

lemma py_int_dec_only: "py_int (dec i) = Some v \<Longrightarrow> v = i"
proof -
  assume v: "py_int (dec i) = Some v"
  let ?d = "dec_nat (nat (abs i))"
  have digits: "\<forall>c \<in> set ?d. is_digit c" by (blast intro: dec_nat_digits)
  obtain c cs where c: "?d = c # cs" "is_digit c" by (rule dec_nat_head)
  note s = number_text_digits [OF digits]
  show "v = i"
  proof (cases "i < 0")
    case True
    then have d: "dec i = 45 # ?d" by (simp add: dec_def)
    show ?thesis using v int_digits_dec [of "nat (abs i)"] True unfolding py_int_def d s(2) Let_def
      by (auto split: if_splits)
  next
    case False
    then have d: "dec i = ?d" by (simp add: dec_def)
    have "c \<noteq> 45 \<and> c \<noteq> 43" using c(2) by (auto simp: is_digit_def)
    then show ?thesis using v int_digits_dec [of "nat (abs i)"] False c unfolding py_int_def d s(1) Let_def
      by (auto split: if_splits)
  qed
qed

section \<open>Base64 with padding\<close>

definition std_char :: "nat \<Rightarrow> nat" where
  "std_char c = (if c = 45 then 43 else if c = 95 then 47 else c)"

definition url_char :: "nat \<Rightarrow> nat" where
  "url_char c = (if c = 43 then 45 else if c = 47 then 95 else c)"

text \<open>\<open>base64.b64encode(data)\<close>.\<close>

definition b64encode :: "bytes \<Rightarrow> pystr" where
  "b64encode data =
     (let s = urlsafe_b64encode data in map std_char s @ replicate ((4 - length s mod 4) mod 4) 61)"

definition is_std64 :: "nat \<Rightarrow> bool" where
  "is_std64 c \<longleftrightarrow> c \<noteq> 45 \<and> c \<noteq> 95 \<and> is_b64 (url_char c)"

text \<open>\<open>base64.b64decode(text, validate=True)\<close>, \<open>None\<close> where it raises: the data characters, then
  the padding, none of it leading and as much as the last group needs.\<close>

definition b64decode_strict :: "pystr \<Rightarrow> bytes option" where
  "b64decode_strict text =
     (let data = takeWhile (\<lambda>c. c \<noteq> 61) text; padding = dropWhile (\<lambda>c. c \<noteq> 61) text; k = length data mod 4 in
      if \<not> list_all is_std64 data \<or> \<not> list_all (\<lambda>c. c = 61) padding \<or> data = [] \<and> padding \<noteq> []
         \<or> k = 1 \<or> k \<noteq> 0 \<and> length padding \<noteq> 4 - k
      then None
      else Some (b64decode (map url_char data)))"

lemma url_std_char: "is_b64 c \<Longrightarrow> url_char (std_char c) = c \<and> std_char c \<noteq> 61 \<and> is_std64 (std_char c)"
  by (auto simp: is_b64_def url_char_def std_char_def is_std64_def)

lemma b64_strict_encode: "b64decode_strict (b64encode data) = Some data"
proof -
  let ?s = "urlsafe_b64encode data" and ?p = "\<lambda>s :: pystr. replicate ((4 - length s mod 4) mod 4) (61 :: nat)"
  have c: "\<forall>c \<in> set ?s. is_b64 c" using b64encode_chars by blast
  then have n: "\<forall>c \<in> set (map std_char ?s). c \<noteq> 61" "list_all is_std64 (map std_char ?s)"
    using url_std_char by (auto simp: list_all_iff)
  have m: "map url_char (map std_char ?s) = ?s" using c url_std_char by (auto simp: map_idI)
  have t: "takeWhile (\<lambda>c. c \<noteq> 61) (map std_char ?s @ ?p ?s) = map std_char ?s"
    "dropWhile (\<lambda>c. c \<noteq> 61) (map std_char ?s @ ?p ?s) = ?p ?s"
    using n(1) by (simp_all add: takeWhile_append dropWhile_append takeWhile_eq_Nil_iff dropWhile_eq_self_iff)
  have e: "?s = [] \<Longrightarrow> ?p ?s = []" by simp
  have k: "length ?s mod 4 \<noteq> 1" by (rule b64encode_length_mod)
  have "(4 - length ?s mod 4) mod 4 = (if length ?s mod 4 = 0 then 0 else 4 - length ?s mod 4)" by auto
  then show ?thesis using n(2) m k e unfolding b64decode_strict_def b64encode_def Let_def t by (auto simp: list_all_iff)
qed

lemma b64encode_no_dollar: "36 \<notin> set (b64encode data)"
proof -
  have "std_char c \<noteq> 36" if "c \<in> set (urlsafe_b64encode data)" for c
    using b64encode_chars [OF that] by (auto simp: std_char_def is_b64_def)
  then show ?thesis by (auto simp: b64encode_def Let_def)
qed

end
