(* ===== verification/Accounts.thy ===== *)
theory Accounts
  imports Py_Text Database
begin

text \<open>
  \<open>storage/accounts.py\<close>: provisioning and authentication of accounts. PBKDF2 with SHA-256 is a
  parameter: a function \<open>kdf\<close> of the password, the salt and the iterations. The random salt and
  the clock are arguments.
\<close>

type_synonym derivation = "bytes \<Rightarrow> bytes \<Rightarrow> int \<Rightarrow> bytes"

definition PBKDF2_ITERATIONS :: int where [simp]: "PBKDF2_ITERATIONS = 600000"
definition DERIVED_KEY_BYTES :: nat where [simp]: "DERIVED_KEY_BYTES = 32"
definition MAX_PASSWORD_BYTES :: nat where [simp]: "MAX_PASSWORD_BYTES = 128"

definition DUMMY_SALT :: bytes where
  "DUMMY_SALT = map byte_of (lit ''OpenQSP-auth-v1!'')"

definition invalid_credentials :: exn where
  "invalid_credentials = InvalidCredentialsError (lit ''invalid credentials'')"

definition password_bytes :: "pyval \<Rightarrow> bytes result" where
  "password_bytes password =
     (case password of
        PStr s \<Rightarrow>
          (case utf8_encode s of
             None \<Rightarrow> Inl invalid_credentials
           | Some encoded \<Rightarrow>
               if \<not> (1 \<le> length encoded \<and> length encoded \<le> MAX_PASSWORD_BYTES) \<or> 0 \<in> set encoded
               then Inl invalid_credentials else Inr encoded)
      | _ \<Rightarrow> Inl invalid_credentials)"

definition representation :: "derivation \<Rightarrow> bytes \<Rightarrow> bytes \<Rightarrow> pystr" where
  "representation kdf salt secret =
     lit ''pbkdf2_sha256$'' @ dec PBKDF2_ITERATIONS @ lit ''$'' @ b64encode salt @ lit ''$''
       @ b64encode (kdf secret salt PBKDF2_ITERATIONS)"

definition create_account ::
  "derivation \<Rightarrow> bytes \<Rightarrow> int \<Rightarrow> pyval \<Rightarrow> pyval \<Rightarrow> database \<Rightarrow> pystr result \<times> database" where
  "create_account kdf salt now callsign password db =
     (case normalize_callsign callsign (lit ''callsign'') of
        Inl _ \<Rightarrow> (Inl (InvalidCredentialsError (lit ''invalid account data'')), db)
      | Inr normalized \<Rightarrow>
          (case password_bytes password of
             Inl e \<Rightarrow> (Inl e, db)
           | Inr secret \<Rightarrow>
               with_connection
                 (\<lambda>c. case bindS (execute (insert_account normalized
                          \<lparr>ar_password_hash = representation kdf salt secret, ar_created_at = now\<rparr>))
                        (\<lambda>_. commit) c of
                    (Inr _, c) \<Rightarrow> (Inr normalized, c)
                  | (Inl SqliteIntegrityError, c) \<Rightarrow> (Inl AccountExistsError, rollback c)
                  | (Inl e, c) \<Rightarrow> (Inl e, c)) db))"

text \<open>The comparison with a stored representation; every failure to parse it counts as a mismatch.\<close>

definition stored_matches :: "derivation \<Rightarrow> bytes \<Rightarrow> pystr \<Rightarrow> bool" where
  "stored_matches kdf secret stored =
     (case split_char 36 stored of
        [algorithm, iterations_text, salt_text, expected_text] \<Rightarrow>
          algorithm = lit ''pbkdf2_sha256'' \<and>
          (case py_int iterations_text of
             None \<Rightarrow> False
           | Some iterations \<Rightarrow>
               100000 \<le> iterations \<and> iterations \<le> 10000000 \<and>
               (case (b64decode_strict salt_text, b64decode_strict expected_text) of
                  (Some salt, Some expected) \<Rightarrow> kdf secret salt iterations = expected
                | _ \<Rightarrow> False))
      | _ \<Rightarrow> False)"

definition authenticate :: "derivation \<Rightarrow> pyval \<Rightarrow> pyval \<Rightarrow> database \<Rightarrow> pystr result" where
  "authenticate kdf callsign password db =
     bindE (password_bytes password) (\<lambda>secret.
     let normalized = (case normalize_callsign callsign (lit ''callsign'') of Inl _ \<Rightarrow> lit ''N0NONE'' | Inr c \<Rightarrow> c) in
     case accounts db normalized of
       None \<Rightarrow> Inl invalid_credentials
     | Some row \<Rightarrow>
         if stored_matches kdf secret (ar_password_hash row) then Inr normalized else Inl invalid_credentials)"

section \<open>Facts\<close>

lemma password_bytes_Inl: "password_bytes p = Inl e \<Longrightarrow> e = invalid_credentials"
  by (auto simp: password_bytes_def split: pyval.splits option.splits if_splits)

text \<open>The representation of a password matches exactly the passwords with the same derived key.\<close>

lemma dec_iterations: "dec 600000 = lit ''600000''"
  by (simp add: dec_def dec_nat.simps lit_def)

lemma py_int_iterations: "py_int (lit ''600000'') = Some 600000"
  by (simp add: py_int_def lit_def number_text_def is_c_space_def is_digit_def)

lemma representation_fields:
  "split_char 36 (representation kdf salt secret)
     = [lit ''pbkdf2_sha256'', lit ''600000'', b64encode salt, b64encode (kdf secret salt 600000)]"
proof -
  have "representation kdf salt secret = lit ''pbkdf2_sha256'' @ 36 # lit ''600000'' @ 36 # b64encode salt @ 36
      # b64encode (kdf secret salt 600000)"
    by (simp add: representation_def dec_iterations) (simp add: lit_def)
  moreover have "36 \<notin> set (lit ''pbkdf2_sha256'')" "36 \<notin> set (lit ''600000'')" by (simp_all add: lit_def)
  ultimately show ?thesis by (simp add: split_char_append split_char_absent b64encode_no_dollar)
qed

lemma stored_matches_representation:
  "stored_matches kdf secret (representation kdf salt original)
     \<longleftrightarrow> kdf secret salt 600000 = kdf original salt 600000"
  by (simp add: stored_matches_def representation_fields py_int_iterations b64_strict_encode)

lemma create_account_run:
  assumes "normalize_callsign callsign (lit ''callsign'') = Inr c" "password_bytes password = Inr secret"
    "accounts db c = None" "0 \<le> now"
  shows "create_account kdf salt now callsign password db
    = (Inr c, db\<lparr>accounts := (accounts db)(c \<mapsto> \<lparr>ar_password_hash = representation kdf salt secret, ar_created_at = now\<rparr>)\<rparr>)"
  using assms
  by (simp add: create_account_def with_connection_def bindS_def execute_def insert_account_def commit_def)

lemma create_account_failed: "create_account kdf salt now callsign password db = (Inl e, db') \<Longrightarrow> db' = db"
  by (auto simp: create_account_def with_connection_def bindS_def execute_def insert_account_def commit_def rollback_def
      split: sum.splits if_splits)

text \<open>Whoever authenticates has an account whose representation the password matches, under the
  normalized callsign, or under N0NONE when the callsign cannot be normalized.\<close>

lemma authenticate_Inr:
  "authenticate kdf callsign password db = Inr c \<longleftrightarrow>
     (\<exists>secret row. password_bytes password = Inr secret
        \<and> c = (case normalize_callsign callsign (lit ''callsign'') of Inl _ \<Rightarrow> lit ''N0NONE'' | Inr n \<Rightarrow> n)
        \<and> accounts db c = Some row \<and> stored_matches kdf secret (ar_password_hash row))"
  by (auto simp: authenticate_def bindE_eq_Inr Let_def split: option.splits)

lemma authenticate_Inl: "authenticate kdf callsign password db = Inl e \<Longrightarrow> e = invalid_credentials"
  by (auto simp: authenticate_def bindE_eq_Inl Let_def split: option.splits if_splits dest: password_bytes_Inl)

lemma authenticate_created:
  assumes "create_account kdf salt now callsign password db = (Inr c, db')"
  shows "authenticate kdf callsign' password' db' = Inr c \<longleftrightarrow>
    (case normalize_callsign callsign' (lit ''callsign'') of Inl _ \<Rightarrow> lit ''N0NONE'' | Inr n \<Rightarrow> n) = c
    \<and> (\<exists>secret secret'. password_bytes password = Inr secret \<and> password_bytes password' = Inr secret'
        \<and> kdf secret' salt 600000 = kdf secret salt 600000)"
proof -
  obtain secret where s: "normalize_callsign callsign (lit ''callsign'') = Inr c" "password_bytes password = Inr secret"
    "accounts db c = None" "0 \<le> now"
    using assms by (auto simp: create_account_def with_connection_def bindS_def execute_def insert_account_def commit_def
        split: sum.splits if_splits)
  then have "db' = db\<lparr>accounts := (accounts db)(c \<mapsto> \<lparr>ar_password_hash = representation kdf salt secret, ar_created_at = now\<rparr>)\<rparr>"
    using create_account_run [OF s, of kdf salt] assms by simp
  then show ?thesis using s(2) by (auto simp: authenticate_Inr stored_matches_representation)
qed

end
