(* ===== verification/Incremental.thy ===== *)
theory Incremental
  imports Main
begin

text \<open>
  Readers of byte streams. A reader is fed input piece by piece and advances while it can; what it
  becomes depends on the stream and not on how the network cut it. The locale states what a reader
  has to satisfy for that.
\<close>

locale incremental =
  fixes arrive :: "'i list \<Rightarrow> 's \<Rightarrow> 's"
    and advance :: "'s \<Rightarrow> 's option"
    and pump :: "'s \<Rightarrow> 's"
  assumes arrive_append: "arrive b (arrive a s) = arrive (a @ b) s"
    and advance_arrive: "advance s = Some s' \<Longrightarrow> advance (arrive b s) = Some (arrive b s')"
    and pump_blocked: "advance s = None \<Longrightarrow> pump s = s"
    and pump_advance: "advance s = Some s' \<Longrightarrow> pump s = pump s'"
    and pump_induct: "\<lbrakk>\<And>s. advance s = None \<Longrightarrow> P s; \<And>s s'. advance s = Some s' \<Longrightarrow> P s' \<Longrightarrow> P s\<rbrakk> \<Longrightarrow> P s"
begin

lemma pump_rest: "advance (pump s) = None"
  by (induction s rule: pump_induct) (simp_all add: pump_blocked pump_advance)

lemma pump_arrive: "pump (arrive b (pump s)) = pump (arrive b s)"
proof (induction s rule: pump_induct)
  case (2 s s')
  then have "pump (arrive b s) = pump (arrive b s')" by (simp add: pump_advance [OF advance_arrive])
  then show ?case using 2 by (simp add: pump_advance)
qed (simp add: pump_blocked)

lemma pump_pieces: "fold (\<lambda>p s. pump (arrive p s)) ps (pump (arrive a s)) = pump (arrive (a @ concat ps) s)"
  by (induction ps arbitrary: a) (simp_all add: pump_arrive arrive_append)

end

end
