(* ===== verification/Tcp_Server.thy ===== *)
theory Tcp_Server
  imports Accounts Sessions Core_Properties Incremental
begin

text \<open>
  The TCP adapter (\<open>server/tcp.py\<close>, \<open>transport/tcp.py\<close>): a bounded authentication line, then Core
  frames. The state of the node is the core, the session registry and the connections; a
  connection is what its handler coroutine waits for, the bytes received and not yet read, and what
  has been written to it. Between two reads a handler runs without interruption, so a step of a
  connection is the work of its handler from one completed read to the next. The clocks and
  the session identifiers are functions of the number of steps made, so that each is read anew.
\<close>

section \<open>The wire\<close>

definition MAX_HANDSHAKE_SIZE :: nat where [simp]: "MAX_HANDSHAKE_SIZE = 256"
definition AUTH_PREFIX :: bytes where "AUTH_PREFIX = map byte_of (lit ''AUTH '')"
definition HANDSHAKE_PREFIX :: bytes where "HANDSHAKE_PREFIX = map byte_of (lit ''CALLSIGN '')"
definition HANDSHAKE_OK :: bytes where "HANDSHAKE_OK = map byte_of (lit ''OK'') @ [10]"
definition HANDSHAKE_ERROR :: bytes where "HANDSHAKE_ERROR = map byte_of (lit ''ERROR'') @ [10]"

text \<open>\<open>StreamReader.readline()\<close> with a buffer limit of \<open>MAX_FRAME_SIZE\<close>: \<open>None\<close> waits for more. A
  line longer than the limit raises, which the handler takes for an empty line.\<close>

definition read_line :: "bytes \<Rightarrow> (bytes \<times> bytes) option" where
  "read_line buffer =
     (let line = takeWhile (\<lambda>b. b \<noteq> 10) buffer; remaining = dropWhile (\<lambda>b. b \<noteq> 10) buffer in
      if length line > MAX_FRAME_SIZE then Some ([], [])
      else (case remaining of [] \<Rightarrow> None | b # bs \<Rightarrow> Some (line @ [b], bs)))"

section \<open>State\<close>

datatype phase = Handshake | Serving session | Closed

record tcp_connection =
  cn_phase :: phase
  cn_buffer :: bytes
  cn_closing :: bool
  cn_written :: "bytes list"

record tcp_node =
  tn_core :: server
  tn_sessions :: sessions
  tn_connections :: "nat \<rightharpoonup> tcp_connection"
  tn_owner :: "pystr \<rightharpoonup> nat"
  tn_account_store :: bool
  tn_allow_development_auth :: bool
  tn_listener :: nat
  tn_started :: bool
  tn_ticks :: nat

record tcp_env =
  te_kdf :: derivation
  te_monotonic :: "nat \<Rightarrow> rat"
  te_accepted_at :: "nat \<Rightarrow> pyval"
  te_uuid :: "nat \<Rightarrow> pystr"

text \<open>\<open>TCPServer(server_core, ...)\<close>, \<open>start\<close> (\<open>None\<close> where it raises) and an accepted client.\<close>

definition new_tcp_server :: "server \<Rightarrow> sessions \<Rightarrow> bool \<Rightarrow> bool \<Rightarrow> nat \<Rightarrow> tcp_node" where
  "new_tcp_server core registry account_store allow_development_auth listener =
     \<lparr>tn_core = add_message_listener listener core, tn_sessions = registry, tn_connections = Map.empty,
      tn_owner = Map.empty, tn_account_store = account_store, tn_allow_development_auth = allow_development_auth,
      tn_listener = listener, tn_started = False, tn_ticks = 0\<rparr>"

definition tcp_start :: "tcp_node \<Rightarrow> tcp_node option" where
  "tcp_start node = (if tn_started node then None else Some (node\<lparr>tn_started := True\<rparr>))"

definition tcp_accept :: "nat \<Rightarrow> tcp_node \<Rightarrow> tcp_node" where
  "tcp_accept c node = node\<lparr>tn_connections := (tn_connections node)(c \<mapsto>
     \<lparr>cn_phase = Handshake, cn_buffer = [], cn_closing = False, cn_written = []\<rparr>)\<rparr>"

definition set_connection :: "nat \<Rightarrow> tcp_connection \<Rightarrow> tcp_node \<Rightarrow> tcp_node" where
  "set_connection c cn node = node\<lparr>tn_connections := (tn_connections node)(c \<mapsto> cn)\<rparr>"

text \<open>\<open>writer.write(data)\<close>: nothing is sent once the transport is closing.\<close>

definition put_bytes :: "bytes list \<Rightarrow> tcp_connection \<Rightarrow> tcp_connection" where
  "put_bytes datas cn = (if cn_closing cn then cn else cn\<lparr>cn_written := cn_written cn @ datas\<rparr>)"

definition tcp_write :: "nat \<Rightarrow> bytes list \<Rightarrow> tcp_node \<Rightarrow> tcp_node" where
  "tcp_write c datas node =
     (case tn_connections node c of None \<Rightarrow> node | Some cn \<Rightarrow> set_connection c (put_bytes datas cn) node)"

text \<open>The handler's \<open>finally\<close>: the session and the writer are closed.\<close>

definition tcp_finish :: "nat \<Rightarrow> tcp_node \<Rightarrow> tcp_node" where
  "tcp_finish c node =
     (case tn_connections node c of
        None \<Rightarrow> node
      | Some cn \<Rightarrow>
          (let node = (case cn_phase cn of
                 Serving s \<Rightarrow> node\<lparr>tn_sessions := snd (session_close s (tn_sessions node))\<rparr>
               | _ \<Rightarrow> node)
           in set_connection c (cn\<lparr>cn_phase := Closed, cn_buffer := [], cn_closing := True\<rparr>) node))"

section \<open>Delivery\<close>

text \<open>The closure \<open>deliver\<close> of the connection that owns a session.\<close>

definition tcp_deliver :: "tcp_node \<Rightarrow> protocol_object \<Rightarrow> pystr \<Rightarrow> delivery_outcome" where
  "tcp_deliver node obj sid =
     (case Option.bind (tn_owner node sid) (tn_connections node) of
        None \<Rightarrow> Pushed False
      | Some cn \<Rightarrow>
          if cn_closing cn then Pushed False
          else (case encode_frame obj True of Inl e \<Rightarrow> Crashed e | Inr _ \<Rightarrow> Pushed True))"

definition tcp_push :: "protocol_object \<Rightarrow> pystr \<Rightarrow> tcp_node \<Rightarrow> tcp_node" where
  "tcp_push obj sid node =
     (case (tcp_deliver node obj sid, tn_owner node sid, encode_frame obj True) of
        (Pushed True, Some c, Inr frame) \<Rightarrow> tcp_write c [frame] node
      | _ \<Rightarrow> node)"

text \<open>The listener \<open>self.sessions.deliver_message\<close>; the core logs what it raises.\<close>

definition tcp_listen :: "tcp_env \<Rightarrow> event \<Rightarrow> tcp_node \<Rightarrow> tcp_node" where
  "tcp_listen env ev node =
     (case ev of
        MessageEvent l message \<Rightarrow>
          if l \<noteq> tn_listener node then node
          else (case deliver_message (tcp_deliver node message) (te_monotonic env (tn_ticks node)) message
                  (tn_sessions node) of
             (_, called, registry) \<Rightarrow> fold (tcp_push message) called (node\<lparr>tn_sessions := registry\<rparr>))
      | DeliveryEvent _ _ _ \<Rightarrow> node)"

section \<open>Authentication\<close>

definition ascii_decode :: "bytes \<Rightarrow> pystr option" where
  "ascii_decode bs = (if list_all (\<lambda>b. b < 128) bs then Some (map of_byte bs) else None)"

definition authenticate_line :: "tcp_env \<Rightarrow> tcp_node \<Rightarrow> bytes \<Rightarrow> pystr option" where
  "authenticate_line env node line =
     (if line \<noteq> [] \<and> last line = 10 \<and> length line \<le> MAX_HANDSHAKE_SIZE
      then (let v = removesuffix [13] (removesuffix [10] line) in
        if take (length AUTH_PREFIX) v = AUTH_PREFIX \<and> tn_account_store node
        then (case split_once 32 (drop (length AUTH_PREFIX) v) of
            [callsign, password] \<Rightarrow>
              (case (ascii_decode callsign, utf8_decode password) of
                 (Some callsign, Some password) \<Rightarrow>
                   (case authenticate (te_kdf env) (PStr callsign) (PStr password) (sv_db (tn_core node)) of
                      Inr c \<Rightarrow> Some c
                    | Inl _ \<Rightarrow> None)
               | _ \<Rightarrow> None)
          | _ \<Rightarrow> None)
        else if tn_allow_development_auth node \<and> take (length HANDSHAKE_PREFIX) v = HANDSHAKE_PREFIX
        then (case ascii_decode (drop (length HANDSHAKE_PREFIX) v) of
            None \<Rightarrow> None
          | Some callsign \<Rightarrow> (case validate_callsign (PStr callsign) (lit ''callsign'') of Inr c \<Rightarrow> Some c | Inl _ \<Rightarrow> None))
        else None)
      else None)"

text \<open>The end of \<open>_authenticate\<close> and the start of the session.\<close>

definition tcp_handshake :: "tcp_env \<Rightarrow> nat \<Rightarrow> tcp_connection \<Rightarrow> bytes \<Rightarrow> bytes \<Rightarrow> tcp_node \<Rightarrow> tcp_node" where
  "tcp_handshake env c cn line remaining node =
     (let tick = tn_ticks node; node = node\<lparr>tn_ticks := tick + 1\<rparr>; cn = cn\<lparr>cn_buffer := remaining\<rparr> in
      case authenticate_line env node line of
        None \<Rightarrow> tcp_finish c (set_connection c (put_bytes [HANDSHAKE_ERROR] cn) node)
      | Some callsign \<Rightarrow>
          (case session_create callsign (te_uuid env tick) (te_monotonic env tick) (tn_sessions node) of
             Inl _ \<Rightarrow> tcp_finish c (set_connection c (put_bytes [HANDSHAKE_OK] cn) node)
           | Inr (s, registry) \<Rightarrow>
               set_connection c (put_bytes [HANDSHAKE_OK] cn\<lparr>cn_phase := Serving s\<rparr>)
                 (node\<lparr>tn_sessions := registry, tn_owner := (tn_owner node)(te_uuid env tick \<mapsto> c)\<rparr>)))"

section \<open>Serving\<close>

definition tcp_serve :: "tcp_env \<Rightarrow> nat \<Rightarrow> tcp_connection \<Rightarrow> session \<Rightarrow> bytes \<Rightarrow> bytes \<Rightarrow> tcp_node \<Rightarrow> tcp_node" where
  "tcp_serve env c cn s frame remaining node =
     (let tick = tn_ticks node;
          node = (set_connection c (cn\<lparr>cn_buffer := remaining\<rparr>) node)\<lparr>tn_ticks := tick + 1,
            tn_sessions := touch_in (se_session_id s) (te_monotonic env tick) (tn_sessions node)\<rparr> in
      case handle_frame (PStr (se_callsign s)) (PBytes frame) (te_accepted_at env tick) (tn_core node) of
        (r, events, core) \<Rightarrow>
          (let node = fold (tcp_listen env) events (node\<lparr>tn_core := core\<rparr>) in
           case r of Inl _ \<Rightarrow> tcp_finish c node | Inr responses \<Rightarrow> tcp_write c responses node))"

definition tcp_advance :: "tcp_env \<Rightarrow> nat \<Rightarrow> tcp_node \<Rightarrow> tcp_node option" where
  "tcp_advance env c node =
     (case tn_connections node c of
        None \<Rightarrow> None
      | Some cn \<Rightarrow>
          (case cn_phase cn of
             Closed \<Rightarrow> None
           | Handshake \<Rightarrow>
               (case read_line (cn_buffer cn) of
                  None \<Rightarrow> None
                | Some (line, remaining) \<Rightarrow> Some (tcp_handshake env c cn line remaining node))
           | Serving s \<Rightarrow>
               (let buffer = cn_buffer cn; payload_length = unat (buffer ! 3); frame_length = HEADER_SIZE + payload_length in
                if length buffer < HEADER_SIZE then None
                else if frame_length > MAX_FRAME_SIZE then Some (tcp_finish c node)
                else if length buffer < frame_length then None
                else Some (tcp_serve env c cn s (take frame_length buffer) (drop frame_length buffer) node))))"

text \<open>Bytes arrive; the connection is lost; the client closes its end.\<close>

definition tcp_arrive :: "nat \<Rightarrow> bytes \<Rightarrow> tcp_node \<Rightarrow> tcp_node" where
  "tcp_arrive c data node =
     (case tn_connections node c of
        None \<Rightarrow> node
      | Some cn \<Rightarrow>
          if cn_phase cn = Closed then node
          else set_connection c (cn\<lparr>cn_buffer := cn_buffer cn @ data\<rparr>) node)"

definition tcp_reset :: "nat \<Rightarrow> tcp_node \<Rightarrow> tcp_node" where
  "tcp_reset c node =
     (case tn_connections node c of None \<Rightarrow> node | Some cn \<Rightarrow> set_connection c (cn\<lparr>cn_closing := True\<rparr>) node)"

definition tcp_eof :: "nat \<Rightarrow> tcp_node \<Rightarrow> tcp_node" where
  "tcp_eof c node =
     (case tn_connections node c of
        None \<Rightarrow> node
      | Some cn \<Rightarrow>
          (case cn_phase cn of
             Handshake \<Rightarrow> tcp_finish c (tcp_write c [HANDSHAKE_ERROR] node)
           | _ \<Rightarrow> tcp_finish c node))"

text \<open>\<open>close()\<close>: every connection is closed and the listener removed.\<close>

definition tcp_close :: "nat list \<Rightarrow> tcp_node \<Rightarrow> tcp_node" where
  "tcp_close connections node =
     (let node = fold tcp_finish connections (node\<lparr>tn_started := False\<rparr>)
      in node\<lparr>tn_core := remove_message_listener (tn_listener node) (tn_core node)\<rparr>)"

end
