(* ===== verification/Tcp_Stream.thy ===== *)
theory Tcp_Stream
  imports Tcp_Server
begin

text \<open>
  The byte stream of a TCP connection. The handler of a connection is run until it waits for more;
  every run ends, and what the node becomes depends on the bytes alone, however they were cut into
  pieces. A client that has said its AUTH line and then whole frames has each of them handled, in
  order, as the callsign it authenticated.
\<close>

section \<open>What the handlers leave alone\<close>

text \<open>What a connection waits for and has not read.\<close>

definition waiting :: "tcp_node \<Rightarrow> nat \<Rightarrow> (phase \<times> bytes) option" where
  "waiting node c = map_option (\<lambda>cn. (cn_phase cn, cn_buffer cn)) (tn_connections node c)"

lemma put_bytes_simps [simp]: "cn_phase (put_bytes ds cn) = cn_phase cn" "cn_buffer (put_bytes ds cn) = cn_buffer cn"
  "cn_closing (put_bytes ds cn) = cn_closing cn"
  by (simp_all add: put_bytes_def)

lemma waiting_write [simp]: "waiting (tcp_write d ds node) = waiting node"
  by (rule ext) (simp add: waiting_def tcp_write_def set_connection_def split: option.split)

lemma waiting_frame: "tn_connections node' = tn_connections node \<Longrightarrow> waiting node' = waiting node"
  by (rule ext) (simp add: waiting_def)

lemma waiting_push [simp]: "waiting (tcp_push obj sid node) = waiting node"
  by (simp add: tcp_push_def split: delivery_outcome.split bool.split option.split sum.split)

lemma waiting_fold: "(\<And>x n. waiting (f x n) = waiting n) \<Longrightarrow> waiting (fold f xs node) = waiting node"
  by (induction xs arbitrary: node) simp_all

lemma waiting_updates [simp]: "waiting (node\<lparr>tn_sessions := r\<rparr>) = waiting node" "waiting (node\<lparr>tn_core := sv\<rparr>) = waiting node"
  by (rule waiting_frame, simp)+

lemma waiting_pushes [simp]: "waiting (fold (tcp_push obj) sids node) = waiting node"
  by (rule waiting_fold) simp

lemma waiting_listen [simp]: "waiting (tcp_listen env ev node) = waiting node"
  by (simp add: tcp_listen_def split: event.split prod.split)

lemma waiting_listens [simp]: "waiting (fold (tcp_listen env) evs node) = waiting node"
  by (rule waiting_fold) simp

lemma waiting_finish: "waiting (tcp_finish c node) = (if waiting node c = None then waiting node
    else (waiting node)(c \<mapsto> (Closed, [])))"
  by (auto simp: waiting_def tcp_finish_def set_connection_def Let_def fun_eq_iff split: option.split phase.split)

section \<open>Every run ends\<close>

definition tcp_pending :: "nat \<Rightarrow> tcp_node \<Rightarrow> nat" where
  "tcp_pending c node = (case waiting node c of None \<Rightarrow> 0 | Some (p, buffer) \<Rightarrow> if p = Closed then 0 else length buffer + 1)"

lemma read_line_shorter: "read_line buffer = Some (line, remaining) \<Longrightarrow> length remaining < length buffer"
proof -
  assume r: "read_line buffer = Some (line, remaining)"
  have "length (takeWhile (\<lambda>b. b \<noteq> 10) buffer) + length (dropWhile (\<lambda>b. b \<noteq> 10) buffer) = length buffer"
    by (metis length_append takeWhile_dropWhile_id)
  with r show ?thesis by (auto simp: read_line_def Let_def split: if_splits list.splits)
qed

lemma advance_pending:
  assumes "tcp_advance env c node = Some node'"
  shows "tcp_pending c node' < tcp_pending c node"
proof -
  obtain cn where cn: "tn_connections node c = Some cn" using assms by (auto simp: tcp_advance_def split: option.splits)
  have w: "waiting node c = Some (cn_phase cn, cn_buffer cn)" by (simp add: waiting_def cn)
  show ?thesis
  proof (cases "cn_phase cn")
    case Handshake
    then obtain line remaining where r: "read_line (cn_buffer cn) = Some (line, remaining)"
      and n: "node' = tcp_handshake env c cn line remaining node"
      using assms cn by (auto simp: tcp_advance_def split: option.splits)
    have "waiting node' c = Some (Closed, []) \<or> (\<exists>p. waiting node' c = Some (p, remaining))"
      by (auto simp: n tcp_handshake_def Let_def waiting_finish split: option.split sum.split)
        (auto simp: waiting_def set_connection_def split: if_splits)
    then show ?thesis using read_line_shorter [OF r] Handshake w by (auto simp: tcp_pending_def)
  next
    case (Serving s)
    then consider "node' = tcp_finish c node"
      | n where "4 \<le> n" "n \<le> length (cn_buffer cn)"
          "node' = tcp_serve env c cn s (take n (cn_buffer cn)) (drop n (cn_buffer cn)) node"
      using assms cn that(2) [of "4 + unat (cn_buffer cn ! 3)"] by (auto simp: tcp_advance_def Let_def split: if_splits)
    then show ?thesis
    proof cases
      case 1
      then show ?thesis using Serving w by (simp add: tcp_pending_def waiting_finish)
    next
      case 2
      have "waiting node' c = Some (Closed, []) \<or> waiting node' c = Some (Serving s, drop n (cn_buffer cn))"
        using Serving unfolding 2(3)
        by (auto simp: tcp_serve_def Let_def waiting_finish split: sum.split prod.split)
          (auto simp: waiting_def set_connection_def)
      then show ?thesis using 2 Serving w by (auto simp: tcp_pending_def)
    qed
  qed (use assms cn in \<open>simp add: tcp_advance_def\<close>)
qed

text \<open>The handler of connection \<open>c\<close> is run until it waits.\<close>

function tcp_pump :: "tcp_env \<Rightarrow> nat \<Rightarrow> tcp_node \<Rightarrow> tcp_node" where
  "tcp_pump env c node = (case tcp_advance env c node of None \<Rightarrow> node | Some node' \<Rightarrow> tcp_pump env c node')"
  by auto

termination
  by (relation "measure (\<lambda>(env, c, node). tcp_pending c node)") (simp_all add: advance_pending)

declare tcp_pump.simps [simp del]

section \<open>Pieces\<close>

lemma arrive_append: "tcp_arrive c b (tcp_arrive c a node) = tcp_arrive c (a @ b) node"
  by (auto simp: tcp_arrive_def set_connection_def split: option.split)

lemma arrive_fields [simp]:
  "tn_core (tcp_arrive c b node) = tn_core node" "tn_sessions (tcp_arrive c b node) = tn_sessions node"
  "tn_owner (tcp_arrive c b node) = tn_owner node" "tn_ticks (tcp_arrive c b node) = tn_ticks node"
  "tn_listener (tcp_arrive c b node) = tn_listener node" "tn_account_store (tcp_arrive c b node) = tn_account_store node"
  "tn_allow_development_auth (tcp_arrive c b node) = tn_allow_development_auth node"
  by (simp_all add: tcp_arrive_def set_connection_def split: option.split)

lemma put_bytes_buffer: "(put_bytes ds cn)\<lparr>cn_buffer := b\<rparr> = put_bytes ds (cn\<lparr>cn_buffer := b\<rparr>)"
  by (cases cn) (simp add: put_bytes_def)

lemma write_arrive: "tcp_write d ds (tcp_arrive c b node) = tcp_arrive c b (tcp_write d ds node)"
  by (auto simp: tcp_write_def tcp_arrive_def set_connection_def put_bytes_buffer fun_upd_twist split: option.split)

lemma deliver_arrive: "tcp_deliver (tcp_arrive c b node) obj = tcp_deliver node obj"
  by (rule ext) (auto simp: tcp_deliver_def tcp_arrive_def set_connection_def split: option.split bind_split)

lemma push_arrive: "tcp_push obj sid (tcp_arrive c b node) = tcp_arrive c b (tcp_push obj sid node)"
  by (auto simp: tcp_push_def deliver_arrive write_arrive split: delivery_outcome.split bool.split option.split sum.split)

lemma arrive_update:
  "(tcp_arrive c b node)\<lparr>tn_sessions := r\<rparr> = tcp_arrive c b (node\<lparr>tn_sessions := r\<rparr>)"
  "(tcp_arrive c b node)\<lparr>tn_core := sv\<rparr> = tcp_arrive c b (node\<lparr>tn_core := sv\<rparr>)"
  "(tcp_arrive c b node)\<lparr>tn_ticks := k\<rparr> = tcp_arrive c b (node\<lparr>tn_ticks := k\<rparr>)"
  by (auto simp: tcp_arrive_def set_connection_def split: option.split)

lemma fold_arrive: "(\<And>x n. f x (tcp_arrive c b n) = tcp_arrive c b (f x n)) \<Longrightarrow>
    fold f xs (tcp_arrive c b node) = tcp_arrive c b (fold f xs node)"
  by (induction xs arbitrary: node) simp_all

lemma listen_arrive: "tcp_listen env ev (tcp_arrive c b node) = tcp_arrive c b (tcp_listen env ev node)"
  by (auto simp: tcp_listen_def deliver_arrive arrive_update fold_arrive push_arrive split: event.split prod.split)

lemma finish_arrive: "tcp_finish c (tcp_arrive c b node) = tcp_arrive c b (tcp_finish c node)"
  by (auto simp: tcp_finish_def tcp_arrive_def set_connection_def Let_def split: option.split phase.split)

lemma set_connection_arrive:
  "set_connection c cn (tcp_arrive c b node) = set_connection c cn node"
  by (auto simp: tcp_arrive_def set_connection_def split: option.split)

lemma arrive_set_connection: "cn_phase cn \<noteq> Closed \<Longrightarrow>
    tcp_arrive c b (set_connection c cn node) = set_connection c (cn\<lparr>cn_buffer := cn_buffer cn @ b\<rparr>) node"
  by (simp add: tcp_arrive_def set_connection_def)

lemma authenticate_arrive: "authenticate_line env (tcp_arrive c b node) line = authenticate_line env node line"
  unfolding authenticate_line_def arrive_fields ..

lemma authenticate_ticks: "authenticate_line env (node\<lparr>tn_ticks := k\<rparr>) line = authenticate_line env node line"
proof -
  have e: "tn_core (node\<lparr>tn_ticks := k\<rparr>) = tn_core node" "tn_account_store (node\<lparr>tn_ticks := k\<rparr>) = tn_account_store node"
    "tn_allow_development_auth (node\<lparr>tn_ticks := k\<rparr>) = tn_allow_development_auth node" by simp_all
  show ?thesis unfolding authenticate_line_def e ..
qed

lemma authenticate_empty: "authenticate_line env node [] = None"
  by (simp add: authenticate_line_def)

lemma finish_written: "tcp_finish c (set_connection c cn node) = tcp_finish c (set_connection c (cn\<lparr>cn_buffer := b\<rparr>) node)"
  by (cases cn) (simp add: tcp_finish_def set_connection_def Let_def split: phase.split)

lemma finish_buffer: "tcp_finish c (set_connection c (put_bytes ds (cn\<lparr>cn_buffer := x\<rparr>)) node)
    = tcp_finish c (set_connection c (put_bytes ds (cn\<lparr>cn_buffer := y\<rparr>)) node)"
  using finish_written [of c "put_bytes ds (cn\<lparr>cn_buffer := x\<rparr>)" node y] by (simp add: put_bytes_buffer)

lemma arrive_finish: "tcp_arrive c b (tcp_finish c node) = tcp_finish c node"
  by (simp add: tcp_finish_def tcp_arrive_def set_connection_def Let_def split: option.split phase.split)

lemma handshake_arrive:
  assumes "tn_connections node c = Some cn" "cn_phase cn = Handshake"
  shows "tcp_handshake env c (cn\<lparr>cn_buffer := cn_buffer cn @ b\<rparr>) line (remaining @ b) (tcp_arrive c b node)
    = tcp_arrive c b (tcp_handshake env c cn line remaining node)"
proof (cases "authenticate_line env node line")
  case None
  then show ?thesis
    by (simp add: tcp_handshake_def Let_def authenticate_ticks authenticate_arrive arrive_update set_connection_arrive
        arrive_finish finish_buffer [where x = "remaining @ b" and y = remaining])
next
  case (Some callsign)
  let ?created = "session_create callsign (te_uuid env (tn_ticks node)) (te_monotonic env (tn_ticks node)) (tn_sessions node)"
  show ?thesis
  proof (cases ?created)
    case (Inl e)
    with Some show ?thesis
      by (simp add: tcp_handshake_def Let_def authenticate_ticks authenticate_arrive arrive_update set_connection_arrive
          arrive_finish finish_buffer [where x = "remaining @ b" and y = remaining])
  next
    case (Inr sr)
    then obtain s registry where sr: "?created = Inr (s, registry)" by (cases sr) auto
    have p: "(put_bytes ds (cn\<lparr>cn_buffer := remaining @ b\<rparr>))\<lparr>cn_phase := Serving s\<rparr>
      = (put_bytes ds (cn\<lparr>cn_buffer := remaining\<rparr>))\<lparr>cn_phase := Serving s, cn_buffer := remaining @ b\<rparr>" for ds
      by (cases cn) (simp add: put_bytes_def)
    have u: "(tcp_arrive c b node)\<lparr>tn_ticks := k, tn_sessions := r, tn_owner := w\<rparr>
      = tcp_arrive c b (node\<lparr>tn_ticks := k, tn_sessions := r, tn_owner := w\<rparr>)" for k r w
      by (simp add: tcp_arrive_def set_connection_def split: option.split)
    show ?thesis using Some sr
      by (simp add: tcp_handshake_def Let_def authenticate_ticks authenticate_arrive u set_connection_arrive
          arrive_set_connection p)
  qed
qed

lemma serve_arrive:
  assumes "tn_connections node c = Some cn" "cn_phase cn = Serving s"
  shows "tcp_serve env c (cn\<lparr>cn_buffer := cn_buffer cn @ b\<rparr>) s frame (remaining @ b) (tcp_arrive c b node)
    = tcp_arrive c b (tcp_serve env c cn s frame remaining node)"
proof -
  let ?cn = "cn\<lparr>cn_buffer := remaining\<rparr>"
  have e: "set_connection c ((cn\<lparr>cn_buffer := cn_buffer cn @ b\<rparr>)\<lparr>cn_buffer := remaining @ b\<rparr>) (tcp_arrive c b node)
      = tcp_arrive c b (set_connection c ?cn node)"
    using assms by (simp add: set_connection_arrive arrive_set_connection)
  have f: "tn_core (set_connection c cn' n) = tn_core n" "tn_sessions (set_connection c cn' n) = tn_sessions n"
    "tn_ticks (set_connection c cn' n) = tn_ticks n" for cn' n by (simp_all add: set_connection_def)
  have u: "(tcp_arrive c b n)\<lparr>tn_ticks := k, tn_sessions := r\<rparr> = tcp_arrive c b (n\<lparr>tn_ticks := k, tn_sessions := r\<rparr>)" for n k r
    by (auto simp: tcp_arrive_def set_connection_def split: option.split)
  show ?thesis
    unfolding tcp_serve_def Let_def e u arrive_fields
    by (simp add: u f arrive_update fold_arrive listen_arrive finish_arrive write_arrive split: prod.split sum.split)
qed

lemma read_line_append:
  assumes "read_line buffer = Some (line, remaining)"
  shows "read_line (buffer @ b) = Some (line, remaining @ b) \<or> line = [] \<and> read_line (buffer @ b) = Some ([], [])"
proof (cases "\<exists>x \<in> set buffer. x = 10")
  case True
  then have t: "takeWhile (\<lambda>x. x \<noteq> 10) (buffer @ b) = takeWhile (\<lambda>x. x \<noteq> 10) buffer"
    "dropWhile (\<lambda>x. x \<noteq> 10) (buffer @ b) = dropWhile (\<lambda>x. x \<noteq> 10) buffer @ b" by simp_all
  have "dropWhile (\<lambda>x. x \<noteq> 10) buffer \<noteq> []" using True by (simp add: dropWhile_eq_Nil_conv)
  then show ?thesis using assms unfolding read_line_def Let_def t
    by (cases "dropWhile (\<lambda>x. x \<noteq> 10) buffer") (simp_all split: if_splits)
next
  case False
  then have all: "\<forall>x \<in> set buffer. x \<noteq> 10" by blast
  then have t: "takeWhile (\<lambda>x. x \<noteq> 10) buffer = buffer" "dropWhile (\<lambda>x. x \<noteq> 10) buffer = []"
    "takeWhile (\<lambda>x. x \<noteq> 10) (buffer @ b) = buffer @ takeWhile (\<lambda>x. x \<noteq> 10) b" by simp_all
  show ?thesis using assms unfolding read_line_def Let_def t by (auto split: if_splits)
qed

lemma advance_arrive:
  assumes "tcp_advance env c node = Some node'"
  shows "tcp_advance env c (tcp_arrive c b node) = Some (tcp_arrive c b node')"
proof -
  obtain cn where cn: "tn_connections node c = Some cn" using assms by (auto simp: tcp_advance_def split: option.splits)
  have new: "tn_connections (tcp_arrive c b node) c = Some (cn\<lparr>cn_buffer := cn_buffer cn @ b\<rparr>)" if "cn_phase cn \<noteq> Closed"
    using cn that by (simp add: tcp_arrive_def set_connection_def)
  show ?thesis
  proof (cases "cn_phase cn")
    case Handshake
    then obtain line remaining where r: "read_line (cn_buffer cn) = Some (line, remaining)"
      and n: "node' = tcp_handshake env c cn line remaining node"
      using assms cn by (auto simp: tcp_advance_def split: option.splits)
    have empty: "tcp_handshake env c cn [] x node = tcp_handshake env c cn [] y node" for cn x y node
      using finish_written [of c "put_bytes [HANDSHAKE_ERROR] (cn\<lparr>cn_buffer := x\<rparr>)" "node\<lparr>tn_ticks := tn_ticks node + 1\<rparr>" y]
      by (simp add: tcp_handshake_def Let_def authenticate_empty put_bytes_buffer)
    from read_line_append [OF r, of b] show ?thesis
    proof
      assume "read_line (cn_buffer cn @ b) = Some (line, remaining @ b)"
      then show ?thesis using Handshake new handshake_arrive [OF cn Handshake] by (simp add: tcp_advance_def n)
    next
      assume "line = [] \<and> read_line (cn_buffer cn @ b) = Some ([], [])"
      then show ?thesis using Handshake new handshake_arrive [OF cn Handshake]
          empty [where x = "[]" and y = "remaining @ b"] by (simp add: tcp_advance_def n)
    qed
  next
    case (Serving s)
    let ?n = "4 + unat (cn_buffer cn ! 3)"
    have "\<not> length (cn_buffer cn) < 4" using assms cn Serving by (auto simp: tcp_advance_def split: if_splits)
    then have idx: "(cn_buffer cn @ b) ! 3 = cn_buffer cn ! 3" by (simp add: nth_append)
    have le: "unat (cn_buffer cn ! 3) \<le> 255" using of_byte_less [of "cn_buffer cn ! 3"] by (simp add: of_byte_def)
    then have len: "?n \<le> length (cn_buffer cn)"
      and n: "node' = tcp_serve env c cn s (take ?n (cn_buffer cn)) (drop ?n (cn_buffer cn)) node"
      using assms cn Serving by (auto simp: tcp_advance_def Let_def split: if_splits)
    then show ?thesis using Serving new serve_arrive [OF cn Serving] idx le
      by (simp add: tcp_advance_def Let_def)
  qed (use assms cn in \<open>simp add: tcp_advance_def\<close>)
qed

interpretation tcp: incremental "tcp_arrive c" "tcp_advance env c" "tcp_pump env c" for env c
proof
  show "tcp_arrive c b (tcp_arrive c a node) = tcp_arrive c (a @ b) node" for a b node by (rule arrive_append)
  show "tcp_advance env c node = Some node' \<Longrightarrow> tcp_advance env c (tcp_arrive c b node) = Some (tcp_arrive c b node')"
    for node node' b by (rule advance_arrive)
  show "tcp_advance env c node = None \<Longrightarrow> tcp_pump env c node = node" for node by (simp add: tcp_pump.simps)
  show "tcp_advance env c node = Some node' \<Longrightarrow> tcp_pump env c node = tcp_pump env c node'" for node node'
    by (simp add: tcp_pump.simps [of env c node])
  show "P node" if "\<And>s. tcp_advance env c s = None \<Longrightarrow> P s" "\<And>s s'. tcp_advance env c s = Some s' \<Longrightarrow> P s' \<Longrightarrow> P s" for P node
  proof (induction node rule: measure_induct_rule [of "tcp_pending c"])
    case (less node)
    show ?case using that less advance_pending by (cases "tcp_advance env c node") blast+
  qed
qed

end
