(* ===== verification/Tcp_Client.thy ===== *)
theory Tcp_Client
  imports Py_Text Frame_Props Incremental
begin

text \<open>
  The blocking reference client (\<open>client/tcp.py\<close>). Its state is shared by the thread that makes a
  request and the thread that reads frames; both hold the condition's lock while they touch it, so
  their steps alternate: the reader takes whole frames from the bytes received, a waiting request
  looks at the state whenever the reader has changed it. Bytes received and not yet read are part
  of the state, as is what has been sent.
\<close>

section \<open>State\<close>

datatype client_error =
    ClientError pystr
  | AuthenticationError pystr
  | ConnectionClosedError pystr
  | ProtocolResponseError protocol_object
  | OtherError exn

type_synonym 'a client_result = "client_error + 'a"

record client =
  cl_host :: pystr
  cl_port :: int
  cl_timeout :: rat
  cl_event_handler :: bool
  cl_allow_development_auth :: bool
  cl_callsign :: "pystr option"
  cl_socket :: bool
  cl_reader :: bool
  cl_pending :: "operation option"
  cl_responses :: "protocol_object list"
  cl_events :: "protocol_object list"
  cl_failure :: "client_error option"
  cl_received :: bytes
  cl_sent :: bytes
  cl_handled :: "protocol_object list"

definition new_client :: "pystr \<Rightarrow> int \<Rightarrow> rat \<Rightarrow> bool \<Rightarrow> bool \<Rightarrow> client" where
  "new_client host port timeout event_handler allow_development_auth =
     \<lparr>cl_host = host, cl_port = port, cl_timeout = timeout, cl_event_handler = event_handler,
      cl_allow_development_auth = allow_development_auth, cl_callsign = None, cl_socket = False, cl_reader = False,
      cl_pending = None, cl_responses = [], cl_events = [], cl_failure = None, cl_received = [], cl_sent = [],
      cl_handled = []\<rparr>"

definition authenticated :: "client \<Rightarrow> bool" where
  "authenticated s \<longleftrightarrow> cl_socket s \<and> cl_callsign s \<noteq> None"

section \<open>Connecting\<close>

text \<open>\<open>connect()\<close>: the outcome of opening the socket is an argument, \<open>Some text\<close> an \<open>OSError\<close>.\<close>

definition client_connect :: "pystr option \<Rightarrow> client \<Rightarrow> unit client_result \<times> client" where
  "client_connect os_error s =
     (if cl_socket s then (Inl (ClientError (lit ''client is already connected'')), s)
      else (case os_error of
          Some text \<Rightarrow> (Inl (ClientError (lit ''cannot connect to '' @ cl_host s @ lit '':'' @ dec (cl_port s) @ lit '': '' @ text)), s)
        | None \<Rightarrow> (Inr (), s\<lparr>cl_socket := True, cl_failure := None, cl_received := [], cl_sent := []\<rparr>)))"

definition client_close :: "client \<Rightarrow> client" where
  "client_close s = s\<lparr>cl_socket := False, cl_callsign := None, cl_reader := False\<rparr>"

definition set_failure :: "client_error \<Rightarrow> client \<Rightarrow> client" where
  "set_failure failure s = s\<lparr>cl_socket := False, cl_callsign := None, cl_failure := Some failure\<rparr>"

text \<open>\<open>authenticate\<close> up to the bytes it sends.\<close>

definition authentication :: "pystr \<Rightarrow> pystr option \<Rightarrow> client \<Rightarrow> (pystr \<times> bytes) client_result" where
  "authentication callsign password s =
     (if \<not> cl_socket s then Inl (ConnectionClosedError (lit ''client is not connected''))
      else if cl_callsign s \<noteq> None then Inl (ClientError (lit ''client is already authenticated''))
      else (case normalize_callsign (PStr callsign) (lit ''callsign'') of
          Inl e \<Rightarrow> Inl (AuthenticationError (exn_str e))
        | Inr normalized \<Rightarrow>
            (case password of
               None \<Rightarrow>
                 if \<not> cl_allow_development_auth s then Inl (AuthenticationError (lit ''password is required''))
                 else Inr (normalized, map byte_of (lit ''CALLSIGN '' @ normalized) @ [10])
             | Some p \<Rightarrow>
                 (case utf8_encode p of
                    None \<Rightarrow> Inl (OtherError UnicodeEncodeError)
                  | Some password_bytes \<Rightarrow>
                      if \<not> (1 \<le> length password_bytes \<and> length password_bytes \<le> 128) \<or> 0 \<in> set password_bytes
                        \<or> 10 \<in> set password_bytes
                      then Inl (AuthenticationError (lit ''invalid credentials''))
                      else Inr (normalized, map byte_of (lit ''AUTH '' @ normalized @ lit '' '') @ password_bytes @ [10])))))"

text \<open>\<open>_read_line(limit)\<close> on what the server sends before it stops.\<close>

definition client_read_line :: "nat \<Rightarrow> bytes \<Rightarrow> bytes \<times> bytes" where
  "client_read_line limit data =
     (let n = min limit (if 10 \<in> set data then length (takeWhile (\<lambda>b. b \<noteq> 10) data) + 1 else length data)
      in (take n data, drop n data))"

text \<open>\<open>authenticate\<close>: what the server answers is an argument, \<open>Inl text\<close> an \<open>OSError\<close>.\<close>

definition client_authenticate :: "pystr \<Rightarrow> pystr option \<Rightarrow> pystr + bytes \<Rightarrow> client \<Rightarrow> unit client_result \<times> client" where
  "client_authenticate callsign password answer s =
     (case authentication callsign password s of
        Inl e \<Rightarrow> (Inl e, s)
      | Inr (normalized, line) \<Rightarrow>
          (case answer of
             Inl text \<Rightarrow> (Inl (ConnectionClosedError (lit ''connection failed during authentication: '' @ text)), client_close s)
           | Inr data \<Rightarrow>
               (let (response, received) = client_read_line 256 data; s = s\<lparr>cl_sent := cl_sent s @ line\<rparr> in
                if response \<noteq> map byte_of (lit ''OK'') @ [10]
                then (Inl (AuthenticationError (if response = map byte_of (lit ''ERROR'') @ [10]
                        then lit ''invalid credentials'' else lit ''invalid authentication response'')), client_close s)
                else (Inr (), s\<lparr>cl_callsign := Some normalized, cl_reader := True, cl_received := received\<rparr>))))"

section \<open>The reader\<close>

text \<open>One round of \<open>_reader_loop\<close>, \<open>None\<close> while a whole frame has not been received.\<close>

definition take_object :: "protocol_object \<Rightarrow> int \<Rightarrow> client \<Rightarrow> client" where
  "take_object obj flags s =
     (if flags AND UNSOLICITED_FLAG \<noteq> 0
      then s\<lparr>cl_events := cl_events s @ [obj], cl_handled := (if cl_event_handler s then cl_handled s @ [obj] else cl_handled s)\<rparr>
      else (case cl_pending s of
          None \<Rightarrow> (set_failure (ClientError (lit ''server sent an unmarked frame with no active request'')) s)\<lparr>cl_reader := False\<rparr>
        | Some _ \<Rightarrow> s\<lparr>cl_responses := cl_responses s @ [obj]\<rparr>))"

definition client_advance :: "client \<Rightarrow> client option" where
  "client_advance s =
     (let received = cl_received s; size = HEADER_SIZE + unat (received ! 3) in
      if \<not> cl_reader s \<or> \<not> cl_socket s \<or> length received < HEADER_SIZE \<or> length received < size then None
      else (let s = s\<lparr>cl_received := drop size received\<rparr> in
        case decode_frame_with_flags (PBytes (take size received)) of
          Inr (obj, flags) \<Rightarrow> Some (take_object obj flags s)
        | Inl e \<Rightarrow>
            Some ((if is_ProtocolDecodeError e \<or> is_InvalidFieldError e \<or> is_ValueError e
                   then set_failure (ClientError (lit ''invalid server frame: '' @ exn_str e)) s
                   else s)\<lparr>cl_reader := False\<rparr>)))"

definition client_arrive :: "bytes \<Rightarrow> client \<Rightarrow> client" where
  "client_arrive data s = s\<lparr>cl_received := cl_received s @ data\<rparr>"

text \<open>The server disconnects, or the socket fails with the given text.\<close>

definition client_disconnected :: "pystr \<Rightarrow> client \<Rightarrow> client" where
  "client_disconnected text s =
     (if \<not> cl_reader s then s
      else (if cl_socket s then set_failure (ConnectionClosedError text) s else s)\<lparr>cl_reader := False\<rparr>)"

lemma client_advance_shorter: "client_advance s = Some s' \<Longrightarrow> length (cl_received s') < length (cl_received s)"
  by (auto simp: client_advance_def Let_def take_object_def set_failure_def
      split: if_splits sum.splits prod.splits option.splits)

function client_pump :: "client \<Rightarrow> client" where
  "client_pump s = (case client_advance s of None \<Rightarrow> s | Some s' \<Rightarrow> client_pump s')"
  by auto

termination by (relation "measure (\<lambda>s. length (cl_received s))") (simp_all add: client_advance_shorter)

declare client_pump.simps [simp del]

section \<open>Requests\<close>

definition client_operation :: "protocol_object \<Rightarrow> operation option" where
  "client_operation request =
     (case request of
        SendMessage _ _ _ \<Rightarrow> Some SEND_MESSAGE
      | GetNewMessages _ _ \<Rightarrow> Some GET_NEW_MESSAGES
      | GetNewBulletins _ _ \<Rightarrow> Some GET_NEW_BULLETINS
      | GetBulletin _ \<Rightarrow> Some GET_BULLETIN
      | GetCapabilities \<Rightarrow> Some GET_CAPABILITIES
      | _ \<Rightarrow> None)"

definition client_complete :: "operation option \<Rightarrow> protocol_object list \<Rightarrow> bool" where
  "client_complete pending responses =
     (if responses = [] then False
      else (case last responses of
          Error _ _ _ \<Rightarrow> True
        | Stored \<Rightarrow> pending = Some SEND_MESSAGE
        | End request_operation _ _ _ \<Rightarrow>
            pending \<in> {Some GET_NEW_MESSAGES, Some GET_NEW_BULLETINS} \<and> pending = Some request_operation
        | Bulletin _ _ _ _ _ \<Rightarrow> pending = Some GET_BULLETIN
        | Capabilities _ _ \<Rightarrow> pending = Some GET_CAPABILITIES
        | _ \<Rightarrow> False))"

fun class_name :: "protocol_object \<Rightarrow> pystr" where
  "class_name (SendMessage _ _ _) = lit ''SendMessage''"
| "class_name (GetNewMessages _ _) = lit ''GetNewMessages''"
| "class_name (GetNewBulletins _ _) = lit ''GetNewBulletins''"
| "class_name (GetBulletin _) = lit ''GetBulletin''"
| "class_name GetCapabilities = lit ''GetCapabilities''"
| "class_name (GetMessage _ _) = lit ''GetMessage''"
| "class_name (Capabilities _ _) = lit ''Capabilities''"
| "class_name (Message _ _ _ _ _ _) = lit ''Message''"
| "class_name (BulletinHeader _ _ _ _) = lit ''BulletinHeader''"
| "class_name (Bulletin _ _ _ _ _) = lit ''Bulletin''"
| "class_name (End _ _ _ _) = lit ''End''"
| "class_name Stored = lit ''Stored''"
| "class_name (Error _ _ _) = lit ''Error''"

text \<open>\<open>request\<close> up to the sending; a failed \<open>sendall\<close> is noticed by the wait that follows.\<close>

definition client_begin :: "protocol_object \<Rightarrow> pystr option \<Rightarrow> client \<Rightarrow> unit client_result \<times> client" where
  "client_begin request os_error s =
     (case client_operation request of
        None \<Rightarrow> (Inl (ClientError (class_name request @ lit '' is not a client request'')), s)
      | Some operation \<Rightarrow>
          if \<not> authenticated s \<or> cl_failure s \<noteq> None
          then (Inl (case cl_failure s of Some failure \<Rightarrow> failure
                  | None \<Rightarrow> ConnectionClosedError (lit ''client is not authenticated'')), s)
          else (let s = s\<lparr>cl_pending := Some operation, cl_responses := []\<rparr> in
            case encode_frame request False of
              Inl e \<Rightarrow> (Inl (OtherError e), s)
            | Inr frame \<Rightarrow>
                (case os_error of
                   Some text \<Rightarrow> (Inr (), set_failure (ConnectionClosedError (lit ''send failed: '' @ text)) s)
                 | None \<Rightarrow> (Inr (), s\<lparr>cl_sent := cl_sent s @ frame\<rparr>))))"

text \<open>What is received before the deadline comes in pieces.\<close>

fun client_wait :: "bytes list \<Rightarrow> client \<Rightarrow> protocol_object list client_result \<times> client" where
  "client_wait pieces s =
     (if client_complete (cl_pending s) (cl_responses s)
      then (Inr (cl_responses s), s\<lparr>cl_responses := [], cl_pending := None\<rparr>)
      else (case cl_failure s of
          Some failure \<Rightarrow> (Inl failure, s)
        | None \<Rightarrow>
            (case pieces of
               [] \<Rightarrow> (Inl (ClientError (lit ''timed out waiting for server response'')), s\<lparr>cl_pending := None\<rparr>)
             | piece # pieces \<Rightarrow> client_wait pieces (client_pump (client_arrive piece s)))))"

declare client_wait.simps [simp del]

definition error_response :: "protocol_object \<Rightarrow> bool" where
  "error_response obj = (case obj of Error _ _ _ \<Rightarrow> True | _ \<Rightarrow> False)"

definition client_request ::
  "protocol_object \<Rightarrow> pystr option \<Rightarrow> bytes list \<Rightarrow> client \<Rightarrow> protocol_object list client_result \<times> client" where
  "client_request request os_error pieces s =
     (case client_begin request os_error s of
        (Inl e, s) \<Rightarrow> (Inl e, s)
      | (Inr _, s) \<Rightarrow>
          (case client_wait pieces s of
             (Inl e, s) \<Rightarrow> (Inl e, s)
           | (Inr responses, s) \<Rightarrow>
               (case find error_response responses of
                  Some error \<Rightarrow> (Inl (ProtocolResponseError error), s)
                | None \<Rightarrow> (Inr responses, s))))"

text \<open>The typed requests: what they make of the responses.\<close>

definition single :: "(protocol_object \<Rightarrow> bool) \<Rightarrow> pystr \<Rightarrow> protocol_object list client_result \<Rightarrow> protocol_object client_result" where
  "single expected name responses =
     (case responses of
        Inl e \<Rightarrow> Inl e
      | Inr [x] \<Rightarrow> if expected x then Inr x
          else Inl (ClientError (lit ''server returned an unexpected '' @ name @ lit '' response''))
      | Inr _ \<Rightarrow> Inl (ClientError (lit ''server returned an unexpected '' @ name @ lit '' response'')))"

definition listed ::
  "(protocol_object \<Rightarrow> bool) \<Rightarrow> pystr \<Rightarrow> protocol_object list client_result
    \<Rightarrow> (protocol_object list \<times> protocol_object) client_result" where
  "listed expected name responses =
     (case responses of
        Inl e \<Rightarrow> Inl e
      | Inr rs \<Rightarrow>
          if rs = [] \<or> \<not> (case last rs of End _ _ _ _ \<Rightarrow> True | _ \<Rightarrow> False) \<or> \<not> list_all expected (butlast rs)
          then Inl (ClientError (lit ''server returned an unexpected '' @ name @ lit '' response''))
          else Inr (butlast rs, last rs))"

definition client_send_message ::
  "int \<Rightarrow> pystr \<Rightarrow> pystr \<Rightarrow> pystr option \<Rightarrow> bytes list \<Rightarrow> client \<Rightarrow> protocol_object client_result \<times> client" where
  "client_send_message timestamp recipient body os_error pieces s =
     (case client_request (SendMessage timestamp recipient body) os_error pieces s of
        (r, s) \<Rightarrow> (single (\<lambda>x. x = Stored) (lit ''SEND_MESSAGE'') r, s))"

definition client_get_messages ::
  "int \<Rightarrow> int \<Rightarrow> pystr option \<Rightarrow> bytes list \<Rightarrow> client \<Rightarrow> (protocol_object list \<times> protocol_object) client_result \<times> client" where
  "client_get_messages since maximum os_error pieces s =
     (case client_request (GetNewMessages since maximum) os_error pieces s of
        (r, s) \<Rightarrow> (listed (\<lambda>x. case x of Message _ _ _ _ _ _ \<Rightarrow> True | _ \<Rightarrow> False) (lit ''GET_NEW_MESSAGES'') r, s))"

definition client_get_bulletins ::
  "int \<Rightarrow> int \<Rightarrow> pystr option \<Rightarrow> bytes list \<Rightarrow> client \<Rightarrow> (protocol_object list \<times> protocol_object) client_result \<times> client" where
  "client_get_bulletins since maximum os_error pieces s =
     (case client_request (GetNewBulletins since maximum) os_error pieces s of
        (r, s) \<Rightarrow> (listed (\<lambda>x. case x of BulletinHeader _ _ _ _ \<Rightarrow> True | _ \<Rightarrow> False) (lit ''GET_NEW_BULLETINS'') r, s))"

definition client_get_bulletin ::
  "int \<Rightarrow> pystr option \<Rightarrow> bytes list \<Rightarrow> client \<Rightarrow> protocol_object client_result \<times> client" where
  "client_get_bulletin n os_error pieces s =
     (case client_request (GetBulletin n) os_error pieces s of
        (r, s) \<Rightarrow> (single (\<lambda>x. case x of Bulletin _ _ _ _ _ \<Rightarrow> True | _ \<Rightarrow> False) (lit ''GET_BULLETIN'') r, s))"

definition client_get_capabilities :: "pystr option \<Rightarrow> bytes list \<Rightarrow> client \<Rightarrow> protocol_object client_result \<times> client" where
  "client_get_capabilities os_error pieces s =
     (case client_request GetCapabilities os_error pieces s of
        (r, s) \<Rightarrow> (single (\<lambda>x. case x of Capabilities _ _ \<Rightarrow> True | _ \<Rightarrow> False) (lit ''GET_CAPABILITIES'') r, s))"

definition client_get_events :: "client \<Rightarrow> protocol_object list \<times> client" where
  "client_get_events s = (cl_events s, s\<lparr>cl_events := []\<rparr>)"

section \<open>The reader's stream\<close>

lemma client_arrive_fields [simp]:
  "cl_reader (client_arrive b s) = cl_reader s" "cl_socket (client_arrive b s) = cl_socket s"
  "cl_received (client_arrive b s) = cl_received s @ b"
  "cl_pending (client_arrive b s) = cl_pending s" "cl_responses (client_arrive b s) = cl_responses s"
  "cl_failure (client_arrive b s) = cl_failure s" "cl_events (client_arrive b s) = cl_events s"
  by (simp_all add: client_arrive_def)

lemma client_arrive_append: "client_arrive b (client_arrive a s) = client_arrive (a @ b) s"
  by (simp add: client_arrive_def)

lemma take_object_arrive: "take_object obj flags (client_arrive b s) = client_arrive b (take_object obj flags s)"
  by (simp add: take_object_def client_arrive_def set_failure_def split: option.split)

lemma client_advance_arrive:
  assumes "client_advance s = Some s'" shows "client_advance (client_arrive b s) = Some (client_arrive b s')"
proof -
  have le: "4 \<le> length (cl_received s)" "4 + unat (cl_received s ! 3) \<le> length (cl_received s)"
    using assms by (auto simp: client_advance_def Let_def split: if_splits)
  have e: "(client_arrive b s)\<lparr>cl_received := drop n (cl_received s) @ b\<rparr> = client_arrive b (s\<lparr>cl_received := drop n (cl_received s)\<rparr>)" for n
    by (simp add: client_arrive_def)
  show ?thesis using assms le
    by (auto simp: client_advance_def Let_def nth_append e take_object_arrive split: sum.splits prod.splits if_splits)
      (simp_all add: client_arrive_def set_failure_def)
qed

interpretation client: incremental client_arrive client_advance client_pump
proof
  show "client_arrive b (client_arrive a s) = client_arrive (a @ b) s" for a b s by (rule client_arrive_append)
  show "client_advance s = Some s' \<Longrightarrow> client_advance (client_arrive b s) = Some (client_arrive b s')" for s s' b
    by (rule client_advance_arrive)
  show "client_advance s = None \<Longrightarrow> client_pump s = s" for s by (simp add: client_pump.simps)
  show "client_advance s = Some s' \<Longrightarrow> client_pump s = client_pump s'" for s s' by (simp add: client_pump.simps [of s])
  show "P s" if "\<And>s. client_advance s = None \<Longrightarrow> P s" "\<And>s s'. client_advance s = Some s' \<Longrightarrow> P s' \<Longrightarrow> P s" for P s
  proof (induction s rule: measure_induct_rule [of "\<lambda>s. length (cl_received s)"])
    case (less s)
    show ?case using that less client_advance_shorter by (cases "client_advance s") blast+
  qed
qed

end
