(* ===== verification/Tcp_Session.thy ===== *)
theory Tcp_Session
  imports Tcp_Stream Tcp_Client
begin

text \<open>
  Client and server together. A request the client sends over an authenticated connection is
  handled by the core as that user, and what the core answers is what the request returns,
  whatever the network does to the boundaries of the pieces it carries, and whatever other
  messages are pushed to the client in between.
\<close>

section \<open>Whole frames\<close>

definition whole :: "bytes \<Rightarrow> bool" where
  "whole f \<longleftrightarrow> 4 \<le> length f \<and> length f = 4 + unat (f ! 3)"

lemma header_whole: "length p \<le> 255 \<Longrightarrow> whole (header q fl p)"
  by (simp add: whole_def header_def unat_of_nat take_bit_nat_eq_self)

lemma encoded_whole: "encode_frame obj uns = Inr f \<Longrightarrow> whole f"
  unfolding encode_frame_Inr encode_get_message_Inr
  by (elim disjE exE conjE) (auto intro!: header_whole dest: ENCODERS_length callsign_ok_length)

section \<open>The server's side\<close>

text \<open>The connection serves \<open>who\<close>, has received \<open>buffer\<close> of the next frame, and waits for more.\<close>

definition serves_with :: "tcp_node \<Rightarrow> nat \<Rightarrow> pystr \<Rightarrow> bytes \<Rightarrow> bool" where
  "serves_with node c who buffer \<longleftrightarrow> (\<exists>cn s. tn_connections node c = Some cn \<and> cn_phase cn = Serving s
     \<and> se_callsign s = who \<and> cn_buffer cn = buffer \<and> \<not> cn_closing cn)"

definition serves :: "tcp_node \<Rightarrow> nat \<Rightarrow> pystr \<Rightarrow> bool" where
  "serves node c who \<longleftrightarrow> serves_with node c who []"

definition tcp_receive :: "tcp_env \<Rightarrow> nat \<Rightarrow> bytes list \<Rightarrow> tcp_node \<Rightarrow> tcp_node" where
  "tcp_receive env c pieces node = fold (\<lambda>p n. tcp_pump env c (tcp_arrive c p n)) pieces node"

definition tcp_output :: "tcp_node \<Rightarrow> nat \<Rightarrow> bytes" where
  "tcp_output node c = (case tn_connections node c of None \<Rightarrow> [] | Some cn \<Rightarrow> concat (cn_written cn))"

text \<open>What a step adds to a connection that stays as it is otherwise: pushed frames.\<close>

definition pushed :: "bytes \<Rightarrow> bool" where
  "pushed f \<longleftrightarrow> (\<exists>obj. encode_frame obj True = Inr f)"

definition adds_pushed :: "nat \<Rightarrow> tcp_node \<Rightarrow> tcp_node \<Rightarrow> bool" where
  "adds_pushed c node node' \<longleftrightarrow> (\<forall>cn. tn_connections node c = Some cn \<longrightarrow>
     (\<exists>fs. list_all pushed fs \<and> tn_connections node' c = Some (cn\<lparr>cn_written := cn_written cn @ fs\<rparr>)))"

lemma adds_pushed_same: "tn_connections node' c = tn_connections node c \<Longrightarrow> adds_pushed c node node'"
  unfolding adds_pushed_def by (auto intro!: exI [of _ "[]"])

lemma adds_pushed_trans: "adds_pushed c a b \<Longrightarrow> adds_pushed c b d \<Longrightarrow> adds_pushed c a d"
  unfolding adds_pushed_def by (fastforce intro: exI [of _ "_ @ _"])

lemma adds_pushed_fold: "(\<And>x n. adds_pushed c n (f x n)) \<Longrightarrow> adds_pushed c node (fold f xs node)"
  by (induction xs arbitrary: node) (auto intro: adds_pushed_same adds_pushed_trans)

lemma adds_pushed_push: "adds_pushed c node (tcp_push obj sid node)"
proof -
  have "adds_pushed c node (tcp_write d [f] node)" if "pushed f" for d f
    using that by (auto simp: adds_pushed_def tcp_write_def set_connection_def put_bytes_def split: option.split
        intro: exI [of _ "[f]"] exI [of _ "[]"])
  then show ?thesis
    by (auto simp: tcp_push_def pushed_def adds_pushed_same split: delivery_outcome.split bool.split option.split sum.split)
qed

lemma adds_pushed_listen: "adds_pushed c node (tcp_listen env ev node)"
proof -
  have "adds_pushed c node (fold (tcp_push obj) sids (node\<lparr>tn_sessions := r\<rparr>))" for obj sids r
    by (rule adds_pushed_trans [OF adds_pushed_same adds_pushed_fold]) (simp_all add: adds_pushed_push)
  then show ?thesis by (auto simp: tcp_listen_def adds_pushed_same split: event.split prod.split)
qed

lemma adds_pushed_listens:
  "tn_connections node' c = tn_connections node c \<Longrightarrow> adds_pushed c node (fold (tcp_listen env) events node')"
  by (rule adds_pushed_trans [OF adds_pushed_same adds_pushed_fold]) (simp_all add: adds_pushed_listen)

lemma push_core: "tn_core (tcp_push obj sid node) = tn_core node"
  by (simp add: tcp_push_def tcp_write_def set_connection_def split: delivery_outcome.split bool.split option.split sum.split)

lemma fold_core: "(\<And>x n. tn_core (f x n) = tn_core n) \<Longrightarrow> tn_core (fold f xs node) = tn_core node"
  by (induction xs arbitrary: node) simp_all

lemma listen_core: "tn_core (tcp_listen env ev node) = tn_core node"
  by (simp add: tcp_listen_def fold_core push_core split: event.split prod.split)

text \<open>A whole frame is handled once.\<close>

lemma serves_partial:
  assumes "serves_with node c who a" "whole (a @ b)" "b \<noteq> []"
  shows "tcp_advance env c node = None"
proof (cases "length a < 4")
  case False
  then have "length a + length b = 4 + unat (a ! 3)" "unat (a ! 3) \<le> 255"
    using assms(2) of_byte_less [of "a ! 3"] by (simp_all add: whole_def nth_append of_byte_def)
  moreover have "0 < length b" using assms(3) by simp
  ultimately have "length a < 4 + unat (a ! 3)" "\<not> 255 < unat (a ! 3)" by linarith+
  then show ?thesis using assms(1) by (auto simp: serves_with_def tcp_advance_def Let_def)
qed (use assms(1) in \<open>auto simp: serves_with_def tcp_advance_def Let_def\<close>)

lemma serves_blocked: "serves node c who \<Longrightarrow> tcp_advance env c node = None"
  by (auto simp: serves_def serves_with_def tcp_advance_def)

lemma serves_arrive: "serves_with node c who a \<Longrightarrow> serves_with (tcp_arrive c p node) c who (a @ p)"
  "tcp_output (tcp_arrive c p node) c = tcp_output node c"
  by (auto simp: serves_with_def tcp_arrive_def set_connection_def tcp_output_def split: option.split)

lemma serves_pushed:
  assumes "serves_with node c who a" "adds_pushed c node node'"
  shows "serves_with node' c who a" "\<exists>ps. list_all pushed ps \<and> tcp_output node' c = tcp_output node c @ concat ps"
  using assms by (fastforce simp: serves_with_def adds_pushed_def tcp_output_def)+

text \<open>An event that reaches no session of connection \<open>c\<close>.\<close>

definition unheard :: "nat \<Rightarrow> tcp_node \<Rightarrow> event \<Rightarrow> bool" where
  "unheard c node ev \<longleftrightarrow> (case ev of
       MessageEvent l m \<Rightarrow> (\<forall>s \<in> set (tn_sessions node). se_callsign s = m_recipient m \<longrightarrow> tn_owner node (se_session_id s) \<noteq> Some c)
     | DeliveryEvent _ _ _ \<Rightarrow> True)"

definition session_view :: "sessions \<Rightarrow> (pystr \<times> pystr) list" where
  "session_view = map (\<lambda>s. (se_session_id s, se_callsign s))"

lemma view_touch [simp]: "session_view (touch_in sid now registry) = session_view registry"
  by (simp add: session_view_def touch_in_def touch_def)

lemma unheard_view: "session_view (tn_sessions node') = session_view (tn_sessions node) \<Longrightarrow> tn_owner node' = tn_owner node \<Longrightarrow>
    unheard c node' = unheard c node"
proof -
  assume v: "session_view (tn_sessions node') = session_view (tn_sessions node)" and o: "tn_owner node' = tn_owner node"
  have "unheard c n ev = (case ev of MessageEvent l m \<Rightarrow>
      (\<forall>(sid, callsign) \<in> set (session_view (tn_sessions n)). callsign = m_recipient m \<longrightarrow> tn_owner n sid \<noteq> Some c)
      | DeliveryEvent _ _ _ \<Rightarrow> True)" for n ev
    by (simp add: unheard_def session_view_def split: event.split)
  then show ?thesis by (intro ext) (simp only: v o)
qed

lemma deliver_called: "deliver_loop deliver now ss n registry = (r, called, registry') \<Longrightarrow>
    set called \<subseteq> se_session_id ` set ss \<and> session_view registry' = session_view registry"
  by (induction ss arbitrary: n registry r called registry') (fastforce split: delivery_outcome.splits prod.splits if_splits)+

lemma push_elsewhere:
  "tn_owner node sid \<noteq> Some c \<Longrightarrow> tn_connections (tcp_push obj sid node) c = tn_connections node c"
  "tn_owner (tcp_push obj sid node) = tn_owner node" "tn_sessions (tcp_push obj sid node) = tn_sessions node"
  by (simp_all add: tcp_push_def tcp_write_def set_connection_def split: delivery_outcome.split bool.split option.split sum.split)

lemma pushes_elsewhere: "(\<And>sid. sid \<in> set sids \<Longrightarrow> tn_owner node sid \<noteq> Some c) \<Longrightarrow>
    tn_connections (fold (tcp_push obj) sids node) c = tn_connections node c \<and> tn_owner (fold (tcp_push obj) sids node) = tn_owner node
    \<and> tn_sessions (fold (tcp_push obj) sids node) = tn_sessions node"
  by (induction sids arbitrary: node) (simp_all add: push_elsewhere)

lemma listen_unheard:
  assumes "unheard c node ev"
  shows "tn_connections (tcp_listen env ev node) c = tn_connections node c"
    "unheard c (tcp_listen env ev node) = unheard c node"
proof -
  have "tn_connections (tcp_listen env ev node) c = tn_connections node c \<and> tn_owner (tcp_listen env ev node) = tn_owner node
      \<and> session_view (tn_sessions (tcp_listen env ev node)) = session_view (tn_sessions node)"
  proof (cases ev)
    case (MessageEvent l m)
    obtain r called registry where d: "deliver_message (tcp_deliver node m) (te_monotonic env (tn_ticks node)) m (tn_sessions node)
        = (r, called, registry)" by (metis prod_cases3)
    note called = deliver_called [OF d [unfolded deliver_message_def]]
    have c: "set called \<subseteq> se_session_id ` {s \<in> set (tn_sessions node). se_callsign s = m_recipient m}"
      using called by (auto simp: active_for_def)
    have "tn_owner (node\<lparr>tn_sessions := registry\<rparr>) sid \<noteq> Some c" if "sid \<in> set called" for sid
      using assms c that by (auto simp: unheard_def MessageEvent)
    from pushes_elsewhere [OF this] show ?thesis using called d by (simp add: tcp_listen_def MessageEvent)
  qed (simp add: tcp_listen_def)
  then show "tn_connections (tcp_listen env ev node) c = tn_connections node c"
    "unheard c (tcp_listen env ev node) = unheard c node" using unheard_view by blast+
qed

lemma listens_unheard: "list_all (unheard c node) events \<Longrightarrow>
    tn_connections (fold (tcp_listen env) events node) c = tn_connections node c"
  by (induction events arbitrary: node) (simp_all add: listen_unheard)

text \<open>The state in which the listeners are called, and what follows.\<close>

definition listening_node :: "tcp_env \<Rightarrow> nat \<Rightarrow> tcp_connection \<Rightarrow> session \<Rightarrow> server \<Rightarrow> tcp_node \<Rightarrow> tcp_node" where
  "listening_node env c cn s core node = (set_connection c (cn\<lparr>cn_buffer := []\<rparr>) node)\<lparr>tn_ticks := tn_ticks node + 1,
     tn_sessions := touch_in (se_session_id s) (te_monotonic env (tn_ticks node)) (tn_sessions node), tn_core := core\<rparr>"

lemma listening_node [simp]:
  "tn_connections (listening_node env c cn s core node) c = Some (cn\<lparr>cn_buffer := []\<rparr>)"
  "tn_owner (listening_node env c cn s core node) = tn_owner node" "tn_core (listening_node env c cn s core node) = core"
  "tn_listener (listening_node env c cn s core node) = tn_listener node"
  "session_view (tn_sessions (listening_node env c cn s core node)) = session_view (tn_sessions node)"
  by (simp_all add: listening_node_def set_connection_def)

lemma advance_serve:
  assumes "serves_with node c who f" "whole f"
    "handle_frame (PStr who) (PBytes f) (te_accepted_at env (tn_ticks node)) (tn_core node) = (Inr fs, ev, core')"
  shows "\<exists>cn s. tn_connections node c = Some cn \<and> cn_phase cn = Serving s \<and> se_callsign s = who \<and> \<not> cn_closing cn
    \<and> tcp_advance env c node = Some (tcp_write c fs (fold (tcp_listen env) ev (listening_node env c cn s core' node)))"
proof -
  obtain cn s where cn: "tn_connections node c = Some cn" "cn_phase cn = Serving s" "se_callsign s = who"
    "cn_buffer cn = f" "\<not> cn_closing cn" using assms(1) by (auto simp: serves_with_def)
  have "unat (f ! 3) \<le> 255" using of_byte_less [of "f ! 3"] by (simp add: of_byte_def)
  then have "tcp_advance env c node = Some (tcp_write c fs (fold (tcp_listen env) ev (listening_node env c cn s core' node)))"
    using assms(2,3) cn by (simp add: whole_def tcp_advance_def set_connection_def Let_def tcp_serve_def listening_node_def)
  with cn show ?thesis by blast
qed

lemma advance_frame:
  assumes "serves_with node c who f" "whole f"
    "handle_frame (PStr who) (PBytes f) (te_accepted_at env (tn_ticks node)) (tn_core node) = (Inr fs, ev, core')"
  shows "\<exists>node' ps. tcp_advance env c node = Some node' \<and> serves node' c who \<and> tn_core node' = core' \<and> list_all pushed ps
    \<and> (list_all (unheard c node) ev \<longrightarrow> ps = []) \<and> tcp_output node' c = tcp_output node c @ concat ps @ concat fs"
proof -
  from advance_serve [OF assms] obtain cn s where cn: "tn_connections node c = Some cn" "cn_phase cn = Serving s" "se_callsign s = who"
    "\<not> cn_closing cn"
    and run: "tcp_advance env c node = Some (tcp_write c fs (fold (tcp_listen env) ev (listening_node env c cn s core' node)))"
    by blast
  let ?n0 = "listening_node env c cn s core' node"
  let ?n1 = "fold (tcp_listen env) ev ?n0"
  have "adds_pushed c ?n0 ?n1" by (rule adds_pushed_listens) simp
  then obtain ps where ps: "list_all pushed ps" "tn_connections ?n1 c = Some (cn\<lparr>cn_buffer := [], cn_written := cn_written cn @ ps\<rparr>)"
    by (auto simp: adds_pushed_def)
  have "unheard c ?n0 = unheard c node" by (rule unheard_view) simp_all
  then have "tn_connections ?n1 c = tn_connections ?n0 c" if "list_all (unheard c node) ev" by (metis listens_unheard that)
  then have none: "list_all (unheard c node) ev \<longrightarrow> ps = []"
    using ps(2) by (metis append_self_conv listening_node(1) option.inject tcp_connection.select_convs(4)
        tcp_connection.surjective tcp_connection.update_convs(2,4))
  have "tn_core ?n1 = core'" by (subst fold_core) (simp_all add: listen_core)
  then have "serves (tcp_write c fs ?n1) c who" "tn_core (tcp_write c fs ?n1) = core'"
    "tcp_output (tcp_write c fs ?n1) c = tcp_output node c @ concat ps @ concat fs"
    using cn ps by (simp_all add: serves_def serves_with_def tcp_write_def set_connection_def put_bytes_def tcp_output_def)
  with run ps(1) none show ?thesis by blast
qed

lemma frame_handled:
  assumes "serves_with node c who f" "whole f"
    "handle_frame (PStr who) (PBytes f) (te_accepted_at env (tn_ticks node)) (tn_core node) = (Inr fs, ev, core')"
  shows "\<exists>ps. list_all pushed ps \<and> tcp_output (tcp_pump env c node) c = tcp_output node c @ concat ps @ concat fs
    \<and> (list_all (unheard c node) ev \<longrightarrow> ps = []) \<and> tn_core (tcp_pump env c node) = core'
    \<and> serves (tcp_pump env c node) c who"
proof -
  from advance_frame [OF assms] obtain node' ps where n: "tcp_advance env c node = Some node'" "serves node' c who"
    "tn_core node' = core'" "list_all pushed ps" "list_all (unheard c node) ev \<longrightarrow> ps = []"
    "tcp_output node' c = tcp_output node c @ concat ps @ concat fs" by blast
  have "tcp_pump env c node = node'"
    using tcp.pump_advance [OF n(1)] tcp.pump_blocked [OF serves_blocked [OF n(2)]] by simp
  then show ?thesis using n by blast
qed

text \<open>A handshake that is accepted.\<close>

lemma handshake_accepted:
  assumes "tn_connections node c = Some cn" "cn_phase cn = Handshake" "\<not> cn_closing cn" "cn_buffer cn = line @ 10 # buffer"
    "10 \<notin> set line" "length line \<le> 256" "authenticate_line env node (line @ [10]) = Some who" "callsign_ok who"
  shows "\<exists>node' s. tcp_advance env c node = Some node' \<and> serves_with node' c who buffer
    \<and> tcp_output node' c = tcp_output node c @ HANDSHAKE_OK \<and> tn_core node' = tn_core node \<and> tn_ticks node' = tn_ticks node + 1
    \<and> se_callsign s = who \<and> se_active s \<and> tn_listener node' = tn_listener node \<and> tn_sessions node' = put_session s (tn_sessions node)
    \<and> tn_owner node' = (tn_owner node)(se_session_id s \<mapsto> c)"
proof -
  let ?s = "\<lparr>se_callsign = who, se_session_id = te_uuid env (tn_ticks node), se_active = True,
    se_last_activity = te_monotonic env (tn_ticks node)\<rparr>"
  have "takeWhile (\<lambda>b. b \<noteq> 10) (line @ 10 # buffer) = line" "dropWhile (\<lambda>b. b \<noteq> 10) (line @ 10 # buffer) = 10 # buffer"
    using assms(5) by (auto simp: takeWhile_append dropWhile_append)
  then have r: "read_line (line @ 10 # buffer) = Some (line @ [10], buffer)" using assms(6) by (simp add: read_line_def)
  have new: "session_create who (te_uuid env (tn_ticks node)) (te_monotonic env (tn_ticks node)) (tn_sessions node)
      = Inr (?s, put_session ?s (tn_sessions node))"
  proof -
    have "validate_callsign (PStr who) (lit ''callsign'') = Inr who" using assms(8) by (simp add: validate_callsign_Inr)
    then show ?thesis by (simp add: session_create_def new_session_def)
  qed
  have "tcp_advance env c node = Some (tcp_handshake env c cn (line @ [10]) buffer node)"
    using assms(1,2,4) r by (simp add: tcp_advance_def)
  moreover have "serves_with (tcp_handshake env c cn (line @ [10]) buffer node) c who buffer"
    "tcp_output (tcp_handshake env c cn (line @ [10]) buffer node) c = tcp_output node c @ HANDSHAKE_OK"
    "tn_core (tcp_handshake env c cn (line @ [10]) buffer node) = tn_core node"
    "tn_listener (tcp_handshake env c cn (line @ [10]) buffer node) = tn_listener node"
    "tn_ticks (tcp_handshake env c cn (line @ [10]) buffer node) = tn_ticks node + 1"
    "tn_sessions (tcp_handshake env c cn (line @ [10]) buffer node) = put_session ?s (tn_sessions node)"
    "tn_owner (tcp_handshake env c cn (line @ [10]) buffer node) = (tn_owner node)(se_session_id ?s \<mapsto> c)"
    using assms(1,3,7) new by (simp_all add: tcp_handshake_def Let_def authenticate_ticks serves_with_def set_connection_def
        put_bytes_def tcp_output_def)
  ultimately show ?thesis by (intro exI [of _ "tcp_handshake env c cn (line @ [10]) buffer node"] exI [of _ ?s]) simp
qed

section \<open>What else the server does meanwhile\<close>

text \<open>
  A step of the server that is not one of connection \<open>c\<close>: other clients connect, send, are served and
  go, and other transports change the core, whose listener pushes the messages they stored.
\<close>

inductive other_step :: "tcp_env \<Rightarrow> nat \<Rightarrow> tcp_node \<Rightarrow> tcp_node \<Rightarrow> bool" for env c where
  other_accepted: "d \<noteq> c \<Longrightarrow> tn_connections node d = None \<Longrightarrow> other_step env c node (tcp_accept d node)"
| other_arrived: "d \<noteq> c \<Longrightarrow> other_step env c node (tcp_arrive d bs node)"
| other_advanced: "d \<noteq> c \<Longrightarrow> tcp_advance env d node = Some node' \<Longrightarrow> other_step env c node node'"
| other_reset: "d \<noteq> c \<Longrightarrow> other_step env c node (tcp_reset d node)"
| other_ended: "d \<noteq> c \<Longrightarrow> other_step env c node (tcp_eof d node)"
| other_changed: "other_step env c node (fold (tcp_listen env) events (node\<lparr>tn_core := sv, tn_sessions := registry\<rparr>))"

text \<open>A run of connection \<open>c\<close>: a piece arrives and the handler runs until it waits again, or another
  step brings the server to the given state.\<close>

datatype run_step = Piece bytes | Meanwhile tcp_node

fun run_to :: "tcp_env \<Rightarrow> nat \<Rightarrow> run_step list \<Rightarrow> tcp_node \<Rightarrow> tcp_node" where
  "run_to env c [] node = node"
| "run_to env c (Piece p # run) node = run_to env c run (tcp_pump env c (tcp_arrive c p node))"
| "run_to env c (Meanwhile node' # run) node = run_to env c run node'"

fun run_ok :: "tcp_env \<Rightarrow> nat \<Rightarrow> run_step list \<Rightarrow> tcp_node \<Rightarrow> bool" where
  "run_ok env c [] node \<longleftrightarrow> True"
| "run_ok env c (Piece p # run) node \<longleftrightarrow> (\<exists>t. ready (tn_core node) t \<and> te_accepted_at env (tn_ticks node) = PInt t)
     \<and> run_ok env c run (tcp_pump env c (tcp_arrive c p node))"
| "run_ok env c (Meanwhile node' # run) node \<longleftrightarrow> other_step env c node node' \<and> run_ok env c run node'"

fun run_bytes :: "run_step list \<Rightarrow> bytes" where
  "run_bytes [] = []"
| "run_bytes (Piece p # run) = p @ run_bytes run"
| "run_bytes (Meanwhile _ # run) = run_bytes run"

lemma run_bytes_append: "run_bytes (a @ b) = run_bytes a @ run_bytes b"
  by (induction a rule: run_bytes.induct) simp_all

lemma elsewhere: "d \<noteq> c \<Longrightarrow> tn_connections (set_connection d cn node) c = tn_connections node c"
  "d \<noteq> c \<Longrightarrow> tn_connections (tcp_write d bs node) c = tn_connections node c"
  "d \<noteq> c \<Longrightarrow> tn_connections (tcp_finish d node) c = tn_connections node c"
  by (simp_all add: set_connection_def tcp_write_def tcp_finish_def Let_def split: option.split phase.split)

lemma other_handshake: "d \<noteq> c \<Longrightarrow> tn_connections (tcp_handshake env d cn line remaining node) c = tn_connections node c"
  by (simp add: tcp_handshake_def Let_def elsewhere split: option.split sum.split prod.split)

lemma other_serve:
  assumes "d \<noteq> c"
  shows "adds_pushed c node (tcp_serve env d cn s f remaining node)"
proof -
  obtain r ev core' where h: "handle_frame (PStr (se_callsign s)) (PBytes f) (te_accepted_at env (tn_ticks node)) (tn_core node) = (r, ev, core')"
    by (metis prod_cases3)
  let ?n0 = "(set_connection d (cn\<lparr>cn_buffer := remaining\<rparr>) node)\<lparr>tn_ticks := tn_ticks node + 1,
    tn_sessions := touch_in (se_session_id s) (te_monotonic env (tn_ticks node)) (tn_sessions node), tn_core := core'\<rparr>"
  have "adds_pushed c node (fold (tcp_listen env) ev ?n0)" by (rule adds_pushed_listens) (simp add: elsewhere assms)
  moreover have "tn_connections (tcp_serve env d cn s f remaining node) c = tn_connections (fold (tcp_listen env) ev ?n0) c"
    using assms h by (auto simp: tcp_serve_def Let_def elsewhere set_connection_def split: sum.split)
  ultimately show ?thesis by (auto intro: adds_pushed_trans adds_pushed_same)
qed

lemma other_pushes: "other_step env c node node' \<Longrightarrow> adds_pushed c node node'"
proof (induction rule: other_step.induct)
  case (other_advanced d node node')
  then obtain cn where cn: "tn_connections node d = Some cn" by (auto simp: tcp_advance_def split: option.splits)
  from other_advanced(2) cn consider "node' = tcp_finish d node"
    | line remaining where "node' = tcp_handshake env d cn line remaining node"
    | s f remaining where "node' = tcp_serve env d cn s f remaining node"
    by (auto simp: tcp_advance_def Let_def split: phase.splits option.splits if_splits)
  then show ?case
    by cases (use other_advanced(1) in \<open>simp_all add: adds_pushed_same elsewhere other_handshake other_serve\<close>)
next
  case (other_changed node events sv registry)
  show ?case by (rule adds_pushed_listens) simp
qed (simp_all add: adds_pushed_same tcp_accept_def tcp_arrive_def tcp_reset_def tcp_eof_def elsewhere
    split: option.split phase.split)

text \<open>After a frame, and before it.\<close>

lemma run_idle:
  assumes "run_ok env c run node" "serves node c who" "run_bytes run = []"
  shows "serves (run_to env c run node) c who
    \<and> (\<exists>fs. list_all pushed fs \<and> tcp_output (run_to env c run node) c = tcp_output node c @ concat fs)"
  using assms
proof (induction run arbitrary: node)
  case Nil
  then show ?case by (auto intro!: exI [of _ "[]"])
next
  case (Cons x run)
  show ?case
  proof (cases x)
    case (Piece p)
    have s: "serves (tcp_arrive c p node) c who"
      using serves_arrive(1) [of node c who "[]" p] Cons.prems Piece by (simp add: serves_def)
    have b: "tcp_pump env c (tcp_arrive c p node) = tcp_arrive c p node"
      by (rule tcp.pump_blocked [OF serves_blocked [OF s]])
    then show ?thesis using Cons.IH [OF _ s] Cons.prems by (simp add: Piece serves_arrive(2))
  next
    case (Meanwhile node1)
    have s: "serves_with node c who []" using Cons.prems by (simp add: serves_def)
    have other: "other_step env c node node1" using Cons.prems(1) by (simp add: Meanwhile)
    note one = serves_pushed [OF s other_pushes [OF other]]
    from one(2) obtain fs where "list_all pushed fs" "tcp_output node1 c = tcp_output node c @ concat fs" by blast
    moreover have "serves node1 c who" using one(1) by (simp add: serves_def)
    from Cons.IH [OF _ this] Cons.prems obtain gs where "list_all pushed gs" "serves (run_to env c run node1) c who"
      "tcp_output (run_to env c run node1) c = tcp_output node1 c @ concat gs" by (auto simp: Meanwhile)
    ultimately show ?thesis by (auto simp: Meanwhile intro!: exI [of _ "fs @ gs"])
  qed
qed

text \<open>The run brings the frame \<open>f\<close> of \<open>who\<close>, and the core as it is when the frame's last byte has come
  handles it, with the frames \<open>fs\<close> as its answer.\<close>

definition handled_at :: "tcp_env \<Rightarrow> nat \<Rightarrow> pystr \<Rightarrow> bytes \<Rightarrow> run_step list \<Rightarrow> tcp_node \<Rightarrow> server \<Rightarrow> int \<Rightarrow> bytes list \<Rightarrow> bool" where
  "handled_at env c who f run node core t fs \<longleftrightarrow> (\<exists>before p after ev.
     run = before @ Piece p # after \<and> run_bytes before \<noteq> f \<and> run_bytes before @ p = f
     \<and> core = tn_core (run_to env c before node) \<and> te_accepted_at env (tn_ticks (run_to env c before node)) = PInt t \<and> ready core t
     \<and> handle_frame (PStr who) (PBytes f) (PInt t) core = (Inr fs, ev, tn_core (run_to env c (before @ [Piece p]) node)))"

text \<open>The same, with a part \<open>a\<close> of the frame received before.\<close>

definition handled_after :: "bytes \<Rightarrow> tcp_env \<Rightarrow> nat \<Rightarrow> pystr \<Rightarrow> bytes \<Rightarrow> run_step list \<Rightarrow> tcp_node \<Rightarrow> server \<Rightarrow> int \<Rightarrow> bytes list \<Rightarrow> bool" where
  "handled_after a env c who f run node core t fs \<longleftrightarrow> (\<exists>before p after ev.
     run = before @ Piece p # after \<and> a @ run_bytes before \<noteq> f \<and> a @ run_bytes before @ p = f
     \<and> core = tn_core (run_to env c before node) \<and> te_accepted_at env (tn_ticks (run_to env c before node)) = PInt t \<and> ready core t
     \<and> handle_frame (PStr who) (PBytes f) (PInt t) core = (Inr fs, ev, tn_core (run_to env c (before @ [Piece p]) node)))"

lemma handled_earlier:
  assumes "handled_after (a @ run_bytes [x]) env c who f run middle core t fs"
    "\<And>run. run_to env c (x # run) node = run_to env c run middle"
  shows "handled_after a env c who f (x # run) node core t fs"
proof -
  from assms(1) obtain before p after ev where h: "run = before @ Piece p # after" "(a @ run_bytes [x]) @ run_bytes before \<noteq> f"
    "(a @ run_bytes [x]) @ run_bytes before @ p = f" "core = tn_core (run_to env c before middle)"
    "te_accepted_at env (tn_ticks (run_to env c before middle)) = PInt t" "ready core t"
    "handle_frame (PStr who) (PBytes f) (PInt t) core = (Inr fs, ev, tn_core (run_to env c (before @ [Piece p]) middle))"
    unfolding handled_after_def by blast
  have "run_bytes (x # before) = run_bytes [x] @ run_bytes before" using run_bytes_append [of "[x]" before] by simp
  then show ?thesis unfolding handled_after_def using h assms(2)
    by (intro exI [of _ "x # before"] exI [of _ p] exI [of _ after] exI [of _ ev]) simp
qed

lemma run_frame_after:
  assumes "run_ok env c run node" "serves_with node c who a" "a @ run_bytes run = f" "a \<noteq> f" "whole f"
    "\<And>sv t. ready sv t \<Longrightarrow> \<exists>fs ev sv'. handle_frame (PStr who) (PBytes f) (PInt t) sv = (Inr fs, ev, sv')"
  shows "\<exists>core t fs gs hs. handled_after a env c who f run node core t fs \<and> serves (run_to env c run node) c who
    \<and> list_all pushed gs \<and> list_all pushed hs
    \<and> tcp_output (run_to env c run node) c = tcp_output node c @ concat gs @ concat fs @ concat hs"
  using assms(1-4)
proof (induction run arbitrary: a node)
  case (Cons x run)
  show ?case
  proof (cases x)
    case (Piece p)
    let ?n = "tcp_arrive c p node" and ?n' = "tcp_pump env c (tcp_arrive c p node)"
    have s: "serves_with ?n c who (a @ p)" using Cons.prems(2) by (rule serves_arrive)
    have ok: "run_ok env c run ?n'" using Cons.prems(1) by (simp add: Piece)
    show ?thesis
    proof (cases "a @ p = f")
      case True
      obtain t where t: "ready (tn_core node) t" "te_accepted_at env (tn_ticks node) = PInt t"
        using Cons.prems(1) by (auto simp: Piece)
      obtain fs ev sv' where h: "handle_frame (PStr who) (PBytes f) (PInt t) (tn_core node) = (Inr fs, ev, sv')"
        using assms(6) [OF t(1)] by blast
      obtain gs where gs: "list_all pushed gs" "tcp_output ?n' c = tcp_output node c @ concat gs @ concat fs"
        "tn_core ?n' = sv'" "serves ?n' c who"
        using frame_handled [OF s [unfolded True] assms(5), of env] h t(2) by (auto simp: serves_arrive(2))
      have "run_bytes run = []" using True Cons.prems(3) by (simp add: Piece flip: append_assoc)
      from run_idle [OF ok gs(4) this] obtain hs where "serves (run_to env c run ?n') c who" "list_all pushed hs"
        "tcp_output (run_to env c run ?n') c = tcp_output ?n' c @ concat hs" by blast
      moreover have "handled_after a env c who f (x # run) node (tn_core node) t fs"
        unfolding handled_after_def using Cons.prems(4) t h gs(3) True Piece
        by (intro exI [of _ "[]"] exI [of _ p] exI [of _ run] exI [of _ ev]) simp
      ultimately show ?thesis using gs Piece
        by (intro exI [of _ "tn_core node"] exI [of _ t] exI [of _ fs] exI [of _ gs] exI [of _ hs]) simp
    next
      case False
      have f: "f = (a @ p) @ run_bytes run" using Cons.prems(3) by (simp add: Piece)
      then have "tcp_advance env c ?n = None" using serves_partial [OF s, of "run_bytes run"] assms(5) False by auto
      then have b: "?n' = ?n" by (rule tcp.pump_blocked)
      obtain core t fs gs hs where r: "handled_after (a @ p) env c who f run ?n core t fs" "serves (run_to env c run ?n) c who"
        "list_all pushed gs" "list_all pushed hs"
        "tcp_output (run_to env c run ?n) c = tcp_output ?n c @ concat gs @ concat fs @ concat hs"
        using Cons.IH [OF _ s f [symmetric] False] ok b by auto
      have "handled_after a env c who f (x # run) node core t fs"
        by (rule handled_earlier [where middle = ?n]) (use r(1) b in \<open>simp_all add: Piece\<close>)
      then show ?thesis using r b
        by (intro exI [of _ core] exI [of _ t] exI [of _ fs] exI [of _ gs] exI [of _ hs]) (simp add: Piece serves_arrive(2))
    qed
  next
    case (Meanwhile node1)
    have other: "other_step env c node node1" using Cons.prems(1) by (simp add: Meanwhile)
    note one = serves_pushed [OF Cons.prems(2) other_pushes [OF other]]
    from one(2) obtain gs0 where g: "list_all pushed gs0" "tcp_output node1 c = tcp_output node c @ concat gs0" by blast
    obtain core t fs gs hs where r: "handled_after a env c who f run node1 core t fs" "serves (run_to env c run node1) c who"
      "list_all pushed gs" "list_all pushed hs"
      "tcp_output (run_to env c run node1) c = tcp_output node1 c @ concat gs @ concat fs @ concat hs"
      using Cons.IH [OF _ one(1) _ Cons.prems(4)] Cons.prems(1,3) unfolding Meanwhile by (metis run_ok.simps(3) run_bytes.simps(3))
    have "handled_after a env c who f (x # run) node core t fs"
      by (rule handled_earlier [where middle = node1]) (use r(1) in \<open>simp_all add: Meanwhile\<close>)
    then show ?thesis using r g
      by (intro exI [of _ core] exI [of _ t] exI [of _ fs] exI [of _ "gs0 @ gs"] exI [of _ hs]) (simp add: Meanwhile)
  qed
qed simp

lemma run_frame:
  assumes "run_ok env c run node" "serves node c who" "run_bytes run = f" "whole f"
    "\<And>sv t. ready sv t \<Longrightarrow> \<exists>fs ev sv'. handle_frame (PStr who) (PBytes f) (PInt t) sv = (Inr fs, ev, sv')"
  shows "\<exists>core t fs gs hs. handled_at env c who f run node core t fs \<and> serves (run_to env c run node) c who
    \<and> list_all pushed gs \<and> list_all pushed hs
    \<and> tcp_output (run_to env c run node) c = tcp_output node c @ concat gs @ concat fs @ concat hs"
proof -
  have "[] \<noteq> f" using assms(4) by (auto simp: whole_def)
  then show ?thesis
    using run_frame_after [OF assms(1) assms(2) [unfolded serves_def] _ _ assms(4,5)] assms(3)
    by (simp add: handled_at_def handled_after_def)
qed

section \<open>The client's side\<close>

text \<open>Connected and authenticated, with nothing received and no failure.\<close>

definition listening :: "client \<Rightarrow> bool" where
  "listening s \<longleftrightarrow> cl_socket s \<and> cl_reader s \<and> cl_failure s = None \<and> cl_received s = []"

text \<open>A frame of the server: an object and whether it is unsolicited.\<close>

definition framed_as :: "bytes \<Rightarrow> protocol_object \<times> bool \<Rightarrow> bool" where
  "framed_as f x \<longleftrightarrow> encode_frame (fst x) (snd x) = Inr f"

definition taken :: "protocol_object \<times> bool \<Rightarrow> client \<Rightarrow> client" where
  "taken x s = take_object (fst x) (of_bool (snd x)) s"

lemma taken_listening:
  assumes "listening s" "cl_pending s \<noteq> None"
  shows "listening (taken x s)" "cl_pending (taken x s) = cl_pending s"
    "cl_responses (taken x s) = cl_responses s @ (if snd x then [] else [fst x])"
  using assms by (auto simp: taken_def take_object_def listening_def set_failure_def)

lemma taken_all:
  assumes "listening s" "cl_pending s \<noteq> None"
  shows "listening (fold taken xs s) \<and> cl_pending (fold taken xs s) = cl_pending s
    \<and> cl_responses (fold taken xs s) = cl_responses s @ map fst (filter (\<lambda>x. \<not> snd x) xs)"
  using assms
proof (induction xs arbitrary: s)
  case (Cons x xs)
  then show ?case using Cons.IH [of "taken x s"] taken_listening [OF Cons.prems, of x] by simp
qed simp

lemma taken_arrive: "taken x (client_arrive b s) = client_arrive b (taken x s)"
  by (simp add: taken_def take_object_arrive)

lemma client_advance_whole:
  assumes "listening s" "framed_as f x"
  shows "client_advance (client_arrive f s) = Some (taken x s)"
proof -
  have same: "s\<lparr>cl_received := []\<rparr> = s" using assms(1) by (cases s) (simp add: listening_def)
  show ?thesis
    using assms encoded_whole [of "fst x" "snd x" f] decode_encode_frame [of "fst x" "snd x" f]
    by (auto simp: same client_advance_def listening_def framed_as_def taken_def whole_def Let_def client_arrive_def)
qed

lemma client_advance_partial:
  assumes "listening s" "whole f" "f = a @ b" "b \<noteq> []"
  shows "client_advance (client_arrive a s) = None"
proof (cases "length a < 4")
  case False
  have "length a < length f" using assms(3,4) by simp
  moreover have "length f = 4 + unat (a ! 3)" using assms(2,3) False by (simp add: whole_def nth_append)
  ultimately have "length a < 4 + unat (a ! 3)" by linarith
  then show ?thesis using assms(1) by (simp add: client_advance_def listening_def Let_def client_arrive_def)
qed (use assms(1) in \<open>simp add: client_advance_def listening_def Let_def client_arrive_def\<close>)

text \<open>What the reader has made of a part of the stream: some whole frames, and the start of another.\<close>

lemma client_pump_part:
  assumes "list_all2 framed_as fs xs" "concat fs = a @ b" "listening s" "cl_pending s \<noteq> None"
  shows "\<exists>k s'. k \<le> length xs \<and> client_pump (client_arrive a s) = client_arrive s' (fold taken (take k xs) s)
    \<and> (b = [] \<longrightarrow> k = length xs \<and> s' = [])"
  using assms
proof (induction fs xs arbitrary: a s rule: list_all2_induct)
  case Nil
  then have "client_advance s = None" by (auto simp: client_advance_def listening_def Let_def)
  then show ?case using Nil
    by (intro exI [of _ 0] exI [of _ "[]"]) (auto simp: client_arrive_def client.pump_blocked)
next
  case (Cons f fs x xs)
  have w: "whole f" using Cons.hyps(1) by (auto simp: framed_as_def encoded_whole)
  show ?case
  proof (cases "length f \<le> length a")
    case True
    then obtain a' where a: "a = f @ a'" "concat fs = a' @ b"
      using Cons.prems(1) by (auto simp: append_eq_append_conv2)
    have "client_pump (client_arrive a s) = client_pump (client_arrive a' (taken x s))"
      using client.advance_arrive [OF client_advance_whole [OF Cons.prems(2) Cons.hyps(1)], of a']
      by (simp add: a(1) client.pump_advance flip: client_arrive_append)
    moreover obtain k s' where "k \<le> length xs"
      "client_pump (client_arrive a' (taken x s)) = client_arrive s' (fold taken (take k xs) (taken x s))"
      "b = [] \<longrightarrow> k = length xs \<and> s' = []"
      using Cons.IH [OF a(2)] taken_listening [OF Cons.prems(2,3), of x] Cons.prems(3) by metis
    ultimately show ?thesis by (intro exI [of _ "Suc k"] exI [of _ s']) simp
  next
    case False
    then obtain b' where "f = a @ b'" "b' \<noteq> []" "b \<noteq> []" using Cons.prems(1)
      by (auto simp: append_eq_append_conv2)
    then have "client_pump (client_arrive a s) = client_arrive a s"
      using client_advance_partial [OF Cons.prems(2) w] by (simp add: client.pump_blocked)
    then show ?thesis using \<open>b \<noteq> []\<close> by (intro exI [of _ 0] exI [of _ a]) simp
  qed
qed

lemma wait_stream:
  assumes "list_all2 framed_as fs xs" "listening s" "cl_pending s = Some op" "cl_responses s = []"
    "rs = map fst (filter (\<lambda>x. \<not> snd x) xs)" "client_complete (Some op) rs"
    "\<forall>k < length rs. \<not> client_complete (Some op) (take k rs)" "a @ concat pieces = concat fs"
  shows "fst (client_wait pieces (client_pump (client_arrive a s))) = Inr rs"
  using assms(8)
proof (induction pieces arbitrary: a)
  case (Nil a)
  then have "concat fs = a @ []" by simp
  then obtain t where "client_pump (client_arrive a s) = client_arrive t (fold taken xs s)"
    using client_pump_part [OF assms(1) _ assms(2), of a "[]"] assms(3) by auto
  then show ?case using taken_all [OF assms(2), of xs] assms(3-6) by (simp add: client_wait.simps)
next
  case (Cons p ps)
  let ?st = "client_pump (client_arrive a s)"
  obtain k t where k: "k \<le> length xs" "?st = client_arrive t (fold taken (take k xs) s)"
    using client_pump_part [OF assms(1) _ assms(2), of a "concat (p # ps)"] Cons.prems assms(3) by auto
  have st: "cl_pending ?st = Some op" "cl_failure ?st = None"
    "cl_responses ?st = map fst (filter (\<lambda>x. \<not> snd x) (take k xs))"
    using taken_all [OF assms(2), of "take k xs"] assms(3,4) by (simp_all add: k(2) listening_def)
  have "rs = cl_responses ?st @ map fst (filter (\<lambda>x. \<not> snd x) (drop k xs))"
    unfolding st(3) assms(5) by (metis append_take_drop_id filter_append map_append)
  then have pre: "cl_responses ?st = take (length (cl_responses ?st)) rs" "length (cl_responses ?st) \<le> length rs"
    by (metis append_eq_conv_conj, metis length_append le_add1)
  show ?case
  proof (cases "client_complete (Some op) (cl_responses ?st)")
    case True
    then have "cl_responses ?st = rs" using pre assms(7) by (metis le_neq_implies_less take_all order_refl)
    then show ?thesis using True st(1) by (simp add: client_wait.simps)
  next
    case False
    have "(a @ p) @ concat ps = concat fs" using Cons.prems by simp
    from Cons.IH [OF this] show ?thesis using False st(1,2)
      by (simp add: client_wait.simps [of "p # ps"] client.pump_arrive client_arrive_append)
  qed
qed

section \<open>What completes a request\<close>

text \<open>The responses of the core to a request of the client are complete, and no part of them is.\<close>

definition final_response :: "operation \<Rightarrow> protocol_object \<Rightarrow> bool" where
  "final_response op r \<longleftrightarrow> client_complete (Some op) [r]"

lemma complete_last: "rs \<noteq> [] \<Longrightarrow> client_complete pending rs = client_complete pending [last rs]"
  by (simp add: client_complete_def)

definition response_list :: "operation \<Rightarrow> protocol_object list \<Rightarrow> bool" where
  "response_list op rs \<longleftrightarrow> rs \<noteq> [] \<and> final_response op (last rs) \<and> list_all (\<lambda>r. \<not> final_response op r) (butlast rs)"

lemma response_list_complete:
  assumes "response_list op rs"
  shows "client_complete (Some op) rs" "\<forall>k < length rs. \<not> client_complete (Some op) (take k rs)"
proof -
  show "client_complete (Some op) rs" 
    using assms complete_last [of rs "Some op"] by (simp add: response_list_def final_response_def)
  show "\<forall>k < length rs. \<not> client_complete (Some op) (take k rs)"
  proof (intro allI impI)
    fix k assume k: "k < length rs"
    show "\<not> client_complete (Some op) (take k rs)"
    proof (cases "k = 0")
      case False
      have "rs \<noteq> []" using k by auto
      with False have "last (take k rs) = butlast rs ! (k - 1)" "k - 1 < length (butlast rs)"
        using k last_conv_nth [of "take k rs"] by (auto simp: nth_butlast min_def)
      then have "\<not> final_response op (last (take k rs))" using assms by (simp add: response_list_def list_all_length)
      then show ?thesis using complete_last [of "take k rs" "Some op"] k False \<open>rs \<noteq> []\<close> by (simp add: final_response_def)
    qed (simp add: client_complete_def)
  qed
qed

lemma response_list_simps [simp]:
  "response_list op [x] = final_response op x"
  "response_list op (rs @ [x]) \<longleftrightarrow> final_response op x \<and> list_all (\<lambda>r. \<not> final_response op r) rs"
  by (simp_all add: response_list_def)

lemma final_simps [simp]:
  "final_response op (Error e1 e2 e3)" "final_response SEND_MESSAGE Stored"
  "final_response GET_NEW_MESSAGES (End GET_NEW_MESSAGES n m h)" "final_response GET_NEW_BULLETINS (End GET_NEW_BULLETINS n m h)"
  "final_response GET_BULLETIN (Bulletin b1 b2 b3 b4 b5)" "final_response GET_CAPABILITIES (Capabilities c1 c2)"
  "\<not> final_response op (Message m1 m2 m3 m4 m5 m6)" "\<not> final_response op (BulletinHeader b1 b2 b3 b4)"
  by (simp_all add: final_response_def client_complete_def)

lemma message_responses: "mapE (message_response db) ms = Inr rs \<Longrightarrow> list_all (\<lambda>r. \<not> final_response op r) rs"
  by (induction ms arbitrary: rs) (auto simp: bindE_eq_Inr message_response_def)

lemma dispatch_complete:
  assumes "dispatch who q clock sv = (Inr rs, ev, sv')" "client_operation q = Some op"
  shows "response_list op rs"
proof (cases q)
  case (SendMessage t r b)
  then show ?thesis using assms
    by (auto simp: dispatch_def handle_send_message_def client_operation_def split: if_splits sum.splits prod.splits exn.splits)
next
  case (GetNewMessages since mx)
  then show ?thesis using assms
    by (auto simp: dispatch_def reading_def handle_get_new_messages_def client_operation_def bindE_eq_Inr message_responses
        split: if_splits sum.splits exn.splits)
next
  case (GetNewBulletins since mx)
  then show ?thesis using assms
    by (auto simp: dispatch_def reading_def handle_get_new_bulletins_def client_operation_def list_all_iff
        split: if_splits sum.splits exn.splits)
next
  case (GetBulletin n)
  then show ?thesis using assms
    by (auto simp: dispatch_def reading_def handle_get_bulletin_def client_operation_def
        split: if_splits sum.splits exn.splits option.splits)
next
  case GetCapabilities
  then show ?thesis using assms by (auto simp: dispatch_def reading_def client_operation_def)
qed (use assms in \<open>simp_all add: client_operation_def\<close>)

section \<open>The remote call\<close>

lemma pushed_frames: "list_all pushed ps \<Longrightarrow> \<exists>xs. list_all2 framed_as ps xs \<and> filter (\<lambda>x. \<not> snd x) xs = []"
proof (induction ps)
  case (Cons p ps)
  then obtain xs obj where "list_all2 framed_as ps xs" "filter (\<lambda>x. \<not> snd x) xs = []" "encode_frame obj True = Inr p"
    by (auto simp: pushed_def)
  moreover from this have "framed_as p (obj, True)" by (simp add: framed_as_def)
  ultimately show ?case by (intro exI [of _ "(obj, True) # xs"]) simp
qed simp

lemma response_framed: "mapE (\<lambda>r. encode_frame r False) rs = Inr fs \<Longrightarrow> list_all2 framed_as fs (map (\<lambda>r. (r, False)) rs)"
  by (induction rs arbitrary: fs) (auto simp: bindE_eq_Inr framed_as_def)

lemma begin_run:
  assumes "authenticated cl" "cl_failure cl = None" "client_operation q = Some op" "encode_frame q False = Inr d"
  shows "client_begin q None cl = (Inr (), cl\<lparr>cl_pending := Some op, cl_responses := [], cl_sent := cl_sent cl @ d\<rparr>)"
  using assms by (simp add: client_begin_def)

text \<open>A user's request, in whatever pieces it comes and whatever else happens meanwhile.\<close>

lemma remote_call_run:
  assumes "serves node c who" "run_ok env c run node"
    "authenticated cl" "cl_reader cl" "cl_failure cl = None" "cl_received cl = []"
    "client_operation q = Some op" "encode_frame q False = Inr d" "run_bytes run = d"
  shows "\<exists>core t rs fs ev sv' new. handled_at env c who d run node core t fs
    \<and> dispatch who q (PInt t) core = (Inr rs, ev, sv') \<and> mapE (\<lambda>r. encode_frame r False) rs = Inr fs
    \<and> serves (run_to env c run node) c who \<and> tcp_output (run_to env c run node) c = tcp_output node c @ new
    \<and> (\<forall>down. concat down = new \<longrightarrow> fst (client_request q None down cl)
        = (case find error_response rs of Some error \<Rightarrow> Inl (ProtocolResponseError error) | None \<Rightarrow> Inr rs))"
proof -
  have q: "valid_object q" using assms(8) encode_frame_ok [of q False] by auto
  have dec: "decode_frame (PBytes d) = Inr q" using decode_encode_frame [OF assms(8)] by (simp add: decode_frame_iff)
  have handle: "\<exists>rs fs ev sv'. dispatch who q (PInt t) sv = (Inr rs, ev, sv') \<and> mapE (\<lambda>r. encode_frame r False) rs = Inr fs
      \<and> handle_frame (PStr who) (PBytes d) (PInt t) sv = (Inr fs, ev, sv')" if r: "ready sv t" for sv t
  proof -
    obtain rs ev sv' where run: "dispatch who q (PInt t) sv = (Inr rs, ev, sv')" and a: "answers rs"
      using dispatch_total [OF r] q by blast
    moreover obtain fs where "mapE (\<lambda>r. encode_frame r False) rs = Inr fs" using encode_answers [OF a] by blast
    ultimately show ?thesis using dec by (auto simp: handle_frame_def)
  qed
  have w: "whole d" using encoded_whole [OF assms(8)] .
  from run_frame [OF assms(2,1,9) w] handle obtain core t fs gs hs where
    h: "handled_at env c who d run node core t fs" "serves (run_to env c run node) c who" "list_all pushed gs" "list_all pushed hs"
    "tcp_output (run_to env c run node) c = tcp_output node c @ concat gs @ concat fs @ concat hs" by blast
  then have "ready core t" "\<exists>ev sv'. handle_frame (PStr who) (PBytes d) (PInt t) core = (Inr fs, ev, sv')"
    by (auto simp: handled_at_def)
  with handle obtain rs ev sv' where res: "dispatch who q (PInt t) core = (Inr rs, ev, sv')"
    "mapE (\<lambda>r. encode_frame r False) rs = Inr fs" by (metis Inr_inject Pair_inject)
  obtain xs where xs: "list_all2 framed_as gs xs" "filter (\<lambda>x. \<not> snd x) xs = []" using pushed_frames [OF h(3)] by blast
  obtain ys where ys: "list_all2 framed_as hs ys" "filter (\<lambda>x. \<not> snd x) ys = []" using pushed_frames [OF h(4)] by blast
  let ?all = "xs @ map (\<lambda>r. (r, False)) rs @ ys"
  let ?cl = "cl\<lparr>cl_pending := Some op, cl_responses := [], cl_sent := cl_sent cl @ d\<rparr>"
  have all: "list_all2 framed_as (gs @ fs @ hs) ?all"
    by (intro list_all2_appendI xs(1) ys(1) response_framed [OF res(2)])
  have rs: "rs = map fst (filter (\<lambda>x. \<not> snd x) ?all)" using xs(2) ys(2) by (simp add: filter_map comp_def)
  note complete = response_list_complete [OF dispatch_complete [OF res(1) assms(7)]]
  have l: "listening ?cl" using assms(3-6) by (simp add: listening_def authenticated_def)
  have blocked: "client_pump (client_arrive [] ?cl) = ?cl"
    using l by (simp add: client_arrive_def client.pump_blocked client_advance_def listening_def Let_def)
  have "fst (client_request q None down cl)
      = (case find error_response rs of Some error \<Rightarrow> Inl (ProtocolResponseError error) | None \<Rightarrow> Inr rs)"
    if "concat down = concat gs @ concat fs @ concat hs" for down
  proof -
    have "fst (client_wait down ?cl) = Inr rs"
      using wait_stream [OF all l _ _ rs complete, of "[]" down] that blocked by simp
    then obtain s' where "client_wait down ?cl = (Inr rs, s')" by (metis prod.collapse)
    then show ?thesis by (simp add: client_request_def begin_run [OF assms(3,5,7,8)] split: option.split)
  qed
  with h(1,2,5) res show ?thesis
    by (intro exI [of _ core] exI [of _ t] exI [of _ rs] exI [of _ fs] exI [of _ ev] exI [of _ sv']
        exI [of _ "concat gs @ concat fs @ concat hs"]) simp
qed

end
