(* ===== verification/Tcp_Properties.thy ===== *)
theory Tcp_Properties
  imports Tcp_Session Request_Once
begin

text \<open>
  The properties of accounts, of the TCP server, and of client and server together.
\<close>

section \<open>Accounts\<close>

text \<open>Accounts: once an account is created, exactly the passwords with the same derived key
  authenticate it, under every spelling of its callsign that normalizes to it; a failed creation
  changes nothing; and authentication fails in one way only, so that a failure does not tell an
  unknown callsign from a wrong password.\<close>

theorem account_authentication:
  assumes "create_account kdf salt now callsign password db = (r, db')"
  shows "(case r of
       Inl _ \<Rightarrow> db' = db
     | Inr c \<Rightarrow> callsign_ok c \<and> accounts db c = None
         \<and> authenticate kdf callsign' password' db' =
           (if (case normalize_callsign callsign' (lit ''callsign'') of Inl _ \<Rightarrow> lit ''N0NONE'' | Inr n \<Rightarrow> n) = c
            then (case (password_bytes password, password_bytes password') of
                (Inr secret, Inr secret') \<Rightarrow> if kdf secret' salt 600000 = kdf secret salt 600000 then Inr c else Inl invalid_credentials
              | _ \<Rightarrow> Inl invalid_credentials)
            else authenticate kdf callsign' password' db))
     \<and> (case authenticate kdf callsign' password' db' of Inl e \<Rightarrow> e = invalid_credentials | Inr _ \<Rightarrow> True)"
proof -
  have one: "case authenticate kdf callsign' password' db' of Inl e \<Rightarrow> e = invalid_credentials | Inr _ \<Rightarrow> True"
    by (auto dest: authenticate_Inl split: sum.split)
  show ?thesis
  proof (cases r)
    case (Inl e)
    then show ?thesis using assms create_account_failed one by fastforce
  next
    case (Inr c)
    let ?n = "case normalize_callsign callsign' (lit ''callsign'') of Inl _ \<Rightarrow> lit ''N0NONE'' | Inr n \<Rightarrow> n"
    obtain secret where s: "normalize_callsign callsign (lit ''callsign'') = Inr c" "password_bytes password = Inr secret"
      "accounts db c = None" "0 \<le> now"
      using assms Inr by (auto simp: create_account_def with_connection_def bindS_def execute_def insert_account_def commit_def
          split: sum.splits if_splits)
    have db': "db' = db\<lparr>accounts := (accounts db)(c \<mapsto> \<lparr>ar_password_hash = representation kdf salt secret, ar_created_at = now\<rparr>)\<rparr>"
      using create_account_run [OF s, of kdf salt] assms by simp
    have "authenticate kdf callsign' password' db' =
        (if ?n = c
         then (case (password_bytes password, password_bytes password') of
             (Inr secret, Inr secret') \<Rightarrow> if kdf secret' salt 600000 = kdf secret salt 600000 then Inr c else Inl invalid_credentials
           | _ \<Rightarrow> Inl invalid_credentials)
         else authenticate kdf callsign' password' db)"
    proof (cases "password_bytes password'")
      case (Inl e)
      then show ?thesis using s(2) by (auto simp: authenticate_def dest: password_bytes_Inl)
    next
      case (Inr secret')
      then show ?thesis using s(2) unfolding authenticate_def Let_def db'
        by (simp add: stored_matches_representation)
    qed
    then show ?thesis using Inr normalize_callsign_ok [OF s(1)] s(3) one by simp
  qed
qed

theorem account_authentication_witness:
  "\<exists>r db'. create_account (\<lambda>p s n. p @ s) [7] 9 (PStr (lit ''a1a/p'')) (PStr (lit ''pw'')) empty_database = (r, db')
    \<and> (case r of
       Inl _ \<Rightarrow> db' = empty_database
     | Inr c \<Rightarrow> callsign_ok c \<and> accounts empty_database c = None
         \<and> authenticate (\<lambda>p s n. p @ s) (PStr (lit ''A1A'')) (PStr (lit ''pw'')) db' =
           (if (case normalize_callsign (PStr (lit ''A1A'')) (lit ''callsign'') of Inl _ \<Rightarrow> lit ''N0NONE'' | Inr n \<Rightarrow> n) = c
            then (case (password_bytes (PStr (lit ''pw'')), password_bytes (PStr (lit ''pw''))) of
                (Inr secret, Inr secret') \<Rightarrow> if secret' @ [7] = secret @ [7] then Inr c else Inl invalid_credentials
              | _ \<Rightarrow> Inl invalid_credentials)
            else authenticate (\<lambda>p s n. p @ s) (PStr (lit ''A1A'')) (PStr (lit ''pw'')) empty_database))
     \<and> (case authenticate (\<lambda>p s n. p @ s) (PStr (lit ''A1A'')) (PStr (lit ''pw'')) db' of
         Inl e \<Rightarrow> e = invalid_credentials | Inr _ \<Rightarrow> True)"
proof -
  obtain r db' where run: "create_account (\<lambda>p s n. p @ s) [7] 9 (PStr (lit ''a1a/p'')) (PStr (lit ''pw'')) empty_database = (r, db')"
    by fastforce
  from account_authentication [OF run, of "PStr (lit ''A1A'')" "PStr (lit ''pw'')"] run show ?thesis by blast
qed

section \<open>The TCP server\<close>

text \<open>C23. Network boundaries do not matter: from any state in which a connection waits for more,
  what the node becomes, with everything it stores and everything it writes to any connection, is
  the same however the bytes the connection receives are cut into pieces.\<close>

theorem tcp_pieces:
  assumes "tcp_advance env c node = None"
  shows "tcp_receive env c pieces node = tcp_pump env c (tcp_arrive c (concat pieces) node)
    \<and> tcp_advance env c (tcp_receive env c pieces node) = None"
proof -
  have "tcp_arrive c [] node = node"
    by (cases node) (auto simp: tcp_arrive_def set_connection_def fun_upd_idem split: option.split)
  then have "tcp_receive env c pieces node = tcp_pump env c (tcp_arrive c (concat pieces) node)"
    using tcp.pump_pieces [where a = "[]" and s = node and ps = pieces and env = env and c = c]
      tcp.pump_blocked [OF assms] by (simp add: tcp_receive_def)
  then show ?thesis by (simp add: tcp.pump_rest)
qed

text \<open>A server with one connection that has sent nothing.\<close>

definition sample_env :: tcp_env where
  "sample_env = \<lparr>te_kdf = (\<lambda>p s n. p @ s), te_monotonic = (\<lambda>_. 0), te_accepted_at = (\<lambda>_. PInt 9), te_uuid = (\<lambda>n. [n])\<rparr>"

definition sample_tcp :: tcp_node where
  "sample_tcp = tcp_accept 7 (new_tcp_server (sample_server empty_database) [] True False 0)"

lemma sample_tcp_state:
  "tn_connections sample_tcp 7 = Some \<lparr>cn_phase = Handshake, cn_buffer = [], cn_closing = False, cn_written = []\<rparr>"
  "tn_core sample_tcp = sample_server empty_database" "\<not> tn_allow_development_auth sample_tcp"
  by (simp_all add: sample_tcp_def tcp_accept_def new_tcp_server_def add_message_listener_def sample_server_def)

theorem tcp_pieces_witness:
  "tcp_receive sample_env 7 [[65, 85], [], [84, 72, 32, 10]] sample_tcp
      = tcp_pump sample_env 7 (tcp_arrive 7 (concat [[65, 85], [], [84, 72, 32, 10]]) sample_tcp)
    \<and> tcp_advance sample_env 7 (tcp_receive sample_env 7 [[65, 85], [], [84, 72, 32, 10]] sample_tcp) = None"
  by (rule tcp_pieces) (simp add: tcp_advance_def sample_tcp_state read_line_def)

section \<open>What can happen to the server\<close>

text \<open>
  Connections come and go, bytes arrive, handlers run, and the core changes under other transports,
  which may add accounts and remove none, and whose new messages are pushed.
\<close>

inductive tcp_step :: "tcp_env \<Rightarrow> tcp_node \<Rightarrow> tcp_node \<Rightarrow> bool" for env where
  accepted: "tn_connections node c = None \<Longrightarrow> tcp_step env node (tcp_accept c node)"
| arrived: "tcp_step env node (tcp_arrive c bs node)"
| advanced: "ready (tn_core node) t \<Longrightarrow> te_accepted_at env (tn_ticks node) = PInt t \<Longrightarrow> tcp_advance env c node = Some node'
    \<Longrightarrow> tcp_step env node node'"
| reset: "tcp_step env node (tcp_reset c node)"
| ended: "tcp_step env node (tcp_eof c node)"
| closed: "tcp_step env node (tcp_close cs node)"
| changed: "dom (accounts (sv_db (tn_core node))) \<subseteq> dom (accounts (sv_db sv)) \<Longrightarrow> tcp_step env node (fold (tcp_listen env) events (node\<lparr>tn_core := sv\<rparr>))"

inductive_cases tcp_stepE: "tcp_step env node node'"

inductive tcp_reachable :: "tcp_env \<Rightarrow> tcp_node \<Rightarrow> bool" for env where
  initial: "tcp_reachable env (new_tcp_server core registry account_store development l)"
| later: "tcp_reachable env node \<Longrightarrow> tcp_step env node node' \<Longrightarrow> tcp_reachable env node'"

subsection \<open>What a step leaves alone\<close>

definition tcp_flags :: "tcp_node \<Rightarrow> bool \<times> bool" where
  "tcp_flags node = (tn_allow_development_auth node, tn_account_store node)"

lemma core_writes [simp]: "tn_core (tcp_write c ds node) = tn_core node" "tn_core (set_connection c cn node) = tn_core node"
  "tn_core (tcp_finish c node) = tn_core node" "tcp_flags (tcp_write c ds node) = tcp_flags node"
  "tcp_flags (set_connection c cn node) = tcp_flags node" "tcp_flags (tcp_finish c node) = tcp_flags node"
  by (simp_all add: tcp_write_def set_connection_def tcp_finish_def Let_def tcp_flags_def split: option.split phase.split)

lemma fold_view: "(\<And>x n. g (f x n) = g n) \<Longrightarrow> g (fold f xs node) = g node"
  by (induction xs arbitrary: node) simp_all

lemma core_push [simp]: "tn_core (tcp_push obj sid node) = tn_core node" "tcp_flags (tcp_push obj sid node) = tcp_flags node"
  by (simp_all add: tcp_push_def split: delivery_outcome.split bool.split option.split sum.split)

lemma flags_updates [simp]: "tcp_flags (node\<lparr>tn_sessions := r\<rparr>) = tcp_flags node" "tcp_flags (node\<lparr>tn_core := sv\<rparr>) = tcp_flags node"
  "tcp_flags (node\<lparr>tn_ticks := k\<rparr>) = tcp_flags node" "tcp_flags (node\<lparr>tn_started := b\<rparr>) = tcp_flags node"
  "tcp_flags (node\<lparr>tn_owner := w\<rparr>) = tcp_flags node"
  by (simp_all add: tcp_flags_def)

lemma core_listen [simp]: "tn_core (tcp_listen env ev node) = tn_core node" "tcp_flags (tcp_listen env ev node) = tcp_flags node"
  by (simp_all add: tcp_listen_def fold_view [where g = tn_core] fold_view [where g = tcp_flags] split: event.split prod.split)

lemma core_listens [simp]: "tn_core (fold (tcp_listen env) evs node) = tn_core node"
  "tcp_flags (fold (tcp_listen env) evs node) = tcp_flags node"
  by (simp_all add: fold_view [where g = tn_core] fold_view [where g = tcp_flags])

lemma core_handshake: "tn_core (tcp_handshake env c cn line remaining node) = tn_core node"
  "tcp_flags (tcp_handshake env c cn line remaining node) = tcp_flags node"
  by (simp_all add: tcp_handshake_def Let_def split: option.split sum.split prod.split)

lemma serve_core:
  assumes "handle_frame (PStr (se_callsign s)) (PBytes f) (te_accepted_at env (tn_ticks node)) (tn_core node) = (r, ev, core')"
  shows "tn_core (tcp_serve env c cn s f remaining node) = core'" "tcp_flags (tcp_serve env c cn s f remaining node) = tcp_flags node"
  using assms by (auto simp: tcp_serve_def Let_def set_connection_def tcp_flags_def [of node] split: sum.split)
    (auto simp: tcp_flags_def)

lemma handle_frame_accounts:
  assumes "ready sv t" "handle_frame (PStr who) (PBytes d) (PInt t) sv = (r, ev, sv')"
  shows "accounts (sv_db sv') = accounts (sv_db sv)"
proof (cases "decode_frame (PBytes d)")
  case (Inl e)
  then show ?thesis using assms(2) by (auto simp: handle_frame_def split: if_splits option.splits)
next
  case (Inr q)
  then obtain r' where d: "dispatch who q (PInt t) sv = (r', ev, sv')"
    using assms(2) by (auto simp: handle_frame_def split: prod.splits sum.splits)
  show ?thesis
  proof (cases q)
    case (SendMessage c r b)
    then have "valid_object (SendMessage c r b)" using decoded_valid [OF Inr] by auto
    from send_effect_run [OF assms(1) this, of who] d SendMessage show ?thesis
      by (auto simp: dispatch_def send_effect_def accept_def split: if_splits)
  qed (use d in \<open>simp_all add: dispatch_def reading_def\<close>)
qed

section \<open>Who is served\<close>

lemma session_callsign: "session_create callsign sid now reg = Inr (s, reg') \<Longrightarrow> se_callsign s = callsign"
  by (auto simp: session_create_def new_session_def bindE_eq_Inr)

text \<open>Who a connection serves after a step of the handler of \<open>c\<close>.\<close>

lemma advance_serving:
  assumes "tcp_advance env c node = Some node'" "waiting node' d = Some (Serving s, buffer')"
  shows "(\<exists>buffer. waiting node d = Some (Serving s, buffer)) \<or> (\<exists>line. authenticate_line env node line = Some (se_callsign s))"
proof -
  obtain cn where cn: "tn_connections node c = Some cn" using assms(1) by (auto simp: tcp_advance_def split: option.splits)
  have w: "waiting node c = Some (cn_phase cn, cn_buffer cn)" by (simp add: waiting_def cn)
  have set: "waiting (set_connection c cn' n) = (waiting n)(c \<mapsto> (cn_phase cn', cn_buffer cn'))" for cn' n
    by (auto simp: waiting_def set_connection_def)
  have tick: "waiting (n\<lparr>tn_ticks := k\<rparr>) = waiting n" "waiting (n\<lparr>tn_ticks := k, tn_sessions := r\<rparr>) = waiting n"
    "waiting (n\<lparr>tn_ticks := k, tn_sessions := r, tn_owner := ow\<rparr>) = waiting n" for n k r ow
    by (auto simp: waiting_def)
  show ?thesis
  proof (cases "cn_phase cn")
    case Handshake
    then obtain line remaining where n: "node' = tcp_handshake env c cn line remaining node"
      using assms(1) cn by (auto simp: tcp_advance_def split: option.splits)
    show ?thesis
    proof (cases "authenticate_line env node line")
      case None
      then have "waiting node' = (waiting node)(c \<mapsto> (Closed, []))"
        by (simp add: n tcp_handshake_def Let_def authenticate_ticks waiting_finish set tick)
      then show ?thesis using assms(2) by (auto split: if_splits)
    next
      case (Some callsign)
      show ?thesis
      proof (cases "session_create callsign (te_uuid env (tn_ticks node)) (te_monotonic env (tn_ticks node)) (tn_sessions node)")
        case (Inl e)
        then have "waiting node' = (waiting node)(c \<mapsto> (Closed, []))"
          using Some by (simp add: n tcp_handshake_def Let_def authenticate_ticks waiting_finish set tick)
        then show ?thesis using assms(2) by (auto split: if_splits)
      next
        case (Inr sr)
        then have "waiting node' = (waiting node)(c \<mapsto> (Serving (fst sr), remaining))" "se_callsign (fst sr) = callsign"
          using Some session_callsign [of callsign _ _ _ "fst sr" "snd sr"]
          by (auto simp: n tcp_handshake_def Let_def authenticate_ticks set tick split: prod.split)
        then show ?thesis using assms(2) Some by (auto split: if_splits)
      qed
    qed
  next
    case (Serving s0)
    then consider "node' = tcp_finish c node" | f remaining where "node' = tcp_serve env c cn s0 f remaining node"
      using assms(1) cn by (auto simp: tcp_advance_def Let_def split: if_splits)
    then show ?thesis
    proof cases
      case 1
      then show ?thesis using assms(2) by (auto simp: waiting_finish split: if_splits)
    next
      case (2 f remaining)
      have "waiting node' d = (if d = c then Some (Serving s0, remaining) else waiting node d)
        \<or> waiting node' = (waiting node)(c \<mapsto> (Closed, []))"
        unfolding 2 using Serving by (auto simp: tcp_serve_def Let_def waiting_finish set tick split: sum.split prod.split)
      then show ?thesis using assms(2) w Serving by (cases "d = c") (auto, metis)
    qed
  qed (use assms(1) cn in \<open>simp add: tcp_advance_def\<close>)
qed

lemma authenticate_line_account:
  assumes "authenticate_line env node line = Some c" "\<not> tn_allow_development_auth node"
  shows "accounts (sv_db (tn_core node)) c \<noteq> None"
  using assms by (auto simp: authenticate_line_def Let_def authenticate_Inr split: if_splits list.splits option.splits sum.splits)

lemma advance_core:
  assumes "tcp_advance env c node = Some node'" "ready (tn_core node) t" "te_accepted_at env (tn_ticks node) = PInt t"
  shows "tcp_flags node' = tcp_flags node \<and> accounts (sv_db (tn_core node')) = accounts (sv_db (tn_core node))
    \<and> (messages (sv_db (tn_core node')) = messages (sv_db (tn_core node)) \<or>
      (\<exists>cn s row. tn_connections node c = Some cn \<and> cn_phase cn = Serving s
        \<and> messages (sv_db (tn_core node')) = messages (sv_db (tn_core node)) @ [row] \<and> mr_author row = SText (se_callsign s)))"
proof -
  obtain cn where cn: "tn_connections node c = Some cn" using assms(1) by (auto simp: tcp_advance_def split: option.splits)
  from assms(1) cn consider "node' = tcp_finish c node" | line remaining where "node' = tcp_handshake env c cn line remaining node"
    | s f remaining where "cn_phase cn = Serving s" "node' = tcp_serve env c cn s f remaining node"
    by (auto simp: tcp_advance_def Let_def split: phase.splits option.splits if_splits)
  then show ?thesis
  proof cases
    case (3 s f remaining)
    from handle_frame_effect [OF assms(2), of "se_callsign s" f] obtain fs ev core'
      where h: "handle_frame (PStr (se_callsign s)) (PBytes f) (PInt t) (tn_core node) = (Inr fs, ev, core')"
        "messages (sv_db core') = messages (sv_db (tn_core node)) \<or> (\<exists>c r b. messages (sv_db core')
          = messages (sv_db (tn_core node)) @ [accepted_row c (se_callsign s) r (body_bytes b) t (sv_db (tn_core node))])"
      by blast
    have author: "mr_author (accepted_row c w r bs t db) = SText w" for c w r bs t db by (simp add: accepted_row_def)
    show ?thesis
      using h cn 3 serve_core [of s f env node, unfolded assms(3), OF h(1)] handle_frame_accounts [OF assms(2) h(1)] author
      by fastforce
  qed (simp_all add: core_handshake)
qed

definition access_ok :: "tcp_node \<Rightarrow> bool" where
  "access_ok node \<longleftrightarrow> (\<forall>c s buffer. waiting node c = Some (Serving s, buffer)
     \<longrightarrow> se_callsign s \<in> dom (accounts (sv_db (tn_core node))))"

lemma access_frame:
  assumes "access_ok node" "dom (accounts (sv_db (tn_core node))) \<subseteq> dom (accounts (sv_db (tn_core node')))"
    "\<And>c s buffer. waiting node' c = Some (Serving s, buffer) \<Longrightarrow> \<exists>b. waiting node c = Some (Serving s, b)"
  shows "access_ok node'"
  using assms unfolding access_ok_def by blast

lemma finish_fold: "tn_core (fold tcp_finish cs node) = tn_core node" "tcp_flags (fold tcp_finish cs node) = tcp_flags node"
  "waiting (fold tcp_finish cs node) c = Some (Serving s, b) \<Longrightarrow> waiting node c = Some (Serving s, b)"
proof (induction cs arbitrary: node)
  case (Cons d cs)
  {
    case 3
    then have "waiting (tcp_finish d node) c = Some (Serving s, b)" using Cons(3) [of "tcp_finish d node"] by simp
    then show ?case by (simp add: waiting_finish split: if_splits)
  }
qed (simp_all add: Cons)

lemma tcp_step_flags: "tcp_step env node node' \<Longrightarrow> tcp_flags node' = tcp_flags node"
proof (erule tcp_stepE)
  fix c t assume "ready (tn_core node) t" "te_accepted_at env (tn_ticks node) = PInt t" "tcp_advance env c node = Some node'"
  then show ?thesis using advance_core by blast
qed (simp_all add: tcp_accept_def tcp_reset_def tcp_eof_def tcp_close_def Let_def finish_fold tcp_arrive_def set_connection_def
    tcp_flags_def [of node] split: option.split phase.split, simp_all add: tcp_flags_def)

lemma tcp_step_ok:
  assumes "tcp_step env node node'" "access_ok node" "\<not> tn_allow_development_auth node"
  shows "access_ok node'"
  using assms(1)
proof (rule tcp_stepE)
  fix c assume n: "node' = tcp_accept c node"
  show ?thesis unfolding n by (auto intro!: access_frame [OF assms(2)] simp: tcp_accept_def waiting_def split: if_splits)
next
  fix c bs assume n: "node' = tcp_arrive c bs node"
  have "\<exists>b. waiting node d = Some (Serving s, b)" if "waiting node' d = Some (Serving s, buffer)" for d s buffer
    using that by (auto simp: n waiting_def tcp_arrive_def set_connection_def split: option.splits if_splits)
  then show ?thesis by (auto intro!: access_frame [OF assms(2)] simp: n)
next
  fix c t assume r: "ready (tn_core node) t" "te_accepted_at env (tn_ticks node) = PInt t" "tcp_advance env c node = Some node'"
  note core = advance_core [OF r(3,1,2)]
  have "se_callsign s \<in> dom (accounts (sv_db (tn_core node')))" if "waiting node' d = Some (Serving s, buffer)" for d s buffer
    using advance_serving [OF r(3) that] assms(2) authenticate_line_account [OF _ assms(3)] core
    by (auto simp: access_ok_def)
  then show ?thesis using core by (simp add: access_ok_def)
next
  fix c assume n: "node' = tcp_reset c node"
  have "waiting node' = waiting node"
    by (rule ext) (auto simp: n waiting_def tcp_reset_def set_connection_def split: option.split)
  moreover have "tn_core node' = tn_core node" by (simp add: n tcp_reset_def split: option.split)
  ultimately show ?thesis by (intro access_frame [OF assms(2)]) auto
next
  fix c assume n: "node' = tcp_eof c node"
  have "waiting node' = waiting node \<or> waiting node' = (waiting node)(c \<mapsto> (Closed, []))"
    by (auto simp: n tcp_eof_def waiting_finish split: option.split phase.split)
  moreover have "tn_core node' = tn_core node" by (simp add: n tcp_eof_def split: option.split phase.split)
  ultimately show ?thesis by (intro access_frame [OF assms(2)]) (auto split: if_splits)
next
  fix cs assume n: "node' = tcp_close cs node"
  have "waiting node' = waiting (fold tcp_finish cs (node\<lparr>tn_started := False\<rparr>))"
    by (simp add: n tcp_close_def Let_def)
  moreover have "waiting (node\<lparr>tn_started := False\<rparr>) = waiting node" by (rule waiting_frame) simp
  ultimately have "waiting node c = Some (Serving s, b)" if "waiting node' c = Some (Serving s, b)" for c s b
    using finish_fold(3) [of cs "node\<lparr>tn_started := False\<rparr>"] that by simp
  moreover have "sv_db (tn_core node') = sv_db (tn_core node)"
    by (simp add: n tcp_close_def Let_def finish_fold remove_message_listener_def)
  ultimately show ?thesis by (intro access_frame [OF assms(2)]) auto
next
  fix sv events assume "dom (accounts (sv_db (tn_core node))) \<subseteq> dom (accounts (sv_db sv))"
    "node' = fold (tcp_listen env) events (node\<lparr>tn_core := sv\<rparr>)"
  then show ?thesis by (auto intro!: access_frame [OF assms(2)])
qed

lemma tcp_reachable_ok: "tcp_reachable env node \<Longrightarrow> \<not> tn_allow_development_auth node \<Longrightarrow> access_ok node"
proof (induction rule: tcp_reachable.induct)
  case (initial core registry account_store development l)
  then show ?case by (simp add: access_ok_def waiting_def new_tcp_server_def)
next
  case (later node node')
  then show ?case using tcp_step_flags [OF later.hyps(2)] tcp_step_ok [OF later.hyps(2)] by (simp add: tcp_flags_def)
qed

text \<open>C24. Only account holders are served: in every state of a server without development
  authentication, whatever connections, bytes, losses and other transports did, every connection that
  is served belongs to a callsign with an account; and a step of a connection's handler stores
  nothing, or one message, whose author is the callsign that connection authenticated.\<close>

theorem tcp_authority:
  assumes "tcp_reachable env node" "\<not> tn_allow_development_auth node"
  shows "(\<forall>c cn s. tn_connections node c = Some cn \<longrightarrow> cn_phase cn = Serving s
      \<longrightarrow> accounts (sv_db (tn_core node)) (se_callsign s) \<noteq> None)
    \<and> (\<forall>c t node'. tcp_advance env c node = Some node' \<longrightarrow> ready (tn_core node) t \<longrightarrow> te_accepted_at env (tn_ticks node) = PInt t
      \<longrightarrow> messages (sv_db (tn_core node')) = messages (sv_db (tn_core node))
        \<or> (\<exists>cn s row. tn_connections node c = Some cn \<and> cn_phase cn = Serving s
            \<and> messages (sv_db (tn_core node')) = messages (sv_db (tn_core node)) @ [row]
            \<and> mr_author row = SText (se_callsign s)))"
proof
  show "\<forall>c cn s. tn_connections node c = Some cn \<longrightarrow> cn_phase cn = Serving s
      \<longrightarrow> accounts (sv_db (tn_core node)) (se_callsign s) \<noteq> None"
    using tcp_reachable_ok [OF assms] by (auto simp: access_ok_def waiting_def)
qed (blast dest: advance_core)

text \<open>A1A has an account and sends its AUTH line and a message to B2B.\<close>

definition account_database :: database where
  "account_database = empty_database\<lparr>accounts := [lit ''A1A'' \<mapsto>
     \<lparr>ar_password_hash = representation (\<lambda>p s n. p @ s) [7] [112, 119], ar_created_at = 9\<rparr>]\<rparr>"

definition auth_line :: bytes where
  "auth_line = map byte_of (lit ''AUTH A1A pw'') @ [10]"

lemma pw_bytes: "utf8_encode (lit ''pw'') = Some [112, 119]"
proof -
  have "ascii (lit ''pw'')" by (simp add: ascii_def lit_def)
  then have "utf8_encode (lit ''pw'') = Some (map byte_of (lit ''pw''))" by (rule utf8_encode_ascii)
  then show ?thesis by (simp add: lit_def byte_of_def)
qed

lemma account_created: "create_account (\<lambda>p s n. p @ s) [7] 9 (PStr (lit ''A1A'')) (PStr (lit ''pw'')) empty_database
    = (Inr (lit ''A1A''), account_database)"
  unfolding account_database_def
  by (subst create_account_run [OF normalize_callsign_id [OF sample_request(2)], of _ "[112, 119]"])
    (simp_all add: empty_database_def password_bytes_def pw_bytes)

lemma account_ready: "ready (sample_server account_database) 9"
proof -
  have "stores_ok account_database"
    by (simp add: account_database_def stores_ok_def db_ok_def messages_ok_def references_ok_def bulletins_ok_def empty_database_def
        mailbox_def mailbox_last_def message_count_def bulletin_count_def)
  then show ?thesis by (simp add: ready_def transportable_def sample_server_def account_database_def empty_database_def message_count_def)
qed

lemma account_authenticated:
  assumes "tn_core node = sample_server account_database" "tn_account_store node"
  shows "authenticate_line sample_env node auth_line = Some (lit ''A1A'')"
proof -
  have "authenticate (\<lambda>p s n. p @ s) (PStr (lit ''A1A'')) (PStr (lit ''pw'')) account_database = Inr (lit ''A1A'')"
    by (simp add: authenticate_Inr account_database_def normalize_callsign_id [OF sample_request(2)] password_bytes_def
        stored_matches_representation pw_bytes)
  moreover have "removesuffix [13] (removesuffix [10] auth_line) = map byte_of (lit ''AUTH A1A pw'')"
    "last auth_line = 10" "length auth_line \<le> 256" "auth_line \<noteq> []"
    by (simp_all add: auth_line_def removesuffix_def lit_def byte_of_def)
  moreover have "take (length AUTH_PREFIX) (map byte_of (lit ''AUTH A1A pw'')) = AUTH_PREFIX"
    "split_once 32 (drop (length AUTH_PREFIX) (map byte_of (lit ''AUTH A1A pw''))) = [map byte_of (lit ''A1A''), map byte_of (lit ''pw'')]"
    by (simp_all add: AUTH_PREFIX_def lit_def byte_of_def split_once_def)
  moreover have "ascii_decode (map byte_of (lit ''A1A'')) = Some (lit ''A1A'')" "utf8_decode (map byte_of (lit ''pw'')) = Some (lit ''pw'')"
    using utf8_decode_encode [OF pw_bytes] by (simp_all add: ascii_decode_def lit_def byte_of_def of_byte_def)
  ultimately show ?thesis using assms by (simp add: authenticate_line_def sample_env_def sample_server_def Let_def)
qed

definition account_node :: "bytes \<Rightarrow> tcp_node" where
  "account_node d = tcp_arrive 7 (auth_line @ d) (tcp_accept 7 (new_tcp_server (sample_server account_database) [] True False 0))"

lemma account_node:
  "tn_connections (account_node d) 7 = Some \<lparr>cn_phase = Handshake, cn_buffer = auth_line @ d, cn_closing = False, cn_written = []\<rparr>"
  "tn_core (account_node d) = sample_server account_database" "tn_account_store (account_node d)"
  "\<not> tn_allow_development_auth (account_node d)" "tn_ticks (account_node d) = 0" "tn_sessions (account_node d) = []"
  by (simp_all add: account_node_def tcp_accept_def tcp_arrive_def new_tcp_server_def add_message_listener_def sample_server_def
      set_connection_def)

lemma account_reachable: "tcp_reachable sample_env (account_node d)"
proof -
  have "tcp_reachable sample_env (tcp_accept 7 (new_tcp_server (sample_server account_database) [] True False 0))"
    by (rule later [OF initial accepted]) (simp add: new_tcp_server_def)
  then show ?thesis unfolding account_node_def by (rule later) (rule arrived)
qed

lemma account_served:
  "\<exists>node s. tcp_reachable sample_env node \<and> \<not> tn_allow_development_auth node \<and> serves_with node 7 (lit ''A1A'') d
    \<and> tn_core node = sample_server account_database \<and> tn_sessions node = [s] \<and> se_callsign s = lit ''A1A''"
proof -
  let ?n = "account_node d" and ?line = "map byte_of (lit ''AUTH A1A pw'')"
  have l: "10 \<notin> set ?line" "length ?line \<le> 256" by (simp_all add: lit_def byte_of_def)
  have a: "authenticate_line sample_env ?n (?line @ [10]) = Some (lit ''A1A'')"
    using account_authenticated [OF account_node(2,3)] by (simp add: auth_line_def)
  from handshake_accepted [OF account_node(1) _ _ _ l a sample_request(2), of d] obtain node s where n:
    "tcp_advance sample_env 7 ?n = Some node" "serves_with node 7 (lit ''A1A'') d" "tn_core node = sample_server account_database"
    "se_callsign s = lit ''A1A''" "tn_sessions node = [s]"
    by (auto simp: account_node auth_line_def put_session_def)
  have "tcp_step sample_env ?n node"
    by (rule advanced [OF _ _ n(1), of 9]) (simp_all add: account_node account_ready sample_env_def)
  then show ?thesis using n account_reachable [of d] later tcp_step_flags [of sample_env ?n node]
    by (intro exI [of _ node] exI [of _ s]) (auto simp: tcp_flags_def account_node(4) intro: later)
qed

theorem tcp_authority_witness:
  "\<exists>node node' cn s row. tcp_advance sample_env 7 node = Some node' \<and> tn_connections node 7 = Some cn \<and> cn_phase cn = Serving s
    \<and> accounts (sv_db (tn_core node)) (se_callsign s) \<noteq> None
    \<and> messages (sv_db (tn_core node)) = [] \<and> messages (sv_db (tn_core node')) = [row] \<and> mr_author row = SText (se_callsign s)"
proof -
  obtain d where d: "encode_frame (SendMessage 7 (lit ''B2B'') (lit ''hi'')) False = Inr d"
    using sample_request(1) encode_frame_ok [of "SendMessage 7 (lit ''B2B'') (lit ''hi'')" False] by (auto simp: is_ok_iff)
  obtain node where n: "tcp_reachable sample_env node" "\<not> tn_allow_development_auth node" "serves_with node 7 (lit ''A1A'') d"
    "tn_core node = sample_server account_database" using account_served by blast
  have at: "te_accepted_at sample_env (tn_ticks node) = PInt 9" "ready (tn_core node) 9"
    using account_ready by (simp_all add: sample_env_def n(4))
  have empty: "messages account_database = []" by (simp add: account_database_def empty_database_def)
  have dec: "decode_frame (PBytes d) = Inr (SendMessage 7 (lit ''B2B'') (lit ''hi''))"
    using decode_encode_frame [OF d] by (simp add: decode_frame_iff)
  obtain fs rs ev sv' where h: "handle_frame (PStr (lit ''A1A'')) (PBytes d) (PInt 9) (sample_server account_database) = (Inr fs, ev, sv')"
    using handle_frame_effect [OF account_ready, of "lit ''A1A''" d] by blast
  have "mailbox_last account_database (lit ''B2B'') = 0"
    by (simp add: mailbox_last_def account_database_def empty_database_def)
  then have stored: "messages (sv_db sv') \<noteq> []"
    using handle_frame_messages [OF account_ready h] dec sample_request(2) by (simp add: sample_server_def)
  from advance_frame [OF n(3) encoded_whole [OF d], where env = sample_env, unfolded at(1) n(4), OF h] obtain node' where
    a: "tcp_advance sample_env 7 node = Some node'" "tn_core node' = sv'" by blast
  then have "messages (sv_db (tn_core node')) \<noteq> messages (sv_db (tn_core node))"
    using stored empty by (simp add: n(4) sample_server_def)
  with tcp_authority [OF n(1,2)] a(1) at obtain cn s row where
    "tn_connections node 7 = Some cn" "cn_phase cn = Serving s" "accounts (sv_db (tn_core node)) (se_callsign s) \<noteq> None"
    "messages (sv_db (tn_core node')) = messages (sv_db (tn_core node)) @ [row]" "mr_author row = SText (se_callsign s)" by blast
  moreover have "messages (sv_db (tn_core node)) = []" using empty by (simp add: n(4) sample_server_def)
  ultimately show ?thesis using a(1)
    by (intro exI [of _ node] exI [of _ node'] exI [of _ cn] exI [of _ s] exI [of _ row]) simp
qed

section \<open>Client and server\<close>

text \<open>C25. A remote call is a local call: a request the client makes over an authenticated
  connection, carried to the server in any pieces while other clients and transports go on, is handled
  by the core as that user, once, as the core is when the last piece has come. Whatever messages
  are pushed to the connection before, among and after the answer, by this request or by others, and
  whatever the pieces in which the server's bytes come back, the request returns exactly the core's
  responses, or raises the error among them.\<close>

theorem remote_call:
  assumes "serves node c who" "run_ok env c run node"
    "authenticated cl" "cl_reader cl" "cl_failure cl = None" "cl_received cl = []"
    "client_operation q = Some op" "encode_frame q False = Inr d" "run_bytes run = d"
  shows "\<exists>core t rs fs ev sv' new. handled_at env c who d run node core t fs
    \<and> dispatch who q (PInt t) core = (Inr rs, ev, sv') \<and> mapE (\<lambda>r. encode_frame r False) rs = Inr fs
    \<and> serves (run_to env c run node) c who \<and> tcp_output (run_to env c run node) c = tcp_output node c @ new
    \<and> (\<forall>down. concat down = new \<longrightarrow> fst (client_request q None down cl)
        = (case find error_response rs of Some error \<Rightarrow> Inl (ProtocolResponseError error) | None \<Rightarrow> Inr rs))"
  by (rule remote_call_run [OF assms])

text \<open>A connection that serves A1A, and A1A's client. Between the two halves of A1A's request another
  transport stores a message for A1A, which is pushed.\<close>

definition sample_serving :: tcp_node where
  "sample_serving = (set_connection 7 \<lparr>cn_phase = Serving \<lparr>se_callsign = lit ''A1A'', se_session_id = [0], se_active = True,
     se_last_activity = 0\<rparr>, cn_buffer = [], cn_closing = False, cn_written = [HANDSHAKE_OK]\<rparr> sample_tcp)
     \<lparr>tn_sessions := [\<lparr>se_callsign = lit ''A1A'', se_session_id = [0], se_active = True, se_last_activity = 0\<rparr>],
      tn_owner := [[0] \<mapsto> 7]\<rparr>"

definition sample_client :: client where
  "sample_client = (new_client (lit ''127.0.0.1'') 8023 10 False False)\<lparr>cl_socket := True, cl_callsign := Some (lit ''A1A''),
     cl_reader := True\<rparr>"

definition sample_pushed :: protocol_object where
  "sample_pushed = Message 1 1 7 (lit ''B2B'') (lit ''A1A'') (lit ''hi'')"

definition sample_busy :: "tcp_node \<Rightarrow> tcp_node" where
  "sample_busy node = fold (tcp_listen sample_env) [MessageEvent 0 sample_pushed]
     (node\<lparr>tn_core := sample_server empty_database, tn_sessions := tn_sessions sample_serving\<rparr>)"

lemma sample_serving: "serves sample_serving 7 (lit ''A1A'')" "tn_core sample_serving = sample_server empty_database"
  by (simp_all add: serves_def serves_with_def sample_serving_def set_connection_def sample_tcp_state)

lemma sample_client: "authenticated sample_client" "cl_reader sample_client" "cl_failure sample_client = None"
  "cl_received sample_client = []"
  by (simp_all add: authenticated_def sample_client_def new_client_def)

lemma sample_busy_pushes:
  assumes "tn_owner node = tn_owner sample_serving" "tn_listener node = 0" "tn_connections node 7 = Some cn" "\<not> cn_closing cn"
  shows "\<exists>f. encode_frame sample_pushed True = Inr f \<and> tn_connections (sample_busy node) 7 = Some (cn\<lparr>cn_written := cn_written cn @ [f]\<rparr>)"
proof -
  have "valid_object sample_pushed" using sample_request by (simp add: sample_pushed_def)
  then obtain f where f: "encode_frame sample_pushed True = Inr f" using encode_frame_ok [of sample_pushed True]
    by (auto simp: is_ok_iff sample_pushed_def may_be_unsolicited_def)
  have o: "tn_owner node [0] = Some 7" by (simp add: assms(1) sample_serving_def)
  have "m_recipient sample_pushed = lit ''A1A''" by (simp add: sample_pushed_def)
  then show ?thesis using f o assms(2-4)
    by (simp add: sample_busy_def tcp_listen_def deliver_message_def active_for_def sample_serving_def tcp_deliver_def
        tcp_push_def tcp_write_def set_connection_def put_bytes_def)
qed

text \<open>The run: the first half of the frame, the push, the second half.\<close>

definition sample_run :: "bytes \<Rightarrow> run_step list" where
  "sample_run d = [Piece (take 2 d), Meanwhile (sample_busy (tcp_arrive 7 (take 2 d) sample_serving)), Piece (drop 2 d)]"

lemma sample_run:
  assumes w: "whole d"
  shows "run_ok sample_env 7 (sample_run d) sample_serving" "run_bytes (sample_run d) = d"
    "\<exists>f more. encode_frame sample_pushed True = Inr f
      \<and> tcp_output (run_to sample_env 7 (sample_run d) sample_serving) 7 = tcp_output sample_serving 7 @ f @ more"
    "handled_at sample_env 7 (lit ''A1A'') d (sample_run d) sample_serving core t fs \<Longrightarrow> core = sample_server empty_database \<and> t = 9"
proof -
  let ?n0 = "tcp_arrive 7 (take 2 d) sample_serving" and ?who = "lit ''A1A''"
  let ?n1 = "tcp_arrive 7 (drop 2 d) (sample_busy ?n0)"
  have l: "4 \<le> length d" using w by (auto simp: whole_def)
  have s0: "serves_with ?n0 7 ?who (take 2 d)"
    using serves_arrive(1) [OF sample_serving(1) [unfolded serves_def], of "take 2 d"] by simp
  then obtain cn where cn: "tn_connections ?n0 7 = Some cn" "\<not> cn_closing cn" by (auto simp: serves_with_def)
  have "tn_owner ?n0 = tn_owner sample_serving" "tn_listener ?n0 = 0"
    by (simp_all add: sample_serving_def sample_tcp_def tcp_accept_def new_tcp_server_def set_connection_def)
  from sample_busy_pushes [OF this cn] obtain f where f: "encode_frame sample_pushed True = Inr f"
    "tn_connections (sample_busy ?n0) 7 = Some (cn\<lparr>cn_written := cn_written cn @ [f]\<rparr>)" by blast
  have s1: "serves_with (sample_busy ?n0) 7 ?who (take 2 d)" using s0 cn f(2) by (auto simp: serves_with_def)
  have o1: "tcp_output (sample_busy ?n0) 7 = tcp_output sample_serving 7 @ f"
    using f(2) cn serves_arrive(2) [of 7 "take 2 d" sample_serving] by (simp add: tcp_output_def)
  have s2: "serves_with ?n1 7 ?who d" using serves_arrive(1) [OF s1, of "drop 2 d"] by simp
  have core: "tn_core (sample_busy ?n0) = sample_server empty_database" by (simp add: sample_busy_def listen_core)
  have at: "te_accepted_at sample_env n = PInt 9" for n by (simp add: sample_env_def)
  obtain gs rs ev sv' where h: "handle_frame (PStr ?who) (PBytes d) (PInt 9) (sample_server empty_database) = (Inr gs, ev, sv')"
    using handle_frame_effect [OF sample_ready(1), of ?who d] by blast
  obtain ps where o2: "tcp_output (tcp_pump sample_env 7 ?n1) 7 = tcp_output ?n1 7 @ concat ps @ concat gs"
    using frame_handled [OF s2 w, of sample_env gs ev sv'] h by (auto simp: core at)
  have idle: "tcp_pump sample_env 7 ?n0 = ?n0"
    by (rule tcp.pump_blocked [OF serves_partial [OF s0, of "drop 2 d"]]) (use w l in simp_all)
  have "other_step sample_env 7 ?n0 (sample_busy ?n0)" unfolding sample_busy_def by (rule other_changed)
  then show "run_ok sample_env 7 (sample_run d) sample_serving"
    using sample_ready(1) by (auto simp: sample_run_def idle core at sample_serving(2))
  show "run_bytes (sample_run d) = d" by (simp add: sample_run_def)
  show "\<exists>f more. encode_frame sample_pushed True = Inr f
      \<and> tcp_output (run_to sample_env 7 (sample_run d) sample_serving) 7 = tcp_output sample_serving 7 @ f @ more"
    using f(1) o1 o2 by (auto simp: sample_run_def idle serves_arrive(2))
  assume "handled_at sample_env 7 ?who d (sample_run d) sample_serving core t fs"
  then obtain before p after where r: "sample_run d = before @ Piece p # after" "run_bytes before @ p = d"
    "core = tn_core (run_to sample_env 7 before sample_serving)" "t = 9" by (auto simp: handled_at_def at)
  have "p = take 2 d \<and> before = [] \<or> before = [Piece (take 2 d), Meanwhile (sample_busy ?n0)]"
    using r(1) by (cases before; cases "tl before"; cases "tl (tl before)") (auto simp: sample_run_def)
  moreover have "take 2 d \<noteq> d"
  proof
    assume "take 2 d = d"
    then have "length (take 2 d) = length d" by simp
    then show False using l by simp
  qed
  ultimately have "before = [Piece (take 2 d), Meanwhile (sample_busy ?n0)]" using r(2) by (metis append_Nil run_bytes.simps(1))
  then show "core = sample_server empty_database \<and> t = 9" using r(3,4) core by simp
qed

theorem remote_call_witness:
  "\<exists>d f more rs ev sv'. encode_frame (SendMessage 7 (lit ''B2B'') (lit ''hi'')) False = Inr d \<and> encode_frame sample_pushed True = Inr f
    \<and> tcp_output (run_to sample_env 7 (sample_run d) sample_serving) 7 = tcp_output sample_serving 7 @ f @ more
    \<and> dispatch (lit ''A1A'') (SendMessage 7 (lit ''B2B'') (lit ''hi'')) (PInt 9) (sample_server empty_database) = (Inr rs, ev, sv')
    \<and> fst (client_request (SendMessage 7 (lit ''B2B'') (lit ''hi'')) None [f, more] sample_client)
        = (case find error_response rs of Some error \<Rightarrow> Inl (ProtocolResponseError error) | None \<Rightarrow> Inr rs)"
proof -
  let ?q = "SendMessage 7 (lit ''B2B'') (lit ''hi'')"
  obtain d where d: "encode_frame ?q False = Inr d"
    using sample_request(1) encode_frame_ok [of ?q False] by (auto simp: is_ok_iff)
  have op: "client_operation ?q = Some SEND_MESSAGE" by (simp add: client_operation_def)
  note run = sample_run [OF encoded_whole [OF d]]
  obtain f more where f: "encode_frame sample_pushed True = Inr f"
    "tcp_output (run_to sample_env 7 (sample_run d) sample_serving) 7 = tcp_output sample_serving 7 @ f @ more"
    using run(3) by blast
  from remote_call [OF sample_serving(1) run(1) sample_client op d run(2)] obtain core t rs fs ev sv' new where
    "handled_at sample_env 7 (lit ''A1A'') d (sample_run d) sample_serving core t fs"
    "dispatch (lit ''A1A'') ?q (PInt t) core = (Inr rs, ev, sv')"
    "tcp_output (run_to sample_env 7 (sample_run d) sample_serving) 7 = tcp_output sample_serving 7 @ new"
    "\<forall>down. concat down = new \<longrightarrow> fst (client_request ?q None down sample_client)
        = (case find error_response rs of Some error \<Rightarrow> Inl (ProtocolResponseError error) | None \<Rightarrow> Inr rs)" by blast
  moreover from this(1) have "core = sample_server empty_database \<and> t = 9" by (rule run(4))
  moreover from \<open>tcp_output _ 7 = _ @ new\<close> f(2) have "concat [f, more] = new" by simp
  ultimately show ?thesis using d f by blast
qed

end
