(* ===== verification/Json.thy ===== *)
theory Json
  imports Py_Text Protocol "HOL-Library.List_Lexorder"
begin

text \<open>
  JSON as the standard library reads and writes it: \<open>json.dumps\<close> of a flat dictionary of texts and
  integers with \<open>sort_keys=True\<close>, and \<open>json.loads\<close> of any bytes. Objects keep the last of
  duplicate keys; a floating-point literal is kept as its text. A text nested deeper than Python's
  recursion limit is parsed all the same.
\<close>

section \<open>Writing\<close>

type_synonym payload = "(pystr \<times> (int + pystr)) list"

definition hex4 :: "nat \<Rightarrow> pystr" where
  "hex4 n = map (\<lambda>d. hex_digit (d mod 16)) [n div 4096, n div 256, n div 16, n]"

text \<open>One character of a text, with \<open>ensure_ascii\<close>: surrogate pairs above the first plane.\<close>

definition json_char :: "nat \<Rightarrow> pystr" where
  "json_char c =
     (if c = 34 \<or> c = 92 then [92, c]
      else if c = 10 then lit [CHR 0x5C, CHR ''n'']
      else if c = 13 then lit [CHR 0x5C, CHR ''r'']
      else if c = 9 then lit [CHR 0x5C, CHR ''t'']
      else if c = 12 then lit [CHR 0x5C, CHR ''f'']
      else if c = 8 then lit [CHR 0x5C, CHR ''b'']
      else if 32 \<le> c \<and> c < 127 then [c]
      else if c < 0x10000 then [92, 117] @ hex4 c
      else [92, 117] @ hex4 (0xD800 + (c - 0x10000) div 0x400) @ [92, 117] @ hex4 (0xDC00 + (c - 0x10000) mod 0x400))"

definition json_text :: "pystr \<Rightarrow> pystr" where
  "json_text s = [34] @ concat (map json_char s) @ [34]"

fun json_scalar :: "int + pystr \<Rightarrow> pystr" where
  "json_scalar (Inl i) = dec i"
| "json_scalar (Inr s) = json_text s"

fun join_with :: "pystr \<Rightarrow> pystr list \<Rightarrow> pystr" where
  "join_with sep [] = []"
| "join_with sep [s] = s"
| "join_with sep (s # t # ts) = s @ sep @ join_with sep (t # ts)"

text \<open>\<open>json.dumps(payload, separators=(item_separator, key_separator), sort_keys=True)\<close>.\<close>

definition json_dumps :: "pystr \<Rightarrow> pystr \<Rightarrow> payload \<Rightarrow> pystr" where
  "json_dumps item_separator key_separator payload =
     [123] @ join_with item_separator
       (map (\<lambda>(k, v). json_text k @ key_separator @ json_scalar v) (sort_key fst payload)) @ [125]"

section \<open>Reading\<close>

datatype json = JNull | JBool bool | JInt int | JFloat pystr | JText pystr | JList "json list"
  | JObject "(pystr \<times> json) list"

definition json_space :: "pystr \<Rightarrow> pystr" where
  "json_space = dropWhile (\<lambda>c. c = 32 \<or> c = 9 \<or> c = 10 \<or> c = 13)"

definition hex_value :: "nat \<Rightarrow> nat option" where
  "hex_value c = (if is_digit c then Some (c - 48) else if 97 \<le> c \<and> c < 103 then Some (c - 87)
     else if 65 \<le> c \<and> c < 71 then Some (c - 55) else None)"

text \<open>Four hexadecimal digits, and the rest of the text.\<close>

definition read_hex4 :: "pystr \<Rightarrow> nat option" where
  "read_hex4 s =
     (case s of
        a # b # c # d # _ \<Rightarrow>
          (case (hex_value a, hex_value b, hex_value c, hex_value d) of
             (Some p, Some q, Some r, Some t) \<Rightarrow> Some (((p * 16 + q) * 16 + r) * 16 + t)
           | _ \<Rightarrow> None)
      | _ \<Rightarrow> None)"

text \<open>What follows a backslash: the character meant and how much of the text it takes.\<close>

definition json_escape :: "pystr \<Rightarrow> (nat \<times> nat) option" where
  "json_escape s =
     (case s of
        [] \<Rightarrow> None
      | c # cs \<Rightarrow>
          if c = 34 \<or> c = 92 \<or> c = 47 then Some (c, 1)
          else if c = 98 then Some (8, 1)
          else if c = 102 then Some (12, 1)
          else if c = 110 then Some (10, 1)
          else if c = 114 then Some (13, 1)
          else if c = 116 then Some (9, 1)
          else if c = 117
          then (case read_hex4 cs of
              None \<Rightarrow> None
            | Some h \<Rightarrow>
                (case (if 0xD800 \<le> h \<and> h < 0xDC00 \<and> take 2 (drop 4 cs) = [92, 117] then read_hex4 (drop 6 cs) else None) of
                   Some l \<Rightarrow> if 0xDC00 \<le> l \<and> l < 0xE000
                     then Some (0x10000 + (h - 0xD800) * 0x400 + (l - 0xDC00), 11) else Some (h, 5)
                 | None \<Rightarrow> Some (h, 5)))
          else None)"

text \<open>The rest of a text after its opening quotation mark.\<close>

function read_text :: "pystr \<Rightarrow> (pystr \<times> pystr) option" where
  "read_text s =
     (case s of
        [] \<Rightarrow> None
      | c # cs \<Rightarrow>
          if c = 34 then Some ([], cs)
          else if c < 32 then None
          else if c = 92
          then (case json_escape cs of
              None \<Rightarrow> None
            | Some (d, k) \<Rightarrow> map_option (apfst ((#) d)) (read_text (drop k cs)))
          else map_option (apfst ((#) c)) (read_text cs))"
  by auto
termination by (relation "measure length") auto

declare read_text.simps [simp del]

text \<open>A number: an optional sign, the digits before the point, a fraction and an exponent. Only one
  without fraction and exponent is an integer, of at most 4300 digits.\<close>

definition whole_part :: "pystr \<Rightarrow> pystr" where
  "whole_part s = (case s of c # _ \<Rightarrow> if c = 48 then [48] else takeWhile is_digit s | [] \<Rightarrow> [])"

definition fraction_part :: "pystr \<Rightarrow> pystr" where
  "fraction_part s = (case s of
     c # cs \<Rightarrow> if c = 46 \<and> takeWhile is_digit cs \<noteq> [] then c # takeWhile is_digit cs else [] | [] \<Rightarrow> [])"

definition exponent_part :: "pystr \<Rightarrow> pystr" where
  "exponent_part s =
     (case s of
        c # cs \<Rightarrow>
          let signs = takeWhile (\<lambda>c. c = 43 \<or> c = 45) (take 1 cs);
              digits = takeWhile is_digit (drop (length signs) cs)
          in if (c = 101 \<or> c = 69) \<and> digits \<noteq> [] then c # signs @ digits else []
      | [] \<Rightarrow> [])"

definition read_number :: "pystr \<Rightarrow> (json \<times> pystr) option" where
  "read_number s =
     (let sign = takeWhile (\<lambda>c. c = 45) (take 1 s);
          body = drop (length sign) s;
          whole = whole_part body;
          after = drop (length whole) body;
          fraction = fraction_part after;
          exponent = exponent_part (drop (length fraction) after)
      in if whole = [] then None
         else if fraction @ exponent = []
         then (if 4300 < length whole then None
               else map_option (\<lambda>n. (JInt (if sign = [] then n else - n), after)) (int_digits 0 False whole))
         else Some (JFloat (sign @ whole @ fraction @ exponent), drop (length (fraction @ exponent)) after))"

definition starts :: "pystr \<Rightarrow> pystr \<Rightarrow> bool" where
  "starts p s \<longleftrightarrow> take (length p) s = p"

text \<open>
  Values, the members of an object after its opening brace and the elements of a list after its
  opening bracket. The first argument bounds the depth of the calls. Twice the length of the text is enough:
  of two calls one has read a character (\<open>read_enough\<close>).
\<close>

fun read_value :: "nat \<Rightarrow> pystr \<Rightarrow> (json \<times> pystr) option"
  and read_members :: "nat \<Rightarrow> pystr \<Rightarrow> ((pystr \<times> json) list \<times> pystr) option"
  and read_elements :: "nat \<Rightarrow> pystr \<Rightarrow> (json list \<times> pystr) option" where
  "read_value 0 s = None"
| "read_value (Suc n) s =
     (if starts [34] s then map_option (apfst JText) (read_text (drop 1 s))
      else if starts [123] s
      then (let r = json_space (drop 1 s) in
            if starts [125] r then Some (JObject [], drop 1 r) else map_option (apfst JObject) (read_members n r))
      else if starts [91] s
      then (let r = json_space (drop 1 s) in
            if starts [93] r then Some (JList [], drop 1 r) else map_option (apfst JList) (read_elements n r))
      else if starts (lit ''null'') s then Some (JNull, drop 4 s)
      else if starts (lit ''true'') s then Some (JBool True, drop 4 s)
      else if starts (lit ''false'') s then Some (JBool False, drop 5 s)
      else if starts (lit ''NaN'') s then Some (JFloat (lit ''NaN''), drop 3 s)
      else if starts (lit ''Infinity'') s then Some (JFloat (lit ''Infinity''), drop 8 s)
      else if starts (lit ''-Infinity'') s then Some (JFloat (lit ''-Infinity''), drop 9 s)
      else read_number s)"
| "read_members 0 s = None"
| "read_members (Suc n) s =
     (if \<not> starts [34] s then None
      else (case read_text (drop 1 s) of
          None \<Rightarrow> None
        | Some (k, r) \<Rightarrow>
            let r = json_space r in
            if \<not> starts [58] r then None
            else (case read_value n (json_space (drop 1 r)) of
                None \<Rightarrow> None
              | Some (v, r) \<Rightarrow>
                  let r = json_space r in
                  if starts [125] r then Some ([(k, v)], drop 1 r)
                  else if starts [44] r
                  then map_option (apfst ((#) (k, v))) (read_members n (json_space (drop 1 r)))
                  else None)))"
| "read_elements 0 s = None"
| "read_elements (Suc n) s =
     (case read_value n s of
        None \<Rightarrow> None
      | Some (v, r) \<Rightarrow>
          let r = json_space r in
          if starts [93] r then Some ([v], drop 1 r)
          else if starts [44] r then map_option (apfst ((#) v)) (read_elements n (json_space (drop 1 r)))
          else None)"

text \<open>\<open>json.loads\<close> of a text, \<open>None\<close> where it raises \<open>JSONDecodeError\<close>.\<close>

definition json_parse :: "pystr \<Rightarrow> json option" where
  "json_parse s =
     (case read_value (2 * length s + 1) (json_space s) of
        Some (v, r) \<Rightarrow> if json_space r = [] then Some v else None
      | None \<Rightarrow> None)"

text \<open>
  \<open>json.loads\<close> of bytes guesses an encoding from the first four bytes. What is plain UTF-8 is
  decoded here; \<open>wide\<close> stands for the codec of every other text.
\<close>

definition is_wide :: "bytes \<Rightarrow> bool" where
  "is_wide raw \<longleftrightarrow> 0 \<in> set (take 4 raw) \<or> take 2 raw \<in> {[0xFE, 0xFF], [0xFF, 0xFE]} \<or> take 3 raw = [0xEF, 0xBB, 0xBF]"

definition json_loads :: "(bytes \<Rightarrow> pystr option) \<Rightarrow> bytes \<Rightarrow> json option" where
  "json_loads wide raw =
     (case (if is_wide raw then None else utf8_decode raw) of
        Some s \<Rightarrow> json_parse s
      | None \<Rightarrow> Option.bind (wide raw) json_parse)"

text \<open>\<open>data.get(key)\<close> on a parsed object.\<close>

definition json_get :: "(pystr \<times> json) list \<Rightarrow> pystr \<Rightarrow> json" where
  "json_get members key = (case map_of (rev members) key of Some v \<Rightarrow> v | None \<Rightarrow> JNull)"

section \<open>The bound is enough\<close>

lemma json_space_length: "length (json_space s) \<le> length s"
  by (simp add: json_space_def length_dropWhile_le)

lemma read_text_Cons: "read_text (c # cs) =
    (if c = 34 then Some ([], cs)
     else if c < 32 then None
     else if c = 92
     then (case json_escape cs of
         None \<Rightarrow> None
       | Some (d, k) \<Rightarrow> map_option (apfst ((#) d)) (read_text (drop k cs)))
     else map_option (apfst ((#) c)) (read_text cs))"
  by (subst read_text.simps) simp

lemma read_text_Nil [simp]: "read_text [] = None"
  by (simp add: read_text.simps)

lemma read_text_length: "read_text s = Some (t, r) \<Longrightarrow> length r < length s"
proof (induction s arbitrary: t rule: length_induct)
  case (1 s)
  then obtain c cs where c: "s = c # cs" by (cases s) auto
  have i: "length r < length s" if "read_text (drop k cs) = Some (t', r)" for k t'
  proof -
    have "length (drop k cs) < length s" using c by simp
    then show ?thesis using 1(1) that by fastforce
  qed
  show ?case using 1(2) i [of 0] i c by (auto simp: read_text_Cons split: if_splits option.splits)
qed

lemma read_number_length: "read_number s = Some (v, r) \<Longrightarrow> length r < length s"
proof -
  assume a: "read_number s = Some (v, r)"
  define body where "body = drop (length (takeWhile (\<lambda>c. c = 45) (take 1 s))) s"
  have w: "whole_part body \<noteq> []" "length r \<le> length (drop (length (whole_part body)) body)"
    using a unfolding read_number_def Let_def body_def [symmetric] by (auto split: if_splits)
  then have "body \<noteq> []" by (auto simp: whole_part_def)
  then show ?thesis using w by (cases body; cases "whole_part body") (auto simp: body_def)
qed

lemma starts_length: "starts p s \<Longrightarrow> length p \<le> length s"
  unfolding starts_def by (metis length_take min.cobounded1 nat_le_linear take_all)

lemma starts_drop: "starts (c # p) s \<Longrightarrow> length (drop (length (c # p)) s) < length s"
  using starts_length [of "c # p" s] by simp

lemma space_after: "length r < length s \<Longrightarrow> length (json_space (drop k r)) < length s"
  using json_space_length [of "drop k r"] by simp

lemma read_length:
  "(\<forall>s v r. read_value n s = Some (v, r) \<longrightarrow> length r < length s)
   \<and> (\<forall>s ms r. read_members n s = Some (ms, r) \<longrightarrow> length r < length s)
   \<and> (\<forall>s vs r. read_elements n s = Some (vs, r) \<longrightarrow> length r < length s)"
proof (induction n)
  case (Suc n)
  have v: "length r < length s" if "read_value (Suc n) s = Some (v, r)" for s v r
  proof (cases "starts [34] s \<or> starts [123] s \<or> starts [91] s")
    case True
    then obtain c t where s: "s = c # t" using starts_length by (cases s) fastforce+
    have "length (drop 1 (json_space t)) < length s" "length (json_space t) < length s"
      using json_space_length [of t] s by simp_all
    then show ?thesis using that Suc True
      by (fastforce simp: Let_def s split: if_splits dest: read_text_length)
  next
    case False
    then show ?thesis using that
      by (auto simp: lit_def split: if_splits dest: read_number_length dest!: starts_length)
  qed
  have m: "length r < length s" if m: "read_members (Suc n) s = Some (ms, r)" for s ms r
  proof -
    obtain k r1 v r2 where r: "read_text (drop 1 s) = Some (k, r1)"
        "read_value n (json_space (drop 1 (json_space r1))) = Some (v, r2)"
        "r = drop 1 (json_space r2) \<or> (\<exists>ms. read_members n (json_space (drop 1 (json_space r2))) = Some (ms, r))"
      using m by (auto simp: Let_def split: if_splits option.splits)
    have 1: "length r1 < length s" using read_text_length [OF r(1)] by simp
    have 2: "length r2 < length s"
      using Suc r(2) 1 json_space_length [of r1] json_space_length [of "drop 1 (json_space r1)"] by fastforce
    then have "length (json_space (drop 1 (json_space r2))) < length s"
      using json_space_length [of r2] by (intro space_after) simp
    then show ?thesis using r(3) Suc 2 json_space_length [of r2] by fastforce
  qed
  have "length r < length s" if e: "read_elements (Suc n) s = Some (vs, r)" for s vs r
  proof -
    obtain v r2 where r: "read_value n s = Some (v, r2)"
        "r = drop 1 (json_space r2) \<or> (\<exists>vs. read_elements n (json_space (drop 1 (json_space r2))) = Some (vs, r))"
      using e by (auto simp: Let_def split: if_splits option.splits)
    have 2: "length r2 < length s" using Suc r(1) by blast
    then have "length (json_space (drop 1 (json_space r2))) < length s"
      using json_space_length [of r2] by (intro space_after) simp
    then show ?thesis using r(2) Suc 2 json_space_length [of r2] by fastforce
  qed
  with v m show ?case by blast
qed simp

lemma read_enough:
  "(\<forall>s m. 2 * length s < n \<longrightarrow> n \<le> m \<longrightarrow> read_value n s = read_value m s)
   \<and> (\<forall>s m. 2 * length s + 1 < n \<longrightarrow> n \<le> m \<longrightarrow> read_members n s = read_members m s)
   \<and> (\<forall>s m. 2 * length s + 1 < n \<longrightarrow> n \<le> m \<longrightarrow> read_elements n s = read_elements m s)"
proof (induction n)
  case (Suc n)
  have v: "read_value (Suc n) s = read_value m s" if m: "2 * length s < Suc n" "Suc n \<le> m" for s m
  proof -
    obtain m' where m': "m = Suc m'" "n \<le> m'" using m(2) by (cases m) auto
    have "2 * length (json_space (drop 1 s)) + 1 < n" if "s \<noteq> []"
      using that m(1) json_space_length [of "drop 1 s"] by (cases s) auto
    then have "read_members n (json_space (drop 1 s)) = read_members m' (json_space (drop 1 s))"
      "read_elements n (json_space (drop 1 s)) = read_elements m' (json_space (drop 1 s))" if "s \<noteq> []"
      using that m' Suc by blast+
    then show ?thesis by (cases "s = []") (simp_all add: m' Let_def starts_def)
  qed
  have mm: "read_members (Suc n) s = read_members m s" if m: "2 * length s + 1 < Suc n" "Suc n \<le> m" for s m
  proof -
    obtain m' where m': "m = Suc m'" "n \<le> m'" using m(2) by (cases m) auto
    have 1: "read_value n (json_space (drop 1 (json_space r1))) = read_value m' (json_space (drop 1 (json_space r1)))"
      and 2: "read_value n (json_space (drop 1 (json_space r1))) = Some (v, r2) \<Longrightarrow>
        read_members n (json_space (drop 1 (json_space r2))) = read_members m' (json_space (drop 1 (json_space r2)))"
      if "read_text (drop 1 s) = Some (k, r1)" for k r1 v r2
    proof -
      have l: "length (json_space (drop 1 (json_space r1))) < length s"
        using read_text_length [OF that] json_space_length [of r1] by (intro space_after) simp
      then show "read_value n (json_space (drop 1 (json_space r1))) = read_value m' (json_space (drop 1 (json_space r1)))"
        using Suc m(1) m'(2) by simp
      assume "read_value n (json_space (drop 1 (json_space r1))) = Some (v, r2)"
      then have "length r2 < length (json_space (drop 1 (json_space r1)))" using read_length by blast
      then have "length (json_space (drop 1 (json_space r2))) < length (json_space (drop 1 (json_space r1)))"
        using json_space_length [of r2] by (intro space_after) simp
      then show "read_members n (json_space (drop 1 (json_space r2))) = read_members m' (json_space (drop 1 (json_space r2)))"
        using Suc m(1) m'(2) l by simp
    qed
    show ?thesis
    proof (cases "read_text (drop 1 s)")
      case (Some p)
      obtain k r1 where p: "p = (k, r1)" by fastforce
      note 1 = 1 [OF Some [unfolded p], unfolded One_nat_def]
      show ?thesis
        by (cases "read_value m' (json_space (drop (Suc 0) (json_space r1)))")
          (use Some p 1 2 [OF Some [unfolded p], unfolded One_nat_def] in \<open>auto simp: m' Let_def\<close>)
    qed (simp add: m')
  qed
  have "read_elements (Suc n) s = read_elements m s" if m: "2 * length s + 1 < Suc n" "Suc n \<le> m" for s m
  proof -
    obtain m' where m': "m = Suc m'" "n \<le> m'" using m(2) by (cases m) auto
    have 1: "read_value n s = read_value m' s" using Suc m(1) m'(2) by simp
    have 2: "read_elements n (json_space (drop 1 (json_space r2))) = read_elements m' (json_space (drop 1 (json_space r2)))"
      if "read_value m' s = Some (v, r2)" for v r2
    proof -
      have "length r2 < length s" using that read_length by blast
      then have "length (json_space (drop 1 (json_space r2))) < length s"
        using json_space_length [of r2] by (intro space_after) simp
      then show ?thesis using Suc m(1) m'(2) by simp
    qed
    show ?thesis
      by (cases "read_value m' s") (use 2 in \<open>auto simp: m' Let_def 1\<close>)
  qed
  with v mm show ?case by blast
qed simp

section \<open>What is written is read back\<close>

definition simple :: "pystr \<Rightarrow> bool" where
  "simple s \<longleftrightarrow> (\<forall>c \<in> set s. 32 \<le> c \<and> c < 127 \<and> c \<noteq> 34 \<and> c \<noteq> 92)"

fun simple_value :: "int + pystr \<Rightarrow> bool" where
  "simple_value (Inl i) \<longleftrightarrow> 0 \<le> i \<and> i < 10 ^ 20"
| "simple_value (Inr s) \<longleftrightarrow> simple s"

fun json_of :: "int + pystr \<Rightarrow> json" where
  "json_of (Inl i) = JInt i"
| "json_of (Inr s) = JText s"

lemma json_text_simple: "simple s \<Longrightarrow> json_text s = 34 # s @ [34]"
proof -
  assume "simple s"
  then have "concat (map json_char s) = s" by (induction s) (auto simp: simple_def json_char_def)
  then show ?thesis by (simp add: json_text_def)
qed

lemma read_simple: "simple s \<Longrightarrow> read_text (s @ 34 # r) = Some (s, r)"
  by (induction s) (auto simp: simple_def read_text_Cons)

lemma takeWhile_digits: "(\<forall>c \<in> set s. is_digit c) \<Longrightarrow> r = [] \<or> \<not> is_digit (hd r) \<Longrightarrow> takeWhile is_digit (s @ r) = s"
  by (induction s) (auto simp: takeWhile_eq_Nil_iff)

lemma read_dec:
  assumes "0 \<le> i" "i < 10 ^ 20" "c = 44 \<or> c = 125"
  shows "read_number (dec i @ c # r) = Some (JInt i, c # r)"
proof -
  let ?d = "dec_nat (nat i)"
  obtain a as where d: "?d = a # as" "is_digit a" "a = 48 \<longrightarrow> as = []"
    by (rule dec_nat_head [of "nat i"])
  have all: "\<forall>c \<in> set ?d. is_digit c" by (blast intro: dec_nat_digits)
  have c: "\<not> is_digit c" using assms(3) by (auto simp: is_digit_def)
  have w: "whole_part (?d @ c # r) = ?d"
    using takeWhile_digits [OF all, of "c # r"] c d by (auto simp: whole_part_def)
  have "fraction_part (c # r) = []" "exponent_part (c # r) = []"
    using assms(3) by (auto simp: fraction_part_def exponent_part_def Let_def)
  moreover have "nat i < 10 ^ Suc 19" using assms by (simp add: nat_less_iff)
  then have "\<not> 4300 < length ?d" using dec_nat_length [of "nat i" 19] by linarith
  moreover have "takeWhile (\<lambda>c. c = 45) (take 1 (?d @ c # r)) = []" using d by (simp add: is_digit_def)
  moreover have "int_digits 0 False ?d = Some i" using int_digits_dec [of "nat i"] assms(1) by simp
  ultimately show ?thesis using assms(1) by (simp add: read_number_def dec_def Let_def w)
qed

lemma json_space_id: "s = [] \<or> hd s \<notin> {32, 9, 10, 13} \<Longrightarrow> json_space s = s"
  by (cases s) (auto simp: json_space_def)

lemma json_scalar_head:
  assumes "simple_value v" obtains c cs where "json_scalar v = c # cs" "c = 34 \<or> is_digit c"
proof (cases v)
  case (Inl i)
  moreover have "\<exists>c cs. dec_nat n = c # cs \<and> is_digit c" for n by (metis dec_nat_head)
  ultimately show ?thesis using that assms by (auto simp: dec_def)
next
  case (Inr s)
  then show ?thesis using that assms by (simp add: json_text_simple)
qed

lemma read_scalar:
  assumes "simple_value v" "c = 44 \<or> c = 125"
  shows "read_value (Suc n) (json_scalar v @ c # r) = Some (json_of v, c # r)"
proof (cases v)
  case (Inr s)
  then show ?thesis using assms read_simple [of s "c # r"] by (simp add: json_text_simple starts_def)
next
  case (Inl i)
  obtain a as where a: "json_scalar v = a # as" "a = 34 \<or> is_digit a" by (rule json_scalar_head [OF assms(1)])
  moreover have "a \<noteq> 34" using a(1) Inl assms(1) dec_nat_digits [of a "nat i"] by (auto simp: dec_def is_digit_def)
  ultimately have "48 \<le> a" "a < 58" by (auto simp: is_digit_def)
  moreover have "read_number (json_scalar v @ c # r) = Some (json_of v, c # r)" using Inl assms read_dec by simp
  ultimately show ?thesis unfolding a(1) by (simp add: starts_def lit_def)
qed

lemma read_flat:
  assumes "\<forall>(k, v) \<in> set ps. simple k \<and> simple_value v" "ps \<noteq> []" "length ps < n"
  shows "read_members n (join_with [44] (map (\<lambda>(k, v). json_text k @ [58] @ json_scalar v) ps) @ 125 # r)
    = Some (map (\<lambda>(k, v). (k, json_of v)) ps, r)"
  using assms
proof (induction ps arbitrary: n)
  case (Cons p ps)
  obtain k v where p: "p = (k, v)" by fastforce
  obtain m where m: "n = Suc (Suc m)" using less_imp_Suc_add [OF Cons.prems(3)] by auto
  have k: "simple k" "simple_value v" using Cons.prems(1) p by auto
  obtain a as where a: "json_scalar v = a # as" "a = 34 \<or> is_digit a" by (rule json_scalar_head [OF k(2)])
  have sp: "json_space (json_scalar v @ t) = json_scalar v @ t" for t
    using a by (intro json_space_id) (auto simp: is_digit_def)
  note rs = read_scalar [OF k(2), of _ m]
  show ?case
  proof (cases ps)
    case Nil
    then show ?thesis using rs [of 125 r] k sp
      by (simp add: p m json_text_simple starts_def read_simple json_space_id Let_def)
  next
    case (Cons q qs)
    then have "read_members (Suc m) (join_with [44] (map (\<lambda>(k, v). json_text k @ [58] @ json_scalar v) ps) @ 125 # r)
        = Some (map (\<lambda>(k, v). (k, json_of v)) ps, r)"
      using Cons.IH [of "Suc m"] Cons.prems m by auto
    moreover have "\<exists>t. join_with [44] (map (\<lambda>(k, v). json_text k @ [58] @ json_scalar v) ps) = 34 # t"
      using Cons by (cases qs) (auto simp: json_text_def split: prod.split)
    ultimately show ?thesis using rs [of 44] k sp Cons
      by (auto simp: p m json_text_simple starts_def read_simple json_space_id Let_def)
  qed
qed simp

lemma json_parse_object:
  assumes "j = 34 # t" "read_members (2 * length (123 # j @ [125])) (j @ [125]) = Some (ms, [])"
  shows "json_parse (123 # j @ [125]) = Some (JObject ms)"
proof -
  have "read_value (Suc n) (123 # j @ [125]) = map_option (apfst JObject) (read_members n (j @ [125]))" for n
    by (simp add: starts_def assms(1) json_space_id)
  then show ?thesis using assms(2) unfolding json_parse_def Suc_eq_plus1 [symmetric]
    by (simp add: json_space_id del: read_value.simps read_members.simps)
qed

end
