(* ===== verification/Api_Tokens.thy ===== *)
theory Api_Tokens
  imports Json
begin

text \<open>
  The tokens of \<open>api/app.py\<close>: \<open>_b64\<close>, \<open>_unb64\<close> and \<open>Signer\<close>. HMAC-SHA256, the conversion of a
  floating-point literal to an integer and the codecs of JSON texts that are not UTF-8 are
  arguments. A failure is the API's own error or another exception, which the application answers
  with status 500.
\<close>

section \<open>Failures\<close>

datatype failure =
    APIError (fl_status: int) (fl_code: pystr) (fl_message: pystr) (fl_details: "(pystr \<times> pystr) list")
  | Raised exn
  | Unhandled pystr

record crypto =
  cr_hmac :: "bytes \<Rightarrow> bytes \<Rightarrow> bytes"
  cr_sha256 :: "bytes \<Rightarrow> bytes"
  cr_wide :: "bytes \<Rightarrow> pystr option"
  cr_float_int :: "pystr \<Rightarrow> int result"

section \<open>Base64 without padding\<close>

definition b64 :: "bytes \<Rightarrow> pystr" where
  "b64 data = urlsafe_b64encode data"

text \<open>The value of a character of either alphabet; \<open>base64.urlsafe_b64decode\<close> skips other characters.\<close>

definition sextet :: "nat \<Rightarrow> nat option" where
  "sextet c = (if c = 43 then Some 62 else if c = 47 then Some 63 else if is_b64 c then Some (index64 c) else None)"

text \<open>\<open>binascii.a2b_base64\<close>: the position in the group, the bits left over from the last character and the
  padding seen since. Enough padding ends the input.\<close>

fun a2b_base64 :: "nat \<Rightarrow> nat \<Rightarrow> nat \<Rightarrow> pystr \<Rightarrow> bytes option" where
  "a2b_base64 quad left pads [] = (if quad = 0 then Some [] else None)"
| "a2b_base64 quad left pads (c # cs) =
     (if c = 61
      then (if 2 \<le> quad \<and> 4 \<le> quad + (pads + 1) then Some []
            else a2b_base64 quad left (if 2 \<le> quad then pads + 1 else pads) cs)
      else (case sextet c of
          None \<Rightarrow> a2b_base64 quad left pads cs
        | Some v \<Rightarrow>
            if quad = 0 then a2b_base64 1 v 0 cs
            else if quad = 1 then map_option ((#) (byte_of (left * 4 + v div 16))) (a2b_base64 2 (v mod 16) 0 cs)
            else if quad = 2 then map_option ((#) (byte_of (left * 16 + v div 4))) (a2b_base64 3 (v mod 4) 0 cs)
            else map_option ((#) (byte_of (left * 64 + v))) (a2b_base64 0 0 0 cs)))"

definition unb64 :: "pystr \<Rightarrow> bytes option" where
  "unb64 text =
     (let padded = text @ replicate ((4 - length text mod 4) mod 4) 61 in
      if \<not> ascii padded then None else a2b_base64 0 0 0 padded)"

lemma sextet_B64 [simp]: "n < 64 \<Longrightarrow> sextet (B64 ! n) = Some n \<and> B64 ! n \<noteq> 61"
  by (auto simp: sextet_def B64_nth is_b64_def index64_def)

lemma a2b_encode: "a2b_base64 0 left pads (b64 data @ replicate ((4 - length (b64 data) mod 4) mod 4) 61) = Some data"
proof (induction data arbitrary: left pads rule: urlsafe_b64encode.induct)
  case (4 a b c r)
  have "length (b64 (a # b # c # r)) mod 4 = length (b64 r) mod 4" by (simp add: b64_def)
  then show ?case using 4 by (simp add: b64_def)
qed (simp_all add: b64_def numeral_2_eq_2)

lemma b64_ascii: "ascii (b64 data)"
  using b64encode_chars [of _ data] by (fastforce simp: ascii_def b64_def is_b64_def)

lemma unb64_b64 [simp]: "unb64 (b64 data) = Some data"
  using a2b_encode [of 0 0 data] b64_ascii [of data] by (auto simp: unb64_def Let_def ascii_def)

section \<open>The signer\<close>

record signer =
  sg_secret :: bytes
  sg_lifetime :: int

definition sign :: "crypto \<Rightarrow> signer \<Rightarrow> payload \<Rightarrow> pystr" where
  "sign cr sg payload =
     (let raw = map byte_of (json_dumps (lit '','') (lit '':'') payload)
      in b64 raw @ lit ''.'' @ b64 (cr_hmac cr (sg_secret sg) raw))"

definition invalid_token :: failure where
  "invalid_token = APIError 401 (lit ''invalid_token'') (lit ''Invalid or expired access token.'') []"

definition invalid_cursor :: failure where
  "invalid_cursor = APIError 400 (lit ''invalid_request'') (lit ''Invalid cursor.'') []"

definition read_token :: "crypto \<Rightarrow> signer \<Rightarrow> pystr \<Rightarrow> failure + json" where
  "read_token cr sg token =
     (case split_char 46 token of
        [encoded, signature] \<Rightarrow>
          (case (unb64 encoded, unb64 signature) of
             (Some raw, Some mac) \<Rightarrow>
               if mac \<noteq> cr_hmac cr (sg_secret sg) raw then Inl invalid_token
               else (case json_loads (cr_wide cr) raw of None \<Rightarrow> Inl invalid_token | Some v \<Rightarrow> Inr v)
           | _ \<Rightarrow> Inl invalid_token)
      | _ \<Rightarrow> Inl invalid_token)"

definition access :: "crypto \<Rightarrow> signer \<Rightarrow> int \<Rightarrow> pystr \<Rightarrow> pystr" where
  "access cr sg now callsign =
     sign cr sg [(lit ''kind'', Inr (lit ''access'')), (lit ''sub'', Inr callsign), (lit ''exp'', Inl (now + sg_lifetime sg))]"

text \<open>\<open>int(value)\<close>, \<open>Inr None\<close> where it raises \<open>TypeError\<close> or \<open>ValueError\<close>.\<close>

fun expiry :: "crypto \<Rightarrow> json \<Rightarrow> failure + int option" where
  "expiry cr (JInt i) = Inr (Some i)"
| "expiry cr (JBool b) = Inr (Some (of_bool b))"
| "expiry cr (JText s) = Inr (py_int s)"
| "expiry cr (JFloat t) =
     (case cr_float_int cr t of
        Inr i \<Rightarrow> Inr (Some i)
      | Inl e \<Rightarrow> if is_ValueError e \<or> (case e of TypeError _ \<Rightarrow> True | _ \<Rightarrow> False) then Inr None else Inl (Raised e))"
| "expiry cr _ = Inr None"

definition identity :: "crypto \<Rightarrow> signer \<Rightarrow> int \<Rightarrow> pystr \<Rightarrow> failure + pystr" where
  "identity cr sg now token =
     bindE (read_token cr sg token) (\<lambda>v.
     case v of
       JObject data \<Rightarrow>
         (case (json_get data (lit ''kind''), json_get data (lit ''sub'')) of
            (JText kind, JText callsign) \<Rightarrow>
              if kind \<noteq> lit ''access'' then Inl invalid_token
              else bindE (expiry cr (if lit ''exp'' \<in> fst ` set data then json_get data (lit ''exp'') else JInt 0)) (\<lambda>t.
                case t of None \<Rightarrow> Inl invalid_token
                | Some t \<Rightarrow> if t < now then Inl invalid_token else Inr callsign)
          | _ \<Rightarrow> Inl invalid_token)
     | _ \<Rightarrow> Inl (Unhandled (lit ''AttributeError'')))"

definition cursor_token :: "crypto \<Rightarrow> signer \<Rightarrow> pystr \<Rightarrow> int \<Rightarrow> pystr \<Rightarrow> pystr" where
  "cursor_token cr sg callsign n kind =
     sign cr sg [(lit ''kind'', Inr kind), (lit ''sub'', Inr callsign), (lit ''seq'', Inl n)]"

text \<open>\<open>isinstance(value, int)\<close> holds of booleans too.\<close>

fun as_int :: "json \<Rightarrow> int option" where
  "as_int (JInt i) = Some i"
| "as_int (JBool b) = Some (of_bool b)"
| "as_int _ = None"

definition cursor_value :: "crypto \<Rightarrow> signer \<Rightarrow> pystr \<Rightarrow> pystr \<Rightarrow> pystr \<Rightarrow> failure + int" where
  "cursor_value cr sg token callsign kind =
     (case read_token cr sg token of
        Inl (APIError _ _ _ _) \<Rightarrow> Inl invalid_cursor
      | Inl e \<Rightarrow> Inl e
      | Inr (JObject data) \<Rightarrow>
          (case as_int (json_get data (lit ''seq'')) of
             Some n \<Rightarrow>
               if json_get data (lit ''kind'') \<noteq> JText kind \<or> json_get data (lit ''sub'') \<noteq> JText callsign \<or> n < 0
               then Inl invalid_cursor else Inr n
           | None \<Rightarrow> Inl invalid_cursor)
      | Inr _ \<Rightarrow> Inl (Unhandled (lit ''AttributeError'')))"

section \<open>Tokens are read back\<close>

lemma json_dumps_chars:
  assumes "\<forall>(k, v) \<in> set payload. simple k \<and> simple_value v" "c \<in> set (json_dumps [44] [58] payload)"
  shows "32 \<le> c \<and> c < 127"
proof -
  have j: "c \<in> set (join_with sep ss) \<Longrightarrow> c \<in> set sep \<or> (\<exists>s \<in> set ss. c \<in> set s)" for c sep ss
    by (induction sep ss rule: join_with.induct) auto
  have s: "32 \<le> c \<and> c < 127" if "c \<in> set (json_scalar v)" "simple_value v" for c v
    using that dec_nat_digits by (cases v) (fastforce simp: json_text_simple simple_def dec_def is_digit_def)+
  have "32 \<le> c \<and> c < 127" if "c \<in> set (json_text k @ [58] @ json_scalar v)" "(k, v) \<in> set payload" for k v
    using that assms(1) s [of c v] by (fastforce simp: json_text_simple simple_def)
  then show ?thesis using assms(2) by (auto simp: json_dumps_def dest!: j)
qed

lemma loads_dumps:
  assumes "\<forall>(k, v) \<in> set payload. simple k \<and> simple_value v" "payload \<noteq> []"
  shows "json_loads wide (map byte_of (json_dumps [44] [58] payload)) =
    Some (JObject (map (\<lambda>(k, v). (k, json_of v)) (sort_key fst payload)))"
proof -
  let ?s = "json_dumps [44] [58] payload" and ?ps = "sort_key fst payload"
  let ?j = "join_with [44] (map (\<lambda>(k, v). json_text k @ [58] @ json_scalar v) ?ps)"
  have c: "32 \<le> c \<and> c < 127" if "c \<in> set ?s" for c by (rule json_dumps_chars [OF assms(1) that])
  then have a: "ascii ?s" by (fastforce simp: ascii_def)
  have b: "of_byte b \<in> set ?s" if "b \<in> set (map byte_of ?s)" for b
    using that a by (auto simp: ascii_def)
  have "of_byte b \<noteq> 0 \<and> of_byte b < 0x80" if "b \<in> set (map byte_of ?s)" for b using c [OF b [OF that]] by auto
  then have r: "b \<noteq> 0 \<and> b \<noteq> 0xFE \<and> b \<noteq> 0xFF \<and> b \<noteq> 0xEF" if "b \<in> set (map byte_of ?s)" for b
    using that by (force simp: of_byte_def)
  then have "\<not> is_wide (map byte_of ?s)"
    by (cases "map byte_of ?s") (auto simp: is_wide_def dest: in_set_takeD)
  moreover have "utf8_decode (map byte_of ?s) = Some ?s"
    using a utf8_encode_ascii utf8_decode_encode by blast
  moreover have "json_parse ?s = Some (JObject (map (\<lambda>(k, v). (k, json_of v)) ?ps))"
  proof -
    have s: "?s = 123 # ?j @ [125]" by (simp add: json_dumps_def)
    have p: "?ps \<noteq> []" using assms(2) by (metis set_empty set_sort)
    then obtain t where t: "?j = 34 # t" by (cases ?ps rule: remdups_adj.cases) (auto simp: json_text_def)
    have "length ss \<le> length (join_with [44] ss)" if "\<forall>x \<in> set ss. x \<noteq> []" for ss
      using that by (induction "[44] :: pystr" ss rule: join_with.induct) (auto simp: Suc_le_eq)
    then have "length ?ps \<le> length ?j"
      by (metis (no_types, lifting) imageE json_text_def length_map list.set_map append_is_Nil_conv case_prod_beta not_Cons_self2)
    then have "read_members (2 * length ?s) (?j @ [125]) = Some (map (\<lambda>(k, v). (k, json_of v)) ?ps, [])"
      using assms(1) p by (intro read_flat) (auto simp: s)
    then show ?thesis unfolding s using json_parse_object [OF t] by simp
  qed
  ultimately show ?thesis by (simp add: json_loads_def)
qed

lemma b64_no_dot: "46 \<notin> set (b64 data)"
  using b64encode_chars [of 46 data] by (auto simp: b64_def is_b64_def)

lemma token_parts: "split_char 46 (b64 raw @ lit ''.'' @ b64 mac) = [b64 raw, b64 mac]"
  using b64_no_dot by (simp add: lit_def split_char_append split_char_absent)

lemma read_sign:
  assumes "\<forall>(k, v) \<in> set payload. simple k \<and> simple_value v" "payload \<noteq> []"
  shows "read_token cr sg (sign cr sg payload) = Inr (JObject (map (\<lambda>(k, v). (k, json_of v)) (sort_key fst payload)))"
proof -
  have "lit '','' = [44]" "lit '':'' = [58]" by (simp_all add: lit_def)
  then show ?thesis
    by (simp add: read_token_def sign_def Let_def token_parts loads_dumps [OF assms])
qed

lemma simple_lit: "simple (lit ''kind'')" "simple (lit ''sub'')" "simple (lit ''exp'')" "simple (lit ''seq'')"
  "simple (lit ''access'')" "simple (lit ''page'')" "simple (lit ''sync'')"
  by (simp_all add: simple_def lit_def)

lemma callsign_simple: "callsign_ok c \<Longrightarrow> simple c"
  using callsign_range by (fastforce simp: simple_def)

lemma key_order: "lit ''kind'' \<le> lit ''sub''" "\<not> lit ''kind'' \<le> lit ''exp''" "\<not> lit ''sub'' \<le> lit ''exp''"
  "lit ''kind'' \<le> lit ''seq''" "\<not> lit ''sub'' \<le> lit ''seq''"
  by (simp_all add: lit_def)

lemma read_access:
  assumes "simple c" "0 \<le> now + sg_lifetime sg" "now + sg_lifetime sg < 10 ^ 20"
  shows "read_token cr sg (access cr sg now c) =
    Inr (JObject [(lit ''exp'', JInt (now + sg_lifetime sg)), (lit ''kind'', JText (lit ''access'')), (lit ''sub'', JText c)])"
  unfolding access_def by (subst read_sign) (use assms in \<open>simp_all add: simple_lit key_order\<close>)

lemma read_cursor_token:
  assumes "simple c" "simple kind" "0 \<le> n" "n < 10 ^ 20"
  shows "read_token cr sg (cursor_token cr sg c n kind) =
    Inr (JObject [(lit ''kind'', JText kind), (lit ''seq'', JInt n), (lit ''sub'', JText c)])"
  unfolding cursor_token_def by (subst read_sign) (use assms in \<open>simp_all add: simple_lit key_order\<close>)

lemma keys_differ: "lit ''kind'' \<noteq> lit ''exp''" "lit ''kind'' \<noteq> lit ''seq''" "lit ''kind'' \<noteq> lit ''sub''"
  "lit ''sub'' \<noteq> lit ''exp''" "lit ''sub'' \<noteq> lit ''seq''" "lit ''seq'' \<noteq> lit ''exp''"
  by (simp_all add: lit_def)

lemma identity_access:
  assumes "simple c" "0 \<le> now + sg_lifetime sg" "now + sg_lifetime sg < 10 ^ 20"
  shows "identity cr sg t (access cr sg now c) = (if now + sg_lifetime sg < t then Inl invalid_token else Inr c)"
  using keys_differ by (simp add: identity_def read_access [OF assms] json_get_def)

lemma identity_cursor:
  assumes "simple c" "simple kind" "0 \<le> n" "n < 10 ^ 20" "kind \<noteq> lit ''access''"
  shows "identity cr sg t (cursor_token cr sg c n kind) = Inl invalid_token"
  using keys_differ assms(5) by (simp add: identity_def read_cursor_token [OF assms(1-4)] json_get_def)

lemma cursor_value_cursor:
  assumes "simple c" "simple kind" "0 \<le> n" "n < 10 ^ 20"
  shows "cursor_value cr sg (cursor_token cr sg c n kind) c' kind' =
    (if c' = c \<and> kind' = kind then Inr n else Inl invalid_cursor)"
  using keys_differ assms(3) by (auto simp: cursor_value_def read_cursor_token [OF assms] json_get_def)

lemma cursor_value_access:
  assumes "simple c" "0 \<le> now + sg_lifetime sg" "now + sg_lifetime sg < 10 ^ 20"
  shows "cursor_value cr sg (access cr sg now c) c' kind' = Inl invalid_cursor"
  using keys_differ by (simp add: cursor_value_def read_access [OF assms] json_get_def)

text \<open>Whatever is accepted carries the keyed hash of its contents.\<close>

lemma read_signed:
  assumes "read_token cr sg token = Inr v"
  obtains encoded signature raw where "split_char 46 token = [encoded, signature]" "unb64 encoded = Some raw"
    "unb64 signature = Some (cr_hmac cr (sg_secret sg) raw)" "json_loads (cr_wide cr) raw = Some v"
  using assms unfolding read_token_def
  by (auto split: list.splits option.splits if_splits)

end
