(* ===== verification/Event_Hub.thy ===== *)
theory Event_Hub
  imports Api_Tokens Presence Ordered_Dict Conversations
begin

text \<open>
  The API's view of messages and its event hub (\<open>api/app.py\<close>: \<open>_timestamp\<close>, \<open>_message_id\<close>,
  \<open>_parse_message_id\<close>, \<open>_message\<close> and \<open>EventHub\<close>). A WebSocket is a number; a set of sockets is a
  list. Coroutines scheduled on the event loop are tasks in a queue; what sending to a socket does
  is an argument of running one. The text a socket is sent is logged with the user it is for.
\<close>

section \<open>Time and identifiers\<close>

text \<open>The civil date of a day count since 1970-01-01, in the proleptic Gregorian calendar.\<close>

definition civil :: "int \<Rightarrow> int \<times> int \<times> int" where
  "civil days =
     (let z = days + 719468; era = z div 146097; doe = z mod 146097;
          yoe = (doe - doe div 1460 + doe div 36524 - doe div 146096) div 365;
          doy = doe - (365 * yoe + yoe div 4 - yoe div 100);
          mp = (5 * doy + 2) div 153;
          d = doy - (153 * mp + 2) div 5 + 1;
          m = (if mp < 10 then mp + 3 else mp - 9)
      in (yoe + era * 400 + of_bool (m \<le> 2), m, d))"

definition pad2 :: "int \<Rightarrow> pystr" where
  "pad2 n = (if n < 10 then lit ''0'' @ dec n else dec n)"

text \<open>\<open>strftime("%Y-%m-%dT%H:%M:%SZ", gmtime(value))\<close>; \<open>gmtime\<close> raises \<open>OSError\<close> when the year does
  not fit a C \<open>int\<close>.\<close>

definition timestamp :: "int \<Rightarrow> failure + pystr" where
  "timestamp t =
     (if \<not> (-67768040609740800 \<le> t \<and> t \<le> 67768036191676799) then Inl (Unhandled (lit ''OSError''))
      else (case civil (t div 86400) of (y, m, d) \<Rightarrow>
        let s = t mod 86400 in
        Inr (dec y @ lit ''-'' @ pad2 m @ lit ''-'' @ pad2 d @ lit ''T'' @ pad2 (s div 3600) @ lit '':''
          @ pad2 (s div 60 mod 60) @ lit '':'' @ pad2 (s mod 60) @ lit ''Z'')))"

definition message_id :: "pystr \<Rightarrow> int \<Rightarrow> failure + pystr" where
  "message_id recipient n =
     (case utf8_encode (recipient @ lit '':'' @ dec n) of
        None \<Rightarrow> Inl (Raised UnicodeEncodeError) | Some raw \<Rightarrow> Inr (b64 raw))"

definition message_not_found :: failure where
  "message_not_found = APIError 404 (lit ''not_found'') (lit ''Message not found.'') []"

text \<open>\<open>text.rsplit(":", 1)\<close> into two parts.\<close>

definition rsplit_colon :: "pystr \<Rightarrow> (pystr \<times> pystr) option" where
  "rsplit_colon s =
     (if 58 \<in> set s
      then Some (rev (tl (dropWhile (\<lambda>c. c \<noteq> 58) (rev s))), rev (takeWhile (\<lambda>c. c \<noteq> 58) (rev s)))
      else None)"

definition parse_message_id :: "pystr \<Rightarrow> failure + pystr \<times> int" where
  "parse_message_id text =
     (case Option.bind (unb64 text) utf8_decode of
        None \<Rightarrow> Inl message_not_found
      | Some s \<Rightarrow> (case rsplit_colon s of
          None \<Rightarrow> Inl message_not_found
        | Some (recipient, digits) \<Rightarrow>
            (case py_int digits of None \<Rightarrow> Inl message_not_found | Some n \<Rightarrow> Inr (recipient, n))))"

record api_message =
  am_id :: pystr
  am_from :: pystr
  am_to :: pystr
  am_body :: pystr
  am_created_at :: pystr
  am_delivery_status :: pystr
  am_delivered_at :: "pystr option"

definition message_payload :: "pystr \<Rightarrow> int \<Rightarrow> pystr \<Rightarrow> pystr \<Rightarrow> int \<Rightarrow> pystr \<Rightarrow> int option \<Rightarrow> failure + api_message" where
  "message_payload recipient n author body created_at status delivered_at =
     bindE (message_id recipient n) (\<lambda>mid.
     bindE (timestamp created_at) (\<lambda>created.
     bindE (case delivered_at of None \<Rightarrow> Inr None | Some t \<Rightarrow> bindE (timestamp t) (\<lambda>s. Inr (Some s))) (\<lambda>delivered.
       Inr \<lparr>am_id = mid, am_from = author, am_to = recipient, am_body = body, am_created_at = created,
            am_delivery_status = status, am_delivered_at = delivered\<rparr>)))"

text \<open>\<open>_message\<close> and \<open>EventHub._payload\<close>.\<close>

definition message_view :: "stored_message \<Rightarrow> pystr \<Rightarrow> int option \<Rightarrow> failure + api_message" where
  "message_view m = message_payload (st_recipient m) (st_sequence m) (st_author m) (st_body m) (st_created_at m)"

definition event_payload :: "protocol_object \<Rightarrow> failure + api_message" where
  "event_payload m = message_payload (m_recipient m) (m_sequence m) (m_author m) (m_body m) (m_created_at m)
     (lit ''stored'') None"

section \<open>The hub\<close>

datatype task =
    EmitAuthor api_message
  | EmitRecipient api_message int pystr
  | EmitDelivery pystr pystr int
  | EmitRead pystr pystr pystr

datatype frame =
    MessageCreated api_message
  | MessageDelivered pystr pystr
  | MessageRead pystr pystr

text \<open>A connection in progress holds the lock: its user, its socket, and the older sockets still to
  be closed.\<close>

record hub =
  eh_connections :: "pystr \<rightharpoonup> nat list"
  eh_sessions :: "(pystr, nat) odict"
  eh_loop :: bool
  eh_internet_delivery :: bool
  eh_router :: router
  eh_connecting :: "(pystr \<times> nat \<times> nat list) option"
  eh_tasks :: "task list"
  eh_sent :: "(nat \<times> pystr \<times> frame) list"
  eh_closed :: "(nat \<times> int) list"

definition new_hub :: "router \<Rightarrow> hub" where
  "new_hub rt = \<lparr>eh_connections = Map.empty, eh_sessions = [], eh_loop = False, eh_internet_delivery = False,
     eh_router = rt\<lparr>rt_websocket_delivery := True\<rparr>, eh_connecting = None, eh_tasks = [], eh_sent = [], eh_closed = []\<rparr>"

abbreviation hub_presence :: "hub \<Rightarrow> presence" where
  "hub_presence h \<equiv> rt_presence (eh_router h)"

definition set_presence :: "presence \<Rightarrow> hub \<Rightarrow> hub" where
  "set_presence users h = h\<lparr>eh_router := (eh_router h)\<lparr>rt_presence := users\<rparr>\<rparr>"

definition sockets_of :: "pystr \<Rightarrow> hub \<Rightarrow> nat list" where
  "sockets_of callsign h = (case eh_connections h callsign of None \<Rightarrow> [] | Some ss \<Rightarrow> ss)"

text \<open>\<open>connect\<close> between its \<open>await\<close> points: the older sockets are taken out, closed one by one
  (whatever closing does), and the new socket becomes the user's session.\<close>

definition connect_start :: "pystr \<Rightarrow> nat \<Rightarrow> hub \<Rightarrow> hub" where
  "connect_start callsign socket h = h\<lparr>eh_connections := (eh_connections h)(callsign := None),
     eh_connecting := Some (callsign, socket, sockets_of callsign h)\<rparr>"

definition connect_close :: "hub \<Rightarrow> hub" where
  "connect_close h =
     (case eh_connecting h of
        Some (callsign, socket, old # rest) \<Rightarrow>
          h\<lparr>eh_sessions := filter (\<lambda>(_, s). s \<noteq> old) (eh_sessions h),
            eh_closed := eh_closed h @ [(old, 4001)],
            eh_connecting := Some (callsign, socket, rest)\<rparr>
      | _ \<Rightarrow> h)"

definition connect_finish :: "pystr \<Rightarrow> rat \<Rightarrow> hub \<Rightarrow> pystr result \<times> hub" where
  "connect_finish session_id now h =
     (case eh_connecting h of
        Some (callsign, socket, []) \<Rightarrow>
          (let h = h\<lparr>eh_connecting := None\<rparr> in
           case set_websocket callsign session_id now (hub_presence h) of
             Inl e \<Rightarrow> (Inl e, h)
           | Inr (_, users) \<Rightarrow>
               (Inr session_id, (set_presence users h)\<lparr>
                  eh_connections := (eh_connections h)(callsign \<mapsto> List.insert socket (sockets_of callsign h)),
                  eh_sessions := AList.update session_id socket (eh_sessions h)\<rparr>))
      | _ \<Rightarrow> (Inr session_id, h))"

text \<open>\<open>connect\<close> when nothing else runs in between.\<close>

definition connect :: "pystr \<Rightarrow> nat \<Rightarrow> pystr \<Rightarrow> rat \<Rightarrow> hub \<Rightarrow> pystr result \<times> hub" where
  "connect callsign socket session_id now h =
     connect_finish session_id now ((connect_close ^^ length (sockets_of callsign h)) (connect_start callsign socket h))"

definition record_internet_activity :: "pystr \<Rightarrow> rat \<Rightarrow> hub \<Rightarrow> unit result \<times> hub" where
  "record_internet_activity callsign now h =
     (case find (\<lambda>(_, s). s \<in> set (sockets_of callsign h)) (eh_sessions h) of
        None \<Rightarrow> (case presence_clear callsign (hub_presence h) of
            Inl e \<Rightarrow> (Inl e, h) | Inr (_, users) \<Rightarrow> (Inr (), set_presence users h))
      | Some (session_id, _) \<Rightarrow> (case set_websocket callsign session_id now (hub_presence h) of
            Inl e \<Rightarrow> (Inl e, h) | Inr (_, users) \<Rightarrow> (Inr (), set_presence users h)))"

definition hub_remove :: "pystr \<Rightarrow> nat \<Rightarrow> pystr option \<Rightarrow> hub \<Rightarrow> unit result \<times> hub" where
  "hub_remove callsign socket session_id h =
     (let left = removeAll socket (sockets_of callsign h);
          h = h\<lparr>eh_connections := (eh_connections h)(callsign := if left = [] then None else Some left)\<rparr>;
          session_id = (case session_id of
              Some sid \<Rightarrow> Some sid | None \<Rightarrow> map_option fst (find (\<lambda>(_, s). s = socket) (eh_sessions h)))
      in case session_id of
           None \<Rightarrow> (Inr (), h)
         | Some sid \<Rightarrow>
             (let h = h\<lparr>eh_sessions := AList.delete sid (eh_sessions h)\<rparr> in
              case clear_websocket callsign sid (hub_presence h) of
                Inl e \<Rightarrow> (Inl e, h)
              | Inr (_, users) \<Rightarrow> (Inr (), set_presence users h)))"

definition schedule :: "task \<Rightarrow> hub \<Rightarrow> hub" where
  "schedule t h = h\<lparr>eh_tasks := eh_tasks h @ [t]\<rparr>"

definition websocket_delivery :: "protocol_object \<Rightarrow> pystr \<Rightarrow> hub \<Rightarrow> (failure + bool) \<times> hub" where
  "websocket_delivery message session_id h =
     (if \<not> eh_loop h \<or> map_of (eh_sessions h) session_id = None then (Inr False, h)
      else (case event_payload message of
          Inl e \<Rightarrow> (Inl e, h)
        | Inr m \<Rightarrow> (Inr True, schedule (EmitRecipient m (m_sequence message) session_id) h)))"

definition authoritative_socket :: "pystr \<Rightarrow> hub \<Rightarrow> (pystr \<times> nat) option result" where
  "authoritative_socket callsign h =
     bindE (presence_get callsign (hub_presence h)) (\<lambda>presence. Inr
       (case Option.bind presence up_session_id of
          None \<Rightarrow> None
        | Some sid \<Rightarrow> (case map_of (eh_sessions h) sid of
            None \<Rightarrow> None
          | Some socket \<Rightarrow> if socket \<in> set (sockets_of callsign h) then Some (sid, socket) else None)))"

text \<open>The listeners of the core.\<close>

definition hub_listener :: "protocol_object \<Rightarrow> hub \<Rightarrow> (failure + unit) \<times> hub" where
  "hub_listener message h =
     (if \<not> eh_loop h then (Inr (), h)
      else (case event_payload message of Inl e \<Rightarrow> (Inl e, h) | Inr m \<Rightarrow> (Inr (), schedule (EmitAuthor m) h)))"

definition delivery_listener :: "stored_message \<Rightarrow> int \<Rightarrow> hub \<Rightarrow> (failure + unit) \<times> hub" where
  "delivery_listener m delivered_at h =
     (if \<not> eh_loop h then (Inr (), h)
      else (case message_id (st_recipient m) (st_sequence m) of
          Inl e \<Rightarrow> (Inl e, h)
        | Inr mid \<Rightarrow> (Inr (), schedule (EmitDelivery (st_author m) mid delivered_at) h)))"

section \<open>Tasks\<close>

text \<open>Sending succeeds, fails as a closed socket does (\<open>OSError\<close>, \<open>RuntimeError\<close>,
  \<open>WebSocketDisconnect\<close>), or raises something else.\<close>

datatype send_outcome = Sent | SendFailed | SendRaised failure

definition raised :: "'a result \<Rightarrow> failure + 'a" where
  "raised r = (case r of Inl e \<Rightarrow> Inl (Raised e) | Inr x \<Rightarrow> Inr x)"

definition emit_to :: "(nat \<Rightarrow> send_outcome) \<Rightarrow> pystr \<Rightarrow> frame \<Rightarrow> hub \<Rightarrow> (failure + unit) \<times> hub" where
  "emit_to sending callsign fr h =
     (case authoritative_socket callsign h of
        Inl e \<Rightarrow> (Inl (Raised e), h)
      | Inr None \<Rightarrow> (Inr (), h)
      | Inr (Some (sid, socket)) \<Rightarrow>
          (case sending socket of
             Sent \<Rightarrow> (Inr (), h\<lparr>eh_sent := eh_sent h @ [(socket, callsign, fr)]\<rparr>)
           | SendFailed \<Rightarrow> apfst raised (hub_remove callsign socket (Some sid) h)
           | SendRaised e \<Rightarrow> (Inl e, h)))"

definition emit_author :: "(nat \<Rightarrow> send_outcome) \<Rightarrow> api_message \<Rightarrow> hub \<Rightarrow> (failure + unit) \<times> hub" where
  "emit_author sending m = emit_to sending (am_from m) (MessageCreated m)"

definition emit_delivery :: "(nat \<Rightarrow> send_outcome) \<Rightarrow> pystr \<Rightarrow> pystr \<Rightarrow> int \<Rightarrow> hub \<Rightarrow> (failure + unit) \<times> hub" where
  "emit_delivery sending callsign mid delivered_at h =
     (case timestamp delivered_at of
        Inl e \<Rightarrow> (Inl e, h) | Inr t \<Rightarrow> emit_to sending callsign (MessageDelivered mid t) h)"

definition emit_read :: "(nat \<Rightarrow> send_outcome) \<Rightarrow> pystr \<Rightarrow> pystr \<Rightarrow> pystr \<Rightarrow> hub \<Rightarrow> (failure + unit) \<times> hub" where
  "emit_read sending callsign reader mid = emit_to sending callsign (MessageRead reader mid)"

text \<open>\<open>emit_recipient\<close>: after the message is sent the delivery is recorded, and its author told. An
  \<open>OSError\<close> of either is taken for one of the recipient's socket.\<close>

definition emit_recipient :: "(nat \<Rightarrow> send_outcome) \<Rightarrow> int \<Rightarrow> api_message \<Rightarrow> int \<Rightarrow> pystr \<Rightarrow> database \<times> hub \<Rightarrow>
    (failure + unit) \<times> database \<times> hub" where
  "emit_recipient sending now m n session_id = (\<lambda>(db, h).
     (case map_of (eh_sessions h) session_id of
        None \<Rightarrow> (Inr (), db, h)
      | Some socket \<Rightarrow>
          (case sending socket of
             SendFailed \<Rightarrow> (case hub_remove (am_to m) socket (Some session_id) h of (r, h) \<Rightarrow> (raised r, db, h))
           | SendRaised e \<Rightarrow> (Inl e, db, h)
           | Sent \<Rightarrow>
               (let h = h\<lparr>eh_sent := eh_sent h @ [(socket, am_to m, MessageCreated m)]\<rparr> in
                if \<not> eh_internet_delivery h then (Inr (), db, h)
                else (case set_delivery (am_to m) n (lit ''internet'') (lit ''delivered'') (Some now) db of
                    (Inl e, db) \<Rightarrow> (Inl (Raised e), db, h)
                  | (Inr recorded, db) \<Rightarrow>
                      if \<not> recorded then (Inr (), db, h)
                      else (case emit_delivery sending (am_from m) (am_id m) now h of
                          (Inl e, h) \<Rightarrow>
                            if e = Unhandled (lit ''OSError'')
                            then (case hub_remove (am_to m) socket (Some session_id) h of (r, h) \<Rightarrow> (raised r, db, h))
                            else (Inl e, db, h)
                        | (Inr _, h) \<Rightarrow> (Inr (), db, h)))))))"

fun run_task :: "(nat \<Rightarrow> send_outcome) \<Rightarrow> int \<Rightarrow> task \<Rightarrow> database \<times> hub \<Rightarrow> (failure + unit) \<times> database \<times> hub" where
  "run_task sending now (EmitAuthor m) (db, h) = (case emit_author sending m h of (r, h) \<Rightarrow> (r, db, h))"
| "run_task sending now (EmitRecipient m n sid) (db, h) = emit_recipient sending now m n sid (db, h)"
| "run_task sending now (EmitDelivery c mid t) (db, h) = (case emit_delivery sending c mid t h of (r, h) \<Rightarrow> (r, db, h))"
| "run_task sending now (EmitRead c reader mid) (db, h) = (case emit_read sending c reader mid h of (r, h) \<Rightarrow> (r, db, h))"

end
