(* ===== verification/Api.thy ===== *)
theory Api
  imports Event_Hub Core Accounts
begin

text \<open>
  The endpoints of \<open>create_api\<close> (\<open>api/app.py\<close>), as functions of what FastAPI has parsed and
  validated. An endpoint gives the body of a successful response or a failure: the API's own error
  with its status, or an exception that is answered with status 500. The state is the core, which
  holds the database, and the event hub.
\<close>

record api =
  ap_core :: server
  ap_hub :: hub

type_synonym 'a response = "failure + 'a"

abbreviation api_db :: "api \<Rightarrow> database" where
  "api_db ap \<equiv> sv_db (ap_core ap)"

text \<open>The hub, the router and the deliveries are registered as listeners of the core under the numbers
  \<open>hub_id\<close>, \<open>router_id\<close> and \<open>hub_id\<close>.\<close>

definition create_api :: "nat \<Rightarrow> nat \<Rightarrow> server \<Rightarrow> hub \<Rightarrow> api" where
  "create_api hub_id router_id core h =
     \<lparr>ap_core = add_delivery_listener hub_id (add_message_listener router_id (add_message_listener hub_id core)),
      ap_hub = h\<lparr>eh_internet_delivery := True\<rparr>\<rparr>"

definition startup :: "api \<Rightarrow> api" where
  "startup ap = ap\<lparr>ap_hub := (ap_hub ap)\<lparr>eh_loop := True\<rparr>\<rparr>"

text \<open>What a push does: to a WebSocket it is scheduled, to APRS it is the adapter's.\<close>

fun push_event :: "push \<Rightarrow> hub \<Rightarrow> hub" where
  "push_event (WebsocketPush m session_id) h = snd (websocket_delivery m session_id h)"
| "push_event (AprsPush _ _) h = h"

text \<open>A listener of the core is called; the core logs what a message listener raises.\<close>

fun notify :: "nat \<Rightarrow> nat \<Rightarrow> event \<Rightarrow> hub \<Rightarrow> hub" where
  "notify hub_id router_id (MessageEvent l m) h =
     (if l = hub_id then snd (hub_listener m h)
      else if l = router_id
      then (case route m (eh_router h) of Inl _ \<Rightarrow> h | Inr (_, pushes) \<Rightarrow> fold push_event pushes h)
      else h)"
| "notify hub_id router_id (DeliveryEvent l m t) h = (if l = hub_id then snd (delivery_listener m t h) else h)"

section \<open>Authentication\<close>

text \<open>\<open>scheme.lower() == "bearer"\<close>; no other letter has a lower case in this word.\<close>

definition is_bearer :: "pystr \<Rightarrow> bool" where
  "is_bearer scheme \<longleftrightarrow> map (\<lambda>c. if 65 \<le> c \<and> c < 91 then c + 32 else c) scheme = lit ''bearer''"

definition user :: "crypto \<Rightarrow> signer \<Rightarrow> int \<Rightarrow> (pystr \<times> pystr) option \<Rightarrow> pystr response" where
  "user cr sg now credentials =
     (case credentials of
        Some (scheme, token) \<Rightarrow>
          if is_bearer scheme then identity cr sg now token
          else Inl (APIError 401 (lit ''invalid_token'') (lit ''Authentication required.'') [])
      | None \<Rightarrow> Inl (APIError 401 (lit ''invalid_token'') (lit ''Authentication required.'') []))"

text \<open>A request that needs a user: the endpoint runs as that user, and after a success the middleware
  records the activity.\<close>

definition as_user ::
  "crypto \<Rightarrow> signer \<Rightarrow> int \<Rightarrow> rat \<Rightarrow> (pystr \<times> pystr) option \<Rightarrow> (pystr \<Rightarrow> api \<Rightarrow> 'a response \<times> api) \<Rightarrow> api \<Rightarrow> 'a response \<times> api" where
  "as_user cr sg now tick credentials endpoint ap =
     (case user cr sg now credentials of
        Inl e \<Rightarrow> (Inl e, ap)
      | Inr callsign \<Rightarrow>
          (case endpoint callsign ap of
             (Inl e, ap) \<Rightarrow> (Inl e, ap)
           | (Inr v, ap) \<Rightarrow>
               (case record_internet_activity callsign tick (ap_hub ap) of
                  (Inl e, h) \<Rightarrow> (Inl (Raised e), ap\<lparr>ap_hub := h\<rparr>)
                | (Inr _, h) \<Rightarrow> (Inr v, ap\<lparr>ap_hub := h\<rparr>))))"

text \<open>The status and error body of the exception handlers.\<close>

fun failure_response :: "failure \<Rightarrow> int \<times> pystr \<times> pystr \<times> (pystr \<times> pystr) list" where
  "failure_response (APIError status code message details) = (status, code, message, details)"
| "failure_response _ = (500, lit ''internal_error'', lit ''Internal server error.'', [])"

definition invalid_request :: "(pystr \<times> pystr) list \<Rightarrow> failure" where
  "invalid_request details = APIError 422 (lit ''validation_error'') (lit ''Invalid request.'') details"

section \<open>Endpoints\<close>

definition status_endpoint :: pystr where
  "status_endpoint = lit ''ok''"

definition login :: "derivation \<Rightarrow> crypto \<Rightarrow> signer \<Rightarrow> int \<Rightarrow> pystr \<Rightarrow> pystr \<Rightarrow> api \<Rightarrow> (pystr \<times> pystr) response" where
  "login kdf cr sg now callsign password ap =
     (case authenticate kdf (PStr callsign) (PStr password) (api_db ap) of
        Inl (InvalidCredentialsError _) \<Rightarrow>
          Inl (APIError 401 (lit ''invalid_credentials'') (lit ''Invalid callsign or password.'') [])
      | Inl e \<Rightarrow> Inl (Raised e)
      | Inr callsign \<Rightarrow> Inr (access cr sg now callsign, callsign))"

definition me :: "pystr \<Rightarrow> api \<Rightarrow> pystr response \<times> api" where
  "me callsign ap = (Inr callsign, ap)"

definition project :: "stored_message \<Rightarrow> database \<Rightarrow> api_message response" where
  "project m db = bindE (raised (message_state m db)) (\<lambda>(status, delivered_at). message_view m status delivered_at)"

definition hexdigest :: "bytes \<Rightarrow> pystr" where
  "hexdigest bs = concat (map (\<lambda>b. [hex_digit (of_byte b div 16), hex_digit (of_byte b mod 16)]) bs)"

definition request_digest :: "crypto \<Rightarrow> pystr \<Rightarrow> pystr \<Rightarrow> pystr" where
  "request_digest cr recipient body = hexdigest (cr_sha256 cr
     (map byte_of (json_dumps (lit '', '') (lit '': '') [(lit ''to'', Inr recipient), (lit ''body'', Inr body)])))"

definition send ::
  "crypto \<Rightarrow> nat \<Rightarrow> nat \<Rightarrow> int \<Rightarrow> pyval \<Rightarrow> pystr \<Rightarrow> pystr \<Rightarrow> pystr \<Rightarrow> pystr \<Rightarrow> api \<Rightarrow> api_message response \<times> api" where
  "send cr hub_id router_id now clock to body idempotency_key callsign ap =
     (case normalize_callsign (PStr to) (lit ''callsign'') of
        Inl e \<Rightarrow>
          if is_InvalidFieldError e then (Inl (invalid_request [(lit ''to'', exn_str e)]), ap) else (Inl (Raised e), ap)
      | Inr recipient \<Rightarrow>
          if \<not> (1 \<le> length idempotency_key \<and> length idempotency_key \<le> 128)
          then (Inl (invalid_request [(lit ''Idempotency-Key'', lit ''Must contain 1 to 128 characters.'')]), ap)
          else (case send_message (PStr callsign) (PStr recipient) (PStr body) (PInt now) (Some idempotency_key)
                  (request_digest cr recipient body) clock (ap_core ap) of
              (Inl e, events, sv) \<Rightarrow>
                (let ap = \<lparr>ap_core = sv, ap_hub = fold (notify hub_id router_id) events (ap_hub ap)\<rparr> in
                 if is_InvalidFieldError e
                 then (Inl (APIError 422
                        (case e of FieldTooLongError field _ _ \<Rightarrow>
                            if field = lit ''body'' then lit ''message_too_long'' else lit ''validation_error''
                         | _ \<Rightarrow> lit ''validation_error'')
                        (lit ''Invalid request.'') [(lit ''request'', exn_str e)]), ap)
                 else (case e of
                     IdempotencyConflictError _ \<Rightarrow>
                       (Inl (APIError 409 (lit ''conflict'') (lit ''Idempotency key was used for a different request.'') []), ap)
                   | _ \<Rightarrow> (Inl (Raised e), ap)))
            | (Inr acceptance, events, sv) \<Rightarrow>
                (project (ma_message acceptance) (sv_db sv),
                 \<lparr>ap_core = sv, ap_hub = fold (notify hub_id router_id) events (ap_hub ap)\<rparr>)))"

definition list_messages ::
  "crypto \<Rightarrow> signer \<Rightarrow> int \<Rightarrow> pystr option \<Rightarrow> pystr option \<Rightarrow> pystr \<Rightarrow> api \<Rightarrow>
     (api_message list \<times> pystr option) response" where
  "list_messages cr sg limit page_token peer callsign ap =
     bindE (case page_token of None \<Rightarrow> Inr 0 | Some token \<Rightarrow> cursor_value cr sg token callsign (lit ''page'')) (\<lambda>after.
     bindE (case peer of
         None \<Rightarrow> Inr None
       | Some p \<Rightarrow> (case normalize_callsign (PStr p) (lit ''callsign'') of
           Inl e \<Rightarrow> if is_InvalidFieldError e then Inl (invalid_request [(lit ''with'', lit ''Invalid callsign.'')]) else Inl (Raised e)
         | Inr c \<Rightarrow> Inr (Some c))) (\<lambda>peer.
     bindE (raised (api_list callsign after limit peer (api_db ap))) (\<lambda>(values, more).
     bindE (mapE (\<lambda>m. project m (api_db ap)) values) (\<lambda>views.
       Inr (views, if more \<and> values \<noteq> []
                   then Some (cursor_token cr sg callsign (st_api_sequence (last values)) (lit ''page'')) else None)))))"

definition get_message_endpoint :: "pystr \<Rightarrow> pystr \<Rightarrow> api \<Rightarrow> api_message response" where
  "get_message_endpoint mid callsign ap =
     bindE (parse_message_id mid) (\<lambda>(recipient, n).
     bindE (raised (get_message recipient n (api_db ap))) (\<lambda>found.
     case found of
       None \<Rightarrow> Inl message_not_found
     | Some m \<Rightarrow>
         if callsign \<noteq> st_author m \<and> callsign \<noteq> st_recipient m then Inl message_not_found
         else project m (api_db ap)))"

record conversation_view =
  vw_peer :: sqlval
  vw_last_message :: api_message
  vw_unread_count :: int
  vw_last_read_sequence :: int

definition conversations_endpoint :: "pystr \<Rightarrow> api \<Rightarrow> conversation_view list response" where
  "conversations_endpoint callsign ap =
     bindE (raised (conversations callsign (api_db ap)))
       (mapE (\<lambda>cv. bindE (project (cv_last_message cv) (api_db ap)) (\<lambda>m.
          Inr \<lparr>vw_peer = cv_peer cv, vw_last_message = m, vw_unread_count = cv_unread_count cv,
               vw_last_read_sequence = cv_last_read_sequence cv\<rparr>)))"

text \<open>The response of \<open>mark_read\<close>: the peer and the cursor; the unread count is always 0.\<close>

definition mark_read :: "(nat \<Rightarrow> send_outcome) \<Rightarrow> pystr \<Rightarrow> pystr \<Rightarrow> api \<Rightarrow> (pystr \<times> int) response \<times> api" where
  "mark_read sending peer callsign ap =
     (case normalize_callsign (PStr peer) (lit ''callsign'') of
        Inl e \<Rightarrow>
          (Inl (if is_InvalidFieldError e
            then APIError 422 (lit ''validation_error'') (lit ''Invalid peer callsign.'') [] else Raised e), ap)
      | Inr normalized \<Rightarrow>
          (case advance_conversation_read callsign normalized (api_db ap) of
             (Inl e, db) \<Rightarrow> (Inl (Raised e), ap\<lparr>ap_core := (ap_core ap)\<lparr>sv_db := db\<rparr>\<rparr>)
           | (Inr (n, advanced), db) \<Rightarrow>
               (let ap = ap\<lparr>ap_core := (ap_core ap)\<lparr>sv_db := db\<rparr>\<rparr> in
                if \<not> advanced then (Inr (normalized, n), ap)
                else (case message_id callsign n of
                    Inl e \<Rightarrow> (Inl e, ap)
                  | Inr mid \<Rightarrow> (case emit_read sending normalized callsign mid (ap_hub ap) of
                      (Inl e, h) \<Rightarrow> (Inl e, ap\<lparr>ap_hub := h\<rparr>)
                    | (Inr _, h) \<Rightarrow> (Inr (normalized, n), ap\<lparr>ap_hub := h\<rparr>))))))"

text \<open>\<open>sync\<close>: the high-water mark is read before the messages.\<close>

definition sync_response ::
  "crypto \<Rightarrow> signer \<Rightarrow> pystr \<Rightarrow> stored_message list \<Rightarrow> int \<Rightarrow> database \<Rightarrow> (api_message list \<times> pystr) response" where
  "sync_response cr sg callsign values high db =
     bindE (mapE (\<lambda>m. project m db) values) (\<lambda>views.
       Inr (views, cursor_token cr sg callsign (if values = [] then high else st_api_sequence (last values)) (lit ''sync'')))"

definition sync :: "crypto \<Rightarrow> signer \<Rightarrow> pystr option \<Rightarrow> pystr \<Rightarrow> database \<Rightarrow> database \<Rightarrow> (api_message list \<times> pystr) response" where
  "sync cr sg page_token callsign db_high db =
     bindE (case page_token of None \<Rightarrow> Inr 0 | Some token \<Rightarrow> cursor_value cr sg token callsign (lit ''sync'')) (\<lambda>after.
     bindE (raised (api_high_water db_high)) (\<lambda>high.
     if after > high then Inl invalid_cursor
     else bindE (raised (api_list callsign after 200 None db)) (\<lambda>(values, _).
       sync_response cr sg callsign values high db)))"

text \<open>The WebSocket: its user, or the code it is closed with.\<close>

definition websocket_token :: "pystr option \<Rightarrow> pystr \<Rightarrow> pystr" where
  "websocket_token token authorization =
     (case token of
        Some t \<Rightarrow> t
      | None \<Rightarrow> if take 7 authorization = lit ''Bearer '' then drop 7 authorization else [])"

definition websocket_open ::
  "crypto \<Rightarrow> signer \<Rightarrow> int \<Rightarrow> rat \<Rightarrow> pystr option \<Rightarrow> pystr \<Rightarrow> nat \<Rightarrow> pystr \<Rightarrow> hub \<Rightarrow> (failure + pystr option) \<times> hub" where
  "websocket_open cr sg now tick token authorization socket session_id h =
     (case identity cr sg now (websocket_token token authorization) of
        Inl (APIError _ _ _ _) \<Rightarrow> (Inr None, h\<lparr>eh_closed := eh_closed h @ [(socket, 4401)]\<rparr>)
      | Inl e \<Rightarrow> (Inl e, h)
      | Inr callsign \<Rightarrow> (case connect callsign socket session_id tick h of
          (Inl e, h) \<Rightarrow> (Inl (Raised e), h) | (Inr sid, h) \<Rightarrow> (Inr (Some sid), h)))"

text \<open>Its end, however it comes: the session is removed.\<close>

definition websocket_close :: "pystr \<Rightarrow> nat \<Rightarrow> pystr \<Rightarrow> hub \<Rightarrow> unit result \<times> hub" where
  "websocket_close callsign socket session_id = hub_remove callsign socket (Some session_id)"

end
