(* ===== verification/Api_Sync.thy ===== *)
theory Api_Sync
  imports Api Store_Properties
begin

text \<open>
  Synchronisation over the API. A call reads the high-water mark and then one page, and an empty
  page moves the cursor to the mark. The log contract of \<open>Paging\<close> is extended to such reads; the
  endpoint, with its tokens, is then shown to be one.
\<close>

section \<open>Pages with a high-water mark\<close>

text \<open>Each read has the state of its mark and the state of its page.\<close>

fun flat :: "('s \<times> 's) list \<Rightarrow> 's list" where
  "flat [] = []"
| "flat ((h, s) # ps) = h # s # flat ps"

fun read_snapshots :: "('s \<Rightarrow> int \<Rightarrow> 'e + ('a list \<times> int \<times> bool)) \<Rightarrow> ('s \<Rightarrow> int) \<Rightarrow> ('s \<times> 's) list \<Rightarrow> int \<Rightarrow>
    'e + ('a list list \<times> int)" where
  "read_snapshots fetch high [] since = Inr ([], since)"
| "read_snapshots fetch high ((h, s) # ps) since =
     (case fetch s since of
        Inl e \<Rightarrow> Inl e
      | Inr (items, nxt, _) \<Rightarrow>
          (case read_snapshots fetch high ps (if items = [] then high h else nxt) of
             Inl e \<Rightarrow> Inl e | Inr (pages, c) \<Rightarrow> Inr (items # pages, c)))"

lemma flat_Nil [simp]: "flat ps = [] \<longleftrightarrow> ps = []"
  by (cases ps) auto

context growing_log
begin

lemma snapshot:
  assumes "invar h" "h = s \<or> later h s" "0 \<le> since" "since \<le> high h" "1 \<le> limit" "limit \<le> max_limit"
  obtains items nxt mr c where "fetch s since limit = Inr (items, nxt, mr)" "c = (if items = [] then high h else nxt)"
    "since \<le> c" "c \<le> high s" "items = filter (\<lambda>x. since < key x \<and> key x \<le> c) (log s)" "invar s"
    "length items = limit \<or> filter (\<lambda>x. c < key x) (log s) = []"
proof -
  have s: "invar s" "high h \<le> high s" using assms(1,2) later_invar later_high by auto
  then have s: "invar s" "since \<le> high s" "high h \<le> high s" using assms(4) by linarith+
  obtain items nxt mr where p: "page_of key (log s) since limit = (items, nxt, mr)" by (metis prod_cases3)
  with fetch_page [OF s(1) assms(3) s(2) assms(5,6)] have f: "fetch s since limit = Inr (items, nxt, mr)" by simp
  note sp = page_of_split [OF log_increasing [OF s(1)] p] and w = page_of_window [OF log_increasing [OF s(1)] p]
  define c where "c = (if items = [] then high h else nxt)"
  have n: "nxt \<le> high s" using fetch_next_cursor [OF s(1) assms(3) s(2) assms(5,6) f] by simp
  have e: "filter (\<lambda>x. since < key x) (log s) = []" if "items = []"
    using sp(1,2,4) that assms(5) by auto
  have full: "length items = limit \<or> \<not> mr" using p by (auto simp: page_of_def Let_def)
  show ?thesis
  proof (rule that [OF f c_def])
    show "since \<le> c" "c \<le> high s" using assms(4) s(3) sp(5) n by (auto simp: c_def)
    show "items = filter (\<lambda>x. since < key x \<and> key x \<le> c) (log s)"
      using w e by (auto simp: c_def filter_empty_conv)
    show "invar s" by (rule s(1))
    show "length items = limit \<or> filter (\<lambda>x. c < key x) (log s) = []"
    proof (cases "items = []")
      case True
      then show ?thesis using e assms(4) by (fastforce simp: c_def filter_empty_conv)
    qed (use full sp(2) in \<open>auto simp: c_def\<close>)
  qed
qed

theorem interleaved_snapshots:
  assumes "invar h" "chained later (flat ((h, s) # ps))" "0 \<le> since" "since \<le> high h" "1 \<le> limit" "limit \<le> max_limit"
  shows "\<exists>pages c. read_snapshots (\<lambda>s n. fetch s n limit) high ((h, s) # ps) since = Inr (pages, c) \<and> since \<le> c
    \<and> c \<le> high (last (flat ((h, s) # ps))) \<and> pages \<noteq> []
    \<and> concat pages = filter (\<lambda>x. since < key x \<and> key x \<le> c) (log (last (flat ((h, s) # ps))))
    \<and> (length (last pages) = limit \<or> filter (\<lambda>x. c < key x) (log (last (flat ((h, s) # ps)))) = [])"
  using assms(1-4)
proof (induction ps arbitrary: h s since)
  case Nil
  then have "h = s \<or> later h s" by simp
  from snapshot [OF Nil(1) this Nil(3,4) assms(5,6)] show ?case by (fastforce simp: Let_def)
next
  case (Cons p ps)
  obtain h' s' where p: "p = (h', s')" by fastforce
  have l: "later h s" "later s h'" "chained later (flat ((h', s') # ps))" using Cons.prems(2) p by auto
  obtain items nxt mr c where f: "fetch s since limit = Inr (items, nxt, mr)" "c = (if items = [] then high h else nxt)"
      "since \<le> c" "c \<le> high s" "items = filter (\<lambda>x. since < key x \<and> key x \<le> c) (log s)" "invar s"
      "length items = limit \<or> filter (\<lambda>x. c < key x) (log s) = []"
    by (rule snapshot [OF Cons.prems(1) disjI2 [OF l(1)] Cons.prems(3,4) assms(5,6)])
  have i: "invar h'" "c \<le> high h'" "0 \<le> c" 
    using later_invar [OF f(6) l(2)] order_trans [OF f(4) later_high [OF f(6) l(2)]] order_trans [OF Cons.prems(3) f(3)] .
  let ?last = "last (flat ((h', s') # ps))"
  from Cons.IH [OF i(1) l(3) i(3,2)] obtain pages d where
    r: "read_snapshots (\<lambda>s n. fetch s n limit) high ((h', s') # ps) c = Inr (pages, d)" "c \<le> d" "d \<le> high ?last" "pages \<noteq> []"
      "concat pages = filter (\<lambda>x. c < key x \<and> key x \<le> d) (log ?last)"
      "length (last pages) = limit \<or> filter (\<lambda>x. d < key x) (log ?last) = []" by blast
  have chain: "chained later (s # flat ((h', s') # ps))" using l by simp
  have "items = filter (\<lambda>x. since < key x \<and> key x \<le> c) (log ?last)"
    using window_last [OF f(6,4) chain, of since] f(5) by simp
  moreover have "increasing key (log ?last)"
    using invar_last [OF f(6) chain] by (intro log_increasing) simp
  ultimately have "concat (items # pages) = filter (\<lambda>x. since < key x \<and> key x \<le> d) (log ?last)"
    using window_split [of key "log ?last" since c d] f(3) r(2,5) by simp
  moreover have "read_snapshots (\<lambda>s n. fetch s n limit) high ((h, s) # p # ps) since = Inr (items # pages, d)"
    using r(1) by (simp only: read_snapshots.simps f(1) f(2) [symmetric] p sum.case prod.case)
  moreover have "last (flat ((h, s) # p # ps)) = ?last" by (simp add: p)
  ultimately show ?case using r(3,4,6) order_trans [OF f(3) r(2)]
    by (intro exI [of _ "items # pages"] exI [of _ d]) (simp del: flat.simps read_snapshots.simps concat.simps)
qed

end

section \<open>The API's log grows\<close>

definition api_later :: "database \<Rightarrow> database \<Rightarrow> bool" where
  "api_later db db' \<longleftrightarrow> store_steps db db' \<and> message_count db' < 2 ^ 63"

interpretation gl: growing_log "api_fetch callsign peer" "api_log callsign peer" st_api_sequence message_count
  "api_reader callsign peer" 200 api_later for callsign peer
proof
  fix s s' assume a: "api_reader callsign peer s" "api_later s s'"
  then have g: "grows s s'" and ok: "stores_ok s" "stores_ok s'"
    using steps_grow steps_ok by (auto simp: api_reader_def api_later_def)
  then obtain ms where ms: "messages s' = messages s @ ms" by (auto simp: grows_def)
  then show "message_count s \<le> message_count s'" by (simp add: message_count_def)
  show "api_reader callsign peer s'" using a ok by (simp add: api_reader_def api_later_def)
  have k: "map mr_api (messages s') = [1..message_count s']" "map mr_api (messages s) = [1..message_count s]"
    using ok by (auto simp: stores_ok_def db_ok_def messages_ok_def)
  have "message_count s < mr_api r" if r: "r \<in> set ms" for r
  proof -
    obtain i where i: "i < length ms" "r = ms ! i" using r by (auto simp: in_set_conv_nth)
    then have "mr_api r = map mr_api (messages s') ! (length (messages s) + i)" using ms by (simp add: nth_append)
    also have "\<dots> = [1..message_count s'] ! (length (messages s) + i)" by (simp only: k)
    also have "\<dots> = 1 + int (length (messages s) + i)"
      using i ms by (intro nth_upto) (simp add: message_count_def)
    finally show ?thesis by (simp add: message_count_def)
  qed
  then show "\<exists>xs. api_log callsign peer s' = api_log callsign peer s @ xs \<and> (\<forall>x \<in> set xs. message_count s < st_api_sequence x)"
    using ms by (auto simp: api_log_def intro!: exI [of _ "map (view True) (filter _ ms)"])
qed

section \<open>Messages of a well-formed database are shown\<close>

text \<open>Deliveries at times that \<open>gmtime\<close> can represent.\<close>

definition dated :: "database \<Rightarrow> bool" where
  "dated db \<longleftrightarrow> (\<forall>d \<in> set (deliveries db). case dr_delivered_at d of
     None \<Rightarrow> True | Some t \<Rightarrow> 0 \<le> t \<and> t \<le> 67768036191676799)"

lemma timestamp_ok: "0 \<le> t \<Longrightarrow> t \<le> 67768036191676799 \<Longrightarrow> \<exists>s. timestamp t = Inr s"
  by (simp add: timestamp_def Let_def split: prod.split)

lemma utf8_encode_append: "utf8_encode (s @ t) =
    (case (utf8_encode s, utf8_encode t) of (Some a, Some b) \<Rightarrow> Some (a @ b) | _ \<Rightarrow> None)"
  by (induction s) (auto split: option.split)

lemma dec_ascii: "ascii (dec n)"
  using dec_nat_digits by (fastforce simp: ascii_def dec_def is_digit_def)

lemma message_id_ok: "utf8_encode c \<noteq> None \<Longrightarrow> \<exists>mid. message_id c n = Inr mid"
  using utf8_encode_ascii [OF dec_ascii, of n] lit_utf8 [of "'':''"]
  by (auto simp: message_id_def utf8_encode_append ascii_def lit_def split: option.split)

lemma max_delivered_mem: "max_delivered_at rows = Some t \<Longrightarrow> \<exists>d \<in> set rows. dr_delivered_at d = Some t"
proof -
  assume a: "max_delivered_at rows = Some t"
  let ?ts = "List.map_filter dr_delivered_at rows"
  have "?ts \<noteq> []" "t = Max (set ?ts)" using a by (auto simp: max_delivered_at_def Let_def split: if_splits)
  then have "t \<in> set ?ts" by simp
  then show ?thesis by (force simp: map_filter_def)
qed

text \<open>A view shows a message, with some delivery status.\<close>

definition shows_message :: "api_message \<Rightarrow> stored_message \<Rightarrow> bool" where
  "shows_message v m \<longleftrightarrow> message_view m (am_delivery_status v) None = Inr (v\<lparr>am_delivered_at := None\<rparr>)"

lemma project_ok:
  assumes "messages_ok db" "dated db" "r \<in> set (messages db)"
  shows "\<exists>v. project (view True r) db = Inr v \<and> shows_message v (view True r)"
proof -
  let ?m = "view True r"
  have t: "well_typed r" using assms(1,3) by (simp add: messages_ok_def)
  then obtain p a k b where r: "mr_recipient r = SText p" "mr_author r = SText a" "mr_accepted r = SInt k" "mr_body r = SBlob b"
      "utf8_encode p \<noteq> None" "utf8_encode a \<noteq> None" "1 \<le> mr_sequence r" "mr_sequence r \<le> MAX_U32"
      "0 \<le> mr_created r" "mr_created r \<le> MAX_U32"
    by (auto simp: well_typed_def message_check_def split: sqlval.splits)
  then have m: "st_recipient ?m = p" "st_author ?m = a" "st_sequence ?m = mr_sequence r" "st_created_at ?m = mr_created r"
    by (simp_all add: view_def)
  have "bind_texts [p, a] = Inr ()" "bind_int (mr_sequence r) = Inr ()" using r by auto
  then have "\<exists>st t. message_state ?m db = Inr (st, t) \<and>
      (t = None \<or> t = max_delivered_at (filter (\<lambda>d. dr_recipient d = p \<and> dr_sequence d = mr_sequence r
         \<and> dr_status d = lit ''delivered'') (deliveries db)))"
    unfolding message_state_def m by (simp add: Let_def del: bind_texts_Inr bind_int_Inr split: option.split)
  then obtain st t where st: "message_state ?m db = Inr (st, t)"
      "t = None \<or> t = max_delivered_at (filter (\<lambda>d. dr_recipient d = p \<and> dr_sequence d = mr_sequence r
         \<and> dr_status d = lit ''delivered'') (deliveries db))" by blast
  have "\<exists>s. (case t of None \<Rightarrow> Inr None | Some t \<Rightarrow> bindE (timestamp t) (\<lambda>s. Inr (Some s))) = (Inr s :: failure + _)"
  proof (cases t)
    case (Some u)
    with st(2) have "max_delivered_at (filter (\<lambda>d. dr_recipient d = p \<and> dr_sequence d = mr_sequence r
         \<and> dr_status d = lit ''delivered'') (deliveries db)) = Some u" by simp
    from max_delivered_mem [OF this] obtain d where "d \<in> set (deliveries db)" "dr_delivered_at d = Some u" by auto
    then have "0 \<le> u \<and> u \<le> 67768036191676799" using assms(2) by (force simp: dated_def)
    then show ?thesis using timestamp_ok Some by fastforce
  qed simp
  moreover have "\<exists>s. timestamp (mr_created r) = Inr s" using r(9,10) by (intro timestamp_ok) auto
  moreover obtain mid where "message_id p (mr_sequence r) = Inr mid" using message_id_ok r(5) by blast
  ultimately show ?thesis using m st(1)
    by (auto simp: project_def raised_def shows_message_def message_view_def message_payload_def)
qed

lemma project_all:
  assumes "messages_ok db" "dated db" "set ms \<subseteq> view True ` set (messages db)"
  shows "\<exists>vs. mapE (\<lambda>m. project m db) ms = Inr vs \<and> list_all2 shows_message vs ms"
  using assms(3)
proof (induction ms)
  case (Cons m ms)
  then obtain r where "r \<in> set (messages db)" "m = view True r" by auto
  then show ?case using Cons project_ok [OF assms(1,2), of r] by auto
qed simp

section \<open>The endpoint reads a snapshot\<close>

text \<open>A client that synchronises again and again, each time with the token of the time before.\<close>

fun sync_all :: "crypto \<Rightarrow> signer \<Rightarrow> pystr \<Rightarrow> (database \<times> database) list \<Rightarrow> pystr option \<Rightarrow>
    failure + (api_message list list \<times> pystr option)" where
  "sync_all cr sg callsign [] token = Inr ([], token)"
| "sync_all cr sg callsign ((h, db) # ps) token =
     bindE (sync cr sg token callsign h db) (\<lambda>(views, next_token).
     bindE (sync_all cr sg callsign ps (Some next_token)) (\<lambda>(pages, t). Inr (views # pages, t)))"

lemma sync_run:
  assumes "api_reader c None h" "h = db \<or> api_later h db" "dated db" "callsign_ok c" "0 \<le> since" "since \<le> message_count h"
    "api_fetch c None db since 200 = Inr (items, nxt, mr)"
  shows "\<exists>vs. sync cr sg (Some (cursor_token cr sg c since (lit ''sync''))) c h db =
      Inr (vs, cursor_token cr sg c (if items = [] then message_count h else nxt) (lit ''sync''))
    \<and> (since = 0 \<longrightarrow> sync cr sg None c h db = sync cr sg (Some (cursor_token cr sg c since (lit ''sync''))) c h db)
    \<and> list_all2 shows_message vs items"
proof -
  have ok: "messages_ok h" "message_count h < 2 ^ 63" using assms(1) by (auto simp: api_reader_def stores_ok_def db_ok_def)
  have r: "api_reader c None db" "since \<le> message_count db"
    using assms(1,2,6) gl.later_invar gl.later_high order_trans by blast+
  then have "page_of st_api_sequence (api_log c None db) since 200 = (items, nxt, mr)"
    using al.fetch_page [OF r(1) assms(5) r(2), of 200] assms(7) by simp
  then have sub: "set items \<subseteq> view True ` set (messages db)"
    by (auto simp: page_of_def Let_def api_log_def dest!: in_set_takeD)
  have "messages_ok db" using r(1) by (simp add: api_reader_def stores_ok_def db_ok_def)
  then obtain vs where vs: "mapE (\<lambda>m. project m db) items = Inr vs" "list_all2 shows_message vs items"
    using project_all [OF _ assms(3) sub] by blast
  have "api_list c since 200 None db = Inr (items, mr)" and n: "nxt = next_cursor st_api_sequence since items"
    using assms(7) by (auto simp: api_fetch_def split: sum.splits)
  moreover have "api_high_water h = Inr (message_count h)" using ok(1) by (simp add: api_high_water_def messages_ok_def fetch_first_def)
  moreover have "cursor_value cr sg (cursor_token cr sg c since (lit ''sync'')) c (lit ''sync'') = Inr since"
    using assms(4-6) ok(2) by (subst cursor_value_cursor) (auto simp: simple_lit callsign_simple)
  ultimately show ?thesis using vs assms(6)
    by (auto simp: sync_def sync_response_def raised_def next_cursor_def)
qed

lemma sync_all_run:
  assumes "api_reader c None h" "chained api_later (flat ((h, db) # ps))" "\<forall>(h, db) \<in> set ((h, db) # ps). dated db" "callsign_ok c"
    "0 \<le> since" "since \<le> message_count h"
    "read_snapshots (\<lambda>s n. api_fetch c None s n 200) message_count ((h, db) # ps) since = Inr (pages, n)"
  shows "\<exists>vs. sync_all cr sg c ((h, db) # ps) (Some (cursor_token cr sg c since (lit ''sync''))) =
      Inr (vs, Some (cursor_token cr sg c n (lit ''sync'')))
    \<and> (since = 0 \<longrightarrow> sync_all cr sg c ((h, db) # ps) None =
        sync_all cr sg c ((h, db) # ps) (Some (cursor_token cr sg c since (lit ''sync''))))
    \<and> list_all2 (list_all2 shows_message) vs pages"
  using assms(1-3,5-7)
proof (induction ps arbitrary: h db since pages)
  case Nil
  then have l: "api_later h db" by simp
  obtain items nxt mr where f: "api_fetch c None db since 200 = Inr (items, nxt, mr)"
      "pages = [items]" "n = (if items = [] then message_count h else nxt)"
    using Nil.prems(6) by (auto split: sum.splits)
  have "dated db" using Nil.prems(3) by simp
  from sync_run [OF Nil.prems(1) disjI2 [OF l] this assms(4) Nil.prems(4,5) f(1), of cr sg] f(2,3)
  show ?case by auto
next
  case (Cons p ps)
  obtain h' db' where p: "p = (h', db')" by fastforce
  have l: "api_later h db" "api_later db h'" "chained api_later (flat ((h', db') # ps))" using Cons.prems(2) p by auto
  obtain items nxt mr qs where f: "api_fetch c None db since 200 = Inr (items, nxt, mr)" "pages = items # qs"
      "read_snapshots (\<lambda>s n. api_fetch c None s n 200) message_count (p # ps)
         (if items = [] then message_count h else nxt) = Inr (qs, n)"
    using Cons.prems(6) by (auto simp del: read_snapshots.simps(2) simp: read_snapshots.simps(2) [of _ _ h] split: sum.splits)
  define k where "k = (if items = [] then message_count h else nxt)"
  have d: "dated db" "\<forall>(h, db) \<in> set ((h', db') # ps). dated db" using Cons.prems(3) p by auto
  have lim: "(1 :: nat) \<le> 200" "(200 :: nat) \<le> 200" by simp_all
  obtain its nx m2 c2 where s: "api_fetch c None db since 200 = Inr (its, nx, m2)" "c2 = (if its = [] then message_count h else nx)"
      "since \<le> c2" "c2 \<le> message_count db"
      "its = filter (\<lambda>x. since < st_api_sequence x \<and> st_api_sequence x \<le> c2) (api_log c None db)" and r: "api_reader c None db"
      and "length its = 200 \<or> filter (\<lambda>x. c2 < st_api_sequence x) (api_log c None db) = []"
    by (rule gl.snapshot [OF Cons.prems(1) disjI2 [OF l(1)] Cons.prems(4,5) lim])
  have "c2 = k" using f(1) s(1,2) by (simp add: k_def)
  then have k: "since \<le> k" "k \<le> message_count db" using s(3,4) by simp_all
  have r': "api_reader c None h'" "0 \<le> k" "k \<le> message_count h'"
    using gl.later_invar [OF r l(2)] gl.later_high [OF r l(2)] k Cons.prems(4) by auto
  obtain vs where vs: "sync_all cr sg c (p # ps) (Some (cursor_token cr sg c k (lit ''sync''))) =
        Inr (vs, Some (cursor_token cr sg c n (lit ''sync'')))" "list_all2 (list_all2 shows_message) vs qs"
    using Cons.IH [OF r'(1) l(3) d(2) r'(2,3)] f(3) p by (auto simp: k_def [symmetric] simp del: sync_all.simps read_snapshots.simps)
  from sync_run [OF Cons.prems(1) disjI2 [OF l(1)] d(1) assms(4) Cons.prems(4,5) f(1), of cr sg] obtain v where
    v: "sync cr sg (Some (cursor_token cr sg c since (lit ''sync''))) c h db = Inr (v, cursor_token cr sg c k (lit ''sync''))"
      "since = 0 \<longrightarrow> sync cr sg None c h db = sync cr sg (Some (cursor_token cr sg c since (lit ''sync''))) c h db"
      "list_all2 shows_message v items" by (auto simp: k_def)
  show ?case using v vs f(2) by (auto simp del: sync_all.simps(2) simp: sync_all.simps(2) [of _ _ _ h db])
qed

end
