(* ===== verification/Hub_Invariant.thy ===== *)
theory Hub_Invariant
  imports Event_Hub
begin

text \<open>
  The event hub as a state machine: connections, losses of sockets, HTTP activity, deliveries and
  the tasks of the event loop in any order. \<open>own\<close> is the user a socket has authenticated as and
  \<open>sess\<close> the socket a session identifier is made for, one identifier for each socket.
\<close>

definition only :: "(pystr \<Rightarrow> nat) \<Rightarrow> pystr \<Rightarrow> bool" where
  "only sess sid \<longleftrightarrow> (\<forall>sid'. sess sid' = sess sid \<longrightarrow> sid' = sid)"

inductive hub_step :: "(nat \<Rightarrow> pystr) \<Rightarrow> (pystr \<Rightarrow> nat) \<Rightarrow> hub \<Rightarrow> hub \<Rightarrow> bool" for own sess where
  started: "hub_step own sess h (h\<lparr>eh_loop := True\<rparr>)"
| recording: "hub_step own sess h (h\<lparr>eh_internet_delivery := True\<rparr>)"
| connecting: "eh_connecting h = None \<Longrightarrow> own s = c \<Longrightarrow> s \<notin> snd ` set (eh_sessions h) \<Longrightarrow>
    hub_step own sess h (connect_start c s h)"
| closing: "hub_step own sess h (connect_close h)"
| connected: "eh_connecting h = Some (c, sess sid, []) \<Longrightarrow> only sess sid \<Longrightarrow>
    connect_finish sid now h = (r, h') \<Longrightarrow> hub_step own sess h h'"
| disconnected: "hub_remove (own (sess sid)) (sess sid) (Some sid) h = (r', h') \<Longrightarrow> hub_step own sess h h'"
| activity: "record_internet_activity c now h = (r', h') \<Longrightarrow> hub_step own sess h h'"
| elsewhere: "call \<in> {SetAprs c e now, Clear c, ClearAprs c e} \<Longrightarrow>
    hub_step own sess h (set_presence (presence_step call (hub_presence h)) h)"
| listened: "hub_listener m h = (r'', h') \<Longrightarrow> hub_step own sess h h'"
| delivered: "delivery_listener sm t h = (r'', h') \<Longrightarrow> hub_step own sess h h'"
| routed: "route m (eh_router h) = Inr (w, pushes) \<Longrightarrow> WebsocketPush m sid \<in> set pushes \<Longrightarrow>
    websocket_delivery m sid h = (r''', h') \<Longrightarrow> hub_step own sess h h'"
| ran: "t \<in> set (eh_tasks h) \<Longrightarrow> run_task sending clock t (db, h\<lparr>eh_tasks := remove1 t (eh_tasks h)\<rparr>) = (r'', db', h') \<Longrightarrow>
    hub_step own sess h h'"
| told: "emit_read sending c reader mid h = (r'', h') \<Longrightarrow> hub_step own sess h h'"

inductive hub_reachable :: "(nat \<Rightarrow> pystr) \<Rightarrow> (pystr \<Rightarrow> nat) \<Rightarrow> hub \<Rightarrow> bool" for own sess where
  initial: "rt_presence rt = Map.empty \<Longrightarrow> hub_reachable own sess (new_hub rt)"
| later: "hub_reachable own sess h \<Longrightarrow> hub_step own sess h h' \<Longrightarrow> hub_reachable own sess h'"

section \<open>The invariant\<close>

text \<open>Sockets and sessions; routes; what is scheduled and what was sent.\<close>

definition sockets_ok :: "(nat \<Rightarrow> pystr) \<Rightarrow> (pystr \<Rightarrow> nat) \<Rightarrow> hub \<Rightarrow> bool" where
  "sockets_ok own sess h \<longleftrightarrow>
     (\<forall>c s. s \<in> set (sockets_of c h) \<longrightarrow> own s = c \<and> sockets_of c h = [s])
   \<and> (\<forall>sid s. (sid, s) \<in> set (eh_sessions h) \<longrightarrow> s = sess sid \<and> only sess sid
        \<and> (s \<in> set (sockets_of (own s) h) \<or> (\<exists>new olds. eh_connecting h = Some (own s, new, olds) \<and> s \<in> set olds)))
   \<and> (case eh_connecting h of None \<Rightarrow> True
      | Some (c, new, olds) \<Rightarrow> own new = c \<and> sockets_of c h = [] \<and> new \<notin> snd ` set (eh_sessions h))"

definition routes_ok :: "(nat \<Rightarrow> pystr) \<Rightarrow> (pystr \<Rightarrow> nat) \<Rightarrow> presence \<Rightarrow> bool" where
  "routes_ok own sess users \<longleftrightarrow> (\<forall>c u sid. users c = Some u \<longrightarrow> up_session_id u = Some sid \<longrightarrow> own (sess sid) = c)"

definition tasks_ok :: "(nat \<Rightarrow> pystr) \<Rightarrow> (pystr \<Rightarrow> nat) \<Rightarrow> task list \<Rightarrow> bool" where
  "tasks_ok own sess ts \<longleftrightarrow> (\<forall>m n sid. EmitRecipient m n sid \<in> set ts \<longrightarrow> own (sess sid) = am_to m)"

definition sent_ok :: "(nat \<Rightarrow> pystr) \<Rightarrow> (nat \<times> pystr \<times> frame) list \<Rightarrow> bool" where
  "sent_ok own fs \<longleftrightarrow> (\<forall>s c fr. (s, c, fr) \<in> set fs \<longrightarrow> own s = c
     \<and> (case fr of MessageCreated m \<Rightarrow> c = am_from m \<or> c = am_to m | _ \<Rightarrow> True))"

definition hub_ok :: "(nat \<Rightarrow> pystr) \<Rightarrow> (pystr \<Rightarrow> nat) \<Rightarrow> hub \<Rightarrow> bool" where
  "hub_ok own sess h \<longleftrightarrow> sockets_ok own sess h \<and> routes_ok own sess (hub_presence h)
     \<and> tasks_ok own sess (eh_tasks h) \<and> sent_ok own (eh_sent h)"

lemma sockets_frame:
  "eh_connections h' = eh_connections h \<Longrightarrow> eh_sessions h' = eh_sessions h \<Longrightarrow> eh_connecting h' = eh_connecting h \<Longrightarrow>
    sockets_ok own sess h' = sockets_ok own sess h"
  by (simp add: sockets_ok_def sockets_of_def split: option.split)

lemma set_presence_simps [simp]:
  "eh_connections (set_presence users h) = eh_connections h" "eh_sessions (set_presence users h) = eh_sessions h"
  "eh_connecting (set_presence users h) = eh_connecting h" "eh_tasks (set_presence users h) = eh_tasks h"
  "eh_sent (set_presence users h) = eh_sent h" "hub_presence (set_presence users h) = users"
  "sockets_of c (set_presence users h) = sockets_of c h" "eh_loop (set_presence users h) = eh_loop h"
  by (simp_all add: set_presence_def sockets_of_def)

lemma set_presence_ok: "hub_ok own sess h \<Longrightarrow> routes_ok own sess users \<Longrightarrow> hub_ok own sess (set_presence users h)"
  using sockets_frame [of "set_presence users h" h] by (simp add: hub_ok_def)

section \<open>Routes\<close>

lemma set_websocket_routes:
  assumes "set_websocket c sid now users = Inr (v, users')" "own (sess sid) = c" "routes_ok own sess users"
  shows "routes_ok own sess users'"
  using assms by (auto simp: set_websocket_def bindE_eq_Inr Let_def routes_ok_def validate_callsign_Inr split: if_splits)

lemma clear_routes:
  "presence_clear c users = Inr (b, users') \<Longrightarrow> routes_ok own sess users \<Longrightarrow> routes_ok own sess users'"
  "clear_websocket c sid users = Inr (b, users') \<Longrightarrow> routes_ok own sess users \<Longrightarrow> routes_ok own sess users'"
  by (auto simp: presence_clear_def clear_websocket_def bindE_eq_Inr routes_ok_def split: option.splits if_splits)

lemma elsewhere_routes:
  "call \<in> {SetAprs c e now, Clear c, ClearAprs c e} \<Longrightarrow> routes_ok own sess users \<Longrightarrow>
    routes_ok own sess (presence_step call users)"
  by (cases c rule: the_callsign_cases)
    (auto simp: routes_ok_def presence_defs Let_def split: option.splits if_splits)

section \<open>Each operation\<close>

lemma sockets_of_upd: "sockets_of c (h\<lparr>eh_connections := (eh_connections h)(d := v)\<rparr>) =
    (if c = d then (case v of None \<Rightarrow> [] | Some ss \<Rightarrow> ss) else sockets_of c h)"
  by (simp add: sockets_of_def)

lemma connect_start_ok:
  assumes "hub_ok own sess h" "eh_connecting h = None" "own s = c" "s \<notin> snd ` set (eh_sessions h)"
  shows "hub_ok own sess (connect_start c s h)"
proof -
  have "sockets_of d (connect_start c s h) = (if d = c then [] else sockets_of d h)" for d
    by (simp add: connect_start_def sockets_of_def)
  then show ?thesis using assms
    by (fastforce simp: hub_ok_def sockets_ok_def connect_start_def)
qed

lemma connect_close_ok: "hub_ok own sess h \<Longrightarrow> hub_ok own sess (connect_close h)"
proof (cases "eh_connecting h")
  case (Some x)
  assume ok: "hub_ok own sess h"
  obtain c new olds where x: "x = (c, new, olds)" by (metis prod_cases3)
  show ?thesis
  proof (cases olds)
    case (Cons old rest)
    have h: "sockets_of d (connect_close h) = sockets_of d h" for d by (simp add: connect_close_def Some x Cons sockets_of_def)
    then have "sockets_ok own sess (connect_close h)" using ok Some x Cons
      by (auto simp: hub_ok_def sockets_ok_def connect_close_def)
    then show ?thesis using ok by (simp add: hub_ok_def connect_close_def Some x Cons)
  qed (use ok in \<open>simp add: connect_close_def Some x\<close>)
qed (simp add: connect_close_def)

lemma connect_finish_ok:
  assumes "hub_ok own sess h" "eh_connecting h = Some (c, sess sid, [])" "only sess sid"
    "connect_finish sid now h = (r, h')"
  shows "hub_ok own sess h'"
proof (cases "set_websocket c sid now (hub_presence h)")
  case (Inl e)
  then have h': "h' = h\<lparr>eh_connecting := None\<rparr>" using assms(2,4) by (simp add: connect_finish_def Let_def)
  have "sockets_of d h' = sockets_of d h" for d by (simp add: h' sockets_of_def)
  then have "sockets_ok own sess h'" using assms(1,2) by (fastforce simp: hub_ok_def sockets_ok_def h')
  then show ?thesis using assms(1) by (simp add: hub_ok_def h')
next
  case (Inr x)
  obtain v users where x: "x = (v, users)" by fastforce
  have own: "own (sess sid) = c" and empty: "sockets_of c h = []" and new: "sess sid \<notin> snd ` set (eh_sessions h)"
    using assms(1,2) by (auto simp: hub_ok_def sockets_ok_def)
  have "(sid, s) \<in> set (eh_sessions h) \<Longrightarrow> s = sess sid" for s using assms(1) by (simp add: hub_ok_def sockets_ok_def)
  with new have "sid \<notin> fst ` set (eh_sessions h)" by force
  then have h': "h' = (set_presence users (h\<lparr>eh_connecting := None\<rparr>))\<lparr>
      eh_connections := (eh_connections h)(c \<mapsto> [sess sid]), eh_sessions := eh_sessions h @ [(sid, sess sid)]\<rparr>"
    using assms(2,4) Inr x empty
    by (auto simp: connect_finish_def Let_def sockets_of_def set_presence_def update_absent split: option.splits)
  have s: "sockets_of d h' = (if d = c then [sess sid] else sockets_of d h)" for d by (simp add: h' sockets_of_def)
  have k: "(sid', t) \<in> set (eh_sessions h) \<Longrightarrow> t = sess sid' \<and> only sess sid' \<and> t \<in> set (sockets_of (own t) h)" for sid' t
    using assms(1,2) by (simp add: hub_ok_def sockets_ok_def)
  have "sockets_ok own sess h'"
    unfolding sockets_ok_def s
  proof (intro conjI allI impI)
    fix d t assume "t \<in> set (if d = c then [sess sid] else sockets_of d h)"
    then show "own t = d" "(if d = c then [sess sid] else sockets_of d h) = [t]"
      using assms(1) own by (auto simp: hub_ok_def sockets_ok_def split: if_splits)
  next
    fix sid' t assume "(sid', t) \<in> set (eh_sessions h')"
    then have "(sid', t) \<in> set (eh_sessions h) \<or> (sid', t) = (sid, sess sid)" by (auto simp: h')
    then show "t = sess sid'" "only sess sid'"
        "t \<in> set (if own t = c then [sess sid] else sockets_of (own t) h) \<or>
         (\<exists>new olds. eh_connecting h' = Some (own t, new, olds) \<and> t \<in> set olds)"
      using k [of sid' t] assms(3) own empty by (cases "own t = c"; auto)+
  qed (simp add: h')
  moreover have "routes_ok own sess users"
    using set_websocket_routes [of c sid now _ v users own sess, OF Inr [unfolded x] own] assms(1) by (simp add: hub_ok_def)
  ultimately show ?thesis using assms(1) by (simp add: hub_ok_def h')
qed

lemma hub_remove_ok:
  assumes "hub_ok own sess h" "hub_remove (own (sess sid)) (sess sid) (Some sid) h = (r, h')"
  shows "hub_ok own sess h'"
proof -
  let ?s = "sess sid"
  let ?left = "removeAll ?s (sockets_of (own ?s) h)"
  let ?h = "h\<lparr>eh_connections := (eh_connections h)(own ?s := if ?left = [] then None else Some ?left),
      eh_sessions := AList.delete sid (eh_sessions h)\<rparr>"
  have sk: "s \<in> set (sockets_of d h) \<Longrightarrow> own s = d \<and> sockets_of d h = [s]" for s d
    using assms(1) by (simp add: hub_ok_def sockets_ok_def)
  have s: "sockets_of d ?h = removeAll ?s (sockets_of d h)" for d
  proof (cases "d = own ?s")
    case False
    then have "?s \<notin> set (sockets_of d h)" using sk [of ?s d] by blast
    then have "removeAll ?s (sockets_of d h) = sockets_of d h" by (rule removeAll_id)
    then show ?thesis using False by (simp add: sockets_of_def)
  qed (simp add: sockets_of_def split: option.split)
  have d: "set (AList.delete sid (eh_sessions h)) \<subseteq> {x \<in> set (eh_sessions h). fst x \<noteq> sid}"
    by (auto simp: AList.delete_eq)
  have "sockets_ok own sess ?h"
    unfolding sockets_ok_def s
  proof (intro conjI allI impI)
    fix c t assume "t \<in> set (removeAll ?s (sockets_of c h))"
    then show "own t = c" "removeAll ?s (sockets_of c h) = [t]" using sk [of t c] by auto
  next
    fix sid' t assume "(sid', t) \<in> set (eh_sessions ?h)"
    then have t: "(sid', t) \<in> set (eh_sessions h)" "sid' \<noteq> sid" using d by auto
    then have i: "t = sess sid'" "only sess sid'" using assms(1) by (auto simp: hub_ok_def sockets_ok_def)
    then show "t = sess sid'" "only sess sid'" .
    have "t \<noteq> ?s" using i t(2) by (metis only_def)
    then show "t \<in> set (removeAll ?s (sockets_of (own t) h)) \<or>
        (\<exists>new olds. eh_connecting ?h = Some (own t, new, olds) \<and> t \<in> set olds)"
      using assms(1) t(1) by (auto simp: hub_ok_def sockets_ok_def)
  next
    have "snd ` set (AList.delete sid (eh_sessions h)) \<subseteq> snd ` set (eh_sessions h)" using d by auto
    then show "case eh_connecting ?h of None \<Rightarrow> True | Some (c, new, olds) \<Rightarrow> own new = c
        \<and> removeAll ?s (sockets_of c h) = [] \<and> new \<notin> snd ` set (eh_sessions ?h)"
      using assms(1) by (auto simp: hub_ok_def sockets_ok_def split: option.splits)
  qed
  then have "hub_ok own sess ?h" using assms(1) by (simp add: hub_ok_def)
  then show ?thesis using assms(2) set_presence_ok [of own sess ?h] clear_routes(2)
    by (fastforce simp: hub_remove_def Let_def hub_ok_def split: sum.splits prod.splits)
qed

section \<open>Sending\<close>

lemma authoritative_socket_ok:
  assumes "hub_ok own sess h" "authoritative_socket c h = Inr (Some (sid, s))"
  shows "own s = c" "sess sid = s" "eh_connections h c = Some [s]" "callsign_ok c"
proof -
  obtain u where u: "the_callsign c = Inr c" "hub_presence h c = Some u" "up_session_id u = Some sid"
      "map_of (eh_sessions h) sid = Some s" "s \<in> set (sockets_of c h)"
    using assms(2) by (auto simp: authoritative_socket_def presence_get_def bindE_eq_Inr validate_callsign_Inr
        split: option.splits if_splits Option.bind_splits)
  have o: "own s = c" "sockets_of c h = [s]" using assms(1) u(5) by (auto simp: hub_ok_def sockets_ok_def)
  then show "own s = c" "eh_connections h c = Some [s]" by (auto simp: sockets_of_def split: option.splits)
  show "sess sid = s" using assms(1) map_of_SomeD [OF u(4)] by (simp add: hub_ok_def sockets_ok_def)
  show "callsign_ok c" using u(1) by (simp add: validate_callsign_Inr)
qed

lemma sent_snoc: "sent_ok own (fs @ [(s, c, fr)]) \<longleftrightarrow> sent_ok own fs \<and> own s = c
    \<and> (case fr of MessageCreated m \<Rightarrow> c = am_from m \<or> c = am_to m | _ \<Rightarrow> True)"
  by (auto simp: sent_ok_def)

lemma log_sent_ok:
  assumes "hub_ok own sess h" "own s = c" "case fr of MessageCreated m \<Rightarrow> c = am_from m \<or> c = am_to m | _ \<Rightarrow> True"
  shows "hub_ok own sess (h\<lparr>eh_sent := eh_sent h @ [(s, c, fr)]\<rparr>)"
  using assms sockets_frame [of "h\<lparr>eh_sent := eh_sent h @ [(s, c, fr)]\<rparr>" h] by (simp add: hub_ok_def sent_snoc)

lemma emit_to_ok:
  assumes "hub_ok own sess h" "emit_to sending c fr h = (r, h')"
    "case fr of MessageCreated m \<Rightarrow> c = am_from m \<or> c = am_to m | _ \<Rightarrow> True"
  shows "hub_ok own sess h'"
proof (cases "\<exists>sid s. authoritative_socket c h = Inr (Some (sid, s))")
  case True
  then obtain sid s where a: "authoritative_socket c h = Inr (Some (sid, s))" by blast
  note o = authoritative_socket_ok [OF assms(1) a]
  show ?thesis
  proof (cases "sending s")
    case Sent
    then show ?thesis using assms a log_sent_ok [OF assms(1) o(1) assms(3)] by (auto simp: emit_to_def)
  next
    case SendFailed
    then have "\<exists>r. hub_remove (own (sess sid)) (sess sid) (Some sid) h = (r, h')" using assms(2) a o
      by (cases "hub_remove c s (Some sid) h") (auto simp: emit_to_def)
    then show ?thesis using hub_remove_ok [OF assms(1)] by blast
  qed (use assms a in \<open>auto simp: emit_to_def\<close>)
qed (use assms in \<open>auto simp: emit_to_def split: sum.splits option.splits\<close>)

lemma emit_delivery_ok:
  "hub_ok own sess h \<Longrightarrow> emit_delivery sending c mid t h = (r, h') \<Longrightarrow> hub_ok own sess h'"
  unfolding emit_delivery_def by (cases "timestamp t") (auto intro: emit_to_ok)

lemma emit_recipient_ok:
  assumes "hub_ok own sess h" "own (sess sid) = am_to m" "emit_recipient sending now m n sid (db, h) = (r, db', h')"
  shows "hub_ok own sess h'"
proof (cases "map_of (eh_sessions h) sid")
  case (Some s)
  then have s: "s = sess sid" using assms(1) by (auto simp: hub_ok_def sockets_ok_def dest!: map_of_SomeD)
  have rem: "hub_ok own sess g \<Longrightarrow> hub_remove (am_to m) s (Some sid) g = (r, g') \<Longrightarrow> hub_ok own sess g'" for g r g'
    using hub_remove_ok [of own sess g sid r g'] assms(2) s by simp
  let ?h = "h\<lparr>eh_sent := eh_sent h @ [(s, am_to m, MessageCreated m)]\<rparr>"
  have ok: "hub_ok own sess ?h" by (rule log_sent_ok [OF assms(1)]) (use assms(2) s in simp_all)
  show ?thesis
  proof (cases "sending s")
    case Sent
    obtain q d where q: "set_delivery (am_to m) n (lit ''internet'') (lit ''delivered'') (Some now) db = (q, d)" by fastforce
    obtain e g where e: "emit_delivery sending (am_from m) (am_id m) now ?h = (e, g)" by fastforce
    obtain x y where x: "hub_remove (am_to m) s (Some sid) g = (x, y)" by fastforce
    have "h' \<in> {?h, g, y}" using assms(3) Some Sent q e x
      by (auto simp: emit_recipient_def Let_def split: if_splits sum.splits)
    moreover have "hub_ok own sess g" by (rule emit_delivery_ok [OF ok e])
    moreover from this have "hub_ok own sess y" by (rule rem [OF _ x])
    ultimately show ?thesis using ok by auto
  next
    case SendFailed
    then show ?thesis using assms(1,3) Some rem by (auto simp: emit_recipient_def split: prod.splits)
  qed (use assms Some in \<open>auto simp: emit_recipient_def\<close>)
qed (use assms in \<open>simp add: emit_recipient_def\<close>)

lemma run_task_ok:
  assumes "hub_ok own sess h" "case t of EmitRecipient m n sid \<Rightarrow> own (sess sid) = am_to m | _ \<Rightarrow> True"
    "run_task sending now t (db, h) = (r, db', h')"
  shows "hub_ok own sess h'"
proof (cases t)
  case (EmitAuthor m)
  then show ?thesis using assms by (auto simp: emit_author_def intro: emit_to_ok split: prod.splits)
next
  case (EmitRead c reader mid)
  then show ?thesis using assms by (auto simp: emit_read_def intro: emit_to_ok split: prod.splits)
next
  case (EmitDelivery c mid t')
  then show ?thesis using assms by (auto intro: emit_delivery_ok split: prod.splits)
next
  case (EmitRecipient m n sid)
  then show ?thesis using assms by (auto intro: emit_recipient_ok)
qed

section \<open>Every reachable hub\<close>

lemma schedule_ok:
  "hub_ok own sess h \<Longrightarrow> case t of EmitRecipient m n sid \<Rightarrow> own (sess sid) = am_to m | _ \<Rightarrow> True \<Longrightarrow>
    hub_ok own sess (schedule t h)"
  using sockets_frame [of "schedule t h" h] by (auto simp: hub_ok_def schedule_def tasks_ok_def split: task.splits)

lemma record_activity_ok:
  assumes "hub_ok own sess h" "record_internet_activity c now h = (r, h')"
  shows "hub_ok own sess h'"
proof (cases "find (\<lambda>(_, s). s \<in> set (sockets_of c h)) (eh_sessions h)")
  case (Some x)
  obtain sid s where x: "x = (sid, s)" by fastforce
  then have "(sid, s) \<in> set (eh_sessions h)" "s \<in> set (sockets_of c h)" using Some by (auto simp: find_Some_iff in_set_conv_nth)
  then have "own (sess sid) = c" using assms(1) by (auto simp: hub_ok_def sockets_ok_def)
  then have "set_websocket c sid now (hub_presence h) = Inr (v, users) \<Longrightarrow> hub_ok own sess (set_presence users h)" for v users
    using set_presence_ok [OF assms(1)] set_websocket_routes assms(1) by (fastforce simp: hub_ok_def)
  then show ?thesis using assms Some x by (auto simp: record_internet_activity_def split: sum.splits)
next
  case None
  have "presence_clear c (hub_presence h) = Inr (v, users) \<Longrightarrow> hub_ok own sess (set_presence users h)" for v users
    using set_presence_ok [OF assms(1)] clear_routes(1) assms(1) by (fastforce simp: hub_ok_def)
  then show ?thesis using assms None by (auto simp: record_internet_activity_def split: sum.splits)
qed

lemma route_session:
  assumes "route m rt = Inr (w, pushes)" "WebsocketPush m' sid \<in> set pushes"
  obtains u where "rt_presence rt (m_recipient m) = Some u" "up_session_id u = Some sid" "m' = m"
  using assms by (auto simp: route_def presence_get_def bindE_eq_Inr validate_callsign_Inr
      split: option.splits if_splits bool.splits)

lemma event_payload_to: "event_payload m = Inr v \<Longrightarrow> am_to v = m_recipient m"
  by (auto simp: event_payload_def message_payload_def bindE_eq_Inr)

lemma hub_step_ok:
  assumes "hub_ok own sess h" "hub_step own sess h h'"
  shows "hub_ok own sess h'"
  using assms(2)
proof cases
  case started
  then show ?thesis using assms(1) sockets_frame [of "h\<lparr>eh_loop := True\<rparr>" h] by (simp add: hub_ok_def)
next
  case recording
  then show ?thesis using assms(1) sockets_frame [of "h\<lparr>eh_internet_delivery := True\<rparr>" h] by (simp add: hub_ok_def)
next
  case (connecting s c)
  then show ?thesis using connect_start_ok [OF assms(1), of s c] by simp
next
  case closing
  then show ?thesis using connect_close_ok [OF assms(1)] by simp
next
  case (connected c sid now r)
  then show ?thesis using connect_finish_ok [OF assms(1)] by blast
next
  case (disconnected sid r)
  then show ?thesis using hub_remove_ok [OF assms(1)] by blast
next
  case (activity c now r)
  then show ?thesis using record_activity_ok [OF assms(1)] by blast
next
  case (elsewhere call c e now)
  then show ?thesis using set_presence_ok [OF assms(1)] elsewhere_routes [OF elsewhere(2)] assms(1)
    by (simp add: hub_ok_def)
next
  case (listened m r)
  then show ?thesis using assms(1) schedule_ok [OF assms(1)] by (auto simp: hub_listener_def split: if_splits sum.splits)
next
  case (delivered sm t r)
  then show ?thesis using assms(1) schedule_ok [OF assms(1)] by (auto simp: delivery_listener_def split: if_splits sum.splits)
next
  case (routed m w pushes sid r)
  obtain u where u: "hub_presence h (m_recipient m) = Some u" "up_session_id u = Some sid"
    by (rule route_session [OF routed(1,2)])
  have "own (sess sid) = m_recipient m" using assms(1) u by (auto simp: hub_ok_def routes_ok_def)
  then have "event_payload m = Inr v \<Longrightarrow> hub_ok own sess (schedule (EmitRecipient v n sid) h)" for v n
    by (intro schedule_ok [OF assms(1)]) (simp add: event_payload_to)
  then show ?thesis using assms(1) routed(3) by (auto simp: websocket_delivery_def split: if_splits sum.splits)
next
  case (ran t sending clock db r db')
  let ?h = "h\<lparr>eh_tasks := remove1 t (eh_tasks h)\<rparr>"
  have "hub_ok own sess ?h" using assms(1) sockets_frame [of ?h h] notin_set_remove1
    by (fastforce simp: hub_ok_def tasks_ok_def)
  moreover have "case t of EmitRecipient m n sid \<Rightarrow> own (sess sid) = am_to m | _ \<Rightarrow> True"
    using assms(1) ran(1) by (auto simp: hub_ok_def tasks_ok_def split: task.split)
  ultimately show ?thesis using ran(2) by (rule run_task_ok)
next
  case (told sending c reader mid r)
  then show ?thesis using emit_to_ok [OF assms(1)] by (auto simp: emit_read_def)
qed

lemma hub_reachable_ok: "hub_reachable own sess h \<Longrightarrow> hub_ok own sess h"
proof (induction rule: hub_reachable.induct)
  case (initial rt)
  then show ?case by (simp add: hub_ok_def sockets_ok_def sockets_of_def new_hub_def routes_ok_def tasks_ok_def sent_ok_def)
next
  case (later h h')
  from later(3,2) show ?case by (rule hub_step_ok)
qed

end
