(* ===== verification/Api_Properties.thy ===== *)
theory Api_Properties
  imports Api_Sync Hub_Invariant
begin

text \<open>
  The properties of the HTTP and WebSocket API: its tokens, its synchronisation, who sees what, and
  the event hub.
\<close>

section \<open>Tokens\<close>

text \<open>C29. Tokens mean what they were issued for: an access token identifies its user until it expires
  and is no cursor; a cursor gives its number back to its own user and for its own purpose, to
  nobody else, and identifies nobody; and whatever text is accepted as an access token is two
  encoded parts of which the second is the keyed hash of the first.\<close>

theorem tokens_are_bound:
  assumes "callsign_ok c" "kind = lit ''page'' \<or> kind = lit ''sync''" "0 \<le> n" "n < 10 ^ 20"
    "0 \<le> now + sg_lifetime sg" "now + sg_lifetime sg < 10 ^ 20"
  shows "identity cr sg t (access cr sg now c) = (if now + sg_lifetime sg < t then Inl invalid_token else Inr c)
    \<and> cursor_value cr sg (access cr sg now c) c' kind' = Inl invalid_cursor
    \<and> cursor_value cr sg (cursor_token cr sg c n kind) c' kind' = (if c' = c \<and> kind' = kind then Inr n else Inl invalid_cursor)
    \<and> identity cr sg t (cursor_token cr sg c n kind) = Inl invalid_token
    \<and> (case identity cr sg t token of
         Inr d \<Rightarrow> \<exists>encoded signature raw. split_char 46 token = [encoded, signature] \<and> unb64 encoded = Some raw
           \<and> unb64 signature = Some (cr_hmac cr (sg_secret sg) raw)
       | Inl _ \<Rightarrow> True)"
proof -
  have c: "simple c" by (rule callsign_simple [OF assms(1)])
  have k: "simple kind" "kind \<noteq> lit ''access''" using assms(2) by (auto simp: simple_lit) (simp_all add: lit_def)
  have "\<exists>encoded signature raw. split_char 46 token = [encoded, signature] \<and> unb64 encoded = Some raw
      \<and> unb64 signature = Some (cr_hmac cr (sg_secret sg) raw)" if "identity cr sg t token = Inr d" for d
  proof -
    have "\<exists>v. read_token cr sg token = Inr v" using that by (auto simp: identity_def bindE_eq_Inr)
    then show ?thesis by (auto elim: read_signed)
  qed
  then show ?thesis
    using identity_access [OF c assms(5,6), of cr t] cursor_value_access [OF c assms(5,6), of cr c' kind']
      cursor_value_cursor [OF c k(1) assms(3,4), of cr sg c' kind'] identity_cursor [OF c k(1) assms(3,4) k(2), of cr sg t]
    by (simp split: sum.split)
qed

definition sample_crypto :: crypto where
  "sample_crypto = \<lparr>cr_hmac = (\<lambda>k m. rev m @ k), cr_sha256 = (\<lambda>m. take 32 m), cr_wide = (\<lambda>_. None),
     cr_float_int = (\<lambda>_. Inl (ValueError []))\<rparr>"

definition sample_signer :: signer where
  "sample_signer = \<lparr>sg_secret = [7], sg_lifetime = 3600\<rparr>"

lemma sample_callsign: "callsign_ok (lit ''A1A'')" "callsign_ok (lit ''B2B'')"
  by (simp_all add: callsign_ok_def lit_def is_digit_def is_upper_def)

theorem tokens_are_bound_witness:
  "identity sample_crypto sample_signer 9000 (access sample_crypto sample_signer 7 (lit ''A1A'')) = Inl invalid_token
    \<and> cursor_value sample_crypto sample_signer (cursor_token sample_crypto sample_signer (lit ''A1A'') 5 (lit ''page''))
        (lit ''A1A'') (lit ''page'') = Inr 5"
  using tokens_are_bound [OF sample_callsign(1), of "lit ''page''" 5 7 sample_signer sample_crypto 9000 "lit ''A1A''" "lit ''page''"]
  by (simp add: sample_signer_def)

section \<open>Synchronisation\<close>

text \<open>C26. Synchronisation over the API neither loses nor repeats a message: a client that starts
  without a cursor and calls again with the cursor it was given, while the stores change between
  the calls and within them, is shown exactly the visible messages up to a number of the last
  database, each once and in order; it holds a cursor for that number, and unless the last page
  was full there is nothing after it.\<close>

theorem api_sync_complete:
  assumes "stores_ok h" "chained api_later (flat ((h, db) # ps))" "message_count h < 2 ^ 63" "callsign_ok c"
    "\<forall>(h, db) \<in> set ((h, db) # ps). dated db"
  shows "\<exists>pages n. sync_all cr sg c ((h, db) # ps) None = Inr (pages, Some (cursor_token cr sg c n (lit ''sync'')))
    \<and> 0 \<le> n \<and> n \<le> message_count (last (flat ((h, db) # ps)))
    \<and> list_all2 shows_message (concat pages)
        (filter (\<lambda>m. st_api_sequence m \<le> n) (api_log c None (last (flat ((h, db) # ps)))))
    \<and> (length (last pages) = 200 \<or> filter (\<lambda>m. n < st_api_sequence m) (api_log c None (last (flat ((h, db) # ps)))) = [])"
proof -
  let ?l = "last (flat ((h, db) # ps))"
  have u: "utf8_encode c \<noteq> None" using utf8_encode_ascii callsign_range [OF assms(4)] by (fastforce simp: ascii_def)
  then have r: "api_reader c None h" using assms(1,3) by (simp add: api_reader_def)
  have m: "0 \<le> message_count h" by (simp add: message_count_def)
  obtain pages n where p: "read_snapshots (\<lambda>s n. api_fetch c None s n 200) message_count ((h, db) # ps) 0 = Inr (pages, n)"
      "0 \<le> n" "n \<le> message_count ?l" "pages \<noteq> []"
      "concat pages = filter (\<lambda>x. 0 < st_api_sequence x \<and> st_api_sequence x \<le> n) (api_log c None ?l)"
      "length (last pages) = 200 \<or> filter (\<lambda>x. n < st_api_sequence x) (api_log c None ?l) = []"
    using gl.interleaved_snapshots [OF r assms(2) order_refl m, of 200] by auto
  have i: "api_reader c None ?l" using gl.invar_last [OF r assms(2) [unfolded flat.simps]] by simp
  have "filter (\<lambda>x. 0 < st_api_sequence x \<and> st_api_sequence x \<le> n) (api_log c None ?l) =
      filter (\<lambda>x. st_api_sequence x \<le> n) (api_log c None ?l)"
    using al.log_below [OF i] by (auto intro: filter_cong)
  moreover obtain vs where vs: "sync_all cr sg c ((h, db) # ps) None = Inr (vs, Some (cursor_token cr sg c n (lit ''sync'')))"
      "list_all2 (list_all2 shows_message) vs pages"
    using sync_all_run [OF r assms(2,5,4) order_refl m p(1), of cr sg] by auto
  moreover have "list_all2 shows_message (concat vs) (concat pages)"
    using vs(2) by (induction rule: list_all2_induct) (auto intro: list_all2_appendI)
  moreover have "vs \<noteq> []" using vs(2) p(4) by auto
  then have "length (last vs) = length (last pages)"
    using vs(2) by (metis list_all2_lengthD list_all2_conv_all_nth last_conv_nth length_0_conv length_greater_0_conv diff_less zero_less_one)
  ultimately show ?thesis using p by auto
qed

lemma sample_later: "api_later empty_database sample1" "api_later sample1 sample2"
  "api_later sample1 sample1" "api_later sample2 sample2"
  using sample_steps by (auto simp: api_later_def sample2_run sample1_run empty_counts)

lemma sample_dated: "dated empty_database" "dated sample1" "dated sample2"
  by (simp_all add: dated_def sample2_run sample1_run) (simp_all add: empty_database_def)

theorem api_sync_complete_witness:
  "\<exists>pages n. sync_all sample_crypto sample_signer (lit ''B2B'') [(sample1, sample1), (sample2, sample2)] None
      = Inr (pages, Some (cursor_token sample_crypto sample_signer (lit ''B2B'') n (lit ''sync'')))
    \<and> 0 \<le> n \<and> n \<le> message_count sample2
    \<and> list_all2 shows_message (concat pages) (filter (\<lambda>m. st_api_sequence m \<le> n) (api_log (lit ''B2B'') None sample2))
    \<and> (length (last pages) = 200 \<or> filter (\<lambda>m. n < st_api_sequence m) (api_log (lit ''B2B'') None sample2) = [])"
  using api_sync_complete [of sample1 sample1 "[(sample2, sample2)]" "lit ''B2B''" sample_crypto sample_signer]
    sample_ok(1) sample_later sample_dated sample_callsign(2)
  by (simp add: sample1_run empty_counts)

section \<open>Who sees what\<close>

definition party :: "pystr \<Rightarrow> api_message \<Rightarrow> bool" where
  "party c v \<longleftrightarrow> am_from v = c \<or> am_to v = c"

lemma project_party: "project m db = Inr v \<Longrightarrow> am_from v = st_author m \<and> am_to v = st_recipient m"
  by (auto simp: project_def message_view_def message_payload_def bindE_eq_Inr)

lemma stored_message_of_texts: "stored_message_of row b = Inr m \<Longrightarrow>
    mr_author row = SText (st_author m) \<and> mr_recipient row = SText (st_recipient m)"
  by (auto simp: stored_message_of_def bindE_eq_Inr split: sqlval.splits option.splits if_splits)

lemma mapE_all:
  "mapE f xs = Inr ys \<Longrightarrow> (\<And>x y. x \<in> set xs \<Longrightarrow> f x = Inr y \<Longrightarrow> P y) \<Longrightarrow> list_all P ys"
  using mapE_mem [of f xs ys] by (fastforce simp: list_all_iff)

lemma api_list_party:
  assumes "api_list c since limit peer db = Inr (ms, mr)" "m \<in> set ms"
  shows "st_author m = c \<or> st_recipient m = c"
proof -
  have "\<exists>k rows. mapE (\<lambda>r. stored_message_of r True) (take k rows) = Inr ms \<and> (\<forall>r \<in> set rows. visible c r)"
    using assms(1) unfolding api_list_def bindE_eq_Inr Let_def slice_to_def sql_limit_def
    by (fastforce split: if_splits dest!: in_set_takeD)
  then obtain k rows where "mapE (\<lambda>r. stored_message_of r True) (take k rows) = Inr ms" "\<forall>r \<in> set (take k rows). visible c r"
    by (metis in_set_takeD)
  then obtain r where "visible c r" "stored_message_of r True = Inr m" using mapE_mem assms(2) by metis
  then show ?thesis using stored_message_of_texts by (fastforce simp: visible_def)
qed

lemma raised_Inr [simp]: "raised r = Inr x \<longleftrightarrow> r = Inr x"
  by (auto simp: raised_def split: sum.split)

lemma projected_party:
  assumes "mapE (\<lambda>m. project m db) ms = Inr vs" "\<And>m. m \<in> set ms \<Longrightarrow> st_author m = c \<or> st_recipient m = c"
  shows "list_all (party c) vs"
  using assms(1) by (rule mapE_all) (use assms(2) project_party in \<open>fastforce simp: party_def\<close>)

lemma list_messages_party: "list_messages cr sg limit token peer c ap = Inr (vs, t) \<Longrightarrow> list_all (party c) vs"
proof -
  assume "list_messages cr sg limit token peer c ap = Inr (vs, t)"
  then have "\<exists>since q ms mr. api_list c since limit q (api_db ap) = Inr (ms, mr) \<and> mapE (\<lambda>m. project m (api_db ap)) ms = Inr vs"
    unfolding list_messages_def bindE_eq_Inr raised_Inr by (elim exE conjE) (auto simp: bindE_eq_Inr split: prod.splits)
  then show ?thesis using projected_party api_list_party by metis
qed

lemma sync_party: "sync cr sg token c h db = Inr (vs, t) \<Longrightarrow> list_all (party c) vs"
proof -
  assume "sync cr sg token c h db = Inr (vs, t)"
  then have "\<exists>since ms mr. api_list c since 200 None db = Inr (ms, mr) \<and> mapE (\<lambda>m. project m db) ms = Inr vs"
    unfolding sync_def sync_response_def bindE_eq_Inr raised_Inr
    by (elim exE conjE) (fastforce simp: bindE_eq_Inr split: if_splits prod.splits)
  then show ?thesis using projected_party api_list_party by metis
qed

lemma conversation_rows_visible: "(row, k, u) \<in> set (conversation_rows c db) \<Longrightarrow> visible c row"
  by (auto simp: conversation_rows_def Let_def)

lemma conversations_party:
  assumes "conversations_endpoint c ap = Inr vws"
  shows "list_all (\<lambda>w. party c (vw_last_message w)) vws"
proof -
  obtain cvs where cvs: "conversations c (api_db ap) = Inr cvs" and v: "mapE (\<lambda>cv. bindE (project (cv_last_message cv) (api_db ap)) (\<lambda>m.
      Inr \<lparr>vw_peer = cv_peer cv, vw_last_message = m, vw_unread_count = cv_unread_count cv,
           vw_last_read_sequence = cv_last_read_sequence cv\<rparr>)) cvs = Inr vws"
    using assms unfolding conversations_endpoint_def bindE_eq_Inr raised_Inr by blast
  have m: "st_author (cv_last_message cv) = c \<or> st_recipient (cv_last_message cv) = c" if "cv \<in> set cvs" for cv
  proof -
    from cvs that obtain row k u where "(row, k, u) \<in> set (conversation_rows c (api_db ap))"
        "stored_message_of row True = Inr (cv_last_message cv)"
      using mapE_mem [of _ "conversation_rows c (api_db ap)" cvs cv] by (fastforce simp: conversations_def bindE_eq_Inr)
    then show ?thesis using conversation_rows_visible stored_message_of_texts by (fastforce simp: visible_def)
  qed
  show ?thesis by (rule mapE_all [OF v]) (use m project_party in \<open>fastforce simp: bindE_eq_Inr party_def\<close>)
qed

lemma get_message_party: "get_message_endpoint mid c ap = Inr v \<Longrightarrow> party c v"
  by (auto simp: get_message_endpoint_def bindE_eq_Inr party_def dest!: project_party split: option.splits if_splits)

text \<open>C28. A user sees only messages they wrote or received: whatever identifiers, cursors and filters
  are asked for, in whatever database, every message in the answer of the single-message, list,
  conversation and synchronisation endpoints has the user as author or recipient.\<close>

theorem only_own_messages:
  "(case get_message_endpoint mid c ap of Inr v \<Rightarrow> party c v | Inl _ \<Rightarrow> True)
   \<and> (case list_messages cr sg limit token peer c ap of Inr (vs, _) \<Rightarrow> list_all (party c) vs | Inl _ \<Rightarrow> True)
   \<and> (case conversations_endpoint c ap of Inr vws \<Rightarrow> list_all (\<lambda>w. party c (vw_last_message w)) vws | Inl _ \<Rightarrow> True)
   \<and> (case sync cr sg token c h db of Inr (vs, _) \<Rightarrow> list_all (party c) vs | Inl _ \<Rightarrow> True)"
  using get_message_party list_messages_party conversations_party sync_party
  by (auto split: sum.split prod.split)

section \<open>The event hub\<close>

text \<open>C27. The event hub keeps users apart: in every reachable state, whatever the order of
  connections, losses, activity, deliveries and tasks, a user has at most one connected socket;
  every session belongs to its user's connected socket, unless a newer connection of the same user
  is just closing it; and every event ever sent went to a socket of the user it is for, a message
  only to its author or its recipient.\<close>

theorem hub_keeps_users_apart:
  assumes "hub_reachable own sess h"
  shows "length (sockets_of c h) \<le> 1
    \<and> (case authoritative_socket c h of Inr (Some (sid, s)) \<Rightarrow> eh_connections h c = Some [s] \<and> own s = c \<and> sess sid = s | _ \<Rightarrow> True)
    \<and> list_all (\<lambda>(sid, s). s = sess sid \<and> (sockets_of (own s) h = [s] \<or>
        (case eh_connecting h of Some (d, _, olds) \<Rightarrow> d = own s \<and> s \<in> set olds | None \<Rightarrow> False))) (eh_sessions h)
    \<and> list_all (\<lambda>(s, d, fr). own s = d \<and> (case fr of MessageCreated m \<Rightarrow> party d m | _ \<Rightarrow> True)) (eh_sent h)"
proof -
  have ok: "hub_ok own sess h" by (rule hub_reachable_ok [OF assms])
  have s: "t \<in> set (sockets_of d h) \<Longrightarrow> sockets_of d h = [t]" for t d
    using ok by (simp add: hub_ok_def sockets_ok_def)
  have "length (sockets_of c h) \<le> 1"
  proof (cases "sockets_of c h")
    case (Cons t ts)
    then show ?thesis using s [of t c] by simp
  qed simp
  moreover have "list_all (\<lambda>(sid, s). s = sess sid \<and> (sockets_of (own s) h = [s] \<or>
        (case eh_connecting h of Some (d, _, olds) \<Rightarrow> d = own s \<and> s \<in> set olds | None \<Rightarrow> False))) (eh_sessions h)"
  proof -
    have "t = sess sid \<and> (t \<in> set (sockets_of (own t) h) \<or>
        (\<exists>new olds. eh_connecting h = Some (own t, new, olds) \<and> t \<in> set olds))" if "(sid, t) \<in> set (eh_sessions h)" for sid t
      using ok that by (simp add: hub_ok_def sockets_ok_def)
    then show ?thesis using s unfolding list_all_iff by (fastforce split: option.split)
  qed
  moreover have "list_all (\<lambda>(s, d, fr). own s = d \<and> (case fr of MessageCreated m \<Rightarrow> party d m | _ \<Rightarrow> True)) (eh_sent h)"
    using ok by (fastforce simp: list_all_iff hub_ok_def sent_ok_def party_def split: frame.splits)
  ultimately show ?thesis using authoritative_socket_ok [OF ok, of c] by (auto split: sum.split option.split)
qed

definition sample_sess :: "pystr \<Rightarrow> nat" where
  "sample_sess sid = (if sid = lit ''s1'' then 7 else 0)"

definition sample_router :: router where
  "sample_router = \<lparr>rt_presence = Map.empty, rt_websocket_delivery = False, rt_aprs_delivery = False\<rparr>"

definition sample_hub :: hub where
  "sample_hub = snd (connect_finish (lit ''s1'') 5 (connect_start (lit ''A1A'') 7 (new_hub sample_router)))"

lemma sample_hub_reachable: "hub_reachable (\<lambda>_. lit ''A1A'') sample_sess sample_hub"
proof -
  let ?h = "connect_start (lit ''A1A'') 7 (new_hub sample_router)"
  have "hub_reachable (\<lambda>_. lit ''A1A'') sample_sess (new_hub sample_router)"
    by (rule initial) (simp add: sample_router_def)
  then have "hub_reachable (\<lambda>_. lit ''A1A'') sample_sess ?h"
    by (rule later) (rule connecting, simp_all add: new_hub_def)
  moreover have "eh_connecting ?h = Some (lit ''A1A'', sample_sess (lit ''s1''), [])" "only sample_sess (lit ''s1'')"
    by (simp_all add: connect_start_def sockets_of_def new_hub_def sample_sess_def only_def)
  ultimately show ?thesis
    using later connected [of ?h "lit ''A1A''" sample_sess "lit ''s1''" 5 "fst (connect_finish (lit ''s1'') 5 ?h)" sample_hub]
    by (simp add: sample_hub_def)
qed

theorem hub_keeps_users_apart_witness:
  "length (sockets_of (lit ''A1A'') sample_hub) \<le> 1
    \<and> (case authoritative_socket (lit ''A1A'') sample_hub of
        Inr (Some (sid, s)) \<Rightarrow> eh_connections sample_hub (lit ''A1A'') = Some [s] \<and> lit ''A1A'' = lit ''A1A'' \<and> sample_sess sid = s
      | _ \<Rightarrow> True)
    \<and> list_all (\<lambda>(sid, s). s = sample_sess sid \<and> (sockets_of (lit ''A1A'') sample_hub = [s] \<or>
        (case eh_connecting sample_hub of Some (d, _, olds) \<Rightarrow> d = lit ''A1A'' \<and> s \<in> set olds | None \<Rightarrow> False))) (eh_sessions sample_hub)
    \<and> list_all (\<lambda>(s, d, fr). lit ''A1A'' = d \<and> (case fr of MessageCreated m \<Rightarrow> party d m | _ \<Rightarrow> True)) (eh_sent sample_hub)"
  by (rule hub_keeps_users_apart [OF sample_hub_reachable])

section \<open>Identifiers\<close>

lemma rsplit_colon_append: "58 \<notin> set t \<Longrightarrow> rsplit_colon (s @ 58 # t) = Some (s, t)"
proof -
  assume "58 \<notin> set t"
  then have a: "\<forall>c \<in> set (rev t). c \<noteq> 58" by auto
  have "rev (s @ 58 # t) = rev t @ 58 # rev s" by simp
  then show ?thesis using a unfolding rsplit_colon_def
    by (auto simp: dropWhile_append takeWhile_append dropWhile_eq_Nil_conv takeWhile_eq_all_conv)
qed

text \<open>A message identifier is read back. One whose number does not fit SQLite's integers ends in an
  exception, which is answered with status 500 and not with \<open>not_found\<close>.\<close>

lemma message_id_roundtrip:
  assumes "callsign_ok c" "0 \<le> n" "n < 10 ^ 20"
  obtains mid where "message_id c n = Inr mid" "parse_message_id mid = Inr (c, n)"
proof -
  have a: "ascii (c @ lit '':'' @ dec n)"
    using callsign_range [OF assms(1)] dec_ascii [of n] by (fastforce simp: ascii_def lit_def)
  have "58 \<notin> set (dec n)" using dec_nat_digits [of 58 "nat n"] assms(2) by (auto simp: dec_def is_digit_def)
  then have "rsplit_colon (c @ lit '':'' @ dec n) = Some (c, dec n)" by (simp add: lit_def rsplit_colon_append)
  moreover obtain raw where "utf8_encode (c @ lit '':'' @ dec n) = Some raw" using utf8_encode_ascii [OF a] by blast
  ultimately show ?thesis
    using that py_int_dec [OF assms(2,3)] utf8_decode_encode by (auto simp: message_id_def parse_message_id_def)
qed

lemma oversized_message_id:
  assumes "callsign_ok c" "2 ^ 63 \<le> n" "n < 10 ^ 20"
  shows "\<exists>mid e. message_id c n = Inr mid \<and> get_message_endpoint mid d ap = Inl (Raised e)
    \<and> fst (failure_response (Raised e)) = 500"
proof -
  obtain mid where "message_id c n = Inr mid" "parse_message_id mid = Inr (c, n)"
    using message_id_roundtrip [OF assms(1) _ assms(3)] assms(2) by auto
  moreover have "\<exists>e. get_message c n (api_db ap) = Inl e"
    using assms(2) by (cases "get_message c n (api_db ap)") (auto simp: get_message_def bindE_eq_Inr)
  ultimately show ?thesis by (auto simp: get_message_endpoint_def raised_def)
qed

end
