(* ===== verification/Aprs_Diagnostics.thy ===== *)
theory Aprs_Diagnostics
  imports Burst_Control Commit_Adapter Reassembly_Facts
begin

text \<open>
  \<open>transport/aprs/diagnostics.py\<close>: the readable form of APRS bodies in the log of the node. The
  class keeps reassemblers of its own, one for each direction, and is called between receiving a
  line and handing it to the adapter: it must not raise. Which characters beyond ASCII \<open>repr\<close>
  prints as they are is a parameter, Python's table of printable code points.
\<close>

section \<open>Formatting\<close>

text \<open>\<open>f"{n:04X}"\<close> and \<open>repr(text)\<close>.\<close>

definition upper_hex_digit :: "nat \<Rightarrow> nat" where
  "upper_hex_digit d = (if d < 10 then 48 + d else 55 + d)"

fun hex_nat :: "nat \<Rightarrow> pystr" where
  "hex_nat n = (if n < 16 then [upper_hex_digit n] else hex_nat (n div 16) @ [upper_hex_digit (n mod 16)])"

declare hex_nat.simps [simp del]

definition hex_padded :: "nat \<Rightarrow> int \<Rightarrow> pystr" where
  "hex_padded n v =
     (let digits = hex_nat (nat (abs v)); sign = (if v < 0 then lit ''-'' else [])
      in sign @ replicate (n - length (sign @ digits)) 48 @ digits)"

definition hex_escape :: "nat \<Rightarrow> nat \<Rightarrow> pystr" where
  "hex_escape n c = map (\<lambda>k. hex_digit (c div 16 ^ k mod 16)) (rev [0..<n])"

definition repr_char :: "(nat \<Rightarrow> bool) \<Rightarrow> nat \<Rightarrow> nat \<Rightarrow> pystr" where
  "repr_char printable quote c =
     (if c = quote \<or> c = 92 then [92, c]
      else if c = 9 then [92, 116]
      else if c = 10 then [92, 110]
      else if c = 13 then [92, 114]
      else if 32 \<le> c \<and> c < 127 \<or> 127 < c \<and> printable c then [c]
      else if c < 0x100 then [92, 120] @ hex_escape 2 c
      else if c < 0x10000 then [92, 117] @ hex_escape 4 c
      else [92, 85] @ hex_escape 8 c)"

definition repr_text :: "(nat \<Rightarrow> bool) \<Rightarrow> pystr \<Rightarrow> pystr" where
  "repr_text printable s =
     (let quote = (if 39 \<in> set s \<and> 34 \<notin> set s then 34 else 39)
      in quote # concat (map (repr_char printable quote) s) @ [quote])"

section \<open>Core objects\<close>

fun operation_name :: "operation \<Rightarrow> pystr" where
  "operation_name SEND_MESSAGE = lit ''SEND_MESSAGE''"
| "operation_name GET_NEW_MESSAGES = lit ''GET_NEW_MESSAGES''"
| "operation_name GET_NEW_BULLETINS = lit ''GET_NEW_BULLETINS''"
| "operation_name GET_BULLETIN = lit ''GET_BULLETIN''"
| "operation_name GET_CAPABILITIES = lit ''GET_CAPABILITIES''"
| "operation_name GET_MESSAGE = lit ''GET_MESSAGE''"
| "operation_name MESSAGE = lit ''MESSAGE''"
| "operation_name BULLETIN_HEADER = lit ''BULLETIN_HEADER''"
| "operation_name BULLETIN = lit ''BULLETIN''"
| "operation_name END_OP = lit ''END''"
| "operation_name STORED = lit ''STORED''"
| "operation_name ERROR = lit ''ERROR''"
| "operation_name CAPABILITIES = lit ''CAPABILITIES''"

fun error_code_name :: "error_code \<Rightarrow> pystr" where
  "error_code_name INVALID_FRAME = lit ''INVALID_FRAME''"
| "error_code_name UNSUPPORTED_VERSION = lit ''UNSUPPORTED_VERSION''"
| "error_code_name UNKNOWN_OPERATION = lit ''UNKNOWN_OPERATION''"
| "error_code_name INVALID_FIELD = lit ''INVALID_FIELD''"
| "error_code_name INVALID_CURSOR = lit ''INVALID_CURSOR''"
| "error_code_name UNAUTHORIZED = lit ''UNAUTHORIZED''"
| "error_code_name NOT_FOUND = lit ''NOT_FOUND''"
| "error_code_name TOO_LARGE = lit ''TOO_LARGE''"
| "error_code_name BUSY = lit ''BUSY''"
| "error_code_name INTERNAL_ERROR = lit ''INTERNAL_ERROR''"
| "error_code_name REJECTED = lit ''REJECTED''"

text \<open>\<open>_operation_name\<close>: an integer that is no member of the enumeration has no name.\<close>

fun request_name :: "request_operation \<Rightarrow> pystr" where
  "request_name (Op operation) = operation_name operation"
| "request_name (Raw i) = dec i"

fun format_core_object :: "(nat \<Rightarrow> bool) \<Rightarrow> protocol_object \<Rightarrow> int \<Rightarrow> pystr" where
  "format_core_object pr (SendMessage created_at recipient body) flags =
     lit ''SEND_MESSAGE recipient='' @ recipient @ lit '' created_at='' @ dec created_at
     @ lit '' body='' @ repr_text pr body"
| "format_core_object pr (GetNewMessages since maximum) flags =
     lit ''GET_NEW_MESSAGES since='' @ dec since @ lit '' max='' @ dec maximum"
| "format_core_object pr (GetNewBulletins since maximum) flags =
     lit ''GET_NEW_BULLETINS since='' @ dec since @ lit '' max='' @ dec maximum"
| "format_core_object pr (GetBulletin sequence) flags = lit ''GET_BULLETIN sequence='' @ dec sequence"
| "format_core_object pr GetCapabilities flags = lit ''GET_CAPABILITIES''"
| "format_core_object pr (Capabilities version capabilities) flags =
     lit ''CAPABILITIES protocol_version='' @ dec version @ lit '' capabilities=0x'' @ hex_padded 8 capabilities"
| "format_core_object pr (Message sequence _ created_at author recipient body) flags =
     lit ''MESSAGE seq='' @ dec sequence @ lit '' from='' @ author @ lit '' to='' @ recipient
     @ lit '' created_at='' @ dec created_at @ lit '' body='' @ repr_text pr body
     @ (if flags AND UNSOLICITED_FLAG \<noteq> 0 then lit '' unsolicited=true'' else [])"
| "format_core_object pr (BulletinHeader sequence created_at author title) flags =
     lit ''BULLETIN_HEADER seq='' @ dec sequence @ lit '' from='' @ author
     @ lit '' created_at='' @ dec created_at @ lit '' title='' @ repr_text pr title
     @ (if flags AND UNSOLICITED_FLAG \<noteq> 0 then lit '' unsolicited=true'' else [])"
| "format_core_object pr (Bulletin sequence created_at author title body) flags =
     lit ''BULLETIN seq='' @ dec sequence @ lit '' from='' @ author @ lit '' created_at='' @ dec created_at
     @ lit '' title='' @ repr_text pr title @ lit '' body='' @ repr_text pr body"
| "format_core_object pr (End request_operation returned_count next_since has_more) flags =
     lit ''END request='' @ operation_name request_operation @ lit '' returned='' @ dec returned_count
     @ lit '' next_since='' @ dec next_since @ lit '' has_more='' @ lit (if has_more then ''true'' else ''false'')"
| "format_core_object pr Stored flags = lit ''STORED''"
| "format_core_object pr (Error request_operation error_code detail) flags =
     lit ''ERROR request='' @ request_name request_operation @ lit '' code='' @ error_code_name error_code
     @ lit '' detail='' @ repr_text pr detail"
| "format_core_object pr (GetMessage peer number) flags =
     lit ''GetMessage(peer='' @ repr_text pr peer @ lit '', conversation_sequence='' @ dec number
     @ lit '')''"

section \<open>Controls\<close>

text \<open>\<open>_decode_v2_control_transaction(body, expected_bytes=1)\<close>.\<close>

definition v2_control_transaction :: "pystr \<Rightarrow> pystr option result" where
  "v2_control_transaction body =
     (case base91_decode (drop 2 body) of
        Inl e \<Rightarrow> if is_CarriageError e then Inr None else Inl e
      | Inr payload \<Rightarrow>
          if length payload \<noteq> 1 then Inr None
          else bindE (base36 (uint (payload ! 0)) 3) (\<lambda>t. Inr (Some t)))"

text \<open>The list of missing fragments, counted from one, and the mask.\<close>

fun join_commas :: "pystr list \<Rightarrow> pystr" where
  "join_commas [] = []"
| "join_commas [s] = s"
| "join_commas (s # ss) = s @ 44 # join_commas ss"

definition missing_text :: "int \<Rightarrow> pystr" where
  "missing_text bitmap = lit '' missing='' @ join_commas (map (\<lambda>i. dec (i + 1)) (mask_indices bitmap))
     @ lit '' mask=0x'' @ hex_padded 4 bitmap"

definition describe_openqsp_control :: "pystr \<Rightarrow> pystr option result" where
  "describe_openqsp_control body =
     (if take 2 body = lit ''A2''
      then bindE (v2_control_transaction body) (\<lambda>transaction.
        Inr (map_option (\<lambda>t. lit ''A2 transaction='' @ t @ lit '' ACK'') transaction))
      else if take 2 body = lit ''S2''
      then bindE (v2_control_transaction body) (\<lambda>transaction.
        Inr (map_option (\<lambda>t. lit ''S2 transaction='' @ t @ lit '' STORED'') transaction))
      else if take 2 body = lit ''N2''
      then (case base91_decode (drop 2 body) of
          Inl e \<Rightarrow> if is_CarriageError e then Inr None else Inl e
        | Inr payload \<Rightarrow>
            if length payload \<noteq> 3 then Inr None
            else bindE (base36 (uint (payload ! 0)) 3) (\<lambda>t.
              let bitmap = from_bytes (drop 1 payload) in
              if bitmap = 0 then Inr None
              else Inr (Some (lit ''N2 transaction='' @ t @ missing_text bitmap))))
      else (case match_legacy_ack body of
          Some t \<Rightarrow> Inr (Some (lit ''Q1A transaction='' @ t @ lit '' ACK''))
        | None \<Rightarrow>
            (case match_legacy_missing body of
               None \<Rightarrow> Inr None
             | Some (t, bitmap) \<Rightarrow>
                 if int16 bitmap = 0 then Inr None
                 else Inr (Some (lit ''Q1N transaction='' @ t @ missing_text (int16 bitmap))))))"

section \<open>Descriptions\<close>

record diagnostics =
  dg_rx :: reassembler
  dg_tx :: reassembler

definition new_diagnostics :: "rat \<Rightarrow> int \<Rightarrow> diagnostics result" where
  "new_diagnostics ttl max_entries =
     bindE (new_reassembler ttl max_entries) (\<lambda>rx.
     bindE (new_reassembler ttl max_entries) (\<lambda>tx. Inr \<lparr>dg_rx = rx, dg_tx = tx\<rparr>))"

datatype direction = Rx | Tx

fun is_TypeError :: "exn \<Rightarrow> bool" where
  "is_TypeError (TypeError _) = True"
| "is_TypeError _ = False"

fun direction_reassembler :: "direction \<Rightarrow> diagnostics \<Rightarrow> reassembler" where
  "direction_reassembler Rx d = dg_rx d"
| "direction_reassembler Tx d = dg_tx d"

fun with_reassembler :: "direction \<Rightarrow> reassembler \<Rightarrow> diagnostics \<Rightarrow> diagnostics" where
  "with_reassembler Rx ra d = d\<lparr>dg_rx := ra\<rparr>"
| "with_reassembler Tx ra d = d\<lparr>dg_tx := ra\<rparr>"

definition fragment_text :: "aprs_fragment \<Rightarrow> pystr" where
  "fragment_text f =
     lit ''Q'' @ dec (af_version f) @ lit '' transaction='' @ af_transaction_id f
     @ lit '' fragment='' @ dec (af_index f + 1) @ lit ''/'' @ dec (af_total f)"

definition describe_fragment ::
  "(nat \<Rightarrow> bool) \<Rightarrow> direction \<Rightarrow> pystr \<Rightarrow> aprs_fragment \<Rightarrow> rat \<Rightarrow> diagnostics \<Rightarrow> pystr result \<times> diagnostics" where
  "describe_fragment pr direction peer f now d =
     (case reassembler_add peer f now (direction_reassembler direction d) of (added, ra) \<Rightarrow>
        (let d = with_reassembler direction ra d;
             prefix = fragment_text f @ (case af_message_id f of None \<Rightarrow> [] | Some m \<Rightarrow> lit '' message_id='' @ m) in
         case added of
           Inl e \<Rightarrow>
             (if is_CarriageError e then Inr (fragment_text f @ lit '' decode_error='' @ exn_str e) else Inl e, d)
         | Inr None \<Rightarrow> (Inr (prefix @ lit '' waiting_for_complete_frame''), d)
         | Inr (Some frame) \<Rightarrow>
             (case decode_frame_with_flags (PBytes frame) of
                Inl e \<Rightarrow> (Inr (prefix @ lit '' core_decode_error='' @ exn_str e), d)
              | Inr (obj, flags) \<Rightarrow> (Inr (prefix @ lit '' -> '' @ format_core_object pr obj flags), d))))"

definition describe ::
  "(nat \<Rightarrow> bool) \<Rightarrow> direction \<Rightarrow> pystr \<Rightarrow> pystr \<Rightarrow> rat \<Rightarrow> diagnostics \<Rightarrow> pystr option result \<times> diagnostics" where
  "describe pr direction peer body now d =
     (case match_ack body of
        Some m \<Rightarrow> (Inr (Some (lit ''APRS ACK message_id='' @ m)), d)
      | None \<Rightarrow>
          (case describe_openqsp_control body of
             Inl e \<Rightarrow> (Inl e, d)
           | Inr (Some control) \<Rightarrow> (Inr (Some control), d)
           | Inr None \<Rightarrow>
               (case parse_fragment body of
                  Inl e \<Rightarrow> (if is_CarriageError e \<or> is_TypeError e then Inr None else Inl e, d)
                | Inr f \<Rightarrow> (case describe_fragment pr direction peer f now d of (r, d) \<Rightarrow> (map_sum id Some r, d)))))"

section \<open>Descriptions never raise\<close>

definition diagnostics_ok :: "diagnostics \<Rightarrow> bool" where
  "diagnostics_ok d \<longleftrightarrow> reassembler_ok (dg_rx d) \<and> reassembler_ok (dg_tx d)"

lemma diagnostics_new: "new_diagnostics ttl n = Inr d \<Longrightarrow> diagnostics_ok d \<and> ra_max_entries (dg_rx d) = n \<and> ra_max_entries (dg_tx d) = n"
  by (auto simp: new_diagnostics_def new_reassembler_def diagnostics_ok_def reassembler_ok_def keys_ok_def split: if_splits)

lemma base91_caught: "base91_decode s = Inl e \<Longrightarrow> is_CarriageError e"
  by (auto dest: base91_decode_error)

lemma fragment_caught: "parse_fragment s = Inl e \<Longrightarrow> is_CarriageError e"
  by (auto dest: parse_fragment_error)

lemma control_ok: "\<exists>r. describe_openqsp_control body = Inr r"
proof -
  have t: "\<exists>t. base36 (uint (b :: byte)) 3 = Inr t" for b using base36_byte by blast
  have v: "\<exists>r. v2_control_transaction s = Inr r" for s
    using t by (auto simp: v2_control_transaction_def base91_caught bindE_eq_Inr split: sum.split)
  have n: "\<exists>r. (case base91_decode s of Inl e \<Rightarrow> if is_CarriageError e then Inr None else Inl e
        | Inr payload \<Rightarrow> if length payload \<noteq> 3 then Inr None
            else bindE (base36 (uint (payload ! 0)) 3) (\<lambda>t. f payload t)) = Inr r"
    if "\<And>p t. \<exists>r. f p t = Inr r" for s and f :: "bytes \<Rightarrow> pystr \<Rightarrow> pystr option result"
    using that t by (auto simp: base91_caught bindE_eq_Inr split: sum.split) metis
  show ?thesis
    unfolding describe_openqsp_control_def
    using v [of body] by (auto intro!: n simp: Let_def split: option.split)
qed

lemma describe_fragment_ok:
  assumes "diagnostics_ok d" "fragment_ok f" "describe_fragment pr direction peer f now d = (r, d')"
  shows "is_ok r \<and> diagnostics_ok d' \<and> ra_max_entries (dg_rx d') = ra_max_entries (dg_rx d)
    \<and> ra_max_entries (dg_tx d') = ra_max_entries (dg_tx d)"
proof -
  have ra: "reassembler_ok (direction_reassembler direction d)"
    using assms(1) by (cases direction) (simp_all add: diagnostics_ok_def)
  obtain added ra' where add: "reassembler_add peer f now (direction_reassembler direction d) = (added, ra')" by fastforce
  note ok = reassembler_add_ok [OF ra assms(2) add]
  have "is_ok r \<and> d' = with_reassembler direction ra' d"
    using ok assms(3) add by (auto simp: describe_fragment_def add_result_ok_def Let_def is_ok_iff
        split: sum.splits option.splits prod.splits)
  then show ?thesis using ok assms(1) by (cases direction) (simp_all add: diagnostics_ok_def)
qed

lemma describe_ok:
  assumes "diagnostics_ok d" "describe pr direction peer body now d = (r, d')"
  shows "is_ok r \<and> diagnostics_ok d' \<and> ra_max_entries (dg_rx d') = ra_max_entries (dg_rx d)
    \<and> ra_max_entries (dg_tx d') = ra_max_entries (dg_tx d)"
proof (cases "parse_fragment body")
  case (Inr f)
  obtain c where c: "describe_openqsp_control body = Inr c" using control_ok by blast
  obtain q d1 where q: "describe_fragment pr direction peer f now d = (q, d1)" by fastforce
  show ?thesis
    using assms c describe_fragment_ok [OF assms(1) parse_fragment_ok [OF Inr] q] Inr q
    by (auto simp: describe_def is_ok_iff control_ok split: option.splits)
next
  case (Inl e)
  obtain c where "describe_openqsp_control body = Inr c" using control_ok by blast
  then show ?thesis using assms Inl
    by (auto simp: describe_def fragment_caught is_ok_iff control_ok split: option.splits)
qed

text \<open>A run of the log: lines that were received and sent.\<close>

type_synonym description = "direction \<times> pystr \<times> pystr \<times> rat"

fun describe_all :: "(nat \<Rightarrow> bool) \<Rightarrow> description list \<Rightarrow> diagnostics \<Rightarrow> pystr option result list \<times> diagnostics" where
  "describe_all pr [] d = ([], d)"
| "describe_all pr ((direction, peer, body, now) # ls) d =
     (case describe pr direction peer body now d of (r, d) \<Rightarrow>
        (case describe_all pr ls d of (rs, d) \<Rightarrow> (r # rs, d)))"

lemma describe_all_ok:
  "diagnostics_ok d \<Longrightarrow> describe_all pr ls d = (rs, d') \<Longrightarrow>
     (\<forall>r \<in> set rs. is_ok r) \<and> diagnostics_ok d' \<and> ra_max_entries (dg_rx d') = ra_max_entries (dg_rx d)
     \<and> ra_max_entries (dg_tx d') = ra_max_entries (dg_tx d)"
proof (induction ls arbitrary: d rs d')
  case (Cons l ls)
  obtain direction peer body now where l: "l = (direction, peer, body, now)" by (cases l)
  obtain r d1 where d1: "describe pr direction peer body now d = (r, d1)" by fastforce
  obtain rs1 d2 where d2: "describe_all pr ls d1 = (rs1, d2)" by fastforce
  show ?case using Cons.IH [OF _ d2] Cons.prems(2) describe_ok [OF Cons.prems(1) d1] d1 d2 l by auto
qed simp

end
