(* ===== verification/Aprs_Is.thy ===== *)
theory Aprs_Is
  imports Burst_Adapter Aprs_Diagnostics Py_Text
begin

text \<open>
  \<open>transport/aprs/aprsis.py\<close>: the line format of APRS-IS and the connection that carries the APRS
  adapter. Between two turns of the loop of \<open>_connection\<close> a line arrives, nothing arrives for a
  while, or reading fails; a turn is one step here, with everything the code reads from outside
  (the clocks, the line, whether writing succeeds, whether \<open>stop\<close> was called) as its argument.
  The lines come from an ASCII decoding, on which the model of \<open>upper\<close> is exact.
\<close>

section \<open>Lines\<close>

record aprsis_config =
  ic_passcode :: pystr
  ic_callsign :: pystr
  ic_software :: pystr
  ic_version :: pystr
  ic_reconnect_delay :: rat
  ic_reconnect_max_delay :: rat
  ic_reconnect_jitter :: rat
  ic_connect_timeout :: rat
  ic_login_timeout :: rat
  ic_idle_timeout :: rat
  ic_poll_interval :: rat
  ic_require_verified :: bool
  ic_filter :: "pystr option"

definition check_aprsis :: "aprsis_config \<Rightarrow> aprsis_config result" where
  "check_aprsis c =
     (if ic_passcode c = [] then Inl (ValueError (lit ''APRS-IS passcode must be supplied externally''))
      else if ic_callsign c = [] then Inl (ValueError (lit ''APRS-IS callsign must be supplied''))
      else if ic_reconnect_delay c < 0 then Inl (ValueError (lit ''APRS-IS reconnect delay cannot be negative''))
      else if ic_reconnect_max_delay c < ic_reconnect_delay c
      then Inl (ValueError (lit ''APRS-IS maximum reconnect delay is too small''))
      else if \<not> (0 \<le> ic_reconnect_jitter c \<and> ic_reconnect_jitter c \<le> 1)
      then Inl (ValueError (lit ''APRS-IS reconnect jitter must be between 0 and 1''))
      else if ic_connect_timeout c \<le> 0 \<or> ic_login_timeout c \<le> 0
      then Inl (ValueError (lit ''APRS-IS connection timeouts must be positive''))
      else if ic_idle_timeout c \<le> 0 \<or> ic_poll_interval c \<le> 0
      then Inl (ValueError (lit ''APRS-IS activity timeouts must be positive''))
      else Inr c)"

text \<open>\<open>config.filter or f"g/{config.callsign}"\<close>: an empty filter counts as none.\<close>

definition login_line :: "aprsis_config \<Rightarrow> pystr" where
  "login_line c =
     (let aprs_filter = (case ic_filter c of Some (x # xs) \<Rightarrow> x # xs | _ \<Rightarrow> lit ''g/'' @ ic_callsign c) in
      lit ''user '' @ ic_callsign c @ lit '' pass '' @ ic_passcode c @ lit '' vers ''
      @ ic_software c @ 32 # ic_version c @ lit '' filter '' @ aprs_filter)"

text \<open>
  A literal of a pattern under \<open>re.IGNORECASE\<close>: besides the other case of a letter, the dotted and
  dotless i and the long s match.
\<close>

definition ignore_case :: "nat \<Rightarrow> nat \<Rightarrow> bool" where
  "ignore_case p c \<longleftrightarrow> c = p \<or> (97 \<le> p \<and> p < 123 \<and> c = p - 32)
     \<or> (p = 105 \<and> (c = 0x130 \<or> c = 0x131)) \<or> (p = 115 \<and> c = 0x17F)"

definition match_ci :: "pystr \<Rightarrow> pystr \<Rightarrow> bool" where
  "match_ci pattern s \<longleftrightarrow> list_all2 ignore_case pattern s"

definition lower_ascii :: "nat \<Rightarrow> nat" where
  "lower_ascii c = (if 65 \<le> c \<and> c < 91 then c + 32 else c)"

text \<open>\<open># logresp ([^ ]+) (verified|unverified)(?:,.*)?\<close>.\<close>

definition parse_logresp :: "pystr \<Rightarrow> pystr \<Rightarrow> bool option" where
  "parse_logresp line callsign =
     (let s = strip line; rest = drop 10 s; name = takeWhile (\<lambda>c. c \<noteq> 32) rest;
          tail = drop (length name + 1) rest; status = takeWhile (\<lambda>c. c \<noteq> 44) tail;
          extra = dropWhile (\<lambda>c. c \<noteq> 44) tail in
      if \<not> match_ci (lit ''# logresp '') (take 10 s) \<or> name = [] \<or> length rest \<le> length name
         \<or> \<not> (match_ci (lit ''verified'') status \<or> match_ci (lit ''unverified'') status) \<or> 10 \<in> set extra
      then None
      else if upper name \<noteq> upper callsign then None
      else Some (map lower_ascii status = lit ''verified''))"

text \<open>\<open>QA[A-Z]\<close>, and the station after it.\<close>

definition is_q_construct :: "pystr \<Rightarrow> bool" where
  "is_q_construct s \<longleftrightarrow> length s = 3 \<and> take 2 s = lit ''QA'' \<and> is_upper (s ! 2)"

definition rstrip_char :: "nat \<Rightarrow> pystr \<Rightarrow> pystr" where
  "rstrip_char c s = rev (dropWhile (\<lambda>x. x = c) (rev s))"

fun igate_of_parts :: "pystr list \<Rightarrow> pystr option" where
  "igate_of_parts (part # igate # parts) =
     (if is_q_construct part \<and> igate \<noteq> [] \<and> igate \<noteq> lit ''TCPIP'' \<and> igate \<noteq> lit ''TCPIP*''
      then Some (rstrip_char 42 igate) else igate_of_parts (igate # parts))"
| "igate_of_parts _ = None"

definition igate_from_header :: "pystr \<Rightarrow> pystr option" where
  "igate_from_header hdr = igate_of_parts (map (\<lambda>part. upper (strip part)) (split_char 44 hdr))"

text \<open>\<open>([^>]+)>([^:]+)::(.{9}):(.*)\<close>.\<close>

definition match_packet :: "pystr \<Rightarrow> (pystr \<times> pystr \<times> pystr \<times> pystr) option" where
  "match_packet s =
     (let source = takeWhile (\<lambda>c. c \<noteq> 62) s; r = drop (length source + 1) s;
          header = takeWhile (\<lambda>c. c \<noteq> 58) r; r' = drop (length header) r;
          addressee = take 9 (drop 2 r'); body = drop 12 r' in
      if source \<noteq> [] \<and> length source < length s \<and> header \<noteq> [] \<and> 12 \<le> length r' \<and> take 2 r' = lit ''::''
         \<and> r' ! 11 = 58 \<and> 10 \<notin> set addressee \<and> 10 \<notin> set body
      then Some (source, header, addressee, body) else None)"

definition rstrip_newlines :: "pystr \<Rightarrow> pystr" where
  "rstrip_newlines s = rev (dropWhile (\<lambda>c. c = 13 \<or> c = 10) (rev s))"

definition parse_packet :: "pystr \<Rightarrow> (pystr \<times> pystr \<times> pystr \<times> pystr option) option" where
  "parse_packet line =
     map_option (\<lambda>(source, hdr, addressee, body).
       (upper source, upper (strip addressee), body, igate_from_header hdr)) (match_packet (rstrip_newlines line))"

definition ljust :: "nat \<Rightarrow> pystr \<Rightarrow> pystr" where
  "ljust n s = s @ replicate (n - length s) 32"

definition format_packet :: "outbound_packet \<Rightarrow> pystr" where
  "format_packet packet =
     op_source packet @ lit ''>APOQSP,TCPIP*::'' @ ljust 9 (op_destination packet) @ lit '':'' @ op_body packet"

text \<open>\<open>(line + "\r\n").encode()\<close>, and \<open>raw.decode("ascii", "replace").rstrip()\<close>.\<close>

definition encode_line :: "pystr \<Rightarrow> bytes result" where
  "encode_line line = (case utf8_encode (line @ [13, 10]) of None \<Rightarrow> Inl UnicodeEncodeError | Some b \<Rightarrow> Inr b)"

definition decode_line :: "bytes \<Rightarrow> pystr" where
  "decode_line raw =
     rev (dropWhile is_space (rev (map (\<lambda>b. if of_byte b < 0x80 then of_byte b else 0xFFFD) raw)))"

section \<open>The connection\<close>

text \<open>
  What ends a connection: \<open>ConnectionError\<close>, the failures of the socket, or an exception nothing
  here expects. \<open>ic_written\<close> are the lines written to the current connection; \<open>ic_last_igate\<close> is
  the dictionary of the last entry station of each callsign.
\<close>

datatype link_error = ConnectionError pystr | SocketError pystr | Unexpected exn

record aprsis_client =
  is_adapter :: burst_adapter
  is_running :: bool
  is_diagnostics :: diagnostics
  is_last_igate :: "pystr \<rightharpoonup> pystr"
  is_written :: "bytes list"

record link_session =
  ss_verified :: bool
  ss_connected_at :: rat
  ss_last_rx :: rat

text \<open>
  One turn of the loop: whether \<open>stop\<close> was called since the last one, whether the reader is at its
  end, the clock before and after reading, what reading gave, the clock of the log, the clocks of
  the adapter, and how draining the writer ended.
\<close>

datatype reading = ReadLine bytes | NoLine | ReadFails link_error

record turn =
  tu_stop :: bool
  tu_eof :: bool
  tu_now :: rat
  tu_reading :: reading
  tu_then :: rat
  tu_log_now :: rat
  tu_readings :: readings
  tu_poll_now :: rat
  tu_sent_at :: rat
  tu_drain :: "link_error option"

definition base_callsign :: "pystr \<Rightarrow> pystr" where
  "base_callsign peer = takeWhile (\<lambda>c. c \<noteq> 45) (upper peer)"

definition last_igate_for :: "pystr \<Rightarrow> aprsis_client \<Rightarrow> pystr option" where
  "last_igate_for peer c = is_last_igate c (base_callsign peer)"

text \<open>A packet for the service: noted, described in the log, and given to the adapter, whose
  exceptions are caught.\<close>

definition packet_arrives ::
  "(nat \<Rightarrow> bool) \<Rightarrow> turn \<Rightarrow> pystr \<Rightarrow> pystr \<Rightarrow> pystr option \<Rightarrow> aprsis_client
    \<Rightarrow> link_error option \<times> event list \<times> aprsis_client" where
  "packet_arrives pr tu source body igate c =
     (let c = c\<lparr>is_last_igate := (case igate of None \<Rightarrow> is_last_igate c
                | Some g \<Rightarrow> (is_last_igate c)(base_callsign source \<mapsto> g))\<rparr> in
      case describe pr Rx source body (tu_log_now tu) (is_diagnostics c) of
        (Inl e, d) \<Rightarrow> (Some (Unexpected e), [], c\<lparr>is_diagnostics := d\<rparr>)
      | (Inr _, d) \<Rightarrow>
          (case guarded_receive (tu_readings tu) source body (is_adapter c) of
             (_, events, s) \<Rightarrow> (None, events, c\<lparr>is_diagnostics := d, is_adapter := s\<rparr>)))"

text \<open>What a line does: it may change the state of the login, and it may be a packet.\<close>

definition line_arrives ::
  "(nat \<Rightarrow> bool) \<Rightarrow> aprsis_config \<Rightarrow> turn \<Rightarrow> pystr \<Rightarrow> link_session \<Rightarrow> aprsis_client
    \<Rightarrow> link_error option \<times> event list \<times> link_session \<times> aprsis_client" where
  "line_arrives pr cfg tu line ss c =
     (let ss = ss\<lparr>ss_last_rx := tu_then tu\<rparr>; status = parse_logresp line (ic_callsign cfg);
          ss = (case status of None \<Rightarrow> ss | Some v \<Rightarrow> ss\<lparr>ss_verified := v\<rparr>) in
      if status = Some False \<and> ic_require_verified cfg
      then (Some (ConnectionError (lit ''APRS-IS login was not verified'')), [], ss, c)
      else (case parse_packet line of
          Some (source, addressee, body, igate) \<Rightarrow>
            if ss_verified ss \<and> addressee = upper (ic_callsign cfg)
            then (case packet_arrives pr tu source body igate c of (failed, events, c) \<Rightarrow> (failed, events, ss, c))
            else (None, [], ss, c)
        | None \<Rightarrow> (None, [], ss, c)))"

text \<open>The packets of a poll are written and described one after the other.\<close>

fun write_packets ::
  "(nat \<Rightarrow> bool) \<Rightarrow> rat \<Rightarrow> outbound_packet list \<Rightarrow> aprsis_client \<Rightarrow> link_error option \<times> aprsis_client" where
  "write_packets pr now [] c = (None, c)"
| "write_packets pr now (p # ps) c =
     (case encode_line (format_packet p) of
        Inl e \<Rightarrow> (Some (Unexpected e), c)
      | Inr line \<Rightarrow>
          (let c = c\<lparr>is_written := is_written c @ [line]\<rparr> in
           case describe pr Tx (op_destination p) (op_body p) now (is_diagnostics c) of
             (Inl e, d) \<Rightarrow> (Some (Unexpected e), c\<lparr>is_diagnostics := d\<rparr>)
           | (Inr _, d) \<Rightarrow> write_packets pr now ps (c\<lparr>is_diagnostics := d\<rparr>)))"

definition transmit ::
  "(nat \<Rightarrow> bool) \<Rightarrow> turn \<Rightarrow> aprsis_client \<Rightarrow> link_error option \<times> event list \<times> aprsis_client" where
  "transmit pr tu c =
     (case burst_poll (tu_poll_now tu) (is_adapter c) of
        (Inl e, events, s) \<Rightarrow> (Some (Unexpected e), events, c\<lparr>is_adapter := s\<rparr>)
      | (Inr packets, events, s) \<Rightarrow>
          (case write_packets pr (tu_sent_at tu) packets (c\<lparr>is_adapter := s\<rparr>) of
             (Some failed, c) \<Rightarrow> (Some failed, events, c)
           | (None, c) \<Rightarrow> (tu_drain tu, events, c)))"

definition unhealthy :: "aprsis_config \<Rightarrow> rat \<Rightarrow> link_session \<Rightarrow> link_error option" where
  "unhealthy cfg now ss =
     (if \<not> ss_verified ss \<and> ic_login_timeout cfg \<le> now - ss_connected_at ss
      then Some (ConnectionError (lit ''APRS-IS login timed out''))
      else if ss_verified ss \<and> ic_idle_timeout cfg \<le> now - ss_last_rx ss
      then Some (ConnectionError (lit ''APRS-IS connection became idle''))
      else None)"

text \<open>How a turn ends: the loop goes on, is left, or an exception leaves it.\<close>

datatype turn_end = Goes_on | Left bool | Failed link_error

definition connection_turn ::
  "(nat \<Rightarrow> bool) \<Rightarrow> aprsis_config \<Rightarrow> turn \<Rightarrow> link_session \<Rightarrow> aprsis_client
    \<Rightarrow> turn_end \<times> event list \<times> link_session \<times> aprsis_client" where
  "connection_turn pr cfg tu ss c =
     (let c = (if tu_stop tu then c\<lparr>is_running := False\<rparr> else c) in
      if \<not> is_running c \<or> tu_eof tu
      then (if is_running c \<and> \<not> ss_verified ss
            then Failed (ConnectionError (lit ''APRS-IS closed before login verification''))
            else Left (ss_verified ss), [], ss, c)
      else (case unhealthy cfg (tu_now tu) ss of
          Some e \<Rightarrow> (Failed e, [], ss, c)
        | None \<Rightarrow>
            (case (case tu_reading tu of
                 ReadFails e \<Rightarrow> (Some e, [], ss, c)
               | NoLine \<Rightarrow> (None, [], ss, c)
               | ReadLine raw \<Rightarrow>
                   if raw = [] then (None, [], ss, c) else line_arrives pr cfg tu (decode_line raw) ss c) of
               (Some e, events, ss, c) \<Rightarrow> (Failed e, events, ss, c)
             | (None, events, ss, c) \<Rightarrow>
                 (case unhealthy cfg (tu_then tu) ss of
                    Some e \<Rightarrow> (Failed e, events, ss, c)
                  | None \<Rightarrow>
                      if ss_verified ss
                      then (case transmit pr tu c of
                          (Some e, events', c) \<Rightarrow> (Failed e, events @ events', ss, c)
                        | (None, events', c) \<Rightarrow> (Goes_on, events @ events', ss, c))
                      else (Goes_on, events, ss, c)))))"

fun connection_loop ::
  "(nat \<Rightarrow> bool) \<Rightarrow> aprsis_config \<Rightarrow> turn list \<Rightarrow> link_session \<Rightarrow> aprsis_client
    \<Rightarrow> turn_end \<times> event list \<times> link_session \<times> aprsis_client" where
  "connection_loop pr cfg [] ss c = (Goes_on, [], ss, c)"
| "connection_loop pr cfg (tu # tus) ss c =
     (case connection_turn pr cfg tu ss c of
        (Goes_on, events, ss, c) \<Rightarrow>
          (case connection_loop pr cfg tus ss c of (r, events', ss, c) \<Rightarrow> (r, events @ events', ss, c))
      | stop \<Rightarrow> stop)"

text \<open>\<open>_connection\<close> with its \<open>finally\<close>; a connection whose turns are not over has no end yet.\<close>

definition aprsis_connection ::
  "(nat \<Rightarrow> bool) \<Rightarrow> aprsis_config \<Rightarrow> rat \<Rightarrow> turn list \<Rightarrow> aprsis_client
    \<Rightarrow> turn_end \<times> event list \<times> aprsis_client" where
  "aprsis_connection pr cfg connected_at tus c =
     (case connection_loop pr cfg tus \<lparr>ss_verified = False, ss_connected_at = connected_at, ss_last_rx = connected_at\<rparr> c of
        (Goes_on, events, ss, c) \<Rightarrow> (Goes_on, events, c)
      | (r, events, ss, c) \<Rightarrow>
          (case connection_lost (is_adapter c) of
             (Inl e, events', s) \<Rightarrow> (Failed (Unexpected e), events @ events', c\<lparr>is_adapter := s\<rparr>)
           | (Inr _, events', s) \<Rightarrow> (r, events @ events', c\<lparr>is_adapter := s\<rparr>)))"

section \<open>Reconnecting\<close>

text \<open>\<open>random.uniform(delay - spread, delay + spread)\<close> for the random number \<open>u\<close> of \<open>[0, 1)\<close>.\<close>

definition jittered_delay :: "aprsis_config \<Rightarrow> rat \<Rightarrow> rat \<Rightarrow> rat" where
  "jittered_delay cfg u delay =
     (if delay \<le> 0 \<or> ic_reconnect_jitter cfg = 0 then delay
      else (let spread = delay * ic_reconnect_jitter cfg; low = delay - spread; high = delay + spread
            in max 0 (low + (high - low) * u)))"

text \<open>
  An attempt: the connection cannot be made, or it is made, the login line is written, draining
  it fails or not, and the connection has its turns.
\<close>

datatype attempt = Unreachable | Reached "link_error option" rat "turn list"

definition aprsis_attempt ::
  "(nat \<Rightarrow> bool) \<Rightarrow> aprsis_config \<Rightarrow> attempt \<Rightarrow> aprsis_client \<Rightarrow> turn_end \<times> event list \<times> aprsis_client" where
  "aprsis_attempt pr cfg attempt c =
     (case attempt of
        Unreachable \<Rightarrow> (Failed (SocketError []), [], c)
      | Reached flush connected_at tus \<Rightarrow>
          (case encode_line (login_line cfg) of
             Inl e \<Rightarrow> (Failed (Unexpected e), [], c\<lparr>is_written := []\<rparr>)
           | Inr line \<Rightarrow>
               (let c = c\<lparr>is_written := [line]\<rparr> in
                case flush of
                  Some e \<Rightarrow> (Failed e, [], c)
                | None \<Rightarrow> aprsis_connection pr cfg connected_at tus c)))"

text \<open>
  One round of \<open>run\<close>: the attempt, the time slept after it (none when the client was stopped or
  the attempt is not over), and the delay before the next.
\<close>

definition run_round ::
  "(nat \<Rightarrow> bool) \<Rightarrow> aprsis_config \<Rightarrow> attempt \<Rightarrow> rat \<Rightarrow> aprsis_client \<times> rat
    \<Rightarrow> rat option \<times> event list \<times> aprsis_client \<times> rat" where
  "run_round pr cfg attempt u state =
     (case state of (c, retry_delay) \<Rightarrow>
      if \<not> is_running c then (None, [], c, retry_delay)
      else (case aprsis_attempt pr cfg attempt c of
          (r, events, c) \<Rightarrow>
            if r = Goes_on \<or> \<not> is_running c then (None, events, c, retry_delay)
            else (let verified = (r = Left True);
                      retry_delay = (if verified then ic_reconnect_delay cfg else retry_delay) in
              (Some (jittered_delay cfg u retry_delay), events, c,
               if verified then retry_delay
               else min (ic_reconnect_max_delay cfg) (max (ic_reconnect_delay cfg) (retry_delay * 2))))))"

fun run_rounds ::
  "(nat \<Rightarrow> bool) \<Rightarrow> aprsis_config \<Rightarrow> (attempt \<times> rat) list \<Rightarrow> aprsis_client \<times> rat
    \<Rightarrow> rat list \<times> aprsis_client \<times> rat" where
  "run_rounds pr cfg [] state = ([], state)"
| "run_rounds pr cfg ((a, u) # as) state =
     (case run_round pr cfg a u state of
        (None, _, state) \<Rightarrow> ([], state)
      | (Some slept, _, state) \<Rightarrow>
          (case run_rounds pr cfg as state of (delays, state) \<Rightarrow> (slept # delays, state)))"

definition aprsis_run ::
  "(nat \<Rightarrow> bool) \<Rightarrow> aprsis_config \<Rightarrow> (attempt \<times> rat) list \<Rightarrow> aprsis_client \<Rightarrow> rat list \<times> aprsis_client \<times> rat" where
  "aprsis_run pr cfg as c = run_rounds pr cfg as (c\<lparr>is_running := True\<rparr>, ic_reconnect_delay cfg)"

definition stop_client :: "aprsis_client \<Rightarrow> aprsis_client" where
  "stop_client c = c\<lparr>is_running := False\<rparr>"

definition new_aprsis_client :: "burst_adapter \<Rightarrow> aprsis_client result" where
  "new_aprsis_client s =
     bindE (new_diagnostics 120 128) (\<lambda>d.
     Inr \<lparr>is_adapter = s, is_running = False, is_diagnostics = d, is_last_igate = Map.empty, is_written = []\<rparr>)"

end
