(* ===== verification/Aprs_Is_Properties.thy ===== *)
theory Aprs_Is_Properties
  imports Aprs_Is Burst_Properties Carriage_Properties
begin

text \<open>
  What the APRS-IS connection promises: nothing but the login is sent before the server has
  verified it, packets survive the line format, descriptions for the log never raise, and the
  waiting times between connections are bounded. One fragment can still take the node off the
  air, across all connections it makes.
\<close>

section \<open>The line format\<close>

text \<open>What the adapter sends: a body of printable ASCII that does not end in a space.\<close>

definition sendable :: "pystr \<Rightarrow> bool" where
  "sendable body \<longleftrightarrow> (\<forall>c \<in> set body. 32 \<le> c \<and> c < 127) \<and> (body = [] \<or> last body \<noteq> 32)"

definition station :: "pystr \<Rightarrow> bool" where
  "station s \<longleftrightarrow> s \<noteq> [] \<and> (\<forall>c \<in> set s. is_digit c \<or> is_upper c \<or> c = 45)"

lemma validate_peer_station:
  assumes "validate_peer peer = Inr peer" shows "station peer"
proof -
  let ?c = "takeWhile (\<lambda>c. c \<noteq> 45) peer" and ?r = "dropWhile (\<lambda>c. c \<noteq> 45) peer"
  have h: "3 \<le> length ?c" "\<forall>c \<in> set ?c. c \<in> set B36" "?r = [] \<or> (\<forall>c \<in> set (tl ?r). is_digit c)"
    using assms by (auto simp: validate_peer_def Let_def split: if_splits)
  have r: "?r = [] \<or> ?r = 45 # tl ?r"
    using hd_dropWhile [of "\<lambda>c. c \<noteq> 45" peer] by (cases ?r) simp_all
  have d: "\<forall>c \<in> set ?r. is_digit c \<or> c = 45"
  proof (cases "?r = []")
    case False
    then have "set ?r = insert 45 (set (tl ?r))" using r by (metis list.simps(15))
    then show ?thesis using h(3) False by auto
  qed (metis empty_iff empty_set)
  have "set peer = set ?c \<union> set ?r" by (metis set_append takeWhile_dropWhile_id)
  then have "\<forall>c \<in> set peer. is_digit c \<or> is_upper c \<or> c = 45"
    using h(2) d by (auto simp: B36_mem is_digit_def is_upper_def)
  moreover have "peer \<noteq> []" using h(1) by auto
  ultimately show ?thesis by (simp add: station_def)
qed

lemma station_chars: "station s \<Longrightarrow> c \<in> set s \<Longrightarrow> 45 \<le> c \<and> c < 91 \<and> c \<noteq> 58 \<and> c \<noteq> 62"
  by (auto simp: station_def is_digit_def is_upper_def)

lemma station_upper: "station s \<Longrightarrow> upper s = s"
proof -
  assume s: "station s"
  have "upper_char c = [c]" if "c \<in> set s" for c
    using station_chars [OF s that] by (simp add: upper_char_def special_upper_def)
  then show ?thesis unfolding upper_def by (induction s) simp_all
qed

lemma station_strip:
  assumes "station s" shows "strip (s @ replicate n 32) = s"
proof -
  have ns: "\<not> is_space c" if "c \<in> set s" for c
    using station_chars [OF assms that] by (auto simp: is_space_def)
  have "s \<noteq> []" using assms by (simp add: station_def)
  then obtain a b t u where t: "s = a # t" "rev s = b # u" by (metis list.exhaust rev_is_Nil_conv)
  then have "\<not> is_space a" "\<not> is_space b" using ns [of a] ns [of b] by (auto, metis list.set_intros(1) set_rev)
  then have "dropWhile is_space (s @ replicate n 32) = s @ replicate n 32"
    "dropWhile is_space (rev s) = rev s" using t by simp_all
  moreover have "dropWhile is_space (replicate n 32 @ r) = dropWhile is_space r" for r :: pystr
    by (induction n) (simp_all add: is_space_def)
  ultimately show ?thesis by (simp add: strip_def)
qed

lemma packet_igate: "igate_from_header (lit ''APOQSP,TCPIP*'') = None"
  by (simp add: igate_from_header_def lit_def strip_def is_space_def upper_def upper_char_def special_upper_def
      is_q_construct_def)

lemma decode_printable:
  assumes "sendable body" "\<forall>c \<in> set s. c < 128" "s \<noteq> []" "last s = 58"
  shows "\<exists>raw. encode_line (s @ body) = Inr raw \<and> decode_line raw = s @ body"
proof -
  have a: "ascii (s @ body @ [13, 10])" using assms(1,2) by (auto simp: ascii_def sendable_def)
  let ?raw = "map byte_of (s @ body @ [13, 10])"
  have e: "encode_line (s @ body) = Inr ?raw" using utf8_encode_ascii [OF a] by (simp add: encode_line_def)
  have m: "map (\<lambda>b. if of_byte b < 0x80 then of_byte b else 0xFFFD) ?raw = s @ body @ [13, 10]"
    using assms(1,2) by (auto simp: sendable_def intro!: map_idI)
  have l: "\<not> is_space (last (s @ body))"
  proof (cases "body = []")
    case False
    then have "32 \<le> last body" "last body < 127" "last body \<noteq> 32"
      using assms(1) last_in_set [OF False] unfolding sendable_def by blast+
    then show ?thesis using False by (simp add: is_space_def)
  qed (use assms(4) in \<open>simp add: is_space_def\<close>)
  have ne: "s @ body \<noteq> []" using assms(3) by simp
  have "decode_line ?raw = rev (dropWhile is_space (10 # 13 # rev (s @ body)))"
    unfolding decode_line_def m by simp
  also have "dropWhile is_space (10 # 13 # rev (s @ body)) = dropWhile is_space (rev (s @ body))"
    by (simp add: is_space_def del: rev_append)
  also have "\<dots> = rev (s @ body)"
    using l ne by (cases "s @ body" rule: rev_cases) simp_all
  finally have "decode_line ?raw = s @ body" by simp
  with e show ?thesis by blast
qed

lemma match_packet_parts:
  assumes "62 \<notin> set source" "source \<noteq> []" "58 \<notin> set hdr" "hdr \<noteq> []" "length addressee = 9"
    "10 \<notin> set addressee" "10 \<notin> set body"
  shows "match_packet (source @ 62 # hdr @ 58 # 58 # addressee @ 58 # body) = Some (source, hdr, addressee, body)"
proof -
  let ?r = "58 # 58 # addressee @ 58 # body" and ?s = "source @ 62 # hdr @ 58 # 58 # addressee @ 58 # body"
  have "takeWhile (\<lambda>c. c \<noteq> 62) ?s = source" "takeWhile (\<lambda>c. c \<noteq> 58) (hdr @ ?r) = hdr"
    using assms(1,3) by (subst takeWhile_append2, auto)+
  moreover have "drop (length source + 1) ?s = hdr @ ?r" by simp
  moreover have "drop (length hdr) (hdr @ ?r) = ?r" by simp
  moreover have "take 9 (drop 2 ?r) = addressee" "drop 12 ?r = body" "?r ! 11 = 58" "12 \<le> length ?r" "take 2 ?r = lit ''::''"
    using assms(5) by (simp_all add: nth_append lit_def)
  moreover have "length source < length ?s" by simp
  ultimately show ?thesis unfolding match_packet_def Let_def using assms by presburger
qed

text \<open>What is written for a packet is read back as the packet, if the addressee fits the field.\<close>

lemma packet_roundtrip:
  assumes "station (op_source p)" "station (op_destination p)" "length (op_destination p) \<le> 9" "sendable (op_body p)"
  shows "\<exists>raw. encode_line (format_packet p) = Inr raw
    \<and> parse_packet (decode_line raw) = Some (op_source p, op_destination p, op_body p, None)"
proof -
  let ?d = "op_destination p @ replicate (9 - length (op_destination p)) 32"
  let ?s = "op_source p @ 62 # lit ''APOQSP,TCPIP*'' @ 58 # 58 # ?d @ [58]"
  have f: "format_packet p = ?s @ op_body p" by (simp add: format_packet_def ljust_def lit_def)
  have c: "\<forall>c \<in> set (op_source p) \<union> set (op_destination p). 45 \<le> c \<and> c < 91 \<and> c \<noteq> 58 \<and> c \<noteq> 62"
    using station_chars [OF assms(1)] station_chars [OF assms(2)] by blast
  have h: "\<forall>c \<in> set (lit ''APOQSP,TCPIP*''). c < 128 \<and> c \<noteq> 58" by (simp add: lit_def)
  have "c < 128" if "c \<in> set ?s" for c
  proof -
    have "c \<in> set (op_source p) \<union> set (op_destination p) \<or> c \<in> set (lit ''APOQSP,TCPIP*'') \<or> c \<in> {62, 58, 32}"
      using that by auto
    then show ?thesis
    proof (elim disjE)
      assume "c \<in> set (op_source p) \<union> set (op_destination p)"
      then have "c < 91" using c by blast
      then show ?thesis by simp
    qed (use h in auto)
  qed
  then obtain raw where raw: "encode_line (format_packet p) = Inr raw" "decode_line raw = ?s @ op_body p"
    using decode_printable [OF assms(4), of ?s] f by auto
  have b: "10 \<notin> set (op_body p)" "13 \<notin> set (op_body p)" using assms(4) by (auto simp: sendable_def)
  have e: "rstrip_newlines (?s @ op_body p) = ?s @ op_body p"
    using b by (cases "op_body p" rule: rev_cases) (auto simp: rstrip_newlines_def)
  have "\<not> (45 \<le> (10 :: nat))" by simp
  then have "10 \<notin> set (op_destination p)" using c by blast
  then have n: "62 \<notin> set (op_source p)" "op_source p \<noteq> []" "length ?d = 9" "10 \<notin> set ?d"
    using c assms(1,3) by (blast, simp add: station_def, simp, simp)
  have "58 \<notin> set (lit ''APOQSP,TCPIP*'')" "lit ''APOQSP,TCPIP*'' \<noteq> []" by (simp_all add: lit_def)
  from match_packet_parts [OF n(1,2) this n(3,4) b(1)]
  have "match_packet (?s @ op_body p) = Some (op_source p, lit ''APOQSP,TCPIP*'', ?d, op_body p)" by simp
  then show ?thesis
    using raw e station_upper [OF assms(1)] station_strip [OF assms(2)] station_upper [OF assms(2)] packet_igate
    by (simp add: parse_packet_def)
qed

text \<open>C32. Frames cross APRS-IS: the fragments of a frame, sent by one station to another whose
  name fits the addressee field, are written as lines from which the receiving side reads the
  sender, the addressee and a body that parses to the fragment.\<close>

theorem aprs_is_carries_fragments:
  assumes "encode_frame obj u = Inr frame" "parse_base36 tid 3 = Inr n" "n \<le> 255"
    "validate_peer service = Inr service" "validate_peer peer = Inr peer" "length peer \<le> 9"
  shows "\<exists>fs. fragment_frame_v2 frame tid = Inr fs \<and> concat (map (\<lambda>f. the (af_raw_data f)) fs) = frame
    \<and> list_all (\<lambda>f. \<exists>b raw. fragment_body f = Inr b \<and> parse_fragment b = Inr f
        \<and> encode_line (format_packet \<lparr>op_source = service, op_destination = peer, op_body = b, op_is_ack = False\<rparr>) = Inr raw
        \<and> parse_packet (decode_line raw) = Some (service, peer, b, None)) fs"
proof -
  obtain fs where fs: "fragment_frame_v2 frame tid = Inr fs" "concat (map (\<lambda>f. the (af_raw_data f)) fs) = frame"
    "list_all (\<lambda>f. \<exists>b. fragment_body f = Inr b \<and> parse_fragment b = Inr f \<and> length b \<le> MAX_APRS_BODY \<and> aprs_safe b) fs"
    using compact_fragments [OF encoded_framed [OF assms(1)], of tid] assms(2,3)
    unfolding transaction_byte_def by blast
  have "\<exists>raw. encode_line (format_packet \<lparr>op_source = service, op_destination = peer, op_body = b, op_is_ack = False\<rparr>) = Inr raw
      \<and> parse_packet (decode_line raw) = Some (service, peer, b, None)" if "aprs_safe b" for b
  proof -
    have "sendable b"
    proof (cases "b = []")
      case False
      then have "33 \<le> last b" using that last_in_set unfolding aprs_safe_def by blast
      then show ?thesis using that by (fastforce simp: sendable_def aprs_safe_def)
    qed (simp add: sendable_def)
    then show ?thesis
      using packet_roundtrip [of "\<lparr>op_source = service, op_destination = peer, op_body = b, op_is_ack = False\<rparr>"]
        validate_peer_station [OF assms(4)] validate_peer_station [OF assms(5)] assms(6) by simp
  qed
  then show ?thesis using fs unfolding list_all_iff by blast
qed

section \<open>Silence before the login\<close>

text \<open>A turn whose line is the server's confirmation of the login.\<close>

definition verifies :: "aprsis_config \<Rightarrow> turn \<Rightarrow> bool" where
  "verifies cfg tu = (case tu_reading tu of
     ReadLine raw \<Rightarrow> parse_logresp (decode_line raw) (ic_callsign cfg) = Some True | _ \<Rightarrow> False)"

text \<open>What may differ between two states of a client that has neither received nor sent.\<close>

definition untouched :: "aprsis_client \<Rightarrow> aprsis_client \<Rightarrow> bool" where
  "untouched c c' \<longleftrightarrow> is_adapter c' = is_adapter c \<and> is_diagnostics c' = is_diagnostics c
     \<and> is_last_igate c' = is_last_igate c \<and> is_written c' = is_written c"

lemma line_unverified:
  assumes "line_arrives pr cfg tu line ss c = (failed, events, ss', c')" "\<not> ss_verified ss"
    "parse_logresp line (ic_callsign cfg) \<noteq> Some True"
  shows "events = [] \<and> \<not> ss_verified ss' \<and> c' = c"
  using assms by (cases "parse_logresp line (ic_callsign cfg)")
    (auto simp: line_arrives_def Let_def split: if_splits option.splits)

lemma turn_unverified:
  assumes "connection_turn pr cfg tu ss c = (r, events, ss', c')" "\<not> ss_verified ss" "\<not> verifies cfg tu"
  shows "events = [] \<and> \<not> ss_verified ss' \<and> untouched c c' \<and> r \<noteq> Left True"
proof -
  have l: "parse_logresp (decode_line raw) (ic_callsign cfg) \<noteq> Some True" if "tu_reading tu = ReadLine raw" for raw
    using assms(3) that by (simp add: verifies_def)
  show ?thesis
    using assms(1,2) l unfolding connection_turn_def Let_def
    by (auto simp: untouched_def split: if_splits option.splits reading.splits prod.splits dest: line_unverified)
qed

lemma loop_unverified:
  "connection_loop pr cfg tus ss c = (r, events, ss', c') \<Longrightarrow> \<not> ss_verified ss \<Longrightarrow> list_all (\<lambda>tu. \<not> verifies cfg tu) tus
    \<Longrightarrow> events = [] \<and> untouched c c' \<and> r \<noteq> Left True"
proof (induction tus arbitrary: ss c r events ss' c')
  case (Cons tu tus)
  obtain r1 ev1 ss1 c1 where t: "connection_turn pr cfg tu ss c = (r1, ev1, ss1, c1)" by (metis prod_cases4)
  note u = turn_unverified [OF t Cons.prems(2)]
  show ?case
  proof (cases "r1 = Goes_on")
    case True
    obtain r2 ev2 ss2 c2 where l: "connection_loop pr cfg tus ss1 c1 = (r2, ev2, ss2, c2)" by (metis prod_cases4)
    show ?thesis using Cons.IH [OF l] u Cons.prems t l True by (auto simp: untouched_def)
  next
    case False
    then show ?thesis using u Cons.prems t by (cases r1) auto
  qed
qed (simp add: untouched_def)

text \<open>C30. Silence before the login: over a connection on which the server never confirms the login
  of this callsign, whatever else it sends and whenever the connection ends, nothing is written but
  the login line, no packet reaches the adapter, and the connection does not count as verified.\<close>

theorem silent_until_verified:
  assumes "aprsis_attempt pr cfg (Reached flush connected_at tus) c = (r, events, c')"
    "list_all (\<lambda>tu. \<not> verifies cfg tu) tus"
  shows "r \<noteq> Left True
    \<and> is_written c' = (case encode_line (login_line cfg) of Inl _ \<Rightarrow> [] | Inr line \<Rightarrow> [line])
    \<and> (events = [] \<and> is_adapter c' = is_adapter c
       \<or> r \<noteq> Goes_on \<and> (\<exists>x. connection_lost (is_adapter c) = (x, events, is_adapter c')))"
proof (cases "encode_line (login_line cfg)")
  case (Inr line)
  show ?thesis
  proof (cases flush)
    case None
    let ?ss = "\<lparr>ss_verified = False, ss_connected_at = connected_at, ss_last_rx = connected_at\<rparr>"
    let ?c = "c\<lparr>is_written := [line]\<rparr>"
    obtain r1 ev1 ss1 c1 where l: "connection_loop pr cfg tus ?ss ?c = (r1, ev1, ss1, c1)" by (metis prod_cases4)
    have u: "ev1 = []" "untouched ?c c1" "r1 \<noteq> Left True" using loop_unverified [OF l _ assms(2)] by simp_all
    have "aprsis_connection pr cfg connected_at tus ?c = (r, events, c')"
      using assms(1) Inr None by (simp add: aprsis_attempt_def)
    then show ?thesis using l u Inr
      by (cases r1) (auto simp: aprsis_connection_def untouched_def split: prod.splits sum.splits)
  qed (use assms(1) Inr in \<open>auto simp: aprsis_attempt_def\<close>)
qed (use assms(1) in \<open>auto simp: aprsis_attempt_def\<close>)

section \<open>Waiting times\<close>

definition silent_attempt :: "aprsis_config \<Rightarrow> attempt \<Rightarrow> bool" where
  "silent_attempt cfg a =
     (case a of Unreachable \<Rightarrow> True | Reached _ _ tus \<Rightarrow> list_all (\<lambda>tu. \<not> verifies cfg tu) tus)"

lemma attempt_unverified:
  assumes "aprsis_attempt pr cfg a c = (r, events, c')" "silent_attempt cfg a"
  shows "r \<noteq> Left True"
proof (cases a)
  case (Reached flush t tus)
  let ?ss = "\<lparr>ss_verified = False, ss_connected_at = t, ss_last_rx = t\<rparr>"
  have "r1 \<noteq> Left True" if "connection_loop pr cfg tus ?ss c1 = (r1, ev1, ss1, c2)" for r1 ev1 ss1 c1 c2
    using loop_unverified [OF that] assms(2) Reached by (simp add: silent_attempt_def)
  then show ?thesis using assms(1) Reached
    by (auto simp: aprsis_attempt_def aprsis_connection_def Let_def
        split: sum.splits option.splits prod.splits turn_end.splits)
qed (use assms(1) in \<open>auto simp: aprsis_attempt_def\<close>)

definition base_delay :: "aprsis_config \<Rightarrow> nat \<Rightarrow> rat" where
  "base_delay cfg n = min (ic_reconnect_max_delay cfg) (ic_reconnect_delay cfg * 2 ^ n)"

lemma base_delay_Suc:
  assumes "0 \<le> ic_reconnect_delay cfg" "ic_reconnect_delay cfg \<le> ic_reconnect_max_delay cfg"
  shows "min (ic_reconnect_max_delay cfg) (max (ic_reconnect_delay cfg) (base_delay cfg n * 2)) = base_delay cfg (Suc n)"
proof -
  have "ic_reconnect_delay cfg * 1 \<le> ic_reconnect_delay cfg * 2 ^ n" using assms(1) by (intro mult_left_mono) simp_all
  then show ?thesis using assms by (auto simp: base_delay_def min_def max_def)
qed

lemma jitter_bounds:
  assumes "0 \<le> u" "u < 1" "0 \<le> ic_reconnect_jitter cfg" "ic_reconnect_jitter cfg \<le> 1" "0 \<le> delay"
  shows "(1 - ic_reconnect_jitter cfg) * delay \<le> jittered_delay cfg u delay
    \<and> jittered_delay cfg u delay \<le> (1 + ic_reconnect_jitter cfg) * delay"
proof -
  let ?s = "delay * ic_reconnect_jitter cfg"
  have s: "0 \<le> ?s" "?s \<le> delay" using assms by (simp_all add: mult_left_le)
  have "0 \<le> 2 * ?s * u" "2 * ?s * u \<le> 2 * ?s * 1" using s(1) assms(1,2) by (simp, intro mult_left_mono) simp_all
  then show ?thesis using s assms(5)
    by (auto simp: jittered_delay_def Let_def algebra_simps max_def)
qed

lemma run_silent:
  assumes "0 \<le> ic_reconnect_delay cfg" "ic_reconnect_delay cfg \<le> ic_reconnect_max_delay cfg"
    "0 \<le> ic_reconnect_jitter cfg" "ic_reconnect_jitter cfg \<le> 1"
  shows "run_rounds pr cfg as (c, base_delay cfg n) = (delays, c', retry) \<Longrightarrow>
    list_all (\<lambda>(a, u). silent_attempt cfg a \<and> 0 \<le> u \<and> u < 1) as \<Longrightarrow>
    \<forall>i < length delays. (1 - ic_reconnect_jitter cfg) * base_delay cfg (n + i) \<le> delays ! i
      \<and> delays ! i \<le> (1 + ic_reconnect_jitter cfg) * base_delay cfg (n + i)"
proof (induction as arbitrary: c n delays c' retry)
  case (Cons au as)
  obtain a u where au: "au = (a, u)" by (cases au)
  obtain slept ev c1 retry1 where r: "run_round pr cfg a u (c, base_delay cfg n) = (slept, ev, c1, retry1)"
    by (metis prod_cases4)
  show ?case
  proof (cases slept)
    case (Some t)
    obtain delays2 c2 retry2 where l: "run_rounds pr cfg as (c1, retry1) = (delays2, c2, retry2)" by (metis prod_cases3)
    obtain x ev' c'' where a: "aprsis_attempt pr cfg a c = (x, ev', c'')" by (metis prod_cases3)
    have "x \<noteq> Left True" using attempt_unverified [OF a] Cons.prems(2) au by simp
    then have t: "t = jittered_delay cfg u (base_delay cfg n)" "retry1 = base_delay cfg (Suc n)"
      using r a Some base_delay_Suc [OF assms(1,2)] by (auto simp: run_round_def Let_def split: if_splits)
    have "0 \<le> base_delay cfg n" using assms(1,2) by (simp add: base_delay_def)
    then have b: "(1 - ic_reconnect_jitter cfg) * base_delay cfg n \<le> t \<and> t \<le> (1 + ic_reconnect_jitter cfg) * base_delay cfg n"
      unfolding t(1) using jitter_bounds assms(3,4) Cons.prems(2) au by simp
    have "delays = t # delays2" using Cons.prems(1) r l Some au by simp
    then show ?thesis using Cons.IH [of c1 "Suc n" delays2 c2 retry2] l t(2) b Cons.prems(2)
      by (auto simp: less_Suc_eq_0_disj)
  qed (use Cons.prems(1) r au in simp)
qed simp

text \<open>Waiting times: with a configuration that passes its checks, after the n-th attempt in a
  row that did not become a verified session the client sleeps \<open>reconnect_delay * 2 ^ n\<close>, at most
  \<open>reconnect_max_delay\<close>, up to the jitter.\<close>

theorem reconnect_delays:
  assumes "check_aprsis cfg = Inr cfg" "aprsis_run pr cfg as c = (delays, c', retry)"
    "list_all (\<lambda>(a, u). silent_attempt cfg a \<and> 0 \<le> u \<and> u < 1) as" "i < length delays"
  shows "(1 - ic_reconnect_jitter cfg) * base_delay cfg i \<le> delays ! i
    \<and> delays ! i \<le> (1 + ic_reconnect_jitter cfg) * base_delay cfg i \<and> base_delay cfg i \<le> ic_reconnect_max_delay cfg"
proof -
  have "0 \<le> ic_reconnect_delay cfg" "ic_reconnect_delay cfg \<le> ic_reconnect_max_delay cfg"
    "0 \<le> ic_reconnect_jitter cfg" "ic_reconnect_jitter cfg \<le> 1"
    using assms(1) by (auto simp: check_aprsis_def split: if_splits)
  moreover from this have "base_delay cfg 0 = ic_reconnect_delay cfg" by (simp add: base_delay_def)
  ultimately show ?thesis
    using run_silent [of cfg pr as "c\<lparr>is_running := True\<rparr>" 0 delays c' retry] assms(2-4)
    by (simp add: aprsis_run_def base_delay_def)
qed

section \<open>Off the air\<close>

text \<open>A turn that brings no packet for the service and polls at time \<open>t\<close> or later.\<close>

definition quiet_turn :: "aprsis_config \<Rightarrow> rat \<Rightarrow> turn \<Rightarrow> bool" where
  "quiet_turn cfg t tu \<longleftrightarrow> t \<le> tu_poll_now tu \<and> (case tu_reading tu of
     ReadLine raw \<Rightarrow> (case parse_packet (decode_line raw) of
         Some (_, addressee, _, _) \<Rightarrow> addressee \<noteq> upper (ic_callsign cfg) | None \<Rightarrow> True)
   | _ \<Rightarrow> True)"

definition quiet_attempt :: "aprsis_config \<Rightarrow> rat \<Rightarrow> attempt \<Rightarrow> bool" where
  "quiet_attempt cfg t a = (case a of Unreachable \<Rightarrow> True | Reached _ _ tus \<Rightarrow> list_all (quiet_turn cfg t) tus)"

definition stuck :: "rat \<Rightarrow> key \<Rightarrow> burst_adapter \<Rightarrow> bool" where
  "stuck t k s \<longleftrightarrow> burst_ok s \<and> blocked t k s"

lemma quiet_line:
  assumes "line_arrives pr cfg tu (decode_line raw) ss c = (failed, events, ss', c')"
    "quiet_turn cfg t tu" "tu_reading tu = ReadLine raw"
  shows "c' = c"
  using assms by (auto simp: line_arrives_def quiet_turn_def Let_def split: if_splits option.splits)

lemma transmit_stuck:
  assumes "stuck t k (is_adapter c)" "t \<le> tu_poll_now tu" "transmit pr tu c = (failed, events, c')"
  shows "failed \<noteq> None \<and> stuck t k (is_adapter c') \<and> is_written c' = is_written c"
proof -
  obtain m s' where "burst_poll (tu_poll_now tu) (is_adapter c) = (Inl (CarriageError m), [], s')" "burst_ok s'" "blocked t k s'"
    using burst_poll_blocked [OF _ _ assms(2)] assms(1) unfolding stuck_def by blast
  then show ?thesis using assms(3) by (auto simp: transmit_def stuck_def)
qed

lemma turn_stuck:
  assumes "connection_turn pr cfg tu ss c = (r, events, ss', c')" "stuck t k (is_adapter c)" "quiet_turn cfg t tu"
  shows "stuck t k (is_adapter c') \<and> is_written c' = is_written c"
proof -
  have p: "t \<le> tu_poll_now tu" using assms(3) by (simp add: quiet_turn_def)
  have l: "line_arrives pr cfg tu (decode_line raw) ss1 c1 = (failed, ev, ss2, c2) \<Longrightarrow> tu_reading tu = ReadLine raw \<Longrightarrow> c2 = c1"
    for raw ss1 c1 failed ev ss2 c2 using quiet_line assms(3) by blast
  have x: "transmit pr tu c1 = (failed, ev, c2) \<Longrightarrow> stuck t k (is_adapter c1) \<Longrightarrow>
      stuck t k (is_adapter c2) \<and> is_written c2 = is_written c1" for c1 failed ev c2
    using transmit_stuck p by blast
  show ?thesis
    using assms(1,2) unfolding connection_turn_def Let_def
    by (auto split: if_splits option.splits reading.splits prod.splits dest!: l dest: x)
qed

lemma loop_stuck:
  "connection_loop pr cfg tus ss c = (r, events, ss', c') \<Longrightarrow> stuck t k (is_adapter c) \<Longrightarrow> list_all (quiet_turn cfg t) tus
    \<Longrightarrow> stuck t k (is_adapter c') \<and> is_written c' = is_written c"
proof (induction tus arbitrary: ss c r events ss' c')
  case (Cons tu tus)
  obtain r1 ev1 ss1 c1 where t: "connection_turn pr cfg tu ss c = (r1, ev1, ss1, c1)" by (metis prod_cases4)
  have u: "stuck t k (is_adapter c1) \<and> is_written c1 = is_written c"
    using turn_stuck [OF t Cons.prems(2)] Cons.prems(3) by simp
  obtain r2 ev2 ss2 c2 where l: "connection_loop pr cfg tus ss1 c1 = (r2, ev2, ss2, c2)" by (metis prod_cases4)
  show ?case using Cons.IH [OF l] u Cons.prems(1,3) t l by (cases r1) auto
qed simp

lemma lost_stuck: "keeps (stuck t k) connection_lost"
proof -
  have core: "keeps (blocked t k) (markA_failed d)" for d
    by (auto simp: keeps_def coreA_def blocked_def split: prod.splits)
  have "blocked t k s \<Longrightarrow> blocked t k (s\<lparr>ad_queue := [], ad_pending := [], ad_immediate := []\<rparr>)" for s
    by (simp add: blocked_def)
  then have "keeps (blocked t k) connection_lost"
    unfolding connection_lost_def by (intro keeping core)
  then show ?thesis using connection_lost_ok by (auto simp: keeps_def stuck_def)
qed

lemma attempt_stuck:
  assumes "aprsis_attempt pr cfg a c = (r, events, c')" "stuck t k (is_adapter c)" "quiet_attempt cfg t a"
  shows "stuck t k (is_adapter c') \<and>
    (is_written c' = is_written c \<or> set (is_written c') \<subseteq> {line. encode_line (login_line cfg) = Inr line})"
proof (cases a)
  case (Reached flush t0 tus)
  show ?thesis
  proof (cases "encode_line (login_line cfg)")
    case (Inr line)
    show ?thesis
    proof (cases flush)
      case None
      let ?ss = "\<lparr>ss_verified = False, ss_connected_at = t0, ss_last_rx = t0\<rparr>" and ?c = "c\<lparr>is_written := [line]\<rparr>"
      obtain r1 ev1 ss1 c1 where l: "connection_loop pr cfg tus ?ss ?c = (r1, ev1, ss1, c1)" by (metis prod_cases4)
      have u: "stuck t k (is_adapter c1)" "is_written c1 = [line]"
        using loop_stuck [OF l] assms(2,3) Reached by (simp_all add: quiet_attempt_def)
      obtain x ev2 s2 where lost: "connection_lost (is_adapter c1) = (x, ev2, s2)" by (metis prod_cases3)
      have "stuck t k s2" by (rule keeps_run [OF lost_stuck u(1) lost])
      moreover have "aprsis_connection pr cfg t0 tus ?c = (r, events, c')"
        using assms(1) Inr None Reached by (simp add: aprsis_attempt_def)
      ultimately show ?thesis using l u Inr lost
        by (auto simp: aprsis_connection_def split: turn_end.splits sum.splits)
    qed (use assms(1,2) Inr Reached in \<open>auto simp: aprsis_attempt_def\<close>)
  qed (use assms(1,2) Reached in \<open>auto simp: aprsis_attempt_def\<close>)
qed (use assms(1,2) in \<open>auto simp: aprsis_attempt_def\<close>)

lemma rounds_stuck:
  "run_rounds pr cfg as (c, retry) = (delays, c', retry') \<Longrightarrow> stuck t k (is_adapter c) \<Longrightarrow>
    list_all (\<lambda>(a, u). quiet_attempt cfg t a) as \<Longrightarrow> stuck t k (is_adapter c') \<and>
    (is_written c' = is_written c \<or> set (is_written c') \<subseteq> {line. encode_line (login_line cfg) = Inr line})"
proof (induction as arbitrary: c retry delays c' retry')
  case (Cons au as)
  obtain a u where au: "au = (a, u)" by (cases au)
  obtain slept ev c1 retry1 where r: "run_round pr cfg a u (c, retry) = (slept, ev, c1, retry1)" by (metis prod_cases4)
  obtain x ev' c'' where a: "aprsis_attempt pr cfg a c = (x, ev', c'')" by (metis prod_cases3)
  have "c1 = c \<or> c1 = c''" using r a by (auto simp: run_round_def Let_def split: if_splits)
  then have u: "stuck t k (is_adapter c1)"
      "is_written c1 = is_written c \<or> set (is_written c1) \<subseteq> {line. encode_line (login_line cfg) = Inr line}"
    using attempt_stuck [OF a Cons.prems(2)] Cons.prems(2,3) au by auto
  obtain delays2 c2 retry2 where l: "run_rounds pr cfg as (c1, retry1) = (delays2, c2, retry2)" by (metis prod_cases3)
  show ?case using Cons.IH [OF l u(1)] u Cons.prems(1,3) au r l by (cases slept) auto
qed simp

text \<open>C31. A legacy fragment takes the node off the air: when the first fragment of a longer Q1
  transaction has arrived whose ID does not fit the byte of the burst controls, then, whatever
  connections are made and verified after the repair grace, nothing but login lines is ever
  written again, for no peer, until another packet reaches the service.\<close>

theorem legacy_fragment_off_air:
  assumes "burst_ok (is_adapter c)" "validate_peer peer = Inr peer" "parse_fragment body = Inr f"
    "\<not> transaction_byte (af_transaction_id f)" "1 < af_total f"
    "map_of (ba_rx_progress (is_adapter c)) (peer, af_transaction_id f) = None"
    "map_of (ra_entries (ad_reassembly (is_adapter c))) (peer, af_transaction_id f) = None"
    "fst (replay_get peer (af_transaction_id f) (rd_now rd) (ad_replay (is_adapter c))) = None"
    "list_all (\<lambda>(a, u). quiet_attempt cfg (rd_now rd + ba_repair_grace (is_adapter c)) a) as"
  shows "\<exists>s'. guarded_receive rd peer body (is_adapter c) = (Inr Fragment, [], s')
    \<and> (case run_rounds pr cfg as (c\<lparr>is_adapter := s'\<rparr>, retry) of (_, c', _) \<Rightarrow>
        is_written c' = is_written c \<or> set (is_written c') \<subseteq> {line. encode_line (login_line cfg) = Inr line})"
proof -
  obtain s' where run: "guarded_receive rd peer body (is_adapter c) = (Inr Fragment, [], s')"
    "stuck (rd_now rd + ba_repair_grace (is_adapter c)) (peer, af_transaction_id f) s'"
    using first_fragment_blocks [OF assms(1-8)] by (auto simp: stuck_def)
  obtain delays c' retry' where l: "run_rounds pr cfg as (c\<lparr>is_adapter := s'\<rparr>, retry) = (delays, c', retry')"
    by (metis prod_cases3)
  show ?thesis using rounds_stuck [OF l _ assms(9)] run l by auto
qed

section \<open>The log\<close>

text \<open>Describing what is received and sent never raises, whatever the bodies are, so that it
  cannot end a connection, and the tables it keeps stay within their capacity.\<close>

theorem descriptions_never_raise:
  assumes "new_diagnostics ttl n = Inr d" "describe_all pr ls d = (rs, d')"
  shows "list_all is_ok rs \<and> length rs = length ls
    \<and> int (length (ra_entries (dg_rx d'))) \<le> n \<and> int (length (ra_entries (dg_tx d'))) \<le> n"
proof -
  have "length rs = length ls"
    using assms(2) by (induction ls arbitrary: d rs) (auto split: prod.splits)
  then show ?thesis
    using describe_all_ok [OF conjunct1 [OF diagnostics_new [OF assms(1)]] assms(2)] diagnostics_new [OF assms(1)]
    by (auto simp: list_all_iff diagnostics_ok_def reassembler_ok_def)
qed

section \<open>Examples\<close>

definition sample_aprsis :: aprsis_config where
  "sample_aprsis = \<lparr>ic_passcode = lit ''12345'', ic_callsign = lit ''OPENQSP'', ic_software = lit ''OpenQSP'',
     ic_version = lit ''0.1'', ic_reconnect_delay = 5, ic_reconnect_max_delay = 30, ic_reconnect_jitter = 1 / 5,
     ic_connect_timeout = 10, ic_login_timeout = 10, ic_idle_timeout = 120, ic_poll_interval = 1,
     ic_require_verified = True, ic_filter = None\<rparr>"

definition sample_link :: aprsis_client where
  "sample_link = \<lparr>is_adapter = sample_burst, is_running = True,
     is_diagnostics = (let ra = \<lparr>ra_ttl = 120, ra_max_entries = 128, ra_entries = []\<rparr> in \<lparr>dg_rx = ra, dg_tx = ra\<rparr>),
     is_last_igate = Map.empty, is_written = []\<rparr>"

text \<open>A turn in which the server refuses the login, and one in which nothing arrives.\<close>

definition sample_turn :: "reading \<Rightarrow> turn" where
  "sample_turn r = \<lparr>tu_stop = False, tu_eof = False, tu_now = 1, tu_reading = r, tu_then = 2, tu_log_now = 2,
     tu_readings = sample_readings, tu_poll_now = 100, tu_sent_at = 100, tu_drain = None\<rparr>"

definition refusal :: reading where
  "refusal = ReadLine (map byte_of (lit ''# logresp OPENQSP unverified, server T''))"

definition confirmation :: reading where
  "confirmation = ReadLine (map byte_of (lit ''# logresp OPENQSP verified, server T''))"

lemma sample_confirmation: "verifies sample_aprsis (sample_turn confirmation)" "quiet_turn sample_aprsis 6 (sample_turn confirmation)"
  by (simp_all add: verifies_def sample_turn_def confirmation_def sample_aprsis_def decode_line_def parse_logresp_def
      lit_def is_space_def strip_def lower_ascii_def Let_def match_ci_def ignore_case_def quiet_turn_def parse_packet_def
      match_packet_def rstrip_newlines_def)

lemma sample_refusal: "\<not> verifies sample_aprsis (sample_turn refusal)"
  by (simp add: verifies_def sample_turn_def refusal_def sample_aprsis_def decode_line_def parse_logresp_def
      lit_def is_space_def strip_def lower_ascii_def Let_def)

theorem silent_until_verified_witness:
  "case aprsis_attempt (\<lambda>_. False) sample_aprsis (Reached None 0 [sample_turn refusal]) sample_link of
     (r, events, c') \<Rightarrow> r \<noteq> Left True
    \<and> is_written c' = (case encode_line (login_line sample_aprsis) of Inl _ \<Rightarrow> [] | Inr line \<Rightarrow> [line])
    \<and> (events = [] \<and> is_adapter c' = is_adapter sample_link
       \<or> r \<noteq> Goes_on \<and> (\<exists>x. connection_lost (is_adapter sample_link) = (x, events, is_adapter c')))"
proof -
  obtain r events c' where a: "aprsis_attempt (\<lambda>_. False) sample_aprsis (Reached None 0 [sample_turn refusal]) sample_link
      = (r, events, c')" by (metis prod_cases3)
  show ?thesis using silent_until_verified [OF a] sample_refusal unfolding a by simp
qed

theorem aprs_is_carries_fragments_witness:
  "\<exists>fs. fragment_frame_v2 [1, 0x44, 0, 0] (lit ''00A'') = Inr fs
    \<and> concat (map (\<lambda>f. the (af_raw_data f)) fs) = [1, 0x44, 0, 0]
    \<and> list_all (\<lambda>f. \<exists>b raw. fragment_body f = Inr b \<and> parse_fragment b = Inr f
        \<and> encode_line (format_packet \<lparr>op_source = lit ''NODE1'', op_destination = lit ''A1A'', op_body = b, op_is_ack = False\<rparr>)
            = Inr raw
        \<and> parse_packet (decode_line raw) = Some (lit ''NODE1'', lit ''A1A'', b, None)) fs"
  by (rule aprs_is_carries_fragments [where obj = Stored and u = False and n = 10])
    (simp_all add: sample_peer, simp_all add: encode_frame_def codec_encode_frame_def parse_base36_def lit_def B36_mem int36_def digit36_def)

theorem reconnect_delays_witness:
  "case aprsis_run (\<lambda>_. False) sample_aprsis [(Unreachable, 1 / 2), (Unreachable, 0)] sample_link of
     (delays, _, _) \<Rightarrow> (1 - ic_reconnect_jitter sample_aprsis) * base_delay sample_aprsis 1 \<le> delays ! 1
      \<and> delays ! 1 \<le> (1 + ic_reconnect_jitter sample_aprsis) * base_delay sample_aprsis 1
      \<and> base_delay sample_aprsis 1 \<le> ic_reconnect_max_delay sample_aprsis"
proof -
  obtain delays c' retry where a: "aprsis_run (\<lambda>_. False) sample_aprsis [(Unreachable, 1 / 2), (Unreachable, 0)] sample_link
      = (delays, c', retry)" by (metis prod_cases3)
  then have "1 < length delays"
    by (auto simp: aprsis_run_def run_round_def aprsis_attempt_def sample_link_def Let_def)
  moreover have "check_aprsis sample_aprsis = Inr sample_aprsis"
    by (simp add: check_aprsis_def sample_aprsis_def lit_def)
  ultimately show ?thesis using reconnect_delays [OF _ a] unfolding a by (simp add: silent_attempt_def)
qed

theorem legacy_fragment_off_air_witness:
  "\<exists>s'. guarded_receive sample_readings (lit ''A1A'') (lit ''Q1:0ZZ:00/02:AUQ'') (is_adapter sample_link) = (Inr Fragment, [], s')
    \<and> (case run_rounds (\<lambda>_. False) sample_aprsis [(Reached None 0 [sample_turn confirmation], 0)]
          (sample_link\<lparr>is_adapter := s'\<rparr>, 5) of (_, c', _) \<Rightarrow>
        is_written c' = is_written sample_link
        \<or> set (is_written c') \<subseteq> {line. encode_line (login_line sample_aprsis) = Inr line})"
proof (rule legacy_fragment_off_air [OF _ sample_peer(2) sample_legacy_fragment(2)])
  show "burst_ok (is_adapter sample_link)"
    using new_burst_ok [OF sample_new sample_config] by (simp add: sample_link_def)
  have "parse_base36 (lit ''0ZZ'') 3 = Inr 1295"
    by (simp add: parse_base36_def lit_def B36_mem int36_def digit36_def)
  then show "\<not> transaction_byte (af_transaction_id \<lparr>af_transaction_id = lit ''0ZZ'', af_index = 0, af_total = 2,
      af_data = lit ''AUQ'', af_message_id = None, af_version = 1, af_raw_data = None\<rparr>)"
    by (simp add: transaction_byte_def)
qed (simp_all add: sample_link_def sample_state replay_get_def replay_expire_def expire_replays_def sample_readings_def Let_def
    quiet_attempt_def sample_confirmation)

theorem descriptions_never_raise_witness:
  "case describe_all (\<lambda>_. False) [(Rx, lit ''A1A'', lit ''Q1:0ZZ:00/02:AUQ'', 1), (Tx, lit ''A1A'', lit ''ack4F'', 2)]
      (is_diagnostics sample_link) of (rs, d') \<Rightarrow>
    list_all is_ok rs \<and> length rs = length [(Rx, lit ''A1A'', lit ''Q1:0ZZ:00/02:AUQ'', 1 :: rat), (Tx, lit ''A1A'', lit ''ack4F'', 2)]
    \<and> int (length (ra_entries (dg_rx d'))) \<le> 128 \<and> int (length (ra_entries (dg_tx d'))) \<le> 128"
proof -
  have "new_diagnostics 120 128 = Inr (is_diagnostics sample_link)"
    by (simp add: new_diagnostics_def new_reassembler_def sample_link_def Let_def)
  moreover obtain rs d' where a: "describe_all (\<lambda>_. False) [(Rx, lit ''A1A'', lit ''Q1:0ZZ:00/02:AUQ'', 1), (Tx, lit ''A1A'', lit ''ack4F'', 2)]
      (is_diagnostics sample_link) = (rs, d')" by fastforce
  ultimately show ?thesis using descriptions_never_raise [OF _ a] unfolding a by blast
qed

end
