(* ===== verification/Migrations.thy ===== *)
theory Migrations
  imports Database "HOL-Library.List_Lexorder"
begin

text \<open>
  \<open>storage/migrations.py\<close> and the initialisation of \<open>storage/database.py\<close>: the schema of a
  database file and the ordered migrations that bring it to version 5, statement by statement.
  A statement that names a table that does not exist, or makes one that does, or violates a
  constraint raises; the transaction around the migrations is rolled back then. TEXT columns that
  are keys hold texts, as everything that writes them binds texts; the other columns of the old
  tables hold any value their constraints admit.
\<close>

section \<open>Schemas\<close>

record message1 =
  m1_sequence :: bytes
  m1_id :: bytes
  m1_created :: sqlval
  m1_accepted :: sqlval
  m1_author :: sqlval
  m1_recipient :: pystr
  m1_body :: sqlval
  m1_hash :: sqlval

record bulletin1 =
  b1_sequence :: bytes
  b1_id :: bytes
  b1_created :: sqlval
  b1_accepted :: sqlval
  b1_author :: sqlval
  b1_title :: sqlval
  b1_body :: sqlval
  b1_hash :: sqlval

record message2 =
  m2_recipient :: pystr
  m2_sequence :: int
  m2_created :: int
  m2_accepted :: int
  m2_author :: sqlval
  m2_body :: sqlval

text \<open>The tables named \<open>messages\<close> and \<open>bulletins\<close> have other columns in other versions.\<close>

datatype message_table = Messages1 "message1 list" | Messages2 "message2 list" | Messages4 "message_row list"

datatype bulletin_table = Bulletins1 "bulletin1 list" | Bulletins2 "bulletin_row list"

datatype table =
    T_objects | T_sequences | T_messages | T_bulletins | T_messages_v1 | T_bulletins_v1 | T_messages_v3
  | T_mailbox_sequences | T_bulletin_sequence | T_accounts | T_api_message_sequence | T_api_idempotency
  | T_conversation_reads | T_deliveries

text \<open>
  A database file: its \<open>user_version\<close>, its tables, and the indexes and triggers with the table each
  belongs to. A table that does not exist is \<open>None\<close>.
\<close>

record schema =
  user_version :: int
  sc_attached :: "(pystr \<times> table) list"
  sc_objects :: "(bytes \<rightharpoonup> pystr) option"
  sc_sequences :: "(pystr \<rightharpoonup> bytes) option"
  sc_messages :: "message_table option"
  sc_bulletins :: "bulletin_table option"
  sc_messages_v1 :: "message_table option"
  sc_bulletins_v1 :: "bulletin_table option"
  sc_messages_v3 :: "message_table option"
  sc_mailbox_sequences :: "(pystr \<rightharpoonup> int) option"
  sc_bulletin_sequence :: "int option option"
  sc_accounts :: "(pystr \<rightharpoonup> account_row) option"
  sc_api_message_sequence :: "int option option"
  sc_api_idempotency :: "(pystr \<times> pystr \<times> pystr \<rightharpoonup> pystr \<times> pystr \<times> int) option"
  sc_conversation_reads :: "(pystr \<times> pystr \<rightharpoonup> int) option"
  sc_deliveries :: "delivery_row list option"

definition empty_schema :: schema where
  "empty_schema = \<lparr>user_version = 0, sc_attached = [], sc_objects = None, sc_sequences = None, sc_messages = None,
     sc_bulletins = None, sc_messages_v1 = None, sc_bulletins_v1 = None, sc_messages_v3 = None,
     sc_mailbox_sequences = None, sc_bulletin_sequence = None, sc_accounts = None, sc_api_message_sequence = None,
     sc_api_idempotency = None, sc_conversation_reads = None, sc_deliveries = None\<rparr>"

fun has_table :: "schema \<Rightarrow> table \<Rightarrow> bool" where
  "has_table s T_objects = (sc_objects s \<noteq> None)"
| "has_table s T_sequences = (sc_sequences s \<noteq> None)"
| "has_table s T_messages = (sc_messages s \<noteq> None)"
| "has_table s T_bulletins = (sc_bulletins s \<noteq> None)"
| "has_table s T_messages_v1 = (sc_messages_v1 s \<noteq> None)"
| "has_table s T_bulletins_v1 = (sc_bulletins_v1 s \<noteq> None)"
| "has_table s T_messages_v3 = (sc_messages_v3 s \<noteq> None)"
| "has_table s T_mailbox_sequences = (sc_mailbox_sequences s \<noteq> None)"
| "has_table s T_bulletin_sequence = (sc_bulletin_sequence s \<noteq> None)"
| "has_table s T_accounts = (sc_accounts s \<noteq> None)"
| "has_table s T_api_message_sequence = (sc_api_message_sequence s \<noteq> None)"
| "has_table s T_api_idempotency = (sc_api_idempotency s \<noteq> None)"
| "has_table s T_conversation_reads = (sc_conversation_reads s \<noteq> None)"
| "has_table s T_deliveries = (sc_deliveries s \<noteq> None)"

datatype schema_error =
    Out_of_range | Missing_migration int | Unsupported_schema int | Unexpected_version int
  | Exists_already | No_such_table | Constraint_failed

type_synonym statement = "schema \<Rightarrow> schema_error + schema"

section \<open>Statements\<close>

definition create_table :: "table \<Rightarrow> (schema \<Rightarrow> schema) \<Rightarrow> statement" where
  "create_table t added s = (if has_table s t then Inl Exists_already else Inr (added s))"

text \<open>CREATE INDEX and CREATE TRIGGER.\<close>

definition attach :: "pystr \<Rightarrow> table \<Rightarrow> statement" where
  "attach name t s =
     (if \<not> has_table s t then Inl No_such_table
      else if name \<in> fst ` set (sc_attached s) then Inl Exists_already
      else Inr (s\<lparr>sc_attached := sc_attached s @ [(name, t)]\<rparr>))"

text \<open>ALTER TABLE ... RENAME keeps the indexes and triggers of the table, DROP TABLE removes them.\<close>

definition rename_table :: "table \<Rightarrow> table \<Rightarrow> (schema \<Rightarrow> schema) \<Rightarrow> statement" where
  "rename_table old new moved s =
     (if \<not> has_table s old then Inl No_such_table
      else if has_table s new then Inl Exists_already
      else Inr ((moved s)\<lparr>sc_attached := map (\<lambda>(name, t). (name, if t = old then new else t)) (sc_attached s)\<rparr>))"

definition drop_table :: "table \<Rightarrow> (schema \<Rightarrow> schema) \<Rightarrow> statement" where
  "drop_table t removed s =
     (if \<not> has_table s t then Inl No_such_table
      else Inr ((removed s)\<lparr>sc_attached := filter (\<lambda>(_, t'). t' \<noteq> t) (sc_attached s)\<rparr>))"

definition insert_sequences :: statement where
  "insert_sequences s =
     (case sc_sequences s of
        None \<Rightarrow> Inl No_such_table
      | Some table \<Rightarrow>
          if table (lit ''messages'') \<noteq> None \<or> table (lit ''bulletins'') \<noteq> None then Inl Constraint_failed
          else Inr (s\<lparr>sc_sequences := Some (table(lit ''messages'' \<mapsto> replicate 8 0, lit ''bulletins'' \<mapsto> replicate 8 0))\<rparr>))"

text \<open>\<open>ROW_NUMBER() OVER (PARTITION BY key ORDER BY ...)\<close> on rows in that order.\<close>

fun row_numbers :: "('a \<Rightarrow> 'k) \<Rightarrow> ('k \<Rightarrow> int) \<Rightarrow> 'a list \<Rightarrow> (int \<times> 'a) list" where
  "row_numbers key seen [] = []"
| "row_numbers key seen (x # xs) =
     (seen (key x) + 1, x) # row_numbers key (seen(key x := seen (key x) + 1)) xs"

text \<open>\<open>ORDER BY sequence, message_id\<close>: two stable sorts, the last column first.\<close>

definition order_messages1 :: "message1 list \<Rightarrow> message1 list" where
  "order_messages1 rows = sort_key m1_sequence (sort_key m1_id rows)"

definition order_bulletins1 :: "bulletin1 list \<Rightarrow> bulletin1 list" where
  "order_bulletins1 rows = sort_key b1_sequence (sort_key b1_id rows)"

text \<open>The CHECK and NOT NULL constraints of the new tables.\<close>

definition u32_column :: "sqlval \<Rightarrow> int option" where
  "u32_column v = (case v of SInt i \<Rightarrow> if 0 \<le> i \<and> i \<le> MAX_U32 then Some i else None | _ \<Rightarrow> None)"

definition time_column :: "sqlval \<Rightarrow> int option" where
  "time_column v = (case v of SInt i \<Rightarrow> if 0 \<le> i then Some i else None | _ \<Rightarrow> None)"

definition message2_of :: "int \<times> message1 \<Rightarrow> schema_error + message2" where
  "message2_of nr =
     (case nr of (n, r) \<Rightarrow>
        (case (u32_column (m1_created r), time_column (m1_accepted r)) of
           (Some created, Some accepted) \<Rightarrow>
             if 1 \<le> n \<and> n \<le> MAX_U32 \<and> m1_author r \<noteq> SNull \<and> m1_body r \<noteq> SNull
             then Inr \<lparr>m2_recipient = m1_recipient r, m2_sequence = n, m2_created = created, m2_accepted = accepted,
                    m2_author = m1_author r, m2_body = m1_body r\<rparr>
             else Inl Constraint_failed
         | _ \<Rightarrow> Inl Constraint_failed))"

definition copy_messages1 :: statement where
  "copy_messages1 s =
     (case (sc_messages_v1 s, sc_messages s) of
        (Some (Messages1 rows), Some (Messages2 [])) \<Rightarrow>
          bindE (mapE message2_of (row_numbers m1_recipient (\<lambda>_. 0) (order_messages1 rows))) (\<lambda>rows'.
          Inr (s\<lparr>sc_messages := Some (Messages2 rows')\<rparr>))
      | _ \<Rightarrow> Inl No_such_table)"

text \<open>\<open>SELECT recipient, MAX(mailbox_sequence) FROM messages GROUP BY recipient\<close>.\<close>

definition last_sequence :: "message2 list \<Rightarrow> pystr \<Rightarrow> int option" where
  "last_sequence rows p =
     (case filter (\<lambda>r. m2_recipient r = p) rows of
        [] \<Rightarrow> None | r # rs \<Rightarrow> Some (fold (\<lambda>r. max (m2_sequence r)) rs (m2_sequence r)))"

definition fill_mailbox_sequences :: statement where
  "fill_mailbox_sequences s =
     (case (sc_messages s, sc_mailbox_sequences s) of
        (Some (Messages2 rows), Some _) \<Rightarrow>
          if \<forall>r \<in> set rows. 0 \<le> m2_sequence r \<and> m2_sequence r \<le> MAX_U32
          then Inr (s\<lparr>sc_mailbox_sequences := Some (last_sequence rows)\<rparr>)
          else Inl Constraint_failed
      | _ \<Rightarrow> Inl No_such_table)"

definition bulletin_of :: "int \<times> bulletin1 \<Rightarrow> schema_error + bulletin_row" where
  "bulletin_of nr =
     (case nr of (n, r) \<Rightarrow>
        (case (u32_column (b1_created r), time_column (b1_accepted r)) of
           (Some created, Some accepted) \<Rightarrow>
             if 1 \<le> n \<and> n \<le> MAX_U32 \<and> b1_author r \<noteq> SNull \<and> b1_title r \<noteq> SNull \<and> b1_body r \<noteq> SNull
             then Inr \<lparr>br_sequence = n, br_created = created, br_accepted = SInt accepted, br_author = b1_author r,
                    br_title = b1_title r, br_body = b1_body r\<rparr>
             else Inl Constraint_failed
         | _ \<Rightarrow> Inl Constraint_failed))"

definition copy_bulletins1 :: statement where
  "copy_bulletins1 s =
     (case (sc_bulletins_v1 s, sc_bulletins s) of
        (Some (Bulletins1 rows), Some (Bulletins2 [])) \<Rightarrow>
          bindE (mapE bulletin_of (row_numbers (\<lambda>_. ()) (\<lambda>_. 0) (order_bulletins1 rows))) (\<lambda>rows'.
          Inr (s\<lparr>sc_bulletins := Some (Bulletins2 rows')\<rparr>))
      | _ \<Rightarrow> Inl No_such_table)"

definition insert_bulletin_sequence :: statement where
  "insert_bulletin_sequence s =
     (case sc_bulletin_sequence s of
        None \<Rightarrow> Inl No_such_table
      | Some (Some _) \<Rightarrow> Inl Constraint_failed
      | Some None \<Rightarrow> Inr (s\<lparr>sc_bulletin_sequence := Some (Some 0)\<rparr>))"

text \<open>\<open>UPDATE ... SET last_value = (SELECT COUNT(*) ...)\<close>, on no row when there is none.\<close>

definition count_bulletins :: statement where
  "count_bulletins s =
     (case (sc_bulletins s, sc_bulletin_sequence s) of
        (Some (Bulletins2 rows), Some old) \<Rightarrow>
          if old \<noteq> None \<and> MAX_U32 < int (length rows) then Inl Constraint_failed
          else Inr (s\<lparr>sc_bulletin_sequence := Some (map_option (\<lambda>_. int (length rows)) old)\<rparr>)
      | _ \<Rightarrow> Inl No_such_table)"

definition insert_api_sequence :: statement where
  "insert_api_sequence s =
     (case sc_api_message_sequence s of
        None \<Rightarrow> Inl No_such_table
      | Some (Some _) \<Rightarrow> Inl Constraint_failed
      | Some None \<Rightarrow> Inr (s\<lparr>sc_api_message_sequence := Some (Some 0)\<rparr>))"

text \<open>\<open>ORDER BY accepted_at, recipient, mailbox_sequence\<close>; the text of SQLite compares by the bytes
  of its encoding, which is the order of the code points.\<close>

definition order_messages2 :: "message2 list \<Rightarrow> message2 list" where
  "order_messages2 rows = sort_key m2_accepted (sort_key m2_recipient (sort_key m2_sequence rows))"

definition message4_of :: "int \<times> message2 \<Rightarrow> message_row" where
  "message4_of nr = (case nr of (n, r) \<Rightarrow>
     \<lparr>mr_recipient = SText (m2_recipient r), mr_sequence = m2_sequence r, mr_api = n, mr_created = m2_created r,
      mr_accepted = SInt (m2_accepted r), mr_author = m2_author r, mr_body = m2_body r\<rparr>)"

definition copy_messages2 :: statement where
  "copy_messages2 s =
     (case (sc_messages_v3 s, sc_messages s) of
        (Some (Messages2 rows), Some (Messages4 [])) \<Rightarrow>
          (let rows' = map message4_of (row_numbers (\<lambda>_. ()) (\<lambda>_. 0) (order_messages2 rows)) in
           if list_all message_check rows' then Inr (s\<lparr>sc_messages := Some (Messages4 rows')\<rparr>)
           else Inl Constraint_failed)
      | _ \<Rightarrow> Inl No_such_table)"

definition count_messages :: statement where
  "count_messages s =
     (case (sc_messages s, sc_api_message_sequence s) of
        (Some (Messages4 rows), Some old) \<Rightarrow>
          Inr (s\<lparr>sc_api_message_sequence := Some (map_option (\<lambda>_. int (length rows)) old)\<rparr>)
      | _ \<Rightarrow> Inl No_such_table)"

section \<open>Migrations\<close>

definition migration_1 :: "statement list" where
  "migration_1 = [
     create_table T_objects (\<lambda>s. s\<lparr>sc_objects := Some Map.empty\<rparr>),
     create_table T_sequences (\<lambda>s. s\<lparr>sc_sequences := Some Map.empty\<rparr>),
     insert_sequences,
     create_table T_messages (\<lambda>s. s\<lparr>sc_messages := Some (Messages1 [])\<rparr>),
     create_table T_bulletins (\<lambda>s. s\<lparr>sc_bulletins := Some (Bulletins1 [])\<rparr>),
     attach (lit ''idx_messages_author_sequence'') T_messages,
     attach (lit ''idx_messages_recipient_sequence'') T_messages,
     attach (lit ''messages_object_type_insert'') T_messages,
     attach (lit ''messages_object_type_update'') T_messages,
     attach (lit ''bulletins_object_type_insert'') T_bulletins,
     attach (lit ''bulletins_object_type_update'') T_bulletins,
     attach (lit ''objects_type_is_immutable'') T_objects,
     attach (lit ''sequences_do_not_move_backwards'') T_sequences]"

definition migration_2 :: "statement list" where
  "migration_2 = [
     rename_table T_messages T_messages_v1 (\<lambda>s. s\<lparr>sc_messages_v1 := sc_messages s, sc_messages := None\<rparr>),
     rename_table T_bulletins T_bulletins_v1 (\<lambda>s. s\<lparr>sc_bulletins_v1 := sc_bulletins s, sc_bulletins := None\<rparr>),
     create_table T_mailbox_sequences (\<lambda>s. s\<lparr>sc_mailbox_sequences := Some Map.empty\<rparr>),
     create_table T_messages (\<lambda>s. s\<lparr>sc_messages := Some (Messages2 [])\<rparr>),
     copy_messages1,
     fill_mailbox_sequences,
     create_table T_bulletin_sequence (\<lambda>s. s\<lparr>sc_bulletin_sequence := Some None\<rparr>),
     insert_bulletin_sequence,
     create_table T_bulletins (\<lambda>s. s\<lparr>sc_bulletins := Some (Bulletins2 [])\<rparr>),
     copy_bulletins1,
     count_bulletins,
     drop_table T_messages_v1 (\<lambda>s. s\<lparr>sc_messages_v1 := None\<rparr>),
     drop_table T_bulletins_v1 (\<lambda>s. s\<lparr>sc_bulletins_v1 := None\<rparr>),
     drop_table T_objects (\<lambda>s. s\<lparr>sc_objects := None\<rparr>),
     drop_table T_sequences (\<lambda>s. s\<lparr>sc_sequences := None\<rparr>)]"

definition migration_3 :: "statement list" where
  "migration_3 = [create_table T_accounts (\<lambda>s. s\<lparr>sc_accounts := Some Map.empty\<rparr>)]"

definition migration_4 :: "statement list" where
  "migration_4 = [
     rename_table T_messages T_messages_v3 (\<lambda>s. s\<lparr>sc_messages_v3 := sc_messages s, sc_messages := None\<rparr>),
     create_table T_api_message_sequence (\<lambda>s. s\<lparr>sc_api_message_sequence := Some None\<rparr>),
     insert_api_sequence,
     create_table T_messages (\<lambda>s. s\<lparr>sc_messages := Some (Messages4 [])\<rparr>),
     copy_messages2,
     count_messages,
     attach (lit ''idx_messages_api_sequence'') T_messages,
     attach (lit ''idx_messages_author_api_sequence'') T_messages,
     attach (lit ''idx_messages_recipient_api_sequence'') T_messages,
     create_table T_api_idempotency (\<lambda>s. s\<lparr>sc_api_idempotency := Some Map.empty\<rparr>),
     drop_table T_messages_v3 (\<lambda>s. s\<lparr>sc_messages_v3 := None\<rparr>)]"

definition migration_5 :: "statement list" where
  "migration_5 = [
     create_table T_conversation_reads (\<lambda>s. s\<lparr>sc_conversation_reads := Some Map.empty\<rparr>),
     create_table T_deliveries (\<lambda>s. s\<lparr>sc_deliveries := Some []\<rparr>)]"

definition LATEST_SCHEMA_VERSION :: int where [simp]: "LATEST_SCHEMA_VERSION = 5"

definition MIGRATIONS :: "int \<Rightarrow> statement list option" where
  "MIGRATIONS version = map_of [(1, migration_1), (2, migration_2), (3, migration_3), (4, migration_4), (5, migration_5)] version"

fun run_statements :: "statement list \<Rightarrow> statement" where
  "run_statements [] s = Inr s"
| "run_statements (st # sts) s = bindE (st s) (run_statements sts)"

fun run_versions :: "(int \<Rightarrow> statement list option) \<Rightarrow> int list \<Rightarrow> statement" where
  "run_versions migrations [] s = Inr s"
| "run_versions migrations (version # versions) s =
     (case migrations version of
        None \<Rightarrow> Inl (Missing_migration version)
      | Some statements \<Rightarrow>
          bindE (run_statements statements s) (\<lambda>s. run_versions migrations versions (s\<lparr>user_version := version\<rparr>)))"

definition migrate :: "int \<Rightarrow> int \<Rightarrow> (int \<Rightarrow> statement list option) \<Rightarrow> schema \<Rightarrow> (schema_error + unit) \<times> schema" where
  "migrate current_version target_version migrations s =
     (if current_version < 0 \<or> current_version > target_version then (Inl Out_of_range, s)
      else (case run_versions migrations [current_version + 1..target_version] s of
          Inl e \<Rightarrow> (Inl e, s)
        | Inr s' \<Rightarrow> (Inr (), s')))"

definition initialize :: "schema \<Rightarrow> (schema_error + unit) \<times> schema" where
  "initialize s =
     (let version = user_version s in
      if version > LATEST_SCHEMA_VERSION then (Inl (Unsupported_schema version), s)
      else (case migrate version LATEST_SCHEMA_VERSION MIGRATIONS s of
          (Inl e, s) \<Rightarrow> (Inl e, s)
        | (Inr _, s) \<Rightarrow>
            if user_version s \<noteq> LATEST_SCHEMA_VERSION then (Inl (Unexpected_version (user_version s)), s)
            else (Inr (), s)))"

definition encode_u64 :: "int \<Rightarrow> bytes result" where
  "encode_u64 v = (if \<not> (0 \<le> v \<and> v \<le> 0xFFFFFFFFFFFFFFFF)
     then Inl (ValueError (lit ''value is outside the unsigned 64-bit range'')) else Inr (to_bytes 8 v))"

definition decode_u64 :: "bytes \<Rightarrow> int result" where
  "decode_u64 v = (if length v \<noteq> 8
     then Inl (ValueError (lit ''u64 database value must contain exactly 8 bytes'')) else Inr (from_bytes v))"

text \<open>The tables of version 5 as the stores see them.\<close>

definition to_database :: "schema \<Rightarrow> database option" where
  "to_database s =
     (case (sc_messages s, sc_bulletins s, sc_mailbox_sequences s, sc_api_message_sequence s, sc_bulletin_sequence s) of
        (Some (Messages4 rows), Some (Bulletins2 bs), Some seqs, Some api, Some bseq) \<Rightarrow>
          (case (sc_api_idempotency s, sc_conversation_reads s, sc_deliveries s, sc_accounts s) of
             (Some keys, Some reads, Some ds, Some accs) \<Rightarrow>
               if user_version s \<noteq> LATEST_SCHEMA_VERSION then None
               else Some \<lparr>mailbox_sequences = seqs, api_message_sequence = api, messages = rows, api_idempotency = keys,
                 conversation_reads = reads, deliveries = ds, bulletins = bs, bulletin_sequence = bseq, accounts = accs\<rparr>
           | _ \<Rightarrow> None)
      | _ \<Rightarrow> None)"

section \<open>Running the migrations\<close>

text \<open>Version 1 of the schema, with its rows.\<close>

definition schema_1 :: "message1 list \<Rightarrow> bulletin1 list \<Rightarrow> (bytes \<rightharpoonup> pystr) \<Rightarrow> (pystr \<rightharpoonup> bytes) \<Rightarrow> schema" where
  "schema_1 ms bs objects sequences = empty_schema\<lparr>user_version := 1,
     sc_attached := [(lit ''idx_messages_author_sequence'', T_messages), (lit ''idx_messages_recipient_sequence'', T_messages),
       (lit ''messages_object_type_insert'', T_messages), (lit ''messages_object_type_update'', T_messages),
       (lit ''bulletins_object_type_insert'', T_bulletins), (lit ''bulletins_object_type_update'', T_bulletins),
       (lit ''objects_type_is_immutable'', T_objects), (lit ''sequences_do_not_move_backwards'', T_sequences)],
     sc_objects := Some objects, sc_sequences := Some sequences, sc_messages := Some (Messages1 ms),
     sc_bulletins := Some (Bulletins1 bs)\<rparr>"

declare lit_inject [simp]

lemma migrate_1:
  "run_statements migration_1 empty_schema = Inr ((schema_1 [] [] Map.empty
     [lit ''messages'' \<mapsto> replicate 8 0, lit ''bulletins'' \<mapsto> replicate 8 0])\<lparr>user_version := 0\<rparr>)"
  by (simp add: migration_1_def create_table_def attach_def insert_sequences_def schema_1_def empty_schema_def)

text \<open>Version 2, and the latest version.\<close>

definition schema_2 :: "message2 list \<Rightarrow> bulletin_row list \<Rightarrow> schema" where
  "schema_2 rows bs = empty_schema\<lparr>user_version := 2, sc_messages := Some (Messages2 rows), sc_bulletins := Some (Bulletins2 bs),
     sc_mailbox_sequences := Some (last_sequence rows), sc_bulletin_sequence := Some (Some (int (length bs)))\<rparr>"

definition renumbered :: "message2 list \<Rightarrow> message_row list" where
  "renumbered rows = map message4_of (row_numbers (\<lambda>_. ()) (\<lambda>_. 0) (order_messages2 rows))"

definition schema_5 :: "message2 list \<Rightarrow> bulletin_row list \<Rightarrow> schema" where
  "schema_5 rows bs = empty_schema\<lparr>user_version := 5,
     sc_attached := [(lit ''idx_messages_api_sequence'', T_messages), (lit ''idx_messages_author_api_sequence'', T_messages),
       (lit ''idx_messages_recipient_api_sequence'', T_messages)],
     sc_messages := Some (Messages4 (renumbered rows)), sc_bulletins := Some (Bulletins2 bs),
     sc_mailbox_sequences := Some (last_sequence rows), sc_bulletin_sequence := Some (Some (int (length bs))),
     sc_accounts := Some Map.empty, sc_api_message_sequence := Some (Some (int (length (renumbered rows)))),
     sc_api_idempotency := Some Map.empty, sc_conversation_reads := Some Map.empty, sc_deliveries := Some []\<rparr>"

lemma message2_range: "message2_of x = Inr r \<Longrightarrow> 1 \<le> m2_sequence r \<and> m2_sequence r \<le> MAX_U32"
  by (cases x) (auto simp: message2_of_def split: option.splits if_splits)

lemma migrate_2:
  assumes "mapE message2_of (row_numbers m1_recipient (\<lambda>_. 0) (order_messages1 ms)) = Inr rows"
    "mapE bulletin_of (row_numbers (\<lambda>_. ()) (\<lambda>_. 0) (order_bulletins1 bs)) = Inr rows'" "int (length rows') \<le> MAX_U32"
  shows "run_statements migration_2 (schema_1 ms bs objects sequences) = Inr ((schema_2 rows rows')\<lparr>user_version := 1\<rparr>)"
proof -
  have "\<forall>r \<in> set rows. 0 \<le> m2_sequence r \<and> m2_sequence r \<le> MAX_U32"
    using mapE_mem [OF assms(1)] message2_range by fastforce
  then show ?thesis using assms
    by (simp add: migration_2_def create_table_def rename_table_def drop_table_def copy_messages1_def fill_mailbox_sequences_def
        insert_bulletin_sequence_def copy_bulletins1_def count_bulletins_def schema_1_def schema_2_def empty_schema_def)
qed

lemma migrate_345:
  assumes "list_all message_check (renumbered rows)"
  shows "run_versions MIGRATIONS [3..5] (schema_2 rows bs) = Inr (schema_5 rows bs)"
proof -
  have v: "[3..5] = [3, 4, 5 :: int]" by (simp add: upto.simps)
  show ?thesis unfolding v using assms
    by (simp add: MIGRATIONS_def migration_3_def migration_4_def migration_5_def create_table_def rename_table_def
        drop_table_def attach_def insert_api_sequence_def copy_messages2_def count_messages_def schema_2_def schema_5_def
        empty_schema_def renumbered_def Let_def)
qed

end
