(* ===== verification/Migration_Properties.thy ===== *)
theory Migration_Properties
  imports Migrations Store_Steps "HOL-Library.Multiset"
begin

text \<open>
  What the migrations promise: initialising a database is atomic and idempotent, a fresh one is the
  empty database of the stores, and the messages and bulletins of a version 1 file are carried
  over, in their order and under dense new numbers.
\<close>

section \<open>Numbering rows\<close>

lemma row_numbers_snd [simp]: "map snd (row_numbers key seen xs) = xs"
  by (induction xs arbitrary: seen) simp_all

lemma row_numbers_length [simp]: "length (row_numbers key seen xs) = length xs"
  by (induction xs arbitrary: seen) simp_all

lemma upto_Cons_shift: "[a + 1..a + int (Suc n)] = (a + 1) # [a + 1 + 1..a + 1 + int n]"
  by (subst upto_rec1) (simp_all add: algebra_simps)

lemma row_numbers_filter:
  "map fst (filter (\<lambda>(n, x). key x = k) (row_numbers key seen xs))
     = [seen k + 1..seen k + int (length (filter (\<lambda>x. key x = k) xs))]"
proof (induction xs arbitrary: seen)
  case (Cons x xs)
  show ?case
  proof (cases "key x = k")
    case True
    have "map fst (filter (\<lambda>(n, x). key x = k) (row_numbers key (seen(k := seen k + 1)) xs))
        = [seen k + 1 + 1..seen k + 1 + int (length (filter (\<lambda>x. key x = k) xs))]"
      using Cons [of "seen(k := seen k + 1)"] unfolding fun_upd_same .
    then show ?thesis using True upto_Cons_shift [of "seen k" "length (filter (\<lambda>x. key x = k) xs)"] by simp
  next
    case False
    then have "(seen(key x := seen (key x) + 1)) k = seen k" by simp
    note IH = Cons [of "seen(key x := seen (key x) + 1)", unfolded this]
    show ?thesis using False by (simp add: IH del: fun_upd_apply)
  qed
qed simp

lemma row_numbers_all: "map fst (row_numbers (\<lambda>_. ()) (\<lambda>_. 0) xs) = [1..int (length xs)]"
  using row_numbers_filter [of "\<lambda>_. ()" "()" "\<lambda>_. 0" xs] by (simp add: case_prod_unfold)

lemma filter_numbers:
  "map snd (filter (\<lambda>(n, x). key x = k) (row_numbers key seen xs)) = filter (\<lambda>x. key x = k) xs"
  by (induction xs arbitrary: seen) simp_all

lemma row_numbers_range:
  assumes "(n, x) \<in> set (row_numbers key (\<lambda>_. 0) xs)" shows "1 \<le> n \<and> n \<le> int (length xs)"
proof -
  have "n \<in> set (map fst (filter (\<lambda>(m, y). key y = key x) (row_numbers key (\<lambda>_. 0) xs)))"
    using assms by force
  then have "1 \<le> n" "n \<le> int (length (filter (\<lambda>y. key y = key x) xs))" unfolding row_numbers_filter by auto
  then show ?thesis using length_filter_le [of "\<lambda>y. key y = key x" xs] by linarith
qed

lemma order1_mset [simp]: "mset (order_messages1 ms) = mset ms" "mset (order_bulletins1 bs) = mset bs"
    "mset (order_messages2 rows) = mset rows"
  by (simp_all add: order_messages1_def order_bulletins1_def order_messages2_def)

lemma order1_set [simp]: "set (order_messages1 ms) = set ms" "set (order_bulletins1 bs) = set bs"
    "set (order_messages2 rows) = set rows"
  by (metis set_mset_mset order1_mset)+

lemma order1_length [simp]: "length (order_messages1 ms) = length ms" "length (order_bulletins1 bs) = length bs"
    "length (order_messages2 rows) = length rows"
  by (metis size_mset order1_mset)+

section \<open>Version 1 files\<close>

definition message1_ok :: "message1 \<Rightarrow> bool" where
  "message1_ok r \<longleftrightarrow> u32_column (m1_created r) \<noteq> None \<and> time_column (m1_accepted r) \<noteq> None
     \<and> utf8_encode (m1_recipient r) \<noteq> None
     \<and> (case (m1_author r, m1_body r) of
          (SText a, SBlob b) \<Rightarrow> utf8_encode a \<noteq> None \<and> utf8_decode b \<noteq> None | _ \<Rightarrow> False)"

definition bulletin1_ok :: "bulletin1 \<Rightarrow> bool" where
  "bulletin1_ok r \<longleftrightarrow> u32_column (b1_created r) \<noteq> None \<and> time_column (b1_accepted r) \<noteq> None
     \<and> b1_author r \<noteq> SNull \<and> b1_title r \<noteq> SNull \<and> b1_body r \<noteq> SNull"

definition message2_row :: "int \<times> message1 \<Rightarrow> message2" where
  "message2_row nr = \<lparr>m2_recipient = m1_recipient (snd nr), m2_sequence = fst nr, m2_created = the_int (m1_created (snd nr)),
     m2_accepted = the_int (m1_accepted (snd nr)), m2_author = m1_author (snd nr), m2_body = m1_body (snd nr)\<rparr>"

definition bulletin2_row :: "int \<times> bulletin1 \<Rightarrow> bulletin_row" where
  "bulletin2_row nr = \<lparr>br_sequence = fst nr, br_created = the_int (b1_created (snd nr)), br_accepted = b1_accepted (snd nr),
     br_author = b1_author (snd nr), br_title = b1_title (snd nr), br_body = b1_body (snd nr)\<rparr>"

definition rows_2 :: "message1 list \<Rightarrow> message2 list" where
  "rows_2 ms = map message2_row (row_numbers m1_recipient (\<lambda>_. 0) (order_messages1 ms))"

definition bulletins_2 :: "bulletin1 list \<Rightarrow> bulletin_row list" where
  "bulletins_2 bs = map bulletin2_row (row_numbers (\<lambda>_. ()) (\<lambda>_. 0) (order_bulletins1 bs))"

lemma columns: "u32_column v = Some i \<longleftrightarrow> v = SInt i \<and> 0 \<le> i \<and> i \<le> MAX_U32"
    "time_column v = Some i \<longleftrightarrow> v = SInt i \<and> 0 \<le> i"
  by (auto simp: u32_column_def time_column_def split: sqlval.splits)

lemma columns_in: "0 \<le> i \<Longrightarrow> i \<le> MAX_U32 \<Longrightarrow> u32_column (SInt i) = Some i" "0 \<le> i \<Longrightarrow> time_column (SInt i) = Some i"
  by (simp_all add: columns)

lemma message1_cases:
  assumes "message1_ok r"
  obtains created accepted a b where "m1_created r = SInt created" "0 \<le> created" "created \<le> MAX_U32"
    "m1_accepted r = SInt accepted" "0 \<le> accepted" "m1_author r = SText a" "m1_body r = SBlob b"
    "utf8_encode a \<noteq> None" "utf8_decode b \<noteq> None" "utf8_encode (m1_recipient r) \<noteq> None"
  using assms unfolding message1_ok_def columns not_None_eq by (auto split: sqlval.splits)

lemma numbers_snd: "(n, r) \<in> set (row_numbers key seen xs) \<Longrightarrow> r \<in> set xs"
  by (metis image_eqI list.set_map row_numbers_snd snd_conv)

lemma copied_messages:
  assumes "list_all message1_ok ms" "int (length ms) \<le> MAX_U32"
  shows "mapE message2_of (row_numbers m1_recipient (\<lambda>_. 0) (order_messages1 ms)) = Inr (rows_2 ms)"
  unfolding rows_2_def
proof (rule mapE_Inr)
  fix x assume x: "x \<in> set (row_numbers m1_recipient (\<lambda>_. 0) (order_messages1 ms))"
  obtain n r where nr: "x = (n, r)" by (cases x)
  have "r \<in> set ms" "1 \<le> n" "n \<le> MAX_U32" using x nr numbers_snd row_numbers_range assms(2) by fastforce+
  then show "message2_of x = Inr (message2_row x)"
    using assms(1) nr by (auto simp: list_all_iff message2_of_def message2_row_def columns_in elim!: message1_cases [of r])
qed

lemma copied_bulletins:
  assumes "list_all bulletin1_ok bs" "int (length bs) \<le> MAX_U32"
  shows "mapE bulletin_of (row_numbers (\<lambda>_. ()) (\<lambda>_. 0) (order_bulletins1 bs)) = Inr (bulletins_2 bs)"
  unfolding bulletins_2_def
proof (rule mapE_Inr)
  fix x assume x: "x \<in> set (row_numbers (\<lambda>_. ()) (\<lambda>_. 0) (order_bulletins1 bs))"
  obtain n r where nr: "x = (n, r)" by (cases x)
  have "r \<in> set bs" "1 \<le> n" "n \<le> MAX_U32" using x nr numbers_snd row_numbers_range assms(2) by fastforce+
  then show "bulletin_of x = Inr (bulletin2_row x)"
    using assms(1) nr by (auto simp: list_all_iff bulletin1_ok_def bulletin_of_def bulletin2_row_def columns columns_in dest!: bspec)
qed

section \<open>The migrated file\<close>

lemma run_versions_append:
  "run_versions m (vs @ ws) s = bindE (run_versions m vs s) (run_versions m ws)"
  by (induction vs arbitrary: s) (auto simp: bindE_assoc split: option.splits)

lemma message4_check:
  assumes "list_all message1_ok ms" "int (length ms) \<le> MAX_U32"
  shows "list_all message_check (renumbered (rows_2 ms))"
  unfolding list_all_iff
proof
  fix w assume "w \<in> set (renumbered (rows_2 ms))"
  then obtain k r where w: "w = message4_of (k, r)" "(k, r) \<in> set (row_numbers (\<lambda>_. ()) (\<lambda>_. 0) (order_messages2 (rows_2 ms)))"
    by (auto simp: renumbered_def)
  have "1 \<le> k" using row_numbers_range [OF w(2)] by simp
  moreover have "r \<in> set (rows_2 ms)" using numbers_snd [OF w(2)] by simp
  then obtain n x where x: "r = message2_row (n, x)" "(n, x) \<in> set (row_numbers m1_recipient (\<lambda>_. 0) (order_messages1 ms))"
    by (auto simp: rows_2_def)
  have "x \<in> set ms" "1 \<le> n" "n \<le> MAX_U32" using x(2) numbers_snd row_numbers_range assms(2) by fastforce+
  then have "message1_ok x" using assms(1) by (auto simp: list_all_iff)
  ultimately show "message_check w" using w x \<open>1 \<le> n\<close> \<open>n \<le> MAX_U32\<close>
    by (auto simp: message_check_def message4_of_def message2_row_def elim!: message1_cases [of x])
qed

lemma run_2345:
  assumes "list_all message1_ok ms" "list_all bulletin1_ok bs" "int (length ms) \<le> MAX_U32" "int (length bs) \<le> MAX_U32"
  shows "run_versions MIGRATIONS [2..5] (schema_1 ms bs objects sequences) = Inr (schema_5 (rows_2 ms) (bulletins_2 bs))"
proof -
  have l: "int (length (bulletins_2 bs)) \<le> MAX_U32" using assms(4) by (simp add: bulletins_2_def)
  have v: "[2..5] = [2] @ [3..5 :: int]" by (simp add: upto.simps)
  have "run_versions MIGRATIONS [2] (schema_1 ms bs objects sequences) = Inr (schema_2 (rows_2 ms) (bulletins_2 bs))"
    using migrate_2 [OF copied_messages [OF assms(1,3)] copied_bulletins [OF assms(2,4)] l]
    by (simp add: MIGRATIONS_def schema_2_def)
  then show ?thesis
    unfolding v run_versions_append using migrate_345 [OF message4_check [OF assms(1,3)]] by simp
qed

lemma initialize_run:
  assumes "user_version s = v" "0 \<le> v" "v \<le> 5" "run_versions MIGRATIONS [v + 1..5] s = Inr s'" "user_version s' = 5"
  shows "initialize s = (Inr (), s')"
  using assms by (simp add: initialize_def migrate_def)

lemma initialize_1:
  assumes "list_all message1_ok ms" "list_all bulletin1_ok bs" "int (length ms) \<le> MAX_U32" "int (length bs) \<le> MAX_U32"
  shows "initialize (schema_1 ms bs objects sequences) = (Inr (), schema_5 (rows_2 ms) (bulletins_2 bs))"
  by (rule initialize_run [of _ 1]) (use run_2345 [OF assms] in \<open>simp_all add: schema_1_def schema_5_def del: upto.simps\<close>)

definition migrated :: "message1 list \<Rightarrow> bulletin1 list \<Rightarrow> database" where
  "migrated ms bs = empty_database\<lparr>mailbox_sequences := last_sequence (rows_2 ms),
     api_message_sequence := Some (int (length (renumbered (rows_2 ms)))), messages := renumbered (rows_2 ms),
     bulletins := bulletins_2 bs, bulletin_sequence := Some (int (length (bulletins_2 bs)))\<rparr>"

lemma to_database_5: "to_database (schema_5 (rows_2 ms) (bulletins_2 bs)) = Some (migrated ms bs)"
  by (simp add: to_database_def schema_5_def empty_schema_def migrated_def empty_database_def)

section \<open>What is carried over\<close>

definition letter1 :: "message1 \<Rightarrow> sqlval \<times> sqlval \<times> sqlval \<times> sqlval" where
  "letter1 r = (m1_created r, m1_accepted r, m1_author r, m1_body r)"

definition letter :: "message_row \<Rightarrow> sqlval \<times> sqlval \<times> sqlval \<times> sqlval" where
  "letter r = (SInt (mr_created r), mr_accepted r, mr_author r, mr_body r)"

definition letter2 :: "message2 \<Rightarrow> sqlval \<times> sqlval \<times> sqlval \<times> sqlval" where
  "letter2 r = (SInt (m2_created r), SInt (m2_accepted r), m2_author r, m2_body r)"

text \<open>The rows of one recipient.\<close>

definition box_2 :: "pystr \<Rightarrow> message1 list \<Rightarrow> message2 list" where
  "box_2 p ms = filter (\<lambda>r. m2_recipient r = p) (rows_2 ms)"

lemma box_2_numbered:
  "box_2 p ms = map message2_row (filter (\<lambda>(n, x). m1_recipient x = p) (row_numbers m1_recipient (\<lambda>_. 0) (order_messages1 ms)))"
  by (auto simp: box_2_def rows_2_def filter_map comp_def message2_row_def case_prod_unfold)

lemma box_2_sequence: "map m2_sequence (box_2 p ms) = [1..int (length (box_2 p ms))]"
proof -
  have "map m2_sequence (box_2 p ms)
      = map fst (filter (\<lambda>(n, x). m1_recipient x = p) (row_numbers m1_recipient (\<lambda>_. 0) (order_messages1 ms)))"
    by (simp add: box_2_numbered comp_def message2_row_def)
  moreover have "length (box_2 p ms) = length (filter (\<lambda>x. m1_recipient x = p) (order_messages1 ms))"
    unfolding box_2_numbered length_map
    by (metis filter_numbers [of m1_recipient p "\<lambda>_. 0" "order_messages1 ms"] length_map)
  ultimately show ?thesis unfolding row_numbers_filter by simp
qed

lemma box_2_letters:
  assumes "list_all message1_ok ms"
  shows "map letter2 (box_2 p ms) = map letter1 (filter (\<lambda>r. m1_recipient r = p) (order_messages1 ms))"
proof -
  have "letter2 (message2_row nx) = letter1 (snd nx)" if "nx \<in> set (row_numbers m1_recipient (\<lambda>_. 0) (order_messages1 ms))" for nx
  proof -
    have "message1_ok (snd nx)" using assms numbers_snd [of "fst nx" "snd nx" m1_recipient "\<lambda>_. 0" "order_messages1 ms"] that
      by (simp add: list_all_iff)
    then show ?thesis by (auto simp: letter2_def letter1_def message2_row_def elim!: message1_cases [of "snd nx"])
  qed
  then have "map letter2 (box_2 p ms) = map letter1 (map snd (filter (\<lambda>(n, x). m1_recipient x = p)
      (row_numbers m1_recipient (\<lambda>_. 0) (order_messages1 ms))))"
    by (auto simp: box_2_numbered)
  then show ?thesis unfolding filter_numbers .
qed

lemma mailbox_migrated:
  "mailbox (migrated ms bs) p = map message4_of (filter (\<lambda>(k, r). m2_recipient r = p)
     (row_numbers (\<lambda>_. ()) (\<lambda>_. 0) (order_messages2 (rows_2 ms))))"
  by (auto simp: mailbox_def migrated_def renumbered_def filter_map comp_def message4_of_def case_prod_unfold)

lemma filter_numbered: "map snd (filter (\<lambda>(k, r). P r) (row_numbers key seen xs)) = filter P xs"
  by (induction xs arbitrary: seen) simp_all

lemma mailbox_rows:
  "map f (mailbox (migrated ms bs) p) = map g (filter (\<lambda>r. m2_recipient r = p) (order_messages2 (rows_2 ms)))"
  if "\<And>k r. f (message4_of (k, r)) = g r"
proof -
  have "map f (mailbox (migrated ms bs) p) = map g (map snd (filter (\<lambda>(k, r). m2_recipient r = p)
      (row_numbers (\<lambda>_. ()) (\<lambda>_. 0) (order_messages2 (rows_2 ms)))))"
    using that by (auto simp: mailbox_migrated)
  then show ?thesis unfolding filter_numbered .
qed

lemma insort_map: "insort_key f (g x) (map g xs) = map g (insort_key (\<lambda>x. f (g x)) x xs)"
  by (induction xs) simp_all

lemma sort_map: "sort_key f (map g xs) = map g (sort_key (\<lambda>x. f (g x)) xs)"
  by (induction xs) (simp_all add: insort_map)

lemma mailbox_content:
  assumes "list_all message1_ok ms"
  shows "map letter (sort_key mr_sequence (mailbox (migrated ms bs) p))
      = map letter1 (filter (\<lambda>r. m1_recipient r = p) (order_messages1 ms))
    \<and> map mr_sequence (sort_key mr_sequence (mailbox (migrated ms bs) p))
      = [1..int (length (filter (\<lambda>r. m1_recipient r = p) (order_messages1 ms)))]"
proof -
  let ?box = "mailbox (migrated ms bs) p" and ?f = "\<lambda>r. (mr_sequence r, letter r)" and ?g = "\<lambda>r. (m2_sequence r, letter2 r)"
  have m: "map ?f ?box = map ?g (filter (\<lambda>r. m2_recipient r = p) (order_messages2 (rows_2 ms)))"
    by (rule mailbox_rows) (simp add: message4_of_def letter_def letter2_def)
  have ms: "mset (map ?f ?box) = mset (map ?g (box_2 p ms))"
    unfolding m by (simp add: box_2_def)
  have s: "map fst (map ?g (box_2 p ms)) = [1..int (length (box_2 p ms))]"
    using box_2_sequence [of p ms] by (simp add: comp_def)
  have "distinct (map fst (map ?g (box_2 p ms)))" unfolding s by simp
  then have "inj_on fst (set (map ?g (box_2 p ms)))" by (simp only: distinct_map)
  then have "inj_on fst (set (map ?f ?box))" unfolding mset_eq_setD [OF ms] .
  moreover have "sorted (map fst (map ?g (box_2 p ms)))" unfolding s by (simp add: sorted_iff_nth_mono)
  ultimately have k: "sort_key fst (map ?f ?box) = map ?g (box_2 p ms)"
    by (rule sort_key_inj_key_eq [OF ms])
  have "sort_key fst (map ?f ?box) = map ?f (sort_key mr_sequence ?box)"
    unfolding sort_map by simp
  with k have e: "map ?f (sort_key mr_sequence ?box) = map ?g (box_2 p ms)" by simp
  have "map letter (sort_key mr_sequence ?box) = map snd (map ?f (sort_key mr_sequence ?box))"
    "map mr_sequence (sort_key mr_sequence ?box) = map fst (map ?f (sort_key mr_sequence ?box))"
    by (simp_all only: map_map comp_def fst_conv snd_conv)
  moreover have "map snd (map ?g (box_2 p ms)) = map letter2 (box_2 p ms)" by (simp only: map_map comp_def snd_conv)
  moreover have "length (box_2 p ms) = length (filter (\<lambda>r. m1_recipient r = p) (order_messages1 ms))"
    using box_2_letters [OF assms, of p] by (metis length_map)
  ultimately show ?thesis unfolding e using s box_2_letters [OF assms, of p] by simp
qed

section \<open>Initialising\<close>

lemma run_versions_version:
  "run_versions m vs s = Inr s' \<Longrightarrow> user_version s' = (if vs = [] then user_version s else last vs)"
proof (induction vs arbitrary: s)
  case (Cons v vs)
  then obtain s1 where "run_versions m vs (s1\<lparr>user_version := v\<rparr>) = Inr s'"
    by (auto simp: bindE_eq_Inr split: option.splits)
  from Cons.IH [OF this] show ?case by simp
qed simp

lemma fresh_database: "\<exists>s. initialize empty_schema = (Inr (), s) \<and> to_database s = Some empty_database"
proof -
  let ?s = "schema_1 [] [] Map.empty [lit ''messages'' \<mapsto> replicate 8 0, lit ''bulletins'' \<mapsto> replicate 8 0]"
  have v: "[0 + 1..5] = [1] @ [2..5 :: int]" by (simp add: upto.simps)
  have "run_versions MIGRATIONS [1] empty_schema = Inr ?s"
    using migrate_1 by (simp add: MIGRATIONS_def schema_1_def)
  then have "run_versions MIGRATIONS [0 + 1..5] empty_schema = Inr (schema_5 (rows_2 []) (bulletins_2 []))"
    unfolding v run_versions_append using run_2345 [of "[]" "[]"] by simp
  then have "initialize empty_schema = (Inr (), schema_5 (rows_2 []) (bulletins_2 []))"
    by (rule initialize_run [rotated 3]) (simp_all add: empty_schema_def schema_5_def)
  moreover have "migrated [] [] = empty_database"
    by (simp add: migrated_def rows_2_def bulletins_2_def renumbered_def order_messages1_def order_messages2_def
        order_bulletins1_def last_sequence_def empty_database_def fun_eq_iff)
  ultimately show ?thesis using to_database_5 [of "[]" "[]"] by simp
qed

text \<open>Initialising a database is atomic and idempotent: it either raises, because the file is
  newer than the program or because a migration fails, and leaves the file as it was, or the file
  is of the latest version afterwards and initialising it again changes nothing. A fresh file
  becomes the empty database of the stores.\<close>

theorem initialize_outcome:
  assumes "initialize s = (r, s')"
  shows "(case r of Inl e \<Rightarrow> s' = s
      | Inr _ \<Rightarrow> user_version s' = LATEST_SCHEMA_VERSION \<and> initialize s' = (Inr (), s'))
    \<and> (s = empty_schema \<longrightarrow> to_database s' = Some empty_database)"
proof -
  have e: "s = empty_schema \<Longrightarrow> to_database s' = Some empty_database" using fresh_database assms by auto
  have m: "user_version s' = 5 \<Longrightarrow> initialize s' = (Inr (), s')"
    by (simp add: initialize_def migrate_def)
  have v: "user_version s1 = 5" if "run_versions MIGRATIONS [user_version s + 1..5] s = Inr s1" "user_version s \<le> 5" for s1
  proof (cases "user_version s = 5")
    case False
    then have "[user_version s + 1..5] = [user_version s + 1..4] @ [5]" using that(2) by (simp add: upto_rec2)
    then show ?thesis using run_versions_version [OF that(1)] by simp
  qed (use that in simp)
  have "case r of Inl e \<Rightarrow> s' = s | Inr _ \<Rightarrow> user_version s' = 5"
  proof (cases "run_versions MIGRATIONS [user_version s + 1..5] s")
    case (Inr s1)
    then show ?thesis using assms v [of s1] by (cases "user_version s \<le> 5")
      (auto simp: initialize_def migrate_def Let_def simp del: run_versions.simps split: if_splits)
  qed (use assms in \<open>auto simp: initialize_def migrate_def Let_def simp del: run_versions.simps split: if_splits\<close>)
  then show ?thesis using e m by (auto split: sum.splits)
qed

theorem initialize_outcome_witness:
  "case initialize empty_schema of (r, s') \<Rightarrow>
    (case r of Inl e \<Rightarrow> s' = empty_schema | Inr _ \<Rightarrow> user_version s' = LATEST_SCHEMA_VERSION \<and> initialize s' = (Inr (), s'))
    \<and> to_database s' = Some empty_database"
proof -
  obtain r s' where i: "initialize empty_schema = (r, s')" by fastforce
  show ?thesis using initialize_outcome [OF i] unfolding i by simp
qed

section \<open>Migrating a version 1 file\<close>

lemma order_distinct:
  "distinct (map m1_sequence ms) \<Longrightarrow> order_messages1 ms = sort_key m1_sequence ms"
  "distinct (map b1_sequence bs) \<Longrightarrow> order_bulletins1 bs = sort_key b1_sequence bs"
  unfolding order_messages1_def order_bulletins1_def
  by (rule sort_key_inj_key_eq, simp_all add: distinct_map)+

text \<open>C33. Migration keeps what was written, except the numbers: in a version 1 file whose messages
  have valid times and texts and whose bulletins have valid times and no missing column, both with
  distinct sequence numbers and no more rows than a mailbox has numbers, every recipient's messages
  become that recipient's mailbox, in the order of their old sequence numbers, with their times,
  author and body unchanged, and so do the bulletins. The old sequence numbers and the old
  high-water marks are dropped: both are renumbered from one without gaps, although the storage
  design asks a migration to preserve them.\<close>

theorem migration_keeps_content:
  assumes "list_all message1_ok ms" "list_all bulletin1_ok bs" "int (length ms) \<le> MAX_U32" "int (length bs) \<le> MAX_U32"
    "distinct (map m1_sequence ms)" "distinct (map b1_sequence bs)"
  shows "\<exists>s' db. initialize (schema_1 ms bs objects sequences) = (Inr (), s') \<and> to_database s' = Some db
    \<and> map letter (sort_key mr_sequence (mailbox db p))
      = map letter1 (filter (\<lambda>r. m1_recipient r = p) (sort_key m1_sequence ms))
    \<and> map mr_sequence (sort_key mr_sequence (mailbox db p))
      = [1..int (length (filter (\<lambda>r. m1_recipient r = p) (sort_key m1_sequence ms)))]
    \<and> map (\<lambda>r. (SInt (br_created r), br_accepted r, br_author r, br_title r, br_body r)) (bulletins db)
      = map (\<lambda>r. (b1_created r, b1_accepted r, b1_author r, b1_title r, b1_body r)) (sort_key b1_sequence bs)
    \<and> map br_sequence (bulletins db) = [1..int (length bs)]"
proof -
  let ?n = "row_numbers (\<lambda>_. ()) (\<lambda>_. 0) (order_bulletins1 bs)"
  have "SInt (the_int (b1_created (snd x))) = b1_created (snd x)" if "x \<in> set ?n" for x
  proof -
    have "bulletin1_ok (snd x)"
      using assms(2) numbers_snd [of "fst x" "snd x" "\<lambda>_. ()" "\<lambda>_. 0" "order_bulletins1 bs"] that by (simp add: list_all_iff)
    then show ?thesis by (auto simp: bulletin1_ok_def columns)
  qed
  then have b: "map (\<lambda>r. (SInt (br_created r), br_accepted r, br_author r, br_title r, br_body r)) (bulletins_2 bs)
      = map (\<lambda>r. (b1_created r, b1_accepted r, b1_author r, b1_title r, b1_body r)) (map snd ?n)"
    unfolding bulletins_2_def map_map by (intro map_cong refl) (simp add: bulletin2_row_def)
  have "map br_sequence (bulletins_2 bs) = map fst ?n" by (simp add: bulletins_2_def bulletin2_row_def)
  then have q: "map br_sequence (bulletins_2 bs) = [1..int (length bs)]" unfolding row_numbers_all by simp
  have "bulletins (migrated ms bs) = bulletins_2 bs" by (simp add: migrated_def)
  then show ?thesis
    using initialize_1 [OF assms(1-4), of objects sequences] to_database_5 [of ms bs] mailbox_content [OF assms(1), of bs p] b q
    order_distinct(1) [OF assms(5)] order_distinct(2) [OF assms(6)]
    unfolding row_numbers_snd by (intro exI [of _ "schema_5 (rows_2 ms) (bulletins_2 bs)"] exI [of _ "migrated ms bs"]) simp
qed

definition sample_message1 :: "nat \<Rightarrow> pystr \<Rightarrow> message1" where
  "sample_message1 n recipient = \<lparr>m1_sequence = to_bytes 8 (int n), m1_id = to_bytes 8 (int n + 7), m1_created = SInt (int n),
     m1_accepted = SInt (int n + 9), m1_author = SText (lit ''A1A''), m1_recipient = recipient, m1_body = SBlob [72, 105],
     m1_hash = SNull\<rparr>"

definition sample_file :: "message1 list" where
  "sample_file = [sample_message1 3 (lit ''B2B''), sample_message1 1 (lit ''B2B''), sample_message1 2 (lit ''C3C'')]"

lemma sample_file_ok: "list_all message1_ok sample_file" "int (length sample_file) \<le> MAX_U32"
proof -
  have "utf8_encode (lit ''B2B'') \<noteq> None" "utf8_encode (lit ''C3C'') \<noteq> None" "utf8_encode (lit ''A1A'') \<noteq> None"
    "utf8_decode [72, 105] \<noteq> None" by code_simp+
  then show "list_all message1_ok sample_file"
    by (simp add: sample_file_def sample_message1_def message1_ok_def u32_column_def time_column_def)
qed (simp add: sample_file_def)

lemma sample_file_distinct: "distinct (map m1_sequence sample_file)"
  by code_simp

theorem migration_keeps_content_witness:
  "\<exists>s' db. initialize (schema_1 sample_file [] Map.empty Map.empty) = (Inr (), s') \<and> to_database s' = Some db
    \<and> map letter (sort_key mr_sequence (mailbox db (lit ''B2B'')))
      = map letter1 (filter (\<lambda>r. m1_recipient r = lit ''B2B'') (sort_key m1_sequence sample_file))
    \<and> map mr_sequence (sort_key mr_sequence (mailbox db (lit ''B2B'')))
      = [1..int (length (filter (\<lambda>r. m1_recipient r = lit ''B2B'') (sort_key m1_sequence sample_file)))]
    \<and> map (\<lambda>r. (SInt (br_created r), br_accepted r, br_author r, br_title r, br_body r)) (bulletins db)
      = map (\<lambda>r. (b1_created r, b1_accepted r, b1_author r, b1_title r, b1_body r)) (sort_key b1_sequence ([] :: bulletin1 list))
    \<and> map br_sequence (bulletins db) = [1..int (length ([] :: bulletin1 list))]"
  by (rule migration_keeps_content [OF sample_file_ok(1) _ sample_file_ok(2) _ sample_file_distinct]) simp_all

section \<open>The migrated database\<close>

lemma fold_max_upto: "a \<le> b \<Longrightarrow> fold max [a + 1..b] a = (b :: int)"
proof (induction "nat (b - a)" arbitrary: a)
  case (Suc n)
  then have "[a + 1..b] = (a + 1) # [a + 1 + 1..b]" by (simp add: upto_rec1)
  then show ?case using Suc.hyps(1) [of "a + 1"] Suc.hyps(2) by (simp add: max_def)
qed simp

lemma last_sequence_rows:
  "(case last_sequence (rows_2 ms) p of None \<Rightarrow> 0 | Some v \<Rightarrow> v) = int (length (box_2 p ms))"
proof (cases "box_2 p ms")
  case (Cons r rs)
  have q: "m2_sequence r # map m2_sequence rs = [1..int (length (box_2 p ms))]"
    using box_2_sequence [of p ms] Cons by simp
  then have "m2_sequence r = 1" "map m2_sequence rs = [1 + 1..int (length (box_2 p ms))]"
    using Cons by (simp_all add: upto_rec1)
  moreover have "fold (\<lambda>r. max (m2_sequence r)) rs a = fold max (map m2_sequence rs) a" for a
    by (simp add: fold_map comp_def)
  moreover have "1 \<le> int (length (box_2 p ms))" using Cons by simp
  ultimately show ?thesis using Cons fold_max_upto [of 1 "int (length (box_2 p ms))"]
    by (simp add: last_sequence_def box_2_def [symmetric])
qed (simp add: last_sequence_def box_2_def [symmetric])

definition in_order :: "message1 list \<Rightarrow> bool" where
  "in_order ms \<longleftrightarrow> sorted (map (\<lambda>r. the_int (m1_accepted r)) (sort_key m1_sequence ms))"

lemma box_2_accepted: "map m2_accepted (box_2 p ms)
    = map (\<lambda>r. the_int (m1_accepted r)) (filter (\<lambda>r. m1_recipient r = p) (order_messages1 ms))"
proof -
  have "map m2_accepted (box_2 p ms) = map (\<lambda>r. the_int (m1_accepted r))
      (map snd (filter (\<lambda>(n, x). m1_recipient x = p) (row_numbers m1_recipient (\<lambda>_. 0) (order_messages1 ms))))"
    by (simp add: box_2_numbered message2_row_def comp_def)
  then show ?thesis unfolding filter_numbers .
qed

lemma order_box:
  assumes "in_order ms" "distinct (map m1_sequence ms)"
  shows "filter (\<lambda>r. m2_recipient r = p) (order_messages2 (rows_2 ms)) = box_2 p ms"
proof -
  let ?box = "box_2 p ms"
  have "sort_key m2_sequence ?box = ?box"
    by (rule sort_key_id_if_sorted) (simp add: box_2_sequence)
  moreover have "map m2_recipient ?box = map (\<lambda>_. p) ?box" by (simp add: box_2_def)
  then have "sort_key m2_recipient ?box = ?box" by (intro sort_key_id_if_sorted) (simp add: map_replicate_const sorted_replicate)
  moreover have "sorted (map m2_accepted ?box)"
    unfolding box_2_accepted using assms(1) unfolding in_order_def order_distinct(1) [OF assms(2)] by (rule sorted_filter)
  then have "sort_key m2_accepted ?box = ?box" by (rule sort_key_id_if_sorted)
  ultimately show ?thesis
    by (simp add: order_messages2_def filter_sort box_2_def [symmetric])
qed

lemma migrated_typed:
  assumes "list_all message1_ok ms" "int (length ms) \<le> MAX_U32" "w \<in> set (messages (migrated ms bs))"
  shows "well_typed w"
proof -
  have w: "w \<in> set (renumbered (rows_2 ms))" using assms(3) by (simp add: migrated_def)
  then have c: "message_check w" using message4_check [OF assms(1,2)] by (simp add: list_all_iff)
  obtain k r where r: "w = message4_of (k, r)" "(k, r) \<in> set (row_numbers (\<lambda>_. ()) (\<lambda>_. 0) (order_messages2 (rows_2 ms)))"
    using w by (auto simp: renumbered_def)
  then have "r \<in> set (rows_2 ms)" using numbers_snd [OF r(2)] by simp
  then obtain n x where x: "r = message2_row (n, x)" "(n, x) \<in> set (row_numbers m1_recipient (\<lambda>_. 0) (order_messages1 ms))"
    by (auto simp: rows_2_def)
  have "message1_ok x" using numbers_snd [OF x(2)] assms(1) by (simp add: list_all_iff)
  then show ?thesis using c r(1) x(1)
    by (auto simp: well_typed_def message4_of_def message2_row_def elim!: message1_cases [of x])
qed

text \<open>The bulletins' texts are valid.\<close>

definition bulletin1_text :: "bulletin1 \<Rightarrow> bool" where
  "bulletin1_text r \<longleftrightarrow> (case (b1_author r, b1_title r, b1_body r) of
     (SText a, SText t, SBlob b) \<Rightarrow> utf8_encode a \<noteq> None \<and> utf8_encode t \<noteq> None \<and> utf8_decode b \<noteq> None | _ \<Rightarrow> False)"

lemma migrated_bulletins:
  assumes "list_all bulletin1_ok bs" "list_all bulletin1_text bs" "int (length bs) \<le> MAX_U32"
  shows "bulletins_ok (migrated ms bs)"
proof -
  let ?n = "row_numbers (\<lambda>_. ()) (\<lambda>_. 0) (order_bulletins1 bs)"
  have l: "length (bulletins_2 bs) = length bs" by (simp add: bulletins_2_def)
  have "bulletin_typed (bulletin2_row x)" if x: "x \<in> set ?n" for x
  proof -
    obtain n r where nr: "x = (n, r)" by (cases x)
    then have "r \<in> set bs" "1 \<le> n \<and> n \<le> int (length bs)"
      using x numbers_snd [of n r "\<lambda>_. ()" "\<lambda>_. 0" "order_bulletins1 bs"] row_numbers_range [of n r "\<lambda>_. ()" "order_bulletins1 bs"]
      by simp_all
    moreover from this(1) have "bulletin1_ok r" "bulletin1_text r" using assms(1,2) by (simp_all add: list_all_iff)
    ultimately show ?thesis using assms(3) unfolding nr bulletin1_ok_def bulletin1_text_def columns not_None_eq
      by (auto simp: bulletin_typed_def bulletin_check_def bulletin2_row_def split: sqlval.splits)
  qed
  then have t: "\<forall>r \<in> set (bulletins_2 bs). bulletin_typed r" by (simp add: bulletins_2_def)
  have "map br_sequence (bulletins_2 bs) = map fst ?n" by (simp add: bulletins_2_def bulletin2_row_def)
  then have "map br_sequence (bulletins_2 bs) = [1..int (length bs)]" unfolding row_numbers_all by simp
  then show ?thesis using t l assms(3) by (simp add: bulletins_ok_def bulletin_count_def migrated_def)
qed

text \<open>C34. A migrated database is one the stores can work on: when the rows of a version 1 file have
  valid times and texts and distinct sequence numbers, are no more than a mailbox has numbers, and
  its messages were accepted in the order of their sequence numbers, the migrated database satisfies
  the invariant that every operation of the stores relies on and keeps, for messages and
  bulletins.\<close>

theorem migrated_database_ok:
  assumes "list_all message1_ok ms" "list_all bulletin1_ok bs" "int (length ms) \<le> MAX_U32" "int (length bs) \<le> MAX_U32"
    "in_order ms" "distinct (map m1_sequence ms)" "list_all bulletin1_text bs"
  shows "\<exists>s' db. initialize (schema_1 ms bs objects sequences) = (Inr (), s') \<and> to_database s' = Some db \<and> stores_ok db"
proof -
  let ?db = "migrated ms bs"
  have l: "mailbox_last ?db p = int (length (box_2 p ms))" for p
    using last_sequence_rows [of ms p] by (simp add: mailbox_last_def migrated_def)
  have s: "map mr_sequence (mailbox ?db p) = [1..mailbox_last ?db p]" for p
  proof -
    have "map mr_sequence (mailbox ?db p) = map m2_sequence (filter (\<lambda>r. m2_recipient r = p) (order_messages2 (rows_2 ms)))"
      by (rule mailbox_rows) (simp add: message4_of_def)
    then show ?thesis unfolding order_box [OF assms(5,6)] box_2_sequence l .
  qed
  have "length (box_2 p ms) \<le> length ms" for p
    using length_filter_le [of "\<lambda>r. m2_recipient r = p" "rows_2 ms"] by (simp add: box_2_def rows_2_def)
  then have b: "int (length (box_2 p ms)) \<le> MAX_U32" for p using assms(3) by (meson of_nat_mono order_trans)
  have "map mr_api (renumbered (rows_2 ms)) = map fst (row_numbers (\<lambda>_. ()) (\<lambda>_. 0) (order_messages2 (rows_2 ms)))"
    by (simp add: renumbered_def message4_of_def case_prod_unfold)
  then have a: "map mr_api (messages ?db) = [1..message_count ?db]"
    unfolding row_numbers_all by (simp add: migrated_def message_count_def renumbered_def)
  have "messages_ok ?db"
    unfolding messages_ok_def using migrated_typed [OF assms(1,3)] s l b a
    by (auto simp: migrated_def message_count_def)
  moreover have "references_ok ?db" by (simp add: references_ok_def migrated_def empty_database_def)
  ultimately have "stores_ok ?db" using migrated_bulletins [OF assms(2,7,4)] by (simp add: stores_ok_def db_ok_def)
  then show ?thesis using initialize_1 [OF assms(1-4), of objects sequences] to_database_5 by blast
qed

definition sample_bulletin1 :: bulletin1 where
  "sample_bulletin1 = \<lparr>b1_sequence = to_bytes 8 4, b1_id = to_bytes 8 2, b1_created = SInt 3, b1_accepted = SInt 5,
     b1_author = SText (lit ''A1A''), b1_title = SText (lit ''Net''), b1_body = SBlob [72, 105], b1_hash = SNull\<rparr>"

lemma sample_bulletin1_ok: "bulletin1_ok sample_bulletin1" "bulletin1_text sample_bulletin1"
proof -
  have "utf8_encode (lit ''Net'') \<noteq> None" "utf8_encode (lit ''A1A'') \<noteq> None" "utf8_decode [72, 105] \<noteq> None" by code_simp+
  then show "bulletin1_ok sample_bulletin1" "bulletin1_text sample_bulletin1"
    by (simp_all add: sample_bulletin1_def bulletin1_ok_def bulletin1_text_def u32_column_def time_column_def)
qed

theorem migrated_database_ok_witness:
  "\<exists>s' db. initialize (schema_1 sample_file [sample_bulletin1] Map.empty Map.empty) = (Inr (), s') \<and> to_database s' = Some db
    \<and> stores_ok db"
proof (rule migrated_database_ok [OF sample_file_ok(1) _ sample_file_ok(2)])
  show "in_order sample_file" by code_simp
qed (simp_all add: sample_file_distinct sample_bulletin1_ok)

end
