(* ===== verification/Py_Shell.thy ===== *)
theory Py_Shell
  imports Py_Text
begin

text \<open>
  What the command line programs and the configuration use of the standard library: the letters
  and lines of a text, \<open>shlex.split\<close> and \<open>int(text, 0)\<close>.
\<close>

section \<open>Letters and lines\<close>

text \<open>
  \<open>text.lower()\<close> on the ASCII letters. Beyond ASCII only the Kelvin sign has a lower case that is
  one ASCII letter, \<open>k\<close>, which no word the programs compare with contains.
\<close>

definition lower_letter :: "nat \<Rightarrow> nat" where
  "lower_letter c = (if 65 \<le> c \<and> c < 91 then c + 32 else c)"

definition lower :: "pystr \<Rightarrow> pystr" where
  "lower s = map lower_letter s"

text \<open>\<open>text.splitlines()\<close>: a carriage return and a newline end a line together.\<close>

definition is_line_break :: "nat \<Rightarrow> bool" where
  "is_line_break c \<longleftrightarrow> 10 \<le> c \<and> c \<le> 13 \<or> 28 \<le> c \<and> c \<le> 30 \<or> c = 0x85 \<or> c = 0x2028 \<or> c = 0x2029"

fun splitlines_from :: "pystr \<Rightarrow> pystr \<Rightarrow> pystr list" where
  "splitlines_from line [] = (if line = [] then [] else [line])"
| "splitlines_from line (c # cs) =
     (if c = 13 then line # (case cs of (_ # r) \<Rightarrow> if hd cs = 10 then splitlines_from [] r else splitlines_from [] cs
          | [] \<Rightarrow> [])
      else if is_line_break c then line # splitlines_from [] cs
      else splitlines_from (line @ [c]) cs)"

definition splitlines :: "pystr \<Rightarrow> pystr list" where
  "splitlines text = splitlines_from [] text"

text \<open>\<open>sep.join(texts)\<close>.\<close>

fun join_texts :: "pystr \<Rightarrow> pystr list \<Rightarrow> pystr" where
  "join_texts sep [] = []"
| "join_texts sep [s] = s"
| "join_texts sep (s # ss) = s @ sep @ join_texts sep ss"

section \<open>Words of a command line\<close>

text \<open>
  \<open>shlex.split\<close>: the states of the reader are \<open>' '\<close> between two words, \<open>'a'\<close> within one, the quote
  that is open, and the backslash with the state it returns to.
\<close>

datatype shlex_state = Gap | Word | Quote nat | Escape "nat option"

definition shlex_space :: "nat \<Rightarrow> bool" where
  "shlex_space c \<longleftrightarrow> c \<in> {32, 9, 13, 10}"

definition is_quote :: "nat \<Rightarrow> bool" where
  "is_quote c \<longleftrightarrow> c = 39 \<or> c = 34"

fun emit_word :: "pystr \<Rightarrow> pystr + pystr list \<Rightarrow> pystr + pystr list" where
  "emit_word word (Inl e) = Inl e"
| "emit_word word (Inr words) = Inr (word # words)"

fun shlex_run :: "shlex_state \<Rightarrow> pystr \<Rightarrow> pystr \<Rightarrow> pystr + pystr list" where
  "shlex_run Gap token [] = Inr []"
| "shlex_run Gap token (c # cs) =
     (if shlex_space c then shlex_run Gap [] cs
      else if c = 92 then shlex_run (Escape None) [] cs
      else if is_quote c then shlex_run (Quote c) [] cs
      else shlex_run Word [c] cs)"
| "shlex_run Word token [] = Inr [token]"
| "shlex_run Word token (c # cs) =
     (if shlex_space c then emit_word token (shlex_run Gap [] cs)
      else if is_quote c then shlex_run (Quote c) token cs
      else if c = 92 then shlex_run (Escape None) token cs
      else shlex_run Word (token @ [c]) cs)"
| "shlex_run (Quote q) token [] = Inl (lit ''No closing quotation'')"
| "shlex_run (Quote q) token (c # cs) =
     (if c = q then shlex_run Word token cs
      else if c = 92 \<and> q = 34 then shlex_run (Escape (Some q)) token cs
      else shlex_run (Quote q) (token @ [c]) cs)"
| "shlex_run (Escape q) token [] = Inl (lit ''No escaped character'')"
| "shlex_run (Escape q) token (c # cs) =
     shlex_run (case q of None \<Rightarrow> Word | Some k \<Rightarrow> Quote k)
       ((if q \<noteq> None \<and> c \<noteq> 92 \<and> q \<noteq> Some c then token @ [92] else token) @ [c]) cs"

definition shlex_split :: "pystr \<Rightarrow> pystr + pystr list" where
  "shlex_split line = shlex_run Gap [] line"

text \<open>A text without quotes and backslashes is split at its white space.\<close>

definition bare :: "nat \<Rightarrow> bool" where
  "bare c \<longleftrightarrow> \<not> shlex_space c \<and> \<not> is_quote c \<and> c \<noteq> 92"

lemma shlex_word: "\<forall>c \<in> set w. bare c \<Longrightarrow> shlex_run Word token (w @ r) = shlex_run Word (token @ w) r"
  by (induction w arbitrary: token) (simp_all add: bare_def)

lemma shlex_bare: "\<forall>c \<in> set w. bare c \<Longrightarrow> w \<noteq> [] \<Longrightarrow> shlex_run Gap token (w @ r) = shlex_run Word w r"
  using shlex_word [of "tl w" "[hd w]" r] by (cases w) (auto simp: bare_def)

lemma shlex_end: "shlex_run Word token [] = Inr [token]" "shlex_run Word token (32 # r) = emit_word token (shlex_run Gap [] r)"
  by (simp_all add: shlex_space_def)

lemma shlex_words:
  "(\<forall>w \<in> set ws. w \<noteq> [] \<and> (\<forall>c \<in> set w. bare c)) \<Longrightarrow> shlex_run Gap token (join_texts [32] ws) = Inr ws"
proof (induction "[32] :: pystr" ws arbitrary: token rule: join_texts.induct)
  case (2 s)
  then show ?case using shlex_bare [of s token "[]"] by simp
next
  case (3 s t ss)
  then show ?case using shlex_bare [of s token "32 # join_texts [32] (t # ss)"] by (simp add: shlex_space_def)
qed simp

section \<open>Integers with a prefix\<close>

text \<open>The digit of a number in a base up to 16.\<close>

definition digit_value :: "nat \<Rightarrow> nat \<Rightarrow> nat option" where
  "digit_value base c =
     (let d = (if 48 \<le> c \<and> c < 58 then c - 48 else if 97 \<le> c \<and> c < 103 then c - 87
               else if 65 \<le> c \<and> c < 71 then c - 55 else base)
      in if d < base then Some d else None)"

fun based_digits :: "nat \<Rightarrow> int \<Rightarrow> bool \<Rightarrow> pystr \<Rightarrow> int option" where
  "based_digits base acc after_digit [] = (if after_digit then Some acc else None)"
| "based_digits base acc after_digit (c # cs) =
     (case digit_value base c of
        Some d \<Rightarrow> based_digits base (acc * int base + int d) True cs
      | None \<Rightarrow> if c = 95 \<and> after_digit then based_digits base acc False cs else None)"

definition prefix_base :: "pystr \<Rightarrow> nat option" where
  "prefix_base s =
     (case s of
        z # p # _ \<Rightarrow>
          if z \<noteq> 48 then None else if p = 120 \<or> p = 88 then Some 16
          else if p = 111 \<or> p = 79 then Some 8 else if p = 98 \<or> p = 66 then Some 2 else None
      | _ \<Rightarrow> None)"

text \<open>After a prefix one underscore may stand; without one, only zero may begin with a zero.\<close>

definition int0_unsigned :: "pystr \<Rightarrow> int option" where
  "int0_unsigned s =
     (case prefix_base s of
        Some base \<Rightarrow>
          (let r = drop 2 s in based_digits base 0 False (if r \<noteq> [] \<and> hd r = 95 then tl r else r))
      | None \<Rightarrow>
          if 4300 < length (filter is_digit s) then None
          else (case int_digits 0 False s of
              None \<Rightarrow> None
            | Some i \<Rightarrow> if s \<noteq> [] \<and> hd s = 48 \<and> i \<noteq> 0 then None else Some i))"

text \<open>\<open>int(text, 0)\<close>, \<open>None\<close> where it raises \<open>ValueError\<close>.\<close>

definition py_int0 :: "pystr \<Rightarrow> int option" where
  "py_int0 text =
     (case number_text text of
        [] \<Rightarrow> None
      | c # cs \<Rightarrow>
          if c = 45 then map_option uminus (int0_unsigned cs)
          else if c = 43 then int0_unsigned cs
          else int0_unsigned (c # cs))"

end
