(* ===== verification/Frame_Tool.thy ===== *)
theory Frame_Tool
  imports Py_Shell Aprs_Diagnostics
begin

text \<open>
  The frame inspection tool (\<open>tools/frame_tool.py\<close>). It uses the two functions of
  \<open>protocol/codec.py\<close>, not those of the package, so GET_MESSAGE is outside its reach. What
  \<open>argparse\<close> makes of the words of a command line is an argument: the operation and the options
  with their texts. A run gives the lines it prints, the lines of its error output and how it ends;
  the wording of \<open>argparse\<close>'s own complaints is not modelled.
\<close>

section \<open>Hexadecimal bytes\<close>

text \<open>\<open>bytes.fromhex(text)\<close>: white space may stand between two bytes, not within one.\<close>

fun fromhex :: "pystr \<Rightarrow> bytes option" where
  "fromhex [] = Some []"
| "fromhex (c # cs) =
     (if 9 \<le> c \<and> c \<le> 13 \<or> c = 32 then fromhex cs
      else (case cs of
          [] \<Rightarrow> None
        | d # r \<Rightarrow>
            (case (digit_value 16 c, digit_value 16 d) of
               (Some h, Some l) \<Rightarrow> map_option ((#) (word_of_nat (16 * h + l))) (fromhex r)
             | _ \<Rightarrow> None)))"

text \<open>\<open>format_hex\<close>: \<open>data.hex(" ").upper()\<close>.\<close>

definition hex_of_byte :: "byte \<Rightarrow> pystr" where
  "hex_of_byte b = [upper_hex_digit (unat b div 16), upper_hex_digit (unat b mod 16)]"

definition format_hex :: "bytes \<Rightarrow> pystr" where
  "format_hex data = join_texts [32] (map hex_of_byte data)"

lemma digit_value_hex: "d < 16 \<Longrightarrow> digit_value 16 (upper_hex_digit d) = Some d"
  by (auto simp: digit_value_def upper_hex_digit_def Let_def)

lemma upper_hex_not_space: "d < 16 \<Longrightarrow> \<not> (9 \<le> upper_hex_digit d \<and> upper_hex_digit d \<le> 13) \<and> upper_hex_digit d \<noteq> 32"
  by (auto simp: upper_hex_digit_def)

lemma byte_digits: "unat (b :: byte) div 16 < 16" "unat (b :: byte) mod 16 < 16"
    "(word_of_nat (16 * (unat b div 16) + unat b mod 16) :: byte) = b"
  using unsigned_less [of b, where ?'a = nat] by (auto simp: less_mult_imp_div_less)

lemma fromhex_byte: "fromhex (hex_of_byte b @ r) = map_option ((#) b) (fromhex r)"
  using byte_digits [of b] by (simp add: hex_of_byte_def digit_value_hex upper_hex_not_space)

lemma fromhex_space: "fromhex (32 # r) = fromhex r"
  by simp

lemma fromhex_format_hex: "fromhex (format_hex data) = Some data"
proof (induction data)
  case (Cons b data)
  show ?case
  proof (cases data)
    case Nil
    then show ?thesis using fromhex_byte [of b "[]"] by (simp add: format_hex_def)
  next
    case (Cons c cs)
    then have "format_hex (b # data) = hex_of_byte b @ 32 # format_hex data" by (simp add: format_hex_def)
    then show ?thesis using Cons.IH fromhex_byte fromhex_space by simp
  qed
qed (simp add: format_hex_def)

section \<open>Arguments\<close>

datatype tool_value = TInt int | TStr pystr | TBool bool | TOp operation | TCode error_code

datatype converter = AsInteger | AsText | AsOperation | AsRequestOperation | AsErrorCode | AsBoolean

type_synonym namespace = "string \<rightharpoonup> tool_value"

text \<open>\<open>parse_integer\<close>, \<open>enum_parser\<close>, \<open>parse_request_operation\<close> and \<open>parse_boolean\<close>; \<open>None\<close> is an
  \<open>ArgumentTypeError\<close>.\<close>

definition enum_operation :: "pystr \<Rightarrow> operation option" where
  "enum_operation v = find (\<lambda>q. operation_name q = upper v) all_operations"

definition enum_error_code :: "pystr \<Rightarrow> error_code option" where
  "enum_error_code v = find (\<lambda>e. error_code_name e = upper v) all_error_codes"

definition parse_request_operation :: "pystr \<Rightarrow> tool_value option" where
  "parse_request_operation v =
     (if v = lit ''0'' then Some (TInt 0) else map_option TOp (enum_operation v))"

definition parse_boolean :: "pystr \<Rightarrow> bool option" where
  "parse_boolean v =
     (let normalized = lower v in
      if normalized = lit ''true'' \<or> normalized = lit ''1'' then Some True
      else if normalized = lit ''false'' \<or> normalized = lit ''0'' then Some False
      else None)"

fun convert :: "converter \<Rightarrow> pystr \<Rightarrow> tool_value option" where
  "convert AsInteger v = map_option TInt (py_int0 v)"
| "convert AsText v = Some (TStr v)"
| "convert AsOperation v = map_option TOp (enum_operation v)"
| "convert AsRequestOperation v = parse_request_operation v"
| "convert AsErrorCode v = map_option TCode (enum_error_code v)"
| "convert AsBoolean v = map_option TBool (parse_boolean v)"

text \<open>The options \<open>_build_parser\<close> declares for the operations, every one of them required.\<close>

definition integers :: "string list \<Rightarrow> (string \<times> converter) list" where
  "integers names = map (\<lambda>n. (n, AsInteger)) names"

definition texts :: "string list \<Rightarrow> (string \<times> converter) list" where
  "texts names = map (\<lambda>n. (n, AsText)) names"

definition subparsers :: "(string \<times> (string \<times> converter) list) list" where
  "subparsers =
     [(''SEND_MESSAGE'', integers [''created_at''] @ texts [''recipient'', ''body'']),
      (''GET_NEW_MESSAGES'', integers [''since'', ''max'']),
      (''GET_NEW_BULLETINS'', integers [''since'', ''max'']),
      (''GET_BULLETIN'', integers [''sequence'']),
      (''GET_CAPABILITIES'', []),
      (''CAPABILITIES'', integers [''protocol_version'', ''capabilities'']),
      (''MESSAGE'', integers [''sequence'', ''created_at''] @ texts [''author'', ''recipient'', ''body'']),
      (''BULLETIN_HEADER'', integers [''sequence'', ''created_at''] @ texts [''author'', ''title'']),
      (''BULLETIN'', integers [''sequence'', ''created_at''] @ texts [''author'', ''title'', ''body'']),
      (''END'', (''request_operation'', AsOperation) # integers [''returned_count'', ''next_since''] @ [(''has_more'', AsBoolean)]),
      (''STORED'', []),
      (''ERROR'', [(''request_operation'', AsRequestOperation), (''error_code'', AsErrorCode), (''detail'', AsText)])]"

text \<open>\<open>parse_args\<close> for one subparser, \<open>None\<close> where \<open>argparse\<close> ends the program; of an option given
  more than once the last is taken.\<close>

fun convert_options :: "(string \<times> converter) list \<Rightarrow> (string \<times> pystr) list \<Rightarrow> namespace \<Rightarrow> namespace option" where
  "convert_options declared [] ns = Some ns"
| "convert_options declared ((name, v) # given) ns =
     (case map_of declared name of
        None \<Rightarrow> None
      | Some c \<Rightarrow> (case convert c v of None \<Rightarrow> None | Some x \<Rightarrow> convert_options declared given (ns(name \<mapsto> x))))"

definition parse_options :: "(string \<times> converter) list \<Rightarrow> (string \<times> pystr) list \<Rightarrow> namespace option" where
  "parse_options declared given =
     (case convert_options declared given Map.empty of
        None \<Rightarrow> None
      | Some ns \<Rightarrow> if list_all (\<lambda>(name, _). ns name \<noteq> None) declared then Some ns else None)"

section \<open>Models\<close>

text \<open>\<open>values[field.name]\<close>; the converters give each field a value of its type.\<close>

definition int_field :: "namespace \<Rightarrow> string \<Rightarrow> int result" where
  "int_field ns name = (case ns name of Some (TInt i) \<Rightarrow> Inr i | None \<Rightarrow> Inl KeyError | _ \<Rightarrow> Inl (TypeError []))"

definition text_field :: "namespace \<Rightarrow> string \<Rightarrow> pystr result" where
  "text_field ns name = (case ns name of Some (TStr s) \<Rightarrow> Inr s | None \<Rightarrow> Inl KeyError | _ \<Rightarrow> Inl (TypeError []))"

definition operation_field :: "namespace \<Rightarrow> string \<Rightarrow> operation result" where
  "operation_field ns name = (case ns name of Some (TOp q) \<Rightarrow> Inr q | None \<Rightarrow> Inl KeyError | _ \<Rightarrow> Inl (TypeError []))"

definition request_operation_field :: "namespace \<Rightarrow> string \<Rightarrow> request_operation result" where
  "request_operation_field ns name =
     (case ns name of Some (TOp q) \<Rightarrow> Inr (Op q) | Some (TInt i) \<Rightarrow> Inr (Raw i) | None \<Rightarrow> Inl KeyError | _ \<Rightarrow> Inl (TypeError []))"

definition error_code_field :: "namespace \<Rightarrow> string \<Rightarrow> error_code result" where
  "error_code_field ns name = (case ns name of Some (TCode e) \<Rightarrow> Inr e | None \<Rightarrow> Inl KeyError | _ \<Rightarrow> Inl (TypeError []))"

definition bool_field :: "namespace \<Rightarrow> string \<Rightarrow> bool result" where
  "bool_field ns name = (case ns name of Some (TBool b) \<Rightarrow> Inr b | None \<Rightarrow> Inl KeyError | _ \<Rightarrow> Inl (TypeError []))"

definition build_model :: "string \<Rightarrow> namespace \<Rightarrow> protocol_object result" where
  "build_model name ns =
     (let int = int_field ns; str = text_field ns in
      if name = ''SEND_MESSAGE'' then
        bindE (int ''created_at'') (\<lambda>c. bindE (str ''recipient'') (\<lambda>r. bindE (str ''body'') (\<lambda>b. Inr (SendMessage c r b))))
      else if name = ''GET_NEW_MESSAGES'' then bindE (int ''since'') (\<lambda>s. bindE (int ''max'') (\<lambda>m. Inr (GetNewMessages s m)))
      else if name = ''GET_NEW_BULLETINS'' then bindE (int ''since'') (\<lambda>s. bindE (int ''max'') (\<lambda>m. Inr (GetNewBulletins s m)))
      else if name = ''GET_BULLETIN'' then bindE (int ''sequence'') (\<lambda>s. Inr (GetBulletin s))
      else if name = ''GET_CAPABILITIES'' then Inr GetCapabilities
      else if name = ''CAPABILITIES'' then
        bindE (int ''protocol_version'') (\<lambda>v. bindE (int ''capabilities'') (\<lambda>c. Inr (Capabilities v c)))
      else if name = ''MESSAGE'' then
        bindE (int ''sequence'') (\<lambda>s. bindE (int ''conversation_sequence'') (\<lambda>n. bindE (int ''created_at'') (\<lambda>c.
          bindE (str ''author'') (\<lambda>a. bindE (str ''recipient'') (\<lambda>r. bindE (str ''body'') (\<lambda>b. Inr (Message s n c a r b)))))))
      else if name = ''BULLETIN_HEADER'' then
        bindE (int ''sequence'') (\<lambda>s. bindE (int ''created_at'') (\<lambda>c. bindE (str ''author'') (\<lambda>a. bindE (str ''title'') (\<lambda>t.
          Inr (BulletinHeader s c a t)))))
      else if name = ''BULLETIN'' then
        bindE (int ''sequence'') (\<lambda>s. bindE (int ''created_at'') (\<lambda>c. bindE (str ''author'') (\<lambda>a. bindE (str ''title'') (\<lambda>t.
          bindE (str ''body'') (\<lambda>b. Inr (Bulletin s c a t b))))))
      else if name = ''END'' then
        bindE (operation_field ns ''request_operation'') (\<lambda>p. bindE (int ''returned_count'') (\<lambda>n. bindE (int ''next_since'') (\<lambda>s.
          bindE (bool_field ns ''has_more'') (\<lambda>h. Inr (End p n s h)))))
      else if name = ''STORED'' then Inr Stored
      else if name = ''ERROR'' then
        bindE (request_operation_field ns ''request_operation'') (\<lambda>p. bindE (error_code_field ns ''error_code'') (\<lambda>e.
          bindE (str ''detail'') (\<lambda>d. Inr (Error p e d))))
      else Inl KeyError)"

text \<open>\<open>fields(model)\<close> with their values.\<close>

fun model_fields :: "protocol_object \<Rightarrow> (string \<times> tool_value) list" where
  "model_fields (SendMessage c r b) = [(''created_at'', TInt c), (''recipient'', TStr r), (''body'', TStr b)]"
| "model_fields (GetNewMessages s m) = [(''since'', TInt s), (''max'', TInt m)]"
| "model_fields (GetNewBulletins s m) = [(''since'', TInt s), (''max'', TInt m)]"
| "model_fields (GetBulletin s) = [(''sequence'', TInt s)]"
| "model_fields GetCapabilities = []"
| "model_fields (GetMessage p s) = [(''peer'', TStr p), (''conversation_sequence'', TInt s)]"
| "model_fields (Capabilities v c) = [(''protocol_version'', TInt v), (''capabilities'', TInt c)]"
| "model_fields (Message s n c a r b) = [(''sequence'', TInt s), (''conversation_sequence'', TInt n), (''created_at'', TInt c),
     (''author'', TStr a), (''recipient'', TStr r), (''body'', TStr b)]"
| "model_fields (BulletinHeader s c a t) = [(''sequence'', TInt s), (''created_at'', TInt c), (''author'', TStr a), (''title'', TStr t)]"
| "model_fields (Bulletin s c a t b) = [(''sequence'', TInt s), (''created_at'', TInt c), (''author'', TStr a), (''title'', TStr t),
     (''body'', TStr b)]"
| "model_fields (End p n s h) = [(''request_operation'', TOp p), (''returned_count'', TInt n), (''next_since'', TInt s),
     (''has_more'', TBool h)]"
| "model_fields Stored = []"
| "model_fields (Error p e d) = [(''request_operation'', case p of Op q \<Rightarrow> TOp q | Raw i \<Rightarrow> TInt i), (''error_code'', TCode e),
     (''detail'', TStr d)]"

section \<open>Runs\<close>

fun display_value :: "tool_value \<Rightarrow> pystr" where
  "display_value (TOp q) = operation_name q @ lit '' (0x'' @ hex_padded 2 (op_code q) @ lit '')''"
| "display_value (TCode e) = error_code_name e @ lit '' (0x'' @ hex_padded 2 (err_code e) @ lit '')''"
| "display_value (TBool b) = (if b then lit ''true'' else lit ''false'')"
| "display_value (TInt i) = dec i @ lit '' (0x'' @ hex_padded 0 i @ lit '')''"
| "display_value (TStr s) = s"

datatype tool_end = Exit int | Uncaught exn

record tool_run =
  tr_out :: "pystr list"
  tr_err :: "pystr list"
  tr_end :: tool_end

definition is_ProtocolError :: "exn \<Rightarrow> bool" where
  "is_ProtocolError e \<longleftrightarrow> is_ProtocolDecodeError e \<or> is_InvalidFieldError e
     \<or> (case e of ProtocolEncodeError _ \<Rightarrow> True | _ \<Rightarrow> False)"

fun exn_name :: "exn \<Rightarrow> pystr" where
  "exn_name (ProtocolDecodeError _) = lit ''ProtocolDecodeError''"
| "exn_name (ProtocolEncodeError _) = lit ''ProtocolEncodeError''"
| "exn_name (UnsupportedVersionError _) = lit ''UnsupportedVersionError''"
| "exn_name (UnknownOperationError _) = lit ''UnknownOperationError''"
| "exn_name (InvalidFieldError _) = lit ''InvalidFieldError''"
| "exn_name (FieldTooLongError _ _ _) = lit ''FieldTooLongError''"
| "exn_name (PayloadLengthError _) = lit ''PayloadLengthError''"
| "exn_name (SequenceExhaustedError _) = lit ''SequenceExhaustedError''"
| "exn_name (StorageIntegrityError _) = lit ''StorageIntegrityError''"
| "exn_name (InvalidCursorError _) = lit ''InvalidCursorError''"
| "exn_name (IdempotencyConflictError _) = lit ''IdempotencyConflictError''"
| "exn_name SqliteIntegrityError = lit ''IntegrityError''"
| "exn_name AccountExistsError = lit ''AccountExistsError''"
| "exn_name (InvalidCredentialsError _) = lit ''InvalidCredentialsError''"
| "exn_name (CarriageError _) = lit ''CarriageError''"
| "exn_name (TransactionConflict _) = lit ''TransactionConflict''"
| "exn_name (ValueError _) = lit ''ValueError''"
| "exn_name (TypeError _) = lit ''TypeError''"
| "exn_name KeyError = lit ''KeyError''"
| "exn_name AssertionError = lit ''AssertionError''"
| "exn_name UnicodeEncodeError = lit ''UnicodeEncodeError''"
| "exn_name (OverflowError _) = lit ''OverflowError''"

definition described :: "exn \<Rightarrow> pystr" where
  "described e = exn_name e @ lit '': '' @ exn_str e"

text \<open>\<open>Operation(canonical[1])\<close> of a frame the codec has made.\<close>

definition frame_operation :: "bytes \<Rightarrow> operation result" where
  "frame_operation canonical =
     (case Operation (uint (canonical ! 1)) of None \<Rightarrow> Inl (ValueError []) | Some q \<Rightarrow> Inr q)"

definition print_model :: "protocol_object \<Rightarrow> bytes \<Rightarrow> pystr list result" where
  "print_model model frame =
     bindE (codec_encode_frame model False) (\<lambda>canonical.
     bindE (frame_operation canonical) (\<lambda>operation.
       Inr ([lit ''Operation: '' @ operation_name operation,
             lit ''Frame size: '' @ dec (int (length frame)) @ lit '' bytes'',
             lit ''Payload size: '' @ dec (int (length frame) - int HEADER_SIZE) @ lit '' bytes'', []]
           @ map (\<lambda>(name, v). lit name @ lit '': '' @ display_value v) (model_fields model)
           @ [[], lit ''Hex:'', format_hex canonical])))"

definition tool_encode :: "pystr \<Rightarrow> (string \<times> pystr) list \<Rightarrow> tool_run" where
  "tool_encode operation given =
     (case find (\<lambda>(name, _). lit name = upper operation) subparsers of
        None \<Rightarrow> \<lparr>tr_out = [], tr_err = [], tr_end = Exit 2\<rparr>
      | Some (name, declared) \<Rightarrow>
          (case parse_options declared given of
             None \<Rightarrow> \<lparr>tr_out = [], tr_err = [], tr_end = Exit 2\<rparr>
           | Some ns \<Rightarrow>
               (case bindE (build_model name ns) (\<lambda>model. codec_encode_frame model False) of
                  Inr frame \<Rightarrow> \<lparr>tr_out = [format_hex frame], tr_err = [], tr_end = Exit 0\<rparr>
                | Inl e \<Rightarrow>
                    if is_ProtocolError e then \<lparr>tr_out = [], tr_err = [lit ''ERROR: '' @ described e], tr_end = Exit 1\<rparr>
                    else \<lparr>tr_out = [], tr_err = [], tr_end = Uncaught e\<rparr>)))"

definition tool_decode :: "pystr \<Rightarrow> tool_run" where
  "tool_decode hex_frame =
     (case fromhex hex_frame of
        None \<Rightarrow> \<lparr>tr_out = [], tr_err = [lit ''ERROR: invalid hexadecimal input''], tr_end = Exit 1\<rparr>
      | Some frame \<Rightarrow>
          (case codec_decode_frame (PBytes frame) of
             Inl e \<Rightarrow>
               if is_ProtocolError e then \<lparr>tr_out = [], tr_err = [lit ''ERROR: '' @ described e], tr_end = Exit 1\<rparr>
               else \<lparr>tr_out = [], tr_err = [], tr_end = Uncaught e\<rparr>
           | Inr model \<Rightarrow>
               (case print_model model frame of
                  Inl e \<Rightarrow> \<lparr>tr_out = [], tr_err = [], tr_end = Uncaught e\<rparr>
                | Inr out \<Rightarrow> \<lparr>tr_out = out, tr_err = [], tr_end = Exit 0\<rparr>)))"

definition tool_validate :: "pystr \<Rightarrow> tool_run" where
  "tool_validate hex_frame =
     (case fromhex hex_frame of
        None \<Rightarrow> \<lparr>tr_out = [lit ''INVALID'', lit ''ValueError: invalid hexadecimal input''], tr_err = [], tr_end = Exit 1\<rparr>
      | Some frame \<Rightarrow>
          (case codec_decode_frame (PBytes frame) of
             Inl e \<Rightarrow>
               if is_ProtocolError e then \<lparr>tr_out = [lit ''INVALID'', described e], tr_err = [], tr_end = Exit 1\<rparr>
               else \<lparr>tr_out = [], tr_err = [], tr_end = Uncaught e\<rparr>
           | Inr model \<Rightarrow>
               (case codec_encode_frame model False of
                  Inl e \<Rightarrow> \<lparr>tr_out = [], tr_err = [], tr_end = Uncaught e\<rparr>
                | Inr canonical \<Rightarrow>
                    (case frame_operation canonical of
                       Inl e \<Rightarrow> \<lparr>tr_out = [lit ''VALID''], tr_err = [], tr_end = Uncaught e\<rparr>
                     | Inr operation \<Rightarrow>
                         \<lparr>tr_out = [lit ''VALID'', lit ''Operation: '' @ operation_name operation], tr_err = [], tr_end = Exit 0\<rparr>))))"

datatype tool_command = ToolEncode pystr "(string \<times> pystr) list" | ToolDecode pystr | ToolValidate pystr

fun tool_main :: "tool_command \<Rightarrow> tool_run" where
  "tool_main (ToolEncode operation given) = tool_encode operation given"
| "tool_main (ToolDecode hex_frame) = tool_decode hex_frame"
| "tool_main (ToolValidate hex_frame) = tool_validate hex_frame"

end
