(* ===== verification/Frame_Tool_Properties.thy ===== *)
theory Frame_Tool_Properties
  imports Frame_Tool Protocol_Properties
begin

text \<open>
  What the frame tool promises: the options of an object, written the way a user writes them, make
  its frame, which validates and decodes to the same hexadecimal text; and exactly which inputs end
  the tool with a traceback.
\<close>

section \<open>Reading what was written\<close>

lemma int0_dec:
  assumes "0 \<le> n" "n < 4294967296" shows "py_int0 (dec n) = Some n"
proof -
  have s: "number_text (dec_nat (nat n)) = dec_nat (nat n)" by (rule number_text_digits(1)) (blast intro: dec_nat_digits)
  have "nat n < 10 ^ Suc 9" using assms by (simp add: nat_less_iff)
  then have len: "length (filter is_digit (dec_nat (nat n))) \<le> 4300"
    using dec_nat_length [of "nat n" 9] length_filter_le [of is_digit "dec_nat (nat n)"] by linarith
  obtain c cs where c: "dec_nat (nat n) = c # cs" "is_digit c" "c = 48 \<longrightarrow> cs = []" by (rule dec_nat_head)
  have v: "int_digits 0 False (c # cs) = Some n" using int_digits_dec [of "nat n"] assms c by simp
  have p: "prefix_base (c # cs) = None" using c(3) by (auto simp: prefix_base_def split: list.split)
  have z: "c = 48 \<Longrightarrow> n = 0" using v c(3) by (simp add: is_digit_def)
  have "int0_unsigned (c # cs) = Some n" using p v z len c(1) by (auto simp: int0_unsigned_def)
  moreover have "number_text (c # cs) = c # cs" using s c by simp
  ultimately show ?thesis using assms(1) c by (auto simp: py_int0_def dec_def is_digit_def)
qed

lemma upper_id: "\<forall>c \<in> set s. c < 97 \<Longrightarrow> upper s = s"
  by (induction s) (auto simp: upper_def upper_char_def special_upper_def)

lemma upper_operation_name: "upper (operation_name q) = operation_name q"
  by (rule upper_id) (cases q; simp add: lit_def)

lemma upper_error_code_name: "upper (error_code_name e) = error_code_name e"
  by (rule upper_id) (cases e; simp add: lit_def)

lemma operation_name_inject: "operation_name p = operation_name q \<longleftrightarrow> p = q"
  by (cases p; cases q) (simp_all add: lit_inject)

lemma error_code_name_inject: "error_code_name p = error_code_name q \<longleftrightarrow> p = q"
  by (cases p; cases q) (simp_all add: lit_inject)

lemma enum_names: "enum_operation (operation_name q) = Some q" "enum_error_code (error_code_name e) = Some e"
  unfolding enum_operation_def enum_error_code_def upper_operation_name upper_error_code_name operation_name_inject error_code_name_inject
  by (cases q; simp add: all_operations_def) (cases e; simp add: all_error_codes_def)

fun value_text :: "tool_value \<Rightarrow> pystr" where
  "value_text (TInt i) = dec i"
| "value_text (TStr s) = s"
| "value_text (TBool b) = (if b then lit ''true'' else lit ''false'')"
| "value_text (TOp q) = operation_name q"
| "value_text (TCode e) = error_code_name e"

definition object_options :: "protocol_object \<Rightarrow> (string \<times> pystr) list" where
  "object_options obj = map (\<lambda>(name, v). (name, value_text v)) (model_fields obj)"

lemma dec_0: "dec 0 = lit ''0''"
  by (simp add: dec_def dec_nat.simps lit_def)

lemma operation_name_not_0: "operation_name q \<noteq> lit ''0''"
  by (cases q) (simp_all only: operation_name.simps lit_inject, simp_all)

text \<open>Which texts of which values a converter reads.\<close>

definition reads_back :: "string \<times> converter \<Rightarrow> string \<times> tool_value \<Rightarrow> bool" where
  "reads_back declared field \<longleftrightarrow> fst declared = fst field \<and> convert (snd declared) (value_text (snd field)) = Some (snd field)"

lemma reads_back_simps [simp]:
  "reads_back (n, AsInteger) (m, TInt i) \<longleftrightarrow> n = m \<and> py_int0 (dec i) = Some i"
  "reads_back (n, AsText) (m, TStr s) \<longleftrightarrow> n = m"
  "reads_back (n, AsOperation) (m, TOp q) \<longleftrightarrow> n = m"
  "reads_back (n, AsErrorCode) (m, TCode e) \<longleftrightarrow> n = m"
  "reads_back (n, AsBoolean) (m, TBool b) \<longleftrightarrow> n = m"
  "reads_back (n, AsRequestOperation) (m, TOp q) \<longleftrightarrow> n = m"
  "reads_back (n, AsRequestOperation) (m, TInt 0) \<longleftrightarrow> n = m"
  by (auto simp: reads_back_def enum_names parse_request_operation_def operation_name_not_0 operation_name_not_0 [unfolded lit_def, simplified] dec_0 parse_boolean_def lower_def
      lower_letter_def lit_def)

lemma convert_written:
  assumes "list_all2 reads_back ds fs" "distinct (map fst ds)" "set ds \<subseteq> set declared" "distinct (map fst declared)"
  shows "convert_options declared (map (\<lambda>(name, v). (name, value_text v)) fs) ns = Some (ns ++ map_of fs)"
  using assms
proof (induction ds fs arbitrary: ns rule: list_all2_induct)
  case (Cons d ds f fs)
  obtain n c v where d: "d = (n, c)" "f = (n, v)" "convert c (value_text v) = Some v"
    using Cons.hyps(1) by (cases d; cases f) (auto simp: reads_back_def)
  have c: "map_of declared n = Some c" using Cons.prems d(1) by (auto intro: map_of_is_SomeI)
  have "n \<notin> fst ` set fs"
  proof -
    have "map fst ds = map fst fs" using Cons.hyps(2)
      by (induction rule: list_all2_induct) (auto simp: reads_back_def)
    then have "fst ` set ds = fst ` set fs" by (metis list.set_map)
    then show ?thesis using Cons.prems(1) d(1) by simp
  qed
  then have "map_of fs n = None" by (simp add: map_of_eq_None_iff)
  then have e: "ns(n \<mapsto> v) ++ map_of fs = ns ++ (map_of fs)(n \<mapsto> v)"
    by (auto simp: map_add_def fun_eq_iff split: option.split)
  have "convert_options declared (map (\<lambda>(name, v). (name, value_text v)) (f # fs)) ns
      = convert_options declared (map (\<lambda>(name, v). (name, value_text v)) fs) (ns(n \<mapsto> v))"
    by (simp add: d c)
  also have "\<dots> = Some (ns(n \<mapsto> v) ++ map_of fs)" by (rule Cons.IH) (use Cons.prems in auto)
  also have "\<dots> = Some (ns ++ map_of (f # fs))" unfolding e by (simp add: d)
  finally show ?case .
qed simp

lemma parse_written:
  assumes "list_all2 reads_back declared (model_fields obj)" "distinct (map fst declared)"
  shows "parse_options declared (object_options obj) = Some (map_of (model_fields obj))"
proof -
  have n: "map fst declared = map fst (model_fields obj)" using assms(1)
    by (induction rule: list_all2_induct) (auto simp: reads_back_def)
  have "(map_of (model_fields obj)) name \<noteq> None" if "(name, c) \<in> set declared" for name c
    using that n by (metis dom_map_of_conv_image_fst domIff fst_conv image_eqI list.set_map)
  then show ?thesis using convert_written [OF assms(1,2) _ assms(2)]
    by (auto simp: parse_options_def object_options_def list_all_iff)
qed

section \<open>Encoding\<close>

text \<open>The objects the parser has a complete subparser for.\<close>

definition encodable :: "protocol_object \<Rightarrow> bool" where
  "encodable obj \<longleftrightarrow> valid_object obj
     \<and> (case obj of Message _ _ _ _ _ _ \<Rightarrow> False | GetMessage _ _ \<Rightarrow> False | _ \<Rightarrow> True)"

definition object_operation :: "protocol_object \<Rightarrow> operation" where
  "object_operation obj = (case ENCODERS obj of Some (q, _) \<Rightarrow> q | None \<Rightarrow> GET_MESSAGE)"

lemmas tool_tables = subparsers_def integers_def texts_def lit_inject
  int_field_def text_field_def operation_field_def request_operation_field_def error_code_field_def bool_field_def

lemma encodable_model:
  assumes "encodable obj"
  shows "\<exists>name declared. find (\<lambda>(name, _). lit name = operation_name (object_operation obj)) subparsers = Some (name, declared)
    \<and> list_all2 reads_back declared (model_fields obj) \<and> distinct (map fst declared)
    \<and> build_model name (map_of (model_fields obj)) = Inr obj"
proof (cases obj)
  case (Error p e d)
  then have "p = Raw 0 \<or> (\<exists>q. p = Op q)" using assms by (auto simp: encodable_def split: request_operation.splits)
  then show ?thesis using Error by (auto simp: object_operation_def tool_tables build_model_def)
qed (use assms in \<open>auto simp: encodable_def object_operation_def tool_tables build_model_def int0_dec\<close>)

lemma decode_header_made: "length p \<le> 255 \<Longrightarrow> decode_header (PBytes (header q 0 p)) False = Inr (q, 0, p)"
  by (simp add: decode_header_iff)

lemma frame_operation_made: "codec_encode_frame obj False = Inr d \<Longrightarrow> \<exists>q. ENCODERS obj = Some (q, Inr (drop 4 d)) \<and> frame_operation d = Inr q"
  by (auto simp: codec_encode_frame_Inr frame_operation_def header_def less_imp_le)

lemma codec_encodes:
  assumes "encodable obj"
  obtains d p where "codec_encode_frame obj False = Inr d" "encode_frame obj False = Inr d"
    "codec_decode_frame (PBytes d) = Inr obj" "frame_operation d = Inr (object_operation obj)"
proof -
  obtain q m where q: "ENCODERS obj = Some (q, m)" using assms ENCODERS_total [of obj] by (auto simp: encodable_def)
  then obtain p where p: "m = Inr p" using assms ENCODERS_ok [OF q] by (auto simp: encodable_def is_ok_iff)
  let ?d = "header q 0 p"
  have c: "codec_encode_frame obj False = Inr ?d" using q p by (simp add: codec_encode_frame_Inr)
  have "encode_frame obj False = Inr ?d" using q p by (auto simp: encode_frame_Inr)
  moreover have "codec_decode_frame (PBytes ?d) = Inr obj"
    using p ENCODERS_length [of obj q p] DECODERS_of_ENCODERS [of obj q p] q by (simp add: codec_decode_frame_def decode_header_made)
  moreover have "frame_operation ?d = Inr (object_operation obj)"
    using q by (simp add: frame_operation_def object_operation_def header_def less_imp_le)
  ultimately show ?thesis using c that by blast
qed

text \<open>C35. Encoding on the command line: for every object but a MESSAGE and a GET_MESSAGE, its
  operation's name and its fields written as options make the tool print the frame the package
  makes of the object, as hexadecimal text. That text validates, with the operation's name, and
  decodes to a view that ends with the same text.\<close>

theorem frame_tool_encodes:
  assumes "encodable obj"
  shows "\<exists>d out. encode_frame obj False = Inr d
    \<and> tool_main (ToolEncode (operation_name (object_operation obj)) (object_options obj))
      = \<lparr>tr_out = [format_hex d], tr_err = [], tr_end = Exit 0\<rparr>
    \<and> tool_main (ToolValidate (format_hex d))
      = \<lparr>tr_out = [lit ''VALID'', lit ''Operation: '' @ operation_name (object_operation obj)], tr_err = [], tr_end = Exit 0\<rparr>
    \<and> tool_main (ToolDecode (format_hex d)) = \<lparr>tr_out = out @ [format_hex d], tr_err = [], tr_end = Exit 0\<rparr>"
proof -
  obtain d where d: "codec_encode_frame obj False = Inr d" "encode_frame obj False = Inr d"
      "codec_decode_frame (PBytes d) = Inr obj" "frame_operation d = Inr (object_operation obj)"
    by (rule codec_encodes [OF assms])
  obtain name declared where t: "find (\<lambda>(name, _). lit name = operation_name (object_operation obj)) subparsers = Some (name, declared)"
      "list_all2 reads_back declared (model_fields obj)" "distinct (map fst declared)" "build_model name (map_of (model_fields obj)) = Inr obj"
    using encodable_model [OF assms] by blast
  have "tool_encode (operation_name (object_operation obj)) (object_options obj)
      = \<lparr>tr_out = [format_hex d], tr_err = [], tr_end = Exit 0\<rparr>"
    by (simp add: tool_encode_def upper_operation_name t parse_written d)
  moreover obtain out where "print_model obj d = Inr (out @ [format_hex d])" using d by (simp add: print_model_def)
  ultimately show ?thesis using d
    by (auto simp: tool_validate_def tool_decode_def fromhex_format_hex)
qed

theorem frame_tool_encodes_witness:
  "\<exists>d. tool_main (ToolEncode (lit ''SEND_MESSAGE'') [(''created_at'', dec 7), (''recipient'', lit ''A1A''), (''body'', lit ''hi'')])
      = \<lparr>tr_out = [format_hex d], tr_err = [], tr_end = Exit 0\<rparr>
    \<and> tool_main (ToolValidate (format_hex d))
      = \<lparr>tr_out = [lit ''VALID'', lit ''Operation: '' @ lit ''SEND_MESSAGE''], tr_err = [], tr_end = Exit 0\<rparr>"
proof -
  let ?o = "SendMessage 7 (lit ''A1A'') (lit ''hi'')"
  have "encodable ?o"
    by (simp add: encodable_def callsign_ok_def is_digit_def is_upper_def valid_text_def scalar_def utf8_size_def lit_def)
  moreover have "operation_name (object_operation ?o) = lit ''SEND_MESSAGE''" by (simp add: object_operation_def)
  ultimately show ?thesis using frame_tool_encodes [of ?o] by (auto simp: object_options_def)
qed

section \<open>Tracebacks\<close>

lemma codec_error_ProtocolError: "codec_error e \<Longrightarrow> is_ProtocolError e"
  by (auto simp: codec_error_def is_ProtocolError_def)

lemma codec_decode_uncaught:
  "(\<exists>e. codec_decode_frame (PBytes d) = Inl e \<and> \<not> is_ProtocolError e \<and> e' = e)
    \<longleftrightarrow> e' = KeyError \<and> (\<exists>p. length p \<le> 255 \<and> d = header GET_MESSAGE 0 p)" (is "?l \<longleftrightarrow> ?r")
proof
  assume ?l
  then have u: "codec_decode_frame (PBytes d) = Inl e'" "\<not> codec_error e'" using codec_error_ProtocolError by blast+
  then obtain q fl p where h: "decode_header (PBytes d) False = Inr (q, fl, p)" "DECODERS q p = Inl e'"
    using decode_header_raises by (auto simp: codec_decode_frame_def bindE_eq_Inl)
  then have "q = GET_MESSAGE" using u(2) DECODERS_raises by blast
  with h show ?r by (auto simp: decode_header_iff)
next
  assume ?r
  then show ?l by (auto simp: codec_decode_frame_def decode_header_made is_ProtocolError_def)
qed

lemma codec_reencode:
  assumes "codec_decode_frame (PBytes d) = Inr obj"
  shows "codec_encode_frame obj False = Inr d \<or> (\<exists>c. obj = Capabilities 0 c)"
proof -
  obtain q p where h: "length p \<le> 255" "d = header q 0 p" "DECODERS q p = Inr obj"
    using assms by (auto simp: codec_decode_frame_def bindE_eq_Inr decode_header_iff)
  then show ?thesis using ENCODERS_of_DECODERS [OF h(3)] by (auto simp: codec_encode_frame_Inr)
qed

lemma version_0_encode: "\<exists>m. codec_encode_frame (Capabilities 0 c) False = Inl (InvalidFieldError m)"
  by (auto simp: codec_encode_frame_def encode_capabilities_def u8_def integer_def Let_def)

lemma get_message_frame: "length p \<le> 255 \<Longrightarrow> codec_decode_frame (PBytes (header GET_MESSAGE 0 p)) = Inl KeyError"
  by (simp add: codec_decode_frame_def decode_header_made)

text \<open>The three ways a frame can end the tool.\<close>

lemma decoding_ends:
  obtains (error) e where "codec_decode_frame (PBytes d) = Inl e" "is_ProtocolError e" "\<nexists>p. length p \<le> 255 \<and> d = header GET_MESSAGE 0 p"
  | (get_message) p where "codec_decode_frame (PBytes d) = Inl KeyError" "length p \<le> 255" "d = header GET_MESSAGE 0 p"
  | (version_0) c m where "codec_decode_frame (PBytes d) = Inr (Capabilities 0 c)"
      "codec_encode_frame (Capabilities 0 c) False = Inl (InvalidFieldError m)" "\<nexists>p. length p \<le> 255 \<and> d = header GET_MESSAGE 0 p"
  | (good) obj q where "codec_decode_frame (PBytes d) = Inr obj" "codec_encode_frame obj False = Inr d" "frame_operation d = Inr q"
      "\<nexists>c. obj = Capabilities 0 c" "\<nexists>p. length p \<le> 255 \<and> d = header GET_MESSAGE 0 p"
proof (cases "codec_decode_frame (PBytes d)")
  case (Inl e)
  show ?thesis
  proof (cases "is_ProtocolError e")
    case True
    then show ?thesis using error [OF Inl] Inl get_message_frame by (force simp: is_ProtocolError_def)
  next
    case False
    then have "e = KeyError \<and> (\<exists>p. length p \<le> 255 \<and> d = header GET_MESSAGE 0 p)"
      using Inl codec_decode_uncaught [of d e] by blast
    then show ?thesis using get_message Inl by blast
  qed
next
  case (Inr obj)
  then have n: "\<nexists>p. length p \<le> 255 \<and> d = header GET_MESSAGE 0 p" using get_message_frame by force
  show ?thesis
  proof (cases "\<exists>c. obj = Capabilities 0 c")
    case True
    then show ?thesis using version_0 Inr version_0_encode n by blast
  next
    case False
    then have "codec_encode_frame obj False = Inr d" using codec_reencode [OF Inr] by blast
    then show ?thesis using good [OF Inr] frame_operation_made False n by blast
  qed
qed

lemma convert_options_from:
  "convert_options declared given ns = Some ns' \<Longrightarrow> ns' n = Some v \<Longrightarrow>
     ns n = Some v \<or> (\<exists>c t. map_of declared n = Some c \<and> convert c t = Some v)"
  by (induction given arbitrary: ns) (force split: option.splits if_splits)+

text \<open>The parser of MESSAGE declares no conversation sequence.\<close>

lemma encode_message_fails: "tr_end (tool_encode (lit ''MESSAGE'') given) \<in> {Exit 2, Uncaught KeyError}"
proof -
  let ?d = "[(''sequence'', AsInteger), (''created_at'', AsInteger), (''author'', AsText), (''recipient'', AsText), (''body'', AsText)]"
  have f: "find (\<lambda>(name, _). lit name = upper (lit ''MESSAGE'')) subparsers = Some (''MESSAGE'', ?d)"
    using upper_operation_name [of MESSAGE] by (simp add: tool_tables)
  have "build_model ''MESSAGE'' ns = Inl KeyError" if "parse_options ?d given = Some ns" for ns
  proof -
    have c: "convert_options ?d given Map.empty = Some ns" "ns ''sequence'' \<noteq> None"
      using that by (auto simp: parse_options_def split: option.splits if_splits)
    from convert_options_from [OF c(1), of "''conversation_sequence''"] have "ns ''conversation_sequence'' = None"
      by (cases "ns ''conversation_sequence''") auto
    moreover obtain i where "ns ''sequence'' = Some (TInt i)"
      using c(2) convert_options_from [OF c(1), of "''sequence''"] by (cases "ns ''sequence''") auto
    ultimately show ?thesis by (simp add: build_model_def int_field_def)
  qed
  then show ?thesis by (auto simp: tool_encode_def f is_ProtocolError_def split: option.split)
qed

definition get_message_hex :: "pystr \<Rightarrow> bool" where
  "get_message_hex h \<longleftrightarrow> (\<exists>p. length p \<le> 255 \<and> fromhex h = Some (header GET_MESSAGE 0 p))"

definition version_0_hex :: "pystr \<Rightarrow> bool" where
  "version_0_hex h \<longleftrightarrow> (\<exists>d c. fromhex h = Some d \<and> codec_decode_frame (PBytes d) = Inr (Capabilities 0 c))"

lemma tool_ends:
  "tr_end (tool_decode h) = tr_end (tool_validate h)
    \<and> (tr_end (tool_decode h) = Uncaught KeyError \<longleftrightarrow> get_message_hex h)
    \<and> ((\<exists>m. tr_end (tool_decode h) = Uncaught (InvalidFieldError m)) \<longleftrightarrow> version_0_hex h)
    \<and> (tr_end (tool_decode h) \<in> {Exit 0, Exit 1} \<longleftrightarrow> \<not> (get_message_hex h \<or> version_0_hex h))"
proof (cases "fromhex h")
  case (Some d)
  show ?thesis using Some by (cases rule: decoding_ends [of d])
    (auto simp: tool_decode_def tool_validate_def print_model_def is_ProtocolError_def get_message_hex_def version_0_hex_def)
qed (simp add: tool_decode_def tool_validate_def get_message_hex_def version_0_hex_def)

text \<open>C36. Tracebacks: decoding and validating hexadecimal text always end in the same way. It is an
  uncaught \<open>KeyError\<close> exactly for the well-formed frames whose operation is GET_MESSAGE, an uncaught
  \<open>InvalidFieldError\<close> exactly for the frames that decode to CAPABILITIES of protocol version 0, and an
  exit with 0 or 1 for every other text. Encoding a MESSAGE never succeeds: the parser declares no
  conversation sequence, so the run ends with a complaint of the parser, exit code 2, or with an
  uncaught \<open>KeyError\<close>.\<close>

theorem frame_tool_tracebacks:
  "tr_end (tool_main (ToolDecode h)) = tr_end (tool_main (ToolValidate h))
    \<and> (tr_end (tool_main (ToolDecode h)) = Uncaught KeyError \<longleftrightarrow> get_message_hex h)
    \<and> ((\<exists>m. tr_end (tool_main (ToolDecode h)) = Uncaught (InvalidFieldError m)) \<longleftrightarrow> version_0_hex h)
    \<and> (tr_end (tool_main (ToolDecode h)) \<in> {Exit 0, Exit 1} \<longleftrightarrow> \<not> (get_message_hex h \<or> version_0_hex h))
    \<and> tr_end (tool_main (ToolEncode (lit ''MESSAGE'') given)) \<in> {Exit 2, Uncaught KeyError}"
  unfolding tool_main.simps using tool_ends [of h] encode_message_fails [of given] by blast

end
