(* ===== verification/Client_Cli.thy ===== *)
theory Client_Cli
  imports Py_Shell Tcp_Client Aprs_Diagnostics
begin

text \<open>
  The terminal interface of the reference client (\<open>client/cli.py\<close>): the commands of a session, and
  the program that connects, authenticates and runs them. What happens around a command is its
  environment: the clock, what the socket delivers while the program waits for input and while it
  waits for an answer, and how times and other objects are shown (the local time zone and the
  \<open>repr\<close> of the dataclasses). An interrupt from the keyboard is not modelled.
\<close>

record cli_env =
  ce_now :: int
  ce_idle :: "bytes list"
  ce_os_error :: "pystr option"
  ce_pieces :: "bytes list"
  ce_time :: "int \<Rightarrow> pystr"
  ce_str :: "protocol_object \<Rightarrow> pystr"

section \<open>Texts\<close>

definition command_lines :: "string list" where
  "command_lines =
     [''Commands:'',
      ''  help                         show this help'',
      ''  status                       show connection and identity'',
      ''  services                     show operations in protocol version 0.1'',
      ''  messages                     retrieve all private messages from cursor 0'',
      ''  new                          retrieve private messages after the last cursor'',
      ''  send <CALLSIGN> <text>       send a title-less private message'',
      ''  bulletins                    retrieve new bulletin headers'',
      ''  read <sequence>              retrieve a complete bulletin'',
      ''  quit                         disconnect and exit'']"

definition COMMAND_HELP :: pystr where
  "COMMAND_HELP = join_texts [10] (map lit command_lines)"

definition bracketed :: "int \<Rightarrow> pystr" where
  "bracketed n = lit ''['' @ dec n @ lit ''] ''"

definition format_object :: "cli_env \<Rightarrow> protocol_object \<Rightarrow> pystr" where
  "format_object env obj =
     (case obj of
        Message sequence _ created_at author recipient body \<Rightarrow>
          bracketed sequence @ ce_time env created_at @ lit '' '' @ author @ lit '' -> '' @ recipient @ lit '': '' @ body
      | BulletinHeader sequence created_at author title \<Rightarrow>
          bracketed sequence @ ce_time env created_at @ lit '' '' @ author @ lit '': '' @ title
      | Bulletin sequence created_at author title body \<Rightarrow>
          bracketed sequence @ title @ [10] @ lit ''From: '' @ author @ lit '' ('' @ ce_time env created_at @ lit '')'' @ [10] @ body
      | _ \<Rightarrow> ce_str env obj)"

definition show_page :: "cli_env \<Rightarrow> string \<Rightarrow> protocol_object list \<Rightarrow> pystr" where
  "show_page env nothing items =
     (let text = join_texts [10] (map (format_object env) items) in if text = [] then lit nothing else text)"

definition all_capabilities :: "capability list" where
  "all_capabilities = [PRIVATE_MESSAGING, BULLETIN_LISTING, BULLETIN_RETRIEVAL, PROACTIVE_PRIVATE_MESSAGES, APRS_COMMIT_ACK]"

fun capability_name :: "capability \<Rightarrow> pystr" where
  "capability_name PRIVATE_MESSAGING = lit ''PRIVATE_MESSAGING''"
| "capability_name BULLETIN_LISTING = lit ''BULLETIN_LISTING''"
| "capability_name BULLETIN_RETRIEVAL = lit ''BULLETIN_RETRIEVAL''"
| "capability_name PROACTIVE_PRIVATE_MESSAGES = lit ''PROACTIVE_PRIVATE_MESSAGES''"
| "capability_name APRS_COMMIT_ACK = lit ''APRS_COMMIT_ACK''"

definition services_text :: "protocol_object \<Rightarrow> pystr" where
  "services_text discovered =
     (let names = map capability_name (filter (\<lambda>c. cap_bits discovered AND cap_bit c \<noteq> 0) all_capabilities)
      in lit ''Protocol: '' @ dec (cap_version discovered) @ [10] @ lit ''Capabilities: ''
         @ (if names = [] then lit ''none'' else join_texts (lit '', '') names))"

definition status_text :: "client \<Rightarrow> pystr" where
  "status_text cl =
     lit ''Connected: '' @ (if cl_socket cl then lit ''yes'' else lit ''no'') @ [10]
     @ lit ''Authenticated: '' @ (case cl_callsign cl of None \<Rightarrow> lit ''no'' | Some c \<Rightarrow> if c = [] then lit ''no'' else c) @ [10]
     @ lit ''Server: '' @ cl_host cl @ lit '':'' @ dec (cl_port cl)"

text \<open>\<open>str(error)\<close> for the client's errors.\<close>

fun client_error_str :: "client_error \<Rightarrow> pystr" where
  "client_error_str (ClientError m) = m"
| "client_error_str (AuthenticationError m) = m"
| "client_error_str (ConnectionClosedError m) = m"
| "client_error_str (ProtocolResponseError obj) =
     (case obj of Error _ code detail \<Rightarrow> error_code_name code @ lit '': '' @ detail | _ \<Rightarrow> [])"
| "client_error_str (OtherError e) = exn_str e"

fun is_ClientError :: "client_error \<Rightarrow> bool" where
  "is_ClientError (OtherError _) = False"
| "is_ClientError _ = True"

section \<open>Commands\<close>

record cli_session =
  message_cursor :: int
  bulletin_cursor :: int

definition new_cli_session :: cli_session where
  "new_cli_session = \<lparr>message_cursor = 0, bulletin_cursor = 0\<rparr>"

definition command_words :: "string list" where
  "command_words = [''help'', ''quit'', ''status'', ''services'', ''messages'', ''new'', ''send'', ''bulletins'', ''read'']"

definition usage_line :: "pystr \<Rightarrow> pystr option" where
  "usage_line command =
     map_option strip (find (\<lambda>line. take (length command) (strip line) = command) (splitlines COMMAND_HELP))"

type_synonym cli_reply = "(bool \<times> pystr) client_result"

definition reply :: "pystr \<Rightarrow> cli_reply" where
  "reply text = Inr (True, text)"

text \<open>What a command makes of an answer of the client; an error passes through.\<close>

definition answered :: "'a client_result \<Rightarrow> ('a \<Rightarrow> pystr) \<Rightarrow> cli_reply" where
  "answered r f = (case r of Inl e \<Rightarrow> Inl e | Inr x \<Rightarrow> reply (f x))"

definition end_cursor :: "(protocol_object list \<times> protocol_object) client_result \<Rightarrow> int \<Rightarrow> int" where
  "end_cursor r old = (case r of Inl _ \<Rightarrow> old | Inr (_, e) \<Rightarrow> end_next_since e)"

definition execute :: "cli_env \<Rightarrow> pystr \<Rightarrow> cli_session \<Rightarrow> client \<Rightarrow> cli_reply \<times> cli_session \<times> client" where
  "execute env line s cl =
     (case shlex_split line of
        Inl error \<Rightarrow> (reply (lit ''Error: '' @ error), s, cl)
      | Inr [] \<Rightarrow> (reply [], s, cl)
      | Inr (word # args) \<Rightarrow>
          let command = lower word; os = ce_os_error env; pieces = ce_pieces env in
          if command = lit ''help'' \<and> args = [] then (reply COMMAND_HELP, s, cl)
          else if command = lit ''quit'' \<and> args = [] then (Inr (False, []), s, cl)
          else if command = lit ''status'' \<and> args = [] then (reply (status_text cl), s, cl)
          else if command = lit ''services'' \<and> args = [] then
            (case client_get_capabilities os pieces cl of (r, cl) \<Rightarrow> (answered r services_text, s, cl))
          else if (command = lit ''messages'' \<or> command = lit ''new'') \<and> args = [] then
            (case client_get_messages (if command = lit ''messages'' then 0 else message_cursor s) MAX_RETRIEVAL_MAX os pieces cl of
               (r, cl) \<Rightarrow> (answered r (\<lambda>(messages, _). show_page env ''No messages.'' messages),
                  s\<lparr>message_cursor := end_cursor r (message_cursor s)\<rparr>, cl))
          else if command = lit ''send'' \<and> 2 \<le> length args then
            (case client_send_message (ce_now env) (upper (hd args)) (join_texts [32] (tl args)) os pieces cl of
               (r, cl) \<Rightarrow> (answered r (\<lambda>_. lit ''Message stored.''), s, cl))
          else if command = lit ''bulletins'' \<and> args = [] then
            (case client_get_bulletins (bulletin_cursor s) MAX_RETRIEVAL_MAX os pieces cl of
               (r, cl) \<Rightarrow> (answered r (\<lambda>(headers, _). show_page env ''No new bulletins.'' headers),
                  s\<lparr>bulletin_cursor := end_cursor r (bulletin_cursor s)\<rparr>, cl))
          else if command = lit ''read'' \<and> length args = 1 then
            (case py_int0 (hd args) of
               None \<Rightarrow> (reply (lit ''Usage: read <sequence>''), s, cl)
             | Some sequence \<Rightarrow>
                 (case client_get_bulletin sequence os pieces cl of (r, cl) \<Rightarrow> (answered r (format_object env), s, cl)))
          else if command \<in> lit ` set command_words then
            (case usage_line command of
               None \<Rightarrow> (Inl (OtherError (ValueError [])), s, cl)
             | Some usage \<Rightarrow> (reply (lit ''Usage: '' @ usage), s, cl))
          else (reply (lit ''Unknown command: '' @ word @ lit ''. Type 'help' for commands.''), s, cl))"

section \<open>The program\<close>

text \<open>What the reader's thread takes in while the program waits for a line of input.\<close>

definition client_idle :: "bytes list \<Rightarrow> client \<Rightarrow> client" where
  "client_idle pieces cl = fold (\<lambda>piece cl. client_pump (client_arrive piece cl)) pieces cl"

definition event_text :: "cli_env \<Rightarrow> protocol_object \<Rightarrow> pystr" where
  "event_text env obj =
     [10] @ lit ''['' @ (case obj of Message _ _ _ _ _ _ \<Rightarrow> lit ''NEW MESSAGE'' | _ \<Rightarrow> lit ''SERVER EVENT'') @ lit '']'' @ [10]
     @ format_object env obj @ [10, 10] @ lit ''openqsp> ''"

text \<open>
  The loop over the lines of the terminal, until \<open>quit\<close>, the end of input or a lost connection:
  what it prints, the error that ends it with a traceback, and the client. Of the events the texts
  are printed when the reader meets them.
\<close>

fun cli_loop :: "(cli_env \<times> pystr) list \<Rightarrow> cli_session \<Rightarrow> client \<Rightarrow> pystr list \<times> client_error option \<times> client" where
  "cli_loop [] s cl = ([], None, cl)"
| "cli_loop ((env, line) # lines) s cl =
     (let waiting = client_idle (ce_idle env) cl;
          (r, s, cl') = execute env line s waiting;
          events = map (event_text env) (drop (length (cl_handled cl)) (cl_handled cl')) in
      case r of
        Inr (running, output) \<Rightarrow>
          (let printed = events @ (if output = [] then [] else [output]) in
           if running then (case cli_loop lines s cl' of (out, e, cl) \<Rightarrow> (printed @ out, e, cl))
           else (printed, None, cl'))
      | Inl e \<Rightarrow>
          if \<not> is_ClientError e then (events, Some e, cl')
          else (let printed = events @ [lit ''Error: '' @ client_error_str e] in
            if \<not> cl_socket cl' then (printed, None, cl')
            else (case cli_loop lines s cl' of (out, e, cl) \<Rightarrow> (printed @ out, e, cl))))"

datatype cli_end = CliExit int | CliTraceback client_error

text \<open>An error before the loop is printed and gives 1, or is raised again with \<open>--debug\<close>.\<close>

definition cli_failed :: "bool \<Rightarrow> pystr list \<Rightarrow> client_error \<Rightarrow> client \<Rightarrow> pystr list \<times> cli_end \<times> client" where
  "cli_failed debug printed e cl =
     (if \<not> is_ClientError e then (printed, CliTraceback e, client_close cl)
      else (printed @ [lit ''Error: '' @ client_error_str e], if debug then CliTraceback e else CliExit 1, client_close cl))"

definition cli_main ::
  "bool \<Rightarrow> pystr \<Rightarrow> pystr \<Rightarrow> pystr option \<Rightarrow> pystr + bytes \<Rightarrow> (cli_env \<times> pystr) list \<Rightarrow> client
    \<Rightarrow> pystr list \<times> cli_end \<times> client" where
  "cli_main debug callsign_text password connect_error answer lines cl =
     (let callsign = upper (strip callsign_text);
          intro = [lit ''OpenQSP TCP Client'' @ [10, 10] @ lit ''Server: '' @ cl_host cl @ lit '':'' @ dec (cl_port cl),
                   lit ''Authentication: callsign + password.''] in
      case client_connect connect_error cl of
        (Inl e, cl) \<Rightarrow> cli_failed debug intro e cl
      | (Inr _, cl) \<Rightarrow>
          (case client_authenticate callsign (Some password) answer cl of
             (Inl e, cl) \<Rightarrow> cli_failed debug intro e cl
           | (Inr _, cl) \<Rightarrow>
               (let greeting = [10] @ lit ''Connected.'' @ [10] @ lit ''Identified as '' @ callsign @ lit ''.'' in
                case cli_loop lines new_cli_session cl of
                  (out, Some e, cl) \<Rightarrow> cli_failed debug (intro @ [greeting] @ out) e cl
                | (out, None, cl) \<Rightarrow> (intro @ [greeting] @ out, CliExit 0, client_close cl))))"

end
