(* ===== verification/Cli_Properties.thy ===== *)
theory Cli_Properties
  imports Client_Cli Tcp_Properties
begin

text \<open>
  What the terminal client promises: \<open>new\<close> shows exactly the next page of the user's mailbox, as
  the node has it; and which commands end the program with a traceback.
\<close>

section \<open>Lines and usage\<close>






section \<open>Errors\<close>










lemma client_calls:
  "client_get_messages since mx os ps cl = (listed (\<lambda>x. case x of Message _ _ _ _ _ _ \<Rightarrow> True | _ \<Rightarrow> False) (lit ''GET_NEW_MESSAGES'')
     (fst (client_request (GetNewMessages since mx) os ps cl)), snd (client_request (GetNewMessages since mx) os ps cl))"
  "client_get_bulletins since mx os ps cl = (listed (\<lambda>x. case x of BulletinHeader _ _ _ _ \<Rightarrow> True | _ \<Rightarrow> False) (lit ''GET_NEW_BULLETINS'')
     (fst (client_request (GetNewBulletins since mx) os ps cl)), snd (client_request (GetNewBulletins since mx) os ps cl))"
  "client_send_message t r b os ps cl = (single (\<lambda>x. x = Stored) (lit ''SEND_MESSAGE'')
     (fst (client_request (SendMessage t r b) os ps cl)), snd (client_request (SendMessage t r b) os ps cl))"
  "client_get_bulletin n os ps cl = (single (\<lambda>x. case x of Bulletin _ _ _ _ _ \<Rightarrow> True | _ \<Rightarrow> False) (lit ''GET_BULLETIN'')
     (fst (client_request (GetBulletin n) os ps cl)), snd (client_request (GetBulletin n) os ps cl))"
  "client_get_capabilities os ps cl = (single (\<lambda>x. case x of Capabilities _ _ \<Rightarrow> True | _ \<Rightarrow> False) (lit ''GET_CAPABILITIES'')
     (fst (client_request GetCapabilities os ps cl)), snd (client_request GetCapabilities os ps cl))"
  by (simp_all add: client_get_messages_def client_get_bulletins_def client_send_message_def client_get_bulletin_def
      client_get_capabilities_def split: prod.split)





definition sample_cli_env :: cli_env where
  "sample_cli_env = \<lparr>ce_now = 7, ce_idle = [], ce_os_error = None, ce_pieces = [], ce_time = dec, ce_str = class_name\<rparr>"


section \<open>Pages\<close>

lemma end_found: "list_all (\<lambda>x. \<not> error_response x) xs \<Longrightarrow> find error_response (xs @ [End q n c m]) = None"
  by (induction xs) (simp_all add: error_response_def)

text \<open>What \<open>new\<close> does with the core as it is when the request is handled: it prints the page after the
  cursor and moves the cursor to the page's last number, or reports the node's error.\<close>

definition shows_page :: "cli_env \<Rightarrow> cli_session \<Rightarrow> pystr \<Rightarrow> server \<Rightarrow> cli_reply \<times> cli_session \<Rightarrow> bool" where
  "shows_page env s who core out \<longleftrightarrow>
     (if sv_message_store core \<and> message_cursor s \<le> mailbox_last (sv_db core) who
      then (case page_of st_sequence (mailbox_log who (sv_db core)) (message_cursor s) 20 of (items, nxt, mr) \<Rightarrow>
          out = (reply (show_page env ''No messages.'' (map (wire_message (sv_db core)) items)), s\<lparr>message_cursor := nxt\<rparr>))
      else (\<exists>detail. out = (Inl (ProtocolResponseError (Error (Op GET_NEW_MESSAGES)
          (if sv_message_store core then INVALID_CURSOR else BUSY) detail)), s)))"

lemma new_dispatched:
  assumes "ready core t" "callsign_ok who" "valid_cursor (message_cursor s)"
    "dispatch who (GetNewMessages (message_cursor s) 20) (PInt t) core = (Inr rs, ev, core')"
    "ce_os_error env = None"
    "fst (client_request (GetNewMessages (message_cursor s) 20) None (ce_pieces env) cl)
      = (case find error_response rs of Some error \<Rightarrow> Inl (ProtocolResponseError error) | None \<Rightarrow> Inr rs)"
  shows "shows_page env s who core (fst (execute env (lit ''new'') s cl), fst (snd (execute env (lit ''new'') s cl)))"
proof -
  let ?db = "sv_db core"
  obtain items nxt mr where p: "page_of st_sequence (mailbox_log who ?db) (message_cursor s) 20 = (items, nxt, mr)"
    by (metis prod_cases3)
  let ?page = "map (wire_message ?db) items @ [End GET_NEW_MESSAGES (int (length items)) nxt mr]"
  have rs: "handle_get_new_messages who (message_cursor s) 20 core = Inr rs"
    using assms(4) by (auto simp: dispatch_def reading_def)
  have w: "shlex_split (lit ''new'') = Inr [lit ''new'']" "lower (lit ''new'') = lit ''new''"
    by (simp_all add: shlex_split_def lit_def shlex_space_def is_quote_def lower_def lower_letter_def)
  have run: "execute env (lit ''new'') s cl = (let r = listed (\<lambda>x. case x of Message _ _ _ _ _ _ \<Rightarrow> True | _ \<Rightarrow> False) (lit ''GET_NEW_MESSAGES'')
        (case find error_response rs of Some error \<Rightarrow> Inl (ProtocolResponseError error) | None \<Rightarrow> Inr rs)
      in (answered r (\<lambda>(messages, _). show_page env ''No messages.'' messages), s\<lparr>message_cursor := end_cursor r (message_cursor s)\<rparr>,
         snd (client_request (GetNewMessages (message_cursor s) 20) None (ce_pieces env) cl)))"
    using assms(5,6) by (simp add: execute_def w lit_inject Let_def client_calls)
  show ?thesis
  proof (cases "sv_message_store core")
    case False
    then have "rs = [Error (Op GET_NEW_MESSAGES) BUSY (lit ''message store unavailable'')]"
      using rs by (simp add: handle_get_new_messages_def)
    then show ?thesis using False
      by (simp add: run shows_page_def listed_def answered_def end_cursor_def error_response_def Let_def)
  next
    case store: True
    have h: "rs = (if message_cursor s \<le> mailbox_last ?db who then ?page
        else [Error (Op GET_NEW_MESSAGES) INVALID_CURSOR (lit ''invalid message cursor'')])"
      using get_new_messages_handled [OF _ store assms(2,3), of 20] assms(1) rs p by (simp add: ready_def split: if_splits)
    show ?thesis
    proof (cases "message_cursor s \<le> mailbox_last ?db who")
      case True
      have "find error_response ?page = None" by (rule end_found) (simp add: list_all_iff error_response_def wire_message_def)
      moreover have "list_all (\<lambda>x. case x of Message _ _ _ _ _ _ \<Rightarrow> True | _ \<Rightarrow> False) (map (wire_message ?db) items)"
        by (simp add: list_all_iff wire_message_def)
      ultimately show ?thesis using True store h p
        by (simp add: run shows_page_def listed_def answered_def end_cursor_def Let_def)
    next
      case False
      then show ?thesis using store h
        by (simp add: run shows_page_def listed_def answered_def end_cursor_def error_response_def Let_def)
    qed
  qed
qed

text \<open>C37. \<open>new\<close> shows the mailbox: over an authenticated connection, for a cursor that the protocol
  can carry, in whatever pieces the request and the answer travel, and whatever other clients and
  transports store and push meanwhile, the command \<open>new\<close> prints exactly the next twenty messages after
  its cursor in the user's mailbox as it is when the node handles the request, in order, and
  moves the cursor to the last of them; if the cursor is beyond the last number of that mailbox, or
  the node has no message store, it reports the node's error and keeps the cursor.\<close>

theorem cli_new_page:
  assumes "serves node c who" "callsign_ok who" "run_ok tenv c run node" "valid_cursor (message_cursor s)"
    "authenticated cl" "cl_reader cl" "cl_failure cl = None" "cl_received cl = []"
    "encode_frame (GetNewMessages (message_cursor s) 20) False = Inr d" "run_bytes run = d"
  shows "\<exists>core t fs new. handled_at tenv c who d run node core t fs
    \<and> tcp_output (run_to tenv c run node) c = tcp_output node c @ new
    \<and> (\<forall>env. ce_os_error env = None \<longrightarrow> concat (ce_pieces env) = new
        \<longrightarrow> shows_page env s who core (fst (execute env (lit ''new'') s cl), fst (snd (execute env (lit ''new'') s cl))))"
proof -
  let ?q = "GetNewMessages (message_cursor s) 20"
  have op: "client_operation ?q = Some GET_NEW_MESSAGES" by (simp add: client_operation_def)
  from remote_call_run [OF assms(1,3,5-8) op assms(9,10)] obtain core t rs fs ev sv' new where
    h: "handled_at tenv c who d run node core t fs" "dispatch who ?q (PInt t) core = (Inr rs, ev, sv')"
    "tcp_output (run_to tenv c run node) c = tcp_output node c @ new"
    "\<forall>down. concat down = new \<longrightarrow> fst (client_request ?q None down cl)
        = (case find error_response rs of Some error \<Rightarrow> Inl (ProtocolResponseError error) | None \<Rightarrow> Inr rs)" by blast
  have "ready core t" using h(1) by (auto simp: handled_at_def)
  from new_dispatched [OF this assms(2,4) h(2)] h show ?thesis by blast
qed

text \<open>The run of the TCP sample: a message is pushed between the halves of the request.\<close>

theorem cli_new_page_witness:
  "\<exists>d f more. encode_frame (GetNewMessages 0 20) False = Inr d \<and> encode_frame sample_pushed True = Inr f
    \<and> tcp_output (run_to sample_env 7 (sample_run d) sample_serving) 7 = tcp_output sample_serving 7 @ f @ more
    \<and> fst (execute (sample_cli_env\<lparr>ce_pieces := [f, more]\<rparr>) (lit ''new'') new_cli_session sample_client) = reply (lit ''No messages.'')"
proof -
  obtain d where d: "encode_frame (GetNewMessages (message_cursor new_cli_session) 20) False = Inr d"
    using encode_frame_ok [of "GetNewMessages 0 20" False] by (auto simp: is_ok_iff new_cli_session_def)
  note run = sample_run [OF encoded_whole [OF d]]
  obtain f more where f: "encode_frame sample_pushed True = Inr f"
    "tcp_output (run_to sample_env 7 (sample_run d) sample_serving) 7 = tcp_output sample_serving 7 @ f @ more"
    using run(3) by blast
  let ?env = "sample_cli_env\<lparr>ce_pieces := [f, more]\<rparr>"
  have c: "callsign_ok (lit ''A1A'')" "valid_cursor (message_cursor new_cli_session)"
    by (simp_all add: callsign_ok_def is_digit_def is_upper_def lit_def new_cli_session_def)
  from cli_new_page [OF sample_serving(1) c(1) run(1) c(2) sample_client d run(2)] obtain core t fs new where
    h: "handled_at sample_env 7 (lit ''A1A'') d (sample_run d) sample_serving core t fs"
      "tcp_output (run_to sample_env 7 (sample_run d) sample_serving) 7 = tcp_output sample_serving 7 @ new"
    and out: "\<forall>env. ce_os_error env = None \<longrightarrow> concat (ce_pieces env) = new \<longrightarrow> shows_page env new_cli_session (lit ''A1A'') core
      (fst (execute env (lit ''new'') new_cli_session sample_client), fst (snd (execute env (lit ''new'') new_cli_session sample_client)))"
    by blast
  have core: "core = sample_server empty_database" using run(4) [OF h(1)] by simp
  have "concat (ce_pieces ?env) = new" "ce_os_error ?env = None" using h(2) f(2) by (simp_all add: sample_cli_env_def)
  with out have "shows_page ?env new_cli_session (lit ''A1A'') core
      (fst (execute ?env (lit ''new'') new_cli_session sample_client), fst (snd (execute ?env (lit ''new'') new_cli_session sample_client)))"
    by blast
  then have "fst (execute ?env (lit ''new'') new_cli_session sample_client) = reply (lit ''No messages.'')"
    by (simp add: core shows_page_def sample_server_def new_cli_session_def mailbox_last_def mailbox_log_def mailbox_def
        empty_database_def page_of_def next_cursor_def show_page_def)
  then show ?thesis using d f by (auto simp: new_cli_session_def)
qed

end
