(* ===== verification/Client_Sim.thy ===== *)
theory Client_Sim
  imports Frame_Tool Core
begin

text \<open>
  The user emulator (\<open>tools/client_sim.py\<close>): the same requests against a core in the same process and
  over the development handshake of the TCP server. The transport over TCP opens a connection for
  every exchange; what the network does to it is an argument: whether it opens, what the node sends
  until it closes the connection or the socket fails, and whether sending fails. The values of a
  command are those \<open>argparse\<close> has converted.
\<close>

section \<open>Exchanges over TCP\<close>

datatype sim_error = ConnectionFailed pystr | DevelopmentHandshakeError pystr | TruncatedResponseError pystr
  | TransportError pystr | Plain exn

type_synonym 'a sim = "sim_error + 'a"

record exchange_env =
  xe_connect :: "pystr option"
  xe_send :: "pystr option"
  xe_data :: bytes
  xe_failure :: "pystr option"
  xe_unicode :: "pystr \<Rightarrow> pystr"

definition exchange_failed :: "pystr \<Rightarrow> sim_error" where
  "exchange_failed error = ConnectionFailed (lit ''TCP exchange failed: '' @ error)"

definition TERMINATORS :: "operation \<Rightarrow> operation set option" where
  "TERMINATORS = [SEND_MESSAGE \<mapsto> {STORED, ERROR}, GET_NEW_MESSAGES \<mapsto> {END_OP, ERROR},
     GET_NEW_BULLETINS \<mapsto> {END_OP, ERROR}, GET_BULLETIN \<mapsto> {BULLETIN, ERROR}]"

text \<open>\<open>_receive_line\<close> and \<open>_receive_exact\<close>: what they take from the bytes the node sends.\<close>

definition receive_line :: "nat \<Rightarrow> pystr option \<Rightarrow> bytes \<Rightarrow> (bytes \<times> bytes) sim" where
  "receive_line maximum failure data =
     (let line = takeWhile (\<lambda>b. b \<noteq> 10) data; n = length line in
      if n < length data \<and> n < maximum then Inr (take (n + 1) data, drop (n + 1) data)
      else if maximum \<le> length data then Inl (DevelopmentHandshakeError (lit ''development handshake response is too long''))
      else Inl (case failure of Some error \<Rightarrow> exchange_failed error
             | None \<Rightarrow> ConnectionFailed (lit ''server closed during development handshake'')))"

definition receive_exact :: "nat \<Rightarrow> bool \<Rightarrow> pystr option \<Rightarrow> bytes \<Rightarrow> (bytes \<times> bytes) sim" where
  "receive_exact count is_header failure data =
     (if count \<le> length data then Inr (take count data, drop count data)
      else Inl (case failure of Some error \<Rightarrow> exchange_failed error
             | None \<Rightarrow> if data \<noteq> [] \<or> \<not> is_header then TruncatedResponseError (lit ''server closed during response frame'')
                 else ConnectionFailed (lit ''server closed before sending a response'')))"

definition receive_frame :: "pystr option \<Rightarrow> bytes \<Rightarrow> (bytes \<times> bytes) sim" where
  "receive_frame failure data =
     bindE (receive_exact HEADER_SIZE True failure data) (\<lambda>(head, data).
     let frame_size = HEADER_SIZE + unat (head ! 3) in
     if frame_size > MAX_FRAME_SIZE
     then Inl (TransportError (lit ''response frame exceeds '' @ dec (int MAX_FRAME_SIZE) @ lit '' bytes''))
     else bindE (receive_exact (frame_size - HEADER_SIZE) False failure data) (\<lambda>(body, data). Inr (head @ body, data)))"

lemma receive_frame_shorter: "receive_frame failure data = Inr (frame, r) \<Longrightarrow> length r < length data"
  by (auto simp: receive_frame_def receive_exact_def bindE_eq_Inr Let_def split: if_splits)

function receive_frames :: "operation set \<Rightarrow> pystr option \<Rightarrow> bytes \<Rightarrow> bytes list sim" where
  "receive_frames terminators failure data =
     (case receive_frame failure data of
        Inl e \<Rightarrow> Inl e
      | Inr (frame, data) \<Rightarrow>
          (case Operation (uint (frame ! 1)) of
             None \<Rightarrow> Inr [frame]
           | Some q \<Rightarrow>
               if q \<in> terminators then Inr [frame]
               else bindE (receive_frames terminators failure data) (\<lambda>frames. Inr (frame # frames))))"
  by auto

termination by (relation "measure (\<lambda>(_, _, data). length data)") (auto dest: receive_frame_shorter)

declare receive_frames.simps [simp del]

definition tcp_exchange :: "pystr \<Rightarrow> int \<Rightarrow> exchange_env \<Rightarrow> pystr \<Rightarrow> bytes \<Rightarrow> bytes list sim" where
  "tcp_exchange host port_number env callsign request_frame =
     (let unsupported = Inl (Plain (ValueError (lit ''request is not a supported client operation''))) in
      if length request_frame < 2 then unsupported
      else (case Option.bind (Operation (uint (request_frame ! 1))) TERMINATORS of
          None \<Rightarrow> unsupported
        | Some terminators \<Rightarrow>
            (case xe_connect env of
               Some error \<Rightarrow> Inl (ConnectionFailed (lit ''could not connect to '' @ host @ lit '':'' @ dec port_number @ lit '': '' @ error))
             | None \<Rightarrow>
                 if \<not> ascii callsign then Inl (exchange_failed (xe_unicode env callsign))
                 else (case xe_send env of
                     Some error \<Rightarrow> Inl (exchange_failed error)
                   | None \<Rightarrow>
                       bindE (receive_line 32 (xe_failure env) (xe_data env)) (\<lambda>(handshake, data).
                       if handshake \<noteq> map byte_of (lit ''OK'') @ [10]
                       then Inl (DevelopmentHandshakeError (lit ''development callsign handshake returned ''
                              @ lit ''b'' @ repr_text (\<lambda>_. False) (map of_byte handshake)))
                       else receive_frames terminators (xe_failure env) data)))))"

section \<open>Clients\<close>

datatype sim_mode = Local | Remote pystr int exchange_env

definition lift_exn :: "'a result \<Rightarrow> 'a sim" where
  "lift_exn r = (case r of Inl e \<Rightarrow> Inl (Plain e) | Inr x \<Rightarrow> Inr x)"

definition decode_responses :: "bytes list \<Rightarrow> protocol_object list result" where
  "decode_responses frames = mapE (\<lambda>frame. decode_frame (PBytes frame)) frames"

text \<open>\<open>LocalCoreTransport.exchange\<close> and \<open>TcpTransport.exchange\<close>.\<close>

definition exchange :: "sim_mode \<Rightarrow> pyval \<Rightarrow> pystr \<Rightarrow> bytes \<Rightarrow> server \<Rightarrow> bytes list sim \<times> server" where
  "exchange mode clock callsign frame sv =
     (case mode of
        Local \<Rightarrow> (case handle_frame (PStr callsign) (PBytes frame) clock sv of (r, _, sv) \<Rightarrow> (lift_exn r, sv))
      | Remote host port_number env \<Rightarrow> (tcp_exchange host port_number env callsign frame, sv))"

definition sim_request ::
  "sim_mode \<Rightarrow> pyval \<Rightarrow> pystr \<Rightarrow> protocol_object \<Rightarrow> server \<Rightarrow> protocol_object list sim \<times> server" where
  "sim_request mode clock callsign request sv =
     (case encode_frame request False of
        Inl e \<Rightarrow> (Inl (Plain e), sv)
      | Inr frame \<Rightarrow>
          (case exchange mode clock callsign frame sv of
             (Inl e, sv) \<Rightarrow> (Inl e, sv)
           | (Inr frames, sv) \<Rightarrow> (lift_exn (decode_responses frames), sv)))"

definition completed_cursor :: "protocol_object list \<Rightarrow> operation \<Rightarrow> int option" where
  "completed_cursor responses request_operation =
     (if responses = [] then None
      else (case last responses of
          End q _ next_since _ \<Rightarrow> if q = request_operation then Some next_since else None
        | _ \<Rightarrow> None))"

section \<open>The program\<close>

datatype sim_command =
    Send_message pystr int pystr
  | Get_new_messages int int
  | Get_new_bulletins int int
  | Get_bulletin int
  | Seed_bulletin int pystr pystr

fun command_request :: "sim_command \<Rightarrow> protocol_object sim" where
  "command_request (Send_message recipient timestamp body) = Inr (SendMessage timestamp recipient body)"
| "command_request (Get_new_messages since maximum) = Inr (GetNewMessages since maximum)"
| "command_request (Get_new_bulletins since maximum) = Inr (GetNewBulletins since maximum)"
| "command_request (Get_bulletin sequence) = Inr (GetBulletin sequence)"
| "command_request (Seed_bulletin _ _ _) = Inl (Plain (ValueError (lit ''not a client operation: seed-bulletin'')))"

definition entry :: "string \<Rightarrow> pystr \<Rightarrow> pystr" where
  "entry name v = lit ''  '' @ lit name @ lit '': '' @ v"

text \<open>\<open>_print_response\<close>: its lines, or the \<open>TypeError\<close>.\<close>

definition response_lines :: "protocol_object \<Rightarrow> pystr list result" where
  "response_lines response =
     (case response of
        Stored \<Rightarrow> Inr [lit ''STORED'', []]
      | Message sequence _ created_at author recipient body \<Rightarrow>
          Inr [lit ''MESSAGE'', entry ''sequence'' (dec sequence), entry ''created_at'' (dec created_at), entry ''author'' author,
            entry ''recipient'' recipient, entry ''body'' body, []]
      | BulletinHeader sequence created_at author title \<Rightarrow>
          Inr [lit ''BULLETIN_HEADER'', entry ''sequence'' (dec sequence), entry ''created_at'' (dec created_at), entry ''author'' author,
            entry ''title'' title, []]
      | Bulletin sequence created_at author title body \<Rightarrow>
          Inr [lit ''BULLETIN'', entry ''sequence'' (dec sequence), entry ''created_at'' (dec created_at), entry ''author'' author,
            entry ''title'' title, entry ''body'' body, []]
      | End _ returned_count next_since has_more \<Rightarrow>
          Inr [lit ''END'', entry ''returned'' (dec returned_count), entry ''next_since'' (dec next_since),
            entry ''has_more'' (if has_more then lit ''true'' else lit ''false''), []]
      | Error request_operation code detail \<Rightarrow>
          Inr [lit ''ERROR'', entry ''operation'' (case request_operation of Op q \<Rightarrow> operation_name q | Raw _ \<Rightarrow> lit ''0''),
            entry ''code'' (error_code_name code), entry ''detail'' detail, []]
      | _ \<Rightarrow> Inl (TypeError []))"

fun print_responses :: "protocol_object list \<Rightarrow> pystr list \<times> tool_end" where
  "print_responses [] = ([], Exit 0)"
| "print_responses (response # responses) =
     (case response_lines response of
        Inl e \<Rightarrow> ([], Uncaught e)
      | Inr lines \<Rightarrow> (case print_responses responses of (out, e) \<Rightarrow> (lines @ out, e)))"

text \<open>The classes \<open>main\<close> catches, by their names, with \<open>str(exc)\<close>.\<close>

fun sim_caught :: "sim_error \<Rightarrow> bool" where
  "sim_caught (Plain e) = (is_ProtocolError e \<or> is_ValueError e \<or> (case e of TypeError _ \<Rightarrow> True | _ \<Rightarrow> False))"
| "sim_caught _ = True"

fun sim_described :: "sim_error \<Rightarrow> pystr" where
  "sim_described (ConnectionFailed m) = lit ''ConnectionFailed: '' @ m"
| "sim_described (DevelopmentHandshakeError m) = lit ''DevelopmentHandshakeError: '' @ m"
| "sim_described (TruncatedResponseError m) = lit ''TruncatedResponseError: '' @ m"
| "sim_described (TransportError m) = lit ''TransportError: '' @ m"
| "sim_described (Plain e) = described e"

definition sim_failed :: "pystr list \<Rightarrow> sim_error \<Rightarrow> tool_run" where
  "sim_failed notices e =
     (if sim_caught e then \<lparr>tr_out = [], tr_err = notices @ [lit ''ERROR: '' @ sim_described e], tr_end = Exit 1\<rparr>
      else \<lparr>tr_out = [], tr_err = notices, tr_end = Uncaught (case e of Plain x \<Rightarrow> x | _ \<Rightarrow> ValueError [])\<rparr>)"

definition seed_bulletin :: "pyval \<Rightarrow> pystr \<Rightarrow> int \<Rightarrow> pystr \<Rightarrow> pystr \<Rightarrow> server \<Rightarrow> int result \<times> server" where
  "seed_bulletin clock callsign timestamp title body sv =
     (case encode_frame (Bulletin 1 timestamp callsign title body) False of
        Inl e \<Rightarrow> (Inl e, sv)
      | Inr _ \<Rightarrow>
          (case store_bulletin (PInt timestamp) (PStr callsign) (PStr title) (PStr body) clock (sv_db sv) of
             (r, db) \<Rightarrow> (r, sv\<lparr>sv_db := db\<rparr>)))"

text \<open>\<open>main\<close> on a database that has been initialised, here as a core without listeners.\<close>

definition sim_main :: "sim_command \<Rightarrow> sim_mode \<Rightarrow> pyval \<Rightarrow> pystr \<Rightarrow> server \<Rightarrow> tool_run \<times> server" where
  "sim_main command mode clock callsign sv =
     (case command of
        Seed_bulletin timestamp title body \<Rightarrow>
          if mode \<noteq> Local
          then (sim_failed [] (Plain (ValueError (lit ''seed-bulletin is available only in local --db mode''))), sv)
          else (case seed_bulletin clock callsign timestamp title body sv of
              (Inl e, sv) \<Rightarrow> (sim_failed [] (Plain e), sv)
            | (Inr sequence, sv) \<Rightarrow>
                (\<lparr>tr_out = [lit ''DEVELOPMENT SEED'', entry ''sequence'' (dec sequence)], tr_err = [], tr_end = Exit 0\<rparr>, sv))
      | _ \<Rightarrow>
          (let notices = (case mode of Remote host port_number _ \<Rightarrow>
                 [lit ''REMOTE DEVELOPMENT TCP '' @ host @ lit '':'' @ dec port_number] | Local \<Rightarrow> []) in
           case command_request command of
             Inl e \<Rightarrow> (sim_failed notices e, sv)
           | Inr request \<Rightarrow>
               (case sim_request mode clock callsign request sv of
                  (Inl e, sv) \<Rightarrow> (sim_failed notices e, sv)
                | (Inr responses, sv) \<Rightarrow>
                    (case print_responses responses of (out, e) \<Rightarrow> (\<lparr>tr_out = out, tr_err = notices, tr_end = e\<rparr>, sv)))))"

end
