(* ===== verification/Client_Sim_Properties.thy ===== *)
theory Client_Sim_Properties
  imports Client_Sim Frame_Tool_Properties Tcp_Properties
begin

text \<open>
  What the user emulator promises: its two modes agree, for every request that is not a message to
  oneself. Over TCP it reads exactly the response frames of one request, whatever the node sends after
  them, and gives what the core in the same process gives. Frames pushed before the answer are taken
  for a part of it, so that the modes differ on a message to oneself.
\<close>

section \<open>Where responses end\<close>

definition closes :: "operation set \<Rightarrow> protocol_object list \<Rightarrow> bool" where
  "closes T rs \<longleftrightarrow> rs \<noteq> [] \<and> object_operation (last rs) \<in> T \<and> list_all (\<lambda>r. object_operation r \<notin> T) (butlast rs)"

lemma closes_simps [simp]:
  "closes T [x] \<longleftrightarrow> object_operation x \<in> T"
  "closes T (rs @ [x]) \<longleftrightarrow> object_operation x \<in> T \<and> list_all (\<lambda>r. object_operation r \<notin> T) rs"
  by (simp_all add: closes_def)

lemma closes_Cons: "closes T (r # rs) \<longleftrightarrow> (if rs = [] then object_operation r \<in> T else object_operation r \<notin> T \<and> closes T rs)"
  by (auto simp: closes_def)

lemma object_operation_simps [simp]:
  "object_operation (Error e1 e2 e3) = ERROR" "object_operation Stored = STORED" "object_operation (End p1 p2 p3 p4) = END_OP"
  "object_operation (Message m1 m2 m3 m4 m5 m6) = MESSAGE" "object_operation (BulletinHeader h1 h2 h3 h4) = BULLETIN_HEADER"
  "object_operation (Bulletin b1 b2 b3 b4 b5) = BULLETIN"
  by (simp_all add: object_operation_def)

lemma message_operations: "mapE (message_response db) ms = Inr rs \<Longrightarrow>
    list_all (\<lambda>r. object_operation r \<noteq> END_OP \<and> object_operation r \<noteq> ERROR) rs"
  by (induction ms arbitrary: rs) (auto simp: bindE_eq_Inr message_response_def)

lemma dispatch_closes:
  assumes "dispatch who q clock sv = (Inr rs, ev, sv')" "client_operation q = Some op" "TERMINATORS op = Some T"
  shows "closes T rs"
proof (cases q)
  case (SendMessage t r b)
  then show ?thesis using assms
    by (auto simp: dispatch_def handle_send_message_def client_operation_def TERMINATORS_def split: if_splits sum.splits prod.splits exn.splits)
next
  case (GetNewMessages since mx)
  then show ?thesis using assms
    by (auto simp: dispatch_def reading_def handle_get_new_messages_def client_operation_def TERMINATORS_def bindE_eq_Inr message_operations
        split: if_splits sum.splits exn.splits)
next
  case (GetNewBulletins since mx)
  then show ?thesis using assms
    by (auto simp: dispatch_def reading_def handle_get_new_bulletins_def client_operation_def TERMINATORS_def list_all_iff
        split: if_splits sum.splits exn.splits)
next
  case (GetBulletin n)
  then show ?thesis using assms
    by (auto simp: dispatch_def reading_def handle_get_bulletin_def client_operation_def TERMINATORS_def
        split: if_splits sum.splits exn.splits option.splits)
next
  case GetCapabilities
  then show ?thesis using assms by (simp add: client_operation_def TERMINATORS_def)
qed (use assms in \<open>simp_all add: client_operation_def\<close>)

section \<open>Reading them\<close>

lemma sim_receive_whole: "whole f \<Longrightarrow> receive_frame failure (f @ r) = Inr (f, r)"
proof -
  assume f: "whole f"
  then have l: "4 \<le> length f" "length f = 4 + unat (f ! 3)" by (auto simp: whole_def)
  have u: "unat (f ! 3) < 256" using unsigned_less [of "f ! 3", where ?'a = nat] by simp
  have t: "take (length f - 4) (drop 4 (f @ r)) = drop 4 f" using l(1) by simp
  have "receive_exact 4 True failure (f @ r) = Inr (take 4 f, drop 4 (f @ r))" using l(1) by (simp add: receive_exact_def)
  moreover have "receive_exact (unat (f ! 3)) False failure (drop 4 (f @ r)) = Inr (drop 4 f, r)"
    using l t by (simp add: receive_exact_def)
  moreover have "take 4 f ! 3 = f ! 3" by simp
  ultimately show ?thesis using u by (simp add: receive_frame_def Let_def)
qed

lemma encoded_operation:
  assumes "encode_frame r unsolicited = Inr f" "\<And>peer n. r \<noteq> GetMessage peer n"
  shows "Operation (uint (f ! 1)) = Some (object_operation r)"
proof -
  obtain q p fl where "ENCODERS r = Some (q, Inr p)" "f = header q fl p"
    using assms by (cases r) (auto simp: encode_frame_Inr)
  then show ?thesis by (simp add: object_operation_def header_def less_imp_le)
qed

lemma receive_responses:
  "mapE (\<lambda>r. encode_frame r False) rs = Inr fs \<Longrightarrow> list_all is_response rs \<Longrightarrow> closes T rs \<Longrightarrow>
     receive_frames T failure (concat fs @ rest') = Inr fs"
proof (induction rs arbitrary: fs)
  case (Cons r rs)
  then obtain f gs where f: "encode_frame r False = Inr f" "mapE (\<lambda>r. encode_frame r False) rs = Inr gs" "fs = f # gs"
    by (auto simp: bindE_eq_Inr)
  have o: "Operation (uint (f ! 1)) = Some (object_operation r)" using encoded_operation [OF f(1)] Cons.prems(2) by (cases r) simp_all
  have w: "receive_frame failure (f @ s) = Inr (f, s)" for s by (rule sim_receive_whole [OF encoded_whole [OF f(1)]])
  show ?case
  proof (cases "rs = []")
    case True
    then show ?thesis using Cons.prems f o w by (subst receive_frames.simps) (simp add: closes_Cons)
  next
    case False
    then show ?thesis using Cons.prems Cons.IH [OF f(2)] f(3) o w by (subst receive_frames.simps) (simp add: closes_Cons)
  qed
qed (simp add: closes_def)

lemma decode_encoded: "mapE (\<lambda>r. encode_frame r False) rs = Inr fs \<Longrightarrow> decode_responses fs = Inr rs"
proof (induction rs arbitrary: fs)
  case (Cons r rs)
  then obtain f gs where f: "encode_frame r False = Inr f" "mapE (\<lambda>r. encode_frame r False) rs = Inr gs" "fs = f # gs"
    by (auto simp: bindE_eq_Inr)
  have "decode_frame (PBytes f) = Inr r" using decode_encode_frame [OF f(1)] by (simp add: decode_frame_iff)
  then show ?case using Cons.IH [OF f(2)] f(3) by (simp add: decode_responses_def)
qed (simp add: decode_responses_def)

section \<open>The node\<close>

text \<open>A core with the same stores answers alike, whoever listens to it.\<close>

definition same_stores :: "server \<Rightarrow> server \<Rightarrow> bool" where
  "same_stores sv sv' \<longleftrightarrow> sv_message_store sv' = sv_message_store sv \<and> sv_bulletin_store sv' = sv_bulletin_store sv
     \<and> sv_db sv' = sv_db sv"

lemma handle_alike:
  assumes "same_stores sv sv2"
  shows "handle_get_message who peer n sv2 = handle_get_message who peer n sv"
    "handle_get_new_messages who since mx sv2 = handle_get_new_messages who since mx sv"
    "handle_get_new_bulletins who since mx sv2 = handle_get_new_bulletins who since mx sv"
    "handle_get_bulletin who n sv2 = handle_get_bulletin who n sv"
  using assms by (simp_all only: handle_get_message_def handle_get_new_messages_def handle_get_new_bulletins_def
      handle_get_bulletin_def same_stores_def)

lemma dispatch_alike:
  assumes "ready sv t" "valid_object q" "same_stores sv sv2" "dispatch who q (PInt t) sv = (r, ev, sv')"
  shows "\<exists>ev2 sv2'. dispatch who q (PInt t) sv2 = (r, ev2, sv2') \<and> same_stores sv' sv2'
    \<and> (\<forall>x \<in> set ev2. \<exists>l m c p b. x = MessageEvent l m \<and> q = SendMessage c p b \<and> m_recipient m = p)"
proof (cases q)
  case (SendMessage c p b)
  have "ready sv2 t" using assms(1,3) by (simp add: ready_def same_stores_def)
  then show ?thesis using send_effect_run [OF assms(1), of c p b who] send_effect_run [of sv2 t c p b who] assms(2-4)
    by (auto simp: SendMessage dispatch_def send_effect_def same_stores_def accepted_event_def)
qed (use assms(3,4) in \<open>auto simp: dispatch_def reading_def handle_alike [OF assms(3)]\<close>)

lemma development_line:
  assumes "callsign_ok who" "tn_allow_development_auth node"
  shows "authenticate_line env node (map byte_of (lit ''CALLSIGN '' @ who) @ [10]) = Some who"
    "10 \<notin> set (map byte_of (lit ''CALLSIGN '' @ who))" "length (map byte_of (lit ''CALLSIGN '' @ who)) \<le> 256"
proof -
  let ?v = "map byte_of (lit ''CALLSIGN '' @ who)"
  have r: "13 < of_byte b \<and> of_byte b < 128" if "b \<in> set ?v" for b
  proof -
    have c: "13 < c \<and> c < 128" if "c \<in> set (lit ''CALLSIGN '' @ who)" for c
      using that callsign_range [OF assms(1), of c] by (auto simp: lit_def)
    from that obtain c where "c \<in> set (lit ''CALLSIGN '' @ who)" "b = byte_of c" unfolding set_map by blast
    then show ?thesis using c [of c] by simp
  qed
  have ten: "of_byte 10 = 10" "of_byte 13 = 13" by (simp_all add: of_byte_def)
  show l: "length ?v \<le> 256" using assms(1) by (simp add: callsign_ok_def lit_def)
  show "10 \<notin> set ?v" using r ten(1) by fastforce
  have suffix: "removesuffix [10] (?v @ [10]) = ?v" by (rule removesuffix_append) simp
  have "drop (length ?v - 1) ?v \<noteq> [13]"
  proof
    assume d: "drop (length ?v - 1) ?v = [13]"
    have "13 \<in> set (drop (length ?v - 1) ?v)" unfolding d by simp
    then have "13 \<in> set ?v" by (rule in_set_dropD)
    then show False using r ten(2) by fastforce
  qed
  then have suffix2: "removesuffix [13] ?v = ?v" by (simp add: removesuffix_def)
  obtain v where v: "v = ?v" by blast
  have "length v \<le> 255" using assms(1) by (simp add: v callsign_ok_def lit_def)
  moreover have "take (length AUTH_PREFIX) v \<noteq> AUTH_PREFIX" "take (length HANDSHAKE_PREFIX) v = HANDSHAKE_PREFIX"
    "drop (length HANDSHAKE_PREFIX) v = map byte_of who"
    by (simp_all add: v AUTH_PREFIX_def HANDSHAKE_PREFIX_def lit_def byte_of_def)
  moreover have "ascii_decode (map byte_of who) = Some who"
  proof -
    have "b < 128" if "b \<in> set (map byte_of who)" for b
      using r [of b] that by (auto simp: word_less_nat_alt of_byte_def)
    moreover have "map of_byte (map byte_of who) = who" using callsign_ok_ascii [OF assms(1)] by (simp add: comp_def)
    ultimately show ?thesis by (simp only: ascii_decode_def list_all_iff) simp
  qed
  moreover have "validate_callsign (PStr who) (lit ''callsign'') = Inr who" using assms(1) by (simp add: validate_callsign_Inr)
  ultimately show "authenticate_line env node (?v @ [10]) = Some who"
    unfolding v [symmetric] using assms(2) suffix [folded v] suffix2 [folded v]
    by (simp add: authenticate_line_def Let_def)
qed

text \<open>An exchange of the emulator with a node: it connects, and says its callsign and its request.\<close>

lemma node_exchange:
  assumes "ready sv t" "valid_object q" "callsign_ok who" "\<And>m b. q \<noteq> SendMessage m who b" "encode_frame q False = Inr d"
    "same_stores sv (tn_core node)" "tn_allow_development_auth node" "\<forall>sid. tn_owner node sid \<noteq> Some c"
    "te_accepted_at env (tn_ticks node + 1) = PInt t"
    "concat pieces = map byte_of (lit ''CALLSIGN '' @ who) @ [10] @ d"
    "dispatch who q (PInt t) sv = (Inr rs, ev, sv')" "mapE (\<lambda>r. encode_frame r False) rs = Inr fs"
  shows "tcp_output (tcp_receive env c pieces (tcp_accept c node)) c = HANDSHAKE_OK @ concat fs
    \<and> same_stores sv' (tn_core (tcp_receive env c pieces (tcp_accept c node)))"
proof -
  let ?line = "map byte_of (lit ''CALLSIGN '' @ who)"
  let ?n0 = "tcp_accept c node"
  define n1 where "n1 = tcp_arrive c (?line @ [10] @ d) ?n0"
  have blocked: "tcp_pump env c ?n0 = ?n0"
    by (rule tcp.pump_blocked) (simp add: tcp_advance_def tcp_accept_def read_line_def)
  have "tcp_arrive c [] ?n0 = ?n0" by (simp add: tcp_arrive_def tcp_accept_def set_connection_def)
  then have pieces: "tcp_receive env c pieces ?n0 = tcp_pump env c n1"
    using tcp.pump_pieces [where a = "[]" and s = ?n0 and ps = pieces and env = env and c = c] blocked assms(10)
    by (simp add: tcp_receive_def n1_def)
  have n1: "tn_connections n1 c = Some \<lparr>cn_phase = Handshake, cn_buffer = ?line @ 10 # d, cn_closing = False, cn_written = []\<rparr>"
    "tn_allow_development_auth n1" "tn_core n1 = tn_core node" "tn_ticks n1 = tn_ticks node" "tn_sessions n1 = tn_sessions node"
    "tn_owner n1 = tn_owner node"
    using assms(7) by (simp_all add: n1_def tcp_arrive_def tcp_accept_def set_connection_def)
  note line = development_line [OF assms(3) n1(2)]
  from handshake_accepted [OF n1(1) _ _ _ line(2,3) line(1) assms(3), of d env] obtain n2 s where n2:
    "tcp_advance env c n1 = Some n2" "serves_with n2 c who d" "tcp_output n2 c = tcp_output n1 c @ HANDSHAKE_OK"
    "tn_core n2 = tn_core node" "tn_ticks n2 = tn_ticks node + 1" "se_callsign s = who"
    "tn_sessions n2 = put_session s (tn_sessions node)" "tn_owner n2 = (tn_owner node)(se_session_id s \<mapsto> c)"
    unfolding n1(3-6) by auto
  obtain ev2 sv2 where run: "dispatch who q (PInt t) (tn_core node) = (Inr rs, ev2, sv2)" "same_stores sv' sv2"
    "\<forall>x \<in> set ev2. \<exists>l m c p b. x = MessageEvent l m \<and> q = SendMessage c p b \<and> m_recipient m = p"
    using dispatch_alike [OF assms(1,2,6,11)] by blast
  have dec: "decode_frame (PBytes d) = Inr q" using decode_encode_frame [OF assms(5)] by (simp add: decode_frame_iff)
  have h: "handle_frame (PStr who) (PBytes d) (te_accepted_at env (tn_ticks n2)) (tn_core n2) = (Inr fs, ev2, sv2)"
    using run(1) dec assms(9,12) by (simp add: handle_frame_def n2(4,5))
  have "se_callsign x = who" if "x \<in> set (tn_sessions n2)" "tn_owner n2 (se_session_id x) = Some c" for x
    using that assms(8) n2(6) by (auto simp: n2(7,8) put_session_def split: if_splits)
  then have "list_all (unheard c n2) ev2" using run(3) assms(4) by (fastforce simp: list_all_iff unheard_def)
  with frame_handled [OF n2(2) encoded_whole [OF assms(5)] h] have
    "tcp_output (tcp_pump env c n2) c = tcp_output n2 c @ concat fs" "tn_core (tcp_pump env c n2) = sv2" by auto
  moreover have "tcp_output n1 c = []" by (simp add: tcp_output_def n1(1))
  ultimately show ?thesis using run(2) n2(3) by (simp add: pieces tcp.pump_advance [OF n2(1)])
qed

lemma emulator_reads:
  assumes "dispatch who q clock sv = (Inr rs, ev, sv')" "answers rs" "mapE (\<lambda>r. encode_frame r False) rs = Inr fs"
    "client_operation q = Some op" "TERMINATORS op \<noteq> None" "encode_frame q False = Inr d" "ascii who"
    "xe_connect xenv = None" "xe_send xenv = None" "xe_data xenv = HANDSHAKE_OK @ concat fs @ extra"
  shows "fst (sim_request (Remote host port_number xenv) clock' who q sv2) = Inr rs"
proof -
  obtain T where T: "TERMINATORS op = Some T" using assms(5) by blast
  have "object_operation q = op \<and> (\<forall>peer n. q \<noteq> GetMessage peer n)"
    using assms(4) by (cases q) (auto simp: client_operation_def object_operation_def)
  then have op: "2 \<le> length d" "Operation (uint (d ! 1)) = Some op"
    using encoded_operation [OF assms(6)] encode_frame_length [OF assms(6)] by auto
  have "list_all is_response rs" using assms(2) by (simp add: answers_def list_all_iff)
  then have r: "receive_frames T failure (concat fs @ extra) = Inr fs" for failure
    using receive_responses [OF assms(3) _ dispatch_closes [OF assms(1,4) T]] by blast
  have l: "receive_line 32 failure (HANDSHAKE_OK @ x) = Inr (map byte_of (lit ''OK'') @ [10], x)" for failure x
    by (simp add: receive_line_def HANDSHAKE_OK_def lit_def byte_of_def)
  have "tcp_exchange host port_number xenv who d = Inr fs"
    unfolding tcp_exchange_def assms(10) using assms(7-9) op T r l by (simp add: Let_def)
  then show ?thesis using decode_encoded [OF assms(3)] assms(6) by (simp add: sim_request_def exchange_def lift_exn_def)
qed

text \<open>C39. The two modes agree: for each of the client's four requests, except a message to
  oneself, the emulator gives the core's responses with the core in the same process; and when it
  connects to a node that accepts the development handshake and has the same stores, and says its
  callsign and its request in whatever pieces while the node does nothing else, the node comes to the
  same database and what it writes, whatever follows, gives the emulator the same responses.\<close>

theorem sim_modes_agree:
  assumes "ready sv t" "client_operation q = Some op" "TERMINATORS op \<noteq> None" "valid_object q" "callsign_ok who"
    "\<And>m b. q \<noteq> SendMessage m who b"
    "same_stores sv (tn_core node)" "tn_allow_development_auth node" "\<forall>sid. tn_owner node sid \<noteq> Some c"
    "te_accepted_at env (tn_ticks node + 1) = PInt t"
  shows "\<exists>rs ev sv' d. dispatch who q (PInt t) sv = (Inr rs, ev, sv') \<and> encode_frame q False = Inr d
    \<and> sim_request Local (PInt t) who q sv = (Inr rs, sv')
    \<and> (\<forall>pieces. concat pieces = map byte_of (lit ''CALLSIGN '' @ who) @ [10] @ d
        \<longrightarrow> same_stores sv' (tn_core (tcp_receive env c pieces (tcp_accept c node)))
          \<and> (\<forall>xenv extra clock' sv2. xe_connect xenv = None \<longrightarrow> xe_send xenv = None
              \<longrightarrow> xe_data xenv = tcp_output (tcp_receive env c pieces (tcp_accept c node)) c @ extra
              \<longrightarrow> fst (sim_request (Remote host port_number xenv) clock' who q sv2) = Inr rs))"
proof -
  obtain rs ev sv' where run: "dispatch who q (PInt t) sv = (Inr rs, ev, sv')" "answers rs"
    using dispatch_total [OF assms(1), of q who] assms(4) by blast
  obtain fs where fs: "mapE (\<lambda>r. encode_frame r False) rs = Inr fs" using encode_answers [OF run(2)] by blast
  obtain d where d: "encode_frame q False = Inr d" using encode_frame_ok [of q False] assms(2,4)
    by (auto simp: is_ok_iff)
  have dec: "decode_frame (PBytes d) = Inr q" using decode_encode_frame [OF d] by (simp add: decode_frame_iff)
  have "handle_frame (PStr who) (PBytes d) (PInt t) sv = (Inr fs, ev, sv')" using dec run(1) fs by (simp add: handle_frame_def)
  then have here: "sim_request Local (PInt t) who q sv = (Inr rs, sv')"
    using d decode_encoded [OF fs] by (simp add: sim_request_def exchange_def lift_exn_def)
  have there: "tcp_output (tcp_receive env c pieces (tcp_accept c node)) c = HANDSHAKE_OK @ concat fs
      \<and> same_stores sv' (tn_core (tcp_receive env c pieces (tcp_accept c node)))"
    if "concat pieces = map byte_of (lit ''CALLSIGN '' @ who) @ [10] @ d" for pieces
    by (rule node_exchange [OF assms(1,4-6) d assms(7-10) that run(1) fs])
  note reads = emulator_reads [OF run fs assms(2,3) d callsign_ok_ascii [OF assms(5)]]
  show ?thesis using run(1) d here there reads
    by (intro exI [of _ rs] exI [of _ ev] exI [of _ sv'] exI [of _ d]) simp
qed

text \<open>A development node with one connection to come.\<close>

definition sample_development :: tcp_node where
  "sample_development = new_tcp_server (sample_server empty_database) [] True True 0"

theorem sim_modes_agree_witness:
  "\<exists>d node'. encode_frame (SendMessage 7 (lit ''B2B'') (lit ''hi'')) False = Inr d
    \<and> node' = tcp_receive sample_env 7 [map byte_of (lit ''CALLSIGN ''), map byte_of (lit ''A1A'') @ [10] @ d] (tcp_accept 7 sample_development)
    \<and> fst (sim_request (Remote (lit ''localhost'') 8023 \<lparr>xe_connect = None, xe_send = None,
          xe_data = tcp_output node' 7 @ [1, 2], xe_failure = None, xe_unicode = id\<rparr>)
        (PInt 9) (lit ''A1A'') (SendMessage 7 (lit ''B2B'') (lit ''hi'')) (sample_server empty_database))
      = fst (sim_request Local (PInt 9) (lit ''A1A'') (SendMessage 7 (lit ''B2B'') (lit ''hi'')) (sample_server empty_database))
    \<and> messages (sv_db (tn_core node')) \<noteq> []"
proof -
  let ?q = "SendMessage 7 (lit ''B2B'') (lit ''hi'')" and ?line = "map byte_of (lit ''CALLSIGN '' @ lit ''A1A'')"
  have same: "same_stores (sample_server empty_database) (tn_core sample_development)" "tn_allow_development_auth sample_development"
    "\<forall>sid. tn_owner sample_development sid \<noteq> Some 7" "te_accepted_at sample_env (tn_ticks sample_development + 1) = PInt 9"
    by (simp_all add: same_stores_def sample_development_def new_tcp_server_def add_message_listener_def sample_env_def)
  have q: "client_operation ?q = Some SEND_MESSAGE" "TERMINATORS SEND_MESSAGE \<noteq> None" "\<And>m b. ?q \<noteq> SendMessage m (lit ''A1A'') b"
    by (simp_all add: client_operation_def TERMINATORS_def lit_def)
  from sim_modes_agree [OF sample_ready(1) q(1,2) sample_request q(3) same, of "lit ''localhost''" 8023] obtain rs ev sv' d where
    r: "dispatch (lit ''A1A'') ?q (PInt 9) (sample_server empty_database) = (Inr rs, ev, sv')" "encode_frame ?q False = Inr d"
    "sim_request Local (PInt 9) (lit ''A1A'') ?q (sample_server empty_database) = (Inr rs, sv')"
    and there: "\<And>pieces. concat pieces = ?line @ [10] @ d
        \<Longrightarrow> same_stores sv' (tn_core (tcp_receive sample_env 7 pieces (tcp_accept 7 sample_development)))
          \<and> (\<forall>xenv extra clock' sv2. xe_connect xenv = None \<longrightarrow> xe_send xenv = None
              \<longrightarrow> xe_data xenv = tcp_output (tcp_receive sample_env 7 pieces (tcp_accept 7 sample_development)) 7 @ extra
              \<longrightarrow> fst (sim_request (Remote (lit ''localhost'') 8023 xenv) clock' (lit ''A1A'') ?q sv2) = Inr rs)" by blast
  define node' where "node' = tcp_receive sample_env 7 [map byte_of (lit ''CALLSIGN ''), map byte_of (lit ''A1A'') @ [10] @ d] (tcp_accept 7 sample_development)"
  have "concat [map byte_of (lit ''CALLSIGN ''), map byte_of (lit ''A1A'') @ [10] @ d] = ?line @ [10] @ d" by simp
  note t = there [OF this, folded node'_def]
  have dec: "decode_frame (PBytes d) = Inr ?q" using decode_encode_frame [OF r(2)] by (simp add: decode_frame_iff)
  then have "handle_frame (PStr (lit ''A1A'')) (PBytes d) (PInt 9) (sample_server empty_database)
      = (mapE (\<lambda>r. encode_frame r False) rs, ev, sv')" using r(1) by (simp add: handle_frame_def)
  note m = this dec
  have "messages (sv_db sv') \<noteq> []"
    using handle_frame_messages [OF sample_ready(1) m(1)] m(2) sample_request(2)
    by (simp add: sample_server_def mailbox_last_def empty_database_def)
  then have "messages (sv_db (tn_core node')) \<noteq> []" using t by (simp add: same_stores_def)
  moreover have "fst (sim_request (Remote (lit ''localhost'') 8023 \<lparr>xe_connect = None, xe_send = None,
          xe_data = tcp_output node' 7 @ [1, 2], xe_failure = None, xe_unicode = id\<rparr>) (PInt 9) (lit ''A1A'') ?q (sample_server empty_database)) = Inr rs"
    by (rule t [THEN conjunct2, THEN spec, THEN spec, THEN spec, THEN spec, THEN mp, THEN mp, THEN mp, of _ "[1, 2]"])
      (simp_all only: exchange_env.simps)
  ultimately show ?thesis using r(2,3) by (intro exI [of _ d] exI [of _ node']) (simp add: node'_def)
qed

section \<open>Where the modes differ\<close>

text \<open>A message to oneself: the node pushes it over the same connection before it answers STORED, and
  the emulator takes the pushed frame for a part of the answer and refuses it: the message is stored and
  the command fails, where it succeeds with the core in the same process.\<close>

lemma own_message_pushed:
  assumes d: "encode_frame (SendMessage 7 (lit ''A1A'') (lit ''hi'')) False = Inr d"
  shows "\<exists>f. encode_frame (accepted_event 7 (lit ''A1A'') (lit ''A1A'') (lit ''hi'') empty_database) True = Inr f
    \<and> tcp_output (tcp_receive sample_env 7 [map byte_of (lit ''CALLSIGN A1A'') @ [10] @ d] (tcp_accept 7 sample_development)) 7
      = HANDSHAKE_OK @ f @ [1, 0x44, 0, 0]"
proof -
  let ?q = "SendMessage 7 (lit ''A1A'') (lit ''hi'')" and ?who = "lit ''A1A''" and ?line = "map byte_of (lit ''CALLSIGN A1A'')"
  let ?m = "accepted_event 7 ?who ?who (lit ''hi'') empty_database"
  define n1 where "n1 = tcp_arrive 7 (?line @ [10] @ d) (tcp_accept 7 sample_development)"
  have n1: "tn_connections n1 7 = Some \<lparr>cn_phase = Handshake, cn_buffer = ?line @ 10 # d, cn_closing = False, cn_written = []\<rparr>"
    "tn_allow_development_auth n1" "tn_core n1 = sample_server empty_database" "tn_ticks n1 = 0" "tn_sessions n1 = []"
    "tn_listener n1 = 0"
    by (simp_all add: n1_def tcp_arrive_def tcp_accept_def set_connection_def sample_development_def new_tcp_server_def
        add_message_listener_def sample_server_def)
  have line: "?line = map byte_of (lit ''CALLSIGN '' @ ?who)" by (simp add: lit_def)
  note l = development_line [OF sample_request(2) n1(2), folded line]
  from handshake_accepted [OF n1(1) _ _ _ l(2,3) l(1) sample_request(2), of d sample_env] obtain n2 s where n2:
    "tcp_advance sample_env 7 n1 = Some n2" "serves_with n2 7 ?who d" "tcp_output n2 7 = HANDSHAKE_OK"
    "tn_core n2 = sample_server empty_database" "se_callsign s = ?who" "se_active s" "tn_sessions n2 = [s]" "tn_owner n2 (se_session_id s) = Some 7"
    "tn_listener n2 = 0"
    unfolding n1(3-6) by (auto simp: put_session_def tcp_output_def n1)
  have dec: "decode_frame (PBytes d) = Inr ?q" using decode_encode_frame [OF d] by (simp add: decode_frame_iff)
  have v: "valid_object ?q" using d encode_frame_ok [of ?q False] by auto
  have e: "encode_frame Stored False = Inr [1, 0x44, 0, 0]" by (simp add: encode_frame_def codec_encode_frame_def)
  have at: "te_accepted_at sample_env n = PInt 9" for n by (simp add: sample_env_def)
  have "mailbox_last empty_database ?who \<noteq> MAX_U32" by (simp add: mailbox_last_def empty_database_def)
  then obtain core' where "dispatch ?who ?q (PInt 9) (sample_server empty_database)
      = (Inr [Stored], [MessageEvent 0 ?m, MessageEvent 1 ?m], core')"
    using send_effect_run [OF sample_ready(1) v, of ?who] sample_request(2)
    by (simp add: dispatch_def send_effect_def sample_server_def)
  then have h: "handle_frame (PStr ?who) (PBytes d) (te_accepted_at sample_env (tn_ticks n2)) (tn_core n2)
      = (Inr [[1, 0x44, 0, 0]], [MessageEvent 0 ?m, MessageEvent 1 ?m], core')"
    using dec e by (simp add: handle_frame_def n2(4) at)
  from advance_serve [OF n2(2) encoded_whole [OF d] h] obtain cn s' where cn: "tn_connections n2 7 = Some cn" "\<not> cn_closing cn"
    and run: "tcp_advance sample_env 7 n2 = Some (tcp_write 7 [[1, 0x44, 0, 0]] (fold (tcp_listen sample_env)
      [MessageEvent 0 ?m, MessageEvent 1 ?m] (listening_node sample_env 7 cn s' core' n2)))" by blast
  let ?n3 = "listening_node sample_env 7 cn s' core' n2"
  have "valid_object ?m" using v by (simp add: accepted_event_def mailbox_last_def incoming_def empty_database_def mailbox_def)
  then obtain f where f: "encode_frame ?m True = Inr f" using encode_frame_ok [of ?m True]
    by (auto simp: is_ok_iff accepted_event_def may_be_unsolicited_def)
  have "se_callsign (touch now s) = ?who" "se_active (touch now s)" "se_session_id (touch now s) = se_session_id s" for now
    using n2(5,6) by (simp_all add: touch_def)
  then obtain s3 where s3: "tn_sessions ?n3 = [s3]" "se_callsign s3 = ?who" "se_active s3" "se_session_id s3 = se_session_id s"
    using n2(5-7) by (auto simp: listening_node_def touch_in_def)
  have m: "m_recipient ?m = ?who" by (simp add: accepted_event_def)
  have "tn_connections (fold (tcp_listen sample_env) [MessageEvent 0 ?m, MessageEvent 1 ?m] ?n3) 7
      = Some (cn\<lparr>cn_buffer := [], cn_written := cn_written cn @ [f]\<rparr>)"
    using cn(2) f m s3 n2(8,9)
    by (simp add: tcp_listen_def deliver_message_def active_for_def tcp_deliver_def tcp_push_def tcp_write_def set_connection_def put_bytes_def)
  then have w: "serves (tcp_write 7 [[1, 0x44, 0, 0]] (fold (tcp_listen sample_env) [MessageEvent 0 ?m, MessageEvent 1 ?m] ?n3)) 7 ?who
    \<and> tcp_output (tcp_write 7 [[1, 0x44, 0, 0]] (fold (tcp_listen sample_env) [MessageEvent 0 ?m, MessageEvent 1 ?m] ?n3)) 7
      = HANDSHAKE_OK @ f @ [1, 0x44, 0, 0]"
    using cn n2(2,3) by (auto simp: serves_def serves_with_def tcp_output_def tcp_write_def set_connection_def put_bytes_def)
  have "tcp_pump sample_env 7 (tcp_accept 7 sample_development) = tcp_accept 7 sample_development"
    by (rule tcp.pump_blocked) (simp add: tcp_advance_def tcp_accept_def read_line_def)
  then have "tcp_receive sample_env 7 [?line @ [10] @ d] (tcp_accept 7 sample_development)
      = tcp_write 7 [[1, 0x44, 0, 0]] (fold (tcp_listen sample_env) [MessageEvent 0 ?m, MessageEvent 1 ?m] ?n3)"
    using tcp.pump_advance [OF n2(1)] tcp.pump_advance [OF run] tcp.pump_blocked [OF serves_blocked [OF w [THEN conjunct1]]]
    by (simp only: tcp_receive_def fold.simps n1_def id_apply comp_def)
  then show ?thesis using f w by simp
qed

lemma own_message_modes:
  "\<exists>d e. encode_frame (SendMessage 7 (lit ''A1A'') (lit ''hi'')) False = Inr d
    \<and> fst (sim_request Local (PInt 9) (lit ''A1A'') (SendMessage 7 (lit ''A1A'') (lit ''hi'')) (sample_server empty_database)) = Inr [Stored]
    \<and> fst (sim_request (Remote (lit ''localhost'') 8023 \<lparr>xe_connect = None, xe_send = None,
          xe_data = tcp_output (tcp_receive sample_env 7 [map byte_of (lit ''CALLSIGN A1A'') @ [10] @ d] (tcp_accept 7 sample_development)) 7,
          xe_failure = None, xe_unicode = id\<rparr>) (PInt 9) (lit ''A1A'') (SendMessage 7 (lit ''A1A'') (lit ''hi'')) (sample_server empty_database))
        = Inl (Plain e)"
proof -
  let ?q = "SendMessage 7 (lit ''A1A'') (lit ''hi'')" and ?who = "lit ''A1A''" and ?stored = "[1, 0x44, 0, 0] :: bytes"
  let ?m = "accepted_event 7 ?who ?who (lit ''hi'') empty_database"
  have v: "valid_object ?q" using sample_request by simp
  then obtain d where d: "encode_frame ?q False = Inr d" using encode_frame_ok [of ?q False] by (auto simp: is_ok_iff)
  obtain f where f: "encode_frame ?m True = Inr f"
    "tcp_output (tcp_receive sample_env 7 [map byte_of (lit ''CALLSIGN A1A'') @ [10] @ d] (tcp_accept 7 sample_development)) 7
      = HANDSHAKE_OK @ f @ ?stored" using own_message_pushed [OF d] by blast
  have e: "encode_frame Stored False = Inr ?stored" by (simp add: encode_frame_def codec_encode_frame_def)
  have op: "2 \<le> length d" "Operation (uint (d ! 1)) = Some SEND_MESSAGE" "Operation (uint (f ! 1)) = Some MESSAGE"
    "Operation (uint (?stored ! 1)) = Some STORED"
    using encoded_operation [OF d] encode_frame_length [OF d] encoded_operation [OF f(1)] encoded_operation [OF e]
    by (simp_all add: accepted_event_def object_operation_def)
  have T: "TERMINATORS SEND_MESSAGE = Some {STORED, ERROR}" by (simp add: TERMINATORS_def)
  have "receive_frames {STORED, ERROR} None ?stored = Inr [?stored]"
    using sim_receive_whole [OF encoded_whole [OF e], of None "[]"] op(4) by (subst receive_frames.simps) simp
  then have r: "receive_frames {STORED, ERROR} None (f @ ?stored) = Inr [f, ?stored]"
    using sim_receive_whole [OF encoded_whole [OF f(1)], of None ?stored] op(3) by (subst receive_frames.simps) simp
  have l: "receive_line 32 None (HANDSHAKE_OK @ x) = Inr (map byte_of (lit ''OK'') @ [10], x)" for x
    by (simp add: receive_line_def HANDSHAKE_OK_def lit_def byte_of_def)
  have dec: "decode_frame (PBytes d) = Inr ?q" "decode_frame (PBytes ?stored) = Inr Stored"
    unfolding decode_frame_iff using decode_encode_frame [OF d] decode_encode_frame [OF e] by simp_all
  have "decode_frame (PBytes f) \<noteq> Inr x" for x
    unfolding decode_frame_iff using decode_encode_frame [OF f(1)] by simp
  then obtain error where error: "decode_frame (PBytes f) = Inl error" by (cases "decode_frame (PBytes f)") auto
  have "mailbox_last empty_database ?who \<noteq> MAX_U32" by (simp add: mailbox_last_def empty_database_def)
  then obtain ev core' where "dispatch ?who ?q (PInt 9) (sample_server empty_database) = (Inr [Stored], ev, core')"
    using send_effect_run [OF sample_ready(1) v, of ?who] sample_request(2)
    by (simp add: dispatch_def send_effect_def sample_server_def)
  then have "handle_frame (PStr ?who) (PBytes d) (PInt 9) (sample_server empty_database) = (Inr [?stored], ev, core')"
    using dec(1) e by (simp add: handle_frame_def)
  then have "fst (sim_request Local (PInt 9) ?who ?q (sample_server empty_database)) = Inr [Stored]"
    using d dec(2) by (simp add: sim_request_def exchange_def lift_exn_def decode_responses_def)
  moreover have "tcp_exchange host port_number \<lparr>xe_connect = None, xe_send = None, xe_data = HANDSHAKE_OK @ f @ ?stored,
      xe_failure = None, xe_unicode = id\<rparr> ?who d = Inr [f, ?stored]" for host port_number
    using op(1,2) T l r callsign_ok_ascii [OF sample_request(2)] by (simp add: tcp_exchange_def Let_def)
  then have "fst (sim_request (Remote (lit ''localhost'') 8023 \<lparr>xe_connect = None, xe_send = None, xe_data = HANDSHAKE_OK @ f @ ?stored,
      xe_failure = None, xe_unicode = id\<rparr>) (PInt 9) ?who ?q (sample_server empty_database)) = Inl (Plain error)"
    using d error by (simp add: sim_request_def exchange_def lift_exn_def decode_responses_def)
  ultimately show ?thesis using d unfolding f(2) [symmetric] by blast
qed

end
