(* ===== verification/Server_Config.thy ===== *)
theory Server_Config
  imports Py_Shell
begin

text \<open>
  \<open>server/config.py\<close>: the dotenv file and the environment as the configuration of the node. The
  environment is a map of texts. Which code points beyond ASCII are letters or digits of a
  variable name is a parameter, Python's \<open>str.isalnum\<close>.
\<close>

datatype config_error = ConfigurationError pystr | BareValueError

type_synonym 'a config = "config_error + 'a"

type_synonym environment = "pystr \<rightharpoonup> pystr"

section \<open>The dotenv file\<close>

definition is_alnum :: "(nat \<Rightarrow> bool) \<Rightarrow> nat \<Rightarrow> bool" where
  "is_alnum alnum c \<longleftrightarrow> is_digit c \<or> is_upper c \<or> 97 \<le> c \<and> c < 123 \<or> 128 \<le> c \<and> alnum c"

text \<open>\<open>key.replace("_", "A").isalnum()\<close>, which is false for the empty text.\<close>

definition valid_name :: "(nat \<Rightarrow> bool) \<Rightarrow> pystr \<Rightarrow> bool" where
  "valid_name alnum key \<longleftrightarrow> key \<noteq> [] \<and> (\<forall>c \<in> set key. is_alnum alnum (if c = 95 then 65 else c))"

definition unquote :: "pystr \<Rightarrow> pystr" where
  "unquote v = (if 2 \<le> length v \<and> hd v = last v \<and> (hd v = 34 \<or> hd v = 39) then butlast (tl v) else v)"

text \<open>The entry of a line: none, for a blank line or a comment.\<close>

definition dotenv_entry :: "(nat \<Rightarrow> bool) \<Rightarrow> pystr \<Rightarrow> int \<Rightarrow> pystr \<Rightarrow> (pystr \<times> pystr) option config" where
  "dotenv_entry alnum file number raw =
     (let line = strip raw in
      if line = [] \<or> hd line = 35 then Inr None
      else if 61 \<notin> set line
      then Inl (ConfigurationError (file @ lit '':'' @ dec number @ lit '': expected KEY=VALUE''))
      else (let key = strip (takeWhile (\<lambda>c. c \<noteq> 61) line); v = tl (dropWhile (\<lambda>c. c \<noteq> 61) line) in
        if key = [] \<or> \<not> valid_name alnum key
        then Inl (ConfigurationError (file @ lit '':'' @ dec number @ lit '': invalid variable name''))
        else Inr (Some (key, unquote (strip v)))))"

definition setdefault :: "pystr \<Rightarrow> pystr \<Rightarrow> environment \<Rightarrow> environment" where
  "setdefault key v env = (if env key = None then env(key \<mapsto> v) else env)"

text \<open>The lines before one that raises have taken effect.\<close>

fun load_lines :: "(nat \<Rightarrow> bool) \<Rightarrow> pystr \<Rightarrow> int \<Rightarrow> pystr list \<Rightarrow> environment \<Rightarrow> unit config \<times> environment" where
  "load_lines alnum file number [] env = (Inr (), env)"
| "load_lines alnum file number (raw # lines) env =
     (case dotenv_entry alnum file number raw of
        Inl e \<Rightarrow> (Inl e, env)
      | Inr None \<Rightarrow> load_lines alnum file (number + 1) lines env
      | Inr (Some (key, v)) \<Rightarrow> load_lines alnum file (number + 1) lines (setdefault key v env))"

definition load_dotenv :: "(nat \<Rightarrow> bool) \<Rightarrow> pystr \<Rightarrow> pystr option \<Rightarrow> environment \<Rightarrow> unit config \<times> environment" where
  "load_dotenv alnum file content env =
     (case content of None \<Rightarrow> (Inr (), env) | Some text \<Rightarrow> load_lines alnum file 1 (splitlines text) env)"

section \<open>Values\<close>

definition boolean :: "pystr \<Rightarrow> pystr \<Rightarrow> bool config" where
  "boolean name v =
     (let normalized = lower (strip v) in
      if normalized \<in> {lit ''1'', lit ''true'', lit ''yes'', lit ''on''} then Inr True
      else if normalized \<in> {lit ''0'', lit ''false'', lit ''no'', lit ''off''} then Inr False
      else Inl (ConfigurationError (name @ lit '' must be true or false'')))"

definition port :: "pystr \<Rightarrow> pystr \<Rightarrow> int config" where
  "port name v =
     (case py_int v of
        None \<Rightarrow> Inl (ConfigurationError (name @ lit '' must be an integer''))
      | Some p \<Rightarrow>
          if 1 \<le> p \<and> p \<le> 65535 then Inr p
          else Inl (ConfigurationError (name @ lit '' must be between 1 and 65535'')))"

section \<open>The configuration\<close>

record server_config =
  sv_database :: pystr
  sv_tcp_enabled :: bool
  sv_tcp_host :: pystr
  sv_tcp_port :: int
  sv_api_enabled :: bool
  sv_api_host :: pystr
  sv_api_port :: int
  sv_api_token_secret :: "pystr option"
  sv_api_token_lifetime :: int
  sv_api_cors_origins :: "pystr list"
  sv_aprs_enabled :: bool
  sv_aprs_callsign :: "pystr option"
  sv_aprs_passcode :: "pystr option"
  sv_aprs_host :: pystr
  sv_aprs_port :: int
  sv_aprs_filter :: "pystr option"

text \<open>\<open>x or None\<close> and \<open>not x\<close> for optional texts.\<close>

definition nonempty :: "pystr option \<Rightarrow> pystr option" where
  "nonempty v = (if v = Some [] then None else v)"

definition missing :: "pystr option \<Rightarrow> bool" where
  "missing v \<longleftrightarrow> v = None \<or> v = Some []"

definition validate_config :: "server_config \<Rightarrow> unit config" where
  "validate_config c =
     bindE (port (lit ''OPENQSP_TCP_PORT'') (dec (sv_tcp_port c))) (\<lambda>_.
     bindE (port (lit ''OPENQSP_APRS_PORT'') (dec (sv_aprs_port c))) (\<lambda>_.
     bindE (port (lit ''OPENQSP_API_PORT'') (dec (sv_api_port c))) (\<lambda>_.
     if \<not> sv_tcp_enabled c \<and> \<not> sv_aprs_enabled c \<and> \<not> sv_api_enabled c
     then Inl (ConfigurationError (lit ''at least one transport must be enabled''))
     else if sv_api_enabled c \<and> missing (sv_api_token_secret c)
     then Inl (ConfigurationError (lit ''OPENQSP_API_TOKEN_SECRET is required when API is enabled''))
     else if sv_api_token_lifetime c \<le> 0
     then Inl (ConfigurationError (lit ''OPENQSP_API_TOKEN_LIFETIME must be positive''))
     else if sv_aprs_enabled c \<and> missing (sv_aprs_callsign c)
     then Inl (ConfigurationError (lit ''OPENQSP_APRS_CALLSIGN is required when APRS is enabled''))
     else if sv_aprs_enabled c \<and> missing (sv_aprs_passcode c)
     then Inl (ConfigurationError (lit ''OPENQSP_APRS_PASSCODE is required when APRS is enabled''))
     else Inr ())))"

definition get_env :: "environment \<Rightarrow> string \<Rightarrow> string \<Rightarrow> pystr" where
  "get_env env name fallback = (case env (lit name) of None \<Rightarrow> lit fallback | Some v \<Rightarrow> v)"

definition env_boolean :: "environment \<Rightarrow> string \<Rightarrow> string \<Rightarrow> bool config" where
  "env_boolean env name fallback = boolean (lit name) (get_env env name fallback)"

definition env_port :: "environment \<Rightarrow> string \<Rightarrow> string \<Rightarrow> int config" where
  "env_port env name fallback = port (lit name) (get_env env name fallback)"

definition from_environment :: "environment \<Rightarrow> server_config config" where
  "from_environment env =
     bindE (env_boolean env ''OPENQSP_TCP_ENABLED'' ''true'') (\<lambda>tcp.
     bindE (env_port env ''OPENQSP_TCP_PORT'' ''8023'') (\<lambda>tcp_port.
     bindE (env_boolean env ''OPENQSP_API_ENABLED'' ''false'') (\<lambda>api.
     bindE (env_port env ''OPENQSP_API_PORT'' ''8000'') (\<lambda>api_port.
     bindE (case py_int (get_env env ''OPENQSP_API_TOKEN_LIFETIME'' ''3600'') of None \<Rightarrow> Inl BareValueError | Some i \<Rightarrow> Inr i)
       (\<lambda>lifetime.
     bindE (env_boolean env ''OPENQSP_APRS_ENABLED'' ''false'') (\<lambda>aprs.
     bindE (env_port env ''OPENQSP_APRS_PORT'' ''14580'') (\<lambda>aprs_port.
     let c = \<lparr>sv_database = get_env env ''OPENQSP_DATABASE'' ''openqsp.db'', sv_tcp_enabled = tcp,
         sv_tcp_host = get_env env ''OPENQSP_TCP_HOST'' ''127.0.0.1'', sv_tcp_port = tcp_port, sv_api_enabled = api,
         sv_api_host = get_env env ''OPENQSP_API_HOST'' ''127.0.0.1'', sv_api_port = api_port,
         sv_api_token_secret = nonempty (env (lit ''OPENQSP_API_TOKEN_SECRET'')), sv_api_token_lifetime = lifetime,
         sv_api_cors_origins = filter (\<lambda>x. x \<noteq> []) (map strip (split_char 44 (get_env env ''OPENQSP_API_CORS_ORIGINS'' ''''))),
         sv_aprs_enabled = aprs, sv_aprs_callsign = nonempty (env (lit ''OPENQSP_APRS_CALLSIGN'')),
         sv_aprs_passcode = nonempty (env (lit ''OPENQSP_APRS_PASSCODE'')),
         sv_aprs_host = get_env env ''OPENQSP_APRS_HOST'' ''rotate.aprs2.net'', sv_aprs_port = aprs_port,
         sv_aprs_filter = nonempty (env (lit ''OPENQSP_APRS_FILTER''))\<rparr> in
     bindE (validate_config c) (\<lambda>_. Inr c))))))))"

text \<open>\<open>with_overrides\<close> for the three values the command line can give.\<close>

definition with_overrides :: "pystr option \<Rightarrow> pystr option \<Rightarrow> int option \<Rightarrow> server_config \<Rightarrow> server_config config" where
  "with_overrides database_path tcp_host tcp_port c =
     (let c = c\<lparr>sv_database := (case database_path of None \<Rightarrow> sv_database c | Some p \<Rightarrow> p),
                sv_tcp_host := (case tcp_host of None \<Rightarrow> sv_tcp_host c | Some h \<Rightarrow> h),
                sv_tcp_port := (case tcp_port of None \<Rightarrow> sv_tcp_port c | Some p \<Rightarrow> p)\<rparr>
      in bindE (validate_config c) (\<lambda>_. Inr c))"

definition effective_aprs_filter :: "server_config \<Rightarrow> pystr option" where
  "effective_aprs_filter c =
     (if missing (sv_aprs_filter c)
      then (if missing (sv_aprs_callsign c) then None else Some (lit ''g/'' @ the (sv_aprs_callsign c)))
      else sv_aprs_filter c)"

subsection \<open>Properties\<close>

text \<open>
  What the configuration promises: a configuration that is accepted can be run, whatever the
  environment and the command line say, and the dotenv file never replaces a value of the
  environment. A lifetime that is no number is the one error that is not a \<open>ConfigurationError\<close>.
\<close>

lemma port_dec: "port name (dec i) = Inr p \<Longrightarrow> p = i \<and> 1 \<le> i \<and> i \<le> 65535"
  by (auto simp: port_def dest: py_int_dec_only split: option.splits if_splits)

text \<open>What the start of the node relies on.\<close>

definition runnable :: "server_config \<Rightarrow> bool" where
  "runnable c \<longleftrightarrow> (\<forall>p \<in> {sv_tcp_port c, sv_aprs_port c, sv_api_port c}. 1 \<le> p \<and> p \<le> 65535)
     \<and> (sv_tcp_enabled c \<or> sv_aprs_enabled c \<or> sv_api_enabled c) \<and> 0 < sv_api_token_lifetime c
     \<and> (sv_api_enabled c \<longrightarrow> (\<exists>x xs. sv_api_token_secret c = Some (x # xs)))
     \<and> (sv_aprs_enabled c \<longrightarrow> (\<exists>x xs y ys. sv_aprs_callsign c = Some (x # xs) \<and> sv_aprs_passcode c = Some (y # ys)))"

lemma present: "\<not> missing v \<longleftrightarrow> (\<exists>x xs. v = Some (x # xs))"
  by (cases v) (auto simp: missing_def neq_Nil_conv)

lemma validate_runnable: "validate_config c = Inr () \<Longrightarrow> runnable c"
  by (auto simp: validate_config_def runnable_def present bindE_eq_Inr not_less not_le split: if_splits dest!: port_dec)

text \<open>An accepted configuration can be run, and the command line wins over the environment.\<close>

theorem accepted_config_runnable:
  assumes "from_environment env = Inr c" "with_overrides path host tcp_port c = Inr c'"
  shows "runnable c \<and> runnable c' \<and> (\<forall>p. tcp_port = Some p \<longrightarrow> sv_tcp_port c' = p)
    \<and> (tcp_port = None \<longrightarrow> sv_tcp_port c' = sv_tcp_port c)
    \<and> sv_api_token_secret c' = sv_api_token_secret c \<and> sv_aprs_passcode c' = sv_aprs_passcode c"
proof -
  have "runnable c" using assms(1) validate_runnable
    by (auto simp: from_environment_def bindE_eq_Inr Let_def)
  moreover have "runnable c'" using assms(2) validate_runnable
    by (auto simp: with_overrides_def bindE_eq_Inr Let_def)
  ultimately show ?thesis using assms(2) by (auto simp: with_overrides_def bindE_eq_Inr Let_def)
qed

lemma setdefault_keeps: "env k = Some v \<Longrightarrow> (setdefault k' w env) k = Some v" "\<exists>v. (setdefault k w env) k = Some v"
  by (auto simp: setdefault_def)

lemma load_lines_keeps: "load_lines alnum file n lines env = (r, env') \<Longrightarrow> env k = Some v \<Longrightarrow> env' k = Some v"
  by (induction lines arbitrary: n env)
    (auto simp: setdefault_keeps split: sum.splits option.splits prod.splits)

lemma load_lines_defined:
  "load_lines alnum file n lines env = (Inr (), env') \<Longrightarrow> dom env' \<subseteq> dom env'' \<Longrightarrow>
     load_lines alnum file n lines env'' = (Inr (), env'')"
proof (induction lines arbitrary: n env)
  case (Cons raw lines)
  show ?case
  proof (cases "dotenv_entry alnum file n raw")
    case (Inr e)
    show ?thesis
    proof (cases e)
      case (Some kv)
      obtain k v where kv: "kv = (k, v)" by (cases kv)
      have l: "load_lines alnum file (n + 1) lines (setdefault k v env) = (Inr (), env')"
        using Cons.prems(1) Inr Some kv by simp
      obtain w where "(setdefault k v env) k = Some w" using setdefault_keeps(2) by blast
      then have "env' k = Some w" by (rule load_lines_keeps [OF l])
      then obtain w' where "env'' k = Some w'" using Cons.prems(2) by blast
      then have "setdefault k v env'' = env''" by (simp add: setdefault_def)
      then show ?thesis using Cons.IH [OF l Cons.prems(2)] Inr Some kv by simp
    qed (use Cons Inr in simp)
  qed (use Cons in simp)
qed simp

text \<open>The dotenv file only adds names, and loading it again changes nothing.\<close>

theorem dotenv_keeps_environment:
  assumes "load_dotenv alnum file content env = (r, env')"
  shows "(\<forall>k v. env k = Some v \<longrightarrow> env' k = Some v)
    \<and> (r = Inr () \<longrightarrow> load_dotenv alnum file content env' = (Inr (), env'))"
  using assms load_lines_keeps load_lines_defined
  by (auto simp: load_dotenv_def split: option.splits)

text \<open>A lifetime that is no integer: the error is no \<open>ConfigurationError\<close>.\<close>

lemma lifetime_error:
  assumes "env_boolean env ''OPENQSP_TCP_ENABLED'' ''true'' = Inr t" "env_port env ''OPENQSP_TCP_PORT'' ''8023'' = Inr p"
    "env_boolean env ''OPENQSP_API_ENABLED'' ''false'' = Inr a" "env_port env ''OPENQSP_API_PORT'' ''8000'' = Inr q"
    "py_int (get_env env ''OPENQSP_API_TOKEN_LIFETIME'' ''3600'') = None"
  shows "from_environment env = Inl BareValueError"
  using assms by (simp add: from_environment_def)

end
