(* ===== verification/Application.thy ===== *)
theory Application
  imports Server_Config Api Aprs_Is Tcp_Server Migrations
begin

text \<open>
  The production server (\<open>server/app.py\<close>): how a configuration becomes running transports that share
  one core, one database and one router, how they are closed, and what \<open>main\<close> does with the command
  line. The parts hold references to the shared objects; here each holds a copy, and \<open>share\<close> brings
  the copies up to date. Signals, the event loop and uvicorn are outside: what opening the TCP port
  gives is an argument, and the task of a transport is whether it has been created.
\<close>

section \<open>State\<close>

datatype start_error =
    StartConfiguration config_error
  | StartDatabase schema_error
  | StartException exn
  | StartOSError pystr

record application =
  oa_config :: server_config
  oa_core :: server
  oa_router :: router
  oa_tcp :: "tcp_node option"
  oa_adapter :: "burst_adapter option"
  oa_client :: "(aprsis_config \<times> pystr \<times> int \<times> aprsis_client) option"
  oa_aprs_task :: bool
  oa_api :: "(signer \<times> api) option"
  oa_api_task :: bool
  oa_should_exit :: bool
  oa_closed :: bool
  oa_close_started :: bool

text \<open>The listeners of the core, by number.\<close>

definition router_listener :: nat where "router_listener = 0"
definition tcp_listener :: nat where "tcp_listener = 1"
definition hub_listener_id :: nat where "hub_listener_id = 2"

definition new_router :: router where
  "new_router = \<lparr>rt_presence = Map.empty, rt_websocket_delivery = False, rt_aprs_delivery = False\<rparr>"

definition share_adapter :: "server \<Rightarrow> router \<Rightarrow> burst_adapter \<Rightarrow> burst_adapter" where
  "share_adapter core rt s = s\<lparr>ad_core := core, ad_router := Some rt\<rparr>"

definition share :: "application \<Rightarrow> application" where
  "share app =
     (let core = oa_core app; rt = oa_router app in
      app\<lparr>oa_tcp := map_option (\<lambda>node. node\<lparr>tn_core := core\<rparr>) (oa_tcp app),
          oa_adapter := map_option (share_adapter core rt) (oa_adapter app),
          oa_client := map_option (\<lambda>(c, host, p, cl). (c, host, p, cl\<lparr>is_adapter := share_adapter core rt (is_adapter cl)\<rparr>)) (oa_client app),
          oa_api := map_option (\<lambda>(sg, ap). (sg, \<lparr>ap_core = core, ap_hub = (ap_hub ap)\<lparr>eh_router := rt\<rparr>\<rparr>)) (oa_api app)\<rparr>)"

text \<open>\<open>OpenQSPServer(config)\<close> on the file the configuration names.\<close>

definition new_application :: "server_config \<Rightarrow> schema \<Rightarrow> (start_error + application) \<times> schema" where
  "new_application c file =
     (case validate_config c of
        Inl e \<Rightarrow> (Inl (StartConfiguration e), file)
      | Inr _ \<Rightarrow>
          (case initialize file of
             (Inl e, file) \<Rightarrow> (Inl (StartDatabase e), file)
           | (Inr _, file) \<Rightarrow>
               (case to_database file of
                  None \<Rightarrow> (Inl (StartDatabase No_such_table), file)
                | Some db \<Rightarrow>
                    (let core = add_message_listener router_listener \<lparr>sv_message_store = True, sv_bulletin_store = True,
                           sv_message_listeners = [], sv_delivery_listeners = [], sv_db = db\<rparr> in
                     (Inr \<lparr>oa_config = c, oa_core = core, oa_router = new_router, oa_tcp = None, oa_adapter = None,
                        oa_client = None, oa_aprs_task = False, oa_api = None, oa_api_task = False, oa_should_exit = False,
                        oa_closed = False, oa_close_started = False\<rparr>, file)))))"

section \<open>Starting\<close>

type_synonym start = "application \<Rightarrow> start_error option \<times> application"

definition start_tcp :: "pystr option \<Rightarrow> start" where
  "start_tcp bind app =
     (if \<not> sv_tcp_enabled (oa_config app) then (None, app)
      else (let node = new_tcp_server (oa_core app) [] True False tcp_listener;
                app = share (app\<lparr>oa_tcp := Some node, oa_core := tn_core node\<rparr>) in
        case bind of
          Some error \<Rightarrow> (Some (StartOSError error), app)
        | None \<Rightarrow> (None, app\<lparr>oa_tcp := Option.bind (oa_tcp app) tcp_start\<rparr>)))"

definition aprs_config :: "server_config \<Rightarrow> aprsis_config" where
  "aprs_config c =
     \<lparr>ic_passcode = the (sv_aprs_passcode c), ic_callsign = the (sv_aprs_callsign c), ic_software = lit ''OpenQSP'',
      ic_version = lit ''0.1'', ic_reconnect_delay = 5, ic_reconnect_max_delay = 30, ic_reconnect_jitter = 1 / 5,
      ic_connect_timeout = 10, ic_login_timeout = 10, ic_idle_timeout = 120, ic_poll_interval = 1,
      ic_require_verified = True, ic_filter = effective_aprs_filter c\<rparr>"

definition start_aprs :: start where
  "start_aprs app =
     (let c = oa_config app in
      if \<not> sv_aprs_enabled c then (None, app)
      else if missing (sv_aprs_callsign c) \<or> missing (sv_aprs_passcode c) then (Some (StartException AssertionError), app)
      else (case new_burst_adapter 5 2 (oa_core app) default_config (the (sv_aprs_callsign c)) (Some (oa_router app)) router_listener of
          Inl e \<Rightarrow> (Some (StartException e), app)
        | Inr s \<Rightarrow>
            (let app = share (app\<lparr>oa_adapter := Some s, oa_router := the (ad_router s)\<rparr>) in
             case check_aprsis (aprs_config c) of
               Inl e \<Rightarrow> (Some (StartException e), app)
             | Inr cfg \<Rightarrow>
                 (case new_aprsis_client s of
                    Inl e \<Rightarrow> (Some (StartException e), app)
                  | Inr cl \<Rightarrow>
                      (None, share (app\<lparr>oa_client := Some (cfg, sv_aprs_host c, sv_aprs_port c, cl), oa_aprs_task := True\<rparr>))))))"

definition start_api :: start where
  "start_api app =
     (let c = oa_config app in
      if \<not> sv_api_enabled c then (None, app)
      else if missing (sv_api_token_secret c) then (Some (StartException AssertionError), app)
      else (let h = new_hub (oa_router app); app = share (app\<lparr>oa_router := eh_router h\<rparr>) in
        case utf8_encode (the (sv_api_token_secret c)) of
          None \<Rightarrow> (Some (StartException UnicodeEncodeError), app)
        | Some secret \<Rightarrow>
            (let ap = create_api hub_listener_id router_listener (oa_core app) h in
             (None, share (app\<lparr>oa_core := ap_core ap,
                oa_api := Some (\<lparr>sg_secret = secret, sg_lifetime = sv_api_token_lifetime c\<rparr>, ap), oa_api_task := True\<rparr>)))))"

text \<open>\<open>start\<close>: the transports in order; what an earlier one has started stays when a later one fails.\<close>

definition start_application :: "pystr option \<Rightarrow> start" where
  "start_application bind app =
     (case start_tcp bind app of
        (Some e, app) \<Rightarrow> (Some e, app)
      | (None, app) \<Rightarrow>
          (case start_aprs app of
             (Some e, app) \<Rightarrow> (Some e, app)
           | (None, app) \<Rightarrow> start_api app))"

section \<open>Closing\<close>

text \<open>The client and its task are stopped; what the task raises is dropped.\<close>

definition stop_tasks :: "application \<Rightarrow> application" where
  "stop_tasks app = app\<lparr>oa_close_started := True,
     oa_client := map_option (\<lambda>(c, host, p, cl). (c, host, p, stop_client cl)) (oa_client app),
     oa_aprs_task := False, oa_should_exit := oa_api app \<noteq> None\<rparr>"

text \<open>\<open>await self._api_task\<close>: how the task of the API ended is an argument, \<open>Some e\<close> when it raised.\<close>

definition await_api :: "start_error option \<Rightarrow> application \<Rightarrow> start_error option \<times> application" where
  "await_api failure app =
     (if \<not> oa_api_task app then (None, app)
      else (case failure of Some e \<Rightarrow> (Some e, app) | None \<Rightarrow> (None, app\<lparr>oa_api_task := False\<rparr>)))"

definition close_aprs :: "application \<Rightarrow> application" where
  "close_aprs app =
     (case oa_adapter app of
        None \<Rightarrow> app
      | Some s \<Rightarrow> share (app\<lparr>oa_adapter := Some (close_adapter s), oa_router := the (ad_router (close_adapter s))\<rparr>))"

definition close_tcp :: "nat list \<Rightarrow> application \<Rightarrow> application" where
  "close_tcp connections app =
     (case oa_tcp app of
        None \<Rightarrow> app
      | Some node \<Rightarrow>
          (let node = tcp_close connections node in share (app\<lparr>oa_tcp := Some node, oa_core := tn_core node\<rparr>)))"

text \<open>
  \<open>close\<close>; the connections the TCP server closes are given in their order. What the task of the API
  raised leaves \<open>close\<close> before the adapter and the TCP server are closed.
\<close>

definition close_application :: "nat list \<Rightarrow> start_error option \<Rightarrow> application \<Rightarrow> start_error option \<times> application" where
  "close_application connections failure app =
     (if oa_close_started app then (None, app)
      else (case await_api failure (stop_tasks app) of
          (Some e, app) \<Rightarrow> (Some e, app)
        | (None, app) \<Rightarrow> (None, (close_tcp connections (close_aprs app))\<lparr>oa_closed := True\<rparr>)))"

text \<open>
  \<open>_run(config)\<close>: the error, if any, that leaves it; an error of \<open>close\<close> replaces one of \<open>start\<close>. Here
  the server is closed at once; what happens while it runs is the subject of the other theories.
\<close>

definition run_application ::
  "server_config \<Rightarrow> pystr option \<Rightarrow> start_error option \<Rightarrow> nat list \<Rightarrow> schema \<Rightarrow> start_error option \<times> application option \<times> schema" where
  "run_application c bind failure connections file =
     (case new_application c file of
        (Inl e, file) \<Rightarrow> (Some e, None, file)
      | (Inr app, file) \<Rightarrow>
          (case start_application bind app of
             (e, app) \<Rightarrow>
               (case close_application connections failure app of
                  (e', app) \<Rightarrow> (if e' = None then e else e', Some app, file))))"

section \<open>The program\<close>

record main_args =
  ma_database :: "pystr option"
  ma_host :: "pystr option"
  ma_port :: "int option"
  ma_create_account :: "(pystr \<times> pystr) option"

datatype main_end =
    RunServer server_config
  | Created pystr
  | ConfigurationExit pystr
  | MainTraceback start_error

definition configuration :: "(nat \<Rightarrow> bool) \<Rightarrow> pystr option \<Rightarrow> environment \<Rightarrow> main_args \<Rightarrow> server_config config" where
  "configuration alnum dotenv env args =
     (case load_dotenv alnum (lit ''.env'') dotenv env of
        (Inl e, _) \<Rightarrow> Inl e
      | (Inr _, env) \<Rightarrow>
          bindE (from_environment env) (\<lambda>c. with_overrides (ma_database args) (ma_host args) (ma_port args) c))"

text \<open>\<open>main\<close> up to \<open>asyncio.run\<close>; only a \<open>ConfigurationError\<close> is caught.\<close>

definition server_main ::
  "(nat \<Rightarrow> bool) \<Rightarrow> pystr option \<Rightarrow> environment \<Rightarrow> main_args \<Rightarrow> derivation \<Rightarrow> bytes \<Rightarrow> int \<Rightarrow> schema \<Rightarrow> main_end \<times> schema" where
  "server_main alnum dotenv env args kdf salt now file =
     (case configuration alnum dotenv env args of
        Inl (ConfigurationError m) \<Rightarrow> (ConfigurationExit (lit ''configuration error: '' @ m), file)
      | Inl e \<Rightarrow> (MainTraceback (StartConfiguration e), file)
      | Inr c \<Rightarrow>
          (case ma_create_account args of
             None \<Rightarrow> (RunServer c, file)
           | Some (callsign, password) \<Rightarrow>
               (case initialize file of
                  (Inl e, file) \<Rightarrow> (MainTraceback (StartDatabase e), file)
                | (Inr _, file) \<Rightarrow>
                    (case to_database file of
                       None \<Rightarrow> (MainTraceback (StartDatabase No_such_table), file)
                     | Some db \<Rightarrow>
                         (case create_account kdf salt now (PStr callsign) (PStr password) db of
                            (Inl e, db) \<Rightarrow> (MainTraceback (StartException e), file\<lparr>sc_accounts := Some (accounts db)\<rparr>)
                          | (Inr created, db) \<Rightarrow> (Created created, file\<lparr>sc_accounts := Some (accounts db)\<rparr>))))))"

end
