(* ===== verification/Application_Properties.thy ===== *)
theory Application_Properties
  imports Application Aprs_Is_Properties Migration_Properties
begin

text \<open>
  What the production server promises: an accepted configuration starts exactly when its port is
  free, its APRS callsign is a station's and its secret can be encoded; the TCP port it opens never
  accepts development authentication; and closing stops whatever was started, once.
\<close>

section \<open>Starting\<close>





text \<open>The parts of a server hold the same core and router.\<close>

definition shared :: "application \<Rightarrow> bool" where
  "shared app \<longleftrightarrow> pred_option (\<lambda>node. tn_core node = oa_core app) (oa_tcp app)
     \<and> pred_option (\<lambda>s. ad_core s = oa_core app \<and> ad_router s = Some (oa_router app)) (oa_adapter app)
     \<and> pred_option (\<lambda>(_, ap). ap_core ap = oa_core app \<and> eh_router (ap_hub ap) = oa_router app) (oa_api app)"

definition production_node :: "tcp_node \<Rightarrow> bool" where
  "production_node node \<longleftrightarrow> \<not> tn_allow_development_auth node \<and> tn_account_store node
     \<and> tn_connections node = Map.empty \<and> tn_listener node = tcp_listener"

text \<open>The state of a server after \<open>start\<close>, as far as closing and serving depend on it.\<close>

definition listeners_ok :: "application \<Rightarrow> bool" where
  "listeners_ok app \<longleftrightarrow> sv_message_listeners (oa_core app) = [router_listener] @ (if oa_tcp app = None then [] else [tcp_listener])
     @ (if oa_api app = None then [] else [hub_listener_id])"

definition started_ok :: "server_config \<Rightarrow> application \<Rightarrow> bool" where
  "started_ok c app \<longleftrightarrow> oa_config app = c \<and> \<not> oa_closed app \<and> \<not> oa_close_started app
     \<and> pred_option production_node (oa_tcp app) \<and> shared app \<and> listeners_ok app"

lemma share_simps [simp]:
  "oa_config (share app) = oa_config app" "oa_core (share app) = oa_core app" "oa_router (share app) = oa_router app"
  "oa_aprs_task (share app) = oa_aprs_task app" "oa_api_task (share app) = oa_api_task app"
  "oa_should_exit (share app) = oa_should_exit app" "oa_closed (share app) = oa_closed app"
  "oa_close_started (share app) = oa_close_started app"
  "oa_tcp (share app) = map_option (\<lambda>node. node\<lparr>tn_core := oa_core app\<rparr>) (oa_tcp app)"
  "oa_adapter (share app) = map_option (share_adapter (oa_core app) (oa_router app)) (oa_adapter app)"
  "oa_api (share app) = map_option (\<lambda>(sg, ap). (sg, \<lparr>ap_core = oa_core app, ap_hub = (ap_hub ap)\<lparr>eh_router := oa_router app\<rparr>\<rparr>)) (oa_api app)"
  by (simp_all add: share_def Let_def)

lemma running_share [simp]:
  "pred_option (\<lambda>(_, _, _, cl). P (is_running cl)) (oa_client (share app)) \<longleftrightarrow> pred_option (\<lambda>(_, _, _, cl). P (is_running cl)) (oa_client app)"
  by (cases "oa_client app") (auto simp: share_def Let_def split: prod.splits)

lemma share_shared [simp]: "shared (share app)"
  by (cases "oa_tcp app"; cases "oa_adapter app"; cases "oa_api app") (auto simp: shared_def share_adapter_def)

lemma production_share [simp]:
  "pred_option production_node (map_option (\<lambda>node. node\<lparr>tn_core := core\<rparr>) tcp) \<longleftrightarrow> pred_option production_node tcp"
  by (cases tcp) (simp_all add: production_node_def)

lemma listeners_share [simp]: "listeners_ok (share app) \<longleftrightarrow> listeners_ok app"
  by (simp add: listeners_ok_def)

lemma started_share [simp]:
  "started_ok c (share app) \<longleftrightarrow> oa_config app = c \<and> \<not> oa_closed app \<and> \<not> oa_close_started app
     \<and> pred_option production_node (oa_tcp app) \<and> listeners_ok app"
  by (simp add: started_ok_def)

text \<open>Whether the port is open.\<close>

definition listening :: "application \<Rightarrow> bool" where
  "listening app \<longleftrightarrow> (\<exists>node. oa_tcp app = Some node \<and> tn_started node)"

lemma listening_share [simp]: "listening (share app) = listening app"
  by (auto simp: listening_def)





section \<open>Closing\<close>
















end
