(* ===== verification/Spec2Isabelle.thy ===== *)
theory Spec2Isabelle
  imports Protocol_Properties Store_Properties Presence Sessions Core_Properties Carriage_Properties Base_Receive Burst_Properties Tcp_Properties
    Api_Properties Aprs_Is_Properties Migration_Properties Frame_Tool_Properties Cli_Properties
    Client_Sim_Properties Application_Properties
begin

text \<open>
  OpenQSP is a store-and-forward messaging node for amateur radio. Stations reach the node over
  APRS packet radio, over TCP or over an HTTP and WebSocket API; the node authenticates them,
  stores their private messages and bulletins in SQLite, and pushes new messages to wherever the
  recipient was last heard. This library models the Python package under
  \<open>src/server/src/openqsp\<close> and proves what its parts promise.

  \<^bold>\<open>The parts of the program and their theories.\<close>
  Paths are relative to \<open>src/server/src/openqsp\<close>; a definition has the name of the function or
  method it translates, with a suffix where HOL or another module has that name already.

  \<^item> Vocabulary: \<open>Prelude\<close> (bytes, dynamically typed Python values, exceptions and the result
    type, big-endian integers), \<open>Utf8\<close>, \<open>Py_Text\<close> (\<open>split\<close>, \<open>strip\<close>, \<open>int(text)\<close>),
    \<open>Ordered_Dict\<close> (insertion-ordered dictionaries), \<open>Json\<close> (the standard library's reader and
    writer), \<open>Sqlite\<close> (values, private copies, commit and rollback), \<open>Effects\<close> (actions of the
    adapters: state, exceptions and events).
  \<^item> Core protocol: \<open>Protocol\<close> (\<open>protocol/constants.py\<close>, \<open>models.py\<close>, \<open>errors.py\<close>),
    \<open>Field_Codec\<close>, \<open>Codec\<close> and \<open>Frame\<close> (\<open>protocol/codec.py\<close>, \<open>get_message_wire.py\<close>). The lemmas
    of \<open>Codec_Inverse\<close> and \<open>Frame_Props\<close> say that each decoder is the inverse of its encoder;
    \<open>Protocol_Properties\<close> states the round trips of whole frames, canonicity and totality.
  \<^item> Storage: \<open>Store_Common\<close> (\<open>storage/_common.py\<close>), \<open>Database\<close> (the tables of schema version 5),
    \<open>Message_Store\<close> (\<open>storage/messages.py\<close>, \<open>conversation_lookup.py\<close>), \<open>Bulletin_Store\<close>
    (\<open>bulletins.py\<close>), \<open>Accounts\<close> (\<open>accounts.py\<close>),
    \<open>Migrations\<close> (\<open>migrations.py\<close>, \<open>database.py\<close>: the five migrations and \<open>initialize\<close>). \<open>Mailboxes\<close>, \<open>Storing\<close>,
    \<open>Conversations\<close> and \<open>Store_Steps\<close> prove the invariant \<open>db_ok\<close> of every reachable database;
    \<open>Paging\<close> is the contract of a paged log (a \<open>locale\<close>), which \<open>Store_Logs\<close> interprets on the
    mailboxes, the bulletins and the API's list. \<open>Store_Properties\<close> collects the promises:
    appends, atomic failures, complete and interleaving-proof synchronisation, idempotent
    submissions, immutable messages, stable numbers, the delivery life cycle.
  \<^item> Core: \<open>Presence\<close> (\<open>server/presence.py\<close> and the delivery router), \<open>Sessions\<close>
    (\<open>server/sessions.py\<close>), \<open>Core\<close> (\<open>server/core.py\<close>, \<open>get_message_core.py\<close>). \<open>Core_Facts\<close> and
    \<open>Core_Properties\<close>: every frame is answered, and a frame acts only for its authenticated user.
  \<^item> APRS: \<open>Radix\<close>, \<open>Base91\<close> and \<open>Carriage\<close> (\<open>transport/aprs/carriage.py\<close>), \<open>Reassembly\<close>
    (\<open>state.py\<close>), \<open>Adapter\<close> (\<open>adapter.py\<close>), \<open>Commit_Adapter\<close> (\<open>commit_adapter.py\<close>,
    \<open>commit_ack.py\<close>), \<open>Burst_Control\<close> and \<open>Burst_Adapter\<close> (\<open>selective_burst.py\<close>,
    \<open>selective_burst_guarded.py\<close>), \<open>Aprs_Diagnostics\<close> (\<open>diagnostics.py\<close>) and \<open>Aprs_Is\<close> (\<open>aprsis.py\<close>: the login, the
    loop of a connection and the reconnections). \<open>Carriage_Facts\<close>, \<open>Reassembly_Facts\<close>,
    \<open>Replay_Facts\<close> and \<open>Carriage_Properties\<close>: fragments round-trip in any order, state is
    bounded. \<open>Receiving\<close> and \<open>Base_Receive\<close> state what receiving keeps as a \<open>locale\<close> over the
    methods the adapters override, interpreted on the adapters. \<open>Burst_Invariant\<close>, \<open>Burst_Steps\<close>,
    \<open>Burst_Polling\<close>, \<open>Burst_Peers\<close>, \<open>Burst_Retry\<close> and \<open>Request_Once\<close> lead to
    \<open>Burst_Properties\<close>: bounded state, polling as an independent step of each peer, ending
    retries, requests that take effect once.
  \<^item> TCP: \<open>Tcp_Server\<close> (\<open>server/tcp.py\<close>, \<open>transport/tcp.py\<close>), \<open>Tcp_Client\<close> (\<open>client/tcp.py\<close>).
    \<open>Incremental\<close> is the contract of a reader of a byte stream; \<open>Tcp_Stream\<close> and \<open>Tcp_Session\<close>
    interpret it on server and client and run the two against each other: a run of a connection
    (\<open>run_to\<close>) is what arrives on it with everything else the server does in between
    (\<open>other_step\<close>), which only adds pushed frames to it. \<open>Tcp_Properties\<close> states what accounts, server and the pair promise.
  \<^item> HTTP and WebSocket API (\<open>api/app.py\<close>): \<open>Api_Tokens\<close>, \<open>Event_Hub\<close> with \<open>Hub_Invariant\<close>,
    \<open>Api\<close> (the endpoints), \<open>Api_Sync\<close> (synchronisation, over the log contract) and
    \<open>Api_Properties\<close>.
  \<^item> Programs: \<open>Py_Shell\<close> (\<open>shlex.split\<close>, \<open>int(text, 0)\<close>, lines), \<open>Server_Config\<close>
    (\<open>server/config.py\<close>) and \<open>Application\<close> (\<open>server/app.py\<close>: how a configuration becomes
    transports that share a core, and how they close), \<open>Client_Cli\<close> (\<open>client/cli.py\<close>),
    \<open>Frame_Tool\<close> (\<open>src/tools/frame_tool.py\<close>) and \<open>Client_Sim\<close> (\<open>src/tools/client_sim.py\<close>).
    \<open>Server_Config\<close> and \<open>Application_Properties\<close>: an accepted configuration can be run, exactly
    when it starts, and closing stops everything, unless the API task failed. \<open>Cli_Properties\<close>: a page shown is a page of the
    mailbox, and which commands end the program. \<open>Frame_Tool_Properties\<close>: what the tool encodes it
    decodes, and which frames end it. \<open>Client_Sim_Properties\<close>: both modes give the same responses, the
    one over TCP from the bytes the modelled server writes, except for a message to oneself.
  \<^item> \<open>Aprs_Is_Properties\<close>: nothing is sent before the login is confirmed, fragments cross the
    network unchanged, the delays between attempts. \<open>Migration_Properties\<close>: migration keeps every
    mailbox and its order and numbers it anew, a migrated file satisfies the invariant of the
    stores, and initialising is atomic.

  \<^bold>\<open>How they interact.\<close> An adapter (APRS, TCP, API) turns what it receives into complete Core
  frames or API calls and gives them to the \<open>ServerCore\<close> (\<open>handle_frame\<close>) under an authenticated
  callsign; the core reads and writes the stores, records presence, and calls its listeners, which
  the model returns as events; the delivery router picks the one route of the recipient and calls
  the adapter of that transport. The APRS adapters extend one another by overriding methods; the
  model passes the overridden methods as a record.

  \<^bold>\<open>Modelling decisions.\<close>
  \<^item> Integers are unbounded as in Python; bytes are \<open>8 word\<close>; text is a list of code points.
    Arguments that the code checks with \<open>isinstance\<close> have the type \<open>pyval\<close>; fields of dataclasses
    have the type their annotation and their constructors give them. SQLite columns hold \<open>sqlval\<close>.
  \<^item> Every \<open>raise\<close> is a value \<open>Inl\<close> of a result, with the class of the exception and the text of
    \<open>str(error)\<close>. A transaction (\<open>BEGIN IMMEDIATE\<close>) is one atomic step on the database.
  \<^item> Clocks, identifiers and random choices are arguments, so that every theorem holds for all of
    their values. Times are rational numbers. Threads and coroutines are steps: a TCP handler is
    the code between two completed reads, a WebSocket handler is cut at its \<open>await\<close> points, and the
    theorems quantify over all sequences of steps.
  \<^item> Dictionaries are insertion-ordered lists, sets are lists without a promise about the order,
    the heap of pending packets is the list of its entries in pop order; the identity test on
    \<open>_BurstTx\<close> objects compares the order number each object gets.
  \<^item> Regular expressions are tests of the characters at each position. \<open>str.upper\<close> and
    \<open>casefold\<close> are modelled as far as the result can be ASCII; \<open>int(text)\<close> and \<open>int(text, 0)\<close> accept the decimal
    digits of Unicode 15 (\<open>decimal_zeros\<close>), the version of Python 3.12, and strip the white space
    CPython strips.
  \<^item> PBKDF2, HMAC-SHA256, SHA-256, \<open>int(float)\<close>, the JSON codecs for other encodings than UTF-8
    and the applications' callbacks are parameters without hypotheses, except where a property
    names one (no collision of the derived key of two given passwords, for example). Times of
    delivery in the range of \<open>gmtime\<close> (\<open>dated\<close>) is a hypothesis of API synchronisation.

  \<^bold>\<open>Bounds and fuel.\<close> The frame bounds of the code (4-byte header, at most 255 bytes of payload,
  pages of at most 20 messages, 16 fragments) are kept and proved. Loops are structural recursion
  or recursion on a measure. The JSON reader has fuel \<open>2 * length + 1\<close>, which \<open>read_enough\<close> shows to
  be enough: more fuel never changes a result. CPython's recursion limit is not modelled. The
  handler of a TCP connection (\<open>tcp_pump\<close>) needs no fuel: each round consumes input or closes the
  connection (\<open>advance_pending\<close>).

  \<^bold>\<open>Not modelled.\<close>
  The simulator \<open>src/tools/aprs_sim.py\<close> and the scripts under \<open>src/tools/scenarios\<close> with
  \<open>scenario_environment.py\<close>: they are test programs that drive the modelled parts with fixed inputs.
  The argument parsers, log records, signals, the event loop, uvicorn, the opening of files and
  sockets, and SQLite's journal and timeouts. Python's text of a \<open>UnicodeEncodeError\<close>. FastAPI,
  pydantic, asyncio and SQLite are modelled as far as the code relies on what they document.
\<close>

end
